(* ===== verification/Claw_Prelude.thy ===== *)
theory Claw_Prelude
  imports Main "HOL-Library.Word"
begin

text \<open>
  What every theory of the development shares: the names of the machine types of the Go
  code, the conversions between Go strings and byte slices, big-endian integers
  (\<^verbatim>\<open>encoding/binary\<close>), and generic lemmas on lists that more than one component uses.

  A Go \<^verbatim>\<open>string\<close> is a sequence of bytes, and so is an Isabelle \<open>string\<close> (a \<open>char\<close> has
  eight bits); a \<^verbatim>\<open>[]byte\<close> is a list of 8-bit words. \<open>string_of_bytes\<close> and
  \<open>bytes_of_string\<close> are the conversions \<^verbatim>\<open>string(b)\<close> and \<^verbatim>\<open>[]byte(s)\<close>, which copy the
  bytes and validate nothing.
\<close>

type_synonym byte = "8 word"
type_synonym u16 = "16 word"
type_synonym u32 = "32 word"
type_synonym u64 = "64 word"

named_theorems unfold_ops
  \<comment> \<open>the definitions of the state-changing operations, unfolded together by case proofs\<close>

section \<open>Strings and byte slices\<close>

definition string_of_bytes :: "byte list \<Rightarrow> string" where
  "string_of_bytes bs = map (\<lambda>b. char_of (unat b)) bs"

definition bytes_of_string :: "string \<Rightarrow> byte list" where
  "bytes_of_string s = map (\<lambda>c. word_of_nat (of_char c)) s"

lemma length_string_of_bytes [simp]: "length (string_of_bytes bs) = length bs"
  by (simp add: string_of_bytes_def)

lemma length_bytes_of_string [simp]: "length (bytes_of_string s) = length s"
  by (simp add: bytes_of_string_def)

lemma string_of_bytes_simps [simp]:
  "string_of_bytes [] = []"
  "string_of_bytes (xs @ ys) = string_of_bytes xs @ string_of_bytes ys"
  "string_of_bytes bs = [] \<longleftrightarrow> bs = []"
  by (simp_all add: string_of_bytes_def)

lemma bytes_of_string_simps [simp]:
  "bytes_of_string [] = []"
  "bytes_of_string (s @ t) = bytes_of_string s @ bytes_of_string t"
  "bytes_of_string s = [] \<longleftrightarrow> s = []"
  by (simp_all add: bytes_of_string_def)

lemma unat_byte_less [simp]: "unat (b :: byte) < 256"
  using unsigned_less [of b] by simp

lemma unat_byte_mod [simp]: "unat (b :: byte) mod 256 = unat b"
  by simp

lemma byte_char_inverse: "(word_of_nat (of_char (char_of (unat b) :: char)) :: byte) = b"
  by simp

lemma char_byte_inverse: "char_of (unat (word_of_nat (of_char c) :: byte)) = c"
proof -
  have "(of_char c :: nat) < 256"
    by (rule nat_of_char_less_256)
  then show ?thesis
    by (simp add: unat_of_nat)
qed

lemma bytes_of_string_of_bytes [simp]: "bytes_of_string (string_of_bytes bs) = bs"
  by (induction bs) (simp_all add: bytes_of_string_def string_of_bytes_def)

lemma string_of_bytes_of_string [simp]: "string_of_bytes (bytes_of_string s) = s"
  by (induction s) (simp_all add: bytes_of_string_def string_of_bytes_def char_byte_inverse)

lemma string_of_bytes_inject [simp]: "string_of_bytes xs = string_of_bytes ys \<longleftrightarrow> xs = ys"
  by (metis bytes_of_string_of_bytes)

text \<open>\<^verbatim>\<open>strings.HasPrefix\<close>.\<close>

definition HasPrefix :: "string \<Rightarrow> string \<Rightarrow> bool" where
  "HasPrefix s p \<longleftrightarrow> take (length p) s = p"

section \<open>Big-endian integers\<close>

text \<open>
  \<^verbatim>\<open>binary.BigEndian.PutUint32\<close>, \<^verbatim>\<open>PutUint64\<close> and their inverses: \<open>be_bytes k v\<close> is
  the \<open>k\<close>-byte encoding, most significant byte first, and \<open>be_value\<close> reads one back.
\<close>

fun be_bytes :: "nat \<Rightarrow> nat \<Rightarrow> byte list" where
  "be_bytes 0 v = []"
| "be_bytes (Suc k) v = be_bytes k (v div 256) @ [word_of_nat v]"

definition be_value :: "byte list \<Rightarrow> nat" where
  "be_value bs = foldl (\<lambda>a b. 256 * a + unat b) 0 bs"

lemma length_be_bytes [simp]: "length (be_bytes k v) = k"
  by (induction k arbitrary: v) auto

lemma be_value_snoc: "be_value (bs @ [b]) = 256 * be_value bs + unat b"
  by (simp add: be_value_def)

lemma be_value_bytes: "be_value (be_bytes k v) = v mod 256 ^ k"
proof (induction k arbitrary: v)
  case 0
  show ?case by (simp add: be_value_def)
next
  case (Suc k)
  have "be_value (be_bytes (Suc k) v) = 256 * (v div 256 mod 256 ^ k) + v mod 256"
    by (simp add: be_value_snoc Suc.IH unat_of_nat)
  also have "\<dots> = v mod (256 * 256 ^ k)"
    by (simp add: mod_mult2_eq)
  finally show ?case by simp
qed

definition put_u32 :: "u32 \<Rightarrow> byte list" where
  "put_u32 w = be_bytes 4 (unat w)"

definition get_u32 :: "byte list \<Rightarrow> u32" where
  "get_u32 bs = word_of_nat (be_value bs)"

definition put_u64 :: "u64 \<Rightarrow> byte list" where
  "put_u64 w = be_bytes 8 (unat w)"

definition get_u64 :: "byte list \<Rightarrow> u64" where
  "get_u64 bs = word_of_nat (be_value bs)"

lemma length_put_u32 [simp]: "length (put_u32 w) = 4"
  by (simp add: put_u32_def)

lemma length_put_u64 [simp]: "length (put_u64 w) = 8"
  by (simp add: put_u64_def)

lemma get_put_u32 [simp]: "get_u32 (put_u32 w) = w"
proof -
  have "unat w < 256 ^ 4" using unsigned_less [of w] by simp
  then show ?thesis
    unfolding get_u32_def put_u32_def by (simp only: be_value_bytes mod_less) simp
qed

lemma get_put_u64 [simp]: "get_u64 (put_u64 w) = w"
proof -
  have "unat w < 256 ^ 8" using unsigned_less [of w] by simp
  then show ?thesis
    unfolding get_u64_def put_u64_def by (simp only: be_value_bytes mod_less) simp
qed

lemma put_u64_inject [simp]: "put_u64 v = put_u64 w \<longleftrightarrow> v = w"
  by (metis get_put_u64)

lemma put_u32_inject [simp]: "put_u32 v = put_u32 w \<longleftrightarrow> v = w"
  by (metis get_put_u32)

section \<open>Two bytes in a word\<close>

definition pack8 :: "nat \<Rightarrow> nat \<Rightarrow> 'a::len word" where
  "pack8 a b = word_of_nat (256 * a + b)"

lemma pack8_or:
  assumes "a < 256" "b < 256"
  shows "or (push_bit 8 (word_of_nat a)) (word_of_nat b) = (pack8 a b :: 'a::len word)"
proof -
  have "and (push_bit 8 (word_of_nat a :: 'a word)) (take_bit 8 (word_of_nat b)) = 0"
    by (rule bit_eqI) (auto simp: bit_simps)
  moreover have "take_bit 8 (word_of_nat b :: 'a word) = word_of_nat b"
    using assms(2) by (simp add: take_bit_of_nat take_bit_nat_eq_self)
  ultimately show ?thesis
    by (simp add: pack8_def push_bit_eq_mult disjunctive_add_eq_or [symmetric])
qed

lemma pack8_parts:
  assumes "a < 256" "b < 256" "16 \<le> LENGTH('a)"
  shows "unat (drop_bit 8 (pack8 a b :: 'a::len word)) = a"
    and "unat (and (pack8 a b :: 'a word) 0xFF) = b"
proof -
  have "(2 :: nat) ^ 16 \<le> 2 ^ LENGTH('a)" using assms(3) by (rule power_increasing) simp
  then have "256 * a + b < 2 ^ LENGTH('a)" using assms(1,2) by simp
  then have u: "unat (pack8 a b :: 'a word) = 256 * a + b"
    by (simp add: pack8_def unat_of_nat del: of_nat_add of_nat_mult)
  have "unat (drop_bit 8 (pack8 a b :: 'a word)) = drop_bit 8 (unat (pack8 a b :: 'a word))"
    by (rule unat_drop_bit_eq)
  then show "unat (drop_bit 8 (pack8 a b :: 'a word)) = a" using assms by (simp add: u drop_bit_eq_div)
  have "and (pack8 a b :: 'a word) 0xFF = take_bit 8 (pack8 a b)"
    by (simp add: take_bit_eq_mask mask_eq_exp_minus_1)
  then have "unat (and (pack8 a b :: 'a word) 0xFF) = take_bit 8 (unat (pack8 a b :: 'a word))"
    by (simp add: unsigned_take_bit_eq)
  then show "unat (and (pack8 a b :: 'a word) 0xFF) = b" using assms by (simp add: u take_bit_eq_mod)
qed

lemma pack8_Suc: "pack8 a b + 1 = pack8 a (Suc b)"
  by (simp add: pack8_def)

section \<open>Loops that may panic\<close>

text \<open>A \<^verbatim>\<open>for range\<close> loop whose body may panic: \<open>None\<close> from there on.\<close>

fun fold_opt :: "('a \<Rightarrow> 's \<Rightarrow> 's option) \<Rightarrow> 'a list \<Rightarrow> 's \<Rightarrow> 's option" where
  "fold_opt f [] s = Some s"
| "fold_opt f (x # xs) s = Option.bind (f x s) (fold_opt f xs)"

lemma fold_opt_append: "fold_opt f (xs @ ys) s = Option.bind (fold_opt f xs s) (fold_opt f ys)"
  by (induction xs arbitrary: s) (auto split: bind_splits)

lemma fold_opt_Some: "(\<And>x s. x \<in> set xs \<Longrightarrow> f x s = Some (g x s)) \<Longrightarrow> fold_opt f xs s = Some (fold g xs s)"
  by (induction xs arbitrary: s) auto

text \<open>A loop whose body keeps an invariant and never panics under it.\<close>

lemma fold_opt_invariant:
  assumes "P s" and "\<And>x s. x \<in> set xs \<Longrightarrow> P s \<Longrightarrow> \<exists>s'. f x s = Some s' \<and> P s'"
  shows "\<exists>s'. fold_opt f xs s = Some s' \<and> P s'"
  using assms
proof (induction xs arbitrary: s)
  case (Cons x xs)
  obtain s1 where "f x s = Some s1" "P s1" using Cons.prems(1) Cons.prems(2) [of x s] by auto
  with Cons.IH [of s1] Cons.prems(2) show ?case by auto
qed simp

end
