(* ===== verification/Go_Json.thy ===== *)
theory Go_Json
  imports Claw_Prelude
begin

text \<open>
  The parts of Go's standard library that decide how large a message is on the wire:
  \<^verbatim>\<open>utf8.DecodeRune\<close> and \<^verbatim>\<open>json.Marshal\<close> for the values the daemon marshals (strings,
  integers, booleans, arrays and structs). \<^verbatim>\<open>json.Marshal\<close> escapes control bytes, quotes,
  backslashes and the HTML characters, copies valid UTF-8 unchanged and replaces every byte
  that is not part of a valid encoding by the six characters \<^verbatim>\<open>\ufffd\<close>. The two facts the
  chunking code of the daemon relies on are proved here: an escaped string is at most six
  times its raw length, and escaping is not injective on byte strings that are not UTF-8.
\<close>

section \<open>UTF-8\<close>

definition RuneError :: nat where
  "RuneError = 0xFFFD"

definition in_range :: "nat \<Rightarrow> nat \<Rightarrow> byte \<Rightarrow> bool" where
  "in_range lo hi b \<longleftrightarrow> lo \<le> unat b \<and> unat b \<le> hi"

text \<open>
  \<^verbatim>\<open>utf8.DecodeRune\<close>: the rune at the head of the slice and the bytes it takes;
  \<open>(RuneError, 1)\<close> for an invalid or truncated encoding, \<open>(RuneError, 0)\<close> for an
  empty slice. The ranges of the second byte exclude overlong forms, surrogates and values
  above U+10FFFF.
\<close>

fun decode_rune :: "byte list \<Rightarrow> nat \<times> nat" where
  "decode_rune [] = (RuneError, 0)"
| "decode_rune (b0 # bs) =
    (let p = unat b0 in
     if p < 0x80 then (p, 1)
     else if 0xC2 \<le> p \<and> p \<le> 0xDF then
       (case bs of
          b1 # _ \<Rightarrow> if in_range 0x80 0xBF b1
                     then ((p - 0xC0) * 64 + (unat b1 - 0x80), 2) else (RuneError, 1)
        | _ \<Rightarrow> (RuneError, 1))
     else if 0xE0 \<le> p \<and> p \<le> 0xEF then
       (case bs of
          b1 # b2 # _ \<Rightarrow>
            if in_range (if p = 0xE0 then 0xA0 else 0x80) (if p = 0xED then 0x9F else 0xBF) b1
               \<and> in_range 0x80 0xBF b2
            then ((p - 0xE0) * 4096 + (unat b1 - 0x80) * 64 + (unat b2 - 0x80), 3)
            else (RuneError, 1)
        | _ \<Rightarrow> (RuneError, 1))
     else if 0xF0 \<le> p \<and> p \<le> 0xF4 then
       (case bs of
          b1 # b2 # b3 # _ \<Rightarrow>
            if in_range (if p = 0xF0 then 0x90 else 0x80) (if p = 0xF4 then 0x8F else 0xBF) b1
               \<and> in_range 0x80 0xBF b2 \<and> in_range 0x80 0xBF b3
            then ((p - 0xF0) * 262144 + (unat b1 - 0x80) * 4096 + (unat b2 - 0x80) * 64
                  + (unat b3 - 0x80), 4)
            else (RuneError, 1)
        | _ \<Rightarrow> (RuneError, 1))
     else (RuneError, 1))"

lemmas decode_rune_cases = decode_rune.simps

lemma decode_rune_size:
  "bs \<noteq> [] \<Longrightarrow> 1 \<le> snd (decode_rune bs) \<and> snd (decode_rune bs) \<le> length bs
     \<and> snd (decode_rune bs) \<le> 4"
  by (cases bs) (auto simp: Let_def split: list.splits)

lemma decode_rune_progress: "(c, n) = decode_rune (b # bs) \<Longrightarrow> 0 < n \<and> n \<le> Suc (length bs)"
  using decode_rune_size [of "b # bs"] by (metis Suc_le_eq One_nat_def length_Cons list.discI snd_conv)

text \<open>\<^verbatim>\<open>utf8.AppendRune\<close> for a valid rune.\<close>

definition encode_rune :: "nat \<Rightarrow> byte list" where
  "encode_rune r =
    (if r < 0x80 then [word_of_nat r]
     else if r < 0x800 then [word_of_nat (0xC0 + r div 64), word_of_nat (0x80 + r mod 64)]
     else if r < 0x10000
     then [word_of_nat (0xE0 + r div 4096), word_of_nat (0x80 + r div 64 mod 64),
           word_of_nat (0x80 + r mod 64)]
     else [word_of_nat (0xF0 + r div 262144), word_of_nat (0x80 + r div 4096 mod 64),
           word_of_nat (0x80 + r div 64 mod 64), word_of_nat (0x80 + r mod 64)])"

lemma length_encode_rune: "1 \<le> length (encode_rune r) \<and> length (encode_rune r) \<le> 4"
  by (simp add: encode_rune_def)

section \<open>Escaped strings\<close>

definition hex_digit :: "nat \<Rightarrow> byte" where
  "hex_digit n = (if n < 10 then word_of_nat (48 + n) else word_of_nat (87 + n))"

definition html_safe :: "nat \<Rightarrow> bool" where
  "html_safe c \<longleftrightarrow> 0x20 \<le> c \<and> c < 0x80 \<and> c \<noteq> 0x22 \<and> c \<noteq> 0x5C
     \<and> c \<noteq> 0x3C \<and> c \<noteq> 0x3E \<and> c \<noteq> 0x26"

definition escape_ascii :: "byte \<Rightarrow> byte list" where
  "escape_ascii b =
    (let c = unat b in
     if html_safe c then [b]
     else if c = 0x5C \<or> c = 0x22 then [0x5C, b]
     else if c = 0x08 then [0x5C, 0x62]
     else if c = 0x0C then [0x5C, 0x66]
     else if c = 0x0A then [0x5C, 0x6E]
     else if c = 0x0D then [0x5C, 0x72]
     else if c = 0x09 then [0x5C, 0x74]
     else bytes_of_string [CHR 0x5C, CHR ''u'', CHR ''0'', CHR ''0'']
          @ [hex_digit (c div 16), hex_digit (c mod 16)])"

function json_escape :: "byte list \<Rightarrow> byte list" where
  "json_escape [] = []"
| "json_escape (b # bs) =
    (if unat b < 0x80 then escape_ascii b @ json_escape bs
     else case decode_rune (b # bs) of (c, n) \<Rightarrow>
       if c = RuneError \<and> n = 1
       then bytes_of_string (CHR 0x5C # ''ufffd'') @ json_escape bs
       else if c = 0x2028 \<or> c = 0x2029
       then bytes_of_string (CHR 0x5C # ''u202'') @ [hex_digit (c mod 16)]
            @ json_escape (drop n (b # bs))
       else take n (b # bs) @ json_escape (drop n (b # bs)))"
  by pat_completeness auto
termination
  by (relation "measure length")
    (auto simp del: decode_rune.simps dest!: decode_rune_progress)

declare json_escape.simps(2) [simp del]

lemma length_escape_ascii: "length (escape_ascii b) \<le> 6"
  by (simp add: escape_ascii_def Let_def)

text \<open>The worst case of the escaping: six bytes out for one byte in.\<close>

lemma length_json_escape: "length (json_escape bs) \<le> 6 * length bs"
proof (induction bs rule: json_escape.induct)
  case 1
  show ?case by simp
next
  case (2 b bs)
  obtain c n where cn: "decode_rune (b # bs) = (c, n)" by fastforce
  then have n: "0 < n" "n \<le> Suc (length bs)"
    using decode_rune_progress [of c n b bs] by simp_all
  show ?case
  proof (cases "unat b < 0x80")
    case True
    with 2(1) length_escape_ascii [of b] show ?thesis
      by (simp add: json_escape.simps(2))
  next
    case False
    show ?thesis
      using 2(2-4) [OF False cn [symmetric]] n False cn
      by (auto simp: json_escape.simps(2) simp del: decode_rune.simps)
  qed
qed

section \<open>JSON values\<close>

datatype json =
  JStr string | JNum int | JBool bool | JNull | JArr "json list" | JObj "(string \<times> json) list"

fun dec_digits :: "nat \<Rightarrow> byte list" where
  "dec_digits n = (if n < 10 then [word_of_nat (48 + n)]
                   else dec_digits (n div 10) @ [word_of_nat (48 + n mod 10)])"

declare dec_digits.simps [simp del]

definition json_int :: "int \<Rightarrow> byte list" where
  "json_int i = (if i < 0 then 0x2D # dec_digits (nat (- i)) else dec_digits (nat i))"

definition json_string :: "string \<Rightarrow> byte list" where
  "json_string s = [0x22] @ json_escape (bytes_of_string s) @ [0x22]"

fun comma_join :: "byte list list \<Rightarrow> byte list" where
  "comma_join [] = []"
| "comma_join [x] = x"
| "comma_join (x # y # xs) = x @ [0x2C] @ comma_join (y # xs)"

fun marshal :: "json \<Rightarrow> byte list" where
  "marshal (JStr s) = json_string s"
| "marshal (JNum i) = json_int i"
| "marshal (JBool b) = bytes_of_string (if b then ''true'' else ''false'')"
| "marshal JNull = bytes_of_string ''null''"
| "marshal (JArr xs) = [0x5B] @ comma_join (map marshal xs) @ [0x5D]"
| "marshal (JObj kvs) =
     [0x7B] @ comma_join (map (\<lambda>(k, v). json_string k @ [0x3A] @ marshal v) kvs) @ [0x7D]"

lemma length_dec_digits:
  assumes "n < 10 ^ k" and "0 < k"
  shows "length (dec_digits n) \<le> k"
  using assms
proof (induction n arbitrary: k rule: dec_digits.induct)
  case (1 n)
  show ?case
  proof (cases "n < 10")
    case True
    with \<open>0 < k\<close> show ?thesis by (simp add: dec_digits.simps [of n])
  next
    case False
    with "1.prems" obtain k' where k: "k = Suc (Suc k')"
      by (metis gr0_implies_Suc not_gr0 power_Suc0_right)
    then have "n div 10 < 10 ^ Suc k'" using "1.prems" by (simp add: less_mult_imp_div_less)
    from "1.IH" [OF False this] False k show ?thesis
      by (simp add: dec_digits.simps [of n])
  qed
qed

lemma length_comma_join:
  "length (comma_join xs) = sum_list (map length xs) + (length xs - 1)"
  by (induction xs rule: comma_join.induct) auto

lemma length_json_string: "length (json_string s) \<le> 6 * length s + 2"
  using length_json_escape [of "bytes_of_string s"] by (simp add: json_string_def)

text \<open>Strings of safe ASCII characters, such as the field names, are not escaped.\<close>

definition plain :: "string \<Rightarrow> bool" where
  "plain s \<longleftrightarrow> (\<forall>c \<in> set s. html_safe (of_char c))"

lemma plain_simps [simp]:
  "plain []"
  "plain (c # s) \<longleftrightarrow> html_safe (of_char c) \<and> plain s"
  by (simp_all add: plain_def)

lemma json_escape_safe: "\<forall>b \<in> set bs. html_safe (unat b) \<Longrightarrow> json_escape bs = bs"
  by (induction bs) (auto simp: json_escape.simps(2) escape_ascii_def html_safe_def)

lemma unat_of_char [simp]: "unat (word_of_nat (of_char c) :: byte) = of_char c"
proof -
  have "(of_char c :: nat) < 256" by (rule nat_of_char_less_256)
  then show ?thesis by (simp add: unat_of_nat)
qed

lemma json_string_plain: "plain s \<Longrightarrow> json_string s = [0x22] @ bytes_of_string s @ [0x22]"
  unfolding json_string_def by (subst json_escape_safe) (auto simp: plain_def bytes_of_string_def)

lemma length_json_string_plain [simp]: "plain s \<Longrightarrow> length (json_string s) = length s + 2"
  by (simp add: json_string_plain)

lemma length_json_int:
  assumes "0 \<le> i" and "i < 10 ^ k" and "0 < k"
  shows "length (json_int i) \<le> k"
proof -
  have "nat i < 10 ^ k" using assms by (simp add: nat_less_iff)
  from length_dec_digits [OF this assms(3)] assms(1) show ?thesis by (simp add: json_int_def)
qed

lemma length_json_int_0 [simp]: "length (json_int 0) = 1"
  by (simp add: json_int_def dec_digits.simps)

lemma length_json_u64: "length (json_int (uint (q :: u64))) \<le> 20"
proof (rule length_json_int)
  show "uint q < 10 ^ 20" using uint_lt2p [of q] by simp
qed simp_all

section \<open>Escaping and concatenation\<close>

lemma json_escape_ascii_append:
  "\<forall>b \<in> set xs. unat b < 0x80 \<Longrightarrow> json_escape (xs @ ys) = json_escape xs @ json_escape ys"
  by (induction xs) (auto simp: json_escape.simps(2))

lemma json_escape_safe_append:
  "\<forall>b \<in> set xs. html_safe (unat b) \<Longrightarrow> json_escape (xs @ ys) = xs @ json_escape ys"
  by (simp add: json_escape_ascii_append json_escape_safe html_safe_def)

lemma length_json_escape_esc: "length (json_escape (replicate n 0x1B)) = 6 * n"
  by (induction n) (simp_all add: json_escape.simps(2) escape_ascii_def html_safe_def)

end
