(* ===== verification/Protocol.thy ===== *)
theory Protocol
  imports Go_Json
begin

text \<open>
  The message envelope of \<^verbatim>\<open>cmd/claw/protocol.go\<close>: the \<^verbatim>\<open>Message\<close> struct with the structs
  it holds, its JSON form (field order and \<^verbatim>\<open>omitempty\<close> as the struct tags say), the message
  type constants, and the size limits and opcodes of the binary frames. The only field of
  \<^verbatim>\<open>Message\<close> left out is \<^verbatim>\<open>Extra\<close>, which is never marshalled (tag \<^verbatim>\<open>-\<close>) and never used.
  A nil slice and an empty one marshal differently where the field is not \<^verbatim>\<open>omitempty\<close>;
  the two slices of \<^verbatim>\<open>DirEntries\<close> are therefore options, \<open>None\<close> being nil.
\<close>

section \<open>Limits and opcodes\<close>

definition MaxFrameSize :: nat where [simp]: "MaxFrameSize = 4 * 1024 * 1024"
definition P2PMaxMessageSize :: nat where [simp]: "P2PMaxMessageSize = 64 * 1024 - 1024"
definition ProxyP2PChunk :: nat where [simp]: "ProxyP2PChunk = 60 * 1024"
definition ProxyRelayChunk :: nat where [simp]: "ProxyRelayChunk = 512 * 1024"
definition FileRelayChunk :: nat where [simp]: "FileRelayChunk = 1024 * 1024"
definition MaxSecCodeAttempts :: int where [simp]: "MaxSecCodeAttempts = 11"
definition defaultSecCode :: string where "defaultSecCode = ''000000''"
definition SecureMaxTextPayload :: nat where [simp]: "SecureMaxTextPayload = 24000"
definition SecureBinaryOverhead :: nat where [simp]: "SecureBinaryOverhead = 26"
definition OpcodeFileTransfer :: byte where "OpcodeFileTransfer = 0x01"
definition OpcodeProxyData :: byte where "OpcodeProxyData = 0x05"
definition proxyFrameHeaderSize :: nat where [simp]: "proxyFrameHeaderSize = 5"
definition OpcodeSecureBinary :: byte where "OpcodeSecureBinary = 0x07"

lemmas opcode_defs = OpcodeFileTransfer_def OpcodeProxyData_def OpcodeSecureBinary_def

section \<open>Message types\<close>

abbreviation TypeAuth :: string where "TypeAuth \<equiv> ''auth''"
abbreviation TypeAuthOK :: string where "TypeAuthOK \<equiv> ''auth_ok''"
abbreviation TypeAuthError :: string where "TypeAuthError \<equiv> ''auth_error''"
abbreviation TypePing :: string where "TypePing \<equiv> ''ping''"
abbreviation TypePong :: string where "TypePong \<equiv> ''pong''"
abbreviation TypeCreateSession :: string where "TypeCreateSession \<equiv> ''create_session''"
abbreviation TypeSessionCreated :: string where "TypeSessionCreated \<equiv> ''session_created''"
abbreviation TypeDestroySession :: string where "TypeDestroySession \<equiv> ''destroy_session''"
abbreviation TypeSessionExited :: string where "TypeSessionExited \<equiv> ''session_exit''"
abbreviation TypeInput :: string where "TypeInput \<equiv> ''input''"
abbreviation TypeOutput :: string where "TypeOutput \<equiv> ''output''"
abbreviation TypeResize :: string where "TypeResize \<equiv> ''resize''"
abbreviation TypeError :: string where "TypeError \<equiv> ''error''"
abbreviation TypeSessionList :: string where "TypeSessionList \<equiv> ''session_list''"
abbreviation TypeSessionInfo :: string where "TypeSessionInfo \<equiv> ''session_info''"
abbreviation TypeRequestHistory :: string where "TypeRequestHistory \<equiv> ''request_history''"
abbreviation TypeHistoryData :: string where "TypeHistoryData \<equiv> ''history_data''"
abbreviation TypeHistoryStart :: string where "TypeHistoryStart \<equiv> ''history_start''"
abbreviation TypeHistoryChunk :: string where "TypeHistoryChunk \<equiv> ''history_chunk''"
abbreviation TypeHistoryEnd :: string where "TypeHistoryEnd \<equiv> ''history_end''"
abbreviation TypeChannelSelect :: string where "TypeChannelSelect \<equiv> ''channel_select''"
abbreviation TypeChannelSelected :: string where "TypeChannelSelected \<equiv> ''channel_selected''"
abbreviation TypeChannelFailed :: string where "TypeChannelFailed \<equiv> ''channel_failed''"
abbreviation TypePushPause :: string where "TypePushPause \<equiv> ''push_pause''"
abbreviation TypeKicked :: string where "TypeKicked \<equiv> ''kicked''"
abbreviation TypePeerOnline :: string where "TypePeerOnline \<equiv> ''peer_online''"
abbreviation TypePeerOffline :: string where "TypePeerOffline \<equiv> ''peer_offline''"
abbreviation TypeFileSendBegin :: string where "TypeFileSendBegin \<equiv> ''file_send_begin''"
abbreviation TypeFileSendEnd :: string where "TypeFileSendEnd \<equiv> ''file_send_end''"
abbreviation TypeFileSendCancel :: string where "TypeFileSendCancel \<equiv> ''file_send_cancel''"
abbreviation TypeFileSendError :: string where "TypeFileSendError \<equiv> ''file_send_error''"
abbreviation TypeFileList :: string where "TypeFileList \<equiv> ''file_list''"
abbreviation TypeFileListRequest :: string where "TypeFileListRequest \<equiv> ''file_list_request''"
abbreviation TypeFileRequest :: string where "TypeFileRequest \<equiv> ''file_request''"
abbreviation TypeFileAck :: string where "TypeFileAck \<equiv> ''file_ack''"
abbreviation TypeFileDelete :: string where "TypeFileDelete \<equiv> ''file_delete''"
abbreviation TypeDirListRequest :: string where "TypeDirListRequest \<equiv> ''dir_list_request''"
abbreviation TypeDirList :: string where "TypeDirList \<equiv> ''dir_list''"
abbreviation TypeReqPending :: string where "TypeReqPending \<equiv> ''req_pending''"
abbreviation TypeProxyConnect :: string where "TypeProxyConnect \<equiv> ''proxy_connect''"
abbreviation TypeProxyConnected :: string where "TypeProxyConnected \<equiv> ''proxy_connected''"
abbreviation TypeProxyError :: string where "TypeProxyError \<equiv> ''proxy_error''"
abbreviation TypeProxyClose :: string where "TypeProxyClose \<equiv> ''proxy_close''"
abbreviation TypeProxyHttpFetch :: string where "TypeProxyHttpFetch \<equiv> ''proxy_http_fetch''"
abbreviation TypeProxyHttpResponse :: string where "TypeProxyHttpResponse \<equiv> ''proxy_http_response''"
abbreviation TypeProxyWsConnect :: string where "TypeProxyWsConnect \<equiv> ''proxy_ws_connect''"
abbreviation TypeProxyWsConnected :: string where "TypeProxyWsConnected \<equiv> ''proxy_ws_connected''"
abbreviation TypeProxyWsMessage :: string where "TypeProxyWsMessage \<equiv> ''proxy_ws_message''"
abbreviation TypeProxyWsClose :: string where "TypeProxyWsClose \<equiv> ''proxy_ws_close''"
abbreviation TypeProxyWsError :: string where "TypeProxyWsError \<equiv> ''proxy_ws_error''"
abbreviation TypeAttach :: string where "TypeAttach \<equiv> ''attach''"
abbreviation TypeDetach :: string where "TypeDetach \<equiv> ''detach''"
abbreviation TypeAttachOK :: string where "TypeAttachOK \<equiv> ''attach_ok''"
abbreviation TypeLocalTakeover :: string where "TypeLocalTakeover \<equiv> ''local_takeover''"
abbreviation TypeStatus :: string where "TypeStatus \<equiv> ''status''"
abbreviation TypeStop :: string where "TypeStop \<equiv> ''stop''"
abbreviation TypeSecCodeVerify :: string where "TypeSecCodeVerify \<equiv> ''sec_code_verify''"
abbreviation TypeSecCodeOK :: string where "TypeSecCodeOK \<equiv> ''sec_code_ok''"
abbreviation TypeSecCodeError :: string where "TypeSecCodeError \<equiv> ''sec_code_error''"
abbreviation TypeSetSecCode :: string where "TypeSetSecCode \<equiv> ''set_sec_code''"
abbreviation TypeSetSecCodeResult :: string where "TypeSetSecCodeResult \<equiv> ''set_sec_code_result''"
abbreviation TypeUnsetSecCode :: string where "TypeUnsetSecCode \<equiv> ''unset_sec_code''"
abbreviation TypeUnsetSecCodeResult :: string where "TypeUnsetSecCodeResult \<equiv> ''unset_sec_code_result''"
abbreviation TypeGetSecCodeStatus :: string where "TypeGetSecCodeStatus \<equiv> ''get_sec_code_status''"
abbreviation TypeSecCodeStatus :: string where "TypeSecCodeStatus \<equiv> ''sec_code_status''"
abbreviation TypeGetServerStatus :: string where "TypeGetServerStatus \<equiv> ''get_server_status''"
abbreviation TypeServerStatus :: string where "TypeServerStatus \<equiv> ''server_status''"
abbreviation TypeSetAccessKey :: string where "TypeSetAccessKey \<equiv> ''set_accesskey''"
abbreviation TypeAccessKeyResult :: string where "TypeAccessKeyResult \<equiv> ''accesskey_result''"
abbreviation TypeRequestBindCode :: string where "TypeRequestBindCode \<equiv> ''request_bindcode''"
abbreviation TypeBindCodeResult :: string where "TypeBindCodeResult \<equiv> ''bindcode_result''"
abbreviation TypeBindCodeAccessKey :: string where "TypeBindCodeAccessKey \<equiv> ''bindcode_accesskey''"
abbreviation TypeConfirmBindCode :: string where "TypeConfirmBindCode \<equiv> ''confirm_bindcode''"
abbreviation TypeSubscribeLogs :: string where "TypeSubscribeLogs \<equiv> ''subscribe_logs''"
abbreviation TypeUnsubscribeLogs :: string where "TypeUnsubscribeLogs \<equiv> ''unsubscribe_logs''"
abbreviation TypeLogData :: string where "TypeLogData \<equiv> ''log_data''"
abbreviation TypeAskShortcut :: string where "TypeAskShortcut \<equiv> ''ask_shortcut''"
abbreviation TypeShortcutResponse :: string where "TypeShortcutResponse \<equiv> ''shortcut_response''"
abbreviation TypeGetStartupStatus :: string where "TypeGetStartupStatus \<equiv> ''get_startup_status''"
abbreviation TypeStartupStatus :: string where "TypeStartupStatus \<equiv> ''startup_status''"
abbreviation TypeSetShortcut :: string where "TypeSetShortcut \<equiv> ''set_shortcut''"
abbreviation TypeSetShortcutResult :: string where "TypeSetShortcutResult \<equiv> ''set_shortcut_result''"
abbreviation TypeSetAutoRun :: string where "TypeSetAutoRun \<equiv> ''set_autorun''"
abbreviation TypeSetAutoRunResult :: string where "TypeSetAutoRunResult \<equiv> ''set_autorun_result''"
abbreviation TypeCheckUpdate :: string where "TypeCheckUpdate \<equiv> ''check_update''"
abbreviation TypeCheckUpdateResult :: string where "TypeCheckUpdateResult \<equiv> ''check_update_result''"
abbreviation TypeApplyUpdate :: string where "TypeApplyUpdate \<equiv> ''apply_update''"
abbreviation TypeApplyUpdateResult :: string where "TypeApplyUpdateResult \<equiv> ''apply_update_result''"
abbreviation TypePakeStart :: string where "TypePakeStart \<equiv> ''pake_start''"
abbreviation TypePakeReply :: string where "TypePakeReply \<equiv> ''pake_reply''"
abbreviation TypeSecConfirm :: string where "TypeSecConfirm \<equiv> ''sec_confirm''"
abbreviation TypeSecOK :: string where "TypeSecOK \<equiv> ''sec_ok''"
abbreviation TypeSecureReady :: string where "TypeSecureReady \<equiv> ''secure_ready''"
abbreviation TypeSecStatus :: string where "TypeSecStatus \<equiv> ''sec_status''"
abbreviation TypeEncTerm :: string where "TypeEncTerm \<equiv> ''enc_term''"
abbreviation TypeEncFile :: string where "TypeEncFile \<equiv> ''enc_file''"
abbreviation TypeEncProxy :: string where "TypeEncProxy \<equiv> ''enc_proxy''"

text \<open>All of them, in the order of the source.\<close>

definition message_types :: "string list" where
  "message_types = [TypeAuth, TypeAuthOK, TypeAuthError, TypePing,
    TypePong, TypeCreateSession, TypeSessionCreated, TypeDestroySession,
    TypeSessionExited, TypeInput, TypeOutput, TypeResize,
    TypeError, TypeSessionList, TypeSessionInfo, TypeRequestHistory,
    TypeHistoryData, TypeHistoryStart, TypeHistoryChunk, TypeHistoryEnd,
    TypeChannelSelect, TypeChannelSelected, TypeChannelFailed, TypePushPause,
    TypeKicked, TypePeerOnline, TypePeerOffline, TypeFileSendBegin,
    TypeFileSendEnd, TypeFileSendCancel, TypeFileSendError, TypeFileList,
    TypeFileListRequest, TypeFileRequest, TypeFileAck, TypeFileDelete,
    TypeDirListRequest, TypeDirList, TypeReqPending, TypeProxyConnect,
    TypeProxyConnected, TypeProxyError, TypeProxyClose, TypeProxyHttpFetch,
    TypeProxyHttpResponse, TypeProxyWsConnect, TypeProxyWsConnected, TypeProxyWsMessage,
    TypeProxyWsClose, TypeProxyWsError, TypeAttach, TypeDetach,
    TypeAttachOK, TypeLocalTakeover, TypeStatus, TypeStop,
    TypeSecCodeVerify, TypeSecCodeOK, TypeSecCodeError, TypeSetSecCode,
    TypeSetSecCodeResult, TypeUnsetSecCode, TypeUnsetSecCodeResult, TypeGetSecCodeStatus,
    TypeSecCodeStatus, TypeGetServerStatus, TypeServerStatus, TypeSetAccessKey,
    TypeAccessKeyResult, TypeRequestBindCode, TypeBindCodeResult, TypeBindCodeAccessKey,
    TypeConfirmBindCode, TypeSubscribeLogs, TypeUnsubscribeLogs, TypeLogData,
    TypeAskShortcut, TypeShortcutResponse, TypeGetStartupStatus, TypeStartupStatus,
    TypeSetShortcut, TypeSetShortcutResult, TypeSetAutoRun, TypeSetAutoRunResult,
    TypeCheckUpdate, TypeCheckUpdateResult, TypeApplyUpdate, TypeApplyUpdateResult,
    TypePakeStart, TypePakeReply, TypeSecConfirm, TypeSecOK,
    TypeSecureReady, TypeSecStatus, TypeEncTerm, TypeEncFile,
    TypeEncProxy]"

section \<open>The structs\<close>

record SessionInfo =
  si_ID :: string
  si_PID :: int
  si_Shell :: string
  si_CreatedAt :: int
  si_Name :: string

record ShellInfo =
  sh_Name :: string
  sh_Path :: string

record StagedFile =
  sf_ID :: u32
  sf_FileName :: string
  sf_OriginalName :: string
  sf_Size :: int
  sf_Time :: string

record DirEntry =
  de_Name :: string
  de_Size :: int
  de_ModTime :: int

record DirEntries =
  des_Dirs :: "DirEntry list option"
  des_Files :: "DirEntry list option"

record LogEntry =
  le_Timestamp :: int
  le_Level :: string
  le_Message :: string

record Message =
  Type :: string
  Reason :: string
  SessionID :: string
  Data :: string
  Shell :: string
  LoginShell :: "bool option"
  Cols :: int
  Rows :: int
  PID :: int
  ExitCode :: int
  Error :: string
  Sessions :: "string list"
  SessionInfos :: "SessionInfo list"
  Shells :: "ShellInfo list"
  Seq :: u64
  TotalChunks :: int
  ChunkIndex :: int
  Outputs :: int
  FileID :: u32
  FileName :: string
  FileSize :: int
  Checksum :: string
  OriginalName :: string
  FileTime :: string
  Files :: "StagedFile list"
  Received :: int
  Path :: string
  Entries :: "DirEntries option"
  Name :: string
  SystemInfo :: string
  SecCodeRequired :: bool
  RemainingAttempts :: int
  SecCodeEnabled :: bool
  SecureCap :: bool
  Sid :: string
  Pa :: string
  Pb :: string
  TagA :: string
  TagB :: string
  AccessKey :: string
  DeviceName :: string
  QRPayload :: string
  BindCode :: string
  Success :: bool
  LogEntries :: "LogEntry list"
  Enable :: bool
  Shortcut :: bool
  AutoRun :: bool
  AutoRunSupported :: bool
  CurrentVersion :: string
  LatestVersion :: string
  UpdateAvailable :: bool
  StatusCode :: int
  StatusText :: string
  HeadersJSON :: string
  Method :: string
  BodyBase64 :: string
  IsBinary :: bool

text \<open>The zero value of the struct; a composite literal sets fields of it.\<close>

definition Message0 :: Message where
  "Message0 = \<lparr>Type = '''', Reason = '''', SessionID = '''', Data = '''',
    Shell = '''', LoginShell = None, Cols = 0, Rows = 0,
    PID = 0, ExitCode = 0, Error = '''', Sessions = [],
    SessionInfos = [], Shells = [], Seq = 0, TotalChunks = 0,
    ChunkIndex = 0, Outputs = 0, FileID = 0, FileName = '''',
    FileSize = 0, Checksum = '''', OriginalName = '''', FileTime = '''',
    Files = [], Received = 0, Path = '''', Entries = None,
    Name = '''', SystemInfo = '''', SecCodeRequired = False, RemainingAttempts = 0,
    SecCodeEnabled = False, SecureCap = False, Sid = '''', Pa = '''',
    Pb = '''', TagA = '''', TagB = '''', AccessKey = '''',
    DeviceName = '''', QRPayload = '''', BindCode = '''', Success = False,
    LogEntries = [], Enable = False, Shortcut = False, AutoRun = False,
    AutoRunSupported = False, CurrentVersion = '''', LatestVersion = '''', UpdateAvailable = False,
    StatusCode = 0, StatusText = '''', HeadersJSON = '''', Method = '''',
    BodyBase64 = '''', IsBinary = False\<rparr>"

section \<open>The JSON form\<close>

definition opt_str :: "string \<Rightarrow> string \<Rightarrow> (string \<times> json) list" where
  "opt_str k s = (if s = [] then [] else [(k, JStr s)])"

definition opt_int :: "string \<Rightarrow> int \<Rightarrow> (string \<times> json) list" where
  "opt_int k i = (if i = 0 then [] else [(k, JNum i)])"

definition opt_bool :: "string \<Rightarrow> bool \<Rightarrow> (string \<times> json) list" where
  "opt_bool k b = (if b then [(k, JBool True)] else [])"

definition opt_ptr :: "string \<Rightarrow> ('a \<Rightarrow> json) \<Rightarrow> 'a option \<Rightarrow> (string \<times> json) list" where
  "opt_ptr k f p = (case p of None \<Rightarrow> [] | Some x \<Rightarrow> [(k, f x)])"

definition opt_list :: "string \<Rightarrow> ('a \<Rightarrow> json) \<Rightarrow> 'a list \<Rightarrow> (string \<times> json) list" where
  "opt_list k f xs = (if xs = [] then [] else [(k, JArr (map f xs))])"

definition slice_json :: "('a \<Rightarrow> json) \<Rightarrow> 'a list option \<Rightarrow> json" where
  "slice_json f s = (case s of None \<Rightarrow> JNull | Some xs \<Rightarrow> JArr (map f xs))"

definition SessionInfo_json :: "SessionInfo \<Rightarrow> json" where
  "SessionInfo_json s = JObj [(''id'', JStr (si_ID s)), (''pid'', JNum (si_PID s)),
     (''shell'', JStr (si_Shell s)), (''created_at'', JNum (si_CreatedAt s)),
     (''name'', JStr (si_Name s))]"

definition ShellInfo_json :: "ShellInfo \<Rightarrow> json" where
  "ShellInfo_json s = JObj [(''name'', JStr (sh_Name s)), (''path'', JStr (sh_Path s))]"

definition StagedFile_json :: "StagedFile \<Rightarrow> json" where
  "StagedFile_json s = JObj [(''id'', JNum (uint (sf_ID s))), (''file_name'', JStr (sf_FileName s)),
     (''original_name'', JStr (sf_OriginalName s)), (''size'', JNum (sf_Size s)),
     (''time'', JStr (sf_Time s))]"

definition DirEntry_json :: "DirEntry \<Rightarrow> json" where
  "DirEntry_json e = JObj [(''name'', JStr (de_Name e)), (''size'', JNum (de_Size e)),
     (''mod_time'', JNum (de_ModTime e))]"

definition DirEntries_json :: "DirEntries \<Rightarrow> json" where
  "DirEntries_json e = JObj [(''dirs'', slice_json DirEntry_json (des_Dirs e)),
     (''files'', slice_json DirEntry_json (des_Files e))]"

definition LogEntry_json :: "LogEntry \<Rightarrow> json" where
  "LogEntry_json e = JObj [(''timestamp'', JNum (le_Timestamp e)), (''level'', JStr (le_Level e)),
     (''message'', JStr (le_Message e))]"

definition Message_json :: "Message \<Rightarrow> json" where
  "Message_json m = JObj ([(''type'', JStr (Type m))] @
     opt_str ''reason'' (Reason m) @
     opt_str ''session_id'' (SessionID m) @
     opt_str ''data'' (Data m) @
     opt_str ''shell'' (Shell m) @
     opt_ptr ''login_shell'' JBool (LoginShell m) @
     opt_int ''cols'' (Cols m) @
     opt_int ''rows'' (Rows m) @
     opt_int ''pid'' (PID m) @
     opt_int ''exit_code'' (ExitCode m) @
     opt_str ''error'' (Error m) @
     opt_list ''sessions'' JStr (Sessions m) @
     opt_list ''session_infos'' SessionInfo_json (SessionInfos m) @
     opt_list ''shells'' ShellInfo_json (Shells m) @
     [(''seq'', JNum (uint (Seq m)))] @
     [(''total_chunks'', JNum (TotalChunks m))] @
     [(''chunk_index'', JNum (ChunkIndex m))] @
     [(''n'', JNum (Outputs m))] @
     opt_int ''file_id'' (uint (FileID m)) @
     opt_str ''file_name'' (FileName m) @
     opt_int ''file_size'' (FileSize m) @
     opt_str ''checksum'' (Checksum m) @
     opt_str ''original_name'' (OriginalName m) @
     opt_str ''file_time'' (FileTime m) @
     opt_list ''files'' StagedFile_json (Files m) @
     opt_int ''received'' (Received m) @
     opt_str ''path'' (Path m) @
     opt_ptr ''entries'' DirEntries_json (Entries m) @
     opt_str ''name'' (Name m) @
     opt_str ''system_info'' (SystemInfo m) @
     opt_bool ''sec_code_required'' (SecCodeRequired m) @
     opt_int ''remaining_attempts'' (RemainingAttempts m) @
     opt_bool ''sec_code_enabled'' (SecCodeEnabled m) @
     opt_bool ''secure_cap'' (SecureCap m) @
     opt_str ''sid'' (Sid m) @
     opt_str ''pa'' (Pa m) @
     opt_str ''pb'' (Pb m) @
     opt_str ''tag_a'' (TagA m) @
     opt_str ''tag_b'' (TagB m) @
     opt_str ''accesskey'' (AccessKey m) @
     opt_str ''device_name'' (DeviceName m) @
     opt_str ''qr_payload'' (QRPayload m) @
     opt_str ''bindcode'' (BindCode m) @
     opt_bool ''success'' (Success m) @
     opt_list ''log_entries'' LogEntry_json (LogEntries m) @
     opt_bool ''enable'' (Enable m) @
     opt_bool ''shortcut'' (Shortcut m) @
     opt_bool ''autorun'' (AutoRun m) @
     opt_bool ''autorun_supported'' (AutoRunSupported m) @
     opt_str ''current_version'' (CurrentVersion m) @
     opt_str ''latest_version'' (LatestVersion m) @
     opt_bool ''update_available'' (UpdateAvailable m) @
     opt_int ''status_code'' (StatusCode m) @
     opt_str ''status_text'' (StatusText m) @
     opt_str ''headers_json'' (HeadersJSON m) @
     opt_str ''method'' (Method m) @
     opt_str ''body_base64'' (BodyBase64 m) @
     opt_bool ''is_binary'' (IsBinary m))"

definition marshal_message :: "Message \<Rightarrow> byte list" where
  "marshal_message m = marshal (Message_json m)"

lemmas opt_field_defs = opt_str_def opt_int_def opt_bool_def opt_ptr_def opt_list_def

end
