(* ===== verification/Output_Batcher.thy ===== *)
theory Output_Batcher
  imports Protocol
begin

text \<open>
  \<^verbatim>\<open>cmd/claw/output_batcher.go\<close>: the batcher that merges PTY writes into as few relay
  messages as the secure payload budget allows. The first part models \<^verbatim>\<open>sendBatch\<close> (the
  packing loop with its size search and its \<^verbatim>\<open>emit\<close> closure), the second part the
  batcher's state and its operations. \<open>wire\<close> is the list of messages handed to
  \<^verbatim>\<open>deps.send\<close>, oldest first. Each operation runs under the code's mutexes and is one step.
  Go iterates a map in an unspecified order: an operation that walks \<^verbatim>\<open>b.bufs\<close> takes that
  order as a list of session ids, about which nothing is assumed except that it lists every
  key where a lemma needs it. Times are nanoseconds.
\<close>

section \<open>Constants\<close>

definition outputInteractiveFlush :: int where [simp]: "outputInteractiveFlush = 10 * 1000000"
definition outputIdleFlush :: int where [simp]: "outputIdleFlush = 600 * 1000000"
definition outputRawCap :: nat where [simp]: "outputRawCap = 24 * 1024"
definition outputChunkMargin :: nat where [simp]: "outputChunkMargin = 2048"
definition outputChunkUnit :: nat where [simp]: "outputChunkUnit = 4096"

definition outputMarshalFreeFloor :: nat where
  [simp]: "outputMarshalFreeFloor = (SecureMaxTextPayload - outputChunkMargin - 512) div 6"

definition output_budget :: nat where
  [simp]: "output_budget = SecureMaxTextPayload - outputChunkMargin"

section \<open>Packing one batch\<close>

record outEntry =
  oe_seq :: u64
  oe_data :: "byte list"

definition output_message :: "string \<Rightarrow> byte list \<Rightarrow> int \<Rightarrow> u64 \<Rightarrow> Message" where
  "output_message sessionID data n seq = Message0\<lparr>Type := TypeOutput, SessionID := sessionID,
     Data := string_of_bytes data, Seq := seq, Outputs := n\<rparr>"

definition outputFits :: "string \<Rightarrow> byte list \<Rightarrow> int \<Rightarrow> u64 \<Rightarrow> nat \<Rightarrow> bool" where
  "outputFits sessionID data n seq budget \<longleftrightarrow>
     length (marshal_message (output_message sessionID data n seq)) \<le> budget"

text \<open>The open message of \<^verbatim>\<open>sendBatch\<close> and the messages it has sent.\<close>

record packing =
  pk_data :: "byte list"
  pk_n :: int
  pk_seq :: u64
  pk_sent :: "Message list"

definition emit :: "string \<Rightarrow> packing \<Rightarrow> packing" where
  "emit sessionID p =
    (if pk_data p = [] then p
     else p\<lparr>pk_sent := pk_sent p @ [output_message sessionID (pk_data p) (pk_n p) (pk_seq p)],
            pk_data := [], pk_n := 0\<rparr>)"

text \<open>The test both the fast path and the size search make on a piece of the write.\<close>

definition piece_fits :: "string \<Rightarrow> byte list \<Rightarrow> int \<Rightarrow> u64 \<Rightarrow> byte list \<Rightarrow> bool" where
  "piece_fits sessionID data nextN seq piece \<longleftrightarrow>
     length data + length piece \<le> outputMarshalFreeFloor
     \<or> outputFits sessionID (data @ piece) nextN seq output_budget"

text \<open>The inner loop \<^verbatim>\<open>for size > 0 { if ... break; size /= 2 }\<close>.\<close>

function search_size :: "(nat \<Rightarrow> bool) \<Rightarrow> nat \<Rightarrow> nat" where
  "search_size ok sz =
    (if sz = 0 then 0 else if ok sz then sz else search_size ok (sz div 2))"
  by pat_completeness auto
termination
  by (relation "measure snd") auto

declare search_size.simps [simp del]

lemma search_size_le: "search_size ok sz \<le> sz"
  by (induction ok sz rule: search_size.induct)
    (metis div_le_dividend le_trans order_refl search_size.simps zero_le)

lemma search_size_ok: "0 < search_size ok sz \<Longrightarrow> ok (search_size ok sz)"
  by (induction ok sz rule: search_size.induct) (metis less_irrefl search_size.simps)

text \<open>A test that accepts every small size makes the search succeed: it never starves.\<close>

lemma search_size_pos:
  assumes "\<And>k. 0 < k \<Longrightarrow> k \<le> b \<Longrightarrow> ok k" and "0 < b" and "0 < sz"
  shows "0 < search_size ok sz"
  using assms
proof (induction ok sz rule: search_size.induct)
  case (1 ok sz)
  show ?case
  proof (cases "ok sz")
    case True
    then show ?thesis using "1.prems" by (simp add: search_size.simps)
  next
    case False
    then have "b < sz" using "1.prems" by (meson not_less)
    then have "0 < sz div 2" using \<open>0 < b\<close> by linarith
    from "1.IH" [OF _ False "1.prems"(1,2) this] \<open>0 < sz\<close>
    have "0 < search_size ok (sz div 2)" by simp
    with False \<open>0 < sz\<close> show ?thesis by (simp add: search_size.simps [of ok sz])
  qed
qed

definition piece_size :: "string \<Rightarrow> packing \<Rightarrow> int \<Rightarrow> u64 \<Rightarrow> byte list \<Rightarrow> nat" where
  "piece_size sessionID p nextN seq rem =
     search_size (\<lambda>k. piece_fits sessionID (pk_data p) nextN seq (take k rem))
       (min outputChunkUnit (length rem))"

lemma piece_size_le: "piece_size sid p n q rem \<le> length rem"
  unfolding piece_size_def by (meson search_size_le le_trans min.cobounded2)

lemma piece_size_fits:
  "0 < piece_size sid p n q rem \<Longrightarrow>
   piece_fits sid (pk_data p) n q (take (piece_size sid p n q rem) rem)"
  unfolding piece_size_def by (rule search_size_ok)

text \<open>An empty message always takes at least one byte: the comment in the loop.\<close>

lemma piece_size_pos:
  assumes "pk_data p = []" and "rem \<noteq> []"
  shows "0 < piece_size sid p n q rem"
  unfolding piece_size_def
proof (rule search_size_pos)
  fix k :: nat
  assume "0 < k" "k \<le> outputMarshalFreeFloor"
  then show "piece_fits sid (pk_data p) n q (take k rem)"
    using assms(1) by (simp add: piece_fits_def min.coboundedI2)
qed (use assms in auto)

text \<open>What the loop does with a piece that fits: append it, count the write if it is its first.\<close>

definition next_n :: "bool \<Rightarrow> packing \<Rightarrow> int" where
  "next_n firstPiece p = (if firstPiece then pk_n p + 1 else pk_n p)"

definition take_piece :: "u64 \<Rightarrow> bool \<Rightarrow> byte list \<Rightarrow> packing \<Rightarrow> packing" where
  "take_piece eseq firstPiece piece p =
     p\<lparr>pk_data := pk_data p @ piece, pk_seq := eseq, pk_n := next_n firstPiece p\<rparr>"

text \<open>
  The loop over one write: \<open>rem\<close> is what is left of it, \<open>firstPiece\<close> whether no byte of
  it is in a message yet. It terminates because a pass that takes no byte empties the open
  message, and an empty message takes at least one.
\<close>

function pack_write ::
  "string \<Rightarrow> u64 \<Rightarrow> packing \<Rightarrow> byte list \<Rightarrow> bool \<Rightarrow> packing" where
  "pack_write sessionID eseq p rem firstPiece =
    (if rem = [] then p
     else if piece_fits sessionID (pk_data p) (next_n firstPiece p) eseq rem
     then take_piece eseq firstPiece rem p
     else
       let sz = piece_size sessionID p (next_n firstPiece p) eseq rem in
       if sz = 0 then pack_write sessionID eseq (emit sessionID p) rem firstPiece
       else
         let p' = take_piece eseq firstPiece (take sz rem) p in
         if drop sz rem \<noteq> []
         then pack_write sessionID eseq (emit sessionID p') (drop sz rem) False
         else p')"
  by pat_completeness auto
termination
proof (relation "measures [\<lambda>(sid, q, p, rem, f). length rem,
                           \<lambda>(sid, q, p, rem, f). length (pk_data p)]", goal_cases)
  case 1
  show ?case by simp
next
  case (2 sid q p rem f sz)
  then have "pk_data p \<noteq> []"
    using piece_size_pos [of p rem sid "next_n f p" q] by auto
  with 2 show ?case by (simp add: emit_def)
next
  case (3 sid q p rem f sz p')
  then show ?case by auto
qed

declare pack_write.simps [simp del]

fun pack_entries :: "string \<Rightarrow> packing \<Rightarrow> outEntry list \<Rightarrow> packing" where
  "pack_entries sessionID p [] = p"
| "pack_entries sessionID p (e # es) =
     pack_entries sessionID (pack_write sessionID (oe_seq e) p (oe_data e) True) es"

definition packing0 :: packing where
  "packing0 = \<lparr>pk_data = [], pk_n = 0, pk_seq = 0, pk_sent = []\<rparr>"

definition sendBatch :: "string \<Rightarrow> outEntry list \<Rightarrow> Message list" where
  "sendBatch sessionID entries =
     pk_sent (emit sessionID (pack_entries sessionID packing0 entries))"

section \<open>What the packing loop guarantees\<close>

text \<open>All bytes that have entered the packing: sent messages first, then the open one.\<close>

definition sent_bytes :: "Message list \<Rightarrow> byte list" where
  "sent_bytes ms = concat (map (\<lambda>m. bytes_of_string (Data m)) ms)"

definition pk_bytes :: "packing \<Rightarrow> byte list" where
  "pk_bytes p = sent_bytes (pk_sent p) @ pk_data p"

lemma sent_bytes_simps [simp]:
  "sent_bytes [] = []"
  "sent_bytes (ms @ ns) = sent_bytes ms @ sent_bytes ns"
  "sent_bytes [m] = bytes_of_string (Data m)"
  by (simp_all add: sent_bytes_def)

lemma output_message_sel [simp]:
  "Type (output_message sid d n q) = TypeOutput"
  "SessionID (output_message sid d n q) = sid"
  "Data (output_message sid d n q) = string_of_bytes d"
  "Seq (output_message sid d n q) = q"
  "Outputs (output_message sid d n q) = n"
  by (simp_all add: output_message_def)

lemma emit_sel [simp]:
  "pk_bytes (emit sid p) = pk_bytes p"
  "pk_data (emit sid p) = []"
  "pk_seq (emit sid p) = pk_seq p"
  by (simp_all add: emit_def pk_bytes_def)

text \<open>
  The packing invariant: every message sent fits the budget or is short enough not to be
  measured, so is the open message, and \<open>n\<close> counts at most one write per byte.
\<close>

definition data_fits :: "string \<Rightarrow> byte list \<Rightarrow> int \<Rightarrow> u64 \<Rightarrow> bool" where
  "data_fits sid d n q \<longleftrightarrow> 0 \<le> n \<and> n \<le> int (length d) \<and>
     (length d \<le> outputMarshalFreeFloor \<or> outputFits sid d n q output_budget)"

definition message_fits :: "string \<Rightarrow> Message \<Rightarrow> bool" where
  "message_fits sid m \<longleftrightarrow> (\<exists>d n q. m = output_message sid d n q \<and> d \<noteq> [] \<and> data_fits sid d n q)"

definition pk_ok :: "string \<Rightarrow> packing \<Rightarrow> bool" where
  "pk_ok sid p \<longleftrightarrow> (\<forall>m \<in> set (pk_sent p). message_fits sid m)
     \<and> (if pk_data p = [] then pk_n p = 0 else data_fits sid (pk_data p) (pk_n p) (pk_seq p))"

lemma pk_ok_emit: "pk_ok sid p \<Longrightarrow> pk_ok sid (emit sid p)"
  unfolding pk_ok_def emit_def message_fits_def by (auto split: if_splits)

lemma pk_ok_take:
  assumes "pk_ok sid p" and "piece \<noteq> []" and "piece_fits sid (pk_data p) (next_n f p) q piece"
  shows "pk_ok sid (take_piece q f piece p)"
proof -
  have "1 \<le> int (length piece)" using assms(2) by (cases piece) auto
  moreover have "0 \<le> pk_n p \<and> pk_n p \<le> int (length (pk_data p))"
    using assms(1) by (auto simp: pk_ok_def data_fits_def split: if_splits)
  ultimately show ?thesis
    using assms by (auto simp: pk_ok_def data_fits_def piece_fits_def take_piece_def next_n_def)
qed

text \<open>
  Induction over the loop of one write: \<open>P p rem f r\<close> relates the packing, what is left
  and the first-piece flag to the result. One case per way a pass ends.
\<close>

lemma pack_write_induct [case_names Nil Whole Full Part]:
  assumes Nil: "\<And>p f. P p [] f p"
    and Whole: "\<And>p rem f. rem \<noteq> [] \<Longrightarrow> piece_fits sid (pk_data p) (next_n f p) q rem \<Longrightarrow>
      P p rem f (take_piece q f rem p)"
    and Full: "\<And>p rem f r. rem \<noteq> [] \<Longrightarrow> P (emit sid p) rem f r \<Longrightarrow> P p rem f r"
    and Part: "\<And>p piece rem f r. piece \<noteq> [] \<Longrightarrow> rem \<noteq> [] \<Longrightarrow>
      piece_fits sid (pk_data p) (next_n f p) q piece \<Longrightarrow>
      P (emit sid (take_piece q f piece p)) rem False r \<Longrightarrow> P p (piece @ rem) f r"
  shows "P p rem f (pack_write sid q p rem f)"
proof (induction sid' \<equiv> sid q' \<equiv> q p rem f rule: pack_write.induct)
  case (1 p rem f)
  define sz where "sz = piece_size sid p (next_n f p) q rem"
  define p' where "p' = take_piece q f (take sz rem) p"
  note step = pack_write.simps [of sid q p rem f, unfolded Let_def, folded sz_def, folded p'_def]
  consider (nil) "rem = []"
    | (whole) "rem \<noteq> []" "piece_fits sid (pk_data p) (next_n f p) q rem"
    | (full) "rem \<noteq> []" "\<not> piece_fits sid (pk_data p) (next_n f p) q rem" "sz = 0"
    | (part) "rem \<noteq> []" "\<not> piece_fits sid (pk_data p) (next_n f p) q rem" "sz \<noteq> 0" by blast
  then show ?case
  proof cases
    case nil
    then show ?thesis using Nil by (subst step) simp
  next
    case whole
    then show ?thesis using Whole by (simp add: step)
  next
    case full
    from 1(1) [OF full(1,2) sz_def full(3)] Full [OF full(1)] full
    show ?thesis by (simp add: step)
  next
    case part
    have fits: "piece_fits sid (pk_data p) (next_n f p) q (take sz rem)"
      using part(3) piece_size_fits [of sid p "next_n f p" q rem] by (simp add: sz_def)
    with part(2) have rest: "drop sz rem \<noteq> []" by auto
    have "P p (take sz rem @ drop sz rem) f (pack_write sid q (emit sid p') (drop sz rem) False)"
      using 1(2) [OF part(1,2) sz_def part(3) p'_def rest] part(1,3) fits rest
      unfolding p'_def by (intro Part) auto
    with part rest show ?thesis by (simp add: step)
  qed
qed

lemma pack_write_ok:
  assumes "pk_ok sid p"
  shows "pk_ok sid (pack_write sid q p rem f)"
proof -
  have "pk_ok sid p \<longrightarrow> pk_ok sid (pack_write sid q p rem f)"
    by (rule pack_write_induct [where P = "\<lambda>p rem f r. pk_ok sid p \<longrightarrow> pk_ok sid r"])
      (auto intro: pk_ok_emit pk_ok_take)
  with assms show ?thesis by blast
qed

lemma take_piece_bytes [simp]: "pk_bytes (take_piece q f piece p) = pk_bytes p @ piece"
  by (simp add: take_piece_def pk_bytes_def)

lemma pack_write_bytes: "pk_bytes (pack_write sid q p rem f) = pk_bytes p @ rem"
  by (rule pack_write_induct [where P = "\<lambda>p rem f r. pk_bytes r = pk_bytes p @ rem"]) simp_all

text \<open>
  The receiver's watermark. A message carries the sequence number of its last write and the
  number \<open>n\<close> of writes that begin in it, so from watermark \<open>w\<close> it must lead to exactly
  \<open>w + n\<close>: no write is skipped and none is counted twice.
\<close>

fun coverage_ok :: "u64 \<Rightarrow> Message list \<Rightarrow> bool" where
  "coverage_ok w [] = True"
| "coverage_ok w (m # ms) = (Seq m = w + of_int (Outputs m) \<and> coverage_ok (Seq m) ms)"

definition watermark :: "u64 \<Rightarrow> Message list \<Rightarrow> u64" where
  "watermark w ms = foldl (\<lambda>_ m. Seq m) w ms"

lemma coverage_ok_append:
  "coverage_ok w (ms @ ns) \<longleftrightarrow> coverage_ok w ms \<and> coverage_ok (watermark w ms) ns"
  by (induction ms arbitrary: w) (auto simp: watermark_def)

lemma watermark_append: "watermark w (ms @ ns) = watermark (watermark w ms) ns"
  by (simp add: watermark_def)

definition pk_cov :: "u64 \<Rightarrow> u64 \<Rightarrow> packing \<Rightarrow> bool" where
  "pk_cov w cur p \<longleftrightarrow> coverage_ok w (pk_sent p) \<and>
     watermark w (pk_sent p) + of_int (pk_n p) = cur \<and>
     (if pk_data p = [] then pk_n p = 0 else pk_seq p = cur)"

lemma pk_cov_emit: "pk_cov w cur p \<Longrightarrow> pk_cov w cur (emit sid p)"
  by (auto simp: pk_cov_def emit_def coverage_ok_append watermark_append watermark_def
      split: if_splits)

lemma pk_cov_take:
  "pk_cov w cur p \<Longrightarrow> piece \<noteq> [] \<Longrightarrow> q = (if f then cur + 1 else cur) \<Longrightarrow>
   pk_cov w q (take_piece q f piece p)"
  by (auto simp: pk_cov_def take_piece_def next_n_def)

lemma pack_write_cov:
  assumes "pk_cov w cur p" and "rem \<noteq> []" and "q = (if f then cur + 1 else cur)"
  shows "pk_cov w q (pack_write sid q p rem f)"
proof -
  have "\<forall>cur. pk_cov w cur p \<longrightarrow> rem \<noteq> [] \<longrightarrow> q = (if f then cur + 1 else cur) \<longrightarrow>
      pk_cov w q (pack_write sid q p rem f)"
  proof (rule pack_write_induct [where P = "\<lambda>p rem f r. \<forall>cur. pk_cov w cur p \<longrightarrow> rem \<noteq> [] \<longrightarrow>
      q = (if f then cur + 1 else cur) \<longrightarrow> pk_cov w q r"], goal_cases)
    case 1
    then show ?case by simp
  next
    case (2 p rem f)
    then show ?case by (blast intro: pk_cov_take)
  next
    case (3 p rem f r)
    then show ?case by (blast intro: pk_cov_emit)
  next
    case (4 p piece rem f r)
    show ?case
    proof (intro allI impI)
      fix cur
      assume "pk_cov w cur p" "q = (if f then cur + 1 else cur)"
      then have "pk_cov w q (emit sid (take_piece q f piece p))"
        using 4(1) by (intro pk_cov_emit pk_cov_take)
      with 4(2,4) show "pk_cov w q r" by simp
    qed
  qed
  with assms show ?thesis by blast
qed

section \<open>Whole batches\<close>

lemma pk_ok_packing0: "pk_ok sid packing0"
  by (simp add: packing0_def pk_ok_def)

lemma pk_cov_packing0: "pk_cov w w packing0"
  by (simp add: packing0_def pk_cov_def watermark_def)

lemma pack_entries_ok: "pk_ok sid p \<Longrightarrow> pk_ok sid (pack_entries sid p es)"
  by (induction es arbitrary: p) (auto intro: pack_write_ok)

lemma pack_entries_bytes:
  "pk_bytes (pack_entries sid p es) = pk_bytes p @ concat (map oe_data es)"
  by (induction es arbitrary: p) (simp_all add: pack_write_bytes)

text \<open>Writes as the batcher queues them: none empty, each one after the other.\<close>

fun contiguous :: "u64 \<Rightarrow> outEntry list \<Rightarrow> bool" where
  "contiguous w [] = True"
| "contiguous w (e # es) = (oe_seq e = w + 1 \<and> oe_data e \<noteq> [] \<and> contiguous (oe_seq e) es)"

definition last_seq :: "u64 \<Rightarrow> outEntry list \<Rightarrow> u64" where
  "last_seq w es = foldl (\<lambda>_ e. oe_seq e) w es"

lemma pack_entries_cov:
  "pk_cov w cur p \<Longrightarrow> contiguous cur es \<Longrightarrow> pk_cov w (last_seq cur es) (pack_entries sid p es)"
proof (induction es arbitrary: p cur)
  case Nil
  then show ?case by (simp add: last_seq_def)
next
  case (Cons e es)
  then have "pk_cov w (oe_seq e) (pack_write sid (oe_seq e) p (oe_data e) True)"
    by (intro pack_write_cov) auto
  from Cons.IH [OF this] Cons.prems(2) show ?case by (auto simp: last_seq_def)
qed

lemma sendBatch_bytes: "sent_bytes (sendBatch sid es) = concat (map oe_data es)"
proof -
  have "pk_bytes (emit sid (pack_entries sid packing0 es)) = concat (map oe_data es)"
    by (simp add: pack_entries_bytes) (simp add: packing0_def pk_bytes_def)
  then show ?thesis
    by (simp add: sendBatch_def pk_bytes_def)
qed

lemma sendBatch_cov:
  assumes "contiguous w es"
  shows "coverage_ok w (sendBatch sid es)" and "watermark w (sendBatch sid es) = last_seq w es"
proof -
  have "pk_cov w (last_seq w es) (emit sid (pack_entries sid packing0 es))"
    by (intro pk_cov_emit pack_entries_cov pk_cov_packing0 assms)
  then show "coverage_ok w (sendBatch sid es)"
    and "watermark w (sendBatch sid es) = last_seq w es"
    by (auto simp: pk_cov_def sendBatch_def)
qed

lemma sendBatch_messages: "m \<in> set (sendBatch sid es) \<Longrightarrow> message_fits sid m"
  using pk_ok_emit [OF pack_entries_ok [OF pk_ok_packing0], of sid es]
  by (simp add: pk_ok_def sendBatch_def)

text \<open>
  The size of an output message: the envelope around the escaped session id and data. The
  arithmetic of \<open>outputMarshalFreeFloor\<close> (six bytes per escaped byte, 512 for the
  envelope) is right for session ids of up to 64 bytes; the daemon's own are 32.
\<close>

lemma length_marshal_output:
  "length (marshal_message (output_message sid d n q)) \<le>
     6 * length sid + 6 * length d + length (json_int (uint q)) + length (json_int n) + 99"
  using length_json_string [of sid] length_json_string [of "string_of_bytes d"]
  by (simp add: marshal_message_def Message_json_def output_message_def Message0_def
      opt_field_defs length_comma_join html_safe_def)

lemma data_fits_budget:
  assumes "data_fits sid d n q" and "length sid \<le> 64"
  shows "length (marshal_message (output_message sid d n q)) \<le> output_budget"
proof (cases "length d \<le> outputMarshalFreeFloor")
  case True
  with assms(1) have "0 \<le> n" "n < 10 ^ 4" by (auto simp: data_fits_def)
  then have "length (json_int n) \<le> 4" by (intro length_json_int) auto
  with length_marshal_output [of sid d n q] length_json_u64 [of q] True assms(2)
  show ?thesis by simp
next
  case False
  with assms(1) show ?thesis by (simp add: data_fits_def outputFits_def)
qed

end
