(* ===== verification/Batcher_Ops.thy ===== *)
theory Batcher_Ops
  imports Output_Batcher
begin

text \<open>
  The batcher's state and operations (\<^verbatim>\<open>Add\<close>, \<^verbatim>\<open>tick\<close>, \<^verbatim>\<open>FlushSession\<close>, \<^verbatim>\<open>FlushAll\<close>,
  \<^verbatim>\<open>SealAt\<close>, \<^verbatim>\<open>Reset\<close>) with the invariant of its segments, the conservation of the output
  bytes of every session, and the latency bound of the flush tiers.
\<close>

section \<open>State\<close>

record outBuf =
  ob_entries :: "outEntry list"
  ob_firstAdd :: int
  ob_lastSeq :: u64
  ob_rawLen :: nat

record batcher =
  bufs :: "string \<rightharpoonup> outBuf"
  wire :: "Message list"

definition batcher0 :: batcher where
  "batcher0 = \<lparr>bufs = Map.empty, wire = []\<rparr>"

type_synonym flush_jobs = "(string \<times> outEntry list) list"

text \<open>The loop \<^verbatim>\<open>for _, job := range jobs { b.sendBatch(job.id, job.entries) }\<close>.\<close>

definition send_jobs :: "flush_jobs \<Rightarrow> batcher \<Rightarrow> batcher" where
  "send_jobs jobs b = b\<lparr>wire := wire b @ concat (map (\<lambda>(i, es). sendBatch i es) jobs)\<rparr>"

section \<open>Operations\<close>

fun due_jobs ::
  "int \<Rightarrow> int \<Rightarrow> string list \<Rightarrow> (string \<rightharpoonup> outBuf) \<Rightarrow> flush_jobs \<times> (string \<rightharpoonup> outBuf)" where
  "due_jobs now deadline [] m = ([], m)"
| "due_jobs now deadline (i # ids) m =
    (case m i of
       None \<Rightarrow> due_jobs now deadline ids m
     | Some buf \<Rightarrow>
         if deadline \<le> now - ob_firstAdd buf \<or> outputRawCap \<le> ob_rawLen buf
         then (case due_jobs now deadline ids (m(i := None)) of
                 (jobs, m') \<Rightarrow> ((i, ob_entries buf) # jobs, m'))
         else due_jobs now deadline ids m)"

definition flush_deadline :: "bool \<Rightarrow> int" where
  "flush_deadline interactive =
     (if interactive then outputInteractiveFlush else outputIdleFlush)"

definition batcher_tick :: "bool \<Rightarrow> int \<Rightarrow> string list \<Rightarrow> batcher \<Rightarrow> batcher" where
  "batcher_tick interactive now ids b =
    (case due_jobs now (flush_deadline interactive) ids (bufs b) of
       (jobs, m) \<Rightarrow> send_jobs jobs (b\<lparr>bufs := m\<rparr>))"

definition FlushSession :: "string \<Rightarrow> batcher \<Rightarrow> batcher" where
  "FlushSession sessionID b =
    (case bufs b sessionID of
       None \<Rightarrow> b
     | Some buf \<Rightarrow>
         if ob_entries buf = [] then b
         else send_jobs [(sessionID, ob_entries buf)] (b\<lparr>bufs := (bufs b)(sessionID := None)\<rparr>))"

definition batcher_Add :: "string \<Rightarrow> byte list \<Rightarrow> u64 \<Rightarrow> int \<Rightarrow> batcher \<Rightarrow> batcher" where
  "batcher_Add sessionID data seq now b =
    (if data = [] then b
     else
       let (b, buf) =
             (case bufs b sessionID of
                None \<Rightarrow> (b, None)
              | Some buf \<Rightarrow>
                  if ob_entries buf \<noteq> [] \<and> seq \<noteq> ob_lastSeq buf + 1
                  then (FlushSession sessionID b, None) else (b, Some buf));
           buf = (case buf of
                    None \<Rightarrow> \<lparr>ob_entries = [], ob_firstAdd = now, ob_lastSeq = 0, ob_rawLen = 0\<rparr>
                  | Some buf \<Rightarrow> buf)
       in b\<lparr>bufs := (bufs b)(sessionID \<mapsto>
            buf\<lparr>ob_entries := ob_entries buf @ [\<lparr>oe_seq = seq, oe_data = data\<rparr>],
                ob_lastSeq := seq, ob_rawLen := ob_rawLen buf + length data\<rparr>)\<rparr>)"

text \<open>\<^verbatim>\<open>FlushAll\<close>: its early return on an empty map is the walk over no key.\<close>

fun all_jobs :: "string list \<Rightarrow> (string \<rightharpoonup> outBuf) \<Rightarrow> flush_jobs \<times> (string \<rightharpoonup> outBuf)" where
  "all_jobs [] m = ([], m)"
| "all_jobs (i # ids) m =
    (case m i of
       None \<Rightarrow> all_jobs ids m
     | Some buf \<Rightarrow>
         (case all_jobs ids (m(i := None)) of (jobs, m') \<Rightarrow>
            (if ob_entries buf \<noteq> [] then ((i, ob_entries buf) # jobs, m') else (jobs, m'))))"

definition FlushAll :: "string list \<Rightarrow> batcher \<Rightarrow> batcher" where
  "FlushAll ids b = (case all_jobs ids (bufs b) of (jobs, m) \<Rightarrow> send_jobs jobs (b\<lparr>bufs := m\<rparr>))"

text \<open>
  \<^verbatim>\<open>SealAt\<close>: \<open>h\<close> is what the snapshot callback returned (it runs while \<^verbatim>\<open>sendMu\<close> is held
  and does not touch the batcher). \<open>seal_split\<close> is the index of the first entry after \<open>h\<close>.
\<close>

fun seal_split :: "u64 \<Rightarrow> outEntry list \<Rightarrow> nat" where
  "seal_split h [] = 0"
| "seal_split h (e # es) = (if oe_seq e > h then 0 else Suc (seal_split h es))"

definition raw_len :: "outEntry list \<Rightarrow> nat" where
  "raw_len es = sum_list (map (\<lambda>e. length (oe_data e)) es)"

fun seal_jobs ::
  "u64 \<Rightarrow> string list \<Rightarrow> (string \<rightharpoonup> outBuf) \<Rightarrow> flush_jobs \<times> (string \<rightharpoonup> outBuf)" where
  "seal_jobs h [] m = ([], m)"
| "seal_jobs h (i # ids) m =
    (case m i of
       None \<Rightarrow> seal_jobs h ids m
     | Some buf \<Rightarrow>
         let k = seal_split h (ob_entries buf) in
         if k = 0 then seal_jobs h ids m
         else
           let rest = drop k (ob_entries buf);
               m' = (if k = length (ob_entries buf) then m(i := None)
                     else m(i \<mapsto> buf\<lparr>ob_entries := rest, ob_rawLen := raw_len rest\<rparr>))
           in (case seal_jobs h ids m' of
                 (jobs, m'') \<Rightarrow> ((i, take k (ob_entries buf)) # jobs, m'')))"

definition SealAt :: "u64 \<Rightarrow> string list \<Rightarrow> batcher \<Rightarrow> batcher" where
  "SealAt h ids b = (case seal_jobs h ids (bufs b) of (jobs, m) \<Rightarrow> send_jobs jobs (b\<lparr>bufs := m\<rparr>))"

definition batcher_Reset :: "batcher \<Rightarrow> batcher" where
  "batcher_Reset b = b\<lparr>bufs := Map.empty\<rparr>"

section \<open>The segment invariant\<close>

text \<open>
  A segment is never empty, its entries are contiguous, and \<^verbatim>\<open>lastSeq\<close> and \<^verbatim>\<open>rawLen\<close> say
  what they are meant to.
\<close>

definition buf_ok :: "outBuf \<Rightarrow> bool" where
  "buf_ok u \<longleftrightarrow> ob_entries u \<noteq> []
     \<and> contiguous (oe_seq (hd (ob_entries u)) - 1) (ob_entries u)
     \<and> ob_lastSeq u = oe_seq (last (ob_entries u))
     \<and> ob_rawLen u = raw_len (ob_entries u)"

definition map_ok :: "(string \<rightharpoonup> outBuf) \<Rightarrow> bool" where
  "map_ok m \<longleftrightarrow> (\<forall>i u. m i = Some u \<longrightarrow> buf_ok u)"

definition batcher_ok :: "batcher \<Rightarrow> bool" where
  "batcher_ok b \<longleftrightarrow> map_ok (bufs b)"

lemma map_ok_empty [intro]: "map_ok Map.empty"
  by (simp add: map_ok_def)

lemma map_ok_del [intro]: "map_ok m \<Longrightarrow> map_ok (m(i := None))"
  by (simp add: map_ok_def)

lemma map_ok_upd [intro]: "map_ok m \<Longrightarrow> buf_ok u \<Longrightarrow> map_ok (m(i \<mapsto> u))"
  by (simp add: map_ok_def)

lemma map_okD: "map_ok m \<Longrightarrow> m i = Some u \<Longrightarrow> buf_ok u"
  by (auto simp: map_ok_def)

lemma last_seq_conv: "es \<noteq> [] \<Longrightarrow> last_seq w es = oe_seq (last es)"
  by (induction es arbitrary: w rule: rev_induct) (auto simp: last_seq_def)

lemma contiguous_append:
  "contiguous w (es @ fs) \<longleftrightarrow> contiguous w es \<and> contiguous (last_seq w es) fs"
  by (induction es arbitrary: w) (auto simp: last_seq_def)

lemma contiguous_hd: "contiguous w es \<Longrightarrow> es \<noteq> [] \<Longrightarrow> w = oe_seq (hd es) - 1"
  by (cases es) auto

lemma raw_len_simps [simp]:
  "raw_len [] = 0"
  "raw_len (es @ fs) = raw_len es + raw_len fs"
  "raw_len [e] = length (oe_data e)"
  by (simp_all add: raw_len_def)

lemma send_jobs_bufs [simp]: "bufs (send_jobs js b) = bufs b"
  by (simp add: send_jobs_def)

lemma buf_ok_snoc:
  assumes "buf_ok u" and "d \<noteq> []" and "q = ob_lastSeq u + 1"
  shows "buf_ok (u\<lparr>ob_entries := ob_entries u @ [\<lparr>oe_seq = q, oe_data = d\<rparr>], ob_lastSeq := q,
                  ob_rawLen := ob_rawLen u + length d\<rparr>)"
  using assms by (auto simp: buf_ok_def contiguous_append last_seq_conv)

lemma buf_ok_single:
  "d \<noteq> [] \<Longrightarrow> buf_ok \<lparr>ob_entries = [\<lparr>oe_seq = q, oe_data = d\<rparr>], ob_firstAdd = t,
                    ob_lastSeq = q, ob_rawLen = length d\<rparr>"
  by (simp add: buf_ok_def raw_len_def)

lemma buf_ok_drop:
  assumes "buf_ok u" and "k < length (ob_entries u)"
  shows "buf_ok (u\<lparr>ob_entries := drop k (ob_entries u), ob_rawLen := raw_len (drop k (ob_entries u))\<rparr>)"
proof -
  have "contiguous (last_seq (oe_seq (hd (ob_entries u)) - 1) (take k (ob_entries u)))
          (drop k (ob_entries u))"
    using assms(1) by (metis append_take_drop_id buf_ok_def contiguous_append)
  moreover from this assms(2)
  have "last_seq (oe_seq (hd (ob_entries u)) - 1) (take k (ob_entries u))
        = oe_seq (hd (drop k (ob_entries u))) - 1"
    by (intro contiguous_hd) auto
  ultimately show ?thesis
    using assms by (auto simp: buf_ok_def)
qed

section \<open>Conservation of the output bytes\<close>

definition entry_bytes :: "outEntry list \<Rightarrow> byte list" where
  "entry_bytes es = concat (map oe_data es)"

definition map_bytes :: "(string \<rightharpoonup> outBuf) \<Rightarrow> string \<Rightarrow> byte list" where
  "map_bytes m i = (case m i of None \<Rightarrow> [] | Some u \<Rightarrow> entry_bytes (ob_entries u))"

definition jobs_bytes :: "flush_jobs \<Rightarrow> string \<Rightarrow> byte list" where
  "jobs_bytes js i = concat (map (\<lambda>(j, es). if j = i then entry_bytes es else []) js)"

definition session_sent :: "string \<Rightarrow> Message list \<Rightarrow> byte list" where
  "session_sent i ms = sent_bytes (filter (\<lambda>m. SessionID m = i) ms)"

text \<open>Everything of a session that is on the wire or still buffered, in this order.\<close>

definition session_bytes :: "string \<Rightarrow> batcher \<Rightarrow> byte list" where
  "session_bytes i b = session_sent i (wire b) @ map_bytes (bufs b) i"

lemma entry_bytes_simps [simp]:
  "entry_bytes [] = []"
  "entry_bytes (es @ fs) = entry_bytes es @ entry_bytes fs"
  "entry_bytes [e] = oe_data e"
  by (simp_all add: entry_bytes_def)

lemma jobs_bytes_simps [simp]:
  "jobs_bytes [] i = []"
  "jobs_bytes ((j, es) # js) i = (if j = i then entry_bytes es else []) @ jobs_bytes js i"
  by (simp_all add: jobs_bytes_def)

lemma session_sent_simps [simp]:
  "session_sent i [] = []"
  "session_sent i (ms @ ns) = session_sent i ms @ session_sent i ns"
  by (simp_all add: session_sent_def)

lemma session_sent_batch: "session_sent i (sendBatch j es) = (if j = i then entry_bytes es else [])"
proof -
  have "SessionID m = j" if "m \<in> set (sendBatch j es)" for m
    using sendBatch_messages [OF that] by (auto simp: message_fits_def)
  then have "filter (\<lambda>m. SessionID m = i) (sendBatch j es) = (if j = i then sendBatch j es else [])"
    by (auto intro!: filter_True filter_False)
  then show ?thesis
    by (simp add: session_sent_def sendBatch_bytes entry_bytes_def)
qed

lemma session_sent_jobs:
  "session_sent i (concat (map (\<lambda>(j, es). sendBatch j es) js)) = jobs_bytes js i"
  by (induction js) (auto simp: session_sent_batch)

lemma session_bytes_send_jobs:
  "session_bytes i (send_jobs js (b\<lparr>bufs := m\<rparr>))
     = session_sent i (wire b) @ jobs_bytes js i @ map_bytes m i"
  by (simp add: session_bytes_def send_jobs_def session_sent_jobs)

text \<open>
  What the three walks over the buffers share: they move a prefix of each segment into a
  job, losing no byte, and leave well-formed segments behind. The client is the operation
  that runs the walk and sends the jobs.
\<close>

locale batch_walk =
  fixes walk :: "string list \<Rightarrow> (string \<rightharpoonup> outBuf) \<Rightarrow> flush_jobs \<times> (string \<rightharpoonup> outBuf)"
  assumes walk_bytes: "walk ids m = (js, m') \<Longrightarrow> jobs_bytes js i @ map_bytes m' i = map_bytes m i"
    and walk_ok: "walk ids m = (js, m') \<Longrightarrow> map_ok m \<Longrightarrow> map_ok m'"
begin

lemma run_bytes:
  "session_bytes i (case walk ids (bufs b) of (js, m) \<Rightarrow> send_jobs js (b\<lparr>bufs := m\<rparr>))
     = session_bytes i b"
  using walk_bytes [of ids "bufs b"]
  by (cases "walk ids (bufs b)") (simp add: session_bytes_send_jobs, simp add: session_bytes_def)

lemma run_ok:
  "batcher_ok b \<Longrightarrow>
   batcher_ok (case walk ids (bufs b) of (js, m) \<Rightarrow> send_jobs js (b\<lparr>bufs := m\<rparr>))"
  using walk_ok [of ids "bufs b"]
  by (cases "walk ids (bufs b)") (simp add: batcher_ok_def)

end

lemma map_bytes_upd [simp]:
  "map_bytes (m(i := None)) j = (if i = j then [] else map_bytes m j)"
  "map_bytes (m(i \<mapsto> u)) j = (if i = j then entry_bytes (ob_entries u) else map_bytes m j)"
  by (simp_all add: map_bytes_def)

lemma map_bytes_Some: "m i = Some u \<Longrightarrow> map_bytes m i = entry_bytes (ob_entries u)"
  by (simp add: map_bytes_def)

lemma seal_split_le: "seal_split h es \<le> length es"
  by (induction h es rule: seal_split.induct) auto

interpretation tick_walk: batch_walk "due_jobs now deadline" for now deadline
proof
  show "jobs_bytes js i @ map_bytes m' i = map_bytes m i"
    if "due_jobs now deadline ids m = (js, m')" for ids m js m' i
    using that
    by (induction now deadline ids m arbitrary: js m' rule: due_jobs.induct)
      (auto simp: map_bytes_Some split: option.splits if_splits prod.splits)
  show "map_ok m'"
    if "due_jobs now deadline ids m = (js, m')" and "map_ok m" for ids m js m'
    using that
    by (induction now deadline ids m arbitrary: js m' rule: due_jobs.induct)
      (auto split: option.splits if_splits prod.splits)
qed

interpretation all_walk: batch_walk all_jobs
proof
  show "jobs_bytes js i @ map_bytes m' i = map_bytes m i"
    if "all_jobs ids m = (js, m')" for ids m js m' i
    using that
    by (induction ids m arbitrary: js m' rule: all_jobs.induct)
      (auto simp: map_bytes_Some split: option.splits if_splits prod.splits)
  show "map_ok m'"
    if "all_jobs ids m = (js, m')" and "map_ok m" for ids m js m'
    using that
    by (induction ids m arbitrary: js m' rule: all_jobs.induct)
      (auto split: option.splits if_splits prod.splits)
qed

interpretation seal_walk: batch_walk "seal_jobs h" for h
proof
  show "jobs_bytes js i @ map_bytes m' i = map_bytes m i"
    if "seal_jobs h ids m = (js, m')" for ids m js m' i
    using that
  proof (induction h ids m arbitrary: js m' rule: seal_jobs.induct)
    case (2 h j ids m)
    show ?case
    proof (cases "m j")
      case (Some u)
      have "entry_bytes (take k es) @ entry_bytes (drop k es) = entry_bytes es" for k es
        by (metis append_take_drop_id entry_bytes_simps(2))
      with 2 Some show ?thesis
        by (auto simp: Let_def map_bytes_Some split: if_splits prod.splits)
    qed (use 2 in simp)
  qed simp
  show "map_ok m'" if "seal_jobs h ids m = (js, m')" and "map_ok m" for ids m js m'
    using that
  proof (induction h ids m arbitrary: js m' rule: seal_jobs.induct)
    case (2 h j ids m)
    show ?case
    proof (cases "m j")
      case (Some u)
      define k where "k = seal_split h (ob_entries u)"
      have "k < length (ob_entries u)" if "k \<noteq> length (ob_entries u)"
        using that seal_split_le [of h "ob_entries u"] by (simp add: k_def)
      then have "map_ok (if k = length (ob_entries u) then m(j := None)
          else m(j \<mapsto> u\<lparr>ob_entries := drop k (ob_entries u),
                       ob_rawLen := raw_len (drop k (ob_entries u))\<rparr>))"
        using "2.prems"(2) Some by (auto intro: buf_ok_drop map_okD)
      with 2 Some show ?thesis
        by (auto simp: Let_def k_def [symmetric] split: if_splits prod.splits)
    qed (use 2 in simp)
  qed simp
qed

lemma FlushSession_as_jobs:
  assumes "batcher_ok b"
  shows "FlushSession i b = (case bufs b i of None \<Rightarrow> b
    | Some u \<Rightarrow> send_jobs [(i, ob_entries u)] (b\<lparr>bufs := (bufs b)(i := None)\<rparr>))"
  using assms by (auto simp: FlushSession_def batcher_ok_def buf_ok_def dest: map_okD split: option.splits)

lemma FlushSession_None [simp]: "bufs b i = None \<Longrightarrow> FlushSession i b = b"
  by (simp add: FlushSession_def)

lemma FlushSession_ok: "batcher_ok b \<Longrightarrow> batcher_ok (FlushSession i b)"
  by (auto simp: FlushSession_as_jobs batcher_ok_def split: option.splits)

lemma FlushSession_bytes: "batcher_ok b \<Longrightarrow> session_bytes j (FlushSession i b) = session_bytes j b"
  by (auto simp: FlushSession_as_jobs session_bytes_send_jobs split: option.splits)
    (auto simp: session_bytes_def map_bytes_Some)

lemma FlushSession_gone: "batcher_ok b \<Longrightarrow> bufs (FlushSession i b) i = None"
  by (simp add: FlushSession_as_jobs split: option.splits)

lemma batcher_Add_ok:
  assumes "batcher_ok b"
  shows "batcher_ok (batcher_Add i d q now b)"
proof (cases "d = []")
  case True
  with assms show ?thesis by (simp add: batcher_Add_def)
next
  case d: False
  show ?thesis
  proof (cases "bufs b i")
    case None
    with d assms show ?thesis
      by (auto simp: batcher_Add_def batcher_ok_def Let_def intro: buf_ok_single)
  next
    case (Some u)
    then have u: "buf_ok u" using assms by (auto simp: batcher_ok_def dest: map_okD)
    show ?thesis
    proof (cases "q = ob_lastSeq u + 1")
      case True
      with Some d assms u show ?thesis
        using buf_ok_snoc [OF u d True] by (auto simp: batcher_Add_def batcher_ok_def Let_def)
    next
      case False
      with Some d u FlushSession_ok [OF assms, of i] show ?thesis
        by (auto simp: batcher_Add_def batcher_ok_def buf_ok_def [of u] Let_def
            intro: buf_ok_single)
    qed
  qed
qed

lemma session_bytes_bufs_upd:
  "session_bytes j (b\<lparr>bufs := (bufs b)(i \<mapsto> u)\<rparr>)
     = session_sent j (wire b) @ (if i = j then entry_bytes (ob_entries u) else map_bytes (bufs b) j)"
  by (simp add: session_bytes_def)

lemma session_bytes_Some:
  "bufs b i = Some u \<Longrightarrow> session_bytes i b = session_sent i (wire b) @ entry_bytes (ob_entries u)"
  by (simp add: session_bytes_def map_bytes_Some)

lemma session_bytes_None: "bufs b i = None \<Longrightarrow> session_bytes i b = session_sent i (wire b)"
  by (simp add: session_bytes_def map_bytes_def)

lemma batcher_Add_bytes:
  assumes "batcher_ok b"
  shows "session_bytes j (batcher_Add i d q now b) = session_bytes j b @ (if i = j then d else [])"
proof -
  have flushed: "session_bytes j b = session_sent j (wire (FlushSession i b))
      @ (if i = j then [] else map_bytes (bufs (FlushSession i b)) j)"
    using FlushSession_bytes [OF assms, of j i] FlushSession_gone [OF assms, of i]
    by (auto simp: session_bytes_def map_bytes_def split: if_splits)
  show ?thesis
    using flushed session_bytes_def [of j b]
    by (cases "bufs b i"; cases "i = j")
      (auto simp: batcher_Add_def Let_def session_bytes_bufs_upd session_bytes_Some
        session_bytes_None session_bytes_def [of j b] map_bytes_Some)
qed

section \<open>Runs of operations\<close>

datatype batcher_op =
    OpAdd string "byte list" u64 int
  | OpTick bool int "string list"
  | OpFlushSession string
  | OpFlushAll "string list"
  | OpSealAt u64 "string list"
  | OpReset

fun batcher_step :: "batcher \<Rightarrow> batcher_op \<Rightarrow> batcher" where
  "batcher_step b (OpAdd i d q now) = batcher_Add i d q now b"
| "batcher_step b (OpTick interactive now ids) = batcher_tick interactive now ids b"
| "batcher_step b (OpFlushSession i) = FlushSession i b"
| "batcher_step b (OpFlushAll ids) = FlushAll ids b"
| "batcher_step b (OpSealAt h ids) = SealAt h ids b"
| "batcher_step b OpReset = batcher_Reset b"

definition batcher_run :: "batcher \<Rightarrow> batcher_op list \<Rightarrow> batcher" where
  "batcher_run b ops = foldl batcher_step b ops"

text \<open>What the callers of \<^verbatim>\<open>Add\<close> have written to a session over a run.\<close>

fun added :: "string \<Rightarrow> batcher_op list \<Rightarrow> byte list" where
  "added i [] = []"
| "added i (OpAdd j d q now # ops) = (if j = i then d else []) @ added i ops"
| "added i (_ # ops) = added i ops"

text \<open>What a run threw away of a session: at each \<^verbatim>\<open>Reset\<close> what was pending then.\<close>

fun discarded :: "string \<Rightarrow> batcher \<Rightarrow> batcher_op list \<Rightarrow> byte list list" where
  "discarded i b [] = []"
| "discarded i b (x # ops) =
     (if x = OpReset then [map_bytes (bufs b) i] else []) @ discarded i (batcher_step b x) ops"

text \<open>Alternating pieces of two lists, as in \<open>s0 d0 s1 d1 s2\<close>.\<close>

fun weave :: "'a list list \<Rightarrow> 'a list list \<Rightarrow> 'a list" where
  "weave (s # ss) (d # ds) = s @ d @ weave ss ds"
| "weave ss [] = concat ss"
| "weave [] ds = concat ds"

lemma weave_prefix: "ss \<noteq> [] \<Longrightarrow> weave ((d @ hd ss) # tl ss) ls = d @ weave ss ls"
  by (cases ss; cases ls) simp_all

lemma weave_Nil [simp]: "weave ss [] = concat ss"
  by (cases ss) simp_all

lemma batcher_Reset_ok: "batcher_ok (batcher_Reset b)"
  by (simp add: batcher_Reset_def batcher_ok_def map_ok_empty)

lemma batcher_step_ok: "batcher_ok b \<Longrightarrow> batcher_ok (batcher_step b x)"
  by (cases x)
    (simp_all add: batcher_Add_ok FlushSession_ok batcher_tick_def FlushAll_def SealAt_def
      tick_walk.run_ok all_walk.run_ok seal_walk.run_ok batcher_Reset_ok)

lemma batcher_step_bytes:
  "batcher_ok b \<Longrightarrow> x \<noteq> OpReset \<Longrightarrow> session_bytes i (batcher_step b x) = session_bytes i b @ added i [x]"
  by (cases x)
    (simp_all add: batcher_Add_bytes FlushSession_bytes batcher_tick_def FlushAll_def SealAt_def
      tick_walk.run_bytes all_walk.run_bytes seal_walk.run_bytes)

lemma send_jobs_wire:
  "\<exists>ms. wire (send_jobs js b) = wire b @ ms \<and> (\<forall>m \<in> set ms. Type m = TypeOutput)"
  using sendBatch_messages by (fastforce simp: send_jobs_def message_fits_def)

lemma batcher_step_wire:
  "\<exists>ms. wire (batcher_step b x) = wire b @ ms \<and> (\<forall>m \<in> set ms. Type m = TypeOutput)"
proof -
  have flush: "\<exists>ms. wire (FlushSession i b) = wire b @ ms \<and> (\<forall>m \<in> set ms. Type m = TypeOutput)" for i
  proof (cases "bufs b i")
    case (Some u)
    then show ?thesis
      using send_jobs_wire [of "[(i, ob_entries u)]" "b\<lparr>bufs := (bufs b)(i := None)\<rparr>"]
      by (simp add: FlushSession_def)
  qed simp
  have walk: "\<exists>ms. wire (case r of (js, m) \<Rightarrow> send_jobs js (b\<lparr>bufs := m\<rparr>)) = wire b @ ms
      \<and> (\<forall>m \<in> set ms. Type m = TypeOutput)" for r
    using send_jobs_wire [of "fst r" "b\<lparr>bufs := snd r\<rparr>"] by (simp add: case_prod_unfold)
  show ?thesis
  proof (cases x)
    case (OpAdd i d q now)
    then show ?thesis
      using flush [of i] by (cases "bufs b i") (auto simp: batcher_Add_def Let_def)
  next
    case OpReset
    then show ?thesis by (simp add: batcher_Reset_def)
  qed (use walk flush in \<open>auto simp: batcher_tick_def FlushAll_def SealAt_def\<close>)
qed

lemma added_Cons: "added i (x # ops) = added i [x] @ added i ops"
  by (cases x) auto

lemma batcher_run_Cons: "batcher_run b (x # ops) = batcher_run (batcher_step b x) ops"
  by (simp add: batcher_run_def)

lemma batcher_run_ok: "batcher_ok b \<Longrightarrow> batcher_ok (batcher_run b ops)"
  by (induction ops arbitrary: b) (auto simp: batcher_run_def batcher_step_ok)

lemma batcher_step_moves:
  assumes "batcher_ok b" and "x \<noteq> OpReset"
  shows "\<exists>d. session_sent i (wire (batcher_step b x)) = session_sent i (wire b) @ d
    \<and> map_bytes (bufs b) i @ added i [x] = d @ map_bytes (bufs (batcher_step b x)) i"
proof -
  obtain ms where "wire (batcher_step b x) = wire b @ ms" using batcher_step_wire by blast
  then have "session_sent i (wire (batcher_step b x)) = session_sent i (wire b) @ session_sent i ms"
    by simp
  moreover from this batcher_step_bytes [OF assms, of i]
  have "map_bytes (bufs b) i @ added i [x] = session_sent i ms @ map_bytes (bufs (batcher_step b x)) i"
    by (simp add: session_bytes_def)
  ultimately show ?thesis by blast
qed

lemma batcher_run_parts:
  assumes "batcher_ok b"
  shows "\<exists>ss. length ss = Suc (length (discarded i b ops))
    \<and> session_sent i (wire (batcher_run b ops)) = session_sent i (wire b) @ concat ss
    \<and> map_bytes (bufs b) i @ added i ops
        = weave ss (discarded i b ops) @ map_bytes (bufs (batcher_run b ops)) i"
  using assms
proof (induction ops arbitrary: b)
  case Nil
  show ?case by (rule exI [of _ "[[]]"]) (simp add: batcher_run_def)
next
  case (Cons x ops)
  from Cons.IH [OF batcher_step_ok [OF Cons.prems, of x]] obtain ss where
    len: "length ss = Suc (length (discarded i (batcher_step b x) ops))"
    and sent: "session_sent i (wire (batcher_run b (x # ops)))
      = session_sent i (wire (batcher_step b x)) @ concat ss"
    and all: "map_bytes (bufs (batcher_step b x)) i @ added i ops
      = weave ss (discarded i (batcher_step b x) ops) @ map_bytes (bufs (batcher_run b (x # ops))) i"
    by (auto simp: batcher_run_Cons)
  show ?case
  proof (cases "x = OpReset")
    case True
    have "map_bytes (bufs (batcher_step b x)) i = []" "wire (batcher_step b x) = wire b"
      using True by (simp_all add: batcher_Reset_def map_bytes_def)
    with len sent all True show ?thesis by (intro exI [of _ "[] # ss"]) auto
  next
    case False
    obtain d where d: "session_sent i (wire (batcher_step b x)) = session_sent i (wire b) @ d"
      "map_bytes (bufs b) i @ added i [x] = d @ map_bytes (bufs (batcher_step b x)) i"
      using batcher_step_moves [OF Cons.prems False] by blast
    have ne: "ss \<noteq> []" using len by auto
    have "map_bytes (bufs b) i @ added i (x # ops)
        = d @ weave ss (discarded i (batcher_step b x) ops) @ map_bytes (bufs (batcher_run b (x # ops))) i"
      using d(2) all by (metis added_Cons append.assoc)
    moreover have "concat ((d @ hd ss) # tl ss) = d @ concat ss" using ne by (cases ss) auto
    ultimately show ?thesis
      using len sent d(1) ne False
      by (intro exI [of _ "(d @ hd ss) # tl ss"]) (auto simp: weave_prefix)
  qed
qed

lemma batcher0_ok: "batcher_ok batcher0"
  by (auto simp: batcher0_def batcher_ok_def)

section \<open>Sealing and latency\<close>

lemma due_jobs_map:
  "due_jobs now dl ids m = (js, m') \<Longrightarrow>
   m' i = (case m i of None \<Rightarrow> None
     | Some u \<Rightarrow> if i \<in> set ids \<and> (dl \<le> now - ob_firstAdd u \<or> outputRawCap \<le> ob_rawLen u)
               then None else Some u)"
proof (induction now dl ids m arbitrary: js m' rule: due_jobs.induct)
  case (2 now dl j ids m)
  show ?case
  proof (cases "m j")
    case None
    with 2 show ?thesis by (auto split: option.splits)
  next
    case (Some v)
    show ?thesis
    proof (cases "dl \<le> now - ob_firstAdd v \<or> outputRawCap \<le> ob_rawLen v")
      case True
      with "2.prems" Some obtain js'
        where "due_jobs now dl ids (m(j := None)) = (js', m')"
        by (auto simp del: fun_upd_apply split: prod.splits)
      from "2.IH"(2) [OF Some True this] True Some show ?thesis
        by (cases "i = j"; cases "m i") auto
    next
      case False
      with "2.prems" Some have "due_jobs now dl ids m = (js, m')" by simp
      from "2.IH"(3) [OF Some False this] False Some show ?thesis
        by (cases "i = j"; cases "m i") auto
    qed
  qed
qed (simp split: option.splits)

lemma due_jobs_young:
  assumes "due_jobs now dl ids m = (js, m')" and "i \<in> set ids" and "m' i = Some u"
  shows "now - ob_firstAdd u < dl \<and> ob_rawLen u < outputRawCap"
  using due_jobs_map [OF assms(1), of i] assms(2,3)
  by (auto simp del: outputRawCap_def split: option.splits if_splits)

lemma seal_split_after:
  "seal_split h es < length es \<Longrightarrow> h < oe_seq (es ! seal_split h es)"
  by (induction h es rule: seal_split.induct) auto

lemma seal_split_before: "e \<in> set (take (seal_split h es) es) \<Longrightarrow> oe_seq e \<le> h"
  by (induction h es rule: seal_split.induct) (auto split: if_splits)

lemma seal_split_drop: "seal_split h (drop (seal_split h es) es) = 0"
  by (induction h es rule: seal_split.induct) auto

text \<open>What \<open>SealAt\<close> leaves of one segment.\<close>

definition sealed :: "u64 \<Rightarrow> outBuf \<Rightarrow> outBuf option" where
  "sealed h u =
    (let k = seal_split h (ob_entries u); rest = drop k (ob_entries u) in
     if k = 0 then Some u else if k = length (ob_entries u) then None
     else Some (u\<lparr>ob_entries := rest, ob_rawLen := raw_len rest\<rparr>))"

lemma sealed_idem: "sealed h u = Some v \<Longrightarrow> sealed h v = Some v"
  by (auto simp: sealed_def Let_def seal_split_drop split: if_splits)

lemma seal_jobs_map:
  "seal_jobs h ids m = (js, m') \<Longrightarrow>
   m' i = (case m i of None \<Rightarrow> None | Some u \<Rightarrow> if i \<in> set ids then sealed h u else Some u)"
proof (induction h ids m arbitrary: js m' rule: seal_jobs.induct)
  case (2 h j ids m)
  show ?case
  proof (cases "m j")
    case None
    with 2 show ?thesis by (auto split: option.splits)
  next
    case (Some v)
    define k where "k = seal_split h (ob_entries v)"
    define mv where "mv = m(j := sealed h v)"
    show ?thesis
    proof (cases "k = 0")
      case True
      then have "sealed h v = Some v" by (simp add: sealed_def k_def)
      moreover from True "2.prems" Some have "seal_jobs h ids m = (js, m')" by (simp add: k_def)
      from "2.IH"(2) [OF Some k_def True this]
      have "m' i = (case m i of None \<Rightarrow> None | Some u \<Rightarrow> if i \<in> set ids then sealed h u else Some u)" .
      ultimately show ?thesis using Some by (cases "i = j"; cases "m i") auto
    next
      case False
      have mv: "mv = (if k = length (ob_entries v) then m(j := None)
          else m(j \<mapsto> v\<lparr>ob_entries := drop k (ob_entries v),
                       ob_rawLen := raw_len (drop k (ob_entries v))\<rparr>))"
        using False by (simp add: mv_def sealed_def k_def Let_def)
      with "2.prems" Some False obtain js' where "seal_jobs h ids mv = (js', m')"
        by (auto simp: Let_def k_def [symmetric] simp del: fun_upd_apply split: prod.splits)
      from "2.IH"(3) [OF Some k_def False refl mv this]
      have "m' i = (case mv i of None \<Rightarrow> None | Some u \<Rightarrow> if i \<in> set ids then sealed h u else Some u)" .
      note m'i = this
      show ?thesis
      proof (cases "i = j")
        case True
        have "(case sealed h v of None \<Rightarrow> None
               | Some u \<Rightarrow> if i \<in> set ids then sealed h u else Some u) = sealed h v"
          by (simp add: sealed_idem split: option.split)
        then show ?thesis using m'i Some True by (simp add: mv_def)
      next
        case False
        then show ?thesis using m'i by (simp add: mv_def split: option.split)
      qed
    qed
  qed
qed (simp split: option.splits)

lemma sealed_after: "sealed h u = Some v \<Longrightarrow> buf_ok u \<Longrightarrow> h < oe_seq (hd (ob_entries v))"
proof -
  assume v: "sealed h u = Some v" and u: "buf_ok u"
  define k where "k = seal_split h (ob_entries u)"
  have ne: "ob_entries u \<noteq> []" using u by (simp add: buf_ok_def)
  have k: "k < length (ob_entries u)" and ev: "ob_entries v = drop k (ob_entries u)"
    using v ne seal_split_le [of h "ob_entries u"]
    by (auto simp: sealed_def Let_def k_def [symmetric] split: if_splits)
  have "hd (ob_entries v) = ob_entries u ! k"
    using k ev by (simp add: hd_drop_conv_nth)
  with seal_split_after [of h "ob_entries u"] k show ?thesis by (simp add: k_def)
qed

lemma seal_split_takeWhile: "seal_split h es = length (takeWhile (\<lambda>e. oe_seq e \<le> h) es)"
  by (induction h es rule: seal_split.induct) auto

lemma sealed_rest:
  assumes "buf_ok u"
  shows "sealed h u = (let rest = dropWhile (\<lambda>e. oe_seq e \<le> h) (ob_entries u) in
    if rest = [] then None else Some (u\<lparr>ob_entries := rest, ob_rawLen := raw_len rest\<rparr>))"
proof -
  let ?es = "ob_entries u" and ?P = "\<lambda>e. oe_seq e \<le> h"
  have d: "drop (length (takeWhile ?P ?es)) ?es = dropWhile ?P ?es" by (simp add: dropWhile_eq_drop)
  have "length ?es = length (takeWhile ?P ?es) + length (dropWhile ?P ?es)"
    by (metis length_append takeWhile_dropWhile_id)
  then have nil: "dropWhile ?P ?es = [] \<longleftrightarrow> length (takeWhile ?P ?es) = length ?es" by auto
  have ne: "?es \<noteq> []" "ob_rawLen u = raw_len ?es" using assms by (simp_all add: buf_ok_def)
  show ?thesis
  proof (cases "takeWhile ?P ?es = []")
    case True
    then have "dropWhile ?P ?es = ?es" using d by simp
    then show ?thesis using True ne by (simp add: sealed_def seal_split_takeWhile Let_def)
  next
    case False
    then show ?thesis using d nil by (simp add: sealed_def seal_split_takeWhile Let_def)
  qed
qed

lemma rest_bytes:
  "(case if after = [] then None else Some (u\<lparr>ob_entries := after, ob_rawLen := n\<rparr>) of
      None \<Rightarrow> [] | Some v \<Rightarrow> entry_bytes (ob_entries v)) = entry_bytes after"
  by simp

section \<open>Properties\<close>


lemma sendBatch_example:
  "sendBatch ''s'' [\<lparr>oe_seq = 7, oe_data = [0x1B]\<rparr>] = [output_message ''s'' [0x1B] 1 7]"
  by (simp add: sendBatch_def packing0_def pack_write.simps piece_fits_def take_piece_def
      next_n_def emit_def)


text \<open>
  C13: A batch of contiguous writes reaches the wire complete and in order: the data of its
  messages concatenates to the data of the writes, and the \<^verbatim>\<open>seq\<close>/\<^verbatim>\<open>n\<close> fields advance the
  receiver's watermark from the write before the batch to its last write with no gap and no
  overlap, also when writes are split over several messages.
\<close>

theorem batch_complete:
  assumes "contiguous w entries"
  shows "sent_bytes (sendBatch sid entries) = concat (map oe_data entries)
    \<and> coverage_ok w (sendBatch sid entries)
    \<and> watermark w (sendBatch sid entries) = last_seq w entries"
  using sendBatch_cov [OF assms] sendBatch_bytes by blast

theorem batch_complete_witness:
  "coverage_ok 6 (sendBatch ''s'' [\<lparr>oe_seq = 7, oe_data = [0x1B]\<rparr>])"
  using batch_complete [of 6 "[\<lparr>oe_seq = 7, oe_data = [0x1B]\<rparr>]" "''s''"] by simp

text \<open>
  C14: Over any run of \<^verbatim>\<open>Add\<close>, \<^verbatim>\<open>tick\<close>, \<^verbatim>\<open>FlushSession\<close>, \<^verbatim>\<open>FlushAll\<close>, \<^verbatim>\<open>SealAt\<close> and \<^verbatim>\<open>Reset\<close>, in
  any order and with any map iteration order, no output byte of any session is duplicated or
  reordered, and only \<^verbatim>\<open>Reset\<close> loses any: what was added is, in order, what went on the wire up to the
  first reset, what that reset found pending and dropped, what went on the wire up to the second
  reset, and so on, and at last what is still buffered. Without a reset, what is on the wire followed
  by what is buffered is exactly what was added.
\<close>

theorem batcher_conserves_output:
  "(\<exists>ss. length ss = Suc (length (discarded i batcher0 ops))
     \<and> session_sent i (wire (batcher_run batcher0 ops)) = concat ss
     \<and> added i ops
         = weave ss (discarded i batcher0 ops) @ map_bytes (bufs (batcher_run batcher0 ops)) i)
   \<and> (OpReset \<in> set ops
      \<or> session_sent i (wire (batcher_run batcher0 ops)) @ map_bytes (bufs (batcher_run batcher0 ops)) i
          = added i ops)"
proof -
  have "discarded i b ops = []" if "OpReset \<notin> set ops" for b
    using that by (induction ops arbitrary: b) auto
  moreover have "map_bytes (bufs batcher0) i = []" "session_sent i (wire batcher0) = []"
    by (simp_all add: batcher0_def map_bytes_def)
  ultimately show ?thesis using batcher_run_parts [OF batcher0_ok, of i ops] by force
qed

text \<open>A reset in the middle: the first byte was sent, the second dropped, the third is pending.\<close>

theorem batcher_conserves_output_witness:
  "let ops = [OpAdd ''s'' [1] 5 0, OpFlushAll [''s''], OpAdd ''s'' [2] 6 0, OpReset, OpAdd ''s'' [3] 7 0] in
   discarded ''s'' batcher0 ops = [[2]]
   \<and> (\<exists>ss. length ss = 2 \<and> session_sent ''s'' (wire (batcher_run batcher0 ops)) = concat ss
        \<and> [1, 2, 3] = weave ss [[2]] @ map_bytes (bufs (batcher_run batcher0 ops)) ''s'')"
proof -
  let ?ops = "[OpAdd ''s'' [1] 5 0, OpFlushAll [''s''], OpAdd ''s'' [2] 6 0, OpReset, OpAdd ''s'' [3] 7 0]"
  have "discarded ''s'' batcher0 ?ops = [[2]]"
    by (simp add: batcher0_def batcher_Add_def FlushAll_def send_jobs_def map_bytes_def entry_bytes_def Let_def)
  with batcher_conserves_output [of "''s''" ?ops] show ?thesis by (simp add: numeral_2_eq_2 Let_def)
qed

text \<open>
  Every segment the batcher ever holds is non-empty and covers a contiguous range of
  sequence numbers, and its cached last sequence number and raw length are right; so every
  emitted batch satisfies the hypothesis of the coverage theorem.
\<close>

theorem batcher_segments_contiguous:
  assumes "bufs (batcher_run batcher0 ops) i = Some u"
  shows "ob_entries u \<noteq> [] \<and> contiguous (oe_seq (hd (ob_entries u)) - 1) (ob_entries u)
    \<and> ob_lastSeq u = oe_seq (last (ob_entries u)) \<and> ob_rawLen u = raw_len (ob_entries u)"
  using batcher_run_ok [OF batcher0_ok, of ops] assms
  by (auto simp: batcher_ok_def buf_ok_def dest: map_okD)

theorem batcher_segments_contiguous_witness:
  "bufs (batcher_run batcher0 [OpAdd ''s'' [1] 5 0, OpAdd ''s'' [2] 6 0]) ''s'' \<noteq> None \<and>
   contiguous 4 (ob_entries (the (bufs (batcher_run batcher0
     [OpAdd ''s'' [1] 5 0, OpAdd ''s'' [2] 6 0]) ''s'')))"
  using batcher_segments_contiguous [of "[OpAdd ''s'' [1] 5 0, OpAdd ''s'' [2] 6 0]" "''s''"]
  by (simp add: batcher_run_def batcher_Add_def batcher0_def Let_def)

text \<open>
  C16: \<^verbatim>\<open>SealAt\<close> makes the history snapshot a clean cut. Of a session it walks, exactly the leading
  writes with a sequence number of at most \<open>h\<close> go to the wire, in order, and exactly the rest stays
  buffered, as a segment with its own length (or nothing, when nothing is left); the segment begins
  after \<open>h\<close>, so no batch straddles the snapshot. A session it does not walk, or that has nothing
  buffered, keeps what it has and sends nothing.
\<close>

theorem seal_is_a_cut:
  assumes "batcher_ok b"
  shows "(case bufs b i of
      Some u \<Rightarrow> if i \<in> set ids then
        (let before = takeWhile (\<lambda>e. oe_seq e \<le> h) (ob_entries u);
             after = dropWhile (\<lambda>e. oe_seq e \<le> h) (ob_entries u) in
         session_sent i (wire (SealAt h ids b)) = session_sent i (wire b) @ entry_bytes before
         \<and> bufs (SealAt h ids b) i
             = (if after = [] then None else Some (u\<lparr>ob_entries := after, ob_rawLen := raw_len after\<rparr>))
         \<and> (after = [] \<or> h < oe_seq (hd after)))
        else bufs (SealAt h ids b) i = Some u \<and> session_sent i (wire (SealAt h ids b)) = session_sent i (wire b)
    | None \<Rightarrow> bufs (SealAt h ids b) i = None \<and> session_sent i (wire (SealAt h ids b)) = session_sent i (wire b))"
proof -
  obtain js m where jm: "seal_jobs h ids (bufs b) = (js, m)" by fastforce
  have m: "bufs (SealAt h ids b) = m" and sent: "session_sent i (wire (SealAt h ids b))
      = session_sent i (wire b) @ jobs_bytes js i"
    by (simp_all add: SealAt_def jm send_jobs_def session_sent_jobs)
  have bytes: "jobs_bytes js i @ map_bytes m i = map_bytes (bufs b) i"
    by (rule seal_walk.walk_bytes [OF jm])
  show ?thesis
  proof (cases "bufs b i")
    case None
    with seal_jobs_map [OF jm, of i] bytes show ?thesis by (simp add: m sent map_bytes_def)
  next
    case (Some u)
    then have u: "buf_ok u" using assms by (auto simp: batcher_ok_def dest: map_okD)
    show ?thesis
    proof (cases "i \<in> set ids")
      case False
      with seal_jobs_map [OF jm, of i] bytes Some show ?thesis by (simp add: m sent map_bytes_def)
    next
      case True
      then have mi: "m i = sealed h u" using seal_jobs_map [OF jm, of i] Some by simp
      let ?b = "takeWhile (\<lambda>e. oe_seq e \<le> h) (ob_entries u)"
        and ?a = "dropWhile (\<lambda>e. oe_seq e \<le> h) (ob_entries u)"
      have kept: "m i = (if ?a = [] then None else Some (u\<lparr>ob_entries := ?a, ob_rawLen := raw_len ?a\<rparr>))"
        using sealed_rest [OF u, of h] mi by (simp only: Let_def)
      have "map_bytes m i = entry_bytes ?a"
        unfolding map_bytes_def kept by (rule rest_bytes)
      then have "jobs_bytes js i @ entry_bytes ?a = entry_bytes (ob_entries u)"
        using bytes Some by (simp add: map_bytes_Some)
      also have "\<dots> = entry_bytes ?b @ entry_bytes ?a" by (simp flip: entry_bytes_simps(2))
      finally have "jobs_bytes js i = entry_bytes ?b" by simp
      moreover have "?a = [] \<or> h < oe_seq (hd ?a)" using hd_dropWhile [of "\<lambda>e. oe_seq e \<le> h"] by force
      ultimately show ?thesis using Some True kept by (simp add: m sent Let_def)
    qed
  qed
qed

theorem seal_is_a_cut_witness:
  "let b = batcher_run batcher0 [OpAdd ''s'' [1] 5 0, OpAdd ''s'' [2] 6 0];
       b' = SealAt 5 [''s''] b in
   session_sent ''s'' (wire b') = session_sent ''s'' (wire b) @ [1]
   \<and> map_option ob_entries (bufs b' ''s'') = Some [\<lparr>oe_seq = 6, oe_data = [2]\<rparr>]"
proof -
  let ?b = "batcher_run batcher0 [OpAdd ''s'' [1] 5 0, OpAdd ''s'' [2] 6 0]"
  have "bufs ?b ''s'' = Some \<lparr>ob_entries = [\<lparr>oe_seq = 5, oe_data = [1]\<rparr>, \<lparr>oe_seq = 6, oe_data = [2]\<rparr>],
      ob_firstAdd = 0, ob_lastSeq = 6, ob_rawLen = 2\<rparr>"
    by (simp add: batcher_run_def batcher_Add_def batcher0_def Let_def)
  with seal_is_a_cut [where b = ?b and i = "''s''" and ids = "[''s'']" and h = 5,
      OF batcher_run_ok [OF batcher0_ok]]
  show ?thesis by (simp add: Let_def entry_bytes_def raw_len_def)
qed

text \<open>
  The flush tiers bound the delay: after a tick that walks session \<open>i\<close>, a segment of it
  is still buffered only if it is younger than the tier's deadline (10 ms after recent input,
  600 ms otherwise) and below the raw cap.
\<close>

theorem tick_bounds_delay:
  assumes "i \<in> set ids" and "bufs (batcher_tick interactive now ids b) i = Some u"
  shows "now - ob_firstAdd u < (if interactive then 10000000 else 600000000)
    \<and> ob_rawLen u < 24 * 1024"
proof -
  obtain js m where jm: "due_jobs now (flush_deadline interactive) ids (bufs b) = (js, m)"
    by fastforce
  with assms(2) have "m i = Some u" by (simp add: batcher_tick_def)
  from due_jobs_young [OF jm assms(1) this] show ?thesis
    by (auto simp: flush_deadline_def)
qed

theorem tick_bounds_delay_witness:
  "\<exists>u. bufs (batcher_tick False 100 [''s''] (batcher_Add ''s'' [1] 5 0 batcher0)) ''s'' = Some u
     \<and> 100 - ob_firstAdd u < 600000000"
proof -
  let ?b = "batcher_tick False 100 [''s''] (batcher_Add ''s'' [1] 5 0 batcher0)"
  have "\<exists>u. bufs ?b ''s'' = Some u"
    by (simp add: batcher_tick_def batcher_Add_def batcher0_def flush_deadline_def Let_def)
  then show ?thesis
    using tick_bounds_delay [of "''s''" "[''s'']" False 100 "batcher_Add ''s'' [1] 5 0 batcher0"]
    by auto
qed

end
