(* ===== verification/History_Chunks.thy ===== *)
theory History_Chunks
  imports Protocol
begin

text \<open>
  How \<^verbatim>\<open>daemon.go\<close> splits a session's serialized scrollback (\<^verbatim>\<open>historyPlainChunks\<close>,
  \<^verbatim>\<open>historyChunkFits\<close>, \<^verbatim>\<open>sendHistoryChunks\<close>): each chunk grows by units of 4096 raw bytes
  while the marshalled message fits the secure payload budget. The theory proves what the
  chunks preserve, and records the two places where the code does less than its comments
  say: the first unit of a chunk is never measured, and a chunk boundary can cut a UTF-8
  sequence, which \<^verbatim>\<open>json.Marshal\<close> then replaces by U+FFFD on both sides.
\<close>

section \<open>The chunker\<close>

definition historyChunkUnit :: nat where [simp]: "historyChunkUnit = 4096"
definition historyChunkMargin :: nat where [simp]: "historyChunkMargin = 2048"

definition history_budget :: nat where
  [simp]: "history_budget = SecureMaxTextPayload - historyChunkMargin"

definition historyChunkFits :: "byte list \<Rightarrow> nat \<Rightarrow> bool" where
  "historyChunkFits raw budget \<longleftrightarrow>
     length (marshal_message (Message0\<lparr>Type := TypeHistoryChunk,
       SessionID := ''00000000000000000000000000000000'', Data := string_of_bytes raw,
       ChunkIndex := 0, TotalChunks := 1, Seq := 0\<rparr>)) \<le> budget"

text \<open>
  \<open>d\<close> is \<^verbatim>\<open>data[start:]\<close> and \<open>e\<close> is \<^verbatim>\<open>end - start\<close>: the inner loop grows the chunk.
\<close>

function grow_chunk :: "byte list \<Rightarrow> nat \<Rightarrow> nat" where
  "grow_chunk d e =
    (if e < length d then
       let nxt = (if length d < e + historyChunkUnit then length d else e + historyChunkUnit) in
       if \<not> historyChunkFits (take nxt d) history_budget then e else grow_chunk d nxt
     else e)"
  by pat_completeness auto
termination
  by (relation "measure (\<lambda>(d, e). length d - e)") auto

declare grow_chunk.simps [simp del]

lemma grow_chunk_ge: "e \<le> length d \<Longrightarrow> e \<le> grow_chunk d e \<and> grow_chunk d e \<le> length d"
proof (induction d e rule: grow_chunk.induct)
  case (1 d e)
  show ?case
    using 1(1) [OF _ refl] 1(2) by (subst (1 2) grow_chunk.simps) (auto simp: Let_def)
qed

definition first_end :: "byte list \<Rightarrow> nat" where
  "first_end d = (if length d < historyChunkUnit then length d else historyChunkUnit)"

function historyPlainChunks :: "byte list \<Rightarrow> byte list list" where
  "historyPlainChunks d =
    (if d = [] then []
     else let e = grow_chunk d (first_end d) in take e d # historyPlainChunks (drop e d))"
  by pat_completeness auto
termination
proof (relation "measure length", goal_cases)
  case (2 d e)
  then have "0 < e"
    using grow_chunk_ge [of "first_end d" d] by (auto simp: first_end_def split: if_splits)
  with 2 show ?case by simp
qed simp

declare historyPlainChunks.simps [simp del]

text \<open>The messages \<^verbatim>\<open>sendHistoryChunks\<close> sends, and the choice \<^verbatim>\<open>handleHistory\<close> makes.\<close>

definition history_chunk_message :: "string \<Rightarrow> nat \<Rightarrow> nat \<Rightarrow> byte list \<Rightarrow> Message" where
  "history_chunk_message sessionID nchunks i raw = Message0\<lparr>Type := TypeHistoryChunk,
     SessionID := sessionID, Data := string_of_bytes raw, ChunkIndex := int i,
     TotalChunks := int nchunks\<rparr>"

definition sendHistoryChunks :: "string \<Rightarrow> byte list \<Rightarrow> u64 \<Rightarrow> Message list" where
  "sendHistoryChunks sessionID data seq =
    (let chunks = historyPlainChunks data; n = length chunks in
     [Message0\<lparr>Type := TypeHistoryStart, SessionID := sessionID, Seq := seq,
               TotalChunks := int n\<rparr>]
     @ map (\<lambda>(i, raw). history_chunk_message sessionID n i raw) (enumerate 0 chunks)
     @ [Message0\<lparr>Type := TypeHistoryEnd, SessionID := sessionID, TotalChunks := int n\<rparr>])"

definition history_messages :: "string \<Rightarrow> byte list \<Rightarrow> u64 \<Rightarrow> Message list" where
  "history_messages sessionID data seq =
    (if length data \<le> 4096
     then [Message0\<lparr>Type := TypeHistoryData, SessionID := sessionID,
                    Data := string_of_bytes data, Seq := seq\<rparr>]
     else sendHistoryChunks sessionID data seq)"

section \<open>Lemmas\<close>

lemma first_end_bounds: "d \<noteq> [] \<Longrightarrow> 0 < first_end d \<and> first_end d \<le> length d"
  by (simp add: first_end_def)

lemma historyPlainChunks_concat: "concat (historyPlainChunks d) = d"
proof (induction d rule: historyPlainChunks.induct)
  case (1 d)
  then show ?case by (subst historyPlainChunks.simps) (auto simp: Let_def)
qed

lemma grow_chunk_fits:
  "grow_chunk d e = e \<or> historyChunkFits (take (grow_chunk d e) d) history_budget"
proof (induction d e rule: grow_chunk.induct)
  case (1 d e)
  show ?case
  proof (cases "e < length d")
    case True
    define nxt where
      "nxt = (if length d < e + historyChunkUnit then length d else e + historyChunkUnit)"
    show ?thesis
    proof (cases "historyChunkFits (take nxt d) history_budget")
      case fits: True
      then have "grow_chunk d e = grow_chunk d nxt"
        using True by (subst grow_chunk.simps) (simp add: nxt_def Let_def)
      with 1 [OF True nxt_def] fits show ?thesis by fastforce
    next
      case False
      then show ?thesis using True by (subst (1) grow_chunk.simps) (simp add: nxt_def Let_def)
    qed
  next
    case False
    then show ?thesis by (subst (1) grow_chunk.simps) simp
  qed
qed

lemma grow_chunk_units:
  "historyChunkUnit dvd e \<Longrightarrow> grow_chunk d e < length d \<Longrightarrow> historyChunkUnit dvd grow_chunk d e"
proof (induction d e rule: grow_chunk.induct)
  case (1 d e)
  show ?case
  proof (cases "e < length d")
    case True
    define nxt where
      "nxt = (if length d < e + historyChunkUnit then length d else e + historyChunkUnit)"
    show ?thesis
    proof (cases "historyChunkFits (take nxt d) history_budget")
      case fits: True
      then have g: "grow_chunk d e = grow_chunk d nxt"
        using True by (subst grow_chunk.simps) (simp add: nxt_def Let_def)
      have "nxt \<le> length d" using True by (simp add: nxt_def)
      with g 1(3) have "nxt < length d" using grow_chunk_ge [of nxt d] by linarith
      then have "historyChunkUnit dvd nxt" using 1(2) by (auto simp: nxt_def split: if_splits)
      with 1(1) [OF True nxt_def] fits g 1(3) show ?thesis by auto
    next
      case False
      then show ?thesis
        using True 1(2) by (subst grow_chunk.simps) (simp add: nxt_def Let_def)
    qed
  next
    case False
    then show ?thesis using 1(2) by (subst grow_chunk.simps) simp
  qed
qed

lemma historyPlainChunks_chunk:
  "c \<in> set (historyPlainChunks d) \<Longrightarrow>
   c \<noteq> [] \<and> (length c \<le> historyChunkUnit \<or> historyChunkFits c history_budget)"
proof (induction d rule: historyPlainChunks.induct)
  case (1 d)
  show ?case
  proof (cases "d = []")
    case True
    with 1(2) show ?thesis by (simp add: historyPlainChunks.simps)
  next
    case False
    define e where "e = grow_chunk d (first_end d)"
    have e: "0 < e" "e \<le> length d"
      using first_end_bounds [OF False] grow_chunk_ge [of "first_end d" d] by (auto simp: e_def)
    from 1(2) False have "c = take e d \<or> c \<in> set (historyPlainChunks (drop e d))"
      by (subst (asm) historyPlainChunks.simps) (auto simp: e_def Let_def)
    then show ?thesis
    proof
      assume "c = take e d"
      with False e grow_chunk_fits [of d "first_end d"] show ?thesis
        by (auto simp: e_def first_end_def split: if_splits)
    next
      assume "c \<in> set (historyPlainChunks (drop e d))"
      with 1(1) [OF False e_def] show ?thesis .
    qed
  qed
qed

lemma historyPlainChunks_units:
  "c \<in> set (butlast (historyPlainChunks d)) \<Longrightarrow> historyChunkUnit dvd length c"
proof (induction d rule: historyPlainChunks.induct)
  case (1 d)
  show ?case
  proof (cases "d = []")
    case True
    with 1(2) show ?thesis by (simp add: historyPlainChunks.simps)
  next
    case False
    define e where "e = grow_chunk d (first_end d)"
    have cs: "historyPlainChunks d = take e d # historyPlainChunks (drop e d)"
      using False by (subst historyPlainChunks.simps) (simp add: e_def Let_def)
    show ?thesis
    proof (cases "drop e d = []")
      case True
      with 1(2) cs show ?thesis by (simp add: historyPlainChunks.simps)
    next
      case rest: False
      then have "e < length d" by simp
      moreover from this have "first_end d = historyChunkUnit"
        using grow_chunk_ge [of "first_end d" d] first_end_bounds [OF False]
        by (auto simp: e_def first_end_def split: if_splits)
      ultimately have "historyChunkUnit dvd e"
        unfolding e_def by (intro grow_chunk_units) auto
      moreover have "c \<in> set (butlast (historyPlainChunks (drop e d))) \<Longrightarrow> ?thesis"
        by (rule 1(1) [OF False e_def])
      ultimately show ?thesis
        using 1(2) cs \<open>e < length d\<close> by (auto split: if_splits)
    qed
  qed
qed

lemma length_comma_join_mem: "x \<in> set xs \<Longrightarrow> length x \<le> length (comma_join xs)"
  by (induction xs rule: comma_join.induct) auto

lemma length_marshal_obj:
  assumes "(k, v) \<in> set kvs"
  shows "length (marshal v) \<le> length (marshal (JObj kvs))"
proof -
  have "length (json_string k @ [0x3A] @ marshal v)
      \<le> length (comma_join (map (\<lambda>(k, v). json_string k @ [0x3A] @ marshal v) kvs))"
    using assms by (intro length_comma_join_mem) force
  then show ?thesis by simp
qed

lemma length_marshal_chunk:
  "length (json_escape raw) \<le> length (marshal_message (history_chunk_message sid n i raw))"
proof (cases "raw = []")
  case True
  then show ?thesis by simp
next
  case False
  then have "\<exists>kvs. Message_json (history_chunk_message sid n i raw) = JObj kvs
      \<and> (''data'', JStr (string_of_bytes raw)) \<in> set kvs"
    by (simp add: Message_json_def history_chunk_message_def Message0_def opt_str_def)
  then obtain kvs where kvs: "Message_json (history_chunk_message sid n i raw) = JObj kvs"
    "(''data'', JStr (string_of_bytes raw)) \<in> set kvs" by blast
  have "length (json_escape raw) \<le> length (marshal (JStr (string_of_bytes raw)))"
    by (simp add: json_string_def)
  also have "\<dots> \<le> length (marshal (JObj kvs))" by (rule length_marshal_obj [OF kvs(2)])
  finally show ?thesis by (simp only: marshal_message_def kvs(1))
qed

lemma historyChunkFits_conv:
  "historyChunkFits raw budget \<longleftrightarrow> length (marshal_message
     (history_chunk_message ''00000000000000000000000000000000'' 1 0 raw)) \<le> budget"
  by (simp add: historyChunkFits_def history_chunk_message_def Message0_def)

lemma historyChunkFits_too_long:
  "budget < length (json_escape raw) \<Longrightarrow> \<not> historyChunkFits raw budget"
  using length_marshal_chunk [of raw "''00000000000000000000000000000000''" 1 0]
  by (simp only: historyChunkFits_conv not_le)

text \<open>A scrollback whose second unit does not fit with the first is cut after 4096 bytes.\<close>

lemma first_chunk_unit:
  assumes "4096 < length d" and "history_budget < length (json_escape (take 8192 d))"
  shows "historyPlainChunks d = take 4096 d # historyPlainChunks (drop 4096 d)"
proof -
  define nxt where "nxt = (if length d < 4096 + historyChunkUnit then length d
    else 4096 + historyChunkUnit)"
  have "take nxt d = take 8192 d" by (simp add: nxt_def)
  then have no: "\<not> historyChunkFits (take nxt d) history_budget"
    using historyChunkFits_too_long [OF assms(2)] by simp
  have "grow_chunk d 4096 = 4096"
    using assms(1) no by (subst grow_chunk.simps) (simp only: Let_def nxt_def [symmetric] if_True
      not_False_eq_True)
  moreover have "first_end d = 4096" using assms(1) by (simp add: first_end_def)
  ultimately show ?thesis
    using assms(1) by (subst historyPlainChunks.simps) (auto simp: Let_def)
qed

section \<open>Properties\<close>

text \<open>
  C17: Splitting the scrollback loses nothing: the chunks concatenate to the data, none is
  empty, every chunk but the last is a whole number of 4096-byte units, and a chunk of more
  than one unit has been measured to fit the payload budget.
\<close>

theorem history_chunks_correct:
  "concat (historyPlainChunks d) = d
   \<and> (\<forall>c \<in> set (historyPlainChunks d).
        c \<noteq> [] \<and> (length c \<le> 4096 \<or> historyChunkFits c (SecureMaxTextPayload - 2048)))
   \<and> (\<forall>c \<in> set (butlast (historyPlainChunks d)). 4096 dvd length c)"
  using historyPlainChunks_concat historyPlainChunks_chunk historyPlainChunks_units
  by (auto simp del: length_greater_0_conv)

text \<open>The theorem has bounded quantifiers; this is an instance over actual chunks.\<close>

theorem history_chunks_correct_witness:
  "concat (historyPlainChunks [0x61, 0x1B]) = [0x61, 0x1B]
   \<and> historyPlainChunks [0x61, 0x1B] = [[0x61, 0x1B]]"
  using history_chunks_correct [of "[0x61, 0x1B]"]
  by (simp add: historyPlainChunks.simps grow_chunk.simps first_end_def)

text \<open>
  The comment on \<^verbatim>\<open>historyPlainChunks\<close> says that every chunk's message stays under
  \<^verbatim>\<open>SecureMaxTextPayload\<close>. It does not: the first unit of a chunk is never measured, and 4096
  ESC bytes escape to 24576. Whatever the session, position and count of the chunk, its
  message exceeds what the secure channel accepts and is dropped, so the history has a hole.
\<close>

theorem history_first_unit_unmeasured:
  "\<exists>d. \<exists>c \<in> set (historyPlainChunks d). length c = 4096 \<and>
     (\<forall>sid n i. SecureMaxTextPayload < length (marshal_message (history_chunk_message sid n i c)))"
proof -
  let ?d = "replicate 8192 (0x1B :: byte)"
  have "historyPlainChunks ?d = take 4096 ?d # historyPlainChunks (drop 4096 ?d)"
    by (rule first_chunk_unit) (simp_all add: length_json_escape_esc)
  then have "replicate 4096 0x1B \<in> set (historyPlainChunks ?d)"
    by simp
  moreover have "SecureMaxTextPayload < length (marshal_message
      (history_chunk_message sid n i (replicate 4096 0x1B)))" for sid n i
    using length_marshal_chunk [of "replicate 4096 0x1B" sid n i]
    by (simp add: length_json_escape_esc)
  ultimately show ?thesis
    by (intro exI [of _ ?d] bexI [of _ "replicate 4096 0x1B"]) simp_all
qed

text \<open>
  For ASCII scrollback the JSON of the chunks is the JSON of the whole, cut in pieces: the
  app rebuilds exactly the text.
\<close>

theorem history_ascii_faithful:
  assumes "\<forall>b \<in> set d. unat b < 0x80"
  shows "concat (map json_escape (historyPlainChunks d)) = json_escape d"
  using assms
proof (induction d rule: historyPlainChunks.induct)
  case (1 d)
  show ?case
  proof (cases "d = []")
    case True
    then show ?thesis by (simp add: historyPlainChunks.simps)
  next
    case False
    define e where "e = grow_chunk d (first_end d)"
    have "historyPlainChunks d = take e d # historyPlainChunks (drop e d)"
      using False by (subst historyPlainChunks.simps) (simp add: e_def Let_def)
    moreover have "concat (map json_escape (historyPlainChunks (drop e d))) = json_escape (drop e d)"
      using 1(1) [OF False e_def] 1(2) by (meson in_set_dropD)
    moreover have "json_escape (take e d) @ json_escape (drop e d) = json_escape d"
      using json_escape_ascii_append [of "take e d" "drop e d"] 1(2)
      by (metis append_take_drop_id in_set_takeD)
    ultimately show ?thesis by simp
  qed
qed

theorem history_ascii_faithful_witness:
  "concat (map json_escape (historyPlainChunks [0x61, 0x0A])) = json_escape [0x61, 0x0A]"
  using history_ascii_faithful [of "[0x61, 0x0A]"] by simp

text \<open>
  Outside ASCII it can fail. A chunk boundary is a byte position: here it falls between
  the two bytes of a UTF-8 encoded character, and the JSON of the chunk carries U+FFFD where
  the JSON of the unsplit text carries the character.
\<close>

theorem history_chunk_cuts_utf8:
  "\<exists>d rest. historyPlainChunks d = (replicate 4095 0x61 @ [0xC3]) # rest
     \<and> take 4097 d = replicate 4095 0x61 @ [0xC3, 0xA9]
     \<and> json_escape (take 4097 d) = replicate 4095 0x61 @ [0xC3, 0xA9]
     \<and> json_escape (replicate 4095 0x61 @ [0xC3])
         = replicate 4095 0x61 @ bytes_of_string (CHR 0x5C # ''ufffd'')"
proof -
  let ?a = "replicate 4095 (0x61 :: byte)"
  let ?d = "?a @ [0xC3, 0xA9] @ replicate 4096 0x1B"
  have esc: "json_escape (?a @ ys) = ?a @ json_escape ys" for ys
    by (rule json_escape_safe_append) (simp add: html_safe_def)
  have e1: "json_escape [0xC3] = bytes_of_string (CHR 0x5C # ''ufffd'')"
    by (simp add: json_escape.simps(2) RuneError_def)
  have e2: "json_escape ([0xC3, 0xA9] @ ys) = [0xC3, 0xA9] @ json_escape ys" for ys
    by (simp add: json_escape.simps(2) in_range_def RuneError_def)
  have "take 8192 ?d = ?a @ [0xC3, 0xA9] @ replicate 4095 0x1B"
    by simp
  then have "history_budget < length (json_escape (take 8192 ?d))"
    by (simp only: esc e2 length_append length_replicate length_json_escape_esc) simp
  then have "historyPlainChunks ?d = take 4096 ?d # historyPlainChunks (drop 4096 ?d)"
    by (intro first_chunk_unit) simp_all
  moreover have "take 4096 ?d = ?a @ [0xC3]" by simp
  moreover have "take 4097 ?d = ?a @ [0xC3, 0xA9]" by simp
  moreover have "json_escape (?a @ [0xC3, 0xA9]) = ?a @ [0xC3, 0xA9]"
    using e2 [of "[]"] by (simp only: esc) simp
  ultimately show ?thesis
    using esc [of "[0xC3]"] e1 by (intro exI [of _ ?d] exI) auto
qed

end
