(* ===== verification/Dir_List.thy ===== *)
theory Dir_List
  imports Protocol "HOL-Library.List_Lexorder" "HOL-Library.Multiset"
begin

text \<open>
  How \<^verbatim>\<open>filetransfer.go\<close> sends a directory listing (\<^verbatim>\<open>sendDirList\<close>): the marshalled sizes
  of the entries are packed into index spans under the payload budget, and each span is mapped
  back to sub-slices of the directories and of the files. A Go slice expression panics when
  its bounds are wrong, so \<open>go_slice\<close> returns an option, and the theory proves that no span
  panics, that the chunks in order are the listing, and how large a message can get.
\<close>

section \<open>Paths\<close>

definition toForwardSlash :: "string \<Rightarrow> string" where
  "toForwardSlash path =
    (let p = map (\<lambda>c. if c = CHR 0x5C then CHR ''/'' else c) path in
     if 2 \<le> length p \<and> p ! 1 = CHR '':'' then
       (let rest = drop 2 p in
        if rest = [] \<or> rest = ''.'' then take 2 p @ ''/'' else p)
     else p)"

section \<open>Slices\<close>

text \<open>
  \<^verbatim>\<open>s[lo:hi]\<close> of a slice whose capacity is its length; \<open>None\<close> inside is the nil slice, and
  the outer \<open>None\<close> is the panic.
\<close>

definition go_slice :: "'a list option \<Rightarrow> nat \<Rightarrow> nat \<Rightarrow> 'a list option option" where
  "go_slice s lo hi =
    (case s of
       None \<Rightarrow> if lo \<le> hi \<and> hi \<le> 0 then Some None else None
     | Some xs \<Rightarrow> if lo \<le> hi \<and> hi \<le> length xs then Some (Some (take (hi - lo) (drop lo xs)))
                  else None)"

definition elems :: "'a list option \<Rightarrow> 'a list" where
  "elems s = (case s of None \<Rightarrow> [] | Some xs \<Rightarrow> xs)"

lemma elems_simps [simp]: "elems None = []" "elems (Some xs) = xs"
  by (simp_all add: elems_def)

section \<open>Packing\<close>

definition dirListEnvelopeOverhead :: nat where [simp]: "dirListEnvelopeOverhead = 1000"

definition dir_budget :: nat where
  [simp]: "dir_budget = SecureMaxTextPayload - dirListEnvelopeOverhead"

definition entry_cost :: "DirEntry \<Rightarrow> nat" where
  "entry_cost e = length (marshal (DirEntry_json e)) + 1"

fun pack_spans :: "nat \<Rightarrow> nat \<Rightarrow> nat \<Rightarrow> nat \<Rightarrow> nat list \<Rightarrow> (nat \<times> nat) list" where
  "pack_spans budget start cost i [] = [(start, i)]"
| "pack_spans budget start cost i (s # ss) =
     (if 0 < cost \<and> budget < cost + s
      then (start, i) # pack_spans budget i s (Suc i) ss
      else pack_spans budget start (cost + s) (Suc i) ss)"

definition dir_chunk_message ::
  "string \<Rightarrow> DirEntry list option \<Rightarrow> DirEntry list option \<Rightarrow> nat \<Rightarrow> nat \<Rightarrow> nat \<times> nat \<Rightarrow> Message option"
where
  "dir_chunk_message path dirs files nchunks i c =
    (let ndirs = length (elems dirs);
         dLo = min (fst c) ndirs; dHi = min (snd c) ndirs;
         fLo = max (int (fst c) - int ndirs) 0; fHi = max (int (snd c) - int ndirs) 0 in
     case go_slice dirs dLo dHi of
       None \<Rightarrow> None
     | Some ds \<Rightarrow>
         (case go_slice files (nat fLo) (nat fHi) of
            None \<Rightarrow> None
          | Some fs \<Rightarrow> Some (Message0\<lparr>Type := TypeDirList, Path := path,
              TotalChunks := int nchunks, ChunkIndex := int i,
              Entries := Some \<lparr>des_Dirs = ds, des_Files = fs\<rparr>\<rparr>)))"

definition dir_spans :: "DirEntry list option \<Rightarrow> DirEntry list option \<Rightarrow> (nat \<times> nat) list" where
  "dir_spans dirs files =
     pack_spans dir_budget 0 0 0 (map entry_cost (elems dirs) @ map entry_cost (elems files))"

text \<open>One option per message: \<open>None\<close> where building the message would panic.\<close>

definition sendDirList ::
  "string \<Rightarrow> DirEntry list option \<Rightarrow> DirEntry list option \<Rightarrow> Message option list" where
  "sendDirList path dirs files =
    (let chunks = dir_spans dirs files in
     map (\<lambda>(i, c). dir_chunk_message path dirs files (length chunks) i c) (enumerate 0 chunks))"

section \<open>Spans\<close>

fun tiles :: "nat \<Rightarrow> nat \<Rightarrow> (nat \<times> nat) list \<Rightarrow> bool" where
  "tiles a z [] = (a = z)"
| "tiles a z ((s, e) # r) = (s = a \<and> s \<le> e \<and> tiles e z r)"

definition span_of :: "'a list \<Rightarrow> nat \<times> nat \<Rightarrow> 'a list" where
  "span_of xs c = take (snd c - fst c) (drop (fst c) xs)"

lemma tiles_le: "tiles a z sp \<Longrightarrow> a \<le> z"
  by (induction a z sp rule: tiles.induct) auto

lemma tiles_mem: "tiles a z sp \<Longrightarrow> c \<in> set sp \<Longrightarrow> a \<le> fst c \<and> fst c \<le> snd c \<and> snd c \<le> z"
  by (induction a z sp rule: tiles.induct) (auto dest: tiles_le)

lemma tiles_concat: "tiles a z sp \<Longrightarrow> concat (map (span_of xs) sp) = span_of xs (a, z)"
proof (induction a z sp rule: tiles.induct)
  case (1 a z)
  then show ?case by (simp add: span_of_def)
next
  case (2 a z s e r)
  then have "s = a" "a \<le> e" "e \<le> z" by (auto dest: tiles_le)
  then have "z - a = (e - a) + (z - e)" "drop (e - a) (drop a xs) = drop e xs" by simp_all
  then have "span_of xs (a, z) = span_of xs (a, e) @ span_of xs (e, z)"
    by (simp add: span_of_def take_add)
  with 2 show ?case by simp
qed

lemma pack_spans_tiles:
  "start \<le> i \<Longrightarrow> tiles start (i + length ss) (pack_spans b start cost i ss)"
proof (induction b start cost i ss rule: pack_spans.induct)
  case (2 b start cost i s ss)
  then show ?case by (auto simp: not_less)
qed simp

lemma span_of_snoc:
  "start \<le> i \<Longrightarrow> i < length xs \<Longrightarrow> span_of xs (start, Suc i) = span_of xs (start, i) @ [xs ! i]"
proof -
  assume "start \<le> i" "i < length xs"
  then have "Suc i - start = Suc (i - start)" "i - start < length (drop start xs)"
    "drop start xs ! (i - start) = xs ! i" by auto
  then show ?thesis by (simp add: span_of_def take_Suc_conv_app_nth)
qed

text \<open>A span costs at most the budget, unless it is a single entry.\<close>

lemma pack_spans_cost:
  assumes "drop i sizes = ss" and "start \<le> i" and "cost = sum_list (span_of sizes (start, i))"
    and "cost \<le> b \<or> i = Suc start" and "\<forall>s \<in> set sizes. 0 < s"
    and "c \<in> set (pack_spans b start cost i ss)"
  shows "sum_list (span_of sizes c) \<le> b \<or> snd c = Suc (fst c)"
  using assms
proof (induction b start cost i ss rule: pack_spans.induct)
  case (1 b start cost i)
  then show ?case by auto
next
  case (2 b start cost i s ss)
  have i: "i < length sizes" "sizes ! i = s" "drop (Suc i) sizes = ss"
    using 2(3) by (metis drop_eq_Nil list.discI not_le,
      metis hd_drop_conv_nth drop_eq_Nil list.discI list.sel(1) not_le,
      metis drop_Suc list.sel(3) tl_drop)
  show ?case
  proof (cases "0 < cost \<and> b < cost + s")
    case True
    have "s = sum_list (span_of sizes (i, Suc i))"
      using i by (simp add: span_of_snoc) (simp add: span_of_def)
    from 2(1) [OF True i(3) _ this _ 2(7)] 2(5,6,8) True show ?thesis by auto
  next
    case False
    have "cost + s = sum_list (span_of sizes (start, Suc i))"
      using 2(4,5) i by (simp add: span_of_snoc)
    moreover have "cost = 0 \<Longrightarrow> i = start"
    proof (rule ccontr)
      assume "cost = 0" and "i \<noteq> start"
      then have "sizes ! start \<in> set (span_of sizes (start, i))"
        using 2(4) i(1) by (auto simp: span_of_def in_set_conv_nth intro!: exI [of _ 0])
      moreover have "sizes ! start \<noteq> 0"
        using 2(4,7) i(1) by (metis le_less_trans nth_mem less_numeral_extra(3))
      moreover have "\<forall>n \<in> set (span_of sizes (start, i)). n = 0"
        using 2(5) \<open>cost = 0\<close> sum_list_eq_0_iff by metis
      ultimately show False by (metis (no_types))
    qed
    ultimately show ?thesis
    proof (intro 2(2) [OF False i(3)])
      assume "cost = 0 \<Longrightarrow> i = start"
      then show "cost + s \<le> b \<or> Suc i = Suc start" using False by linarith
      show "c \<in> set (pack_spans b start (cost + s) (Suc i) ss)"
        using 2(8) False by (simp only: pack_spans.simps if_False)
    qed (use 2(4,7) in simp_all)
  qed
qed

section \<open>Slices of a span\<close>

lemma go_slice_Some:
  assumes "lo \<le> hi" and "hi \<le> length (elems s)"
  shows "\<exists>t. go_slice s lo hi = Some t \<and> elems t = take (hi - lo) (drop lo (elems s))
    \<and> (t = None \<longleftrightarrow> s = None)"
  using assms by (cases s) (auto simp: go_slice_def)

lemma span_of_append:
  "span_of (xs @ ys) (s, e) =
     span_of xs (min s (length xs), min e (length xs)) @ span_of ys (s - length xs, e - length xs)"
  if "s \<le> e"
proof (cases "s \<le> length xs")
  case True
  with that show ?thesis by (cases "e \<le> length xs") (auto simp: span_of_def)
next
  case False
  with that show ?thesis by (auto simp: span_of_def)
qed

lemma dir_chunk_message_ok:
  assumes "fst c \<le> snd c" and "snd c \<le> length (elems dirs @ elems files)"
  shows "\<exists>ds fs. dir_chunk_message path dirs files n i c = Some (Message0\<lparr>Type := TypeDirList,
      Path := path, TotalChunks := int n, ChunkIndex := int i,
      Entries := Some \<lparr>des_Dirs = ds, des_Files = fs\<rparr>\<rparr>)
    \<and> elems ds @ elems fs = span_of (elems dirs @ elems files) c
    \<and> elems ds = span_of (elems dirs) (min (fst c) (length (elems dirs)), min (snd c) (length (elems dirs)))
    \<and> elems fs = span_of (elems files) (fst c - length (elems dirs), snd c - length (elems dirs))"
proof -
  let ?n = "length (elems dirs)"
  have f: "nat (max (int (fst c) - int ?n) 0) = fst c - ?n"
    "nat (max (int (snd c) - int ?n) 0) = snd c - ?n" by auto
  obtain ds where ds: "go_slice dirs (min (fst c) ?n) (min (snd c) ?n) = Some ds"
    "elems ds = span_of (elems dirs) (min (fst c) ?n, min (snd c) ?n)"
    using go_slice_Some [of "min (fst c) ?n" "min (snd c) ?n" dirs] assms(1)
    by (auto simp: span_of_def min.coboundedI1 min.mono)
  have fle: "snd c - ?n \<le> length (elems files)" using assms(2) by simp
  obtain fs where fs: "go_slice files (fst c - ?n) (snd c - ?n) = Some fs"
    "elems fs = span_of (elems files) (fst c - ?n, snd c - ?n)"
    using go_slice_Some [OF diff_le_mono [OF assms(1)] fle] by (auto simp: span_of_def)
  have "elems ds @ elems fs = span_of (elems dirs @ elems files) c"
    using span_of_append [of "fst c" "snd c" "elems dirs" "elems files"] ds fs assms by simp
  moreover have "dir_chunk_message path dirs files n i c = Some (Message0\<lparr>Type := TypeDirList,
      Path := path, TotalChunks := int n, ChunkIndex := int i,
      Entries := Some \<lparr>des_Dirs = ds, des_Files = fs\<rparr>\<rparr>)"
    by (simp only: dir_chunk_message_def Let_def f ds(1) fs(1) option.case)
  ultimately show ?thesis using ds(2) fs(2) by blast
qed

definition msg_entries :: "Message \<Rightarrow> DirEntry list \<times> DirEntry list" where
  "msg_entries m = (case Entries m of None \<Rightarrow> ([], [])
     | Some e \<Rightarrow> (elems (des_Dirs e), elems (des_Files e)))"

lemma dir_spans_tiles:
  "tiles 0 (length (elems dirs @ elems files)) (dir_spans dirs files)"
  using pack_spans_tiles [of 0 0 "map entry_cost (elems dirs) @ map entry_cost (elems files)"
    dir_budget 0]
  by (simp add: dir_spans_def)

lemma concat_map_enumerate:
  assumes "\<And>i c. c \<in> set cs \<Longrightarrow> g (i, c) = h c"
  shows "concat (map g (enumerate k cs)) = concat (map h cs)"
  using assms by (induction cs arbitrary: k) auto

lemma span_of_dirs_files:
  assumes "tiles a z sp"
  shows "concat (map (\<lambda>c. span_of xs (min (fst c) n, min (snd c) n)) sp) = span_of xs (min a n, min z n)"
    and "concat (map (\<lambda>c. span_of ys (fst c - n, snd c - n)) sp) = span_of ys (a - n, z - n)"
proof -
  have "tiles (min a n) (min z n) (map (\<lambda>c. (min (fst c) n, min (snd c) n)) sp)"
    using assms by (induction a z sp rule: tiles.induct) auto
  from tiles_concat [OF this, of xs]
  show "concat (map (\<lambda>c. span_of xs (min (fst c) n, min (snd c) n)) sp) = span_of xs (min a n, min z n)"
    by (simp add: comp_def)
  have "tiles (a - n) (z - n) (map (\<lambda>c. (fst c - n, snd c - n)) sp)"
    using assms by (induction a z sp rule: tiles.induct) auto
  from tiles_concat [OF this, of ys]
  show "concat (map (\<lambda>c. span_of ys (fst c - n, snd c - n)) sp) = span_of ys (a - n, z - n)"
    by (simp add: comp_def)
qed

text \<open>The shape of the sent messages, one span each.\<close>

definition the_messages :: "Message option list \<Rightarrow> Message list" where
  "the_messages ms = map the ms"

lemma sendDirList_nth:
  assumes "i < length (dir_spans dirs files)"
  shows "sendDirList path dirs files ! i =
     dir_chunk_message path dirs files (length (dir_spans dirs files)) i (dir_spans dirs files ! i)"
  using assms by (simp add: sendDirList_def Let_def nth_enumerate_eq)

lemma length_sendDirList [simp]: "length (sendDirList path dirs files) = length (dir_spans dirs files)"
  by (simp add: sendDirList_def Let_def)

lemma sendDirList_message:
  assumes "m \<in> set (sendDirList path dirs files)"
  obtains i c ds fs where "i < length (dir_spans dirs files)" "c = dir_spans dirs files ! i"
    "m = Some (Message0\<lparr>Type := TypeDirList, Path := path,
       TotalChunks := int (length (dir_spans dirs files)), ChunkIndex := int i,
       Entries := Some \<lparr>des_Dirs = ds, des_Files = fs\<rparr>\<rparr>)"
    "elems ds @ elems fs = span_of (elems dirs @ elems files) c"
proof -
  obtain i where i: "i < length (dir_spans dirs files)" "m = sendDirList path dirs files ! i"
    using assms by (auto simp: in_set_conv_nth)
  let ?c = "dir_spans dirs files ! i"
  have "?c \<in> set (dir_spans dirs files)" using i(1) by simp
  from dir_chunk_message_ok [of ?c dirs files path "length (dir_spans dirs files)" i]
    tiles_mem [OF dir_spans_tiles this] that [OF i(1) refl] i
  show ?thesis by (auto simp: sendDirList_nth)
qed

section \<open>Sizes\<close>

lemma length_json_int_abs:
  assumes "- (10 ^ k) < i" and "i < 10 ^ k" and "0 < k"
  shows "length (json_int i) \<le> k + 1"
proof (cases "i < 0")
  case True
  have "nat (- i) < 10 ^ k" using assms True by (simp add: nat_less_iff)
  from length_dec_digits [OF this assms(3)] True show ?thesis by (simp add: json_int_def)
next
  case False
  then show ?thesis using length_json_int [of i k] assms by simp
qed

text \<open>The entries of a listing the file system can produce: names of at most 255 bytes, 64-bit numbers.\<close>

definition fs_entry :: "DirEntry \<Rightarrow> bool" where
  "fs_entry e \<longleftrightarrow> length (de_Name e) \<le> 255 \<and> - (2 ^ 63) \<le> de_Size e \<and> de_Size e < 2 ^ 63
     \<and> - (2 ^ 63) \<le> de_ModTime e \<and> de_ModTime e < 2 ^ 63"

lemma fs_entry_cost: "fs_entry e \<Longrightarrow> entry_cost e \<le> 1700"
  using length_json_string [of "de_Name e"] length_json_int_abs [of 19 "de_Size e"]
    length_json_int_abs [of 19 "de_ModTime e"]
  by (auto simp: fs_entry_def entry_cost_def DirEntry_json_def length_comma_join html_safe_def)

lemma length_slice_json:
  "length (marshal (slice_json DirEntry_json s)) \<le> sum_list (map entry_cost (elems s)) + 4"
proof (cases s)
  case (Some xs)
  have "sum_list (map length (map (marshal \<circ> DirEntry_json) xs)) + length xs
      = sum_list (map entry_cost xs)"
    by (induction xs) (simp_all add: entry_cost_def)
  with Some show ?thesis by (simp add: slice_json_def length_comma_join comp_def)
qed (simp add: slice_json_def)

definition dir_message :: "string \<Rightarrow> nat \<Rightarrow> nat \<Rightarrow> DirEntry list option \<Rightarrow> DirEntry list option \<Rightarrow> Message"
where
  "dir_message path n i ds fs = Message0\<lparr>Type := TypeDirList, Path := path, TotalChunks := int n,
     ChunkIndex := int i, Entries := Some \<lparr>des_Dirs = ds, des_Files = fs\<rparr>\<rparr>"

lemma length_dir_message:
  "length (marshal_message (dir_message path n i ds fs)) \<le>
     length (json_string path) + length (json_int (int n)) + length (json_int (int i))
     + sum_list (map entry_cost (elems ds @ elems fs)) + 200"
  using length_slice_json [of ds] length_slice_json [of fs]
  by (simp add: marshal_message_def Message_json_def dir_message_def Message0_def DirEntries_json_def
      opt_field_defs length_comma_join html_safe_def)

section \<open>The request handler\<close>

text \<open>
  \<^verbatim>\<open>filepath.Clean\<close> on Unix: the lexical simplification, component by component; \<open>acc\<close> is
  the cleaned prefix, last component first.
\<close>

fun split_slash :: "string \<Rightarrow> string list" where
  "split_slash [] = [[]]"
| "split_slash (c # s) =
     (if c = CHR ''/'' then [] # split_slash s
      else (case split_slash s of p # ps \<Rightarrow> (c # p) # ps | [] \<Rightarrow> [[c]]))"

fun clean_comps :: "bool \<Rightarrow> string list \<Rightarrow> string list \<Rightarrow> string list" where
  "clean_comps rooted acc [] = rev acc"
| "clean_comps rooted acc (p # ps) =
     (if p = [] \<or> p = ''.'' then clean_comps rooted acc ps
      else if p = ''..'' then
        (case acc of
           q # qs \<Rightarrow> if q = ''..'' then clean_comps rooted (p # acc) ps
                     else clean_comps rooted qs ps
         | [] \<Rightarrow> if rooted then clean_comps rooted [] ps else clean_comps rooted [p] ps)
      else clean_comps rooted (p # acc) ps)"

fun join_slash :: "string list \<Rightarrow> string" where
  "join_slash [] = []"
| "join_slash [p] = p"
| "join_slash (p # q # ps) = p @ ''/'' @ join_slash (q # ps)"

definition filepath_Clean :: "string \<Rightarrow> string" where
  "filepath_Clean path =
    (let rooted = (path \<noteq> [] \<and> hd path = CHR ''/'');
         cs = clean_comps rooted [] (split_slash path) in
     if rooted then ''/'' @ join_slash cs
     else if cs = [] then ''.'' else join_slash cs)"

text \<open>
  What \<^verbatim>\<open>os.ReadDir\<close> returns for one entry: its name, whether it is a directory, and its
  size and modification time unless \<^verbatim>\<open>Info\<close> fails.
\<close>

record dir_info =
  di_Name :: string
  di_IsDir :: bool
  di_Info :: "(int \<times> int) option"

definition dir_entry :: "dir_info \<Rightarrow> DirEntry option" where
  "dir_entry e = map_option (\<lambda>(sz, mt). \<lparr>de_Name = di_Name e, de_Size = sz, de_ModTime = mt\<rparr>) (di_Info e)"

definition nil_slice :: "'a list \<Rightarrow> 'a list option" where
  "nil_slice xs = (if xs = [] then None else Some xs)"

definition sort_names :: "DirEntry list \<Rightarrow> DirEntry list" where
  "sort_names = sort_key (\<lambda>e. bytes_of_string (de_Name e))"

definition list_entries :: "bool \<Rightarrow> dir_info list \<Rightarrow> DirEntry list" where
  "list_entries isDir entries =
     sort_names (List.map_filter dir_entry (filter (\<lambda>e. di_IsDir e = isDir) entries))"

text \<open>
  \<^verbatim>\<open>HandleDirListRequest\<close> of a Unix build; \<open>home\<close> is \<^verbatim>\<open>os.UserHomeDir\<close>, \<open>readDir\<close> is
  \<^verbatim>\<open>os.ReadDir\<close>, errors carry their text.
\<close>

definition dir_error :: "string \<Rightarrow> string \<Rightarrow> Message option list" where
  "dir_error path err = [Some (Message0\<lparr>Type := TypeDirList, Path := path, Error := err\<rparr>)]"

definition list_target :: "string \<Rightarrow> string" where
  "list_target p =
    (let targetPath = filepath_Clean p in
     if 2 \<le> length targetPath \<and> targetPath ! 1 = CHR '':'' then
       (let rest = drop 2 targetPath in
        if rest = [] \<or> rest = ''.'' then take 2 targetPath @ ''/'' else targetPath)
     else targetPath)"

definition HandleDirListRequest ::
  "(string + string) \<Rightarrow> (string \<Rightarrow> string + dir_info list) \<Rightarrow> string \<Rightarrow> Message option list" where
  "HandleDirListRequest home readDir reqPath =
    (case (if reqPath = [] then home else Inr reqPath) of
       Inl err \<Rightarrow> dir_error [] err
     | Inr p \<Rightarrow>
         (let targetPath = list_target p in
          case readDir targetPath of
            Inl err \<Rightarrow> dir_error (toForwardSlash targetPath) err
          | Inr entries \<Rightarrow>
              sendDirList (toForwardSlash targetPath) (nil_slice (list_entries True entries))
                (nil_slice (list_entries False entries))))"

lemma elems_nil_slice [simp]: "elems (nil_slice xs) = xs"
  by (simp add: nil_slice_def)

lemma sendDirList_complete:
  "None \<notin> set (sendDirList path dirs files)
   \<and> concat (map (fst \<circ> msg_entries \<circ> the) (sendDirList path dirs files)) = elems dirs
   \<and> concat (map (snd \<circ> msg_entries \<circ> the) (sendDirList path dirs files)) = elems files
   \<and> concat (map (\<lambda>m. fst (msg_entries (the m)) @ snd (msg_entries (the m)))
       (sendDirList path dirs files)) = elems dirs @ elems files"
proof -
  let ?n = "length (elems dirs)" and ?sp = "dir_spans dirs files"
  note tl = dir_spans_tiles [of dirs files]
  have ok: "fst c \<le> snd c" "snd c \<le> length (elems dirs @ elems files)" if "c \<in> set ?sp" for c
    using tiles_mem [OF tl that] by auto
  have fs: "fst (msg_entries (the (dir_chunk_message path dirs files n i c)))
        = span_of (elems dirs) (min (fst c) ?n, min (snd c) ?n)"
      "snd (msg_entries (the (dir_chunk_message path dirs files n i c)))
        = span_of (elems files) (fst c - ?n, snd c - ?n)"
      "span_of (elems dirs) (min (fst c) ?n, min (snd c) ?n)
         @ span_of (elems files) (fst c - ?n, snd c - ?n) = span_of (elems dirs @ elems files) c"
    if "c \<in> set ?sp" for n i c
    using dir_chunk_message_ok [OF ok [OF that], of path n i] by (auto simp: msg_entries_def)
  have "None \<notin> set (sendDirList path dirs files)"
    using sendDirList_message [of None path dirs files] by auto
  moreover have "concat (map (fst \<circ> msg_entries \<circ> the) (sendDirList path dirs files))
      = concat (map (\<lambda>c. span_of (elems dirs) (min (fst c) ?n, min (snd c) ?n)) ?sp)"
    unfolding sendDirList_def Let_def map_map
    by (rule concat_map_enumerate) (simp add: fs)
  moreover have "concat (map (snd \<circ> msg_entries \<circ> the) (sendDirList path dirs files))
      = concat (map (\<lambda>c. span_of (elems files) (fst c - ?n, snd c - ?n)) ?sp)"
    unfolding sendDirList_def Let_def map_map
    by (rule concat_map_enumerate) (simp add: fs)
  moreover have "concat (map (\<lambda>m. fst (msg_entries (the m)) @ snd (msg_entries (the m)))
      (sendDirList path dirs files)) = concat (map (span_of (elems dirs @ elems files)) ?sp)"
    unfolding sendDirList_def Let_def map_map
    by (rule concat_map_enumerate) (simp add: fs)
  moreover have "span_of xs (0, length xs) = xs" for xs :: "DirEntry list"
    by (simp add: span_of_def)
  moreover have "span_of (elems dirs @ elems files) (0, length (elems dirs) + length (elems files))
      = elems dirs @ elems files" by (simp add: span_of_def)
  ultimately show ?thesis
    using span_of_dirs_files(1) [OF tl, of "elems dirs" ?n]
      span_of_dirs_files(2) [OF tl, of "elems files" ?n]
      tiles_concat [OF tl, of "elems dirs @ elems files"]
    by (simp only: length_append diff_add_inverse diff_0_eq_0 min_0L min_absorb2 le_add1
        not_False_eq_True simp_thms)
qed

section \<open>Properties\<close>

text \<open>
  Sending a listing never panics, whatever the numbers of directories and files, and the
  chunks in the order sent are the listing: the directories of the messages concatenate to the
  directories, the files to the files, and the two together to directories followed by files.
\<close>

theorem dir_list_complete:
  "None \<notin> set (sendDirList path dirs files)
   \<and> concat (map (fst \<circ> msg_entries \<circ> the) (sendDirList path dirs files)) = elems dirs
   \<and> concat (map (snd \<circ> msg_entries \<circ> the) (sendDirList path dirs files)) = elems files
   \<and> concat (map (\<lambda>m. fst (msg_entries (the m)) @ snd (msg_entries (the m)))
       (sendDirList path dirs files)) = elems dirs @ elems files"
  by (rule sendDirList_complete)

text \<open>
  C18: What the app gets for a readable directory: the directories and the files that could be
  read, none lost and none twice, each sorted by the bytes of the name.
\<close>

theorem dir_request_sorted:
  assumes "reqPath \<noteq> []" and "readDir (list_target reqPath) = Inr infos"
  shows "let out = HandleDirListRequest home readDir reqPath;
             ds = concat (map (fst \<circ> msg_entries \<circ> the) out);
             fs = concat (map (snd \<circ> msg_entries \<circ> the) out) in
      None \<notin> set out
      \<and> sorted (map (\<lambda>e. bytes_of_string (de_Name e)) ds)
      \<and> sorted (map (\<lambda>e. bytes_of_string (de_Name e)) fs)
      \<and> mset ds = mset (List.map_filter dir_entry (filter di_IsDir infos))
      \<and> mset fs = mset (List.map_filter dir_entry (filter (Not \<circ> di_IsDir) infos))"
proof -
  let ?D = "list_entries True infos" and ?F = "list_entries False infos"
  have out: "HandleDirListRequest home readDir reqPath
      = sendDirList (toForwardSlash (list_target reqPath)) (nil_slice ?D) (nil_slice ?F)"
    using assms by (simp add: HandleDirListRequest_def Let_def)
  have "sorted (map (\<lambda>e. bytes_of_string (de_Name e)) (list_entries b infos))" for b
    by (simp add: list_entries_def sort_names_def)
  moreover have "mset ?D = mset (List.map_filter dir_entry (filter di_IsDir infos))"
    "mset ?F = mset (List.map_filter dir_entry (filter (Not \<circ> di_IsDir) infos))"
    by (simp_all add: list_entries_def sort_names_def comp_def)
  moreover note sendDirList_complete [of "toForwardSlash (list_target reqPath)" "nil_slice ?D"
    "nil_slice ?F", unfolded elems_nil_slice]
  ultimately show ?thesis by (simp only: out Let_def simp_thms)
qed

theorem dir_request_sorted_witness:
  "None \<notin> set (HandleDirListRequest (Inl ''no home'')
     (\<lambda>_. Inr [\<lparr>di_Name = ''b'', di_IsDir = False, di_Info = Some (1, 2)\<rparr>,
               \<lparr>di_Name = ''a'', di_IsDir = False, di_Info = Some (3, 4)\<rparr>]) ''/tmp'')"
  using dir_request_sorted [of "''/tmp''" _ _ "Inl ''no home''", OF _ refl] by (simp add: Let_def)

lemma length_pack_spans: "length (pack_spans b s cost i xs) \<le> length xs + 1"
  by (induction b s cost i xs rule: pack_spans.induct) auto

lemma entry_cost_pos: "0 < entry_cost e"
  by (simp add: entry_cost_def)

lemma span_cost:
  assumes "c \<in> set (dir_spans dirs files)" and "\<forall>e \<in> set (elems dirs @ elems files). fs_entry e"
  shows "sum_list (map entry_cost (span_of (elems dirs @ elems files) c)) \<le> dir_budget"
proof -
  let ?xs = "elems dirs @ elems files"
  have "sum_list (span_of (map entry_cost ?xs) c) \<le> dir_budget \<or> snd c = Suc (fst c)"
    using assms(1) unfolding dir_spans_def
    by (intro pack_spans_cost [where i = 0 and start = 0 and cost = 0]) (auto simp: span_of_def entry_cost_pos)
  moreover have sp: "span_of (map entry_cost ?xs) c = map entry_cost (span_of ?xs c)"
    by (simp only: span_of_def take_map drop_map)
  moreover have "sum_list (map entry_cost (span_of ?xs c)) \<le> dir_budget" if "snd c = Suc (fst c)"
  proof (cases "span_of ?xs c")
    case (Cons e es)
    have "length (span_of ?xs c) \<le> 1" using that by (simp add: span_of_def)
    with Cons have "es = []" by (metis One_nat_def Suc_le_mono le_zero_eq length_0_conv length_Cons)
    have "fs_entry e"
      using Cons assms(2) by (metis in_set_dropD in_set_takeD list.set_intros(1) span_of_def)
    with \<open>es = []\<close> show ?thesis using Cons fs_entry_cost [of e] by simp
  qed simp
  ultimately show ?thesis by metis
qed

text \<open>
  C19: For a path of up to 128 bytes and entries a file system can have, every message of a
  listing is within what the secure channel accepts, whatever the length of the listing.
\<close>

theorem dir_list_fits:
  assumes "length path \<le> 128" and "length (elems dirs) + length (elems files) < 10 ^ 9"
    and "\<forall>e \<in> set (elems dirs @ elems files). fs_entry e"
    and "Some m \<in> set (sendDirList path dirs files)"
  shows "length (marshal_message m) \<le> SecureMaxTextPayload"
proof -
  obtain i c ds fs where m: "i < length (dir_spans dirs files)" "c = dir_spans dirs files ! i"
    "m = dir_message path (length (dir_spans dirs files)) i ds fs"
    "elems ds @ elems fs = span_of (elems dirs @ elems files) c"
    using sendDirList_message [OF assms(4)] by (metis (no_types) dir_message_def option.sel)
  then have "c \<in> set (dir_spans dirs files)" by simp
  from span_cost [OF this assms(3)] m(4)
  have "sum_list (map entry_cost (elems ds @ elems fs)) \<le> dir_budget" by simp
  moreover have "length (dir_spans dirs files) \<le> length (elems dirs) + length (elems files) + 1"
    unfolding dir_spans_def by (rule order_trans [OF length_pack_spans]) simp
  then have "length (json_int (int (length (dir_spans dirs files)))) \<le> 10"
    "length (json_int (int i)) \<le> 10"
    using assms(2) m(1) by (auto intro!: length_json_int)
  ultimately show ?thesis
    using length_dir_message [of path "length (dir_spans dirs files)" i ds fs] assms(1)
      length_json_string [of path] m(3) by simp
qed

theorem dir_list_fits_witness:
  "\<exists>m. Some m \<in> set (sendDirList ''/tmp'' None
       (Some [\<lparr>de_Name = ''a.txt'', de_Size = 3, de_ModTime = 1700000000000\<rparr>]))
     \<and> length (marshal_message m) \<le> SecureMaxTextPayload"
proof -
  let ?f = "Some [\<lparr>de_Name = ''a.txt'', de_Size = 3, de_ModTime = 1700000000000\<rparr>]"
  obtain m where m: "Some m \<in> set (sendDirList ''/tmp'' None ?f)"
    by (simp add: sendDirList_def dir_spans_def dir_chunk_message_def go_slice_def Let_def)
  with dir_list_fits [OF _ _ _ m] show ?thesis by (auto simp: fs_entry_def)
qed

text \<open>
  The margin does not cover every path. The path is not part of the summed sizes, so a long
  but legal path makes a full chunk exceed the secure payload limit, and the message is dropped.
\<close>

lemma dir_spans_single:
  "cost + sum_list xs \<le> b \<Longrightarrow> pack_spans b s cost i xs = [(s, i + length xs)]"
  by (induction b s cost i xs rule: pack_spans.induct) auto

theorem dir_list_long_path:
  "\<exists>path dirs m. length path \<le> 4096 \<and> (\<exists>ds. dirs = Some ds \<and> list_all fs_entry ds)
     \<and> sendDirList path dirs None = [Some m] \<and> SecureMaxTextPayload < length (marshal_message m)"
proof -
  let ?path = "replicate 4000 CHR ''a''"
  let ?e = "\<lparr>de_Name = replicate 200 CHR ''b'', de_Size = 0, de_ModTime = 0\<rparr>"
  let ?ds = "replicate 90 ?e"
  have plain: "plain (replicate n CHR ''a'')" "plain (replicate n CHR ''b'')" for n
    by (simp_all add: plain_def html_safe_def)
  have cost: "entry_cost ?e = 234"
    by (simp add: entry_cost_def DirEntry_json_def length_comma_join html_safe_def plain)
  have spans: "dir_spans (Some ?ds) None = [(0, 90)]"
    unfolding dir_spans_def by (subst dir_spans_single) (simp_all add: cost sum_list_replicate)
  have "sendDirList ?path (Some ?ds) None = [Some (dir_message ?path 1 0 (Some ?ds) None)]"
    by (simp add: sendDirList_def spans dir_chunk_message_def go_slice_def dir_message_def Let_def)
  moreover have "SecureMaxTextPayload < length (marshal_message (dir_message ?path 1 0 (Some ?ds) None))"
    by (simp add: marshal_message_def Message_json_def dir_message_def Message0_def DirEntries_json_def
      DirEntry_json_def slice_json_def opt_field_defs length_comma_join html_safe_def plain
      sum_list_replicate)
  moreover have "fs_entry ?e" by (simp add: fs_entry_def)
  ultimately show ?thesis
    by (intro exI [of _ ?path] exI [of _ "Some ?ds"] exI conjI) (auto simp: list_all_iff)
qed

end
