(* ===== verification/Spake2.thy ===== *)
theory Spake2
  imports Claw_Prelude
begin

text \<open>
  SPAKE2 over P-256 (\<^verbatim>\<open>spake2.go\<close>): points and their encoding, the hash-to-point search,
  HKDF, the two sides of the exchange, the transcript and the confirmation tags.

  \<^verbatim>\<open>crypto/elliptic\<close>, \<^verbatim>\<open>crypto/sha256\<close> and \<^verbatim>\<open>crypto/hmac\<close> are parameters, a \<open>curve\<close>
  and a \<open>hashes\<close>, with what the code relies on as the predicates \<open>curve_ok\<close> (the points form
  an abelian group of the given order, written additively, with the pair (0, 0) standing for
  infinity as in that package) and \<open>hashes_ok\<close> (digests have 32 bytes). A \<^verbatim>\<open>big.Int\<close> is an
  \<open>int\<close>; a nil pointer in an \<^verbatim>\<open>ecPoint\<close> is \<open>None\<close>; the ephemeral scalar is an argument.
\<close>

section \<open>Curve and hashes\<close>

record curve =
  cP :: int
  cB :: int
  cN :: int
  cG :: "int \<times> int"
  cAdd :: "int \<times> int \<Rightarrow> int \<times> int \<Rightarrow> int \<times> int"
  cScalarMult :: "int \<times> int \<Rightarrow> int \<Rightarrow> int \<times> int"
  cScalarBaseMult :: "int \<Rightarrow> int \<times> int"

record hashes =
  sha256 :: "byte list \<Rightarrow> byte list"
  hmac :: "byte list \<Rightarrow> byte list \<Rightarrow> byte list"

definition polynomial :: "curve \<Rightarrow> int \<Rightarrow> int" where
  "polynomial C x = (x * x * x - 3 * x + cB C) mod cP C"

fun IsOnCurve :: "curve \<Rightarrow> int \<times> int \<Rightarrow> bool" where
  "IsOnCurve C (x, y) \<longleftrightarrow> 0 \<le> x \<and> x < cP C \<and> 0 \<le> y \<and> y < cP C
     \<and> (y * y) mod cP C = polynomial C x"

definition in_group :: "curve \<Rightarrow> int \<times> int \<Rightarrow> bool" where
  "in_group C p \<longleftrightarrow> p = (0, 0) \<or> IsOnCurve C p"

fun ec_mult :: "curve \<Rightarrow> nat \<Rightarrow> int \<times> int \<Rightarrow> int \<times> int" where
  "ec_mult C 0 p = (0, 0)"
| "ec_mult C (Suc n) p = cAdd C p (ec_mult C n p)"

definition curve_ok :: "curve \<Rightarrow> bool" where
  "curve_ok C \<longleftrightarrow> 0 < cP C \<and> cP C \<le> 2 ^ 256 \<and> \<not> IsOnCurve C (0, 0) \<and> IsOnCurve C (cG C)
     \<and> (\<forall>p q. in_group C p \<longrightarrow> in_group C q \<longrightarrow> in_group C (cAdd C p q) \<and> cAdd C p q = cAdd C q p)
     \<and> (\<forall>p q r. in_group C p \<longrightarrow> in_group C q \<longrightarrow> in_group C r \<longrightarrow>
          cAdd C (cAdd C p q) r = cAdd C p (cAdd C q r))
     \<and> (\<forall>p. in_group C p \<longrightarrow> cAdd C (0, 0) p = p)
     \<and> (\<forall>x y. IsOnCurve C (x, y) \<longrightarrow> IsOnCurve C (x, cP C - y)
          \<and> cAdd C (x, y) (x, cP C - y) = (0, 0))
     \<and> (\<forall>p k. in_group C p \<longrightarrow> cScalarMult C p k = ec_mult C (nat k) p)
     \<and> (\<forall>k. cScalarBaseMult C k = cScalarMult C (cG C) k)
     \<and> (\<forall>p k. IsOnCurve C p \<longrightarrow> 0 < k \<longrightarrow> k < cN C \<longrightarrow> ec_mult C (nat k) p \<noteq> (0, 0))"

definition hashes_ok :: "hashes \<Rightarrow> bool" where
  "hashes_ok H \<longleftrightarrow> (\<forall>d. length (sha256 H d) = 32) \<and> (\<forall>k d. length (hmac H k d) = 32)"

section \<open>Points\<close>

type_synonym ecPoint = "(int \<times> int) option"

text \<open>Errors carry their text, which never reaches the wire.\<close>

type_synonym spake2Error = string

definition point_valid :: "curve \<Rightarrow> ecPoint \<Rightarrow> bool" where
  "point_valid C p = (case p of None \<Rightarrow> False | Some q \<Rightarrow> IsOnCurve C q)"

definition pointNeg :: "curve \<Rightarrow> ecPoint \<Rightarrow> ecPoint" where
  "pointNeg C p = (case p of None \<Rightarrow> None | Some (x, y) \<Rightarrow> Some (x, cP C - y))"

definition pointAdd :: "curve \<Rightarrow> ecPoint \<Rightarrow> ecPoint \<Rightarrow> ecPoint" where
  "pointAdd C a b =
    (case (a, b) of
       (None, _) \<Rightarrow> b
     | (_, None) \<Rightarrow> a
     | (Some p, Some q) \<Rightarrow> Some (cAdd C p q))"

definition pointSub :: "curve \<Rightarrow> ecPoint \<Rightarrow> ecPoint \<Rightarrow> ecPoint" where
  "pointSub C a b = pointAdd C a (pointNeg C b)"

definition pointScalar :: "curve \<Rightarrow> ecPoint \<Rightarrow> int \<Rightarrow> ecPoint" where
  "pointScalar C p k = (case p of None \<Rightarrow> None | Some q \<Rightarrow> Some (cScalarMult C q k))"

definition pointBaseScalar :: "curve \<Rightarrow> int \<Rightarrow> ecPoint" where
  "pointBaseScalar C k = Some (cScalarBaseMult C k)"

definition pointFromBytes :: "curve \<Rightarrow> byte list \<Rightarrow> spake2Error + ecPoint" where
  "pointFromBytes C b =
    (if length b \<noteq> 65 \<or> b ! 0 \<noteq> 4 then Inl ''malformed point''
     else
       let p = Some (int (be_value (take 32 (drop 1 b))), int (be_value (take 32 (drop 33 b)))) in
       if \<not> point_valid C p then Inl ''point not on curve'' else Inr p)"

text \<open>\<^verbatim>\<open>FillBytes\<close> of a coordinate into 32 bytes; a nil point would panic.\<close>

definition pointToBytes :: "ecPoint \<Rightarrow> byte list option" where
  "pointToBytes p =
    (case p of
       None \<Rightarrow> None
     | Some (x, y) \<Rightarrow> Some ([4] @ be_bytes 32 (nat x) @ be_bytes 32 (nat y)))"

section \<open>Hash to point\<close>

definition modSqrt :: "int \<Rightarrow> int \<Rightarrow> int option" where
  "modSqrt a p =
    (if a ^ nat ((p - 1) div 2) mod p \<noteq> 1 then None
     else Some (a ^ nat ((p + 1) div 4) mod p))"

function hash_search :: "curve \<Rightarrow> hashes \<Rightarrow> string \<Rightarrow> nat \<Rightarrow> spake2Error + ecPoint" where
  "hash_search C H seed i =
    (if i < 256 then
       let h = sha256 H (bytes_of_string seed @ [word_of_nat i]);
           x = int (be_value h) mod cP C;
           rhs = (x * x * x - 3 * x + cB C) mod cP C in
       (case modSqrt rhs (cP C) of
          Some y \<Rightarrow> Inr (Some (x, y))
        | None \<Rightarrow> hash_search C H seed (i + 1))
     else Inl ''hashToPoint: no point found'')"
  by pat_completeness auto
termination
  by (relation "measure (\<lambda>(C, H, seed, i). 256 - i)") auto

declare hash_search.simps [simp del]

definition hashToPoint :: "curve \<Rightarrow> hashes \<Rightarrow> string \<Rightarrow> spake2Error + ecPoint" where
  "hashToPoint C H seed = hash_search C H seed 0"

definition spake2MSeed :: string where "spake2MSeed = ''CAW-SPAKE2-M-v1''"
definition spake2NSeed :: string where "spake2NSeed = ''CAW-SPAKE2-N-v1''"

text \<open>\<^verbatim>\<open>init\<close> computes the generators once and panics when the search fails (\<open>None\<close>).\<close>

definition init_MN :: "curve \<Rightarrow> hashes \<Rightarrow> (ecPoint \<times> ecPoint) option" where
  "init_MN C H =
    (case (hashToPoint C H spake2MSeed, hashToPoint C H spake2NSeed) of
       (Inr m, Inr n) \<Rightarrow> Some (m, n)
     | _ \<Rightarrow> None)"

section \<open>Password scalar and key derivation\<close>

definition scalarFromPassword :: "curve \<Rightarrow> hashes \<Rightarrow> string \<Rightarrow> int" where
  "scalarFromPassword C H code =
     int (be_value (sha256 H (bytes_of_string (''caw.v1:'' @ code)))) mod cN C"

definition hkdfExtract :: "hashes \<Rightarrow> byte list \<Rightarrow> byte list \<Rightarrow> byte list" where
  "hkdfExtract H secret salt =
     hmac H (if salt = [] then replicate 32 0 else salt) secret"

text \<open>The loop of \<^verbatim>\<open>hkdfExpand\<close>; the byte counter ends it.\<close>

function hkdf_loop ::
  "hashes \<Rightarrow> byte list \<Rightarrow> byte list \<Rightarrow> nat \<Rightarrow> byte list \<Rightarrow> byte list \<Rightarrow> nat \<Rightarrow> spake2Error + byte list"
where
  "hkdf_loop H prk info n out t counter =
    (if length out < n then
       let t' = hmac H prk (t @ info @ [word_of_nat counter]); out' = out @ t' in
       if 255 \<le> counter then Inl ''hkdf expand too long''
       else hkdf_loop H prk info n out' t' (counter + 1)
     else Inr (take n out))"
  by pat_completeness auto
termination
  by (relation "measure (\<lambda>(H, prk, info, n, out, t, counter). 255 - counter)") auto

declare hkdf_loop.simps [simp del]

definition hkdfExpand :: "hashes \<Rightarrow> byte list \<Rightarrow> byte list \<Rightarrow> nat \<Rightarrow> spake2Error + byte list" where
  "hkdfExpand H prk info n = hkdf_loop H prk info n [] [] 1"

record Spake2Keys =
  Kca :: "byte list"
  Kcd :: "byte list"
  Kc2s :: "byte list"
  Ks2c :: "byte list"

definition deriveSpake2Keys :: "hashes \<Rightarrow> byte list \<Rightarrow> spake2Error + Spake2Keys" where
  "deriveSpake2Keys H kMain =
    (let prk = hkdfExtract H kMain (bytes_of_string ''caw.v1.keys'') in
     case hkdfExpand H prk (bytes_of_string ''caw-secure-channel'') 128 of
       Inl e \<Rightarrow> Inl e
     | Inr okm \<Rightarrow> Inr \<lparr>Kca = take 32 okm, Kcd = take 32 (drop 32 okm),
         Kc2s = take 32 (drop 64 okm), Ks2c = take 32 (drop 96 okm)\<rparr>)"

definition kMainFromZ :: "hashes \<Rightarrow> int \<times> int \<Rightarrow> byte list \<Rightarrow> byte list" where
  "kMainFromZ H z tt = sha256 H ([4] @ be_bytes 32 (nat (fst z)) @ be_bytes 32 (nat (snd z)) @ tt)"

section \<open>Transcript\<close>

text \<open>\<^verbatim>\<open>writeLen2\<close> keeps the low sixteen bits of the length.\<close>

definition len2 :: "byte list \<Rightarrow> byte list" where
  "len2 b = [word_of_nat (length b div 256), word_of_nat (length b)]"

definition spake2Domain :: string where "spake2Domain = ''CAW-SPAKE2-v1''"

definition transcript_bytes :: "byte list \<Rightarrow> string \<Rightarrow> byte list \<Rightarrow> byte list \<Rightarrow> byte list" where
  "transcript_bytes sid accesskey pa pb =
     bytes_of_string spake2Domain @ len2 sid @ sid
     @ len2 (bytes_of_string ''client'') @ bytes_of_string ''client''
     @ len2 (bytes_of_string ''server'') @ bytes_of_string ''server''
     @ [0x00] @ len2 pa @ pa @ [0x01] @ len2 pb @ pb
     @ len2 (bytes_of_string accesskey) @ bytes_of_string accesskey"

definition buildTranscript :: "byte list \<Rightarrow> string \<Rightarrow> ecPoint \<Rightarrow> ecPoint \<Rightarrow> byte list option" where
  "buildTranscript sid accesskey a b =
    (case (pointToBytes a, pointToBytes b) of
       (Some pa, Some pb) \<Rightarrow> Some (transcript_bytes sid accesskey pa pb)
     | _ \<Rightarrow> None)"

section \<open>The two sides\<close>

record Spake2State =
  sp_client :: bool
  sp_w :: int
  sp_scalar :: int
  sp_share :: ecPoint
  sp_peer :: ecPoint
  sp_hasPeer :: bool
  sp_sid :: "byte list option"
  sp_accesskey :: string
  sp_tt :: "byte list option"

definition newSpake2StateFixed ::
  "curve \<Rightarrow> ecPoint \<times> ecPoint \<Rightarrow> bool \<Rightarrow> int \<Rightarrow> int \<Rightarrow> spake2Error + Spake2State" where
  "newSpake2StateFixed C MN client w scalar =
    (if w \<le> 0 \<or> scalar \<le> 0 then Inl ''bad password scalar or ephemeral''
     else
       let gen = (if client then fst MN else snd MN);
           share = pointAdd C (pointBaseScalar C scalar) (pointScalar C gen w) in
       Inr \<lparr>sp_client = client, sp_w = w, sp_scalar = scalar, sp_share = share, sp_peer = None,
            sp_hasPeer = False, sp_sid = None, sp_accesskey = [], sp_tt = None\<rparr>)"

definition Share :: "Spake2State \<Rightarrow> byte list option" where
  "Share s = pointToBytes (sp_share s)"

definition SetPeerShare :: "curve \<Rightarrow> byte list \<Rightarrow> Spake2State \<Rightarrow> spake2Error + Spake2State" where
  "SetPeerShare C peer s =
    (case pointFromBytes C peer of
       Inl e \<Rightarrow> Inl e
     | Inr p \<Rightarrow> Inr (s\<lparr>sp_peer := p, sp_hasPeer := True\<rparr>))"

definition shared_secret :: "curve \<Rightarrow> ecPoint \<times> ecPoint \<Rightarrow> Spake2State \<Rightarrow> ecPoint" where
  "shared_secret C MN s =
    (let oppGen = (if sp_client s then snd MN else fst MN) in
     pointScalar C (pointSub C (sp_peer s) (pointScalar C oppGen (sp_w s))) (sp_scalar s))"

text \<open>\<^verbatim>\<open>Finish\<close> returns the keys and leaves the transcript in the state.\<close>

definition Finish ::
  "curve \<Rightarrow> hashes \<Rightarrow> ecPoint \<times> ecPoint \<Rightarrow> byte list \<Rightarrow> string \<Rightarrow> Spake2State
     \<Rightarrow> (spake2Error + Spake2Keys) \<times> Spake2State" where
  "Finish C H MN sid accesskey s =
    (if \<not> sp_hasPeer s then (Inl ''peer share not set'', s)
     else
       let z = shared_secret C MN s in
       case z of
         None \<Rightarrow> (Inl ''bad shared secret'', s)
       | Some zz \<Rightarrow>
           if \<not> point_valid C z then (Inl ''bad shared secret'', s)
           else
             let ab = (if sp_client s then (sp_share s, sp_peer s) else (sp_peer s, sp_share s)) in
             (case buildTranscript sid accesskey (fst ab) (snd ab) of
                None \<Rightarrow> (Inl ''nil point'', s)
              | Some t \<Rightarrow>
                  (deriveSpake2Keys H (kMainFromZ H zz t),
                   s\<lparr>sp_sid := Some sid, sp_accesskey := accesskey, sp_tt := Some t\<rparr>)))"

section \<open>Confirmation tags\<close>

definition TagA_of :: "hashes \<Rightarrow> Spake2Keys \<Rightarrow> byte list \<Rightarrow> byte list" where
  "TagA_of H k t = take 16 (hmac H (Kca k) t)"

definition TagB_of :: "hashes \<Rightarrow> Spake2Keys \<Rightarrow> byte list \<Rightarrow> byte list" where
  "TagB_of H k t = take 16 (hmac H (Kcd k) t)"

definition VerifyTag :: "byte list \<Rightarrow> byte list \<Rightarrow> bool" where
  "VerifyTag actual expected \<longleftrightarrow> actual = expected"

section \<open>Key derivation never fails\<close>

lemma hkdf_loop_total:
  assumes "hashes_ok H" and "n \<le> 254 * 32" and "1 \<le> counter" and "length out = 32 * (counter - 1)"
    and "counter \<le> 255"
  shows "\<exists>r. hkdf_loop H prk info n out t counter = Inr r \<and> length r = n"
  using assms
proof (induction H prk info n out t counter rule: hkdf_loop.induct)
  case (1 H prk info n out t counter)
  show ?case
  proof (cases "length out < n")
    case True
    then have c: "counter < 255" using 1(3-5) by auto
    have len: "length (hmac H prk d) = 32" for d using 1(2) by (simp add: hashes_ok_def)
    have "\<exists>r. hkdf_loop H prk info n (out @ hmac H prk (t @ info @ [word_of_nat counter]))
        (hmac H prk (t @ info @ [word_of_nat counter])) (counter + 1) = Inr r \<and> length r = n"
      using 1(2-5) c by (intro 1(1) [OF True refl refl]) (auto simp: len)
    then show ?thesis using True c by (subst hkdf_loop.simps) (simp add: Let_def)
  next
    case False
    then show ?thesis by (subst hkdf_loop.simps) simp
  qed
qed

lemma hkdfExpand_total:
  "hashes_ok H \<Longrightarrow> n \<le> 254 * 32 \<Longrightarrow> \<exists>r. hkdfExpand H prk info n = Inr r \<and> length r = n"
  unfolding hkdfExpand_def by (rule hkdf_loop_total) auto

lemma deriveSpake2Keys_total:
  assumes "hashes_ok H"
  shows "\<exists>k. deriveSpake2Keys H kMain = Inr k \<and> length (Kca k) = 32 \<and> length (Kcd k) = 32
    \<and> length (Kc2s k) = 32 \<and> length (Ks2c k) = 32"
  using hkdfExpand_total [OF assms, of 128 "hkdfExtract H kMain (bytes_of_string ''caw.v1.keys'')"
      "bytes_of_string ''caw-secure-channel''"]
  by (auto simp: deriveSpake2Keys_def Let_def)

section \<open>Hash to point\<close>

lemma modSqrt_square:
  assumes "modSqrt a p = Some y" and "p mod 4 = 3" and "0 < p"
  shows "(y * y) mod p = a mod p \<and> 0 \<le> y \<and> y < p"
proof -
  have y: "y = a ^ nat ((p + 1) div 4) mod p" and qr: "a ^ nat ((p - 1) div 2) mod p = 1"
    using assms(1) by (auto simp: modSqrt_def split: if_splits)
  define k where "k = nat (p div 4)"
  have p: "p = 4 * int k + 3" using assms(2,3) mult_div_mod_eq [of 4 p] by (simp add: k_def)
  have e: "nat ((p + 1) div 4) = k + 1" "nat ((p - 1) div 2) = 2 * k + 1" using p by simp_all
  have "(y * y) mod p = (a ^ (k + 1) * a ^ (k + 1)) mod p"
    unfolding y e by (simp add: mod_mult_eq)
  also have "a ^ (k + 1) * a ^ (k + 1) = a ^ (2 * k + 1) * a"
  proof -
    have "(k + 1) + (k + 1) = Suc (2 * k + 1)" by simp
    then show ?thesis by (metis power_add power_Suc2)
  qed
  also have "(a ^ (2 * k + 1) * a) mod p = (1 * a) mod p"
    using qr unfolding e by (metis mod_mult_left_eq)
  finally show ?thesis using assms(3) by (simp add: y)
qed

lemma hash_search_on_curve:
  assumes "hash_search C H seed i = Inr q" and "cP C mod 4 = 3" and "0 < cP C"
  shows "point_valid C q"
  using assms
proof (induction C H seed i rule: hash_search.induct)
  case (1 C H seed i)
  define x where "x = int (be_value (sha256 H (bytes_of_string seed @ [word_of_nat i]))) mod cP C"
  define rhs where "rhs = (x * x * x - 3 * x + cB C) mod cP C"
  have i: "i < 256" using 1(2) by (subst (asm) hash_search.simps) (auto split: if_splits)
  note step = hash_search.simps [of C H seed i, unfolded Let_def, folded x_def, folded rhs_def]
  show ?case
  proof (cases "modSqrt rhs (cP C)")
    case None
    with 1(1) [OF i refl x_def rhs_def None] 1(2-4) i show ?thesis by (simp add: step)
  next
    case (Some y)
    with 1(2) i have "q = Some (x, y)" by (simp add: step)
    with modSqrt_square [OF Some 1(3,4)] 1(4) show ?thesis
      by (simp add: point_valid_def polynomial_def x_def rhs_def)
  qed
qed

lemma init_MN_valid:
  assumes "init_MN C H = Some MN" and "cP C mod 4 = 3" and "0 < cP C"
  shows "point_valid C (fst MN) \<and> point_valid C (snd MN)"
  using assms hash_search_on_curve [of C H _ 0]
  by (auto simp: init_MN_def hashToPoint_def split: sum.splits)

section \<open>Encoding of points\<close>

lemma be_value_be_bytes: "n < 256 ^ k \<Longrightarrow> be_value (be_bytes k n) = n"
  by (simp add: be_value_bytes)

lemma pointToBytes_inverse:
  assumes "0 \<le> x" "x < 2 ^ 256" "0 \<le> y" "y < 2 ^ 256" and "pointToBytes (Some (x, y)) = Some b"
  shows "pointFromBytes C b =
    (if IsOnCurve C (x, y) then Inr (Some (x, y)) else Inl ''point not on curve'')"
proof -
  have b: "b = [4] @ be_bytes 32 (nat x) @ be_bytes 32 (nat y)"
    using assms(5) by (simp add: pointToBytes_def)
  have "nat x < 256 ^ 32" "nat y < 256 ^ 32" using assms(1-4) by (simp_all add: nat_less_iff)
  then have "int (be_value (take 32 (drop 1 b))) = x" "int (be_value (take 32 (drop 33 b))) = y"
    using assms(1,3) unfolding b by (simp_all add: be_value_be_bytes)
  then show ?thesis by (simp add: pointFromBytes_def point_valid_def Let_def) (simp add: b)
qed

section \<open>Group laws\<close>

lemma curve_okD:
  assumes "curve_ok C"
  shows "0 < cP C" "cP C \<le> 2 ^ 256" "\<not> IsOnCurve C (0, 0)" "IsOnCurve C (cG C)"
    "in_group C p \<Longrightarrow> in_group C q \<Longrightarrow> in_group C (cAdd C p q)"
    "in_group C p \<Longrightarrow> in_group C q \<Longrightarrow> cAdd C p q = cAdd C q p"
    "in_group C p \<Longrightarrow> in_group C q \<Longrightarrow> in_group C r \<Longrightarrow>
       cAdd C (cAdd C p q) r = cAdd C p (cAdd C q r)"
    "in_group C p \<Longrightarrow> cAdd C (0, 0) p = p"
    "IsOnCurve C (x, y) \<Longrightarrow> IsOnCurve C (x, cP C - y)"
    "IsOnCurve C (x, y) \<Longrightarrow> cAdd C (x, y) (x, cP C - y) = (0, 0)"
    "in_group C p \<Longrightarrow> cScalarMult C p k = ec_mult C (nat k) p"
    "cScalarBaseMult C k = cScalarMult C (cG C) k"
    "IsOnCurve C p \<Longrightarrow> 0 < k \<Longrightarrow> k < cN C \<Longrightarrow> ec_mult C (nat k) p \<noteq> (0, 0)"
  using assms unfolding curve_ok_def by blast+

lemma in_group_zero [simp]: "in_group C (0, 0)"
  by (simp add: in_group_def)

lemma on_curve_in_group: "IsOnCurve C p \<Longrightarrow> in_group C p"
  by (simp add: in_group_def)

lemma ec_mult_in_group: "curve_ok C \<Longrightarrow> in_group C p \<Longrightarrow> in_group C (ec_mult C n p)"
  by (induction n) (auto intro: curve_okD(5))

lemma ec_mult_add:
  assumes "curve_ok C" and "in_group C p"
  shows "ec_mult C (m + n) p = cAdd C (ec_mult C m p) (ec_mult C n p)"
  by (induction m) (simp_all add: curve_okD(7,8) [OF assms(1)] ec_mult_in_group assms)

lemma ec_mult_mult:
  assumes "curve_ok C" and "in_group C p"
  shows "ec_mult C m (ec_mult C n p) = ec_mult C (m * n) p"
  by (induction m) (simp_all add: ec_mult_add assms)

lemma ec_mult_on_curve:
  assumes "curve_ok C" and "IsOnCurve C p" and "0 < k" and "k < cN C"
  shows "IsOnCurve C (ec_mult C (nat k) p)"
  using ec_mult_in_group [OF assms(1) on_curve_in_group [OF assms(2)], of "nat k"]
    curve_okD(13) [OF assms] by (simp add: in_group_def)

text \<open>Subtracting the blinding point again.\<close>

lemma unblind:
  assumes C: "curve_ok C" and "in_group C p" and q: "IsOnCurve C q"
  shows "pointSub C (Some (cAdd C p q)) (Some q) = Some p"
proof -
  obtain x y where xy: "q = (x, y)" by fastforce
  have "IsOnCurve C (x, cP C - y)" "cAdd C q (x, cP C - y) = (0, 0)"
    using q xy curve_okD(9,10) [OF C, of x y] by auto
  then have "cAdd C (cAdd C p q) (x, cP C - y) = cAdd C p (0, 0)"
    using assms by (simp add: curve_okD(7) on_curve_in_group)
  also have "\<dots> = p" using curve_okD(6,8) [OF C] assms(2) by simp
  finally show ?thesis by (simp add: pointSub_def pointAdd_def pointNeg_def xy)
qed

section \<open>Agreement\<close>

text \<open>The shared secret of a side whose peer's share is \<open>r\<close> times G plus \<open>w\<close> times the generator.\<close>

lemma shared_secret_eq:
  assumes C: "curve_ok C" and g: "IsOnCurve C g" and w: "0 < sp_w s" "sp_w s < cN C"
    and gen: "(if sp_client s then snd MN else fst MN) = Some g"
    and peer: "sp_peer s = pointAdd C (pointBaseScalar C r) (pointScalar C (Some g) (sp_w s))"
  shows "shared_secret C MN s = Some (ec_mult C (nat (sp_scalar s) * nat r) (cG C))"
proof -
  note G = on_curve_in_group [OF curve_okD(4) [OF C]]
  let ?wg = "ec_mult C (nat (sp_w s)) g" and ?rG = "ec_mult C (nat r) (cG C)"
  have "IsOnCurve C ?wg" by (rule ec_mult_on_curve [OF C g w])
  moreover have "sp_peer s = Some (cAdd C ?rG ?wg)" "pointScalar C (Some g) (sp_w s) = Some ?wg"
    using C G on_curve_in_group [OF g] unfolding peer
    by (simp_all add: pointAdd_def pointBaseScalar_def pointScalar_def curve_okD)
  ultimately have "pointSub C (sp_peer s) (pointScalar C (Some g) (sp_w s)) = Some ?rG"
    by (simp add: unblind C ec_mult_in_group G)
  then show ?thesis
    by (simp add: shared_secret_def gen Let_def pointScalar_def curve_okD(11) C ec_mult_in_group G
        ec_mult_mult)
qed

lemma share_in_group:
  assumes "curve_ok C" and "IsOnCurve C g"
  shows "\<exists>p. pointAdd C (pointBaseScalar C r) (pointScalar C (Some g) k) = Some p \<and> in_group C p"
  using assms on_curve_in_group [OF curve_okD(4) [OF assms(1)]]
  by (simp add: pointAdd_def pointBaseScalar_def pointScalar_def curve_okD on_curve_in_group
      ec_mult_in_group)

lemma in_group_bounds:
  assumes "curve_ok C" and "in_group C (x, y)"
  shows "0 \<le> x \<and> x < 2 ^ 256 \<and> 0 \<le> y \<and> y < 2 ^ 256"
  using assms curve_okD(1,2) [OF assms(1)] by (auto simp: in_group_def)

text \<open>A peer that is accepted is the point that was sent.\<close>

lemma SetPeerShare_share:
  assumes "curve_ok C" and "sp_share a = Some p" and "in_group C p"
    and "SetPeerShare C (the (Share a)) s = Inr s'"
  shows "s' = s\<lparr>sp_peer := sp_share a, sp_hasPeer := True\<rparr>"
proof -
  obtain x y where xy: "p = (x, y)" by fastforce
  obtain b where b: "pointToBytes (Some (x, y)) = Some b" by (simp add: pointToBytes_def)
  have "pointFromBytes C b = (if IsOnCurve C (x, y) then Inr (Some (x, y)) else Inl ''point not on curve'')"
    using in_group_bounds [OF assms(1)] assms(3) xy by (intro pointToBytes_inverse b) auto
  with assms(2,4) b xy show ?thesis
    by (auto simp: SetPeerShare_def Share_def split: if_splits)
qed

lemma agreement:
  assumes C: "curve_ok C" "cP C mod 4 = 3" and H: "hashes_ok H" and MN: "init_MN C H = Some MN"
    and w: "0 < w" "w < cN C" and xy: "0 < x" "x < cN C" "0 < y" "y < cN C"
    and c: "newSpake2StateFixed C MN True w x = Inr c" and s: "newSpake2StateFixed C MN False w y = Inr s"
    and c': "SetPeerShare C (the (Share s)) c = Inr c'" and s': "SetPeerShare C (the (Share c)) s = Inr s'"
  shows "\<exists>keys t pa pb. Finish C H MN sid ak c' = (Inr keys,
           c'\<lparr>sp_sid := Some sid, sp_accesskey := ak, sp_tt := Some t\<rparr>)
       \<and> Finish C H MN sid ak s' = (Inr keys,
           s'\<lparr>sp_sid := Some sid, sp_accesskey := ak, sp_tt := Some t\<rparr>)
       \<and> Share c = Some pa \<and> Share s = Some pb \<and> t = transcript_bytes sid ak pa pb
       \<and> length (Kca keys) = 32 \<and> length (Kcd keys) = 32 \<and> length (Kc2s keys) = 32
       \<and> length (Ks2c keys) = 32"
proof -
  obtain m n where mn: "MN = (Some m, Some n)" "IsOnCurve C m" "IsOnCurve C n"
    using init_MN_valid [OF MN C(2) curve_okD(1) [OF C(1)]]
    by (cases MN) (auto simp: point_valid_def split: option.splits)
  have cs: "sp_client c" "sp_w c = w" "sp_scalar c = x"
      "sp_share c = pointAdd C (pointBaseScalar C x) (pointScalar C (Some m) w)"
    and ss: "\<not> sp_client s" "sp_w s = w" "sp_scalar s = y"
      "sp_share s = pointAdd C (pointBaseScalar C y) (pointScalar C (Some n) w)"
    using c s mn by (auto simp: newSpake2StateFixed_def Let_def split: if_splits)
  obtain pc ps where sh: "sp_share c = Some pc" "in_group C pc" "sp_share s = Some ps" "in_group C ps"
    using share_in_group [OF C(1) mn(2), of x w] share_in_group [OF C(1) mn(3), of y w] cs ss by auto
  have c'': "c' = c\<lparr>sp_peer := sp_share s, sp_hasPeer := True\<rparr>"
    and s'': "s' = s\<lparr>sp_peer := sp_share c, sp_hasPeer := True\<rparr>"
    using SetPeerShare_share [OF C(1) sh(3,4) c'] SetPeerShare_share [OF C(1) sh(1,2) s'] by auto
  let ?z = "ec_mult C (nat x * nat y) (cG C)"
  have zc: "shared_secret C MN c' = Some ?z"
    using shared_secret_eq [OF C(1) mn(3), of c' MN y] w mn cs ss c'' by simp
  have zs: "shared_secret C MN s' = Some ?z"
    using shared_secret_eq [OF C(1) mn(2), of s' MN x] w mn cs ss s'' by (simp add: mult.commute)
  have "IsOnCurve C ?z"
    using ec_mult_on_curve [OF C(1) ec_mult_on_curve [OF C(1) curve_okD(4) [OF C(1)] xy(3,4)] xy(1,2)]
    by (simp add: ec_mult_mult C(1) on_curve_in_group curve_okD(4))
  then have zv: "point_valid C (Some ?z)" by (simp add: point_valid_def)
  obtain pa pb where pab: "Share c = Some pa" "Share s = Some pb"
    using sh by (cases pc; cases ps) (simp add: Share_def pointToBytes_def)
  then have tt: "buildTranscript sid ak (sp_share c) (sp_share s) = Some (transcript_bytes sid ak pa pb)"
    by (simp add: buildTranscript_def Share_def)
  obtain keys where keys: "deriveSpake2Keys H (kMainFromZ H ?z (transcript_bytes sid ak pa pb)) = Inr keys"
    "length (Kca keys) = 32" "length (Kcd keys) = 32" "length (Kc2s keys) = 32" "length (Ks2c keys) = 32"
    using deriveSpake2Keys_total [OF H] by blast
  have "Finish C H MN sid ak c' = (Inr keys,
      c'\<lparr>sp_sid := Some sid, sp_accesskey := ak, sp_tt := Some (transcript_bytes sid ak pa pb)\<rparr>)"
    using zc zv tt keys(1) cs by (simp add: Finish_def Let_def c'')
  moreover have "Finish C H MN sid ak s' = (Inr keys,
      s'\<lparr>sp_sid := Some sid, sp_accesskey := ak, sp_tt := Some (transcript_bytes sid ak pa pb)\<rparr>)"
    using zs zv tt keys(1) ss by (simp add: Finish_def Let_def s'')
  ultimately show ?thesis using pab keys by blast
qed

section \<open>A concrete curve\<close>

text \<open>
  The curve y^2 = x^3 - 3x + 1 over the field of seven elements, whose five points are the
  multiples of (0, 1), with toy digests: it satisfies the laws, so the theorems apply to it.
\<close>

definition toy_points :: "(int \<times> int) list" where
  "toy_points = [(0, 0), (0, 1), (4, 5), (4, 2), (0, 6)]"

definition toy_log :: "int \<times> int \<Rightarrow> nat" where
  "toy_log p = (if p = (0, 1) then 1 else if p = (4, 5) then 2 else if p = (4, 2) then 3
     else if p = (0, 6) then 4 else 0)"

definition toy_mult :: "int \<times> int \<Rightarrow> int \<Rightarrow> int \<times> int" where
  "toy_mult p k = toy_points ! ((nat k * toy_log p) mod 5)"

definition toy_curve :: curve where
  "toy_curve = \<lparr>cP = 7, cB = 1, cN = 5, cG = (0, 1),
     cAdd = \<lambda>p q. toy_points ! ((toy_log p + toy_log q) mod 5),
     cScalarMult = toy_mult, cScalarBaseMult = toy_mult (0, 1)\<rparr>"

definition toy_hashes :: hashes where
  "toy_hashes = \<lparr>sha256 = \<lambda>d. replicate 31 0 @ [7],
     hmac = \<lambda>k d. take 32 (k @ d @ replicate 32 0)\<rparr>"

lemma toy_hashes_ok: "hashes_ok toy_hashes"
  by (auto simp: hashes_ok_def toy_hashes_def)

lemma less_7_cases: "0 \<le> (x :: int) \<Longrightarrow> x < 7 \<Longrightarrow> x \<in> {0, 1, 2, 3, 4, 5, 6}"
  by auto

lemma toy_on_curve: "IsOnCurve toy_curve p \<longleftrightarrow> p \<in> {(0, 1), (4, 5), (4, 2), (0, 6)}"
proof -
  obtain x y where p: "p = (x, y)" by fastforce
  show ?thesis
  proof
    assume on: "IsOnCurve toy_curve p"
    then have "x \<in> {0, 1, 2, 3, 4, 5, 6}" "y \<in> {0, 1, 2, 3, 4, 5, 6}"
      using less_7_cases by (auto simp: p toy_curve_def)
    with on show "p \<in> {(0, 1), (4, 5), (4, 2), (0, 6)}"
      by (auto simp: p toy_curve_def polynomial_def)
  qed (auto simp: toy_curve_def polynomial_def)
qed

lemma toy_in_group: "in_group toy_curve p \<longleftrightarrow> (\<exists>n < 5. p = toy_points ! n \<and> toy_log p = n)"
proof
  assume "in_group toy_curve p"
  then have "p \<in> {(0, 0), (0, 1), (4, 5), (4, 2), (0, 6)}"
    by (auto simp: in_group_def toy_on_curve)
  moreover have "toy_log p < 5" "p = toy_points ! toy_log p"
    using calculation by (auto simp: toy_log_def toy_points_def)
  ultimately show "\<exists>n < 5. p = toy_points ! n \<and> toy_log p = n" by blast
next
  assume "\<exists>n < 5. p = toy_points ! n \<and> toy_log p = n"
  then obtain n where "n < 5" "p = toy_points ! n" by blast
  moreover from this(1) have "n \<in> {0, 1, 2, 3, 4}" by auto
  ultimately show "in_group toy_curve p"
    by (auto simp: in_group_def toy_on_curve toy_points_def)
qed

lemma toy_log_points: "n < 5 \<Longrightarrow> toy_log (toy_points ! n) = n"
proof -
  assume "n < 5"
  then have "n \<in> {0, 1, 2, 3, 4}" by auto
  then show ?thesis by (auto simp: toy_log_def toy_points_def)
qed

lemma toy_ec_mult:
  "in_group toy_curve p \<Longrightarrow> ec_mult toy_curve n p = toy_points ! ((n * toy_log p) mod 5)"
proof (induction n)
  case 0
  show ?case by (simp add: toy_points_def)
next
  case (Suc n)
  then show ?case
    by (simp add: toy_curve_def toy_log_points mod_add_right_eq)
qed

lemma toy_curve_ok: "curve_ok toy_curve"
proof -
  have pts: "in_group toy_curve (toy_points ! (n mod 5))" for n
    using toy_log_points [of "n mod 5"] by (auto simp: toy_in_group)
  have "cAdd toy_curve p q = toy_points ! ((toy_log p + toy_log q) mod 5)" for p q
    by (simp add: toy_curve_def)
  note add = this
  have assoc: "cAdd toy_curve (cAdd toy_curve p q) r = cAdd toy_curve p (cAdd toy_curve q r)" for p q r
    by (simp add: add toy_log_points mod_simps add.assoc)
  have neg: "IsOnCurve toy_curve (x, 7 - y) \<and> cAdd toy_curve (x, y) (x, 7 - y) = (0, 0)"
    if "IsOnCurve toy_curve (x, y)" for x y
    using that unfolding toy_on_curve add by (auto simp: toy_log_def toy_points_def)
  have order: "ec_mult toy_curve (nat k) p \<noteq> (0, 0)" if "IsOnCurve toy_curve p" "0 < k" "k < 5" for p k
  proof -
    have "k \<in> {1, 2, 3, 4}" "in_group toy_curve p" using that on_curve_in_group by auto
    then show ?thesis using that(1) unfolding toy_on_curve toy_ec_mult [OF \<open>in_group toy_curve p\<close>]
      by (auto simp: toy_log_def toy_points_def)
  qed
  have zero: "cAdd toy_curve (0, 0) p = p" if "in_group toy_curve p" for p
    using that by (auto simp: add toy_in_group) (simp add: toy_log_def)
  have f: "cP toy_curve = 7" "cN toy_curve = 5" "cG toy_curve = (0, 1)"
    "cScalarMult toy_curve p k = toy_points ! ((nat k * toy_log p) mod 5)"
    "cScalarBaseMult toy_curve k = cScalarMult toy_curve (0, 1) k" for p k
    by (simp_all add: toy_curve_def toy_mult_def)
  show ?thesis
    unfolding curve_ok_def f
  proof (intro conjI)
    show "\<not> IsOnCurve toy_curve (0, 0)" "IsOnCurve toy_curve (0, 1)"
      by (simp_all add: toy_on_curve del: IsOnCurve.simps)
    show "\<forall>p q. in_group toy_curve p \<longrightarrow> in_group toy_curve q \<longrightarrow>
        in_group toy_curve (cAdd toy_curve p q) \<and> cAdd toy_curve p q = cAdd toy_curve q p"
      using pts by (simp add: add add.commute)
    show "\<forall>p k. in_group toy_curve p \<longrightarrow>
        toy_points ! (nat k * toy_log p mod 5) = ec_mult toy_curve (nat k) p"
      by (simp add: toy_ec_mult)
    show "\<forall>k. toy_points ! (nat k * toy_log (0, 1) mod 5) = toy_points ! (nat k * toy_log (0, 1) mod 5)"
      by simp
  qed (use assoc neg order zero in \<open>simp_all del: IsOnCurve.simps\<close>)
qed

section \<open>The transcript binds its parts\<close>

lemma len2_inject:
  assumes "length x < 65536" and "length y < 65536" and "len2 x = len2 y"
  shows "length x = length y"
proof -
  have "unat (word_of_nat (length z div 256) :: byte) = length z div 256"
    "unat (word_of_nat (length z) :: byte) = length z mod 256" if "length z < 65536" for z :: "byte list"
  proof -
    have "length z div 256 < 256" using that by (simp add: less_mult_imp_div_less)
    then show "unat (word_of_nat (length z div 256) :: byte) = length z div 256"
      by (simp add: unat_of_nat)
    show "unat (word_of_nat (length z) :: byte) = length z mod 256"
      by (simp add: unat_of_nat)
  qed
  with assms have "length x div 256 = length y div 256" "length x mod 256 = length y mod 256"
    by (metis len2_def list.inject)+
  then show ?thesis by (metis div_mod_decomp)
qed

lemma length_len2 [simp]: "length (len2 x) = 2"
  by (simp add: len2_def)

lemma len2_prefix:
  assumes "len2 x @ x @ r = len2 y @ y @ r'" and "length x < 65536" and "length y < 65536"
  shows "x = y \<and> r = r'"
proof -
  have "len2 x = len2 y" "x @ r = y @ r'"
    using assms(1) by (metis append_eq_append_conv length_len2)+
  with len2_inject [OF assms(2,3)] show ?thesis by simp
qed

section \<open>Properties\<close>

text \<open>
  C11: Two sides with the same code agree. When each accepts the other's share, both finish,
  with the same session id and access key, with the same four 32-byte keys and the same
  transcript; each side's confirmation tag is the one the other side expects.
\<close>

theorem spake2_agreement:
  assumes "curve_ok C" and "cP C mod 4 = 3" and "hashes_ok H" and "init_MN C H = Some MN"
    and "0 < w" and "w < cN C" and "0 < x" and "x < cN C" and "0 < y" and "y < cN C"
    and "newSpake2StateFixed C MN True w x = Inr c" and "newSpake2StateFixed C MN False w y = Inr s"
    and "SetPeerShare C (the (Share s)) c = Inr c'" and "SetPeerShare C (the (Share c)) s = Inr s'"
  shows "\<exists>kc ks tc ts c'' s''. Finish C H MN sid ak c' = (Inr kc, c'') \<and> sp_tt c'' = Some tc
      \<and> Finish C H MN sid ak s' = (Inr ks, s'') \<and> sp_tt s'' = Some ts
      \<and> kc = ks \<and> tc = ts \<and> length (Kc2s ks) = 32 \<and> length (Ks2c ks) = 32
      \<and> VerifyTag (TagA_of H kc tc) (TagA_of H ks ts) \<and> VerifyTag (TagB_of H ks ts) (TagB_of H kc tc)
      \<and> length (TagA_of H kc tc) = 16"
proof -
  obtain keys t where "Finish C H MN sid ak c' = (Inr keys,
         c'\<lparr>sp_sid := Some sid, sp_accesskey := ak, sp_tt := Some t\<rparr>)"
      "Finish C H MN sid ak s' = (Inr keys,
         s'\<lparr>sp_sid := Some sid, sp_accesskey := ak, sp_tt := Some t\<rparr>)"
      "length (Kc2s keys) = 32" "length (Ks2c keys) = 32"
    using agreement [OF assms] by metis
  moreover have "length (TagA_of H keys t) = 16"
    using assms(3) by (simp add: TagA_of_def hashes_ok_def)
  ultimately show ?thesis
    by (intro exI [of _ keys] exI [of _ t] exI conjI) (assumption | simp add: VerifyTag_def)+
qed

lemma toy_MN: "init_MN toy_curve toy_hashes = Some (Some (0, 1), Some (0, 1))"
proof -
  have "be_value (replicate n 0) = 0" for n
    unfolding be_value_def by (induction n) simp_all
  then have "be_value (sha256 toy_hashes d) = 7" for d
    by (simp add: toy_hashes_def be_value_snoc)
  then have "hash_search toy_curve toy_hashes seed 0 = Inr (Some (0, 1))" for seed
    by (subst hash_search.simps) (simp add: toy_curve_def modSqrt_def Let_def)
  then show ?thesis by (simp add: init_MN_def hashToPoint_def)
qed

definition toy_side :: "bool \<Rightarrow> int \<Rightarrow> Spake2State" where
  "toy_side client r = (case newSpake2StateFixed toy_curve (Some (0, 1), Some (0, 1)) client 2 r of
     Inr s \<Rightarrow> s)"

lemma toy_sides:
  "newSpake2StateFixed toy_curve (Some (0, 1), Some (0, 1)) True 2 2 = Inr (toy_side True 2)"
  "newSpake2StateFixed toy_curve (Some (0, 1), Some (0, 1)) False 2 1 = Inr (toy_side False 1)"
  by (simp_all add: toy_side_def newSpake2StateFixed_def Let_def)

lemma toy_shares:
  "sp_share (toy_side True 2) = Some (0, 6)" "sp_share (toy_side False 1) = Some (4, 2)"
  by (simp_all add: toy_side_def newSpake2StateFixed_def Let_def pointAdd_def pointBaseScalar_def
      pointScalar_def toy_curve_def toy_mult_def toy_points_def toy_log_def)

lemma toy_share_bytes:
  "\<exists>b. Share (toy_side True 2) = Some b \<and> pointFromBytes toy_curve b = Inr (Some (0, 6))"
  "\<exists>b. Share (toy_side False 1) = Some b \<and> pointFromBytes toy_curve b = Inr (Some (4, 2))"
proof -
  have "pointFromBytes toy_curve b = Inr (Some q)"
    if "pointToBytes (Some q) = Some b" "q = (0, 6) \<or> q = (4, 2)" for q b
    using that pointToBytes_inverse [of "fst q" "snd q" b toy_curve]
    by (auto simp: toy_on_curve simp del: IsOnCurve.simps)
  moreover have "\<exists>b. pointToBytes (Some q) = Some b" for q by (cases q) (simp add: pointToBytes_def)
  ultimately show
    "\<exists>b. Share (toy_side True 2) = Some b \<and> pointFromBytes toy_curve b = Inr (Some (0, 6))"
    "\<exists>b. Share (toy_side False 1) = Some b \<and> pointFromBytes toy_curve b = Inr (Some (4, 2))"
    by (metis Share_def toy_shares(1), metis Share_def toy_shares(2))
qed

lemma toy_SetPeerShare:
  "\<exists>c'. SetPeerShare toy_curve (the (Share (toy_side False 1))) (toy_side True 2) = Inr c'"
  "\<exists>s'. SetPeerShare toy_curve (the (Share (toy_side True 2))) (toy_side False 1) = Inr s'
     \<and> (\<exists>b. Share s' = Some b \<and> Share (toy_side False 1) = Some b)"
  using toy_share_bytes by (auto simp: SetPeerShare_def) (simp add: Share_def)

theorem spake2_agreement_witness:
  "\<exists>c' s' k c'' s''. SetPeerShare toy_curve (the (Share (toy_side False 1))) (toy_side True 2) = Inr c'
     \<and> SetPeerShare toy_curve (the (Share (toy_side True 2))) (toy_side False 1) = Inr s'
     \<and> Finish toy_curve toy_hashes (Some (0, 1), Some (0, 1)) [1] ''key'' c' = (Inr k, c'')
     \<and> Finish toy_curve toy_hashes (Some (0, 1), Some (0, 1)) [1] ''key'' s' = (Inr k, s'')"
proof -
  obtain c' s' where set: "SetPeerShare toy_curve (the (Share (toy_side False 1))) (toy_side True 2) = Inr c'"
    "SetPeerShare toy_curve (the (Share (toy_side True 2))) (toy_side False 1) = Inr s'"
    using toy_SetPeerShare by blast
  have "cP toy_curve mod 4 = 3" "(0 :: int) < 2" "(2 :: int) < cN toy_curve" "(1 :: int) < cN toy_curve"
    by (simp_all add: toy_curve_def)
  with spake2_agreement [OF toy_curve_ok _ toy_hashes_ok toy_MN _ _ _ _ _ _ toy_sides set, of "[1]" "''key''"]
  show ?thesis using set by fastforce
qed

text \<open>
  C12: The transcript determines the session id, the access key and both shares: no two
  handshakes that differ in one of them hash the same bytes.
\<close>

theorem transcript_injective:
  assumes "transcript_bytes sid ak pa pb = transcript_bytes sid' ak' pa' pb'"
    and "length sid < 65536" and "length sid' < 65536" and "length ak < 65536" and "length ak' < 65536"
    and "length pa < 65536" and "length pa' < 65536" and "length pb < 65536" and "length pb' < 65536"
  shows "sid = sid' \<and> ak = ak' \<and> pa = pa' \<and> pb = pb'"
proof -
  have "len2 sid @ sid @ (len2 (bytes_of_string ''client'') @ bytes_of_string ''client''
     @ len2 (bytes_of_string ''server'') @ bytes_of_string ''server''
     @ [0x00] @ len2 pa @ pa @ [0x01] @ len2 pb @ pb
     @ len2 (bytes_of_string ak) @ bytes_of_string ak)
    = len2 sid' @ sid' @ (len2 (bytes_of_string ''client'') @ bytes_of_string ''client''
     @ len2 (bytes_of_string ''server'') @ bytes_of_string ''server''
     @ [0x00] @ len2 pa' @ pa' @ [0x01] @ len2 pb' @ pb'
     @ len2 (bytes_of_string ak') @ bytes_of_string ak')"
    using assms(1) by (simp only: transcript_bytes_def same_append_eq append_assoc)
  from len2_prefix [OF this assms(2,3)] have sid: "sid = sid'"
    and 1: "len2 pa @ pa @ ([0x01] @ len2 pb @ pb @ len2 (bytes_of_string ak) @ bytes_of_string ak)
      = len2 pa' @ pa' @ ([0x01] @ len2 pb' @ pb' @ len2 (bytes_of_string ak') @ bytes_of_string ak')"
    by (simp_all only: same_append_eq append_assoc)
  from len2_prefix [OF 1 assms(6,7)] have pa: "pa = pa'"
    and 2: "len2 pb @ pb @ (len2 (bytes_of_string ak) @ bytes_of_string ak)
      = len2 pb' @ pb' @ (len2 (bytes_of_string ak') @ bytes_of_string ak')"
    by (simp_all only: same_append_eq append_assoc)
  from len2_prefix [OF 2 assms(8,9)] have pb: "pb = pb'"
    and 3: "len2 (bytes_of_string ak) @ bytes_of_string ak @ [] = len2 (bytes_of_string ak') @ bytes_of_string ak' @ []"
    by simp_all
  have "length (bytes_of_string ak) < 65536" "length (bytes_of_string ak') < 65536"
    using assms(4,5) by simp_all
  from len2_prefix [OF 3 this] have "ak = ak'" by (metis string_of_bytes_of_string)
  with sid pa pb show ?thesis by simp
qed

theorem transcript_injective_witness:
  "transcript_bytes [1] ''a'' [4] [4] \<noteq> transcript_bytes [1] ''b'' [4] [4]"
  using transcript_injective [of "[1]" "''a''" "[4]" "[4]" "[1]" "''b''" "[4]" "[4]"] by auto

text \<open>
  The generators are points of the curve: whatever the hash, a point the search finds
  satisfies the curve equation, because \<^verbatim>\<open>modSqrt\<close> returns a square root.
\<close>

theorem generators_on_curve:
  assumes "init_MN C H = Some (m, n)" and "cP C mod 4 = 3" and "0 < cP C"
  shows "\<exists>p q. m = Some p \<and> IsOnCurve C p \<and> n = Some q \<and> IsOnCurve C q"
  using init_MN_valid [OF assms] by (auto simp: point_valid_def split: option.splits)

theorem generators_on_curve_witness: "IsOnCurve toy_curve (0, 1)"
proof -
  have "cP toy_curve mod 4 = 3" "0 < cP toy_curve" by (simp_all add: toy_curve_def)
  from generators_on_curve [OF toy_MN this] show ?thesis by (auto simp del: IsOnCurve.simps)
qed

end
