(* ===== verification/Go_Base64.thy ===== *)
theory Go_Base64
  imports Go_Json
begin

text \<open>
  \<^verbatim>\<open>base64.StdEncoding\<close> of Go's standard library, which the secure channel and the handshake
  use to carry binary values in JSON: \<open>EncodeToString\<close>, and \<open>DecodeString\<close> as the decoder
  works (line breaks are skipped, padding is required and ends the input, unused trailing bits
  are not checked). Decoding an encoding gives the bytes back.
\<close>

definition b64_char :: "nat \<Rightarrow> char" where
  "b64_char n =
    (if n < 26 then char_of (65 + n)
     else if n < 52 then char_of (71 + n)
     else if n < 62 then char_of (n - 4)
     else if n = 62 then CHR ''+'' else CHR ''/'')"

definition b64_value :: "char \<Rightarrow> nat option" where
  "b64_value c =
    (let v = of_char c in
     if 65 \<le> v \<and> v \<le> 90 then Some (v - 65)
     else if 97 \<le> v \<and> v \<le> 122 then Some (v - 71)
     else if 48 \<le> v \<and> v \<le> 57 then Some (v + 4)
     else if v = 43 then Some 62
     else if v = 47 then Some 63
     else None)"

definition b64_quad :: "nat \<Rightarrow> char list" where
  "b64_quad v = [b64_char (v div 262144), b64_char (v div 4096 mod 64),
     b64_char (v div 64 mod 64), b64_char (v mod 64)]"

definition triple_value :: "byte \<Rightarrow> byte \<Rightarrow> byte \<Rightarrow> nat" where
  "triple_value a b c = unat a * 65536 + unat b * 256 + unat c"

fun EncodeToString :: "byte list \<Rightarrow> string" where
  "EncodeToString [] = []"
| "EncodeToString [a] = take 2 (b64_quad (triple_value a 0 0)) @ ''==''"
| "EncodeToString [a, b] = take 3 (b64_quad (triple_value a b 0)) @ ''=''"
| "EncodeToString (a # b # c # bs) = b64_quad (triple_value a b c) @ EncodeToString bs"

definition quad_bytes :: "nat \<Rightarrow> nat \<Rightarrow> nat \<Rightarrow> nat \<Rightarrow> byte list" where
  "quad_bytes x y z w =
    (let v = x * 262144 + y * 4096 + z * 64 + w in
     [word_of_nat (v div 65536), word_of_nat (v div 256), word_of_nat v])"

fun b64_decode :: "char list \<Rightarrow> byte list option" where
  "b64_decode [] = Some []"
| "b64_decode (c0 # c1 # c2 # c3 # rest) =
    (case (b64_value c0, b64_value c1) of
       (Some x, Some y) \<Rightarrow>
         if c2 = CHR ''='' then
           (if c3 = CHR ''='' \<and> rest = [] then Some (take 1 (quad_bytes x y 0 0)) else None)
         else (case b64_value c2 of
             None \<Rightarrow> None
           | Some z \<Rightarrow>
               if c3 = CHR ''='' then
                 (if rest = [] then Some (take 2 (quad_bytes x y z 0)) else None)
               else (case b64_value c3 of
                   None \<Rightarrow> None
                 | Some w \<Rightarrow> map_option (\<lambda>bs. quad_bytes x y z w @ bs) (b64_decode rest)))
     | _ \<Rightarrow> None)"
| "b64_decode _ = None"

definition DecodeString :: "string \<Rightarrow> byte list option" where
  "DecodeString s = b64_decode (filter (\<lambda>c. c \<noteq> CHR 0x0A \<and> c \<noteq> CHR 0x0D) s)"

section \<open>Round trip\<close>

lemma b64_value_char: "n < 64 \<Longrightarrow> b64_value (b64_char n) = Some n"
  by (auto simp: b64_value_def b64_char_def Let_def)

lemma b64_char_plain:
  assumes "n < 64"
  shows "b64_char n \<noteq> CHR ''=''" "b64_char n \<noteq> CHR 0x0A" "b64_char n \<noteq> CHR 0x0D"
proof -
  have "b64_value (b64_char n) \<noteq> None" using b64_value_char [OF assms] by simp
  moreover have "b64_value CHR ''='' = None" "b64_value CHR 0x0A = None" "b64_value CHR 0x0D = None"
    by (simp_all add: b64_value_def)
  ultimately show "b64_char n \<noteq> CHR ''=''" "b64_char n \<noteq> CHR 0x0A" "b64_char n \<noteq> CHR 0x0D"
    by metis+
qed

lemma triple_value_bound: "triple_value a b c < 16777216"
  using unat_byte_less [of a] unat_byte_less [of b] unat_byte_less [of c]
  unfolding triple_value_def by linarith

lemma quad_digits: "(v :: nat) < 16777216 \<Longrightarrow> v div 262144 < 64"
  by (simp add: less_mult_imp_div_less)

lemma quad_value:
  "(v div 262144) * 262144 + (v div 4096 mod 64) * 4096 + (v div 64 mod 64) * 64 + v mod 64 = (v :: nat)"
proof -
  have "v = (v div 64) * 64 + v mod 64" by simp
  moreover have "v div 64 = (v div 64 div 64) * 64 + v div 64 mod 64" by simp
  moreover have "v div 4096 = (v div 4096 div 64) * 64 + v div 4096 mod 64" by simp
  moreover have "v div 64 div 64 = v div 4096" "v div 4096 div 64 = v div 262144"
    by (simp_all add: div_mult2_eq [symmetric])
  ultimately show ?thesis by linarith
qed

lemma quad_value_tail:
  "v mod 64 = 0 \<Longrightarrow>
   (v div 262144) * 262144 + (v div 4096 mod 64) * 4096 + (v div 64 mod 64) * 64 = (v :: nat)"
  "v mod 64 = 0 \<Longrightarrow> v div 64 mod 64 = 0 \<Longrightarrow>
   (v div 262144) * 262144 + (v div 4096 mod 64) * 4096 = (v :: nat)"
  using quad_value [of v] by simp_all

lemma div_digit: "r < m \<Longrightarrow> (a * m + r) div m = (a :: nat)"
  by simp

lemma triple_value_zeros:
  "triple_value a 0 0 mod 64 = 0" "triple_value a 0 0 div 64 mod 64 = 0" "triple_value a b 0 mod 64 = 0"
proof -
  have "triple_value a 0 0 = 64 * (64 * (unat a * 16))" by (simp add: triple_value_def)
  then show "triple_value a 0 0 mod 64 = 0" "triple_value a 0 0 div 64 mod 64 = 0"
    by (simp_all only: mod_mult_self1_is_0 nonzero_mult_div_cancel_left)
  have "triple_value a b 0 = 64 * (unat a * 1024 + unat b * 4)" by (simp add: triple_value_def)
  then show "triple_value a b 0 mod 64 = 0" by (simp only: mod_mult_self1_is_0)
qed

lemma triple_bytes:
  "word_of_nat (triple_value a b c div 65536) = a"
  "word_of_nat (triple_value a b c div 256) = b"
  "word_of_nat (triple_value a b c) = c"
proof -
  have b: "unat a < 256" "unat b < 256" "unat c < 256" by simp_all
  have "triple_value a b c = unat a * 65536 + (unat b * 256 + unat c)"
    by (simp add: triple_value_def)
  moreover have "unat b * 256 + unat c < 65536" using b by linarith
  ultimately have "triple_value a b c div 65536 = unat a" by (metis div_digit)
  then show "word_of_nat (triple_value a b c div 65536) = a" by simp
  have "triple_value a b c = (unat a * 256 + unat b) * 256 + unat c"
    by (simp add: triple_value_def)
  then have "triple_value a b c div 256 = unat a * 256 + unat b"
    using b(3) by (metis div_digit)
  moreover have z: "(256 :: byte) = 0" "(65536 :: byte) = 0" "word_of_nat (unat x) = x" for x :: byte
    by simp_all
  ultimately show "word_of_nat (triple_value a b c div 256) = b"
    by (simp only: of_nat_add of_nat_mult of_nat_numeral mult_zero_right add_0)
  show "word_of_nat (triple_value a b c) = c"
    by (simp only: triple_value_def of_nat_add of_nat_mult of_nat_numeral z mult_zero_right add_0)
qed

lemma encode_no_newline: "\<forall>c \<in> set (EncodeToString bs). c \<noteq> CHR 0x0A \<and> c \<noteq> CHR 0x0D"
proof (induction bs rule: EncodeToString.induct)
  case (2 a)
  then show ?case using quad_digits [OF triple_value_bound] by (auto simp: b64_quad_def b64_char_plain)
next
  case (3 a b)
  then show ?case using quad_digits [OF triple_value_bound] by (auto simp: b64_quad_def b64_char_plain)
next
  case (4 a b c bs)
  then show ?case using quad_digits [OF triple_value_bound] by (auto simp: b64_quad_def b64_char_plain)
qed simp

lemma filter_encode: "filter (\<lambda>c. c \<noteq> CHR 0x0A \<and> c \<noteq> CHR 0x0D) (EncodeToString bs) = EncodeToString bs"
  using encode_no_newline by (simp add: filter_id_conv)

theorem decode_encode [simp]: "DecodeString (EncodeToString bs) = Some bs"
proof -
  have "b64_decode (EncodeToString bs) = Some bs"
  proof (induction bs rule: EncodeToString.induct)
    case 1
    show ?case by simp
  next
    case (2 a)
    show ?case using triple_value_bound [of a 0 0]
      by (simp add: b64_quad_def b64_value_char b64_char_plain quad_digits quad_bytes_def
          triple_bytes quad_value_tail triple_value_zeros)
  next
    case (3 a b)
    then show ?case using triple_value_bound [of a b 0]
      by (simp add: b64_quad_def b64_value_char b64_char_plain quad_digits quad_bytes_def
          triple_bytes quad_value_tail triple_value_zeros)
  next
    case (4 a b c bs)
    then show ?case using triple_value_bound [of a b c]
      by (simp add: b64_quad_def b64_value_char b64_char_plain quad_digits quad_bytes_def
          triple_bytes quad_value)
  qed
  then show ?thesis by (simp add: DecodeString_def filter_encode)
qed

section \<open>Size and alphabet\<close>

text \<open>An encoding needs no escaping in JSON, and its length is known.\<close>

lemma b64_char_safe: "n < 64 \<Longrightarrow> html_safe (of_char (b64_char n))"
  by (auto simp: b64_char_def html_safe_def)

lemma plain_encode: "plain (EncodeToString bs)"
proof (induction bs rule: EncodeToString.induct)
  case (2 a)
  then show ?case using quad_digits [OF triple_value_bound]
    by (simp add: b64_quad_def b64_char_safe) (simp add: html_safe_def)
next
  case (3 a b)
  then show ?case using quad_digits [OF triple_value_bound]
    by (simp add: b64_quad_def b64_char_safe) (simp add: html_safe_def)
next
  case (4 a b c bs)
  then show ?case using quad_digits [OF triple_value_bound]
    by (simp add: b64_quad_def b64_char_safe)
qed simp

lemma length_encode: "length (EncodeToString bs) = 4 * ((length bs + 2) div 3)"
proof (induction bs rule: EncodeToString.induct)
  case (4 a b c bs)
  have "(length (a # b # c # bs) + 2) div 3 = (length bs + 2 + 3) div 3" by simp
  also have "\<dots> = (length bs + 2) div 3 + 1" by (rule div_add_self2) simp
  finally show ?case using 4 by (simp only: EncodeToString.simps) (simp add: b64_quad_def)
qed (simp_all add: b64_quad_def)

end
