(* ===== verification/Secure_Channel.thy ===== *)
theory Secure_Channel
  imports Protocol Go_Base64 "HOL-Library.Sublist"
begin

text \<open>
  The encrypted data plane (\<^verbatim>\<open>securechannel.go\<close>): the channel's state, the wrapping of
  messages and binary frames, and the classification of message types.

  AES-256-GCM is a parameter: an \<open>aead\<close> is a pair of functions of key, nonce and data, and
  \<open>aead_ok\<close> states what the code relies on (opening what was sealed gives the plaintext, and a
  tag costs 16 bytes). A \<^verbatim>\<open>cipher.AEAD\<close> value is represented by the key it was built from,
  \<open>None\<close> being nil. \<^verbatim>\<open>json.Unmarshal\<close> into a \<^verbatim>\<open>Message\<close> is the argument \<open>unmarshal\<close>.
  The mutex makes every operation atomic, so an operation is a function of the state.
\<close>

section \<open>Cipher\<close>

record aead =
  aead_seal :: "byte list \<Rightarrow> byte list \<Rightarrow> byte list \<Rightarrow> byte list"
  aead_open :: "byte list \<Rightarrow> byte list \<Rightarrow> byte list \<Rightarrow> byte list option"

definition aead_ok :: "aead \<Rightarrow> bool" where
  "aead_ok A \<longleftrightarrow> (\<forall>k n p. aead_open A k n (aead_seal A k n p) = Some p)
     \<and> (\<forall>k n p. length (aead_seal A k n p) = length p + 16)"

text \<open>A concrete pair of functions with these laws: a tag of sixteen bytes that repeats the nonce.\<close>

definition tag_aead :: aead where
  "tag_aead = \<lparr>aead_seal = \<lambda>k n p. take 16 (n @ replicate 16 0) @ p,
     aead_open = \<lambda>k n c. if take 16 c = take 16 (n @ replicate 16 0) then Some (drop 16 c) else None\<rparr>"

lemma tag_aead_ok: "aead_ok tag_aead"
  by (auto simp: aead_ok_def tag_aead_def)

definition dirC2S :: "byte list" where
  "dirC2S = bytes_of_string ''C2S'' @ [0]"

definition dirS2C :: "byte list" where
  "dirS2C = bytes_of_string ''S2C'' @ [0]"

datatype secure_error =
  errSecureInactive | errSecureReplay | errSecureDecrypt | errSecureTooLong | errKeySize

section \<open>State\<close>

record SecureChannel =
  active :: bool
  sendKey :: "byte list"
  recvKey :: "byte list"
  sendDir :: "byte list"
  recvDir :: "byte list"
  gcmSend :: "byte list option"
  gcmRecv :: "byte list option"
  sendSeq :: u64
  recvSeq :: u64
  hasRecv :: bool

definition newGCM :: "byte list \<Rightarrow> secure_error + byte list" where
  "newGCM key = (if length key \<in> {16, 24, 32} then Inr key else Inl errKeySize)"

definition NewSecureChannel ::
  "byte list \<Rightarrow> byte list \<Rightarrow> byte list \<Rightarrow> byte list \<Rightarrow> secure_error + SecureChannel" where
  "NewSecureChannel sendK recvK sendD recvD =
    (case newGCM sendK of
       Inl e \<Rightarrow> Inl e
     | Inr gs \<Rightarrow>
         (case newGCM recvK of
            Inl e \<Rightarrow> Inl e
          | Inr gr \<Rightarrow> Inr \<lparr>active = True, sendKey = sendK, recvKey = recvK, sendDir = sendD,
              recvDir = recvD, gcmSend = Some gs, gcmRecv = Some gr, sendSeq = 0, recvSeq = 0,
              hasRecv = False\<rparr>))"

definition channel_Reset :: "SecureChannel \<Rightarrow> SecureChannel" where
  "channel_Reset c = c\<lparr>active := False, sendSeq := 0, recvSeq := 0, hasRecv := False,
     sendKey := replicate (length (sendKey c)) 0, recvKey := replicate (length (recvKey c)) 0,
     gcmSend := None, gcmRecv := None\<rparr>"

definition SeqState :: "SecureChannel \<Rightarrow> u64 \<times> u64" where
  "SeqState c = (sendSeq c, recvSeq c)"

definition makeNonce :: "byte list \<Rightarrow> u64 \<Rightarrow> byte list" where
  "makeNonce dir q = take 4 (dir @ replicate 4 0) @ put_u64 q"

section \<open>Message types\<close>

definition outerTypeFor :: "string \<Rightarrow> string" where
  "outerTypeFor innerType =
    (if HasPrefix innerType ''file_'' \<or> HasPrefix innerType ''dir_'' \<or>
        innerType = TypeFileList \<or> innerType = TypeReqPending then TypeEncFile
     else if HasPrefix innerType ''proxy_'' then TypeEncProxy
     else TypeEncTerm)"

definition isEncryptedType :: "string \<Rightarrow> bool" where
  "isEncryptedType t \<longleftrightarrow> t = TypeEncTerm \<or> t = TypeEncFile \<or> t = TypeEncProxy"

definition plaintextExemptTypes :: "string list" where
  "plaintextExemptTypes =
    [TypePakeStart, TypePakeReply, TypeSecConfirm, TypeSecOK, TypeSecureReady, TypeSecStatus,
     TypeSecCodeVerify, TypeSecCodeOK, TypeSecCodeError,
     TypeChannelSelect, TypeChannelSelected, TypeChannelFailed,
     TypePeerOnline, TypePeerOffline, TypeKicked, TypePing, TypePong,
     TypeSessionInfo]"

definition isPlaintextExempt :: "string \<Rightarrow> bool" where
  "isPlaintextExempt t \<longleftrightarrow> t \<in> set plaintextExemptTypes"

section \<open>Wrapping\<close>

definition WrapJSON ::
  "aead \<Rightarrow> Message \<Rightarrow> SecureChannel \<Rightarrow> (secure_error + Message) \<times> SecureChannel" where
  "WrapJSON A inner c =
    (let pt = marshal_message inner in
     case (active c, gcmSend c) of
       (True, Some key) \<Rightarrow>
         if SecureMaxTextPayload < length pt then (Inl errSecureTooLong, c)
         else
           let q = sendSeq c;
               ct = aead_seal A key (makeNonce (sendDir c) q) pt in
           (Inr (Message0\<lparr>Type := outerTypeFor (Type inner), Seq := q, Data := EncodeToString ct\<rparr>),
            c\<lparr>sendSeq := q + 1\<rparr>)
     | _ \<Rightarrow> (Inl errSecureInactive, c))"

definition UnwrapJSON ::
  "aead \<Rightarrow> (byte list \<Rightarrow> Message option) \<Rightarrow> Message \<Rightarrow> SecureChannel
     \<Rightarrow> (secure_error + Message) \<times> SecureChannel" where
  "UnwrapJSON A unmarshal outer c =
    (case (active c, gcmRecv c) of
       (True, Some key) \<Rightarrow>
         (case DecodeString (Data outer) of
            None \<Rightarrow> (Inl errSecureDecrypt, c)
          | Some ct \<Rightarrow>
              let q = Seq outer in
              if hasRecv c \<and> q \<le> recvSeq c then (Inl errSecureReplay, c)
              else
                (case aead_open A key (makeNonce (recvDir c) q) ct of
                   None \<Rightarrow> (Inl errSecureDecrypt, c)
                 | Some pt \<Rightarrow>
                     let c' = c\<lparr>recvSeq := q, hasRecv := True\<rparr> in
                     (case unmarshal pt of
                        None \<Rightarrow> (Inl errSecureDecrypt, c')
                      | Some inner \<Rightarrow> (Inr inner, c'))))
     | _ \<Rightarrow> (Inl errSecureInactive, c))"

text \<open>\<^verbatim>\<open>WrapBinary\<close> returns nil (\<open>None\<close>) on an inactive channel.\<close>

definition WrapBinary ::
  "aead \<Rightarrow> byte list \<Rightarrow> SecureChannel \<Rightarrow> byte list option \<times> SecureChannel" where
  "WrapBinary A frame c =
    (case (active c, gcmSend c) of
       (True, Some key) \<Rightarrow>
         let q = sendSeq c;
             ct = aead_seal A key (makeNonce (sendDir c) q) frame in
         (Some ([OpcodeSecureBinary] @ put_u64 q @ [if frame = [] then 0 else hd frame] @ ct),
          c\<lparr>sendSeq := q + 1\<rparr>)
     | _ \<Rightarrow> (None, c))"

definition UnwrapBinary ::
  "aead \<Rightarrow> byte list \<Rightarrow> SecureChannel \<Rightarrow> (secure_error + byte list) \<times> SecureChannel" where
  "UnwrapBinary A frame c =
    (case (active c, gcmRecv c) of
       (True, Some key) \<Rightarrow>
         if length frame < 11 \<or> frame ! 0 \<noteq> OpcodeSecureBinary then (Inl errSecureDecrypt, c)
         else
           let q = get_u64 (take 8 (drop 1 frame)) in
           if hasRecv c \<and> q \<le> recvSeq c then (Inl errSecureReplay, c)
           else
             (case aead_open A key (makeNonce (recvDir c) q) (drop 10 frame) of
                None \<Rightarrow> (Inl errSecureDecrypt, c)
              | Some pt \<Rightarrow> (Inr pt, c\<lparr>recvSeq := q, hasRecv := True\<rparr>))
     | _ \<Rightarrow> (Inl errSecureInactive, c))"

lemmas [unfold_ops] = WrapJSON_def UnwrapJSON_def WrapBinary_def UnwrapBinary_def

section \<open>Traffic\<close>

text \<open>What the two ends of a channel exchange: inner messages and binary frames.\<close>

datatype payload = PText Message | PBin "byte list"

datatype packet = KText Message | KBin "byte list"

fun wrap_payload :: "aead \<Rightarrow> payload \<Rightarrow> SecureChannel \<Rightarrow> packet option \<times> SecureChannel" where
  "wrap_payload A (PText m) c =
     (case WrapJSON A m c of (Inr k, c') \<Rightarrow> (Some (KText k), c') | (Inl _, c') \<Rightarrow> (None, c'))"
| "wrap_payload A (PBin f) c =
     (case WrapBinary A f c of (Some k, c') \<Rightarrow> (Some (KBin k), c') | (None, c') \<Rightarrow> (None, c'))"

fun unwrap_packet :: "aead \<Rightarrow> (byte list \<Rightarrow> Message option) \<Rightarrow> packet \<Rightarrow> SecureChannel
    \<Rightarrow> (secure_error + payload) \<times> SecureChannel" where
  "unwrap_packet A u (KText k) c =
     (case UnwrapJSON A u k c of (Inr m, c') \<Rightarrow> (Inr (PText m), c') | (Inl e, c') \<Rightarrow> (Inl e, c'))"
| "unwrap_packet A u (KBin k) c =
     (case UnwrapBinary A k c of (Inr f, c') \<Rightarrow> (Inr (PBin f), c') | (Inl e, c') \<Rightarrow> (Inl e, c'))"

text \<open>The packets a run of sends puts on the wire, each with what it carries.\<close>

fun sent :: "aead \<Rightarrow> payload list \<Rightarrow> SecureChannel \<Rightarrow> (payload \<times> packet) list" where
  "sent A [] c = []"
| "sent A (p # ps) c =
     (case wrap_payload A p c of
        (Some k, c') \<Rightarrow> (p, k) # sent A ps c'
      | (None, c') \<Rightarrow> sent A ps c')"

fun unwrap_all :: "aead \<Rightarrow> (byte list \<Rightarrow> Message option) \<Rightarrow> packet list \<Rightarrow> SecureChannel
    \<Rightarrow> (secure_error + payload) list \<times> SecureChannel" where
  "unwrap_all A u [] c = ([], c)"
| "unwrap_all A u (k # ks) c =
     (case unwrap_packet A u k c of (r, c') \<Rightarrow>
       (case unwrap_all A u ks c' of (rs, c'') \<Rightarrow> (r # rs, c'')))"

fun packet_seq :: "packet \<Rightarrow> u64" where
  "packet_seq (KText k) = Seq k"
| "packet_seq (KBin k) = get_u64 (take 8 (drop 1 k))"

section \<open>Lemmas\<close>

lemma makeNonce_inject [simp]: "makeNonce d p = makeNonce d q \<longleftrightarrow> p = q"
  by (simp add: makeNonce_def)

lemma length_makeNonce [simp]: "length (makeNonce d q) = 12"
  by (simp add: makeNonce_def)

lemma outerTypeFor_encrypted: "isEncryptedType (outerTypeFor t)"
  by (simp add: outerTypeFor_def isEncryptedType_def)

lemma exempt_not_encrypted: "isPlaintextExempt t \<Longrightarrow> \<not> isEncryptedType t"
  by (auto simp: isPlaintextExempt_def plaintextExemptTypes_def isEncryptedType_def)

definition sending :: "byte list \<Rightarrow> SecureChannel \<Rightarrow> bool" where
  "sending key c \<longleftrightarrow> active c \<and> gcmSend c = Some key"

definition receiving :: "byte list \<Rightarrow> SecureChannel \<Rightarrow> bool" where
  "receiving key c \<longleftrightarrow> active c \<and> gcmRecv c = Some key"

text \<open>What a successful wrap does, for both kinds of payload.\<close>

fun plaintext :: "payload \<Rightarrow> byte list" where
  "plaintext (PText m) = marshal_message m"
| "plaintext (PBin f) = f"

fun ciphertext :: "packet \<Rightarrow> byte list option" where
  "ciphertext (KText k) = DecodeString (Data k)"
| "ciphertext (KBin k) = Some (drop 10 k)"

lemma wrap_payload_Some:
  assumes "wrap_payload A p c = (Some k, c')"
  shows "\<exists>key. sending key c \<and> c' = c\<lparr>sendSeq := sendSeq c + 1\<rparr> \<and> packet_seq k = sendSeq c
    \<and> ciphertext k = Some (aead_seal A key (makeNonce (sendDir c) (sendSeq c)) (plaintext p))"
  using assms
  by (cases p) (auto simp: unfold_ops sending_def Let_def Message0_def split: bool.splits option.splits if_splits)

lemma wrap_payload_None: "wrap_payload A p c = (None, c') \<Longrightarrow> c' = c"
  by (cases p) (auto simp: unfold_ops Let_def split: bool.splits option.splits if_splits)

lemma unwrap_packet_Inr:
  assumes "unwrap_packet A u k c = (Inr p, c')"
  shows "(hasRecv c \<longrightarrow> recvSeq c < packet_seq k) \<and> c' = c\<lparr>recvSeq := packet_seq k, hasRecv := True\<rparr>"
  using assms
  by (cases k) (auto simp: unfold_ops Let_def not_le split: bool.splits option.splits if_splits)

lemma unwrap_packet_Inl:
  assumes "unwrap_packet A u k c = (Inl e, c')"
  shows "c' = c \<or> (hasRecv c \<longrightarrow> recvSeq c < packet_seq k) \<and>
     c' = c\<lparr>recvSeq := packet_seq k, hasRecv := True\<rparr> \<and> e = errSecureDecrypt"
  using assms
  by (cases k) (auto simp: unfold_ops Let_def not_le split: bool.splits option.splits if_splits)

text \<open>
  What a payload is at the other end: a frame is the frame; a message is what \<open>unmarshal\<close> makes of the
  bytes it was marshalled to, or an error. When these bytes read back as the message (\<^verbatim>\<open>json\<close> does so
  unless a string of it is not valid UTF-8), it is the message.
\<close>

fun delivered :: "(byte list \<Rightarrow> Message option) \<Rightarrow> payload \<Rightarrow> secure_error + payload" where
  "delivered u (PText m) =
     (case u (marshal_message m) of None \<Rightarrow> Inl errSecureDecrypt | Some m' \<Rightarrow> Inr (PText m'))"
| "delivered u (PBin f) = Inr (PBin f)"

lemma delivered_readable: "u (marshal_message m) = Some m \<Longrightarrow> delivered u (PText m) = Inr (PText m)"
  by simp

definition paired :: "SecureChannel \<Rightarrow> SecureChannel \<Rightarrow> bool" where
  "paired s r \<longleftrightarrow> active s \<and> active r \<and> gcmRecv r = gcmSend s \<and> recvDir r = sendDir s"

lemma unwrap_wrapped:
  assumes A: "aead_ok A" and "paired s r"
    and fresh: "hasRecv r \<longrightarrow> recvSeq r < sendSeq s"
    and wrap: "wrap_payload A p s = (Some k, s')"
  shows "unwrap_packet A u k r = (delivered u p, r\<lparr>recvSeq := sendSeq s, hasRecv := True\<rparr>)"
proof -
  have seal: "aead_open A key n (aead_seal A key n d) = Some d"
    "length (aead_seal A key n d) = length d + 16" for key n d
    using A by (auto simp: aead_ok_def)
  show ?thesis
    using assms(2-)
    by (cases p) (auto simp: unfold_ops paired_def Let_def Message0_def seal not_le
        split: bool.splits option.splits if_splits)
qed

lemma sent_seqs:
  "map (packet_seq \<circ> snd) (sent A ps c)
     = map (\<lambda>i. sendSeq c + of_nat i) [0..<length (sent A ps c)]"
proof (induction ps arbitrary: c)
  case (Cons p ps)
  show ?case
  proof (cases "wrap_payload A p c")
    case (Pair ok c')
    show ?thesis
    proof (cases ok)
      case None
      with Pair have "c' = c" by (auto dest: wrap_payload_None)
      with Cons Pair None show ?thesis by simp
    next
      case (Some k)
      from wrap_payload_Some [OF Pair [unfolded Some]]
      have "packet_seq k = sendSeq c" "sendSeq c' = sendSeq c + 1" by auto
      moreover have "map (\<lambda>i. sendSeq c + 1 + of_nat i) [0..<n]
          = map (\<lambda>i. sendSeq c + of_nat i) [Suc 0..<Suc n]" for n
        by (simp only: map_Suc_upt [symmetric] map_map) (simp add: comp_def add_ac)
      ultimately show ?thesis
        using Cons [of c'] Pair Some by (simp add: upt_conv_Cons del: upt_Suc)
    qed
  qed
qed simp

lemma length_sent: "length (sent A ps c) \<le> length ps"
  by (induction ps arbitrary: c) (auto split: prod.splits option.splits intro: le_SucI)

lemma sent_sealed:
  "(p, k) \<in> set (sent A ps c) \<Longrightarrow> \<exists>key. gcmSend c = Some key \<and>
     ciphertext k = Some (aead_seal A key (makeNonce (sendDir c) (packet_seq k)) (plaintext p))"
proof (induction ps arbitrary: c)
  case (Cons q ps)
  show ?case
  proof (cases "wrap_payload A q c")
    case (Pair ok c')
    show ?thesis
    proof (cases ok)
      case None
      with Cons Pair show ?thesis by (auto dest: wrap_payload_None)
    next
      case (Some k')
      then obtain key where key: "gcmSend c = Some key" "c' = c\<lparr>sendSeq := sendSeq c + 1\<rparr>"
        "packet_seq k' = sendSeq c" "ciphertext k' =
          Some (aead_seal A key (makeNonce (sendDir c) (sendSeq c)) (plaintext q))"
        using wrap_payload_Some [OF Pair [unfolded Some]] by (auto simp: sending_def)
      have "(p, k) = (q, k') \<or> (p, k) \<in> set (sent A ps c')"
        using Cons.prems Pair Some by simp
      then show ?thesis
      proof
        assume "(p, k) \<in> set (sent A ps c')"
        from Cons.IH [OF this] key show ?thesis by simp
      qed (use key in simp)
    qed
  qed
qed simp

text \<open>Receiving any part of what was sent, in order, when the receiver is not ahead of the sender.\<close>

lemma unwrap_sent:
  assumes "aead_ok A" and "paired s r"
    and "hasRecv r \<longrightarrow> recvSeq r < sendSeq s" and "unat (sendSeq s) + length ps < 2 ^ 64"
    and "subseq ys (sent A ps s)"
  shows "fst (unwrap_all A u (map snd ys) r) = map (delivered u \<circ> fst) ys"
  using assms(2-)
proof (induction ps arbitrary: s r ys)
  case Nil
  then have "ys = []" by simp
  then show ?case by simp
next
  case (Cons p ps)
  show ?case
  proof (cases "wrap_payload A p s")
    case (Pair ok s')
    show ?thesis
    proof (cases ok)
      case None
      with Cons Pair show ?thesis by (auto dest: wrap_payload_None)
    next
      case (Some k)
      from wrap_payload_Some [OF Pair [unfolded Some]]
      have s': "s' = s\<lparr>sendSeq := sendSeq s + 1\<rparr>" by auto
      have next_seq: "unat (sendSeq s + 1) = unat (sendSeq s) + 1"
        using Cons.prems(3) by (simp add: unat_word_ariths)
      then have lt: "sendSeq s < sendSeq s + 1" by (simp add: word_less_nat_alt)
      have sub: "subseq ys ((p, k) # sent A ps s')" using Cons.prems(4) Pair Some by simp
      show ?thesis
      proof (cases "\<exists>zs. ys = (p, k) # zs \<and> subseq zs (sent A ps s')")
        case True
        then obtain zs where zs: "ys = (p, k) # zs" "subseq zs (sent A ps s')" by blast
        let ?r = "r\<lparr>recvSeq := sendSeq s, hasRecv := True\<rparr>"
        have "unwrap_packet A u k r = (delivered u p, ?r)"
          using Cons.prems Pair Some by (intro unwrap_wrapped [OF assms(1)]) auto
        moreover have "fst (unwrap_all A u (map snd zs) ?r) = map (delivered u \<circ> fst) zs"
          using Cons.prems zs(2) s' lt next_seq
          by (intro Cons.IH [of s']) (auto simp: paired_def)
        ultimately show ?thesis using zs by (auto split: prod.splits)
      next
        case False
        with sub have "subseq ys (sent A ps s')" by (auto elim: list_emb.cases)
        then show ?thesis
          using Cons.prems s' lt next_seq
          by (intro Cons.IH [of s']) (auto simp: paired_def intro: order.strict_trans)
      qed
    qed
  qed
qed

text \<open>The sequence numbers of the packets a receiver accepts, whatever arrives.\<close>

fun accepted :: "aead \<Rightarrow> (byte list \<Rightarrow> Message option) \<Rightarrow> packet list \<Rightarrow> SecureChannel \<Rightarrow> u64 list" where
  "accepted A u [] c = []"
| "accepted A u (k # ks) c =
     (case unwrap_packet A u k c of
        (Inr _, c') \<Rightarrow> packet_seq k # accepted A u ks c'
      | (Inl _, c') \<Rightarrow> accepted A u ks c')"

lemma unwrap_packet_mono:
  assumes "unwrap_packet A u k c = (r, c')"
  shows "active c' = active c \<and> gcmRecv c' = gcmRecv c \<and> recvDir c' = recvDir c \<and>
    (hasRecv c \<longrightarrow> hasRecv c' \<and> recvSeq c \<le> recvSeq c')"
proof (cases r)
  case (Inl e)
  with unwrap_packet_Inl [of A u k c e c'] assms show ?thesis by auto
next
  case (Inr p)
  with unwrap_packet_Inr [of A u k c p c'] assms show ?thesis by auto
qed

lemma accepted_above: "hasRecv c \<Longrightarrow> q \<in> set (accepted A u ks c) \<Longrightarrow> recvSeq c < q"
proof (induction ks arbitrary: c)
  case (Cons k ks)
  obtain r c' where r: "unwrap_packet A u k c = (r, c')" by fastforce
  note mono = unwrap_packet_mono [OF r]
  show ?case
  proof (cases r)
    case (Inl e)
    with Cons.prems(2) r have "q \<in> set (accepted A u ks c')" by simp
    with Cons.IH [of c'] mono Cons.prems(1) show ?thesis by (meson order.strict_trans1)
  next
    case (Inr p)
    with unwrap_packet_Inr [of A u k c p c'] r have "recvSeq c < packet_seq k"
      "recvSeq c' = packet_seq k" "hasRecv c'" using Cons.prems by auto
    moreover have "q = packet_seq k \<or> q \<in> set (accepted A u ks c')" using Cons.prems(2) r Inr by simp
    ultimately show ?thesis using Cons.IH [of c'] by (metis order.strict_trans)
  qed
qed simp

lemma accepted_sorted: "sorted_wrt (<) (accepted A u ks c)"
proof (induction ks arbitrary: c)
  case (Cons k ks)
  obtain r c' where r: "unwrap_packet A u k c = (r, c')" by fastforce
  show ?case
  proof (cases r)
    case (Inr p)
    with unwrap_packet_Inr [of A u k c p c'] r have "recvSeq c' = packet_seq k" "hasRecv c'" by auto
    with Cons r Inr show ?thesis by (auto dest: accepted_above)
  qed (use Cons r in simp)
qed simp

lemma unwrap_all_mono:
  "active (snd (unwrap_all A u ks c)) = active c \<and> gcmRecv (snd (unwrap_all A u ks c)) = gcmRecv c \<and>
   (hasRecv c \<longrightarrow> hasRecv (snd (unwrap_all A u ks c)) \<and> recvSeq c \<le> recvSeq (snd (unwrap_all A u ks c)))"
proof (induction ks arbitrary: c)
  case (Cons k ks)
  obtain r c' where r: "unwrap_packet A u k c = (r, c')" by fastforce
  from unwrap_packet_mono [OF r] Cons [of c'] r show ?case by (auto split: prod.splits)
qed simp

section \<open>Sizes\<close>

lemma length_outer:
  assumes "outer = Message0\<lparr>Type := outerTypeFor t, Seq := q, Data := EncodeToString ct\<rparr>"
  shows "length (marshal_message outer) \<le> 4 * ((length ct + 2) div 3) + 118"
proof -
  have "length (json_string (outerTypeFor t)) \<le> 11"
    by (simp add: outerTypeFor_def html_safe_def)
  then show ?thesis
    using length_json_u64 [of q] plain_encode [of ct] length_encode [of ct]
    by (simp add: assms marshal_message_def Message_json_def Message0_def opt_field_defs
        length_comma_join html_safe_def)
qed

section \<open>Properties\<close>

text \<open>
  C8: The channel carries its payloads. Whatever is sent, messages and binary frames in any
  mixture and oversized messages refused in between, a receiver that holds the matching key
  and direction and is not ahead of the sender decodes any part of the packets delivered in
  order to what they were made from: a frame to the frame, a message to what \<open>unmarshal\<close> (\<^verbatim>\<open>json.Unmarshal\<close>,
  a parameter) makes of the bytes it was marshalled to, which is the message whenever those bytes read
  back as it. Losing packets costs only those packets, and so does a message that does not unmarshal.
  (The AEAD opens what it sealed, and the sender has not used up its 64-bit sequence numbers.)
\<close>

theorem secure_stream_roundtrip:
  assumes "aead_ok A" and "paired s r"
    and "hasRecv r \<longrightarrow> recvSeq r < sendSeq s" and "unat (sendSeq s) + length ps < 2 ^ 64"
    and "subseq ys (sent A ps s)"
  shows "fst (unwrap_all A u (map snd ys) r) = map (delivered u \<circ> fst) ys"
  using assms by (rule unwrap_sent)

definition demo_channels :: "SecureChannel \<times> SecureChannel" where
  "demo_channels =
    (case (NewSecureChannel (replicate 32 1) (replicate 32 2) dirS2C dirC2S,
           NewSecureChannel (replicate 32 2) (replicate 32 1) dirC2S dirS2C) of
       (Inr d, Inr a) \<Rightarrow> (d, a))"

lemma demo_channels:
  "paired (fst demo_channels) (snd demo_channels)" "\<not> hasRecv (snd demo_channels)"
  "sendSeq (fst demo_channels) = 0"
  "wrap_payload tag_aead (PBin f) (fst demo_channels) \<noteq> (None, c)"
  by (simp_all add: demo_channels_def NewSecureChannel_def newGCM_def paired_def WrapBinary_def Let_def)

text \<open>Two messages and a frame between them; the frame is lost.\<close>

theorem secure_stream_roundtrip_witness:
  "let ping = Message0\<lparr>Type := TypePing\<rparr>; u = (\<lambda>b. if b = marshal_message ping then Some ping else None) in
   \<exists>ys. subseq ys (sent tag_aead [PText ping, PBin [1], PText ping] (fst demo_channels))
     \<and> map fst ys = [PText ping, PText ping]
     \<and> fst (unwrap_all tag_aead u (map snd ys) (snd demo_channels)) = [Inr (PText ping), Inr (PText ping)]"
proof -
  let ?ping = "Message0\<lparr>Type := TypePing\<rparr>"
  let ?u = "\<lambda>b. if b = marshal_message ?ping then Some ?ping else None"
  let ?ps = "[PText ?ping, PBin [1], PText ?ping]"
  have small: "\<not> 24000 < length (marshal_message ?ping)"
    by (simp add: marshal_message_def Message_json_def Message0_def opt_field_defs length_comma_join html_safe_def)
  obtain k1 k2 k3 where k: "sent tag_aead ?ps (fst demo_channels)
      = [(PText ?ping, k1), (PBin [1], k2), (PText ?ping, k3)]"
    using small by (simp add: demo_channels_def NewSecureChannel_def newGCM_def WrapBinary_def WrapJSON_def Let_def)
  have "fst (unwrap_all tag_aead ?u (map snd [(PText ?ping, k1), (PText ?ping, k3)]) (snd demo_channels))
      = map (delivered ?u \<circ> fst) [(PText ?ping, k1), (PText ?ping, k3)]"
    by (rule secure_stream_roundtrip [OF tag_aead_ok demo_channels(1), of ?ps])
      (use demo_channels k in \<open>simp_all del: sent.simps\<close>)
  then show ?thesis
    unfolding Let_def k by (intro exI [of _ "[(PText ?ping, k1), (PText ?ping, k3)]"]) simp
qed

text \<open>
  C9: Replay protection. Whatever packets arrive, in whatever state, the accepted ones have
  strictly increasing sequence numbers; and a packet that was accepted once is refused as a
  replay ever after, whatever arrived in between.
\<close>

theorem secure_no_replay:
  assumes "unwrap_packet A u k c = (Inr p, c')"
  shows "sorted_wrt (<) (accepted A u ks c)
    \<and> fst (unwrap_packet A u k (snd (unwrap_all A u ks c'))) = Inl errSecureReplay"
proof -
  let ?d = "snd (unwrap_all A u ks c')"
  have c': "hasRecv c'" "recvSeq c' = packet_seq k" "active c' = active c" "gcmRecv c' = gcmRecv c"
    using unwrap_packet_Inr [OF assms] by auto
  then have d: "active ?d = active c" "gcmRecv ?d = gcmRecv c" "hasRecv ?d" "packet_seq k \<le> recvSeq ?d"
    using unwrap_all_mono [of A u ks c'] by auto
  have "fst (unwrap_packet A u k ?d) = Inl errSecureReplay"
    using assms d
    by (cases k) (auto simp: unfold_ops Let_def split: bool.splits option.splits if_splits)
  then show ?thesis by (simp add: accepted_sorted)
qed

theorem secure_no_replay_witness:
  "\<exists>k. fst (unwrap_packet tag_aead (\<lambda>_. None) k (snd demo_channels)) = Inr (PBin [7])
     \<and> fst (unwrap_packet tag_aead (\<lambda>_. None) k (snd (unwrap_all tag_aead (\<lambda>_. None) []
          (snd (unwrap_packet tag_aead (\<lambda>_. None) k (snd demo_channels)))))) = Inl errSecureReplay"
proof -
  obtain k where k: "sent tag_aead [PBin [7]] (fst demo_channels) = [(PBin [7], k)]"
    by (simp add: demo_channels_def NewSecureChannel_def newGCM_def WrapBinary_def Let_def)
  have "fst (unwrap_all tag_aead (\<lambda>_. None) (map snd [(PBin [7], k)]) (snd demo_channels))
      = map (delivered (\<lambda>_. None) \<circ> fst) [(PBin [7], k)]"
    using demo_channels
    by (intro unwrap_sent [OF tag_aead_ok demo_channels(1), of "[PBin [7]]"]) (simp_all only: k, simp_all)
  then have *: "fst (unwrap_packet tag_aead (\<lambda>_. None) k (snd demo_channels)) = Inr (PBin [7])"
    by (simp split: prod.splits)
  then obtain c' where "unwrap_packet tag_aead (\<lambda>_. None) k (snd demo_channels) = (Inr (PBin [7]), c')"
    by (metis prod.collapse)
  from secure_no_replay [OF this, of "[]"] * this show ?thesis by (intro exI [of _ k]) simp
qed

text \<open>
  C10: No nonce is used twice. All packets one channel seals, text and binary together, are
  sealed under its one key with the nonce of their sequence number, and these nonces are
  distinct for any run of up to 2^64 payloads.
\<close>

theorem secure_nonces_unique:
  assumes "length ps \<le> 2 ^ 64"
  shows "distinct (map (\<lambda>(p, k). makeNonce (sendDir c) (packet_seq k)) (sent A ps c))
    \<and> (\<forall>(p, k) \<in> set (sent A ps c). \<exists>key. gcmSend c = Some key \<and> ciphertext k =
         Some (aead_seal A key (makeNonce (sendDir c) (packet_seq k)) (plaintext p)))"
proof -
  let ?n = "length (sent A ps c)"
  have n: "?n \<le> 2 ^ 64" using length_sent [of A ps c] assms by (rule order_trans)
  have inj: "unat (word_of_nat k :: u64) = k" if "k < 2 ^ 64" for k
    using that by (simp add: unat_of_nat)
  have "inj_on (\<lambda>i. sendSeq c + of_nat i) {0..<?n}"
  proof (rule inj_onI)
    fix i j
    assume ij: "i \<in> {0..<?n}" "j \<in> {0..<?n}"
      and "sendSeq c + word_of_nat i = sendSeq c + word_of_nat j"
    then have "(word_of_nat i :: u64) = word_of_nat j" by simp
    moreover have "i < 2 ^ 64" "j < 2 ^ 64" using ij n by auto
    ultimately show "i = j" by (metis inj)
  qed
  then have "distinct (map (packet_seq \<circ> snd) (sent A ps c))"
    by (simp only: sent_seqs distinct_map set_upt distinct_upt simp_thms)
  then have "distinct (map (makeNonce (sendDir c)) (map (packet_seq \<circ> snd) (sent A ps c)))"
    by (subst distinct_map) (simp add: inj_on_def)
  then show ?thesis using sent_sealed by (auto simp: comp_def case_prod_unfold)
qed

theorem secure_nonces_unique_witness:
  "distinct (map (\<lambda>(p, k). makeNonce (sendDir (fst demo_channels)) (packet_seq k))
     (sent tag_aead [PBin [1], PBin [1]] (fst demo_channels)))"
  using secure_nonces_unique [of "[PBin [1], PBin [1]]" "fst demo_channels" tag_aead] by simp

text \<open>
  The size arithmetic of the limits. A message the channel accepts becomes an envelope of
  at most 32768 bytes, the limit \<^verbatim>\<open>SecureMaxTextPayload\<close> was derived from, and a binary frame
  grows by exactly \<^verbatim>\<open>SecureBinaryOverhead\<close> bytes and keeps its opcode readable at offset 9.
\<close>

theorem secure_sizes:
  assumes "aead_ok A"
  shows "(WrapJSON A m c = (Inr outer, c') \<longrightarrow> length (marshal_message outer) \<le> 32 * 1024)
    \<and> (WrapBinary A frame c = (Some out, c') \<longrightarrow>
         length out = length frame + SecureBinaryOverhead \<and> out ! 0 = OpcodeSecureBinary
         \<and> (frame \<noteq> [] \<longrightarrow> out ! 9 = frame ! 0))"
proof -
  have seal: "length (aead_seal A key n d) = length d + 16" for key n d
    using assms by (simp add: aead_ok_def)
  have "length (marshal_message outer) \<le> 32 * 1024" if w: "WrapJSON A m c = (Inr outer, c')"
  proof -
    obtain key where "length (marshal_message m) \<le> 24000"
      "outer = Message0\<lparr>Type := outerTypeFor (Type m), Seq := sendSeq c,
         Data := EncodeToString (aead_seal A key (makeNonce (sendDir c) (sendSeq c)) (marshal_message m))\<rparr>"
      using w by (auto simp: WrapJSON_def Let_def split: bool.splits option.splits if_splits)
    with length_outer [OF this(2)] seal show ?thesis
      by (simp add: div_le_mono order_trans)
  qed
  moreover have "length out = length frame + SecureBinaryOverhead \<and> out ! 0 = OpcodeSecureBinary
      \<and> (frame \<noteq> [] \<longrightarrow> out ! 9 = frame ! 0)" if "WrapBinary A frame c = (Some out, c')"
    using that by (auto simp: WrapBinary_def Let_def seal nth_append hd_conv_nth
        split: bool.splits option.splits if_splits)
  ultimately show ?thesis by blast
qed

theorem secure_sizes_witness:
  "\<exists>out. fst (WrapBinary tag_aead [5, 9] (fst demo_channels)) = Some out \<and> length out = 28"
proof -
  have "fst (WrapBinary tag_aead [5, 9] (fst demo_channels)) \<noteq> None"
    by (simp add: demo_channels_def NewSecureChannel_def newGCM_def WrapBinary_def Let_def)
  then obtain out c' where "WrapBinary tag_aead [5, 9] (fst demo_channels) = (Some out, c')"
    by (metis not_Some_eq prod.collapse)
  with secure_sizes [OF tag_aead_ok] show ?thesis by fastforce
qed

end
