(* ===== verification/Secure_Handshake.thy ===== *)
theory Secure_Handshake
  imports Spake2 Secure_Channel
begin

text \<open>
  The daemon's side of the handshake and its security state (\<^verbatim>\<open>secure_handshake.go\<close>,
  \<^verbatim>\<open>isValidSecCode\<close> of \<^verbatim>\<open>security_code.go\<close>): the single-slot exchange, the budget of
  guesses, and the activation and teardown of the encrypted channel. A handler maps the state
  to the messages it passes to \<^verbatim>\<open>sendJSON\<close>, in order and all after its state changes, and the
  new state. What \<^verbatim>\<open>LoadSecurityCode\<close> returns and the random scalar are arguments.
\<close>

section \<open>State\<close>

definition isValidSecCode :: "string \<Rightarrow> bool" where
  "isValidSecCode code \<longleftrightarrow> length code = 6 \<and>
     list_all (\<lambda>c. \<not> ((of_char c :: nat) < 48 \<or> 57 < (of_char c :: nat))) code"

record secure_state =
  secure :: "SecureChannel option"
  pakeServer :: "Spake2State option"
  pakeSid :: "byte list option"
  pakeAccessKey :: string
  pakeTimer :: bool
  secCodeEnabled :: bool
  secCodeVerified :: bool
  secCodeAttemptsLeft :: int
  exitScheduled :: bool

text \<open>The curve, the digests and the two generators computed at start-up.\<close>

record pake_env =
  pe_curve :: curve
  pe_hashes :: hashes
  pe_MN :: "ecPoint \<times> ecPoint"

definition secure_state0 :: "bool \<Rightarrow> secure_state" where
  "secure_state0 enabled = \<lparr>secure = None, pakeServer = None, pakeSid = None, pakeAccessKey = [],
     pakeTimer = False, secCodeEnabled = enabled, secCodeVerified = False,
     secCodeAttemptsLeft = MaxSecCodeAttempts, exitScheduled = False\<rparr>"

section \<open>Handlers\<close>

definition handlePakeStart ::
  "pake_env \<Rightarrow> string \<Rightarrow> string \<Rightarrow> int \<Rightarrow> Message \<Rightarrow> secure_state \<Rightarrow> Message list \<times> secure_state" where
  "handlePakeStart E loaded accessKey y msg s =
    (let code = (if loaded = [] then defaultSecCode else loaded) in
     case DecodeString (Pa msg) of
       None \<Rightarrow> ([], s)
     | Some pa \<Rightarrow>
       (case DecodeString (Sid msg) of
          None \<Rightarrow> ([], s)
        | Some sid \<Rightarrow>
          if length sid \<noteq> 16 then ([], s)
          else
            let w = scalarFromPassword (pe_curve E) (pe_hashes E) code in
            (case newSpake2StateFixed (pe_curve E) (pe_MN E) False w y of
               Inl e \<Rightarrow> ([], s)
             | Inr server \<Rightarrow>
               (case SetPeerShare (pe_curve E) pa server of
                  Inl e \<Rightarrow> ([], s)
                | Inr server' \<Rightarrow>
                    ([Message0\<lparr>Type := TypePakeReply, Sid := Sid msg,
                        Pb := EncodeToString (case Share server' of Some b \<Rightarrow> b | None \<Rightarrow> [])\<rparr>],
                     s\<lparr>pakeServer := Some server', pakeSid := Some sid, pakeAccessKey := accessKey,
                       pakeTimer := True\<rparr>)))))"

text \<open>The function that \<^verbatim>\<open>time.AfterFunc\<close> runs after ten seconds.\<close>

definition pake_timeout :: "secure_state \<Rightarrow> secure_state" where
  "pake_timeout s = s\<lparr>pakeServer := None, pakeSid := None\<rparr>"

definition confirm_ok :: "pake_env \<Rightarrow> Message \<Rightarrow> spake2Error + Spake2Keys \<Rightarrow> byte list option \<Rightarrow> bool" where
  "confirm_ok E msg r tt =
    (case (r, DecodeString (TagA msg), tt) of
       (Inr keys, Some tag, Some t) \<Rightarrow>
         length tag = 16 \<and> VerifyTag tag (TagA_of (pe_hashes E) keys t)
     | _ \<Rightarrow> False)"

definition handleSecConfirm :: "pake_env \<Rightarrow> Message \<Rightarrow> secure_state \<Rightarrow> Message list \<times> secure_state" where
  "handleSecConfirm E msg s =
    (case (pakeServer s, pakeSid s) of
       (Some server, Some sid) \<Rightarrow>
         (case Finish (pe_curve E) (pe_hashes E) (pe_MN E) sid (pakeAccessKey s) server of
            (r, server') \<Rightarrow>
              let s1 = s\<lparr>pakeTimer := False, pakeServer := None, pakeSid := None\<rparr> in
              if \<not> confirm_ok E msg r (sp_tt server') then
                (let remaining = (if secCodeEnabled s then secCodeAttemptsLeft s - 1
                                  else MaxSecCodeAttempts);
                     s2 = (if secCodeEnabled s then s1\<lparr>secCodeAttemptsLeft := remaining\<rparr> else s1) in
                 ([Message0\<lparr>Type := TypeSecCodeError, RemainingAttempts := remaining\<rparr>],
                  s2\<lparr>exitScheduled := exitScheduled s \<or> remaining \<le> 0\<rparr>))
              else
                (case (r, sp_tt server') of
                   (Inr keys, Some t) \<Rightarrow>
                     (case NewSecureChannel (Ks2c keys) (Kc2s keys) dirS2C dirC2S of
                        Inl e \<Rightarrow> ([], s1)
                      | Inr sc \<Rightarrow>
                          ([Message0\<lparr>Type := TypeSecOK,
                              TagB := EncodeToString (TagB_of (pe_hashes E) keys t)\<rparr>,
                            Message0\<lparr>Type := TypeSecureReady\<rparr>],
                           s1\<lparr>secure := Some sc, secCodeVerified := True,
                             secCodeAttemptsLeft := MaxSecCodeAttempts\<rparr>))
                 | _ \<Rightarrow> ([], s1)))
     | _ \<Rightarrow> ([], s))"

text \<open>\<^verbatim>\<open>resetSecure\<close> without its reset of the output batcher, which the daemon adds.\<close>

definition resetSecure :: "secure_state \<Rightarrow> secure_state" where
  "resetSecure s = s\<lparr>secure := None, pakeTimer := False, pakeServer := None, pakeSid := None\<rparr>"

definition secureActive :: "secure_state \<Rightarrow> bool" where
  "secureActive s = (case secure s of None \<Rightarrow> False | Some sc \<Rightarrow> active sc)"

section \<open>Wrapping\<close>

text \<open>\<open>None\<close> is the nil message: dropped, never sent in the clear.\<close>

definition wrapOutgoingJSON :: "aead \<Rightarrow> Message \<Rightarrow> secure_state \<Rightarrow> Message option \<times> secure_state" where
  "wrapOutgoingJSON A msg s =
    (if \<not> secureActive s \<or> isPlaintextExempt (Type msg) then (Some msg, s)
     else
       (case secure s of
          None \<Rightarrow> (Some msg, s)
        | Some sc \<Rightarrow>
            (case WrapJSON A msg sc of
               (Inl e, sc') \<Rightarrow> (None, s\<lparr>secure := Some sc'\<rparr>)
             | (Inr wrapped, sc') \<Rightarrow> (Some wrapped, s\<lparr>secure := Some sc'\<rparr>))))"

definition unwrapIncomingJSON ::
  "aead \<Rightarrow> (byte list \<Rightarrow> Message option) \<Rightarrow> Message \<Rightarrow> secure_state \<Rightarrow> Message option \<times> secure_state" where
  "unwrapIncomingJSON A u msg s =
    (if \<not> isEncryptedType (Type msg) then (Some msg, s)
     else if \<not> secureActive s then (None, s)
     else
       (case secure s of
          None \<Rightarrow> (None, s)
        | Some sc \<Rightarrow>
            (case UnwrapJSON A u msg sc of
               (Inl e, sc') \<Rightarrow> (None, s\<lparr>secure := Some sc'\<rparr>)
             | (Inr inner, sc') \<Rightarrow> (Some inner, s\<lparr>secure := Some sc'\<rparr>))))"

definition wrapOutgoingBinary :: "aead \<Rightarrow> byte list \<Rightarrow> secure_state \<Rightarrow> byte list \<times> secure_state" where
  "wrapOutgoingBinary A frame s =
    (if \<not> secureActive s then (frame, s)
     else
       (case secure s of
          None \<Rightarrow> (frame, s)
        | Some sc \<Rightarrow>
            (case WrapBinary A frame sc of
               (None, sc') \<Rightarrow> ([], s\<lparr>secure := Some sc'\<rparr>)
             | (Some out, sc') \<Rightarrow> (out, s\<lparr>secure := Some sc'\<rparr>))))"

definition unwrapIncomingBinary ::
  "aead \<Rightarrow> byte list \<Rightarrow> secure_state \<Rightarrow> byte list option \<times> secure_state" where
  "unwrapIncomingBinary A frame s =
    (if frame \<noteq> [] \<and> hd frame = OpcodeSecureBinary then
       (if \<not> secureActive s then (None, s)
        else
          (case secure s of
             None \<Rightarrow> (None, s)
           | Some sc \<Rightarrow>
               (case UnwrapBinary A frame sc of
                  (Inl e, sc') \<Rightarrow> (None, s\<lparr>secure := Some sc'\<rparr>)
                | (Inr pt, sc') \<Rightarrow> (Some pt, s\<lparr>secure := Some sc'\<rparr>))))
     else if secureActive s then (None, s)
     else (Some frame, s))"

section \<open>Runs\<close>

text \<open>
  The local user sets or clears the code (\<^verbatim>\<open>TypeSetSecCode\<close> and \<^verbatim>\<open>TypeUnsetSecCode\<close> of
  \<^verbatim>\<open>local_server.go\<close>, after the file has been written): neither touches the budget, the channel or a
  pending exchange.
\<close>

definition sec_code_set :: "secure_state \<Rightarrow> secure_state" where
  "sec_code_set s = s\<lparr>secCodeEnabled := True, secCodeVerified := False\<rparr>"

definition sec_code_unset :: "secure_state \<Rightarrow> secure_state" where
  "sec_code_unset s = s\<lparr>secCodeEnabled := False\<rparr>"

text \<open>
  Everything that changes the security state: the two handshake messages, the timeout, a
  reset of the channel (with the verified flag for a new peer or a switch to P2P), and the
  setting or clearing of the code by the local user.
\<close>

datatype sec_event =
    EvPakeStart string int Message
  | EvSecConfirm Message
  | EvTimeout
  | EvReset bool
  | EvSetCode
  | EvUnsetCode

fun sec_step :: "pake_env \<Rightarrow> string \<Rightarrow> sec_event \<Rightarrow> secure_state \<Rightarrow> Message list \<times> secure_state" where
  "sec_step E ak (EvPakeStart code y msg) s = handlePakeStart E code ak y msg s"
| "sec_step E ak (EvSecConfirm msg) s = handleSecConfirm E msg s"
| "sec_step E ak EvTimeout s = ([], pake_timeout s)"
| "sec_step E ak (EvReset unverify) s =
     ([], resetSecure (if unverify then s\<lparr>secCodeVerified := False\<rparr> else s))"
| "sec_step E ak EvSetCode s = ([], sec_code_set s)"
| "sec_step E ak EvUnsetCode s = ([], sec_code_unset s)"

fun sec_run :: "pake_env \<Rightarrow> string \<Rightarrow> sec_event list \<Rightarrow> secure_state \<Rightarrow> Message list \<times> secure_state" where
  "sec_run E ak [] s = ([], s)"
| "sec_run E ak (e # es) s =
     (case sec_step E ak e s of (ms, s') \<Rightarrow>
       (case sec_run E ak es s' of (ns, s'') \<Rightarrow> (ms @ ns, s'')))"

lemmas [unfold_ops] = handlePakeStart_def handleSecConfirm_def pake_timeout_def resetSecure_def
  sec_code_set_def sec_code_unset_def

lemma Message0_Type [simp]: "Type (Message0\<lparr>Type := t\<rparr>) = t"
  by simp

section \<open>Budget\<close>

definition failures :: "Message list \<Rightarrow> nat" where
  "failures ms = length (filter (\<lambda>m. Type m = TypeSecCodeError) ms)"

definition successes :: "Message list \<Rightarrow> nat" where
  "successes ms = length (filter (\<lambda>m. Type m = TypeSecOK) ms)"

lemma failures_simps [simp]:
  "failures [] = 0" "failures (ms @ ns) = failures ms + failures ns"
  "successes [] = 0" "successes (ms @ ns) = successes ms + successes ns"
  by (simp_all add: failures_def successes_def)

definition starts :: "sec_event list \<Rightarrow> nat" where
  "starts es = length (filter (\<lambda>e. case e of EvPakeStart _ _ _ \<Rightarrow> True | _ \<Rightarrow> False) es)"

definition pending :: "secure_state \<Rightarrow> nat" where
  "pending s = (if pakeServer s = None then 0 else 1)"

text \<open>
  The rejections in a row that count: how many since the last success, and the most there ever were.
  A rejection while no code is set does not count.
\<close>

definition charged :: "secure_state \<Rightarrow> Message list \<Rightarrow> nat \<Rightarrow> nat" where
  "charged s ms k = (if 0 < successes ms then 0 else if secCodeEnabled s then k + failures ms else k)"

fun streak :: "pake_env \<Rightarrow> string \<Rightarrow> sec_event list \<Rightarrow> secure_state \<Rightarrow> nat \<Rightarrow> nat \<Rightarrow> nat \<times> nat" where
  "streak E ak [] s k high = (k, high)"
| "streak E ak (e # es) s k high =
     (case sec_step E ak e s of (ms, s') \<Rightarrow>
        streak E ak es s' (charged s ms k) (max high (charged s ms k)))"

definition budget_ok :: "secure_state \<Rightarrow> nat \<Rightarrow> nat \<Rightarrow> bool" where
  "budget_ok s k high \<longleftrightarrow> secCodeAttemptsLeft s = MaxSecCodeAttempts - int k
     \<and> (exitScheduled s \<longleftrightarrow> MaxSecCodeAttempts \<le> int high) \<and> k \<le> high"

lemma sec_step_budget:
  assumes "sec_step E ak e s = (ms, s')" and "budget_ok s k high"
  shows "budget_ok s' (charged s ms k) (max high (charged s ms k))"
proof (cases e)
  case (EvPakeStart code y msg)
  with assms show ?thesis
    by (auto simp: handlePakeStart_def Let_def failures_def successes_def charged_def budget_ok_def
        split: option.splits sum.splits if_splits)
next
  case (EvSecConfirm msg)
  with assms show ?thesis
    by (auto simp: handleSecConfirm_def Let_def failures_def successes_def charged_def budget_ok_def
        split: option.splits sum.splits prod.splits if_splits)
next
  case EvTimeout
  with assms show ?thesis by (auto simp: pake_timeout_def charged_def budget_ok_def)
next
  case (EvReset b)
  with assms show ?thesis by (cases b) (auto simp: resetSecure_def charged_def budget_ok_def)
next
  case EvSetCode
  with assms show ?thesis by (auto simp: sec_code_set_def charged_def budget_ok_def)
next
  case EvUnsetCode
  with assms show ?thesis by (auto simp: sec_code_unset_def charged_def budget_ok_def)
qed

lemma sec_step_starts:
  assumes "sec_step E ak e s = (ms, s')"
  shows "failures ms + successes ms + pending s' \<le> pending s + starts [e]"
proof (cases e)
  case (EvPakeStart code y msg)
  with assms show ?thesis
    by (auto simp: handlePakeStart_def Let_def failures_def successes_def starts_def pending_def
        split: option.splits sum.splits if_splits)
next
  case (EvSecConfirm msg)
  with assms show ?thesis
    by (auto simp: handleSecConfirm_def Let_def failures_def successes_def starts_def pending_def
        split: option.splits sum.splits prod.splits if_splits)
next
  case (EvReset b)
  with assms show ?thesis by (cases b) (auto simp: resetSecure_def pending_def)
qed (use assms in \<open>auto simp: pake_timeout_def pending_def sec_code_set_def sec_code_unset_def\<close>)

lemma starts_Cons: "starts (e # es) = starts [e] + starts es"
  by (simp add: starts_def)

lemma sec_run_budget:
  assumes "sec_run E ak es s = (ms, s')" and "streak E ak es s k high = (k', high')" and "budget_ok s k high"
  shows "budget_ok s' k' high' \<and> failures ms + successes ms + pending s' \<le> pending s + starts es"
  using assms
proof (induction es arbitrary: s ms k high)
  case Nil
  then show ?case by (auto simp: starts_def)
next
  case (Cons e es)
  obtain m1 s1 where 1: "sec_step E ak e s = (m1, s1)" by fastforce
  obtain m2 s2 where 2: "sec_run E ak es s1 = (m2, s2)" by fastforce
  have ms: "ms = m1 @ m2" "s2 = s'" using Cons.prems(1) 1 2 by simp_all
  have st: "streak E ak es s1 (charged s m1 k) (max high (charged s m1 k)) = (k', high')"
    using Cons.prems(2) 1 by simp
  from Cons.IH [OF 2 [unfolded ms(2)] st sec_step_budget [OF 1 Cons.prems(3)]] sec_step_starts [OF 1] ms
  show ?case by (auto simp: starts_Cons [of e es])
qed

section \<open>An honest client\<close>

lemma honest_handshake:
  assumes C: "curve_ok C" "cP C mod 4 = 3" and H: "hashes_ok H" and MN: "init_MN C H = Some MN"
    and E: "E = \<lparr>pe_curve = C, pe_hashes = H, pe_MN = MN\<rparr>"
    and xy: "0 < x" "x < cN C" "0 < y" "y < cN C" and sid: "length sid = 16"
    and client: "newSpake2StateFixed C MN True
        (scalarFromPassword C H (if code = [] then defaultSecCode else code)) x = Inr c"
    and start: "handlePakeStart E code ak y (Message0\<lparr>Type := TypePakeStart,
        Pa := EncodeToString (the (Share c)), Sid := EncodeToString sid\<rparr>) s = ([reply], s1)"
    and peer: "SetPeerShare C (the (DecodeString (Pb reply))) c = Inr c'"
  shows "\<exists>keys t c'' s2 sc app. Finish C H MN sid ak c' = (Inr keys, c'') \<and> sp_tt c'' = Some t
      \<and> handleSecConfirm E (Message0\<lparr>Type := TypeSecConfirm,
            TagA := EncodeToString (TagA_of H keys t)\<rparr>) s1
          = ([Message0\<lparr>Type := TypeSecOK, TagB := EncodeToString (TagB_of H keys t)\<rparr>,
              Message0\<lparr>Type := TypeSecureReady\<rparr>], s2)
      \<and> secCodeVerified s2 \<and> secure s2 = Some sc
      \<and> NewSecureChannel (Kc2s keys) (Ks2c keys) dirC2S dirS2C = Inr app
      \<and> paired sc app \<and> paired app sc"
proof -
  define w where "w = scalarFromPassword C H (if code = [] then defaultSecCode else code)"
  obtain sv sv' where sv: "newSpake2StateFixed C MN False w y = Inr sv"
      "SetPeerShare C (the (Share c)) sv = Inr sv'"
    and s1: "s1 = s\<lparr>pakeServer := Some sv', pakeSid := Some sid, pakeAccessKey := ak, pakeTimer := True\<rparr>"
    and reply: "DecodeString (Pb reply) = Some (case Share sv' of Some b \<Rightarrow> b | None \<Rightarrow> [])"
    using start sid
    by (auto simp: handlePakeStart_def E w_def [symmetric] Let_def Message0_def split: sum.splits)
  have w: "0 < w" "w < cN C"
    using sv(1) xy by (auto simp: newSpake2StateFixed_def w_def scalarFromPassword_def split: if_splits)
  have share: "Share sv' = Share sv" using sv(2) by (auto simp: SetPeerShare_def Share_def split: sum.splits)
  obtain m n where mn: "MN = (Some m, Some n)" "IsOnCurve C m" "IsOnCurve C n"
    using init_MN_valid [OF MN C(2) curve_okD(1) [OF C(1)]]
    by (cases MN) (auto simp: point_valid_def split: option.splits)
  have "\<exists>b. Share sv = Some b"
    using sv(1) share_in_group [OF C(1) mn(3), of y w] mn
    by (auto simp: newSpake2StateFixed_def Share_def pointToBytes_def Let_def split: if_splits)
  then have "the (DecodeString (Pb reply)) = the (Share sv)" using reply share by auto
  then have peer': "SetPeerShare C (the (Share sv)) c = Inr c'" using peer by simp
  from agreement [OF C H MN w xy client [folded w_def] sv(1) peer' sv(2), of sid ak]
  obtain keys t where fin: "Finish C H MN sid ak c' = (Inr keys,
        c'\<lparr>sp_sid := Some sid, sp_accesskey := ak, sp_tt := Some t\<rparr>)"
      "Finish C H MN sid ak sv' = (Inr keys,
        sv'\<lparr>sp_sid := Some sid, sp_accesskey := ak, sp_tt := Some t\<rparr>)"
    and len: "length (Kc2s keys) = 32" "length (Ks2c keys) = 32" by blast
  obtain sc where sc: "NewSecureChannel (Ks2c keys) (Kc2s keys) dirS2C dirC2S = Inr sc"
    using len by (simp add: NewSecureChannel_def newGCM_def)
  obtain app where app: "NewSecureChannel (Kc2s keys) (Ks2c keys) dirC2S dirS2C = Inr app"
    using len by (simp add: NewSecureChannel_def newGCM_def)
  have "length (TagA_of H keys t) = 16" using H by (simp add: TagA_of_def hashes_ok_def)
  then have "handleSecConfirm E (Message0\<lparr>Type := TypeSecConfirm,
      TagA := EncodeToString (TagA_of H keys t)\<rparr>) s1
    = ([Message0\<lparr>Type := TypeSecOK, TagB := EncodeToString (TagB_of H keys t)\<rparr>,
        Message0\<lparr>Type := TypeSecureReady\<rparr>],
       s1\<lparr>pakeTimer := False, pakeServer := None, pakeSid := None, secure := Some sc,
         secCodeVerified := True, secCodeAttemptsLeft := MaxSecCodeAttempts\<rparr>)"
    using fin(2) sc by (simp add: handleSecConfirm_def E s1 confirm_ok_def VerifyTag_def Let_def)
  moreover have "paired sc app" "paired app sc"
    using sc app len by (auto simp: NewSecureChannel_def newGCM_def paired_def)
  ultimately show ?thesis using fin(1) app by fastforce
qed

section \<open>A concrete exchange\<close>

definition toy_env :: pake_env where
  "toy_env = \<lparr>pe_curve = toy_curve, pe_hashes = toy_hashes, pe_MN = (Some (0, 1), Some (0, 1))\<rparr>"

definition toy_start :: Message where
  "toy_start = Message0\<lparr>Type := TypePakeStart, Pa := EncodeToString (the (Share (toy_side True 2))),
     Sid := EncodeToString (replicate 16 0)\<rparr>"

lemma toy_scalar: "scalarFromPassword toy_curve toy_hashes code = 2"
proof -
  have "be_value (replicate n 0) = 0" for n
    unfolding be_value_def by (induction n) simp_all
  then have "be_value (sha256 toy_hashes d) = 7" for d
    by (simp add: toy_hashes_def be_value_snoc)
  then show ?thesis by (simp add: scalarFromPassword_def toy_curve_def)
qed

lemma toy_pake_start:
  "\<exists>reply s1. handlePakeStart toy_env code ak 1 toy_start s = ([reply], s1)
     \<and> the (DecodeString (Pb reply)) = the (Share (toy_side False 1))
     \<and> Type reply = TypePakeReply \<and> pakeServer s1 \<noteq> None \<and> pakeSid s1 \<noteq> None
     \<and> secCodeEnabled s1 = secCodeEnabled s \<and> secCodeVerified s1 = secCodeVerified s"
  using toy_SetPeerShare(2)
  by (auto simp: handlePakeStart_def toy_env_def toy_start_def toy_scalar toy_sides Let_def)

text \<open>A channel that can send.\<close>

definition ready :: "secure_state \<Rightarrow> bool" where
  "ready s \<longleftrightarrow> (case secure s of None \<Rightarrow> False | Some sc \<Rightarrow> active sc \<and> gcmSend sc \<noteq> None)"

lemma paired_ready:
  "secure s = Some sc \<Longrightarrow> NewSecureChannel a b c e = Inr app \<Longrightarrow> paired sc app \<Longrightarrow> ready s"
  by (auto simp: ready_def paired_def NewSecureChannel_def newGCM_def split: if_splits sum.splits dest: sym)

lemma toy_handshake:
  "\<exists>reply s1 keys t s2. handlePakeStart toy_env code ak 1 toy_start s = ([reply], s1)
     \<and> secCodeVerified s1 = secCodeVerified s
     \<and> handleSecConfirm toy_env (Message0\<lparr>Type := TypeSecConfirm,
            TagA := EncodeToString (TagA_of toy_hashes keys t)\<rparr>) s1
          = ([Message0\<lparr>Type := TypeSecOK, TagB := EncodeToString (TagB_of toy_hashes keys t)\<rparr>,
              Message0\<lparr>Type := TypeSecureReady\<rparr>], s2)
     \<and> secCodeVerified s2 \<and> ready s2 \<and> Type reply = TypePakeReply"
proof -
  obtain reply s1 where r: "handlePakeStart toy_env code ak 1 toy_start s = ([reply], s1)"
      "the (DecodeString (Pb reply)) = the (Share (toy_side False 1))" "secCodeVerified s1 = secCodeVerified s"
      "Type reply = TypePakeReply"
    using toy_pake_start by blast
  obtain c' where c': "SetPeerShare toy_curve (the (DecodeString (Pb reply))) (toy_side True 2) = Inr c'"
    using toy_SetPeerShare(1) r(2) by auto
  have "cP toy_curve mod 4 = 3" "(0 :: int) < 2" "(2 :: int) < cN toy_curve" "(0 :: int) < 1"
    "(1 :: int) < cN toy_curve" "length (replicate 16 (0 :: byte)) = 16"
    by (simp_all add: toy_curve_def)
  from honest_handshake [OF toy_curve_ok this(1) toy_hashes_ok toy_MN toy_env_def this(2-6) _
      r(1) [unfolded toy_start_def] c'] toy_sides r paired_ready
  show ?thesis by (simp add: toy_scalar) blast
qed

section \<open>Properties\<close>

text \<open>
  C2: An honest client completes. When the daemon answers a client whose code and access key
  are its own, the client's keys are the daemon's: the client's confirmation is accepted, the
  reply proves the daemon to the client, and the daemon's channel is paired, in both
  directions, with the one the client builds from its keys.
\<close>

theorem handshake_completes:
  assumes C: "curve_ok C" "cP C mod 4 = 3" and H: "hashes_ok H" and MN: "init_MN C H = Some MN"
    and E: "E = \<lparr>pe_curve = C, pe_hashes = H, pe_MN = MN\<rparr>"
    and xy: "0 < x" "x < cN C" "0 < y" "y < cN C" and sid: "length sid = 16"
    and client: "newSpake2StateFixed C MN True
        (scalarFromPassword C H (if code = [] then defaultSecCode else code)) x = Inr c"
    and start: "handlePakeStart E code ak y (Message0\<lparr>Type := TypePakeStart,
        Pa := EncodeToString (the (Share c)), Sid := EncodeToString sid\<rparr>) s = ([reply], s1)"
    and peer: "SetPeerShare C (the (DecodeString (Pb reply))) c = Inr c'"
  shows "\<exists>keys t c'' s2 sc app. Finish C H MN sid ak c' = (Inr keys, c'') \<and> sp_tt c'' = Some t
      \<and> handleSecConfirm E (Message0\<lparr>Type := TypeSecConfirm,
            TagA := EncodeToString (TagA_of H keys t)\<rparr>) s1
          = ([Message0\<lparr>Type := TypeSecOK, TagB := EncodeToString (TagB_of H keys t)\<rparr>,
              Message0\<lparr>Type := TypeSecureReady\<rparr>], s2)
      \<and> secCodeVerified s2 \<and> secure s2 = Some sc
      \<and> NewSecureChannel (Kc2s keys) (Ks2c keys) dirC2S dirS2C = Inr app
      \<and> paired sc app \<and> paired app sc"
  using assms by (rule honest_handshake)

theorem handshake_completes_witness:
  "\<exists>reply s1 c'. handlePakeStart toy_env [] ''key'' 1 toy_start (secure_state0 True) = ([reply], s1)
     \<and> SetPeerShare toy_curve (the (DecodeString (Pb reply))) (toy_side True 2) = Inr c'
     \<and> (\<exists>keys c''. Finish toy_curve toy_hashes (Some (0, 1), Some (0, 1)) (replicate 16 0) ''key'' c'
           = (Inr keys, c''))"
proof -
  obtain reply s1 where r: "handlePakeStart toy_env [] ''key'' 1 toy_start (secure_state0 True) = ([reply], s1)"
      "the (DecodeString (Pb reply)) = the (Share (toy_side False 1))"
    using toy_pake_start by blast
  obtain c' where c': "SetPeerShare toy_curve (the (DecodeString (Pb reply))) (toy_side True 2) = Inr c'"
    using toy_SetPeerShare(1) r(2) by auto
  have "cP toy_curve mod 4 = 3" "(0 :: int) < 2" "(2 :: int) < cN toy_curve" "(0 :: int) < 1"
    "(1 :: int) < cN toy_curve" "length (replicate 16 (0 :: byte)) = 16"
    by (simp_all add: toy_curve_def)
  from handshake_completes [OF toy_curve_ok this(1) toy_hashes_ok toy_MN toy_env_def this(2-6) _
      r(1) [unfolded toy_start_def] c'] toy_sides r c'
  show ?thesis by (simp add: toy_scalar) blast
qed

text \<open>
  C1: Nothing but a correct confirmation verifies. A step after which the connection is
  verified and before which it was not is a \<^verbatim>\<open>sec_confirm\<close> in a pending exchange whose tag is
  the one computed from the exchange's own keys and transcript, and the channel then active
  has those keys and fresh sequence numbers.
\<close>

theorem handshake_guard:
  assumes "sec_step E ak e s = (ms, s')" and "\<not> secCodeVerified s" and "secCodeVerified s'"
  shows "\<exists>msg server sid keys server' t sc. e = EvSecConfirm msg
    \<and> pakeServer s = Some server \<and> pakeSid s = Some sid
    \<and> Finish (pe_curve E) (pe_hashes E) (pe_MN E) sid (pakeAccessKey s) server = (Inr keys, server')
    \<and> sp_tt server' = Some t
    \<and> DecodeString (TagA msg) = Some (TagA_of (pe_hashes E) keys t)
    \<and> secure s' = Some sc \<and> active sc \<and> sendKey sc = Ks2c keys \<and> recvKey sc = Kc2s keys
    \<and> sendSeq sc = 0 \<and> \<not> hasRecv sc \<and> pakeServer s' = None"
proof (cases e)
  case (EvSecConfirm msg)
  with assms show ?thesis
    by (auto simp: handleSecConfirm_def confirm_ok_def VerifyTag_def NewSecureChannel_def Let_def
        split: option.splits sum.splits prod.splits if_splits)
next
  case (EvPakeStart code y msg)
  with assms show ?thesis
    by (auto simp: handlePakeStart_def Let_def split: option.splits sum.splits if_splits)
next
  case EvTimeout
  with assms show ?thesis by (auto simp: pake_timeout_def)
next
  case (EvReset b)
  with assms show ?thesis by (cases b) (auto simp: resetSecure_def)
qed (use assms in \<open>auto simp: sec_code_set_def sec_code_unset_def\<close>)

theorem handshake_guard_witness:
  "\<exists>s1 msg ms s2 sc. \<not> secCodeVerified s1 \<and> sec_step toy_env ''key'' (EvSecConfirm msg) s1 = (ms, s2)
     \<and> secure s2 = Some sc \<and> active sc \<and> sendSeq sc = 0"
proof -
  obtain s1 msg ms s2 where h: "\<not> secCodeVerified s1" "secCodeVerified s2"
      "sec_step toy_env ''key'' (EvSecConfirm msg) s1 = (ms, s2)"
    using toy_handshake [of "[]" "''key''" "secure_state0 True"] by (auto simp: secure_state0_def)
  from handshake_guard [OF h(3,1,2)] h show ?thesis by blast
qed

text \<open>
  C3: The budget of guesses. Over any run from start-up, whatever handshakes succeed or fail and
  however often the local user sets or clears the code, the attempts left are
  \<^verbatim>\<open>MaxSecCodeAttempts\<close> less the rejected confirmations since the last success, counting those that
  came while a code was set; the daemon's exit is scheduled exactly when so many were once rejected in
  a row as \<^verbatim>\<open>MaxSecCodeAttempts\<close> says; and every confirmation, accepted or rejected, used up a
  \<^verbatim>\<open>pake_start\<close> of its own, so nobody guesses twice in one exchange. (\<^verbatim>\<open>MaxSecCodeAttempts\<close> is 11, as the
  comment at its declaration explains. \<^verbatim>\<open>README.md\<close> and the head of \<^verbatim>\<open>spake2.go\<close> promise ten; that they
  differ from the code is \<open>ten_guesses_do_not_lock\<close>.)
\<close>

theorem guess_budget:
  assumes "sec_run E ak es (secure_state0 enabled) = (ms, s)"
    and "streak E ak es (secure_state0 enabled) 0 0 = (k, high)"
  shows "secCodeAttemptsLeft s = MaxSecCodeAttempts - int k
    \<and> (exitScheduled s \<longleftrightarrow> MaxSecCodeAttempts \<le> int high)
    \<and> failures ms + successes ms \<le> starts es"
  using sec_run_budget [OF assms] by (auto simp: secure_state0_def pending_def budget_ok_def)

definition bad_guess :: "sec_event list" where
  "bad_guess = [EvPakeStart [] 1 toy_start, EvSecConfirm Message0]"

lemma bad_guess_run:
  assumes "secCodeEnabled s"
  shows "\<exists>ms s'. sec_run toy_env ak bad_guess s = (ms, s') \<and> failures ms = 1 \<and> secCodeEnabled s'
    \<and> (\<forall>es k high. k \<le> high \<longrightarrow> streak toy_env ak (bad_guess @ es) s k high
        = streak toy_env ak es s' (Suc k) (max high (Suc k)))"
proof -
  obtain reply s1 where 1: "handlePakeStart toy_env [] ak 1 toy_start s = ([reply], s1)"
      "Type reply = TypePakeReply" "pakeServer s1 \<noteq> None" "pakeSid s1 \<noteq> None" "secCodeEnabled s1"
    using toy_pake_start [of "[]" ak s] assms by blast
  have "DecodeString (TagA Message0) = Some []" by (simp add: Message0_def DecodeString_def)
  then have "\<not> confirm_ok toy_env Message0 r t" for r t
    by (auto simp: confirm_ok_def split: sum.splits option.splits)
  then have "\<exists>m s2. handleSecConfirm toy_env Message0 s1 = ([m], s2) \<and> Type m = TypeSecCodeError
      \<and> secCodeEnabled s2"
    using 1 by (auto simp: handleSecConfirm_def Let_def split: prod.splits)
  with 1 show ?thesis
    by (auto simp: bad_guess_def successes_def failures_def charged_def max_absorb1)
qed

lemma sec_run_append:
  "sec_run E ak (es @ fs) s = (case sec_run E ak es s of (ms, s') \<Rightarrow>
     (case sec_run E ak fs s' of (ns, s'') \<Rightarrow> (ms @ ns, s'')))"
  by (induction es arbitrary: s) (simp_all split: prod.splits)

lemma bad_guesses_run:
  "secCodeEnabled s \<Longrightarrow> \<exists>ms s'. sec_run toy_env ak (concat (replicate n bad_guess)) s = (ms, s')
     \<and> failures ms = n \<and> secCodeEnabled s'
     \<and> streak toy_env ak (concat (replicate n bad_guess)) s k k = (k + n, k + n)"
proof (induction n arbitrary: s k)
  case (Suc n)
  obtain m1 s1 where 1: "sec_run toy_env ak bad_guess s = (m1, s1)" "failures m1 = 1" "secCodeEnabled s1"
      "\<And>es. streak toy_env ak (bad_guess @ es) s k k = streak toy_env ak es s1 (Suc k) (Suc k)"
    using bad_guess_run [OF Suc.prems] by (metis le_refl max_absorb2 le_SucI)
  from Suc.IH [OF 1(3), of "Suc k"] 1 show ?case by (fastforce simp: sec_run_append)
qed simp

theorem guess_budget_witness:
  "\<exists>ms s. sec_run toy_env ''key'' (concat (replicate 11 bad_guess)) (secure_state0 True) = (ms, s)
     \<and> failures ms = 11 \<and> secCodeAttemptsLeft s = 0 \<and> exitScheduled s"
proof -
  obtain ms s where r: "sec_run toy_env ''key'' (concat (replicate 11 bad_guess)) (secure_state0 True)
      = (ms, s)" "failures ms = 11"
      "streak toy_env ''key'' (concat (replicate 11 bad_guess)) (secure_state0 True) 0 0 = (11, 11)"
    using bad_guesses_run [of "secure_state0 True" "''key''" 11 0] by (auto simp: secure_state0_def)
  with guess_budget [OF r(1,3)] show ?thesis by simp
qed

text \<open>
  The README and \<^verbatim>\<open>spake2.go\<close> speak of a ten-attempt budget. Ten rejected guesses do not stop the
  daemon: an eleventh is admitted.
\<close>

theorem ten_guesses_do_not_lock:
  "\<exists>es ms s. sec_run toy_env ''key'' es (secure_state0 True) = (ms, s) \<and> failures ms = 10
     \<and> secCodeAttemptsLeft s = 1 \<and> \<not> exitScheduled s"
proof -
  obtain ms s where r: "sec_run toy_env ''key'' (concat (replicate 10 bad_guess)) (secure_state0 True)
      = (ms, s)" "failures ms = 10"
      "streak toy_env ''key'' (concat (replicate 10 bad_guess)) (secure_state0 True) 0 0 = (10, 10)"
    using bad_guesses_run [of "secure_state0 True" "''key''" 10 0] by (auto simp: secure_state0_def)
  have "budget_ok (secure_state0 True) 0 0" by (simp add: budget_ok_def secure_state0_def)
  from sec_run_budget [OF r(1,3) this] r show ?thesis by (auto simp: budget_ok_def)
qed

text \<open>
  The message of the rejection that locks the daemon does not say so: zero is the empty value of
  \<^verbatim>\<open>remaining_attempts\<close>, which \<^verbatim>\<open>omitempty\<close> leaves out of the JSON.
\<close>

theorem last_rejection_omits_count:
  "marshal_message (Message0\<lparr>Type := TypeSecCodeError, RemainingAttempts := 0\<rparr>)
     = marshal_message (Message0\<lparr>Type := TypeSecCodeError\<rparr>)"
  by (simp add: Message0_def)

end
