(* ===== verification/Bounded_Log.thy ===== *)
theory Bounded_Log
  imports Main
begin

text \<open>
  The contract of a log of bounded size, which two components implement: the ring buffer of the
  daemon's log and the circular list of lines of the terminal. Pushing on a full log drops the
  oldest element. What a client relies on is proved once: after any number of pushes the log
  holds the last elements of the whole sequence, in order.
\<close>

locale bounded_log =
  fixes ok :: "'s \<Rightarrow> bool"
    and push :: "'a \<Rightarrow> 's \<Rightarrow> 's"
    and view :: "'s \<Rightarrow> 'a list"
    and bound :: "'s \<Rightarrow> nat"
  assumes push_ok: "ok s \<Longrightarrow> ok (push x s)"
    and push_bound: "ok s \<Longrightarrow> bound (push x s) = bound s"
    and push_view: "ok s \<Longrightarrow> view (push x s) =
      (if length (view s) < bound s then view s @ [x] else tl (view s) @ [x])"
    and view_bound: "ok s \<Longrightarrow> length (view s) \<le> bound s"
    and bound_pos: "ok s \<Longrightarrow> 0 < bound s"
begin

definition last_of :: "nat \<Rightarrow> 'a list \<Rightarrow> 'a list" where
  "last_of n xs = drop (length xs - n) xs"

lemma push_last: "ok s \<Longrightarrow> view (push x s) = last_of (bound s) (view s @ [x])"
  using view_bound [of s] bound_pos [of s]
  by (cases "view s") (auto simp: push_view last_of_def Suc_diff_le not_less)

lemma pushes_ok: "ok s \<Longrightarrow> ok (fold push xs s) \<and> bound (fold push xs s) = bound s"
  by (induction xs arbitrary: s) (simp_all add: push_ok push_bound)

lemma last_of_last_of: "0 < n \<Longrightarrow> last_of n (last_of n xs @ ys) = last_of n (xs @ ys)"
  by (cases "length xs \<le> n") (auto simp: last_of_def add.commute)

lemma pushes_view: "ok s \<Longrightarrow> view (fold push xs s) = last_of (bound s) (view s @ xs)"
proof (induction xs arbitrary: s)
  case Nil
  then show ?case using view_bound [of s] by (simp add: last_of_def)
next
  case (Cons x xs)
  then have "view (fold push (x # xs) s) = last_of (bound s) (last_of (bound s) (view s @ [x]) @ xs)"
    by (simp add: push_ok push_bound push_last)
  also have "\<dots> = last_of (bound s) ((view s @ [x]) @ xs)"
    by (rule last_of_last_of) (rule bound_pos [OF Cons.prems])
  finally show ?case by simp
qed

end

end
