(* ===== verification/Ring_Logger.thy ===== *)
theory Ring_Logger
  imports Protocol Bounded_Log
begin

text \<open>
  The in-memory log of the web entry (\<^verbatim>\<open>ring_logger.go\<close>): a ring of entries and the subscriber
  channels, each a queue of at most 256 entries that drops its oldest when it is full. A channel
  is identified by a number; the formatted entry and its timestamp are the argument of
  \<open>ring_append\<close>.
\<close>

record ring_logger =
  rl_entries :: "LogEntry list"
  rl_capacity :: nat
  rl_writeIdx :: nat
  rl_count :: nat
  rl_subscribers :: "(nat \<times> LogEntry list) list"
  rl_nextChan :: nat

definition LogEntry0 :: LogEntry where
  "LogEntry0 = \<lparr>le_Timestamp = 0, le_Level = [], le_Message = []\<rparr>"

definition NewRingLogger :: "int \<Rightarrow> ring_logger" where
  "NewRingLogger cap =
    (let c = (if cap \<le> 0 then 1000 else nat cap) in
     \<lparr>rl_entries = replicate c LogEntry0, rl_capacity = c, rl_writeIdx = 0, rl_count = 0,
      rl_subscribers = [], rl_nextChan = 0\<rparr>)"

definition chan_cap :: nat where [simp]: "chan_cap = 256"

text \<open>The non-blocking send, dropping the oldest entry of a full channel.\<close>

definition fan_out :: "LogEntry \<Rightarrow> LogEntry list \<Rightarrow> LogEntry list" where
  "fan_out e q =
    (if length q < chan_cap then q @ [e]
     else
       let q' = (case q of [] \<Rightarrow> [] | _ # r \<Rightarrow> r) in
       if length q' < chan_cap then q' @ [e] else q')"

definition ring_append :: "LogEntry \<Rightarrow> ring_logger \<Rightarrow> ring_logger" where
  "ring_append e l =
     l\<lparr>rl_entries := (rl_entries l)[rl_writeIdx l := e],
       rl_writeIdx := (rl_writeIdx l + 1) mod rl_capacity l,
       rl_count := (if rl_count l < rl_capacity l then rl_count l + 1 else rl_count l),
       rl_subscribers := map (\<lambda>(ch, q). (ch, fan_out e q)) (rl_subscribers l)\<rparr>"

text \<open>\<open>None\<close> is the panic of \<^verbatim>\<open>make\<close> with a negative length.\<close>

definition GetRecent :: "int \<Rightarrow> ring_logger \<Rightarrow> LogEntry list option" where
  "GetRecent n l =
    (let n' = (if int (rl_count l) < n then int (rl_count l) else n) in
     if n' = 0 then Some []
     else if n' < 0 then None
     else
       let readIdx = (rl_writeIdx l + rl_capacity l - rl_count l) mod rl_capacity l in
       Some (map (\<lambda>i. rl_entries l ! ((readIdx + i) mod rl_capacity l)) [0..<nat n']))"

definition Subscribe :: "ring_logger \<Rightarrow> nat \<times> ring_logger" where
  "Subscribe l = (rl_nextChan l, l\<lparr>rl_subscribers := rl_subscribers l @ [(rl_nextChan l, [])],
     rl_nextChan := rl_nextChan l + 1\<rparr>)"

fun remove_chan :: "nat \<Rightarrow> (nat \<times> LogEntry list) list \<Rightarrow> (nat \<times> LogEntry list) list" where
  "remove_chan ch [] = []"
| "remove_chan ch (s # ss) = (if fst s = ch then ss else s # remove_chan ch ss)"

definition Unsubscribe :: "nat \<Rightarrow> ring_logger \<Rightarrow> ring_logger" where
  "Unsubscribe ch l = l\<lparr>rl_subscribers := remove_chan ch (rl_subscribers l)\<rparr>"

lemmas [unfold_ops] = ring_append_def Subscribe_def Unsubscribe_def

section \<open>What the ring holds\<close>

definition ring_ok :: "ring_logger \<Rightarrow> bool" where
  "ring_ok l \<longleftrightarrow> 0 < rl_capacity l \<and> length (rl_entries l) = rl_capacity l
     \<and> rl_writeIdx l < rl_capacity l \<and> rl_count l \<le> rl_capacity l"

definition ring_view :: "ring_logger \<Rightarrow> LogEntry list" where
  "ring_view l = map (\<lambda>i. rl_entries l !
      (((rl_writeIdx l + rl_capacity l - rl_count l) mod rl_capacity l + i) mod rl_capacity l))
    [0..<rl_count l]"

lemma length_ring_view [simp]: "length (ring_view l) = rl_count l"
  by (simp add: ring_view_def)

lemma ring_index:
  fixes w c n i :: nat
  assumes "w < c" and "n \<le> c" and "i < n"
  shows "((w + c - n) mod c + i) mod c = (if w + i < n then w + i + c - n else w + i - n)"
proof -
  have "((w + c - n) mod c + i) mod c = (w + c - n + i) mod c" by (rule mod_add_left_eq)
  also have "\<dots> = (if w + i < n then w + i + c - n else w + i - n)"
  proof (cases "w + i < n")
    case True
    then have "w + c - n + i = w + i + c - n" "w + i + c - n < c" using assms by auto
    then show ?thesis using True by simp
  next
    case False
    then have e: "w + c - n + i = (w + i - n) + c" "w + i - n < c" using assms by auto
    then show ?thesis using False by (simp only: e if_False mod_add_self2 mod_less)
  qed
  finally show ?thesis .
qed

text \<open>Positions before and after an append, as arithmetic.\<close>

definition ring_pos :: "nat \<Rightarrow> nat \<Rightarrow> nat \<Rightarrow> nat \<Rightarrow> nat" where
  "ring_pos w c n i = (if w + i < n then w + i + c - n else w + i - n)"

lemma ring_pos_grow:
  assumes "w < c" and "n < c"
  shows "i < n \<Longrightarrow> ring_pos (if w + 1 < c then w + 1 else 0) c (n + 1) i = ring_pos w c n i"
    and "i < n \<Longrightarrow> w \<noteq> ring_pos w c n i"
    and "ring_pos (if w + 1 < c then w + 1 else 0) c (n + 1) n = w"
  using assms unfolding ring_pos_def by auto

lemma ring_pos_full:
  assumes "w < c"
  shows "i + 1 < c \<Longrightarrow> ring_pos (if w + 1 < c then w + 1 else 0) c c i = ring_pos w c c (i + 1)"
    and "i + 1 < c \<Longrightarrow> w \<noteq> ring_pos w c c (i + 1)"
    and "ring_pos (if w + 1 < c then w + 1 else 0) c c (c - 1) = w"
  using assms unfolding ring_pos_def by auto

lemma ring_view_nth:
  assumes "ring_ok l" and "i < rl_count l"
  shows "ring_view l ! i = rl_entries l ! ring_pos (rl_writeIdx l) (rl_capacity l) (rl_count l) i"
  using assms ring_index [of "rl_writeIdx l" "rl_capacity l" "rl_count l" i]
  by (simp add: ring_view_def ring_ok_def ring_pos_def)

lemma ring_append_ok: "ring_ok l \<Longrightarrow> ring_ok (ring_append e l)"
  by (auto simp: ring_ok_def ring_append_def)

lemma ring_append_view:
  assumes ok: "ring_ok l"
  shows "ring_view (ring_append e l) =
    (if length (ring_view l) < rl_capacity l then ring_view l @ [e] else tl (ring_view l) @ [e])"
proof (rule nth_equalityI)
  show "length (ring_view (ring_append e l)) = length
      (if length (ring_view l) < rl_capacity l then ring_view l @ [e] else tl (ring_view l) @ [e])"
    using ok by (auto simp: ring_append_def ring_ok_def)
next
  fix i
  assume i: "i < length (ring_view (ring_append e l))"
  let ?w = "rl_writeIdx l" and ?c = "rl_capacity l" and ?n = "rl_count l"
  have wc: "?w < ?c" "?n \<le> ?c" "length (rl_entries l) = ?c" using ok by (auto simp: ring_ok_def)
  have w': "rl_writeIdx (ring_append e l) = (if ?w + 1 < ?c then ?w + 1 else 0)"
    using wc by (auto simp: ring_append_def mod_if)
  note view' = ring_view_nth [OF ring_append_ok [OF ok], of i e]
  have sel: "rl_capacity (ring_append e l) = ?c" "rl_entries (ring_append e l) = (rl_entries l)[?w := e]"
    "rl_count (ring_append e l) = (if ?n < ?c then ?n + 1 else ?n)"
    by (simp_all add: ring_append_def)
  have b: "ring_pos ?w ?c ?n j < length (rl_entries l)" if "j < ?n" for j
    using that wc by (auto simp: ring_pos_def)
  show "ring_view (ring_append e l) ! i =
      (if length (ring_view l) < rl_capacity l then ring_view l @ [e] else tl (ring_view l) @ [e]) ! i"
  proof (cases "?n < ?c")
    case True
    then have "ring_view (ring_append e l) ! i = (rl_entries l)[?w := e]
        ! ring_pos (if ?w + 1 < ?c then ?w + 1 else 0) ?c (?n + 1) i"
      using i view' by (simp add: sel w')
    moreover have "i < ?n \<or> i = ?n" using i True by (auto simp: sel)
    ultimately show ?thesis
      using True ring_pos_grow [OF wc(1) True] ring_view_nth [OF ok] wc
      by (auto simp: nth_append)
  next
    case False
    then have n: "?n = ?c" "0 < ?c" using wc by auto
    then have "ring_view (ring_append e l) ! i = (rl_entries l)[?w := e]
        ! ring_pos (if ?w + 1 < ?c then ?w + 1 else 0) ?c ?c i"
      using i view' by (simp add: sel w')
    moreover have "i + 1 < ?c \<or> i = ?c - 1" using i n by (auto simp: sel)
    ultimately show ?thesis
      using n ring_pos_full [OF wc(1)] ring_view_nth [OF ok, of "i + 1"] wc
      by (auto simp: nth_append nth_tl)
  qed
qed

interpretation ring: bounded_log ring_ok ring_append ring_view rl_capacity
proof
  fix l e
  assume ok: "ring_ok l"
  show "ring_ok (ring_append e l)" by (rule ring_append_ok [OF ok])
  show "rl_capacity (ring_append e l) = rl_capacity l" by (simp add: ring_append_def)
  show "ring_view (ring_append e l) =
      (if length (ring_view l) < rl_capacity l then ring_view l @ [e] else tl (ring_view l) @ [e])"
    by (rule ring_append_view [OF ok])
  show "length (ring_view l) \<le> rl_capacity l" "0 < rl_capacity l"
    using ok by (simp_all add: ring_ok_def)
qed

lemma NewRingLogger_ok: "ring_ok (NewRingLogger cap)" "ring_view (NewRingLogger cap) = []"
  by (auto simp: NewRingLogger_def ring_ok_def ring_view_def Let_def)

lemma GetRecent_view:
  "ring_ok l \<Longrightarrow> 0 \<le> n \<Longrightarrow> GetRecent n l = Some (take (nat n) (ring_view l))"
  by (auto simp: GetRecent_def ring_view_def take_map Let_def min_def)

lemma remove_chan_distinct:
  "distinct (map fst ss) \<Longrightarrow> ch \<notin> fst ` set (remove_chan ch ss)"
  by (induction ss) auto

section \<open>Properties\<close>

text \<open>
  The log keeps the newest entries. After any sequence of entries, \<^verbatim>\<open>GetRecent\<close> returns
  the first \<open>n\<close> of the last \<open>capacity\<close> entries, in order; asking for at least the capacity
  returns them all.
\<close>

theorem log_recent:
  assumes "0 \<le> n"
  shows "GetRecent n (fold ring_append es (NewRingLogger cap)) =
    Some (take (nat n) (drop (length es - rl_capacity (NewRingLogger cap)) es))"
proof -
  let ?l = "NewRingLogger cap"
  have "ring_view (fold ring_append es ?l) = ring.last_of (rl_capacity ?l) ([] @ es)"
    using ring.pushes_view [OF NewRingLogger_ok(1), of es cap] by (simp only: NewRingLogger_ok(2))
  moreover have "ring_ok (fold ring_append es ?l)"
    using ring.pushes_ok [OF NewRingLogger_ok(1)] by blast
  ultimately show ?thesis using GetRecent_view [OF _ assms] by (simp add: ring.last_of_def)
qed

theorem log_recent_witness:
  "GetRecent 1 (fold ring_append [\<lparr>le_Timestamp = 1, le_Level = ''INFO'', le_Message = ''a''\<rparr>,
      \<lparr>le_Timestamp = 2, le_Level = ''INFO'', le_Message = ''b''\<rparr>] (NewRingLogger 1))
   = Some [\<lparr>le_Timestamp = 2, le_Level = ''INFO'', le_Message = ''b''\<rparr>]"
  by (subst log_recent) (simp_all add: NewRingLogger_def)

text \<open>
  The comment on \<^verbatim>\<open>GetRecent\<close> says it returns the last \<open>n\<close> entries. It returns the oldest
  \<open>n\<close> of those kept, and a negative count, which it does not check, panics.
\<close>

theorem log_recent_oldest:
  "\<exists>es. length es = 2 \<and> distinct es \<and>
     GetRecent 1 (fold ring_append es (NewRingLogger 10)) = Some [hd es]
     \<and> GetRecent (- 1) (fold ring_append es (NewRingLogger 10)) = None"
  by (intro exI [of _ "[\<lparr>le_Timestamp = 1, le_Level = [], le_Message = []\<rparr>,
      \<lparr>le_Timestamp = 2, le_Level = [], le_Message = []\<rparr>]"])
    (simp add: GetRecent_def NewRingLogger_def ring_append_def Let_def)

end
