(* ===== verification/Circular_List.thy ===== *)
theory Circular_List
  imports Bounded_Log
begin

text \<open>
  The circular list that holds the lines of the terminal and its scrollback
  (\<^verbatim>\<open>internal/xterm/circularlist.go\<close>). The backing array, the start index (which only grows
  and is reduced modulo the size when used) and the length are the source's; the trim events
  fired are recorded as the sum of their counts. \<open>clist_view\<close> is the abstract value, the list of
  elements by logical index, and every operation is shown to do on it what it is named after.
\<close>

record 'a clist =
  cl_array :: "'a list"
  cl_startIdx :: int
  cl_length :: nat
  cl_maxLen :: nat
  cl_trimmed :: int

definition NewCircularList :: "'a \<Rightarrow> nat \<Rightarrow> 'a clist" where
  "NewCircularList zero maxLength = \<lparr>cl_array = replicate maxLength zero, cl_startIdx = 0,
     cl_length = 0, cl_maxLen = maxLength, cl_trimmed = 0\<rparr>"

definition getCyclicIndex :: "'a clist \<Rightarrow> int \<Rightarrow> nat" where
  "getCyclicIndex c index = nat ((cl_startIdx c + index) mod int (cl_maxLen c))"

definition cl_Get :: "int \<Rightarrow> 'a clist \<Rightarrow> 'a" where
  "cl_Get index c = cl_array c ! getCyclicIndex c index"

definition cl_Set :: "int \<Rightarrow> 'a \<Rightarrow> 'a clist \<Rightarrow> 'a clist" where
  "cl_Set index v c = c\<lparr>cl_array := (cl_array c)[getCyclicIndex c index := v]\<rparr>"

definition cl_fire_trim :: "int \<Rightarrow> 'a clist \<Rightarrow> 'a clist" where
  "cl_fire_trim n c = c\<lparr>cl_trimmed := cl_trimmed c + n\<rparr>"

definition IsFull :: "'a clist \<Rightarrow> bool" where
  "IsFull c \<longleftrightarrow> cl_length c = cl_maxLen c"

definition SetLength :: "'a \<Rightarrow> nat \<Rightarrow> 'a clist \<Rightarrow> 'a clist" where
  "SetLength zero newLength c =
    (fold (\<lambda>i. cl_Set (int i) zero) [cl_length c..<newLength] c)\<lparr>cl_length := newLength\<rparr>"

definition SetMaxLength :: "'a \<Rightarrow> nat \<Rightarrow> 'a clist \<Rightarrow> 'a clist" where
  "SetMaxLength zero newMax c =
    (if cl_maxLen c = newMax then c
     else
       let copyLen = (if newMax < cl_length c then newMax else cl_length c);
           newArray = map (\<lambda>i. if i < copyLen then cl_Get (int i) c else zero) [0..<newMax] in
       c\<lparr>cl_array := newArray, cl_maxLen := newMax, cl_startIdx := 0,
         cl_length := (if newMax < cl_length c then newMax else cl_length c)\<rparr>)"

definition cl_Push :: "'a \<Rightarrow> 'a clist \<Rightarrow> 'a clist" where
  "cl_Push value c =
    (let c' = cl_Set (int (cl_length c)) value c in
     if cl_length c' = cl_maxLen c'
     then cl_fire_trim 1 (c'\<lparr>cl_startIdx := (cl_startIdx c' + 1) mod int (cl_maxLen c')\<rparr>)
     else c'\<lparr>cl_length := cl_length c' + 1\<rparr>)"

text \<open>\<open>None\<close> is the panic on a list that is not full.\<close>

definition Recycle :: "'a clist \<Rightarrow> ('a \<times> 'a clist) option" where
  "Recycle c =
    (if cl_length c \<noteq> cl_maxLen c then None
     else
       let c' = cl_fire_trim 1 (c\<lparr>cl_startIdx := (cl_startIdx c + 1) mod int (cl_maxLen c)\<rparr>) in
       Some (cl_Get (int (cl_length c') - 1) c', c'))"

definition cl_Pop :: "'a clist \<Rightarrow> 'a \<times> 'a clist" where
  "cl_Pop c =
    (let c' = c\<lparr>cl_length := cl_length c - 1\<rparr> in (cl_Get (int (cl_length c')) c', c'))"

definition splice_delete :: "nat \<Rightarrow> nat \<Rightarrow> 'a clist \<Rightarrow> 'a clist" where
  "splice_delete start deleteCount c =
    (if 0 < deleteCount then
       (fold (\<lambda>i c. cl_Set (int i) (cl_Get (int (i + deleteCount)) c) c)
          [start..<cl_length c - deleteCount] c)\<lparr>cl_length := cl_length c - deleteCount\<rparr>
     else c)"

definition splice_shift :: "nat \<Rightarrow> nat \<Rightarrow> 'a clist \<Rightarrow> 'a clist" where
  "splice_shift start n c =
     fold (\<lambda>i c. cl_Set (int (i + n)) (cl_Get (int i) c) c) (rev [start..<cl_length c]) c"

definition splice_store :: "nat \<Rightarrow> 'a list \<Rightarrow> 'a clist \<Rightarrow> 'a clist" where
  "splice_store start items c =
     fold (\<lambda>(i, item). cl_Set (int (start + i)) item) (enumerate 0 items) c"

definition Splice :: "nat \<Rightarrow> nat \<Rightarrow> 'a list \<Rightarrow> 'a clist \<Rightarrow> 'a clist" where
  "Splice start deleteCount items c =
    (let c1 = splice_delete start deleteCount c;
         c2 = (if items \<noteq> [] then splice_store start items (splice_shift start (length items) c1)
               else c1) in
     if cl_maxLen c2 < cl_length c2 + length items then
       let countToTrim = cl_length c2 + length items - cl_maxLen c2 in
       cl_fire_trim (int countToTrim)
         (c2\<lparr>cl_startIdx := cl_startIdx c2 + int countToTrim, cl_length := cl_maxLen c2\<rparr>)
     else c2\<lparr>cl_length := cl_length c2 + length items\<rparr>)"

definition TrimStart :: "nat \<Rightarrow> 'a clist \<Rightarrow> 'a clist" where
  "TrimStart count c =
    (let n = (if cl_length c < count then cl_length c else count) in
     cl_fire_trim (int n)
       (c\<lparr>cl_startIdx := cl_startIdx c + int n, cl_length := cl_length c - n\<rparr>))"

function shift_trim :: "'a clist \<Rightarrow> 'a clist" where
  "shift_trim c =
    (if cl_maxLen c < cl_length c
     then shift_trim (cl_fire_trim 1
       (c\<lparr>cl_length := cl_length c - 1, cl_startIdx := cl_startIdx c + 1\<rparr>))
     else c)"
  by pat_completeness auto
termination
  by (relation "measure cl_length") (auto simp: cl_fire_trim_def)

declare shift_trim.simps [simp del]

definition ShiftElements :: "int \<Rightarrow> int \<Rightarrow> int \<Rightarrow> 'a clist \<Rightarrow> 'a clist option" where
  "ShiftElements start count offset c =
    (if count \<le> 0 then Some c
     else if start < 0 \<or> int (cl_length c) \<le> start then None
     else if start + offset < 0 then None
     else if 0 < offset then
       (let c1 = fold (\<lambda>i c. cl_Set (start + int i + offset) (cl_Get (start + int i) c) c)
                   (rev [0..<nat count]) c;
            expandBy = (start + count + offset) - int (cl_length c1) in
        Some (if 0 < expandBy then shift_trim (c1\<lparr>cl_length := cl_length c1 + nat expandBy\<rparr>) else c1))
     else Some (fold (\<lambda>i c. cl_Set (start + int i + offset) (cl_Get (start + int i) c) c)
                  [0..<nat count] c))"

section \<open>The abstract list\<close>

definition clist_ok :: "'a clist \<Rightarrow> bool" where
  "clist_ok c \<longleftrightarrow> 0 < cl_maxLen c \<and> length (cl_array c) = cl_maxLen c \<and> cl_length c \<le> cl_maxLen c"

definition clist_view :: "'a clist \<Rightarrow> 'a list" where
  "clist_view c = map (\<lambda>i. cl_Get (int i) c) [0..<cl_length c]"

lemma length_clist_view [simp]: "length (clist_view c) = cl_length c"
  by (simp add: clist_view_def)

lemma clist_view_nth [simp]: "i < cl_length c \<Longrightarrow> clist_view c ! i = cl_Get (int i) c"
  by (simp add: clist_view_def)

lemma getCyclicIndex_bound: "clist_ok c \<Longrightarrow> getCyclicIndex c i < length (cl_array c)"
  by (simp add: getCyclicIndex_def clist_ok_def nat_less_iff)

lemma getCyclicIndex_inject:
  assumes "clist_ok c" and "i < cl_maxLen c" and "j < cl_maxLen c"
  shows "getCyclicIndex c (int i) = getCyclicIndex c (int j) \<longleftrightarrow> i = j"
proof
  let ?m = "int (cl_maxLen c)" and ?s = "cl_startIdx c"
  assume eq: "getCyclicIndex c (int i) = getCyclicIndex c (int j)"
  have "0 \<le> (?s + int i) mod ?m" "0 \<le> (?s + int j) mod ?m" using assms by (simp_all add: clist_ok_def)
  with eq have "(?s + int i) mod ?m = (?s + int j) mod ?m"
    by (simp add: getCyclicIndex_def eq_nat_nat_iff)
  then have "(?s + int i - ?s) mod ?m = (?s + int j - ?s) mod ?m" by (rule mod_diff_cong) simp
  then show "i = j" using assms(2,3) by simp
qed simp

lemma cl_Set_sel [simp]:
  "cl_length (cl_Set i v c) = cl_length c" "cl_maxLen (cl_Set i v c) = cl_maxLen c"
  "cl_startIdx (cl_Set i v c) = cl_startIdx c" "cl_trimmed (cl_Set i v c) = cl_trimmed c"
  "clist_ok (cl_Set i v c) = clist_ok c"
  by (simp_all add: cl_Set_def clist_ok_def)

lemma cl_Get_Set:
  assumes "clist_ok c" and "i < cl_maxLen c" and "j < cl_maxLen c"
  shows "cl_Get (int j) (cl_Set (int i) v c) = (if j = i then v else cl_Get (int j) c)"
  using getCyclicIndex_inject [OF assms] getCyclicIndex_bound [OF assms(1), of "int i"]
  by (auto simp: cl_Get_def cl_Set_def getCyclicIndex_def)

lemma cl_Get_update [simp]:
  "cl_Get i (c\<lparr>cl_length := n\<rparr>) = cl_Get i c"
  "cl_Get i (c\<lparr>cl_trimmed := t\<rparr>) = cl_Get i c"
  "cl_Get i (c\<lparr>cl_startIdx := s\<rparr>) = cl_Get (i + s - cl_startIdx c) c"
  by (simp_all add: cl_Get_def getCyclicIndex_def algebra_simps)

lemma cl_Get_start_mod:
  "cl_Get i (c\<lparr>cl_startIdx := s mod int (cl_maxLen c)\<rparr>) = cl_Get (i + s - cl_startIdx c) c"
  by (simp add: cl_Get_def getCyclicIndex_def mod_add_right_eq algebra_simps)

lemma cl_Get_wrap: "cl_Get (i + int (cl_maxLen c)) c = cl_Get i c"
  by (simp add: cl_Get_def getCyclicIndex_def flip: add.assoc)

text \<open>Loops that write a range: what they leave alone, and the elements after them.\<close>

lemma fold_Set_frame [simp]:
  "cl_length (fold (\<lambda>i c. cl_Set (g i) (h i c) c) is c) = cl_length c"
  "cl_maxLen (fold (\<lambda>i c. cl_Set (g i) (h i c) c) is c) = cl_maxLen c"
  "cl_startIdx (fold (\<lambda>i c. cl_Set (g i) (h i c) c) is c) = cl_startIdx c"
  "cl_trimmed (fold (\<lambda>i c. cl_Set (g i) (h i c) c) is c) = cl_trimmed c"
  "clist_ok (fold (\<lambda>i c. cl_Set (g i) (h i c) c) is c) = clist_ok c"
  by (induction "is" arbitrary: c) simp_all

lemma fold_Set_up:
  assumes "clist_ok c" and "n + d \<le> cl_maxLen c" and "j < cl_maxLen c"
  shows "cl_Get (int j) (fold (\<lambda>i c. cl_Set (int i) (cl_Get (int (i + d)) c) c) [b..<n] c)
      = (if b \<le> j \<and> j < n then cl_Get (int (j + d)) c else cl_Get (int j) c)"
  using assms(2,3)
proof (induction n arbitrary: j)
  case (Suc n)
  show ?case
  proof (cases "b \<le> n")
    case True
    let ?f = "fold (\<lambda>i c. cl_Set (int i) (cl_Get (int (i + d)) c) c) [b..<n] c"
    have IH: "k < cl_maxLen c \<Longrightarrow>
        cl_Get (int k) ?f = (if b \<le> k \<and> k < n then cl_Get (int (k + d)) c else cl_Get (int k) c)" for k
      using Suc.IH [of k] Suc.prems(1) by simp
    have "cl_Get (int j) (cl_Set (int n) (cl_Get (int (n + d)) ?f) ?f)
        = (if j = n then cl_Get (int (n + d)) ?f else cl_Get (int j) ?f)"
      using Suc.prems assms(1) by (intro cl_Get_Set) (simp_all del: of_nat_add)
    then show ?thesis
      using IH [of j] IH [of "n + d"] Suc.prems True by (auto simp: less_Suc_eq simp del: of_nat_add)
  qed auto
qed simp

lemma fold_Set_down:
  assumes "clist_ok c" and "n + d \<le> cl_maxLen c" and "j < cl_maxLen c" and "b \<le> n"
  shows "cl_Get (int j) (fold (\<lambda>i c. cl_Set (int (i + d)) (cl_Get (int i) c) c) (rev [b..<n]) c)
      = (if b + d \<le> j \<and> j < n + d then cl_Get (int (j - d)) c else cl_Get (int j) c)"
  using assms(4,2,3)
proof (induction b arbitrary: j rule: inc_induct)
  case base
  then show ?case by auto
next
  case (step b)
  let ?f = "fold (\<lambda>i c. cl_Set (int (i + d)) (cl_Get (int i) c) c) (rev [Suc b..<n]) c"
  have IH: "k < cl_maxLen c \<Longrightarrow> cl_Get (int k) ?f =
      (if Suc b + d \<le> k \<and> k < n + d then cl_Get (int (k - d)) c else cl_Get (int k) c)" for k
    using step.IH [of k] step.prems by simp
  have "rev [b..<n] = rev [Suc b..<n] @ [b]" using step.hyps by (simp add: upt_conv_Cons)
  moreover have "cl_Get (int j) (cl_Set (int (b + d)) (cl_Get (int b) ?f) ?f)
      = (if j = b + d then cl_Get (int b) ?f else cl_Get (int j) ?f)"
    using step.prems step.hyps assms(1) by (intro cl_Get_Set) (simp_all del: of_nat_add)
  ultimately show ?case
    using IH [of j] IH [of b] step.prems step.hyps by (auto simp del: of_nat_add of_nat_diff)
qed

lemma fold_store:
  assumes "clist_ok c" and "start + length items \<le> cl_maxLen c" and "j < cl_maxLen c"
  shows "cl_Get (int j) (fold (\<lambda>(i, item). cl_Set (int (start + i)) item) (enumerate 0 items) c)
      = (if start \<le> j \<and> j < start + length items then items ! (j - start) else cl_Get (int j) c)"
  using assms(2)
proof (induction items rule: rev_induct)
  case (snoc x xs)
  let ?f = "fold (\<lambda>(i, item). cl_Set (int (start + i)) item) (enumerate 0 xs) c"
  have ok: "clist_ok ?f" "cl_maxLen ?f = cl_maxLen c"
    using assms(1) fold_Set_frame [of "\<lambda>p. int (start + fst p)" "\<lambda>p _. snd p" "enumerate 0 xs" c]
    by (simp_all add: case_prod_unfold)
  have "cl_Get (int j) (cl_Set (int (start + length xs)) x ?f)
      = (if j = start + length xs then x else cl_Get (int j) ?f)"
    using snoc.prems assms(3) ok by (intro cl_Get_Set) (simp_all del: of_nat_add)
  then show ?case
    using snoc by (auto simp: enumerate_append_eq nth_append simp del: of_nat_add)
qed auto

lemma store_frame [simp]:
  "cl_length (splice_store s items c) = cl_length c" "cl_maxLen (splice_store s items c) = cl_maxLen c"
  "cl_startIdx (splice_store s items c) = cl_startIdx c" "clist_ok (splice_store s items c) = clist_ok c"
  "cl_trimmed (splice_store s items c) = cl_trimmed c"
  using fold_Set_frame [of "\<lambda>p. int (s + fst p)" "\<lambda>p _. snd p" "enumerate 0 items" c]
  by (simp_all add: splice_store_def case_prod_unfold)

lemma shift_frame [simp]:
  "cl_length (splice_shift s n c) = cl_length c" "cl_maxLen (splice_shift s n c) = cl_maxLen c"
  "cl_startIdx (splice_shift s n c) = cl_startIdx c" "clist_ok (splice_shift s n c) = clist_ok c"
  "cl_trimmed (splice_shift s n c) = cl_trimmed c"
  by (simp_all add: splice_shift_def)

section \<open>The operations on the abstract list\<close>

lemma clist_ok_update [simp]:
  "clist_ok (c\<lparr>cl_trimmed := t\<rparr>) = clist_ok c" "clist_ok (c\<lparr>cl_startIdx := s\<rparr>) = clist_ok c"
  by (simp_all add: clist_ok_def)

lemma clist_ok_length: "clist_ok c \<Longrightarrow> n \<le> cl_maxLen c \<Longrightarrow> clist_ok (c\<lparr>cl_length := n\<rparr>)"
  by (simp add: clist_ok_def)

lemma NewCircularList_view:
  "0 < n \<Longrightarrow> clist_ok (NewCircularList z n) \<and> clist_view (NewCircularList z n) = []"
  by (simp add: clist_ok_def NewCircularList_def clist_view_def)

lemma cl_Set_view:
  "clist_ok c \<Longrightarrow> i < cl_length c \<Longrightarrow> clist_view (cl_Set (int i) v c) = (clist_view c)[i := v]"
  by (rule nth_equalityI) (auto simp: cl_Get_Set clist_ok_def nth_list_update)

lemma cl_Push_ok: "clist_ok c \<Longrightarrow> clist_ok (cl_Push v c) \<and> cl_maxLen (cl_Push v c) = cl_maxLen c"
  by (auto simp: cl_Push_def Let_def cl_fire_trim_def) (auto simp: clist_ok_def cl_Set_def)

lemma cl_Push_view:
  assumes ok: "clist_ok c"
  shows "clist_view (cl_Push v c) =
    (if length (clist_view c) < cl_maxLen c then clist_view c @ [v] else tl (clist_view c) @ [v])"
proof (cases "cl_length c < cl_maxLen c")
  case True
  with ok show ?thesis
    by (intro nth_equalityI) (auto simp: cl_Push_def Let_def nth_append cl_Get_Set less_Suc_eq)
next
  case False
  then have full: "cl_length c = cl_maxLen c" "0 < cl_maxLen c" using ok by (auto simp: clist_ok_def)
  let ?c = "cl_Set (int (cl_length c)) v c"
  have wrap: "?c = cl_Set (int 0) v c"
    using full by (simp add: cl_Set_def getCyclicIndex_def)
  have push: "cl_Push v c = cl_fire_trim 1 (?c\<lparr>cl_startIdx := (cl_startIdx c + 1) mod int (cl_maxLen c)\<rparr>)"
    using full by (simp add: cl_Push_def Let_def)
  have get: "cl_Get (int i) (cl_Push v c) = (if Suc i = cl_maxLen c then v else cl_Get (int (Suc i)) c)"
    if "i < cl_maxLen c" for i
  proof -
    have "cl_Get (int i) (cl_Push v c) = cl_Get (int i + 1) (cl_Set (int 0) v c)"
      using cl_Get_start_mod [where i = "int i" and c = "cl_Set (int 0) v c" and s = "cl_startIdx c + 1"]
      by (simp add: push wrap cl_fire_trim_def)
    also have "\<dots> = (if Suc i = cl_maxLen c then v else cl_Get (int (Suc i)) c)"
    proof (cases "Suc i = cl_maxLen c")
      case True
      then have "int i + 1 = int 0 + int (cl_maxLen (cl_Set (int 0) v c))" by simp
      then have "cl_Get (int i + 1) (cl_Set (int 0) v c) = cl_Get (int 0) (cl_Set (int 0) v c)"
        by (simp only: cl_Get_wrap)
      also have "\<dots> = v" using full ok by (subst cl_Get_Set) auto
      finally show ?thesis using True by simp
    next
      case False
      then have "cl_Get (int (Suc i)) (cl_Set (int 0) v c) = cl_Get (int (Suc i)) c"
        using that full ok by (subst cl_Get_Set) auto
      with False show ?thesis by (simp add: add.commute)
    qed
    finally show ?thesis .
  qed
  have len: "cl_length (cl_Push v c) = cl_maxLen c" using full by (simp add: push cl_fire_trim_def)
  show ?thesis
  proof (rule nth_equalityI)
    fix i
    assume "i < length (clist_view (cl_Push v c))"
    then show "clist_view (cl_Push v c) ! i = (if length (clist_view c) < cl_maxLen c
        then clist_view c @ [v] else tl (clist_view c) @ [v]) ! i"
      using full len get [of i] by (auto simp: nth_append nth_tl)
  qed (use full len in simp)
qed

interpretation lines: bounded_log clist_ok cl_Push clist_view cl_maxLen
proof
  fix c :: "'a clist" and v
  assume ok: "clist_ok c"
  show "clist_ok (cl_Push v c)" "cl_maxLen (cl_Push v c) = cl_maxLen c"
    using cl_Push_ok [OF ok] by auto
  show "clist_view (cl_Push v c) =
      (if length (clist_view c) < cl_maxLen c then clist_view c @ [v] else tl (clist_view c) @ [v])"
    by (rule cl_Push_view [OF ok])
  show "length (clist_view c) \<le> cl_maxLen c" "0 < cl_maxLen c" using ok by (auto simp: clist_ok_def)
qed

lemma cl_Pop_view:
  assumes "clist_ok c" and "0 < cl_length c"
  shows "cl_Pop c = (last (clist_view c), snd (cl_Pop c)) \<and> clist_ok (snd (cl_Pop c))
    \<and> clist_view (snd (cl_Pop c)) = butlast (clist_view c)"
proof -
  have "last (clist_view c) = cl_Get (int (cl_length c - 1)) c"
    using assms(2) by (metis clist_view_nth diff_less last_conv_nth length_clist_view length_greater_0_conv
      less_numeral_extra(1))
  moreover have "clist_view (snd (cl_Pop c)) = butlast (clist_view c)"
    by (rule nth_equalityI) (auto simp: cl_Pop_def Let_def nth_butlast)
  ultimately show ?thesis using assms(1) by (auto simp: cl_Pop_def Let_def clist_ok_def)
qed

lemma TrimStart_view:
  "clist_ok c \<Longrightarrow> clist_ok (TrimStart n c) \<and> clist_view (TrimStart n c) = drop n (clist_view c)
     \<and> cl_trimmed (TrimStart n c) = cl_trimmed c + int (min n (cl_length c))"
  by (auto simp: TrimStart_def Let_def cl_fire_trim_def clist_ok_def intro!: nth_equalityI)
    (simp_all add: add.commute)

lemma SetMaxLength_view:
  assumes "clist_ok c" and "0 < n"
  shows "clist_ok (SetMaxLength z n c) \<and> clist_view (SetMaxLength z n c) = take n (clist_view c)
    \<and> cl_maxLen (SetMaxLength z n c) = n"
  using assms
  by (auto simp: SetMaxLength_def Let_def clist_ok_def cl_Get_def getCyclicIndex_def intro!: nth_equalityI)

lemma Recycle_view:
  assumes "clist_ok c" and "cl_length c = cl_maxLen c"
  shows "\<exists>c'. Recycle c = Some (hd (clist_view c), c') \<and> clist_ok c'
    \<and> clist_view c' = tl (clist_view c) @ [hd (clist_view c)]"
proof -
  let ?c = "cl_fire_trim 1 (c\<lparr>cl_startIdx := (cl_startIdx c + 1) mod int (cl_maxLen c)\<rparr>)"
  have get: "cl_Get i ?c = cl_Get (i + 1) c" for i
    using cl_Get_start_mod [where i = i and c = c and s = "cl_startIdx c + 1"] by (simp add: cl_fire_trim_def)
  have pos: "0 < cl_length c" using assms by (simp add: clist_ok_def)
  then have hd: "hd (clist_view c) = cl_Get 0 c"
    by (subst hd_conv_nth) (auto simp flip: length_greater_0_conv)
  have wrap: "cl_Get (int (cl_length c)) c = cl_Get 0 c"
    using cl_Get_wrap [of 0 c] assms(2) by simp
  have len: "cl_length ?c = cl_length c" "clist_ok ?c" using assms by (simp_all add: cl_fire_trim_def clist_ok_def)
  have "clist_view ?c = tl (clist_view c) @ [hd (clist_view c)]"
  proof (rule nth_equalityI)
    fix i
    assume i: "i < length (clist_view ?c)"
    show "clist_view ?c ! i = (tl (clist_view c) @ [hd (clist_view c)]) ! i"
    proof (cases "Suc i < cl_length c")
      case True
      then show ?thesis using i len get [of "int i"]
        by (auto simp: nth_append nth_tl add.commute)
    next
      case False
      then have "i = cl_length c - 1" using i len by simp
      then show ?thesis using i len get [of "int i"] pos wrap hd
        by (simp add: nth_append)
    qed
  qed (use len pos in simp)
  moreover have "Recycle c = Some (hd (clist_view c), ?c)"
    using assms(2) hd wrap get [of "int (cl_length c) - 1"]
    by (simp add: Recycle_def Let_def) (simp add: cl_fire_trim_def)
  ultimately show ?thesis using len by blast
qed

lemma splice_delete_view:
  assumes ok: "clist_ok c" and "start + n \<le> cl_length c"
  shows "clist_ok (splice_delete start n c) \<and> cl_maxLen (splice_delete start n c) = cl_maxLen c
    \<and> clist_view (splice_delete start n c) = take start (clist_view c) @ drop (start + n) (clist_view c)"
proof (cases "0 < n")
  case True
  let ?f = "fold (\<lambda>i c. cl_Set (int i) (cl_Get (int (i + n)) c) c) [start..<cl_length c - n] c"
  have len: "cl_length c \<le> cl_maxLen c" using ok by (simp add: clist_ok_def)
  have "clist_view (?f\<lparr>cl_length := cl_length c - n\<rparr>)
      = take start (clist_view c) @ drop (start + n) (clist_view c)"
  proof (rule nth_equalityI)
    fix i
    assume "i < length (clist_view (?f\<lparr>cl_length := cl_length c - n\<rparr>))"
    then have i: "i < cl_length c - n" by simp
    have "cl_Get (int i) ?f = (if start \<le> i \<and> i < cl_length c - n then cl_Get (int (i + n)) c
        else cl_Get (int i) c)"
      using i len assms by (intro fold_Set_up) auto
    then show "clist_view (?f\<lparr>cl_length := cl_length c - n\<rparr>) ! i
        = (take start (clist_view c) @ drop (start + n) (clist_view c)) ! i"
      using i assms(2) by (auto simp: nth_append min_def add.commute simp del: of_nat_add)
  qed (use assms(2) in auto)
  moreover have "clist_ok (?f\<lparr>cl_length := cl_length c - n\<rparr>)"
    using ok len by (intro clist_ok_length) auto
  ultimately show ?thesis using True by (simp add: splice_delete_def)
qed (use ok in \<open>simp add: splice_delete_def\<close>)

lemma Splice_view:
  assumes ok: "clist_ok c" and del: "start + n \<le> cl_length c"
    and fits: "cl_length c - n + length items \<le> cl_maxLen c"
  shows "clist_ok (Splice start n items c)
    \<and> clist_view (Splice start n items c)
        = take start (clist_view c) @ items @ drop (start + n) (clist_view c)"
proof -
  let ?c1 = "splice_delete start n c" and ?k = "length items"
  let ?c2 = "splice_store start items (splice_shift start ?k ?c1)"
  from splice_delete_view [OF ok del] have c1: "clist_ok ?c1" "cl_maxLen ?c1 = cl_maxLen c"
    and v1: "clist_view ?c1 = take start (clist_view c) @ drop (start + n) (clist_view c)" by auto
  have l1: "cl_length ?c1 = cl_length c - n"
    using arg_cong [OF v1, of length] del by (simp add: min_def split: if_splits)
  have ok2: "clist_ok (?c2\<lparr>cl_length := cl_length ?c1 + ?k\<rparr>)"
    using c1 fits l1 by (intro clist_ok_length) auto
  have "clist_view (?c2\<lparr>cl_length := cl_length ?c1 + ?k\<rparr>)
      = take start (clist_view ?c1) @ items @ drop start (clist_view ?c1)"
  proof (rule nth_equalityI)
    fix i
    assume "i < length (clist_view (?c2\<lparr>cl_length := cl_length ?c1 + ?k\<rparr>))"
    then have i: "i < cl_length ?c1 + ?k" by simp
    have im: "i < cl_maxLen ?c1" using i fits c1 l1 by simp
    have "cl_Get (int i) ?c2 = (if start \<le> i \<and> i < start + ?k then items ! (i - start)
        else cl_Get (int i) (splice_shift start ?k ?c1))"
      unfolding splice_store_def
      by (rule fold_store) (use c1 del fits l1 im in simp_all)
    moreover have "cl_Get (int i) (splice_shift start ?k ?c1) =
        (if start + ?k \<le> i \<and> i < cl_length ?c1 + ?k then cl_Get (int (i - ?k)) ?c1 else cl_Get (int i) ?c1)"
      unfolding splice_shift_def
      by (rule fold_Set_down) (use c1 del fits l1 im in simp_all)
    moreover have "(take start (clist_view ?c1) @ items @ drop start (clist_view ?c1)) ! i =
        (if i < start then clist_view ?c1 ! i else if i < start + ?k then items ! (i - start)
         else clist_view ?c1 ! (i - ?k))"
    proof -
      have t: "length (take start (clist_view ?c1)) = start" using l1 del by simp
      show ?thesis
        by (simp only: nth_append t) (use i in \<open>auto simp: not_less less_diff_conv2 nth_append\<close>)
    qed
    ultimately show "clist_view (?c2\<lparr>cl_length := cl_length ?c1 + ?k\<rparr>) ! i
        = (take start (clist_view ?c1) @ items @ drop start (clist_view ?c1)) ! i"
      using i del l1 by (simp del: of_nat_diff)
  qed (use l1 del in auto)
  moreover have "take start (clist_view ?c1) = take start (clist_view c)"
    "drop start (clist_view ?c1) = drop (start + n) (clist_view c)"
    using del unfolding v1 by simp_all
  moreover have "Splice start n items c = (if items = [] then ?c1 else ?c2\<lparr>cl_length := cl_length ?c1 + ?k\<rparr>)"
    using fits l1 c1 by (simp add: Splice_def Let_def)
  ultimately show ?thesis using ok2 c1 v1 by simp
qed

lemma fold_Set_const:
  assumes "clist_ok c" and "n \<le> cl_maxLen c" and "j < cl_maxLen c"
  shows "cl_Get (int j) (fold (\<lambda>i. cl_Set (int i) z) [b..<n] c)
      = (if b \<le> j \<and> j < n then z else cl_Get (int j) c)"
  using assms(2)
proof (induction n)
  case (Suc n)
  let ?f = "fold (\<lambda>i. cl_Set (int i) z) [b..<n] c"
  have "cl_Get (int j) (cl_Set (int n) z ?f) = (if j = n then z else cl_Get (int j) ?f)"
    using Suc.prems assms fold_Set_frame [of int "\<lambda>_ _. z" "[b..<n]" c] by (intro cl_Get_Set) simp_all
  then show ?case using Suc by (auto simp: less_Suc_eq)
qed simp

lemma SetLength_view:
  assumes "clist_ok c" and "n \<le> cl_maxLen c"
  shows "clist_ok (SetLength z n c)
    \<and> clist_view (SetLength z n c) = take n (clist_view c) @ replicate (n - cl_length c) z"
proof -
  let ?f = "fold (\<lambda>i. cl_Set (int i) z) [cl_length c..<n] c"
  note frame = fold_Set_frame [of int "\<lambda>_ _. z" "[cl_length c..<n]" c]
  have "clist_ok (?f\<lparr>cl_length := n\<rparr>)"
    using assms frame by (intro clist_ok_length) simp_all
  moreover have "clist_view (?f\<lparr>cl_length := n\<rparr>) = take n (clist_view c) @ replicate (n - cl_length c) z"
  proof (rule nth_equalityI)
    fix i
    assume "i < length (clist_view (?f\<lparr>cl_length := n\<rparr>))"
    then show "clist_view (?f\<lparr>cl_length := n\<rparr>) ! i = (take n (clist_view c) @ replicate (n - cl_length c) z) ! i"
      using fold_Set_const [OF assms, of i z "cl_length c"] assms(2) by (auto simp: nth_append)
  qed auto
  ultimately show ?thesis by (simp add: SetLength_def)
qed

text \<open>The loops of \<^verbatim>\<open>ShiftElements\<close> in the form of the lemmas on ranges.\<close>

lemma shift_loop_down:
  "fold (\<lambda>i c. cl_Set (int p + int i + int d) (cl_Get (int p + int i) c) c) (rev [0..<k]) c
     = fold (\<lambda>i c. cl_Set (int (i + d)) (cl_Get (int i) c) c) (rev [p..<p + k]) c"
proof -
  have "[p..<p + k] = map (\<lambda>i. i + p) [0..<k]" by (simp add: map_add_upt add.commute)
  then show ?thesis by (simp add: rev_map fold_map comp_def add_ac)
qed

lemma shift_loop_up:
  assumes "q + d = p"
  shows "fold (\<lambda>i c. cl_Set (int p + int i - int d) (cl_Get (int p + int i) c) c) [0..<k] c
     = fold (\<lambda>i c. cl_Set (int i) (cl_Get (int (i + d)) c) c) [q..<q + k] c"
proof -
  have "[q..<q + k] = map (\<lambda>i. i + q) [0..<k]" by (simp add: map_add_upt add.commute)
  moreover have "int p + int i - int d = int i + int q" "int p + int i = int i + int q + int d" for i
    using assms by simp_all
  ultimately show ?thesis by (simp only: fold_map comp_def of_nat_add)
qed

lemma overwrite_nth:
  assumes "q \<le> length v" and "p + k \<le> length v" and "j < max (length v) (q + k)"
  shows "(take q v @ take k (drop p v) @ drop (q + k) v) ! j = (if q \<le> j \<and> j < q + k then v ! (p + (j - q)) else v ! j)"
proof -
  have t: "length (take q v) = q" "length (take k (drop p v)) = k" using assms(1,2) by simp_all
  show ?thesis by (simp only: nth_append t) (use assms in auto)
qed

lemma overwrite_length:
  "q \<le> length v \<Longrightarrow> p + k \<le> length v \<Longrightarrow>
   length (take q v @ take k (drop p v) @ drop (q + k) v) = max (length v) (q + k)"
  by auto

lemma shift_trim_id: "cl_length c \<le> cl_maxLen c \<Longrightarrow> shift_trim c = c"
  by (simp add: shift_trim.simps)

lemma ShiftElements_view:
  assumes ok: "clist_ok c" and k: "0 < k" and src: "p + k \<le> cl_length c"
    and q: "int q = int p + offset" "q \<le> cl_length c" "q + k \<le> cl_maxLen c"
  shows "\<exists>c'. ShiftElements (int p) (int k) offset c = Some c' \<and> clist_ok c'
    \<and> clist_view c' = take q (clist_view c) @ take k (drop p (clist_view c)) @ drop (q + k) (clist_view c)"
proof -
  let ?v = "clist_view c" and ?w = "take q (clist_view c) @ take k (drop p (clist_view c)) @ drop (q + k) (clist_view c)"
  have len: "cl_length c \<le> cl_maxLen c" using ok by (simp add: clist_ok_def)
  have lw: "length ?w = max (cl_length c) (q + k)" using overwrite_length [of q ?v p k] q src by simp
  show ?thesis
  proof (cases "0 < offset")
    case True
    define d where "d = nat offset"
    have d: "offset = int d" "q = p + d" using True q by (simp_all add: d_def)
    let ?f = "fold (\<lambda>i c. cl_Set (int (i + d)) (cl_Get (int i) c) c) (rev [p..<p + k]) c"
    let ?g = "?f\<lparr>cl_length := max (cl_length c) (q + k)\<rparr>"
    have "?f\<lparr>cl_length := cl_length c\<rparr> = ?f" by simp
    then have "ShiftElements (int p) (int k) offset c = Some ?g"
      using k src q len True d
      by (auto simp: ShiftElements_def Let_def shift_loop_down shift_trim_id max_def simp del: of_nat_add)
    moreover have "clist_ok ?g" using ok len q by (intro clist_ok_length) simp_all
    moreover have "clist_view ?g = ?w"
    proof (rule nth_equalityI)
      fix j
      assume "j < length (clist_view ?g)"
      then have j: "j < max (cl_length c) (q + k)" by simp
      have "cl_Get (int j) ?f = (if p + d \<le> j \<and> j < p + k + d then cl_Get (int (j - d)) c else cl_Get (int j) c)"
        using ok len q d j by (intro fold_Set_down) auto
      then show "clist_view ?g ! j = ?w ! j"
        using overwrite_nth [of q ?v p k j] j q src d by (auto simp del: of_nat_diff of_nat_add split: if_splits)
    qed (use lw in simp)
    ultimately show ?thesis by blast
  next
    case False
    define d where "d = nat (- offset)"
    have d: "offset = - int d" "q + d = p" using False q by (simp_all add: d_def)
    let ?f = "fold (\<lambda>i c. cl_Set (int i) (cl_Get (int (i + d)) c) c) [q..<q + k] c"
    have "ShiftElements (int p) (int k) offset c = Some ?f"
      using k src q False d shift_loop_up [OF d(2), of k c]
      by (simp add: ShiftElements_def del: of_nat_add)
    moreover have "clist_view ?f = ?w"
    proof (rule nth_equalityI)
      fix j
      assume "j < length (clist_view ?f)"
      then have j: "j < cl_length c" by simp
      have "cl_Get (int j) ?f = (if q \<le> j \<and> j < q + k then cl_Get (int (j + d)) c else cl_Get (int j) c)"
        using ok len q d j src by (intro fold_Set_up) auto
      moreover have "q \<le> j \<Longrightarrow> p + (j - q) = j + d" using d by simp
      ultimately show "clist_view ?f ! j = ?w ! j"
        using overwrite_nth [of q ?v p k j] j q src d by (auto simp del: of_nat_diff of_nat_add split: if_splits)
    qed (use lw d src in simp)
    ultimately show ?thesis using ok by (intro exI [of _ ?f]) simp
  qed
qed

section \<open>Properties\<close>



text \<open>
  The scrollback keeps the newest lines: after any number of pushes onto a valid list its
  contents are the last \<open>maxLen\<close> of the old contents followed by what was pushed.
\<close>

theorem scrollback_keeps_newest:
  assumes "clist_ok c"
  shows "clist_view (fold cl_Push xs c)
    = drop (cl_length c + length xs - cl_maxLen c) (clist_view c @ xs)"
  using lines.pushes_view [OF assms, of xs] by (simp add: lines.last_of_def)

theorem scrollback_keeps_newest_witness:
  "clist_view (fold cl_Push [1, 2, 3] (NewCircularList (0 :: nat) 2)) = [2, 3]"
proof -
  have "clist_ok (NewCircularList (0 :: nat) 2)" "clist_view (NewCircularList (0 :: nat) 2) = []"
    "cl_maxLen (NewCircularList (0 :: nat) 2) = 2"  "cl_length (NewCircularList (0 :: nat) 2) = 0"
    using NewCircularList_view [of 2 "0 :: nat"] by (simp_all add: NewCircularList_def)
  with scrollback_keeps_newest [OF this(1), of "[1, 2, 3]"] show ?thesis by simp
qed

text \<open>
  When an insertion overflows the list, the shift wraps around onto elements not yet moved, and
  the trim cannot repair it: inserting two elements after the first of a full list of four
  should leave the last four of 1, 9, 8, 2, 3, 4.
\<close>

theorem splice_overflow_corrupts:
  "let c = fold cl_Push [1, 2, 3, 4] (NewCircularList (0 :: nat) 4) in
     clist_view c = [1, 2, 3, 4] \<and> clist_view (Splice 1 0 [9, 8] c) = [8, 4, 3, 9]
     \<and> lines.last_of 4 [1, 9, 8, 2, 3, 4] = [8, 2, 3, 4 :: nat]"
  by code_simp

end
