(* ===== verification/File_Transfer.thy ===== *)
theory File_Transfer
  imports Dir_List
begin

text \<open>
  Sending files (\<^verbatim>\<open>filetransfer.go\<close>): the staged list, the active transfers and their
  cancellation, the sliding window of acknowledgements, and the loop that cuts a file into
  frames. A task is shared by the map of active transfers and the goroutine that sends it, so
  tasks live in a store indexed by their id and \<open>ft_active\<close> is the set of ids in the map.
  Closing a closed channel panics in Go: the operations that close return \<open>None\<close> then. What the
  file system, the clock and the transport answer are arguments.
\<close>

section \<open>State\<close>

record StagedFileEntry =
  se_Info :: StagedFile
  se_FilePath :: string

record FileSendTask =
  tk_FileName :: string
  tk_FilePath :: string
  tk_FileSize :: int
  tk_TotalChunks :: nat
  tk_acked :: "32 word"
  tk_ackNotify :: bool
  tk_cancelled :: bool
  tk_onceDone :: bool

record file_mgr =
  ft_tasks :: "u32 \<Rightarrow> FileSendTask option"
  ft_active :: "u32 set"
  ft_staged :: "StagedFileEntry list"
  ft_nextID :: u32

definition file_mgr0 :: file_mgr where
  "file_mgr0 = \<lparr>ft_tasks = Map.empty, ft_active = {}, ft_staged = [], ft_nextID = 0\<rparr>"

definition fileAckWindow :: "32 word" where [simp]: "fileAckWindow = 4"

section \<open>Frame sizes\<close>

definition frameLimitForChannel :: "bool \<Rightarrow> nat" where
  "frameLimitForChannel p2p = (if p2p then P2PMaxMessageSize else MaxFrameSize)"

definition fileChunkLimitFor :: "bool \<Rightarrow> nat" where
  "fileChunkLimitFor p2p =
    (let limit = frameLimitForChannel p2p in
     if \<not> p2p \<and> FileRelayChunk < limit then FileRelayChunk else limit)"

definition fileHeader :: nat where [simp]: "fileHeader = 9"

definition chunkSizeFor :: "int \<Rightarrow> bool \<Rightarrow> bool \<Rightarrow> nat" where
  "chunkSizeFor configured p2p secureOn =
    (let frameLimit = fileChunkLimitFor p2p;
         secureOverhead = (if secureOn then SecureBinaryOverhead else 0);
         most = frameLimit - fileHeader - secureOverhead in
     if configured \<le> 0 \<or> int most < configured then most else nat configured)"

definition totalChunksFor :: "int \<Rightarrow> nat \<Rightarrow> nat" where
  "totalChunksFor fileSize chunkSize =
    (let n = nat ((fileSize + int chunkSize - 1) div int chunkSize) in if n = 0 then 1 else n)"

section \<open>The staged list\<close>

text \<open>\<^verbatim>\<open>filepath.Base\<close> and \<^verbatim>\<open>filepath.Ext\<close> of a Unix build.\<close>

definition filepath_Base :: "string \<Rightarrow> string" where
  "filepath_Base path =
    (if path = [] then ''.''
     else
       let p = rev (dropWhile (\<lambda>c. c = CHR ''/'') (rev path));
           b = rev (takeWhile (\<lambda>c. c \<noteq> CHR ''/'') (rev p)) in
       if b = [] then ''/'' else b)"

definition filepath_Ext :: "string \<Rightarrow> string" where
  "filepath_Ext path =
    (let e = rev (takeWhile (\<lambda>c. c \<noteq> CHR ''/'' \<and> c \<noteq> CHR ''.'') (rev path));
         r = dropWhile (\<lambda>c. c \<noteq> CHR ''/'' \<and> c \<noteq> CHR ''.'') (rev path) in
     case r of [] \<Rightarrow> [] | c # _ \<Rightarrow> if c = CHR ''.'' then CHR ''.'' # e else [])"

definition staged_name :: "string \<Rightarrow> string \<Rightarrow> string" where
  "staged_name origName timeStr =
    (let ext = filepath_Ext origName;
         nameWithoutExt = take (length origName - length ext) origName in
     nameWithoutExt @ ''_'' @ timeStr @ ext)"

definition file_list_message :: "file_mgr \<Rightarrow> Message" where
  "file_list_message f = Message0\<lparr>Type := TypeFileList, Files := map se_Info (ft_staged f)\<rparr>"

text \<open>
  The file system's answers while a file is staged: the absolute path, size and kind from
  \<^verbatim>\<open>Stat\<close>, and whether opening, creating and copying succeed.
\<close>

record stage_env =
  sg_abs :: "string + string"
  sg_stat :: "string + (bool \<times> int)"
  sg_time :: string
  sg_open :: "string option"
  sg_create :: "string option"
  sg_copy :: "string option"
  sg_dir :: string

definition StageFile :: "stage_env \<Rightarrow> file_mgr \<Rightarrow> (string + Message list) \<times> file_mgr" where
  "StageFile e f =
    (case sg_abs e of
       Inl err \<Rightarrow> (Inl (''path resolution failed: '' @ err), f)
     | Inr absPath \<Rightarrow>
       (case sg_stat e of
          Inl err \<Rightarrow> (Inl (''file does not exist: '' @ err), f)
        | Inr (isDir, sz) \<Rightarrow>
          if isDir then (Inl ''sending directories is not yet supported'', f)
          else
            let origName = filepath_Base absPath;
                stagedName = staged_name origName (sg_time e);
                fileID = ft_nextID f + 1;
                f1 = f\<lparr>ft_nextID := fileID\<rparr>;
                dstPath = sg_dir e @ ''/'' @ stagedName in
            (case sg_open e of
               Some err \<Rightarrow> (Inl (''open source file failed: '' @ err), f1)
             | None \<Rightarrow>
               (case sg_create e of
                  Some err \<Rightarrow> (Inl (''create staged file failed: '' @ err), f1)
                | None \<Rightarrow>
                  (case sg_copy e of
                     Some err \<Rightarrow> (Inl (''copy file failed: '' @ err), f1)
                   | None \<Rightarrow>
                     let entry = \<lparr>se_Info = \<lparr>sf_ID = fileID, sf_FileName = stagedName,
                           sf_OriginalName = origName, sf_Size = sz, sf_Time = sg_time e\<rparr>,
                           se_FilePath = dstPath\<rparr>;
                         f2 = f1\<lparr>ft_staged := ft_staged f1 @ [entry]\<rparr> in
                     (Inr [file_list_message f2], f2))))))"

fun find_staged :: "u32 \<Rightarrow> StagedFileEntry list \<Rightarrow> StagedFileEntry option" where
  "find_staged i [] = None"
| "find_staged i (e # es) = (if sf_ID (se_Info e) = i then Some e else find_staged i es)"

fun delete_staged :: "u32 \<Rightarrow> StagedFileEntry list \<Rightarrow> StagedFileEntry list" where
  "delete_staged i [] = []"
| "delete_staged i (e # es) = (if sf_ID (se_Info e) = i then es else e # delete_staged i es)"

section \<open>Starting a transfer\<close>

text \<open>
  \<open>statRes\<close> is what \<^verbatim>\<open>os.Stat\<close> of the staged copy says; \<open>channel\<close> is whether P2P is selected
  and whether the secure channel is active.
\<close>

definition startSendFromStaged ::
  "int \<Rightarrow> bool \<times> bool \<Rightarrow> string + int \<Rightarrow> string \<Rightarrow> file_mgr
     \<Rightarrow> (string + (Message list \<times> u32 \<times> nat)) \<times> file_mgr" where
  "startSendFromStaged configured channel statRes filePath f =
    (case statRes of
       Inl err \<Rightarrow> (Inl (''file does not exist: '' @ err), f)
     | Inr fileSize \<Rightarrow>
         let fileName = filepath_Base filePath;
             chunkSize = chunkSizeFor configured (fst channel) (snd channel);
             totalChunks = totalChunksFor fileSize chunkSize;
             fileID = ft_nextID f + 1;
             task = \<lparr>tk_FileName = fileName, tk_FilePath = filePath, tk_FileSize = fileSize,
               tk_TotalChunks = totalChunks, tk_acked = 0, tk_ackNotify = False,
               tk_cancelled = False, tk_onceDone = False\<rparr> in
         (Inr ([Message0\<lparr>Type := TypeFileSendBegin, FileID := fileID, FileName := fileName,
                  FileSize := fileSize, TotalChunks := int totalChunks\<rparr>], fileID, chunkSize),
          f\<lparr>ft_nextID := fileID, ft_tasks := (ft_tasks f)(fileID \<mapsto> task),
            ft_active := insert fileID (ft_active f)\<rparr>))"

definition HandleRequest ::
  "int \<Rightarrow> bool \<times> bool \<Rightarrow> (string \<Rightarrow> string + int) \<Rightarrow> u32 \<Rightarrow> file_mgr
     \<Rightarrow> (string + (Message list \<times> u32 \<times> nat)) \<times> file_mgr" where
  "HandleRequest configured channel statOf fileID f =
    (case find_staged fileID (ft_staged f) of
       None \<Rightarrow> (Inl (''file does not exist (id='' @ string_of_bytes (dec_digits (unat fileID)) @ '')''), f)
     | Some entry \<Rightarrow>
         startSendFromStaged configured channel (statOf (se_FilePath entry)) (se_FilePath entry) f)"

section \<open>Cancelling\<close>

text \<open>\<^verbatim>\<open>close(task.cancel)\<close>: panics when the channel is closed already.\<close>

definition close_cancel :: "FileSendTask \<Rightarrow> FileSendTask option" where
  "close_cancel t = (if tk_cancelled t then None else Some (t\<lparr>tk_cancelled := True\<rparr>))"

definition cancel_once :: "FileSendTask \<Rightarrow> FileSendTask option" where
  "cancel_once t =
    (if tk_onceDone t then Some t
     else map_option (\<lambda>t. t\<lparr>tk_onceDone := True\<rparr>) (close_cancel t))"

definition update_task ::
  "(FileSendTask \<Rightarrow> FileSendTask option) \<Rightarrow> u32 \<Rightarrow> file_mgr \<Rightarrow> file_mgr option" where
  "update_task g i f =
    (case ft_tasks f i of
       None \<Rightarrow> Some f
     | Some t \<Rightarrow> map_option (\<lambda>t'. f\<lparr>ft_tasks := (ft_tasks f)(i \<mapsto> t')\<rparr>) (g t))"

definition HandleDelete :: "u32 \<Rightarrow> file_mgr \<Rightarrow> file_mgr option" where
  "HandleDelete fileID f =
    (let f1 = f\<lparr>ft_staged := delete_staged fileID (ft_staged f)\<rparr> in
     if fileID \<in> ft_active f1 then update_task close_cancel fileID f1 else Some f1)"

definition Cancel :: "u32 \<Rightarrow> file_mgr \<Rightarrow> file_mgr option" where
  "Cancel fileID f =
    (if fileID \<in> ft_active f
     then update_task cancel_once fileID (f\<lparr>ft_active := ft_active f - {fileID}\<rparr>)
     else Some f)"

text \<open>\<open>ids\<close> is the order in which the map of active tasks is ranged over.\<close>

fun cancel_tasks :: "u32 list \<Rightarrow> file_mgr \<Rightarrow> file_mgr option" where
  "cancel_tasks [] f = Some f"
| "cancel_tasks (i # is) f =
     (case update_task cancel_once i f of None \<Rightarrow> None | Some f' \<Rightarrow> cancel_tasks is f')"

definition CancelAll :: "u32 list \<Rightarrow> file_mgr \<Rightarrow> file_mgr option" where
  "CancelAll ids f = cancel_tasks ids (f\<lparr>ft_active := {}\<rparr>)"

section \<open>Flow control\<close>

definition HandleAck :: "u32 \<Rightarrow> int \<Rightarrow> file_mgr \<Rightarrow> file_mgr" where
  "HandleAck fileID received f =
    (if fileID \<in> ft_active f then
       (case ft_tasks f fileID of
          None \<Rightarrow> f
        | Some t \<Rightarrow>
            if sint (tk_acked t) < sint (word_of_int received :: 32 word)
            then f\<lparr>ft_tasks := (ft_tasks f)(fileID \<mapsto>
                    t\<lparr>tk_acked := word_of_int received, tk_ackNotify := True\<rparr>)\<rparr>
            else f)
     else f)"

datatype ackWaitResult = ackWaitReady | ackWaitCancelled | ackWaitTimeout

text \<open>The condition of the wait: the sender proceeds when it fails.\<close>

definition window_full :: "32 word \<Rightarrow> nat \<Rightarrow> bool" where
  "window_full acked chunkIdx \<longleftrightarrow> sint (acked + fileAckWindow) \<le> sint (word_of_nat chunkIdx :: 32 word)"

text \<open>
  What can end one turn of the wait: a wake-up with the acknowledgement count then stored, the
  cancellation, or thirty seconds without either. \<open>None\<close> is a sender still parked when the
  events run out.
\<close>

datatype wake = WakeAck "32 word" | WakeCancel | WakeTimeout

fun awaitAckWindow :: "32 word \<Rightarrow> nat \<Rightarrow> wake list \<Rightarrow> (ackWaitResult \<times> 32 word) option" where
  "awaitAckWindow acked chunkIdx evs =
    (if window_full acked chunkIdx then
       (case evs of
          [] \<Rightarrow> None
        | WakeAck a # es \<Rightarrow> awaitAckWindow a chunkIdx es
        | WakeCancel # es \<Rightarrow> Some (ackWaitCancelled, acked)
        | WakeTimeout # es \<Rightarrow> Some (ackWaitTimeout, acked))
     else Some (ackWaitReady, acked))"

declare awaitAckWindow.simps [simp del]

section \<open>Sending the file\<close>

definition file_frame :: "u32 \<Rightarrow> nat \<Rightarrow> byte list \<Rightarrow> byte list" where
  "file_frame i chunkIdx payload =
     [OpcodeFileTransfer] @ put_u32 i @ put_u32 (word_of_nat chunkIdx) @ payload"

text \<open>
  What one pass of the loop meets: the end of the window wait, whether the task is cancelled
  after it, whether reading fails, and whether the transport took the frame.
\<close>

record chunk_env =
  ce_window :: ackWaitResult
  ce_cancelled :: bool
  ce_readError :: "string option"
  ce_sent :: bool

datatype file_event = FJson Message | FFrame "byte list"

definition hex_string :: "byte list \<Rightarrow> string" where
  "hex_string bs = concat (map (\<lambda>b. string_of_bytes [hex_digit (unat b div 16), hex_digit (unat b mod 16)]) bs)"

definition cancel_message :: "u32 \<Rightarrow> Message" where
  "cancel_message i = Message0\<lparr>Type := TypeFileSendCancel, FileID := i\<rparr>"

definition error_message :: "u32 \<Rightarrow> string \<Rightarrow> Message" where
  "error_message i err = Message0\<lparr>Type := TypeFileSendError, FileID := i, Error := err\<rparr>"

definition end_frame :: "(byte list \<Rightarrow> byte list) \<Rightarrow> u32 \<Rightarrow> byte list \<Rightarrow> byte list" where
  "end_frame sha i hashed =
     [OpcodeFileTransfer] @ replicate 8 0 @
     marshal_message (Message0\<lparr>Type := TypeFileSendEnd, FileID := i, Checksum := hex_string (sha hashed)\<rparr>)"

text \<open>
  \<open>todo\<close> is \<^verbatim>\<open>TotalChunks - chunkIdx\<close>, \<open>rest\<close> what has not been read of the file, \<open>hashed\<close> what
  has gone into the digest.
\<close>

fun send_loop ::
  "(byte list \<Rightarrow> byte list) \<Rightarrow> u32 \<Rightarrow> nat \<Rightarrow> bool \<Rightarrow> (nat \<Rightarrow> chunk_env) \<Rightarrow> nat \<Rightarrow> nat \<Rightarrow> byte list
     \<Rightarrow> byte list \<Rightarrow> file_event list" where
  "send_loop sha i chunkSize useWindow env 0 chunkIdx rest hashed = [FFrame (end_frame sha i hashed)]"
| "send_loop sha i chunkSize useWindow env (Suc todo) chunkIdx rest hashed =
    (let e = env chunkIdx in
     if useWindow \<and> ce_window e = ackWaitCancelled then [FJson (cancel_message i)]
     else if useWindow \<and> ce_window e = ackWaitTimeout
       then [FJson (error_message i ''ack timeout (app stalled)'')]
     else if ce_cancelled e then [FJson (cancel_message i)]
     else (case ce_readError e of
         Some err \<Rightarrow> [FJson (error_message i (''read failed: '' @ err))]
       | None \<Rightarrow>
           let buf = take chunkSize rest in
           if buf = [] then [FFrame (end_frame sha i hashed)]
           else if \<not> ce_sent e then []
           else FFrame (file_frame i chunkIdx buf) #
             send_loop sha i chunkSize useWindow env todo (chunkIdx + 1) (drop chunkSize rest)
               (hashed @ buf)))"

definition sendFile ::
  "(byte list \<Rightarrow> byte list) \<Rightarrow> u32 \<Rightarrow> FileSendTask \<Rightarrow> nat \<Rightarrow> bool \<Rightarrow> string + byte list
     \<Rightarrow> (nat \<Rightarrow> chunk_env) \<Rightarrow> file_event list" where
  "sendFile sha i task chunkSize p2p opened env =
    (case opened of
       Inl err \<Rightarrow> [FJson (error_message i (''open file failed: '' @ err))]
     | Inr content \<Rightarrow>
         send_loop sha i chunkSize (\<not> p2p) env (tk_TotalChunks task) 0 content [])"

text \<open>The deferred removal from the map of active tasks.\<close>

definition finish_task :: "u32 \<Rightarrow> file_mgr \<Rightarrow> file_mgr" where
  "finish_task i f = f\<lparr>ft_active := ft_active f - {i}\<rparr>"

lemmas [unfold_ops] = HandleDelete_def Cancel_def CancelAll_def HandleAck_def finish_task_def
  StageFile_def startSendFromStaged_def HandleRequest_def

section \<open>What the loop sends\<close>

definition chunk_frames :: "u32 \<Rightarrow> nat \<Rightarrow> byte list list \<Rightarrow> file_event list" where
  "chunk_frames i k chunks = map (\<lambda>(j, ch). FFrame (file_frame i j ch)) (enumerate k chunks)"

lemma chunk_frames_simps [simp]:
  "chunk_frames i k [] = []"
  "chunk_frames i k (ch # chs) = FFrame (file_frame i k ch) # chunk_frames i (Suc k) chs"
  by (simp_all add: chunk_frames_def)

definition closing :: "(byte list \<Rightarrow> byte list) \<Rightarrow> u32 \<Rightarrow> byte list \<Rightarrow> file_event list \<Rightarrow> bool" where
  "closing sha i bs tail \<longleftrightarrow> tail = [] \<or> (\<exists>m. tail = [FJson m] \<and> Type m \<in> {TypeFileSendCancel, TypeFileSendError})
     \<or> tail = [FFrame (end_frame sha i bs)]"

lemma send_loop_prefix:
  "\<exists>chunks tail. send_loop sha i c w env todo k rest hashed = chunk_frames i k chunks @ tail
     \<and> (\<exists>more. rest = concat chunks @ more) \<and> (\<forall>ch \<in> set chunks. ch \<noteq> [] \<and> length ch \<le> c)
     \<and> length chunks \<le> todo \<and> closing sha i (hashed @ concat chunks) tail"
proof (induction todo arbitrary: k rest hashed)
  case 0
  show ?case by (intro exI [of _ "[]"] exI [of _ "[FFrame (end_frame sha i hashed)]"]) (simp add: closing_def)
next
  case (Suc todo)
  let ?e = "env k" and ?buf = "take c rest"
  show ?case
  proof (cases "(w \<and> ce_window ?e \<noteq> ackWaitReady) \<or> ce_cancelled ?e \<or> ce_readError ?e \<noteq> None
      \<or> ?buf = [] \<or> \<not> ce_sent ?e")
    case True
    have "closing sha i hashed (send_loop sha i c w env (Suc todo) k rest hashed)"
      using True
      by (cases "ce_window ?e")
        (auto simp: closing_def cancel_message_def error_message_def Message0_def Let_def split: option.splits)
    then show ?thesis
      by (intro exI [of _ "[]"] exI [of _ "send_loop sha i c w env (Suc todo) k rest hashed"])
        (simp del: send_loop.simps)
  next
    case False
    then have step: "send_loop sha i c w env (Suc todo) k rest hashed
        = FFrame (file_frame i k ?buf) # send_loop sha i c w env todo (Suc k) (drop c rest) (hashed @ ?buf)"
      by (auto simp: Let_def)
    obtain chunks tail where IH: "send_loop sha i c w env todo (Suc k) (drop c rest) (hashed @ ?buf)
          = chunk_frames i (Suc k) chunks @ tail"
        "\<exists>more. drop c rest = concat chunks @ more"
        "\<forall>ch \<in> set chunks. ch \<noteq> [] \<and> length ch \<le> c" "length chunks \<le> todo"
        "closing sha i ((hashed @ ?buf) @ concat chunks) tail"
      using Suc.IH [of "Suc k" "drop c rest" "hashed @ ?buf"] by blast
    from IH(2) obtain more where "drop c rest = concat chunks @ more" by blast
    then have "rest = concat (?buf # chunks) @ more"
      by (metis append_take_drop_id append.assoc concat.simps(2))
    moreover have "\<forall>ch \<in> set (?buf # chunks). ch \<noteq> [] \<and> length ch \<le> c"
      using False IH(3) by auto
    ultimately show ?thesis
      using step IH by (intro exI [of _ "?buf # chunks"] exI [of _ tail]) (auto simp del: send_loop.simps)
  qed
qed

text \<open>A pass that nothing disturbs.\<close>

definition undisturbed :: "chunk_env \<Rightarrow> bool" where
  "undisturbed e \<longleftrightarrow> ce_window e = ackWaitReady \<and> \<not> ce_cancelled e \<and> ce_readError e = None \<and> ce_sent e"

lemma send_loop_all:
  assumes "\<forall>k. undisturbed (env k)" and "0 < c" and "length rest \<le> todo * c"
  shows "\<exists>chunks. send_loop sha i c w env todo k rest hashed
      = chunk_frames i k chunks @ [FFrame (end_frame sha i (hashed @ rest))]
    \<and> concat chunks = rest \<and> (\<forall>ch \<in> set chunks. ch \<noteq> [] \<and> length ch \<le> c)
    \<and> length chunks = (length rest + c - 1) div c"
  using assms(3)
proof (induction todo arbitrary: k rest hashed)
  case 0
  then show ?case using assms(2) by (intro exI [of _ "[]"]) simp
next
  case (Suc todo)
  have e: "ce_window (env k) = ackWaitReady" "\<not> ce_cancelled (env k)" "ce_readError (env k) = None"
    "ce_sent (env k)" using assms(1) by (auto simp: undisturbed_def)
  show ?case
  proof (cases "rest = []")
    case True
    then show ?thesis using e assms(2) by (intro exI [of _ "[]"]) (simp add: Let_def)
  next
    case False
    then have buf: "take c rest \<noteq> []" using assms(2) by simp
    have "length (drop c rest) \<le> todo * c" using Suc.prems by simp
    from Suc.IH [OF this, of "Suc k" "hashed @ take c rest"]
    obtain chunks where IH: "send_loop sha i c w env todo (Suc k) (drop c rest) (hashed @ take c rest)
          = chunk_frames i (Suc k) chunks @ [FFrame (end_frame sha i (hashed @ rest))]"
        "concat chunks = drop c rest" "\<forall>ch \<in> set chunks. ch \<noteq> [] \<and> length ch \<le> c"
        "length chunks = (length (drop c rest) + c - 1) div c"
      by (metis append.assoc append_take_drop_id)
    have "Suc ((length rest - c + c - 1) div c) = (length rest + c - 1) div c"
    proof (cases "c \<le> length rest")
      case True
      then have "length rest + c - 1 = (length rest - c + c - 1) + c" using assms(2) by simp
      then show ?thesis using assms(2) by (metis Suc_eq_plus1 div_add_self2 less_numeral_extra(3))
    next
      case less: False
      have "length rest + c - 1 = (length rest - 1) + c" using False by (cases rest) auto
      then have "(length rest + c - 1) div c = (length rest - 1) div c + 1"
        using assms(2) by (metis div_add_self2 less_numeral_extra(3))
      moreover have "(length rest - 1) div c = 0" "(length rest - c + c - 1) div c = 0"
        using less by simp_all
      ultimately show ?thesis by (simp only: Suc_eq_plus1)
    qed
    then show ?thesis using IH e buf
      by (intro exI [of _ "take c rest # chunks"]) (auto simp: Let_def dest: in_set_takeD)
  qed
qed

lemma totalChunksFor_enough:
  assumes "0 < c"
  shows "n \<le> totalChunksFor (int n) c * c"
    and "0 < n \<Longrightarrow> totalChunksFor (int n) c = (n + c - 1) div c"
proof -
  have e: "nat ((int n + int c - 1) div int c) = (n + c - 1) div c"
  proof -
    have "int n + int c - 1 = int (n + c - 1)" using assms by simp
    then show ?thesis by (metis nat_int zdiv_int)
  qed
  have "n \<le> ((n + c - 1) div c) * c"
  proof -
    have "(n + c - 1) div c * c + (n + c - 1) mod c = n + c - 1" by (rule div_mult_mod_eq)
    moreover have "(n + c - 1) mod c < c" using assms by simp
    ultimately show ?thesis by linarith
  qed
  then show "n \<le> totalChunksFor (int n) c * c"
    by (cases "n = 0") (auto simp: totalChunksFor_def e Let_def)
  assume "0 < n"
  then have "(n + c - 1) div c \<noteq> 0" using assms by (simp add: div_eq_0_iff)
  then show "totalChunksFor (int n) c = (n + c - 1) div c" by (simp add: totalChunksFor_def e)
qed

lemma chunkSizeFor_bounds:
  "0 < chunkSizeFor cfg p2p on
   \<and> chunkSizeFor cfg p2p on + fileHeader + (if on then SecureBinaryOverhead else 0) \<le> fileChunkLimitFor p2p"
  by (auto simp: chunkSizeFor_def fileChunkLimitFor_def frameLimitForChannel_def Let_def)

lemma length_file_frame [simp]: "length (file_frame i k p) = length p + fileHeader"
  by (simp add: file_frame_def)

section \<open>Cancellation\<close>

definition cancel_ok :: "file_mgr \<Rightarrow> bool" where
  "cancel_ok f \<longleftrightarrow> (\<forall>i t. ft_tasks f i = Some t \<longrightarrow> tk_cancelled t = tk_onceDone t)"

datatype file_op =
    OpStart int "bool \<times> bool" "string + int" string
  | OpDelete u32 | OpCancel u32 | OpCancelAll "u32 list" | OpAck u32 int | OpFinish u32

fun file_step :: "file_op \<Rightarrow> file_mgr \<Rightarrow> file_mgr option" where
  "file_step (OpStart cfg ch st path) f = Some (snd (startSendFromStaged cfg ch st path f))"
| "file_step (OpDelete i) f = HandleDelete i f"
| "file_step (OpCancel i) f = Cancel i f"
| "file_step (OpCancelAll ids) f = CancelAll ids f"
| "file_step (OpAck i n) f = Some (HandleAck i n f)"
| "file_step (OpFinish i) f = Some (finish_task i f)"

fun file_run :: "file_op list \<Rightarrow> file_mgr \<Rightarrow> file_mgr option" where
  "file_run [] f = Some f"
| "file_run (p # ps) f = (case file_step p f of None \<Rightarrow> None | Some f' \<Rightarrow> file_run ps f')"

text \<open>Deletions name staged files, never the id of a running transfer.\<close>

fun deletes_staged :: "file_op list \<Rightarrow> file_mgr \<Rightarrow> bool" where
  "deletes_staged [] f = True"
| "deletes_staged (p # ps) f =
     ((case p of OpDelete i \<Rightarrow> i \<notin> ft_active f | _ \<Rightarrow> True)
      \<and> (case file_step p f of None \<Rightarrow> True | Some f' \<Rightarrow> deletes_staged ps f'))"

lemma cancel_ok_update [simp]:
  "cancel_ok (f\<lparr>ft_staged := s\<rparr>) = cancel_ok f" "cancel_ok (f\<lparr>ft_active := a\<rparr>) = cancel_ok f"
  "cancel_ok (f\<lparr>ft_nextID := n\<rparr>) = cancel_ok f"
  by (simp_all add: cancel_ok_def)

lemma update_cancel_once:
  "cancel_ok f \<Longrightarrow> \<exists>f'. update_task cancel_once i f = Some f' \<and> cancel_ok f'"
  by (cases "ft_tasks f i") (auto simp: update_task_def cancel_once_def close_cancel_def cancel_ok_def)

lemma cancel_tasks_ok: "cancel_ok f \<Longrightarrow> \<exists>f'. cancel_tasks ids f = Some f' \<and> cancel_ok f'"
proof (induction ids arbitrary: f)
  case (Cons i ids)
  then show ?case using update_cancel_once [OF Cons.prems, of i] by fastforce
qed simp

lemma file_step_ok:
  assumes "cancel_ok f" and "case p of OpDelete i \<Rightarrow> i \<notin> ft_active f | _ \<Rightarrow> True"
  shows "\<exists>f'. file_step p f = Some f' \<and> cancel_ok f'"
proof (cases p)
  case (OpStart cfg ch st path)
  with assms show ?thesis
    by (auto simp: startSendFromStaged_def Let_def cancel_ok_def split: sum.splits)
next
  case (OpDelete i)
  with assms show ?thesis by (simp add: HandleDelete_def Let_def)
next
  case (OpCancel i)
  have "\<exists>f'. update_task cancel_once i (f\<lparr>ft_active := ft_active f - {i}\<rparr>) = Some f' \<and> cancel_ok f'"
    using assms(1) by (intro update_cancel_once) simp
  with OpCancel assms show ?thesis by (simp add: Cancel_def)
next
  case (OpCancelAll ids)
  have "\<exists>f'. cancel_tasks ids (f\<lparr>ft_active := {}\<rparr>) = Some f' \<and> cancel_ok f'"
    using assms(1) by (intro cancel_tasks_ok) simp
  with OpCancelAll show ?thesis by (simp add: CancelAll_def)
next
  case (OpAck i n)
  with assms show ?thesis by (auto simp: HandleAck_def cancel_ok_def split: option.splits)
next
  case (OpFinish i)
  with assms show ?thesis by (simp add: finish_task_def)
qed

lemma file_run_ok:
  "cancel_ok f \<Longrightarrow> deletes_staged ps f \<Longrightarrow> \<exists>f'. file_run ps f = Some f' \<and> cancel_ok f'"
proof (induction ps arbitrary: f)
  case (Cons p ps)
  then have "case p of OpDelete i \<Rightarrow> i \<notin> ft_active f | _ \<Rightarrow> True" by simp
  from file_step_ok [OF Cons.prems(1) this] obtain f' where "file_step p f = Some f'" "cancel_ok f'" by blast
  with Cons show ?case by simp
qed simp

section \<open>Properties\<close>

text \<open>
  C21: An undisturbed transfer delivers the file. With the chunk size and the chunk count the
  daemon computes for a file, the frames carry, in order and under consecutive indices, pieces
  that concatenate to the file, followed by the frame with the digest of the whole; and every
  frame, with the envelope of the secure channel if it is on, is within the limit of the channel.
\<close>

theorem file_reassembles:
  assumes "\<forall>k. undisturbed (env k)" and "c = chunkSizeFor cfg p2p on"
    and "tk_TotalChunks task = totalChunksFor (int (length content)) c"
  shows "\<exists>chunks. sendFile sha i task c p2p (Inr content) env
      = chunk_frames i 0 chunks @ [FFrame (end_frame sha i content)]
    \<and> concat chunks = content
    \<and> (content \<noteq> [] \<longrightarrow> length chunks = tk_TotalChunks task)
    \<and> (\<forall>ch \<in> set chunks. ch \<noteq> [] \<and> length (file_frame i k ch)
         + (if on then SecureBinaryOverhead else 0) \<le> fileChunkLimitFor p2p)"
proof -
  have c: "0 < c" "c + fileHeader + (if on then SecureBinaryOverhead else 0) \<le> fileChunkLimitFor p2p"
    using chunkSizeFor_bounds [of cfg p2p on] assms(2) by auto
  have "length content \<le> tk_TotalChunks task * c"
    using totalChunksFor_enough(1) [OF c(1), of "length content"] assms(3) by simp
  from send_loop_all [OF assms(1) c(1) this, of sha i "\<not> p2p" 0 "[]"]
  obtain chunks where *: "send_loop sha i c (\<not> p2p) env (tk_TotalChunks task) 0 content []
        = chunk_frames i 0 chunks @ [FFrame (end_frame sha i content)]"
      "concat chunks = content" "\<forall>ch \<in> set chunks. ch \<noteq> [] \<and> length ch \<le> c"
      "length chunks = (length content + c - 1) div c" by auto
  have "\<forall>ch \<in> set chunks. ch \<noteq> [] \<and> length (file_frame i k ch)
      + (if on then SecureBinaryOverhead else 0) \<le> fileChunkLimitFor p2p"
    using *(3) c(2) by (auto simp del: fileHeader_def)
  moreover have "content \<noteq> [] \<longrightarrow> length chunks = tk_TotalChunks task"
    using *(4) totalChunksFor_enough(2) [OF c(1)] assms(3) by simp
  ultimately show ?thesis using * by (auto simp: sendFile_def)
qed

definition calm :: "nat \<Rightarrow> chunk_env" where
  "calm k = \<lparr>ce_window = ackWaitReady, ce_cancelled = False, ce_readError = None, ce_sent = True\<rparr>"

definition demo_task :: FileSendTask where
  "demo_task = \<lparr>tk_FileName = ''f'', tk_FilePath = ''f'', tk_FileSize = 3, tk_TotalChunks = 2,
     tk_acked = 0, tk_ackNotify = False, tk_cancelled = False, tk_onceDone = False\<rparr>"

theorem file_reassembles_witness:
  "\<exists>chunks. sendFile (\<lambda>_. []) 1 demo_task 2 True (Inr [7, 8, 9]) calm
      = chunk_frames 1 0 chunks @ [FFrame (end_frame (\<lambda>_. []) 1 [7, 8, 9])]
    \<and> concat chunks = [7, 8, 9] \<and> length chunks = 2"
proof -
  have "\<forall>k. undisturbed (calm k)" "(2 :: nat) = chunkSizeFor 2 True True"
    "tk_TotalChunks demo_task = totalChunksFor (int (length [7, 8, 9 :: byte])) 2"
    by (simp_all add: undisturbed_def calm_def chunkSizeFor_def fileChunkLimitFor_def
        frameLimitForChannel_def demo_task_def totalChunksFor_def)
  from file_reassembles [OF this, of "\<lambda>_. []" 1] show ?thesis by (auto simp: demo_task_def)
qed

text \<open>
  C22: Whatever disturbs a transfer, what has been sent is a beginning of the file: the frames
  carry its first bytes in order under consecutive indices, and after them comes nothing, one
  cancel or error message, or the frame with the digest of exactly the bytes sent.
\<close>

theorem file_send_prefix:
  "\<exists>chunks tail. sendFile sha i task c p2p (Inr content) env = chunk_frames i 0 chunks @ tail
     \<and> (\<exists>more. content = concat chunks @ more)
     \<and> length chunks \<le> tk_TotalChunks task \<and> closing sha i (concat chunks) tail"
  using send_loop_prefix [of sha i c "\<not> p2p" env "tk_TotalChunks task" 0 content "[]"]
  by (auto simp: sendFile_def)

lemma awaitAckWindow_ready:
  "awaitAckWindow acked k evs = Some (ackWaitReady, a) \<Longrightarrow> \<not> window_full a k"
proof (induction acked k evs rule: awaitAckWindow.induct)
  case (1 acked k evs)
  then show ?case
    by (subst (asm) (2) awaitAckWindow.simps) (auto split: if_splits list.splits wake.splits)
qed

text \<open>
  The window bounds what is in flight: when the wait before a chunk ends with the sender
  going ahead, fewer than four chunks before it are unacknowledged.
\<close>

theorem file_window:
  assumes "awaitAckWindow acked k evs = Some (ackWaitReady, a)"
    and "k < 2 ^ 31" and "0 \<le> sint a" and "sint a < 2 ^ 31 - 4"
  shows "int k < sint a + 4"
proof -
  have "sint (a + 4) = sint a + 4"
    using assms(3,4) sint_word_add [of a 4] by (simp add: signed_take_bit_int_eq_self)
  moreover have "sint (word_of_nat k :: 32 word) = int k"
    using assms(2) by (simp add: signed_of_nat signed_take_bit_int_eq_self)
  ultimately show ?thesis using awaitAckWindow_ready [OF assms(1)] by (simp add: window_full_def)
qed

theorem file_window_witness: "int 3 < sint (0 :: 32 word) + 4"
proof (rule file_window [of 0 3 "[]"])
  show "awaitAckWindow 0 3 [] = Some (ackWaitReady, 0)"
    by (simp add: awaitAckWindow.simps window_full_def)
qed simp_all

text \<open>
  Cancelling is safe: in any sequence of starts, acknowledgements, cancellations of one or
  of all transfers, completions and deletions of staged files, no channel is closed twice, so
  the daemon does not panic.
\<close>

theorem file_cancel_safe:
  assumes "deletes_staged ps file_mgr0"
  shows "\<exists>f. file_run ps file_mgr0 = Some f \<and> cancel_ok f"
  using assms by (intro file_run_ok) (simp_all add: cancel_ok_def file_mgr0_def)

definition demo_ops :: "file_op list" where
  "demo_ops = [OpStart 0 (False, True) (Inr 10) ''/t/f'', OpDelete 9, OpCancel 1, OpCancelAll [1]]"

theorem file_cancel_safe_witness: "\<exists>f. file_run demo_ops file_mgr0 = Some f \<and> cancel_ok f"
  by (rule file_cancel_safe)
    (simp add: demo_ops_def file_mgr0_def startSendFromStaged_def HandleDelete_def Cancel_def
      CancelAll_def update_task_def cancel_once_def close_cancel_def Let_def)

text \<open>
  \<^verbatim>\<open>HandleDelete\<close> closes the channel of a running transfer outside \<^verbatim>\<open>cancelOnce\<close>. Transfers
  take their ids from the counter of the staged files, so a deletion that names the id of a
  running transfer, followed by its cancellation, closes the channel twice and takes the daemon
  down; and deleting the staged file a transfer was started from does not stop the transfer.
\<close>

theorem delete_then_cancel_panics:
  "file_run [OpStart 0 (False, True) (Inr 10) ''/t/f'', OpDelete 1, OpCancel 1] file_mgr0 = None
   \<and> file_run [OpStart 0 (False, True) (Inr 10) ''/t/f'', OpDelete 1, OpDelete 1] file_mgr0 = None"
  by (simp add: file_mgr0_def startSendFromStaged_def HandleDelete_def Cancel_def update_task_def
      cancel_once_def close_cancel_def Let_def)

text \<open>
  The comparison of the window is on 32-bit integers: an acknowledgement near the top of their
  range makes \<^verbatim>\<open>acked + window\<close> negative, and the sender waits until it times out.
\<close>

theorem ack_overflow_blocks: "window_full (word_of_int (2 ^ 31 - 1)) 0"
  by (simp add: window_full_def)

text \<open>
  The frame size is fixed when a transfer starts. A transfer started on the relay goes on with
  frames of up to a mebibyte after the app has switched to P2P, whose limit is 64512 bytes.
\<close>

theorem relay_chunk_exceeds_p2p: "fileChunkLimitFor True < chunkSizeFor 0 False on"
  by (simp add: chunkSizeFor_def fileChunkLimitFor_def frameLimitForChannel_def Let_def)

end
