(* ===== verification/Proxy_Manager.thy ===== *)
theory Proxy_Manager
  imports Protocol Go_Base64 "HOL-Library.List_Lexorder"
begin

text \<open>
  The proxy tunnels (\<^verbatim>\<open>proxy_manager.go\<close>): the maps of TCP and WebSocket connections, their
  registration when a dial completes, the read loops and the teardown, and the cutting of an
  HTTP response into messages. A connection object is shared by its map and its read loop, so
  connections live in a store indexed by a handle; \<open>closed\<close> records that its \<^verbatim>\<open>once\<close> has run, and
  \<open>loop\<close> where its read loop is: before the test of \<^verbatim>\<open>cancel\<close>, waiting in the read, or returned.
  Dials and reads happen outside the model: their results arrive as arguments.
\<close>

section \<open>State\<close>

datatype loop_at = AtHead | InRead | LoopEnded

record ProxyConn =
  px_ID :: u32
  px_ConnID :: string
  px_closed :: bool
  px_loop :: loop_at

record proxy_mgr =
  px_heap :: "nat \<Rightarrow> ProxyConn option"
  px_next :: nat
  px_conns :: "u32 \<Rightarrow> nat option"
  px_wsConns :: "string \<Rightarrow> nat option"

definition proxy_mgr0 :: proxy_mgr where
  "proxy_mgr0 = \<lparr>px_heap = Map.empty, px_next = 0, px_conns = Map.empty, px_wsConns = Map.empty\<rparr>"

text \<open>What an operation makes happen outside: messages, frames, dials and writes, in order.\<close>

datatype proxy_action =
    PJson Message | PFrame "byte list" | PDial u32 string string | PWsDial string string string
  | PWrite nat "byte list" | PWsWrite nat bool "byte list"

section \<open>Connection identifiers\<close>

text \<open>
  \<^verbatim>\<open>fmt.Sscanf(s, "conn_%08d", &connID)\<close>: the literal, then blanks and decimal digits in the
  next eight characters; zero when there are no digits.
\<close>

fun digit_value :: "nat \<Rightarrow> string \<Rightarrow> nat" where
  "digit_value n [] = n"
| "digit_value n (c # s) = digit_value (10 * n + (of_char c - 48)) s"

definition is_digit :: "char \<Rightarrow> bool" where
  "is_digit c \<longleftrightarrow> 48 \<le> (of_char c :: nat) \<and> (of_char c :: nat) \<le> 57"

definition scan_conn_id :: "string \<Rightarrow> u32" where
  "scan_conn_id s =
    (if HasPrefix s ''conn_'' then
       let field = dropWhile (\<lambda>c. c = CHR '' '' \<or> c = CHR 0x09) (take 8 (drop 5 s)) in
       word_of_nat (digit_value 0 (takeWhile is_digit field))
     else 0)"

section \<open>TCP tunnels\<close>

definition HandleConnect :: "Message \<Rightarrow> proxy_action list" where
  "HandleConnect msg =
    (let connIDStr = SessionID msg; targetAddr = Data msg; connID = scan_conn_id connIDStr in
     if connID = 0
     then [PJson (Message0\<lparr>Type := TypeProxyError, SessionID := connIDStr,
                    Error := ''invalid connection id''\<rparr>)]
     else [PDial connID connIDStr targetAddr])"

definition alloc :: "u32 \<Rightarrow> string \<Rightarrow> proxy_mgr \<Rightarrow> nat \<times> proxy_mgr" where
  "alloc i s p = (px_next p, p\<lparr>px_next := px_next p + 1,
     px_heap := (px_heap p)(px_next p \<mapsto> \<lparr>px_ID = i, px_ConnID = s, px_closed = False, px_loop = AtHead\<rparr>)\<rparr>)"

text \<open>The rest of the dialing goroutine, once \<^verbatim>\<open>dialAppTarget\<close> has returned.\<close>

definition dial_done ::
  "u32 \<Rightarrow> string \<Rightarrow> string option \<Rightarrow> proxy_mgr \<Rightarrow> proxy_action list \<times> proxy_mgr" where
  "dial_done connID connIDStr err p =
    (case err of
       Some e \<Rightarrow> ([PJson (Message0\<lparr>Type := TypeProxyError, SessionID := connIDStr, Error := e\<rparr>)], p)
     | None \<Rightarrow>
         (case alloc connID connIDStr p of (h, p1) \<Rightarrow>
            ([PJson (Message0\<lparr>Type := TypeProxyConnected, SessionID := connIDStr\<rparr>)],
             p1\<lparr>px_conns := (px_conns p1)(connID \<mapsto> h)\<rparr>)))"

definition close_handle :: "nat \<Rightarrow> proxy_mgr \<Rightarrow> proxy_mgr" where
  "close_handle h p =
    (case px_heap p h of
       None \<Rightarrow> p
     | Some c \<Rightarrow> p\<lparr>px_heap := (px_heap p)(h \<mapsto> c\<lparr>px_closed := True\<rparr>)\<rparr>)"

definition removeConn :: "u32 \<Rightarrow> proxy_mgr \<Rightarrow> proxy_mgr" where
  "removeConn connID p =
    (case px_conns p connID of
       None \<Rightarrow> p
     | Some h \<Rightarrow> close_handle h (p\<lparr>px_conns := (px_conns p)(connID := None)\<rparr>))"

definition loop_to :: "nat \<Rightarrow> loop_at \<Rightarrow> proxy_mgr \<Rightarrow> proxy_mgr" where
  "loop_to h l p =
    (case px_heap p h of
       None \<Rightarrow> p
     | Some c \<Rightarrow> p\<lparr>px_heap := (px_heap p)(h \<mapsto> c\<lparr>px_loop := l\<rparr>)\<rparr>)"

text \<open>
  \<^verbatim>\<open>readLoop\<close> of the connection \<open>h\<close>, cut where it waits. At its head it looks at \<^verbatim>\<open>cancel\<close>: a
  connection closed by then ends the loop without a message. Otherwise it reads; what \<^verbatim>\<open>Read\<close> returns
  are the bytes and whether an error came with them. A connection closed while the loop waits makes
  \<^verbatim>\<open>Read\<close> return an error, and the message is sent as for any error. Every end removes the
  connection registered under the loop's id.
\<close>

definition proxy_frame :: "u32 \<Rightarrow> byte list \<Rightarrow> byte list" where
  "proxy_frame connID payload = [OpcodeProxyData] @ put_u32 connID @ payload"

definition read_head :: "nat \<Rightarrow> proxy_mgr \<Rightarrow> proxy_mgr" where
  "read_head h p =
    (case px_heap p h of
       None \<Rightarrow> p
     | Some c \<Rightarrow>
         if px_loop c \<noteq> AtHead then p
         else if px_closed c then removeConn (px_ID c) (loop_to h LoopEnded p)
         else loop_to h InRead p)"

definition read_pass ::
  "nat \<Rightarrow> byte list \<Rightarrow> bool \<Rightarrow> proxy_mgr \<Rightarrow> proxy_action list \<times> proxy_mgr" where
  "read_pass h got failed p =
    (case px_heap p h of
       None \<Rightarrow> ([], p)
     | Some c \<Rightarrow>
         if px_loop c \<noteq> InRead then ([], p)
         else
           let out = (if got = [] then [] else [PFrame (proxy_frame (px_ID c) got)]) in
           if failed
           then (out @ [PJson (Message0\<lparr>Type := TypeProxyClose, SessionID := px_ConnID c\<rparr>)],
                 removeConn (px_ID c) (loop_to h LoopEnded p))
           else (out, loop_to h AtHead p))"

definition HandleData ::
  "u32 \<Rightarrow> byte list \<Rightarrow> bool \<Rightarrow> proxy_mgr \<Rightarrow> proxy_action list \<times> proxy_mgr" where
  "HandleData connID data writeFails p =
    (case px_conns p connID of
       None \<Rightarrow> ([], p)
     | Some h \<Rightarrow> ([PWrite h data], if writeFails then removeConn connID p else p))"

definition HandleClose :: "Message \<Rightarrow> proxy_mgr \<Rightarrow> proxy_mgr" where
  "HandleClose msg p = removeConn (scan_conn_id (SessionID msg)) p"

section \<open>WebSocket tunnels\<close>

text \<open>\<^verbatim>\<open>strings.SplitN(s, "/", 4)\<close>: at most four pieces, the last with the rest.\<close>

fun splitN_slash :: "nat \<Rightarrow> string \<Rightarrow> string list" where
  "splitN_slash 0 s = []"
| "splitN_slash (Suc 0) s = [s]"
| "splitN_slash (Suc (Suc n)) s =
     (case dropWhile (\<lambda>c. c \<noteq> CHR ''/'') s of
        [] \<Rightarrow> [s]
      | _ # r \<Rightarrow> takeWhile (\<lambda>c. c \<noteq> CHR ''/'') s # splitN_slash (Suc n) r)"

definition TrimPrefix :: "string \<Rightarrow> string \<Rightarrow> string" where
  "TrimPrefix s p = (if HasPrefix s p then drop (length p) s else s)"

text \<open>
  The origin header of the dial. \<open>None\<close> is the index out of range, a panic of the goroutine,
  which ends the daemon.
\<close>

definition ws_origin :: "string \<Rightarrow> string option" where
  "ws_origin targetURL =
    (let parts = splitN_slash 4 targetURL in
     if length parts \<le> 2 then None
     else if HasPrefix targetURL ''wss://''
     then Some (''https://'' @ TrimPrefix (parts ! 2) ''wss://'')
     else Some (''http://'' @ TrimPrefix (parts ! 2) ''ws://''))"

definition HandleWsConnect :: "Message \<Rightarrow> proxy_action list option" where
  "HandleWsConnect msg =
    (case ws_origin (Data msg) of
       None \<Rightarrow> None
     | Some origin \<Rightarrow> Some [PWsDial (SessionID msg) (Data msg) origin])"

definition ws_dial_done :: "string \<Rightarrow> string option \<Rightarrow> proxy_mgr \<Rightarrow> proxy_action list \<times> proxy_mgr" where
  "ws_dial_done connIDStr err p =
    (case err of
       Some e \<Rightarrow> ([PJson (Message0\<lparr>Type := TypeProxyWsError, SessionID := connIDStr, Error := e\<rparr>)], p)
     | None \<Rightarrow>
         (case alloc 0 connIDStr p of (h, p1) \<Rightarrow>
            ([PJson (Message0\<lparr>Type := TypeProxyWsConnected, SessionID := connIDStr\<rparr>)],
             p1\<lparr>px_wsConns := (px_wsConns p1)(connIDStr \<mapsto> h)\<rparr>)))"

definition removeWsConn :: "string \<Rightarrow> proxy_mgr \<Rightarrow> proxy_mgr" where
  "removeWsConn connID p =
    (case px_wsConns p connID of
       None \<Rightarrow> p
     | Some h \<Rightarrow> close_handle h (p\<lparr>px_wsConns := (px_wsConns p)(connID := None)\<rparr>))"

text \<open>\<^verbatim>\<open>readWsLoop\<close>, cut in the same way; \<open>None\<close> is a read error, also that of a closed connection.\<close>

definition ws_read_head :: "nat \<Rightarrow> proxy_mgr \<Rightarrow> proxy_mgr" where
  "ws_read_head h p =
    (case px_heap p h of
       None \<Rightarrow> p
     | Some c \<Rightarrow>
         if px_loop c \<noteq> AtHead then p
         else if px_closed c then removeWsConn (px_ConnID c) (loop_to h LoopEnded p)
         else loop_to h InRead p)"

definition ws_read_pass ::
  "nat \<Rightarrow> (bool \<times> byte list) option \<Rightarrow> proxy_mgr \<Rightarrow> proxy_action list \<times> proxy_mgr" where
  "ws_read_pass h got p =
    (case px_heap p h of
       None \<Rightarrow> ([], p)
     | Some c \<Rightarrow>
         if px_loop c \<noteq> InRead then ([], p)
         else
           (case got of
              None \<Rightarrow> ([PJson (Message0\<lparr>Type := TypeProxyWsClose, SessionID := px_ConnID c\<rparr>)],
                       removeWsConn (px_ConnID c) (loop_to h LoopEnded p))
            | Some (isBinary, data) \<Rightarrow>
                ([PJson (Message0\<lparr>Type := TypeProxyWsMessage, SessionID := px_ConnID c,
                    Data := EncodeToString data, IsBinary := isBinary\<rparr>)], loop_to h AtHead p)))"

definition HandleWsMessage :: "Message \<Rightarrow> bool \<Rightarrow> proxy_mgr \<Rightarrow> proxy_action list \<times> proxy_mgr" where
  "HandleWsMessage msg writeFails p =
    (case px_wsConns p (SessionID msg) of
       None \<Rightarrow> ([], p)
     | Some h \<Rightarrow>
         (case DecodeString (Data msg) of
            None \<Rightarrow> ([], p)
          | Some data \<Rightarrow>
              ([PWsWrite h (IsBinary msg) data],
               if writeFails then removeWsConn (SessionID msg) p else p)))"

definition HandleWsClose :: "Message \<Rightarrow> proxy_mgr \<Rightarrow> proxy_mgr" where
  "HandleWsClose msg p = removeWsConn (SessionID msg) p"

section \<open>Teardown\<close>

text \<open>
  \<^verbatim>\<open>CloseAll\<close>: both maps are emptied, then every connection they held is closed. \<open>ids\<close> and
  \<open>names\<close> are the orders in which the maps are ranged over.
\<close>

definition CloseAllConns :: "u32 list \<Rightarrow> string list \<Rightarrow> proxy_mgr \<Rightarrow> proxy_mgr" where
  "CloseAllConns ids names p =
    (let conns = List.map_filter (px_conns p) ids;
         wsConns = List.map_filter (px_wsConns p) names in
     fold close_handle (conns @ wsConns) (p\<lparr>px_conns := Map.empty, px_wsConns := Map.empty\<rparr>))"

section \<open>HTTP\<close>

definition httpChunk :: nat where [simp]: "httpChunk = 20 * 1024"

text \<open>The messages of a completed fetch: the body in base64, cut in pieces of \<open>httpChunk\<close> characters.\<close>

definition http_response ::
  "string \<Rightarrow> int \<Rightarrow> string \<Rightarrow> string \<Rightarrow> byte list \<Rightarrow> Message list" where
  "http_response connIDStr statusCode status headersJSON body =
    (let bodyB64 = EncodeToString body;
         totalLen = length bodyB64;
         n = (totalLen + httpChunk - 1) div httpChunk;
         totalChunks = (if n = 0 then 1 else n) in
     map (\<lambda>i.
       let start = i * httpChunk;
           stop = (if totalLen < start + httpChunk then totalLen else start + httpChunk) in
       Message0\<lparr>Type := TypeProxyHttpResponse, SessionID := connIDStr, StatusCode := statusCode,
         StatusText := status, HeadersJSON := headersJSON,
         Data := take (stop - start) (drop start bodyB64),
         ChunkIndex := int i, TotalChunks := int totalChunks\<rparr>) [0..<totalChunks])"

text \<open>
  What the answer of the server becomes. \<open>hr_body\<close> is what its body yields and \<open>hr_readErr\<close> the error
  that follows; the reader is limited to ten megabytes, and sees neither the rest nor an error there.
  The headers keep the first value each; the length is that of the body read.
\<close>

record http_answer =
  hr_status :: int
  hr_statusText :: string
  hr_header :: "(string \<times> string list) list"
  hr_body :: "byte list"
  hr_readErr :: "string option"

definition httpLimit :: nat where "httpLimit = 10 * 1024 * 1024"

definition header_json :: "(string \<times> string list) list \<Rightarrow> nat \<Rightarrow> string" where
  "header_json hs n =
    (let kept = map (\<lambda>(k, vs). (k, hd vs)) (filter (\<lambda>(k, vs). vs \<noteq> [] \<and> k \<noteq> ''Content-Length'') hs);
         all = (''Content-Length'', string_of_bytes (json_int (int n))) # kept in
     string_of_bytes (marshal (JObj (map (\<lambda>(k, v). (k, JStr v)) (sort_key (\<lambda>(k, v). bytes_of_string k) all)))))"

definition proxy_error :: "string \<Rightarrow> string \<Rightarrow> Message" where
  "proxy_error connIDStr err = Message0\<lparr>Type := TypeProxyError, SessionID := connIDStr, Error := err\<rparr>"

definition http_fetched :: "string \<Rightarrow> string + http_answer \<Rightarrow> Message list" where
  "http_fetched connIDStr answer =
    (case answer of
       Inl err \<Rightarrow> [proxy_error connIDStr err]
     | Inr r \<Rightarrow>
         (case (if length (hr_body r) < httpLimit then hr_readErr r else None) of
            Some err \<Rightarrow> [proxy_error connIDStr err]
          | None \<Rightarrow>
              let body = take httpLimit (hr_body r) in
              http_response connIDStr (hr_status r) (hr_statusText r)
                (header_json (hr_header r) (length body)) body))"

lemmas [unfold_ops] = dial_done_def removeConn_def ws_dial_done_def removeWsConn_def alloc_def
  close_handle_def HandleData_def HandleClose_def HandleWsMessage_def HandleWsClose_def

section \<open>No connection is lost\<close>

text \<open>Every open connection is registered, so a teardown reaches it.\<close>

definition proxy_ok :: "proxy_mgr \<Rightarrow> bool" where
  "proxy_ok p \<longleftrightarrow> (\<forall>h c. px_heap p h = Some c \<longrightarrow>
       h < px_next p \<and> (px_closed c \<or> h \<in> ran (px_conns p) \<or> h \<in> ran (px_wsConns p)))"

lemma close_handle_sel [simp]:
  "px_conns (close_handle h p) = px_conns p" "px_wsConns (close_handle h p) = px_wsConns p"
  "px_next (close_handle h p) = px_next p"
  by (simp_all add: close_handle_def split: option.splits)

lemma close_handle_heap:
  "px_heap (close_handle h p) g = (if g = h then map_option (\<lambda>c. c\<lparr>px_closed := True\<rparr>) (px_heap p g)
     else px_heap p g)"
  by (auto simp: close_handle_def split: option.splits)

lemma fold_close_sel [simp]:
  "px_conns (fold close_handle hs p) = px_conns p" "px_wsConns (fold close_handle hs p) = px_wsConns p"
  "px_next (fold close_handle hs p) = px_next p"
  by (induction hs arbitrary: p) simp_all

lemma fold_close_heap:
  "px_heap (fold close_handle hs p) g =
    (if g \<in> set hs then map_option (\<lambda>c. c\<lparr>px_closed := True\<rparr>) (px_heap p g) else px_heap p g)"
  by (induction hs arbitrary: p) (auto simp: close_handle_heap option.map_comp comp_def)

lemma ran_del: "m k = Some h \<Longrightarrow> g \<in> ran m \<Longrightarrow> g \<noteq> h \<Longrightarrow> g \<in> ran (m(k := None))"
  by (auto simp: ran_def) (metis fun_upd_other option.inject)

lemma removeConn_ok: "proxy_ok p \<Longrightarrow> proxy_ok (removeConn i p)"
  unfolding removeConn_def proxy_ok_def
  by (auto simp: close_handle_heap ran_del split: option.splits if_splits) (blast dest: ran_del)+

lemma removeWsConn_ok: "proxy_ok p \<Longrightarrow> proxy_ok (removeWsConn i p)"
  unfolding removeWsConn_def proxy_ok_def
  by (auto simp: close_handle_heap ran_del split: option.splits if_splits) (blast dest: ran_del)+

lemma loop_to_sel [simp]:
  "px_conns (loop_to h l p) = px_conns p" "px_wsConns (loop_to h l p) = px_wsConns p"
  "px_next (loop_to h l p) = px_next p"
  by (simp_all add: loop_to_def split: option.splits)

lemma loop_to_heap:
  "px_heap (loop_to h l p) g = (if g = h then map_option (\<lambda>c. c\<lparr>px_loop := l\<rparr>) (px_heap p g)
     else px_heap p g)"
  by (auto simp: loop_to_def split: option.splits)

lemma loop_to_ok: "proxy_ok p \<Longrightarrow> proxy_ok (loop_to h l p)"
  unfolding proxy_ok_def by (fastforce simp: loop_to_heap split: if_splits)

lemma ran_upd_free: "m k = None \<Longrightarrow> ran (m(k \<mapsto> h)) = insert h (ran m)"
  by (rule ran_map_upd)

lemma dial_done_ok:
  "proxy_ok p \<Longrightarrow> err = None \<longrightarrow> px_conns p i = None \<Longrightarrow> proxy_ok (snd (dial_done i s err p))"
  by (auto simp: dial_done_def alloc_def proxy_ok_def ran_upd_free less_Suc_eq split: option.splits if_splits)

lemma ws_dial_done_ok:
  "proxy_ok p \<Longrightarrow> err = None \<longrightarrow> px_wsConns p s = None \<Longrightarrow> proxy_ok (snd (ws_dial_done s err p))"
  by (auto simp: ws_dial_done_def alloc_def proxy_ok_def ran_upd_free less_Suc_eq split: option.splits if_splits)

datatype proxy_op =
    PoDial u32 string "string option" | PoWsDial string "string option"
  | PoHead nat | PoRead nat "byte list" bool | PoWsHead nat | PoWsRead nat "(bool \<times> byte list) option"
  | PoData u32 "byte list" bool | PoClose Message | PoWsMessage Message bool | PoWsClose Message
  | PoCloseAll "u32 list" "string list"

fun proxy_step :: "proxy_op \<Rightarrow> proxy_mgr \<Rightarrow> proxy_action list \<times> proxy_mgr" where
  "proxy_step (PoDial i s err) p = dial_done i s err p"
| "proxy_step (PoWsDial s err) p = ws_dial_done s err p"
| "proxy_step (PoHead h) p = ([], read_head h p)"
| "proxy_step (PoRead h got f) p = read_pass h got f p"
| "proxy_step (PoWsHead h) p = ([], ws_read_head h p)"
| "proxy_step (PoWsRead h got) p = ws_read_pass h got p"
| "proxy_step (PoData i d f) p = HandleData i d f p"
| "proxy_step (PoClose m) p = ([], HandleClose m p)"
| "proxy_step (PoWsMessage m f) p = HandleWsMessage m f p"
| "proxy_step (PoWsClose m) p = ([], HandleWsClose m p)"
| "proxy_step (PoCloseAll ids names) p = ([], CloseAllConns ids names p)"

fun proxy_run :: "proxy_op list \<Rightarrow> proxy_mgr \<Rightarrow> proxy_action list \<times> proxy_mgr" where
  "proxy_run [] p = ([], p)"
| "proxy_run (q # qs) p =
     (case proxy_step q p of (a, p') \<Rightarrow> (case proxy_run qs p' of (b, p'') \<Rightarrow> (a @ b, p'')))"

text \<open>
  The assumption on the app: it does not reuse an id that is in use. A teardown ranges over all
  keys of the maps.
\<close>

fun fresh_ids :: "proxy_op list \<Rightarrow> proxy_mgr \<Rightarrow> bool" where
  "fresh_ids [] p = True"
| "fresh_ids (q # qs) p =
     ((case q of PoDial i s err \<Rightarrow> px_conns p i = None | PoWsDial s err \<Rightarrow> px_wsConns p s = None
        | PoCloseAll ids names \<Rightarrow> dom (px_conns p) \<subseteq> set ids \<and> dom (px_wsConns p) \<subseteq> set names
        | _ \<Rightarrow> True)
      \<and> fresh_ids qs (snd (proxy_step q p)))"

lemma map_filter_ran: "dom m \<subseteq> set ks \<Longrightarrow> h \<in> ran m \<Longrightarrow> h \<in> set (List.map_filter m ks)"
  by (force simp: map_filter_def ran_def)

lemma CloseAllConns_closed:
  assumes "proxy_ok p" and "dom (px_conns p) \<subseteq> set ids" and "dom (px_wsConns p) \<subseteq> set names"
    and "px_heap (CloseAllConns ids names p) h = Some c"
  shows "px_closed c \<and> h < px_next (CloseAllConns ids names p)"
proof -
  have "h \<in> ran (px_conns p) \<Longrightarrow> h \<in> set (List.map_filter (px_conns p) ids)"
    "h \<in> ran (px_wsConns p) \<Longrightarrow> h \<in> set (List.map_filter (px_wsConns p) names)"
    using assms(2,3) by (simp_all add: map_filter_ran)
  with assms(1,4) show ?thesis
    by (auto simp: CloseAllConns_def fold_close_heap proxy_ok_def Let_def split: if_splits)
qed

lemma proxy_step_ok:
  assumes "proxy_ok p"
    and "case q of PoDial i s err \<Rightarrow> px_conns p i = None | PoWsDial s err \<Rightarrow> px_wsConns p s = None
        | PoCloseAll ids names \<Rightarrow> dom (px_conns p) \<subseteq> set ids \<and> dom (px_wsConns p) \<subseteq> set names
        | _ \<Rightarrow> True"
  shows "proxy_ok (snd (proxy_step q p))"
proof (cases q)
  case (PoCloseAll ids names)
  with assms CloseAllConns_closed [OF assms(1), of ids names] show ?thesis
    by (auto simp: proxy_ok_def)
qed (use assms in \<open>auto simp: dial_done_ok ws_dial_done_ok read_head_def read_pass_def ws_read_head_def ws_read_pass_def
    HandleData_def HandleClose_def HandleWsMessage_def HandleWsClose_def removeConn_ok removeWsConn_ok
    loop_to_ok Let_def
    split: option.splits\<close>)

lemma proxy_run_ok: "proxy_ok p \<Longrightarrow> fresh_ids qs p \<Longrightarrow> proxy_ok (snd (proxy_run qs p))"
proof (induction qs arbitrary: p)
  case (Cons q qs)
  have "proxy_ok (snd (proxy_step q p))"
    by (rule proxy_step_ok [OF Cons.prems(1)]) (use Cons.prems(2) in simp)
  from Cons.IH [OF this] Cons.prems(2) show ?case by (simp add: case_prod_unfold)
qed simp

section \<open>The response messages\<close>

lemma concat_pieces:
  assumes "length xs \<le> n * c" and "0 < c"
  shows "concat (map (\<lambda>i. take ((if length xs < i * c + c then length xs else i * c + c) - i * c)
      (drop (i * c) xs)) [0..<n]) = xs"
proof -
  have "concat (map (\<lambda>i. take ((if length xs < i * c + c then length xs else i * c + c) - i * c)
      (drop (i * c) xs)) [0..<n]) = take (n * c) xs" for n
  proof (induction n)
    case (Suc n)
    have "take ((if length xs < n * c + c then length xs else n * c + c) - n * c) (drop (n * c) xs)
        = take c (drop (n * c) xs)" by auto
    moreover have "take (Suc n * c) xs = take (n * c) xs @ take c (drop (n * c) xs)"
      by (simp only: mult_Suc add.commute [of c] take_add)
    ultimately show ?case using Suc by (simp del: mult_Suc)
  qed simp
  with assms(1) show ?thesis by simp
qed

lemma length_http_message:
  assumes "0 \<le> code" and "code < 1000" and "plain d"
  shows "length (marshal_message (Message0\<lparr>Type := TypeProxyHttpResponse, SessionID := sid,
      StatusCode := code, StatusText := st, HeadersJSON := hj, Data := d, ChunkIndex := int i,
      TotalChunks := int n\<rparr>)) \<le> 6 * (length sid + length st + length hj) + length d
      + length (json_int (int i)) + length (json_int (int n)) + 200"
  using length_json_string [of sid] length_json_string [of st] length_json_string [of hj] assms
    length_json_int [of code 3]
  by (simp add: marshal_message_def Message_json_def Message0_def opt_field_defs length_comma_join
      html_safe_def)

lemma plain_slice: "plain s \<Longrightarrow> plain (take n (drop m s))"
  by (auto simp: plain_def dest: in_set_takeD in_set_dropD)

definition pieces :: "'a list \<Rightarrow> nat" where
  "pieces xs = (let n = (length xs + httpChunk - 1) div httpChunk in if n = 0 then 1 else n)"

lemma pieces_enough: "length xs \<le> pieces xs * httpChunk"
proof -
  have "(length xs + 20480 - 1) div 20480 * 20480 + (length xs + 20480 - 1) mod 20480
      = length xs + 20480 - 1" by (rule div_mult_mod_eq)
  moreover have "(length xs + 20480 - 1) mod 20480 < 20480" by simp
  ultimately have "length xs \<le> (length xs + 20480 - 1) div 20480 * 20480" by linarith
  then show ?thesis by (auto simp: pieces_def Let_def)
qed

definition piece :: "string \<Rightarrow> nat \<Rightarrow> string" where
  "piece b i = take ((if length b < i * httpChunk + httpChunk then length b
     else i * httpChunk + httpChunk) - i * httpChunk) (drop (i * httpChunk) b)"

definition piece_message :: "string \<Rightarrow> int \<Rightarrow> string \<Rightarrow> string \<Rightarrow> nat \<Rightarrow> string \<Rightarrow> nat \<Rightarrow> Message" where
  "piece_message sid code status headers n d i = Message0\<lparr>Type := TypeProxyHttpResponse,
     SessionID := sid, StatusCode := code, StatusText := status, HeadersJSON := headers, Data := d,
     ChunkIndex := int i, TotalChunks := int n\<rparr>"

lemma piece_message_sel [simp]:
  "Data (piece_message sid code status headers n d i) = d"
  "ChunkIndex (piece_message sid code status headers n d i) = int i"
  "TotalChunks (piece_message sid code status headers n d i) = int n"
  by (simp_all add: piece_message_def)

lemma http_response_pieces:
  "http_response sid code status headers body =
     (let b = EncodeToString body in
      map (\<lambda>i. piece_message sid code status headers (pieces b) (piece b i) i) [0..<pieces b])"
  by (simp add: http_response_def pieces_def piece_def piece_message_def Let_def)

lemma piece_facts:
  "length (piece b i) \<le> httpChunk" "plain b \<Longrightarrow> plain (piece b i)"
  "concat (map (piece b) [0..<pieces b]) = b"
proof -
  show "concat (map (piece b) [0..<pieces b]) = b"
    using concat_pieces [OF pieces_enough [of b]] unfolding piece_def by simp
  show "plain b \<Longrightarrow> plain (piece b i)" unfolding piece_def by (rule plain_slice)
qed (auto simp: piece_def)

lemma http_response_whole:
  "DecodeString (concat (map Data (http_response sid code status headers body))) = Some body"
  "map ChunkIndex (http_response sid code status headers body)
     = map int [0..<length (http_response sid code status headers body)]"
  "m \<in> set (http_response sid code status headers body) \<Longrightarrow>
     TotalChunks m = int (length (http_response sid code status headers body))"
proof -
  let ?b = "EncodeToString body"
  have ms: "http_response sid code status headers body
      = map (\<lambda>i. piece_message sid code status headers (pieces ?b) (piece ?b i) i) [0..<pieces ?b]"
    by (simp only: http_response_pieces Let_def)
  have "concat (map Data (http_response sid code status headers body)) = ?b"
    by (simp add: ms comp_def piece_facts(3) del: upt_Suc)
  then show "DecodeString (concat (map Data (http_response sid code status headers body))) = Some body"
    by simp
  show "map ChunkIndex (http_response sid code status headers body)
      = map int [0..<length (http_response sid code status headers body)]"
    "m \<in> set (http_response sid code status headers body) \<Longrightarrow>
     TotalChunks m = int (length (http_response sid code status headers body))"
    by (auto simp: ms)
qed

lemma http_response_fits:
  assumes "length sid + length status + length headers \<le> 500" and "0 \<le> code" and "code < 1000"
    and "length body < 10 ^ 8" and "m \<in> set (http_response sid code status headers body)"
  shows "length (marshal_message m) \<le> SecureMaxTextPayload"
proof -
  let ?b = "EncodeToString body"
  obtain i where m: "i < pieces ?b" "m = piece_message sid code status headers (pieces ?b) (piece ?b i) i"
    using assms(5) by (auto simp: http_response_pieces Let_def)
  have "length ?b \<le> 4 * (10 ^ 8)" using assms(4) length_encode [of body] by simp
  then have "pieces ?b < 10 ^ 9" by (auto simp: pieces_def Let_def)
  then have "length (json_int (int i)) \<le> 9" "length (json_int (int (pieces ?b))) \<le> 9"
    using m(1) by (auto intro!: length_json_int)
  then show ?thesis
    using length_http_message [of code "piece ?b i" "pieces ?b" i headers status sid,
        OF assms(2,3) piece_facts(2) [OF plain_encode]]
      assms(1) piece_facts(1) [of ?b i]
    by (simp add: m(2) piece_message_def)
qed

section \<open>Properties\<close>

text \<open>
  C23: What a fetch becomes. A request that fails, or a body whose reading fails within its first ten
  megabytes, is answered with one \<^verbatim>\<open>proxy_error\<close> that carries the error. Otherwise the data of the
  messages, which are numbered in order and know their number, concatenate to the base64 of the first
  ten megabytes of the body (all of it, if it is no longer); and when the session id, the status text
  and the header JSON together have at most 500 bytes and the status code has at most three digits,
  every message is within the secure payload limit.
\<close>

theorem http_response_complete:
  "http_fetched sid (Inl err) = [proxy_error sid err]
   \<and> (length (hr_body r) < httpLimit \<and> hr_readErr r = Some err \<longrightarrow>
        http_fetched sid (Inr r) = [proxy_error sid err])
   \<and> (httpLimit \<le> length (hr_body r) \<or> hr_readErr r = None \<longrightarrow>
        (let ms = http_fetched sid (Inr r); body = take httpLimit (hr_body r) in
         DecodeString (concat (map Data ms)) = Some body
         \<and> map ChunkIndex ms = map int [0..<length ms]
         \<and> (\<forall>m \<in> set ms. TotalChunks m = int (length ms))
         \<and> (length sid + length (hr_statusText r) + length (header_json (hr_header r) (length body)) \<le> 500
              \<and> 0 \<le> hr_status r \<and> hr_status r < 1000 \<longrightarrow>
            (\<forall>m \<in> set ms. length (marshal_message m) \<le> SecureMaxTextPayload))))"
proof -
  let ?b = "take httpLimit (hr_body r)"
  have "http_fetched sid (Inr r) = http_response sid (hr_status r) (hr_statusText r)
      (header_json (hr_header r) (length ?b)) ?b"
    if "httpLimit \<le> length (hr_body r) \<or> hr_readErr r = None"
    using that by (auto simp: http_fetched_def Let_def)
  moreover have "length ?b < 10 ^ 8" by (simp add: httpLimit_def)
  ultimately show ?thesis
    using http_response_whole [where sid = sid and code = "hr_status r" and status = "hr_statusText r"
        and headers = "header_json (hr_header r) (length ?b)" and body = ?b]
      http_response_fits [of sid "hr_statusText r" "header_json (hr_header r) (length ?b)" "hr_status r" ?b]
    by (auto simp: http_fetched_def Let_def)
qed

text \<open>A body longer than the limit arrives cut; a body whose stream breaks is an error.\<close>

theorem http_response_complete_witness:
  "(let ms = http_fetched ''conn_1'' (Inr \<lparr>hr_status = 200, hr_statusText = ''200 OK'', hr_header = [],
        hr_body = replicate (httpLimit + 1) 7, hr_readErr = None\<rparr>) in
      DecodeString (concat (map Data ms)) = Some (replicate httpLimit 7))
   \<and> http_fetched ''conn_1'' (Inr \<lparr>hr_status = 200, hr_statusText = ''200 OK'', hr_header = [],
        hr_body = [1, 2], hr_readErr = Some ''unexpected EOF''\<rparr>) = [proxy_error ''conn_1'' ''unexpected EOF'']"
  using http_response_complete [of "''conn_1''" "[]" "\<lparr>hr_status = 200, hr_statusText = ''200 OK'',
      hr_header = [], hr_body = replicate (httpLimit + 1) 7, hr_readErr = None\<rparr>"]
    http_response_complete [of "''conn_1''" "''unexpected EOF''" "\<lparr>hr_status = 200, hr_statusText = ''200 OK'',
      hr_header = [], hr_body = [1, 2], hr_readErr = Some ''unexpected EOF''\<rparr>"]
  by (auto simp: Let_def min_def httpLimit_def)

text \<open>
  C24: No tunnel outlives its teardown: in any run in which the app does not reuse an id that is
  in use, closing all connections leaves no open connection behind.
\<close>

theorem proxy_teardown_complete:
  assumes "fresh_ids qs proxy_mgr0" and "proxy_run qs proxy_mgr0 = (acts, p)"
    and "dom (px_conns p) \<subseteq> set ids" and "dom (px_wsConns p) \<subseteq> set names"
    and "px_heap (CloseAllConns ids names p) h = Some c"
  shows "px_closed c"
proof -
  have "proxy_ok p"
    using proxy_run_ok [OF _ assms(1)] assms(2) by (simp add: proxy_ok_def proxy_mgr0_def)
  from CloseAllConns_closed [OF this assms(3-5)] show ?thesis by blast
qed

theorem proxy_teardown_complete_witness:
  "\<exists>c. px_heap (CloseAllConns [7] [] (snd (proxy_run [PoDial 7 ''conn_7'' None] proxy_mgr0))) 0 = Some c
     \<and> px_closed c"
proof -
  let ?p = "snd (proxy_run [PoDial 7 ''conn_7'' None] proxy_mgr0)"
  have "\<exists>c. px_heap (CloseAllConns [7] [] ?p) 0 = Some c"
    by (simp add: dial_done_def alloc_def proxy_mgr0_def CloseAllConns_def Let_def fold_close_heap
        map_filter_def close_handle_def)
  moreover have "fresh_ids [PoDial 7 ''conn_7'' None] proxy_mgr0" by (simp add: proxy_mgr0_def)
  moreover have "dom (px_conns ?p) \<subseteq> set [7]" "dom (px_wsConns ?p) \<subseteq> set []"
    by (simp_all add: dial_done_def alloc_def proxy_mgr0_def split: if_splits)
  ultimately show ?thesis
    using proxy_teardown_complete [of "[PoDial 7 ''conn_7'' None]" _ ?p "[7]" "[]" 0] by (metis prod.collapse)
qed

text \<open>
  Nothing checks that an id is free. When the app connects twice under one id, the first
  connection leaves the map while open, and no teardown reaches it; and when its read loop ends
  it removes the second connection.
\<close>

theorem reused_id_leaks:
  "\<exists>qs c. px_heap (CloseAllConns [7] [] (snd (proxy_run qs proxy_mgr0))) 0 = Some c \<and> \<not> px_closed c"
  by (intro exI [of _ "[PoDial 7 ''conn_7'' None, PoDial 7 ''conn_7'' None]"])
    (simp add: dial_done_def alloc_def proxy_mgr0_def CloseAllConns_def Let_def fold_close_heap map_filter_def
      close_handle_def)

theorem old_loop_removes_new_connection:
  "let p = snd (proxy_run [PoDial 7 ''conn_7'' None, PoHead 0, PoDial 7 ''conn_7'' None] proxy_mgr0);
       p' = snd (proxy_run [PoRead 0 [] True] p) in
     px_conns p 7 = Some 1 \<and> px_conns p' 7 = None
     \<and> map_option px_closed (px_heap p' 0) = Some False \<and> map_option px_closed (px_heap p' 1) = Some True"
  by (simp add: dial_done_def alloc_def proxy_mgr0_def read_head_def read_pass_def loop_to_def removeConn_def
      close_handle_def Let_def)

text \<open>
  A target without two slashes makes \<^verbatim>\<open>HandleWsConnect\<close> index past the end of the split in a
  goroutine nothing recovers: the daemon crashes.
\<close>

theorem ws_connect_bad_url_panics:
  "HandleWsConnect (Message0\<lparr>Type := TypeProxyWsConnect, SessionID := ''ws_1'', Data := ''localhost:8080''\<rparr>)
     = None"
  by (simp add: HandleWsConnect_def ws_origin_def Let_def eval_nat_numeral)

text \<open>
  The comment says 20 KB pieces stay safe. The headers are repeated in every piece: with four
  kilobytes of them a full piece exceeds the secure payload limit and is dropped.
\<close>

theorem http_headers_overflow:
  "\<exists>headers m. length headers = 4000 \<and> SecureMaxTextPayload < length (marshal_message m)
     \<and> (\<exists>body. m \<in> set (http_response ''conn_1'' 200 ''200 OK'' headers body))"
proof -
  let ?h = "replicate 4000 CHR ''a''" and ?body = "replicate 15360 (0 :: byte)"
  have len: "length (EncodeToString ?body) = 20480" by (simp add: length_encode)
  then have ne: "EncodeToString ?body \<noteq> []" by (metis list.size(3) zero_neq_numeral)
  have "plain ?h" by (simp add: plain_def html_safe_def)
  then have "SecureMaxTextPayload < length (marshal_message (Message0\<lparr>Type := TypeProxyHttpResponse,
      SessionID := ''conn_1'', StatusCode := 200, StatusText := ''200 OK'', HeadersJSON := ?h,
      Data := EncodeToString ?body, ChunkIndex := 0, TotalChunks := 1\<rparr>))"
    using plain_encode [of ?body] len ne
    by (simp add: marshal_message_def Message_json_def Message0_def opt_field_defs length_comma_join
        html_safe_def)
  moreover have "http_response ''conn_1'' 200 ''200 OK'' ?h ?body = [Message0\<lparr>Type := TypeProxyHttpResponse,
      SessionID := ''conn_1'', StatusCode := 200, StatusText := ''200 OK'', HeadersJSON := ?h,
      Data := EncodeToString ?body, ChunkIndex := 0, TotalChunks := 1\<rparr>]"
    by (simp add: http_response_def len)
  ultimately show ?thesis
    by (intro exI [of _ ?h] exI conjI exI [of _ ?body]) simp_all
qed

end
