(* ===== verification/Terminal_State.thy ===== *)
theory Terminal_State
  imports Claw_Prelude
begin

text \<open>
  The terminal state kept for every session (\<^verbatim>\<open>terminal.go\<close>): a terminal emulator fed with the
  output of the shell, from which the scrollback is serialized. The emulator
  (\<^verbatim>\<open>internal/xterm\<close>) is the parameter \<open>emulator\<close>, with the operations this file calls; a resize
  may panic (\<^verbatim>\<open>pty.go\<close> recovers from it), which is \<open>None\<close>.
\<close>

section \<open>Stripping the clear-scrollback sequence\<close>

text \<open>\<^verbatim>\<open>bytes.ReplaceAll(data, pat, nil)\<close> for a nonempty pattern.\<close>

function ReplaceAll :: "byte list \<Rightarrow> byte list \<Rightarrow> byte list" where
  "ReplaceAll pat [] = []"
| "ReplaceAll pat (b # bs) =
    (if pat \<noteq> [] \<and> take (length pat) (b # bs) = pat
     then ReplaceAll pat (drop (length pat) (b # bs))
     else b # ReplaceAll pat bs)"
  by pat_completeness auto

termination
  by (relation "measure (length \<circ> snd)") (auto simp: neq_Nil_conv)

definition ED3 :: "byte list" where
  "ED3 = [0x1B, 0x5B, 0x33, 0x4A]"

definition ED3_semi :: "byte list" where
  "ED3_semi = [0x1B, 0x5B, 0x33, 0x3B, 0x4A]"

definition strip_clear :: "byte list \<Rightarrow> byte list" where
  "strip_clear data = ReplaceAll ED3_semi (ReplaceAll ED3 data)"

section \<open>The terminal\<close>

record 't emulator =
  em_new :: "int \<Rightarrow> int \<Rightarrow> int \<Rightarrow> 't"
  em_write :: "byte list \<Rightarrow> 't \<Rightarrow> 't"
  em_serialize :: "'t \<Rightarrow> byte list"
  em_resize :: "int \<Rightarrow> int \<Rightarrow> 't \<Rightarrow> 't option"
  em_scrollback :: "'t \<Rightarrow> int"
  em_lines :: "'t \<Rightarrow> nat"
  em_reset :: "'t \<Rightarrow> 't"

record 't Terminal =
  tm_term :: 't
  tm_cols :: int
  tm_rows :: int
  tm_seq :: u64

definition NewTerminal :: "('t, 'z) emulator_scheme \<Rightarrow> int \<Rightarrow> int \<Rightarrow> int \<Rightarrow> 't Terminal" where
  "NewTerminal E maxLines cols rows =
    \<lparr>tm_term = em_new E cols rows maxLines, tm_cols = cols, tm_rows = rows, tm_seq = 0\<rparr>"

definition tm_Write ::
  "('t, 'z) emulator_scheme \<Rightarrow> byte list \<Rightarrow> 't Terminal \<Rightarrow> u64 \<times> 't Terminal" where
  "tm_Write E data t =
    (let t1 = (if data = [] then t else t\<lparr>tm_term := em_write E (strip_clear data) (tm_term t)\<rparr>) in
     (tm_seq t + 1, t1\<lparr>tm_seq := tm_seq t + 1\<rparr>))"

definition tm_Read :: "('t, 'z) emulator_scheme \<Rightarrow> 't Terminal \<Rightarrow> byte list \<times> u64" where
  "tm_Read E t = (em_serialize E (tm_term t), tm_seq t)"

definition tm_ReadAt ::
  "('t, 'z) emulator_scheme \<Rightarrow> int \<Rightarrow> int \<Rightarrow> 't Terminal \<Rightarrow> byte list \<times> u64" where
  "tm_ReadAt E targetCols targetRows t =
    (let raw = em_serialize E (tm_term t);
         tmp = em_new E targetCols targetRows (em_scrollback E (tm_term t)) in
     (em_serialize E (em_write E raw tmp), tm_seq t))"

definition tm_Resize ::
  "('t, 'z) emulator_scheme \<Rightarrow> int \<Rightarrow> int \<Rightarrow> 't Terminal \<Rightarrow> 't Terminal option" where
  "tm_Resize E cols rows t =
    map_option (\<lambda>u. t\<lparr>tm_term := u, tm_cols := cols, tm_rows := rows\<rparr>) (em_resize E cols rows (tm_term t))"

definition tm_Len :: "('t, 'z) emulator_scheme \<Rightarrow> 't Terminal \<Rightarrow> nat" where
  "tm_Len E t = em_lines E (tm_term t)"

definition tm_Reset :: "('t, 'z) emulator_scheme \<Rightarrow> 't Terminal \<Rightarrow> 't Terminal" where
  "tm_Reset E t = t\<lparr>tm_term := em_reset E (tm_term t)\<rparr>"

section \<open>What stripping does to a stream of escape sequences\<close>

text \<open>Output as a terminal reads it: text, the two clear sequences, and other escape sequences.\<close>

datatype ansi = AText "byte list" | AClear | AClearSemi | AEsc "byte list"

fun ansi_bytes :: "ansi \<Rightarrow> byte list" where
  "ansi_bytes (AText bs) = bs"
| "ansi_bytes AClear = ED3"
| "ansi_bytes AClearSemi = ED3_semi"
| "ansi_bytes (AEsc body) = 0x1B # body"

definition diverges :: "byte list \<Rightarrow> byte list \<Rightarrow> bool" where
  "diverges xs ys \<longleftrightarrow> take (length ys) xs \<noteq> take (length xs) ys"

fun ansi_ok :: "ansi \<Rightarrow> bool" where
  "ansi_ok (AText bs) \<longleftrightarrow> 0x1B \<notin> set bs"
| "ansi_ok (AEsc body) \<longleftrightarrow> 0x1B \<notin> set body \<and> diverges body (tl ED3) \<and> diverges body (tl ED3_semi)"
| "ansi_ok _ \<longleftrightarrow> True"

lemma ReplaceAll_text:
  "0x1B \<notin> set xs \<Longrightarrow> ReplaceAll (0x1B # p) (xs @ rest) = xs @ ReplaceAll (0x1B # p) rest"
  by (induction xs) auto

lemma diverges_append: "diverges xs p \<Longrightarrow> take (length p) (xs @ rest) \<noteq> p"
proof
  assume "diverges xs p" and *: "take (length p) (xs @ rest) = p"
  from * have "take (length xs) (take (length p) (xs @ rest)) = take (length xs) p" by simp
  then have "take (length p) xs = take (length xs) p"
    by (simp add: min_def split: if_splits)
  with \<open>diverges xs p\<close> show False by (simp add: diverges_def)
qed

lemma ReplaceAll_esc:
  assumes "diverges body p" and "0x1B \<notin> set body"
  shows "ReplaceAll (0x1B # p) (0x1B # body @ rest) = 0x1B # body @ ReplaceAll (0x1B # p) rest"
  using diverges_append [OF assms(1), of rest] ReplaceAll_text [OF assms(2)] by simp

lemma ReplaceAll_hit: "ReplaceAll (0x1B # p) ((0x1B # p) @ rest) = ReplaceAll (0x1B # p) rest"
  by simp

lemma ReplaceAll_ED3:
  "0x1B \<notin> set xs \<Longrightarrow> ReplaceAll ED3 (xs @ rest) = xs @ ReplaceAll ED3 rest"
  "0x1B \<notin> set xs \<Longrightarrow> diverges xs (tl ED3) \<Longrightarrow>
     ReplaceAll ED3 (0x1B # xs @ rest) = 0x1B # xs @ ReplaceAll ED3 rest"
  "ReplaceAll ED3 (ED3 @ rest) = ReplaceAll ED3 rest"
  "ReplaceAll ED3 (ED3_semi @ rest) = ED3_semi @ ReplaceAll ED3 rest"
  using ReplaceAll_text [of xs "tl ED3" rest] ReplaceAll_esc [of xs "tl ED3" rest]
    ReplaceAll_hit [of "tl ED3" rest] ReplaceAll_esc [of "tl ED3_semi" "tl ED3" rest]
  by (simp_all add: ED3_def ED3_semi_def diverges_def del: ReplaceAll.simps(2))

lemma ReplaceAll_ED3_semi:
  "0x1B \<notin> set xs \<Longrightarrow> ReplaceAll ED3_semi (xs @ rest) = xs @ ReplaceAll ED3_semi rest"
  "0x1B \<notin> set xs \<Longrightarrow> diverges xs (tl ED3_semi) \<Longrightarrow>
     ReplaceAll ED3_semi (0x1B # xs @ rest) = 0x1B # xs @ ReplaceAll ED3_semi rest"
  "ReplaceAll ED3_semi (ED3_semi @ rest) = ReplaceAll ED3_semi rest"
  using ReplaceAll_text [of xs "tl ED3_semi" rest] ReplaceAll_esc [of xs "tl ED3_semi" rest]
    ReplaceAll_hit [of "tl ED3_semi" rest]
  by (simp_all add: ED3_def ED3_semi_def diverges_def del: ReplaceAll.simps(2))

lemma strip_first:
  "\<forall>a \<in> set as. ansi_ok a \<Longrightarrow> ReplaceAll ED3 (concat (map ansi_bytes as))
     = concat (map ansi_bytes (filter (\<lambda>a. a \<noteq> AClear) as))"
proof (induction as)
  case (Cons a as)
  then show ?case by (cases a) (simp_all add: ReplaceAll_ED3 del: ReplaceAll.simps(2))
qed simp

lemma strip_second:
  "\<forall>a \<in> set as. ansi_ok a \<and> a \<noteq> AClear \<Longrightarrow> ReplaceAll ED3_semi (concat (map ansi_bytes as))
     = concat (map ansi_bytes (filter (\<lambda>a. a \<noteq> AClearSemi) as))"
proof (induction as)
  case (Cons a as)
  then show ?case by (cases a) (simp_all add: ReplaceAll_ED3_semi del: ReplaceAll.simps(2))
qed simp

section \<open>Properties\<close>

text \<open>
  C27: In output that consists of text and complete escape sequences, exactly the two sequences
  that clear the scrollback are removed before the emulator sees it; every other byte reaches the
  emulator, in order.
\<close>

theorem clear_sequences_stripped:
  assumes "\<forall>a \<in> set as. ansi_ok a" and "concat (map ansi_bytes as) \<noteq> []"
  shows "tm_term (snd (tm_Write E (concat (map ansi_bytes as)) t))
    = em_write E (concat (map ansi_bytes (filter (\<lambda>a. a \<noteq> AClear \<and> a \<noteq> AClearSemi) as))) (tm_term t)"
proof -
  have "strip_clear (concat (map ansi_bytes as))
      = ReplaceAll ED3_semi (concat (map ansi_bytes (filter (\<lambda>a. a \<noteq> AClear) as)))"
    by (simp add: strip_clear_def strip_first assms(1))
  also have "\<dots> = concat (map ansi_bytes (filter (\<lambda>a. a \<noteq> AClearSemi) (filter (\<lambda>a. a \<noteq> AClear) as)))"
    by (rule strip_second) (use assms(1) in auto)
  finally show ?thesis using assms(2)
    by (simp add: tm_Write_def Let_def conj_commute del: concat_eq_Nil_conv)
qed

definition log_emulator :: "byte list emulator" where
  "log_emulator = \<lparr>em_new = \<lambda>_ _ _. [], em_write = \<lambda>bs t. t @ bs, em_serialize = \<lambda>t. t,
     em_resize = \<lambda>_ _ t. Some t, em_scrollback = \<lambda>_. 0, em_lines = \<lambda>t. length t, em_reset = \<lambda>_. []\<rparr>"

theorem clear_sequences_stripped_witness:
  "tm_term (snd (tm_Write log_emulator [0x61, 0x1B, 0x5B, 0x33, 0x4A, 0x62, 0x1B, 0x5B, 0x32, 0x4A]
      (NewTerminal log_emulator 10 80 24))) = [0x61, 0x62, 0x1B, 0x5B, 0x32, 0x4A]"
  using clear_sequences_stripped [of "[AText [0x61], AClear, AText [0x62], AEsc [0x5B, 0x32, 0x4A]]"
      log_emulator "NewTerminal log_emulator 10 80 24"]
  by (simp add: ED3_def ED3_semi_def diverges_def log_emulator_def NewTerminal_def)

text \<open>
  The stripping works on one read at a time and in one pass: a clear sequence cut by the end of a
  read is not seen, and one wrapped around another is assembled by the removal itself.
\<close>

theorem split_clear_reaches_emulator:
  "tm_term (snd (tm_Write log_emulator [0x4A] (snd (tm_Write log_emulator [0x1B, 0x5B, 0x33]
      (NewTerminal log_emulator 10 80 24))))) = ED3"
  by (simp add: tm_Write_def strip_clear_def ED3_def ED3_semi_def log_emulator_def NewTerminal_def)

theorem nested_clear_reaches_emulator: "strip_clear (take 3 ED3 @ ED3 @ drop 3 ED3) = ED3"
  by (simp add: strip_clear_def ED3_def ED3_semi_def)

end
