(* ===== verification/Pty_Manager.thy ===== *)
theory Pty_Manager
  imports Protocol Terminal_State
begin

text \<open>
  The shell sessions (\<^verbatim>\<open>pty.go\<close>, and \<^verbatim>\<open>ResolveShell\<close> of \<^verbatim>\<open>config_unix.go\<close>). A session object is
  shared by the map of the manager, its read loop and its exit watcher, so sessions live in a
  store indexed by a handle. Starting a shell, reading from it and its exit happen outside the
  model: their results are arguments. What an operation makes happen outside is a list of
  actions.
\<close>

section \<open>State\<close>

record Config =
  cf_DefaultShell :: string
  cf_DefaultCols :: int
  cf_DefaultRows :: int
  cf_HistoryLines :: int
  cf_PoolSize :: nat
  cf_ForceTS :: bool
  cf_ChunkSize :: int

record 't Session =
  se_ID :: string
  se_PID :: int
  se_Shell :: string
  se_Name :: string
  se_Cols :: int
  se_Rows :: int
  se_CreatedAt :: int
  se_History :: "'t Terminal"
  se_Controllers :: "string \<Rightarrow> nat option"
  se_closed :: bool

record 't pty_mgr =
  pm_heap :: "nat \<Rightarrow> 't Session option"
  pm_next :: nat
  pm_sessions :: "string \<Rightarrow> nat option"
  pm_order :: "string list"
  pm_nameCounter :: nat

definition NewPTYManager :: "'t pty_mgr" where
  "NewPTYManager = \<lparr>pm_heap = Map.empty, pm_next = 0, pm_sessions = Map.empty, pm_order = [],
     pm_nameCounter = 0\<rparr>"

datatype pty_action =
    PtyWrite nat "byte list" | PtyResize nat int int | PtyClose nat
  | OnData string "byte list" u64 | OnExit string int | ControllerWrite nat "byte list"

section \<open>Local controllers\<close>

definition AddController :: "string \<Rightarrow> nat \<Rightarrow> 't Session \<Rightarrow> 't Session" where
  "AddController clientID c s = s\<lparr>se_Controllers := (se_Controllers s)(clientID \<mapsto> c)\<rparr>"

definition RemoveController :: "string \<Rightarrow> 't Session \<Rightarrow> 't Session" where
  "RemoveController clientID s = s\<lparr>se_Controllers := (se_Controllers s)(clientID := None)\<rparr>"

definition CloseAllControllers :: "'t Session \<Rightarrow> 't Session" where
  "CloseAllControllers s = s\<lparr>se_Controllers := Map.empty\<rparr>"

text \<open>The map is enumerated in some order \<open>ids\<close> of its keys.\<close>

definition Broadcast :: "string list \<Rightarrow> byte list \<Rightarrow> 't Session \<Rightarrow> pty_action list" where
  "Broadcast ids data s = map (\<lambda>c. ControllerWrite c data) (List.map_filter (se_Controllers s) ids)"

section \<open>Shells and names\<close>

definition defaultShell :: "(string \<Rightarrow> bool) \<Rightarrow> string" where
  "defaultShell isExecutable =
    (case filter isExecutable [''/bin/bash'', ''/bin/zsh'', ''/bin/sh''] of
       s # _ \<Rightarrow> s | [] \<Rightarrow> ''/bin/sh'')"

definition ResolveShell :: "(string \<Rightarrow> bool) \<Rightarrow> string \<Rightarrow> string" where
  "ResolveShell isExecutable shell =
    (if shell = '''' \<or> shell = ''cmd'' then defaultShell isExecutable
     else if shell = ''bash'' then ''/bin/bash''
     else if shell = ''zsh'' then ''/bin/zsh''
     else if shell = ''sh'' then ''/bin/sh''
     else shell)"

definition maxSessionNameLen :: nat where
  "maxSessionNameLen = 32"

text \<open>
  \<^verbatim>\<open>[]rune(s)\<close> with, for each rune, the bytes it was read from, and \<^verbatim>\<open>string(runes)\<close>: runes that
  came from invalid bytes are encoded as U+FFFD.
\<close>

function rune_pieces :: "byte list \<Rightarrow> (nat \<times> byte list) list" where
  "rune_pieces [] = []"
| "rune_pieces (b # bs) =
    (case decode_rune (b # bs) of (r, n) \<Rightarrow> (r, take n (b # bs)) # rune_pieces (drop n (b # bs)))"
  by pat_completeness auto

termination
  by (relation "measure length") (auto dest!: decode_rune_progress simp del: decode_rune.simps)

text \<open>\<^verbatim>\<open>unicode.IsSpace\<close> and \<^verbatim>\<open>strings.TrimSpace\<close>.\<close>

definition IsSpace :: "nat \<Rightarrow> bool" where
  "IsSpace r \<longleftrightarrow> r \<in> {0x09, 0x0A, 0x0B, 0x0C, 0x0D, 0x20, 0x85, 0xA0, 0x1680, 0x2028, 0x2029,
     0x202F, 0x205F, 0x3000} \<or> (0x2000 \<le> r \<and> r \<le> 0x200A)"

definition TrimSpace :: "string \<Rightarrow> string" where
  "TrimSpace s =
    (let ps = rune_pieces (bytes_of_string s);
         kept = rev (dropWhile (IsSpace \<circ> fst) (rev (dropWhile (IsSpace \<circ> fst) ps))) in
     string_of_bytes (concat (map snd kept)))"

definition Itoa :: "nat \<Rightarrow> string" where
  "Itoa n = string_of_bytes (dec_digits n)"

definition session_name :: "string \<Rightarrow> nat \<Rightarrow> string \<times> nat" where
  "session_name name counter =
    (let trimmed = TrimSpace name in
     if trimmed = [] then (''shell'' @ Itoa (counter + 1), counter + 1)
     else
       let r = map fst (rune_pieces (bytes_of_string trimmed)) in
       if maxSessionNameLen < length r
       then (string_of_bytes (concat (map encode_rune (take maxSessionNameLen r))), counter)
       else (trimmed, counter))"

section \<open>Sessions\<close>

definition pm_Get :: "string \<Rightarrow> 't pty_mgr \<Rightarrow> nat option" where
  "pm_Get sid p = pm_sessions p sid"

definition new_session ::
  "('t, 'z) emulator_scheme \<Rightarrow> Config \<Rightarrow> string \<Rightarrow> int \<Rightarrow> string \<Rightarrow> string \<Rightarrow> int \<Rightarrow> int \<Rightarrow> int \<Rightarrow> 't Session" where
  "new_session E cfg sid pid shell display cols rows now =
    \<lparr>se_ID = sid, se_PID = pid, se_Shell = shell, se_Name = display, se_Cols = cols, se_Rows = rows,
     se_CreatedAt = now, se_History = NewTerminal E (cf_HistoryLines cfg) cols rows,
     se_Controllers = Map.empty, se_closed = False\<rparr>"

text \<open>
  \<open>start\<close> is \<^verbatim>\<open>startPty\<close> in the home directory: an error, or the process id of the shell. The
  answer is the error or the handle of the session.
\<close>

definition pm_Create ::
  "('t, 'z) emulator_scheme \<Rightarrow> Config \<Rightarrow> (string \<Rightarrow> bool) \<Rightarrow> (string \<Rightarrow> int \<Rightarrow> int \<Rightarrow> bool \<Rightarrow> string + int)
    \<Rightarrow> int \<Rightarrow> string \<Rightarrow> string \<Rightarrow> int \<Rightarrow> int \<Rightarrow> bool \<Rightarrow> string \<Rightarrow> 't pty_mgr \<Rightarrow> (string + nat) \<times> 't pty_mgr" where
  "pm_Create E cfg isExecutable start now sid shell cols0 rows0 loginShell name p =
    (let cols = (if cols0 \<le> 0 then cf_DefaultCols cfg else cols0);
         rows = (if rows0 \<le> 0 then cf_DefaultRows cfg else rows0);
         shellPath = ResolveShell isExecutable shell in
     case start shellPath cols rows loginShell of
       Inl err \<Rightarrow> (Inl err, p)
     | Inr pid \<Rightarrow>
         (case session_name name (pm_nameCounter p) of (display, counter) \<Rightarrow>
            let h = pm_next p;
                s = new_session E cfg sid pid shell display cols rows now in
            (Inr h, p\<lparr>pm_heap := (pm_heap p)(h \<mapsto> s), pm_next := h + 1, pm_nameCounter := counter,
               pm_sessions := (pm_sessions p)(sid \<mapsto> h), pm_order := pm_order p @ [sid]\<rparr>)))"

definition update_session :: "nat \<Rightarrow> ('t Session \<Rightarrow> 't Session) \<Rightarrow> 't pty_mgr \<Rightarrow> 't pty_mgr" where
  "update_session h f p =
    (case pm_heap p h of None \<Rightarrow> p | Some s \<Rightarrow> p\<lparr>pm_heap := (pm_heap p)(h \<mapsto> f s)\<rparr>)"

text \<open>\<^verbatim>\<open>Session.Close\<close>, under its \<^verbatim>\<open>once\<close>.\<close>

definition session_Close :: "nat \<Rightarrow> 't pty_mgr \<Rightarrow> pty_action list \<times> 't pty_mgr" where
  "session_Close h p =
    (case pm_heap p h of
       None \<Rightarrow> ([], p)
     | Some s \<Rightarrow>
         if se_closed s then ([], p)
         else ([PtyClose h], update_session h (\<lambda>s. s\<lparr>se_closed := True\<rparr>) p))"

definition pm_Write :: "string \<Rightarrow> byte list \<Rightarrow> 't pty_mgr \<Rightarrow> pty_action list" where
  "pm_Write sid data p = (case pm_sessions p sid of None \<Rightarrow> [] | Some h \<Rightarrow> [PtyWrite h data])"

definition pm_Resize ::
  "('t, 'z) emulator_scheme \<Rightarrow> Config \<Rightarrow> string \<Rightarrow> int \<Rightarrow> int \<Rightarrow> 't pty_mgr \<Rightarrow> pty_action list \<times> 't pty_mgr" where
  "pm_Resize E cfg sid cols rows p =
    (case Option.bind (pm_sessions p sid) (\<lambda>h. map_option (Pair h) (pm_heap p h)) of
       None \<Rightarrow> ([], p)
     | Some (h, s) \<Rightarrow>
         if se_Cols s = cols \<and> se_Rows s = rows then ([], p)
         else
           let history = (case tm_Resize E cols rows (se_History s) of
                 Some t \<Rightarrow> t | None \<Rightarrow> NewTerminal E (cf_HistoryLines cfg) cols rows) in
           ([PtyResize h cols rows],
            update_session h (\<lambda>s. s\<lparr>se_History := history, se_Cols := cols, se_Rows := rows\<rparr>) p))"

definition ResizeIfNeeded ::
  "('t, 'z) emulator_scheme \<Rightarrow> Config \<Rightarrow> string \<Rightarrow> int \<Rightarrow> int \<Rightarrow> 't pty_mgr
    \<Rightarrow> bool \<times> pty_action list \<times> 't pty_mgr" where
  "ResizeIfNeeded E cfg sid cols rows p =
    (case Option.bind (pm_Get sid p) (pm_heap p) of
       None \<Rightarrow> (False, [], p)
     | Some s \<Rightarrow>
         if se_Cols s = cols \<and> se_Rows s = rows then (False, [], p)
         else (True, pm_Resize E cfg sid cols rows p))"

definition removeOrder :: "string \<Rightarrow> 't pty_mgr \<Rightarrow> 't pty_mgr" where
  "removeOrder sid p = p\<lparr>pm_order := remove1 sid (pm_order p)\<rparr>"

definition pm_Destroy :: "string \<Rightarrow> 't pty_mgr \<Rightarrow> pty_action list \<times> 't pty_mgr" where
  "pm_Destroy sid p =
    (case pm_sessions p sid of
       None \<Rightarrow> ([], p)
     | Some h \<Rightarrow>
         session_Close h (removeOrder sid (p\<lparr>pm_sessions := (pm_sessions p)(sid := None)\<rparr>)))"

definition GetHistory :: "('t, 'z) emulator_scheme \<Rightarrow> string \<Rightarrow> 't pty_mgr \<Rightarrow> byte list \<times> u64" where
  "GetHistory E sid p =
    (case Option.bind (pm_sessions p sid) (pm_heap p) of
       None \<Rightarrow> ([], 0) | Some s \<Rightarrow> tm_Read E (se_History s))"

definition GetHistoryAt ::
  "('t, 'z) emulator_scheme \<Rightarrow> string \<Rightarrow> int \<Rightarrow> int \<Rightarrow> 't pty_mgr \<Rightarrow> byte list \<times> u64" where
  "GetHistoryAt E sid cols rows p =
    (case Option.bind (pm_sessions p sid) (pm_heap p) of
       None \<Rightarrow> ([], 0) | Some s \<Rightarrow> tm_ReadAt E cols rows (se_History s))"

definition session_info :: "'t Session \<Rightarrow> SessionInfo" where
  "session_info s = \<lparr>si_ID = se_ID s, si_PID = se_PID s, si_Shell = se_Shell s,
     si_CreatedAt = se_CreatedAt s, si_Name = se_Name s\<rparr>"

definition ListSessions :: "'t pty_mgr \<Rightarrow> SessionInfo list" where
  "ListSessions p =
    List.map_filter (\<lambda>sid. map_option session_info (Option.bind (pm_sessions p sid) (pm_heap p)))
      (pm_order p)"

fun close_handles :: "nat list \<Rightarrow> 't pty_mgr \<Rightarrow> pty_action list \<times> 't pty_mgr" where
  "close_handles [] p = ([], p)"
| "close_handles (h # hs) p =
    (case session_Close h p of (a, p1) \<Rightarrow>
     case close_handles hs p1 of (b, p2) \<Rightarrow> (a @ b, p2))"

text \<open>\<open>ids\<close> enumerates the keys of the map.\<close>

definition DestroyAll :: "string list \<Rightarrow> 't pty_mgr \<Rightarrow> pty_action list \<times> 't pty_mgr" where
  "DestroyAll ids p =
    (case close_handles (List.map_filter (pm_sessions p) ids) p of (a, p1) \<Rightarrow>
       (a, p1\<lparr>pm_sessions := Map.empty, pm_order := []\<rparr>))"

text \<open>One read of \<^verbatim>\<open>readLoop\<close> of the session \<open>h\<close>, and the end of \<^verbatim>\<open>waitExit\<close>.\<close>

definition pty_read ::
  "('t, 'z) emulator_scheme \<Rightarrow> nat \<Rightarrow> byte list \<Rightarrow> 't pty_mgr \<Rightarrow> pty_action list \<times> 't pty_mgr" where
  "pty_read E h data p =
    (case pm_heap p h of
       None \<Rightarrow> ([], p)
     | Some s \<Rightarrow>
         if data = [] then ([], p)
         else case tm_Write E data (se_History s) of (q, t) \<Rightarrow>
           ([OnData (se_ID s) data q], update_session h (\<lambda>s. s\<lparr>se_History := t\<rparr>) p))"

definition pty_exited :: "nat \<Rightarrow> int \<Rightarrow> 't pty_mgr \<Rightarrow> pty_action list \<times> 't pty_mgr" where
  "pty_exited h exitCode p =
    (case pm_heap p h of
       None \<Rightarrow> ([], p)
     | Some s \<Rightarrow>
         (case session_Close h
             (removeOrder (se_ID s) (p\<lparr>pm_sessions := (pm_sessions p)(se_ID s := None)\<rparr>)) of
            (a, p1) \<Rightarrow> (a @ [OnExit (se_ID s) exitCode], p1)))"

fun CreatePool ::
  "('t, 'z) emulator_scheme \<Rightarrow> Config \<Rightarrow> (string \<Rightarrow> bool) \<Rightarrow> (string \<Rightarrow> int \<Rightarrow> int \<Rightarrow> bool \<Rightarrow> string + int)
    \<Rightarrow> int \<Rightarrow> string list \<Rightarrow> string \<Rightarrow> 't pty_mgr \<Rightarrow> nat list \<times> 't pty_mgr" where
  "CreatePool E cfg isExecutable start now [] shell p = ([], p)"
| "CreatePool E cfg isExecutable start now (sid # ids) shell p =
    (case pm_Create E cfg isExecutable start now sid shell (cf_DefaultCols cfg) (cf_DefaultRows cfg)
        True [] p of
       (Inl err, p1) \<Rightarrow> CreatePool E cfg isExecutable start now ids shell p1
     | (Inr h, p1) \<Rightarrow>
         (case CreatePool E cfg isExecutable start now ids shell p1 of (hs, p2) \<Rightarrow> (h # hs, p2)))"

lemma new_session_sel [simp]:
  "se_ID (new_session E cfg sid pid shell nm cols rows now) = sid"
  "se_PID (new_session E cfg sid pid shell nm cols rows now) = pid"
  "se_Name (new_session E cfg sid pid shell nm cols rows now) = nm"
  "se_closed (new_session E cfg sid pid shell nm cols rows now) = False"
  by (simp_all add: new_session_def)

section \<open>Runs\<close>

datatype pty_op =
    OpCreate string string int int bool string "string + int" int
  | OpDestroy string | OpDestroyAll "string list" | OpResize string int int
  | OpRead nat "byte list" | OpExit nat int

fun pty_step ::
  "('t, 'z) emulator_scheme \<Rightarrow> Config \<Rightarrow> (string \<Rightarrow> bool) \<Rightarrow> pty_op \<Rightarrow> 't pty_mgr
    \<Rightarrow> pty_action list \<times> 't pty_mgr" where
  "pty_step E cfg ex (OpCreate sid shell cols rows login name res now) p =
    ([], snd (pm_Create E cfg ex (\<lambda>_ _ _ _. res) now sid shell cols rows login name p))"
| "pty_step E cfg ex (OpDestroy sid) p = pm_Destroy sid p"
| "pty_step E cfg ex (OpDestroyAll ids) p = DestroyAll ids p"
| "pty_step E cfg ex (OpResize sid cols rows) p = pm_Resize E cfg sid cols rows p"
| "pty_step E cfg ex (OpRead h data) p = pty_read E h data p"
| "pty_step E cfg ex (OpExit h code) p = pty_exited h code p"

fun pty_run ::
  "('t, 'z) emulator_scheme \<Rightarrow> Config \<Rightarrow> (string \<Rightarrow> bool) \<Rightarrow> pty_op list \<Rightarrow> 't pty_mgr \<Rightarrow> 't pty_mgr" where
  "pty_run E cfg ex [] p = p"
| "pty_run E cfg ex (q # qs) p = pty_run E cfg ex qs (snd (pty_step E cfg ex q p))"

text \<open>
  The specification: the handles and ids of the sessions that have been created and neither
  destroyed nor exited, in order of creation, and the next handle.
\<close>

fun life_step :: "pty_op \<Rightarrow> nat \<times> (nat \<times> string) list \<Rightarrow> nat \<times> (nat \<times> string) list" where
  "life_step (OpCreate sid _ _ _ _ _ res _) (n, xs) =
    (case res of Inl _ \<Rightarrow> (n, xs) | Inr _ \<Rightarrow> (n + 1, xs @ [(n, sid)]))"
| "life_step (OpDestroy sid) (n, xs) = (n, filter (\<lambda>x. snd x \<noteq> sid) xs)"
| "life_step (OpDestroyAll _) (n, xs) = (n, [])"
| "life_step (OpExit h _) (n, xs) = (n, filter (\<lambda>x. fst x \<noteq> h) xs)"
| "life_step _ s = s"

definition life_run :: "pty_op list \<Rightarrow> nat \<times> (nat \<times> string) list" where
  "life_run qs = fold life_step qs (0, [])"

fun created :: "pty_op list \<Rightarrow> string list" where
  "created [] = []"
| "created (OpCreate sid _ _ _ _ _ _ _ # qs) = sid # created qs"
| "created (_ # qs) = created qs"

text \<open>Ids are new, as those the app draws at random, and a teardown enumerates the whole map.\<close>

definition run_ok :: "pty_op list \<Rightarrow> bool" where
  "run_ok qs \<longleftrightarrow> distinct (created qs)
     \<and> list_all (\<lambda>q. case q of OpDestroyAll ids \<Rightarrow> list_all (\<lambda>s. s \<in> set ids) (created qs) | _ \<Rightarrow> True) qs"

definition view :: "'t pty_mgr \<Rightarrow> nat \<Rightarrow> (string \<times> bool) option" where
  "view p h = map_option (\<lambda>s. (se_ID s, se_closed s)) (pm_heap p h)"

definition tracks :: "string set \<Rightarrow> nat \<times> (nat \<times> string) list \<Rightarrow> 't pty_mgr \<Rightarrow> bool" where
  "tracks used a p \<longleftrightarrow> pm_next p = fst a \<and> pm_order p = map snd (snd a) \<and> distinct (map snd (snd a))
     \<and> (\<forall>s h. pm_sessions p s = Some h \<longleftrightarrow> (h, s) \<in> set (snd a))
     \<and> (\<forall>h i c. view p h = Some (i, c) \<longrightarrow> h < fst a \<and> i \<in> used \<and> c = ((h, i) \<notin> set (snd a)))
     \<and> (\<forall>h i. (h, i) \<in> set (snd a) \<longrightarrow> view p h = Some (i, False))
     \<and> (\<forall>h h' i c c'. view p h = Some (i, c) \<longrightarrow> view p h' = Some (i, c') \<longrightarrow> h = h')"

lemma update_session_sel [simp]:
  "pm_next (update_session h f p) = pm_next p"
  "pm_sessions (update_session h f p) = pm_sessions p"
  "pm_order (update_session h f p) = pm_order p"
  by (auto simp: update_session_def split: option.splits)

lemma view_update_session:
  assumes "\<And>s. se_ID (f s) = se_ID s" and "\<And>s. se_closed (f s) = se_closed s"
  shows "view (update_session h f p) = view p"
  using assms by (auto simp: view_def update_session_def split: option.splits)

lemma session_Close_sel [simp]:
  "pm_next (snd (session_Close h p)) = pm_next p"
  "pm_sessions (snd (session_Close h p)) = pm_sessions p"
  "pm_order (snd (session_Close h p)) = pm_order p"
  by (auto simp: session_Close_def split: option.splits)

lemma view_session_Close:
  "view (snd (session_Close h p)) k = map_option (\<lambda>(i, c). (i, c \<or> k = h)) (view p k)"
  by (cases "pm_heap p k") (auto simp: view_def session_Close_def update_session_def split: option.splits)

lemma close_handles_sel [simp]:
  "pm_next (snd (close_handles hs p)) = pm_next p"
  "pm_sessions (snd (close_handles hs p)) = pm_sessions p"
  "pm_order (snd (close_handles hs p)) = pm_order p"
  by (induction hs arbitrary: p) (auto simp: case_prod_unfold)

lemma view_close_handles:
  "view (snd (close_handles hs p)) k = map_option (\<lambda>(i, c). (i, c \<or> k \<in> set hs)) (view p k)"
proof (induction hs arbitrary: p)
  case Nil
  show ?case by (cases "view p k") auto
next
  case (Cons h hs)
  show ?case by (cases "view p k") (auto simp: case_prod_unfold Cons view_session_Close)
qed

lemma view_fields [simp]:
  "view (p\<lparr>pm_sessions := m\<rparr>) = view p" "view (p\<lparr>pm_order := l\<rparr>) = view p"
  "view (removeOrder s p) = view p"
  by (auto simp: view_def removeOrder_def)

lemma remove1_live:
  assumes "distinct (map snd xs)"
  shows "remove1 s (map snd xs) = map snd (filter (\<lambda>x. snd x \<noteq> s) xs)"
  using assms by (simp add: distinct_remove1_removeAll removeAll_filter_not_eq filter_map comp_def
      eq_commute)

lemma tracksI:
  assumes "pm_next p = n" and "pm_order p = map snd xs" and "distinct (map snd xs)"
    and "\<And>s h. pm_sessions p s = Some h \<longleftrightarrow> (h, s) \<in> set xs"
    and "\<And>h i c. view p h = Some (i, c) \<Longrightarrow> h < n \<and> i \<in> used \<and> c = ((h, i) \<notin> set xs)"
    and "\<And>h i. (h, i) \<in> set xs \<Longrightarrow> view p h = Some (i, False)"
    and "\<And>h h' i c c'. view p h = Some (i, c) \<Longrightarrow> view p h' = Some (i, c') \<Longrightarrow> h = h'"
  shows "tracks used (n, xs) p"
  using assms unfolding tracks_def fst_conv snd_conv by meson

lemma tracksD:
  assumes "tracks used (n, xs) p"
  shows "pm_next p = n" "pm_order p = map snd xs" "distinct (map snd xs)"
    "pm_sessions p s = Some h \<longleftrightarrow> (h, s) \<in> set xs"
    "view p h = Some (i, c) \<Longrightarrow> h < n \<and> i \<in> used \<and> c = ((h, i) \<notin> set xs)"
    "(h, i) \<in> set xs \<Longrightarrow> view p h = Some (i, False)"
    "view p h = Some (i, c) \<Longrightarrow> view p h' = Some (i, c') \<Longrightarrow> h = h'"
  using assms unfolding tracks_def fst_conv snd_conv by meson+

lemma tracks_add:
  assumes t: "tracks used (n, xs) p" and new: "sid \<notin> used"
    and view: "view p' = (view p)(n \<mapsto> (sid, False))"
    and "pm_next p' = n + 1" and "pm_order p' = pm_order p @ [sid]"
    and "pm_sessions p' = (pm_sessions p)(sid \<mapsto> n)"
  shows "tracks (insert sid used) (n + 1, xs @ [(n, sid)]) p'"
proof -
  note d = tracksD [OF t]
  have sid: "(h, sid) \<notin> set xs" for h using d(5,6) new by blast
  have n: "(n, i) \<notin> set xs" for i using d(5,6) by blast
  have v: "view p n = None" using d(5) [of n] by (cases "view p n") auto
  show ?thesis
  proof (rule tracksI)
    fix h i c
    assume "view p' h = Some (i, c)"
    then show "h < n + 1 \<and> i \<in> insert sid used \<and> c = ((h, i) \<notin> set (xs @ [(n, sid)]))"
      using d(5) [of h i c] by (auto simp: view split: if_splits)
  next
    fix h h' i c c'
    assume "view p' h = Some (i, c)" "view p' h' = Some (i, c')"
    then show "h = h'"
      using d(5) [of h i c] d(5) [of h' i c'] d(7) [of h i c h' c'] new
      by (auto simp: view split: if_splits)
  next
    fix h i
    assume "(h, i) \<in> set (xs @ [(n, sid)])"
    then show "view p' h = Some (i, False)" using d(6) n by (auto simp: view)
  next
    show "distinct (map snd (xs @ [(n, sid)]))" using d(3) sid by force
    fix s h
    show "pm_sessions p' s = Some h \<longleftrightarrow> (h, s) \<in> set (xs @ [(n, sid)])"
      using d(4) [of s h] sid by (auto simp: assms(6))
  qed (simp_all add: assms d(2))
qed

lemma tracks_create:
  assumes "tracks used a p" and "sid \<notin> used"
  shows "tracks (insert sid used) (life_step (OpCreate sid shell cols rows login name res now) a)
    (snd (pty_step E cfg ex (OpCreate sid shell cols rows login name res now) p))"
proof -
  obtain n xs where a: "a = (n, xs)" by fastforce
  show ?thesis
  proof (cases res)
    case (Inl err)
    have "tracks (insert sid used) (n, xs) p" using assms(1) by (auto simp: a tracks_def)
    then show ?thesis by (simp add: a Inl pm_Create_def Let_def)
  next
    case (Inr pid)
    let ?p = "snd (pty_step E cfg ex (OpCreate sid shell cols rows login name res now) p)"
    have n: "pm_next p = n" using assms(1) by (simp add: a tracks_def)
    have "tracks (insert sid used) (n + 1, xs @ [(n, sid)]) ?p"
      by (rule tracks_add [OF assms(1) [unfolded a] assms(2)])
        (auto simp: n Inr view_def pm_Create_def Let_def fun_eq_iff split: prod.split)
    then show ?thesis by (simp only: a Inr life_step.simps sum.case)
  qed
qed

lemma tracks_remove:
  assumes t: "tracks used (n, xs) p" and "pm_next p' = pm_next p"
    and "pm_order p' = remove1 i (pm_order p)" and sess: "pm_sessions p' = (pm_sessions p)(i := None)"
    and view: "\<And>k. view p' k = map_option (\<lambda>(j, c). (j, c \<or> k = h)) (view p k)"
    and h: "view p h = Some (i, c)"
  shows "tracks used (n, filter (\<lambda>x. snd x \<noteq> i) xs) p'"
proof -
  note d = tracksD [OF t]
  show ?thesis
  proof (rule tracksI)
    fix k j e
    assume "view p' k = Some (j, e)"
    then obtain e' where e: "view p k = Some (j, e')" "e = (e' \<or> k = h)" by (auto simp: view)
    show "k < n \<and> j \<in> used \<and> e = ((k, j) \<notin> set (filter (\<lambda>x. snd x \<noteq> i) xs))"
      using d(5) [OF e(1)] e d(7) [OF h, of k e'] h by auto
  next
    fix k j
    assume "(k, j) \<in> set (filter (\<lambda>x. snd x \<noteq> i) xs)"
    then show "view p' k = Some (j, False)" using d(6) [of k j] h by (auto simp: view)
  next
    fix k k' j e e'
    assume "view p' k = Some (j, e)" "view p' k' = Some (j, e')"
    then show "k = k'" using d(7) [of k j _ k'] by (auto simp: view)
  next
    fix s k
    show "pm_sessions p' s = Some k \<longleftrightarrow> (k, s) \<in> set (filter (\<lambda>x. snd x \<noteq> i) xs)"
      using d(4) [of s k] by (auto simp: sess)
  qed (simp_all add: assms(2,3) d(1-3) remove1_live distinct_map_filter)
qed

lemma tracks_keep:
  assumes "tracks used a p" and "pm_next p' = pm_next p" and "pm_order p' = pm_order p"
    and "pm_sessions p' = pm_sessions p" and "view p' = view p"
  shows "tracks used a p'"
  using assms by (simp add: tracks_def)

lemma tracks_destroy:
  assumes t: "tracks used (n, xs) p"
  shows "tracks used (n, filter (\<lambda>x. snd x \<noteq> sid) xs) (snd (pm_Destroy sid p))"
proof (cases "pm_sessions p sid")
  case None
  then have "filter (\<lambda>x. snd x \<noteq> sid) xs = xs"
    using tracksD(4) [OF t] by (force simp: filter_id_conv)
  then show ?thesis using t None by (simp add: pm_Destroy_def)
next
  case (Some h)
  then have "view p h = Some (sid, False)" using tracksD(4,6) [OF t] by blast
  then show ?thesis
    by (intro tracks_remove [OF t]) (auto simp: pm_Destroy_def Some view_session_Close removeOrder_def)
qed

lemma tracks_exit:
  assumes t: "tracks used (n, xs) p"
  shows "tracks used (n, filter (\<lambda>x. fst x \<noteq> h) xs) (snd (pty_exited h code p))"
proof (cases "pm_heap p h")
  case None
  then have "view p h = None" by (simp add: view_def)
  then have "filter (\<lambda>x. fst x \<noteq> h) xs = xs"
    using tracksD(6) [OF t] by (force simp: filter_id_conv)
  then show ?thesis using t None by (simp add: pty_exited_def)
next
  case (Some s)
  then have v: "view p h = Some (se_ID s, se_closed s)" by (simp add: view_def)
  have "fst x \<noteq> h \<longleftrightarrow> snd x \<noteq> se_ID s" if "x \<in> set xs" for x
    using that tracksD(6) [OF t, of "fst x" "snd x"] tracksD(7) [OF t v, of "fst x"] v by auto
  then have "filter (\<lambda>x. fst x \<noteq> h) xs = filter (\<lambda>x. snd x \<noteq> se_ID s) xs"
    by (rule filter_cong [OF refl])
  moreover have "tracks used (n, filter (\<lambda>x. snd x \<noteq> se_ID s) xs) (snd (pty_exited h code p))"
    using v by (intro tracks_remove [OF t])
      (auto simp: pty_exited_def Some view_session_Close removeOrder_def case_prod_unfold)
  ultimately show ?thesis by simp
qed

lemma tracks_destroy_all:
  assumes t: "tracks used (n, xs) p" and ids: "used \<subseteq> set ids"
  shows "tracks used (n, []) (snd (DestroyAll ids p))"
proof -
  note d = tracksD [OF t]
  have hs: "h \<in> set (List.map_filter (pm_sessions p) ids)" if "(h, i) \<in> set xs" for h i
    using that d(4) [of i h] d(5) [OF d(6) [OF that]] ids by (force simp: map_filter_def)
  have sel: "pm_next (snd (DestroyAll ids p)) = n" "pm_sessions (snd (DestroyAll ids p)) = Map.empty"
    "pm_order (snd (DestroyAll ids p)) = []"
    "view (snd (DestroyAll ids p)) k
       = map_option (\<lambda>(i, c). (i, c \<or> k \<in> set (List.map_filter (pm_sessions p) ids))) (view p k)" for k
    by (simp_all add: DestroyAll_def case_prod_unfold view_close_handles d(1))
  show ?thesis
  proof (rule tracksI)
    fix h i c
    assume "view (snd (DestroyAll ids p)) h = Some (i, c)"
    then show "h < n \<and> i \<in> used \<and> c = ((h, i) \<notin> set [])"
      using d(5) [of h i] hs [of h i] by (auto simp: sel)
  next
    fix h h' i c c'
    assume "view (snd (DestroyAll ids p)) h = Some (i, c)" "view (snd (DestroyAll ids p)) h' = Some (i, c')"
    then show "h = h'" using d(7) [of h i _ h'] by (auto simp: sel)
  qed (simp_all add: sel)
qed

lemma tracks_step:
  assumes t: "tracks used a p" and "distinct (created [q])" and "set (created [q]) \<inter> used = {}"
    and "\<And>ids. q = OpDestroyAll ids \<Longrightarrow> used \<subseteq> set ids"
  shows "tracks (set (created [q]) \<union> used) (life_step q a) (snd (pty_step E cfg ex q p))"
proof -
  obtain n xs where a: "a = (n, xs)" by fastforce
  show ?thesis
  proof (cases q)
    case OpCreate
    with tracks_create [OF t] assms(3) show ?thesis by (simp del: life_step.simps pty_step.simps)
  next
    case (OpResize sid cols rows)
    have "tracks used a (snd (pm_Resize E cfg sid cols rows p))"
      by (rule tracks_keep [OF t]) (auto simp: pm_Resize_def Let_def view_update_session split: option.splits)
    then show ?thesis by (simp add: a OpResize)
  next
    case (OpRead h data)
    have "tracks used a (snd (pty_read E h data p))"
      by (rule tracks_keep [OF t]) (auto simp: pty_read_def view_update_session split: option.splits prod.splits)
    then show ?thesis by (simp add: a OpRead)
  qed (use t assms(4) tracks_destroy tracks_exit tracks_destroy_all in \<open>simp_all add: a\<close>)
qed

lemma created_Cons: "created (q # qs) = created [q] @ created qs"
  by (cases q) simp_all

lemma tracks_run:
  assumes "tracks used a p" and "distinct (created qs)" and "set (created qs) \<inter> used = {}"
    and "\<And>ids. OpDestroyAll ids \<in> set qs \<Longrightarrow> used \<union> set (created qs) \<subseteq> set ids"
  shows "tracks (used \<union> set (created qs)) (fold life_step qs a) (pty_run E cfg ex qs p)"
  using assms
proof (induction qs arbitrary: used a p)
  case (Cons q qs)
  have c: "set (created (q # qs)) = set (created [q]) \<union> set (created qs)"
    "distinct (created [q])" "distinct (created qs)"
    "set (created [q]) \<inter> set (created qs) = {}"
    using Cons.prems(2) unfolding created_Cons [of q qs] by simp_all
  have "tracks (set (created [q]) \<union> used) (life_step q a) (snd (pty_step E cfg ex q p))"
    by (rule tracks_step [OF Cons.prems(1) c(2)]) (use Cons.prems(3,4) c(1) in auto)
  moreover have "set (created qs) \<inter> (set (created [q]) \<union> used) = {}"
    using Cons.prems(3) c by blast
  moreover have "set (created [q]) \<union> used \<union> set (created qs) \<subseteq> set ids"
    if "OpDestroyAll ids \<in> set qs" for ids
    using Cons.prems(4) [of ids] that c(1) by auto
  ultimately have "tracks (set (created [q]) \<union> used \<union> set (created qs)) (fold life_step qs (life_step q a))
      (pty_run E cfg ex qs (snd (pty_step E cfg ex q p)))"
    using Cons.IH c(3) by blast
  then show ?case by (simp add: c(1) Un_ac)
qed simp

lemma run_tracks:
  assumes "run_ok qs"
  shows "tracks (set (created qs)) (life_run qs) (pty_run E cfg ex qs NewPTYManager)"
proof -
  have "tracks {} (0, []) NewPTYManager"
    by (rule tracksI) (simp_all add: NewPTYManager_def view_def)
  from tracks_run [OF this, of qs E cfg ex] assms show ?thesis
    by (force simp: run_ok_def life_run_def list_all_iff split: pty_op.splits)
qed

lemma ListSessions_tracks:
  assumes t: "tracks used a p"
  shows "map si_ID (ListSessions p) = map snd (snd a)"
proof -
  obtain n xs where a: "a = (n, xs)" by fastforce
  note d = tracksD [OF t [unfolded a]]
  have "map si_ID (List.map_filter (\<lambda>sid. map_option session_info
      (Option.bind (pm_sessions p sid) (pm_heap p))) (map snd ys)) = map snd ys"
    if "set ys \<subseteq> set xs" for ys
    using that
  proof (induction ys)
    case (Cons y ys)
    then have "pm_sessions p (snd y) = Some (fst y)" "view p (fst y) = Some (snd y, False)"
      using d(4) [of "snd y" "fst y"] d(6) [of "fst y" "snd y"] by auto
    then show ?case
      using Cons by (auto simp: map_filter_def view_def session_info_def)
  qed (simp add: map_filter_def)
  then show ?thesis by (simp add: ListSessions_def d(2) a)
qed

text \<open>A successful creation, as one update of the record.\<close>

lemma create_record:
  "pty_step E cfg ex (OpCreate sid shell cols rows login name (Inr pid) now)
     \<lparr>pm_heap = H, pm_next = n, pm_sessions = S, pm_order = ord, pm_nameCounter = c\<rparr>
   = ([], \<lparr>pm_heap = H(n \<mapsto> new_session E cfg sid pid shell (fst (session_name name c))
            (if cols \<le> 0 then cf_DefaultCols cfg else cols)
            (if rows \<le> 0 then cf_DefaultRows cfg else rows) now),
          pm_next = n + 1, pm_sessions = S(sid \<mapsto> n), pm_order = ord @ [sid],
          pm_nameCounter = snd (session_name name c)\<rparr>)"
  by (simp add: pm_Create_def Let_def case_prod_unfold)

section \<open>Properties\<close>

text \<open>
  C25: The session list the app is sent is the specification's: after any run of creations,
  destructions, resizes, reads and exits, \<^verbatim>\<open>ListSessions\<close> holds the sessions that were created and
  neither destroyed nor exited, in order of creation.
\<close>

theorem session_list_refines:
  assumes "run_ok qs"
  shows "map si_ID (ListSessions (pty_run E cfg ex qs NewPTYManager)) = map snd (snd (life_run qs))"
  by (rule ListSessions_tracks [OF run_tracks [OF assms]])

definition demo_pty_ops :: "pty_op list" where
  "demo_pty_ops = [OpCreate ''a'' ''sh'' 0 0 True [] (Inr 100) 1, OpCreate ''b'' ''sh'' 0 0 True [] (Inr 101) 2,
     OpCreate ''c'' ''sh'' 0 0 True [] (Inl ''no pty'') 2, OpRead 0 [0x24], OpDestroy ''a'',
     OpCreate ''d'' ''sh'' 80 24 False ''mine'' (Inr 102) 3, OpExit 0 0]"

definition demo_config :: Config where
  "demo_config = \<lparr>cf_DefaultShell = ''sh'', cf_DefaultCols = 120, cf_DefaultRows = 36,
     cf_HistoryLines = 1000, cf_PoolSize = 1, cf_ForceTS = False, cf_ChunkSize = 0\<rparr>"

lemma demo_run_ok: "run_ok demo_pty_ops"
  by (simp add: run_ok_def demo_pty_ops_def)

theorem session_list_refines_witness:
  "map si_ID (ListSessions (pty_run log_emulator demo_config (\<lambda>_. True) demo_pty_ops NewPTYManager))
     = [''b'', ''d'']"
  using session_list_refines [OF demo_run_ok, of log_emulator demo_config "\<lambda>_. True"]
  by (simp add: life_run_def demo_pty_ops_def)

text \<open>
  C26: No shell is leaked and none in use is closed: a session's PTY has been closed exactly when
  the session is no longer one of the specification's live sessions.
\<close>

theorem closed_iff_gone:
  assumes "run_ok qs" and "pm_heap (pty_run E cfg ex qs NewPTYManager) h = Some s"
  shows "se_closed s \<longleftrightarrow> h \<notin> fst ` set (snd (life_run qs))"
proof -
  obtain n xs where a: "life_run qs = (n, xs)" by fastforce
  note d = tracksD [OF run_tracks [OF assms(1), of E cfg ex, unfolded a]]
  have v: "view (pty_run E cfg ex qs NewPTYManager) h = Some (se_ID s, se_closed s)"
    using assms(2) by (simp add: view_def)
  have "i = se_ID s" if "(h, i) \<in> set xs" for i using d(6) [OF that] v by simp
  then have "h \<in> fst ` set xs \<longleftrightarrow> (h, se_ID s) \<in> set xs" by force
  then show ?thesis using d(5) [OF v] by (simp add: a)
qed

theorem closed_iff_gone_witness:
  "\<exists>s. pm_heap (pty_run log_emulator demo_config (\<lambda>_. True) demo_pty_ops NewPTYManager) 1 = Some s
     \<and> \<not> se_closed s"
proof -
  let ?p = "pty_run log_emulator demo_config (\<lambda>_. True) demo_pty_ops NewPTYManager"
  have a: "life_run demo_pty_ops = (3, [(1, ''b''), (2, ''d'')])"
    by (simp add: life_run_def demo_pty_ops_def)
  have "view ?p 1 = Some (''b'', False)"
    by (rule tracksD(6) [OF run_tracks [OF demo_run_ok, unfolded a]]) simp
  then obtain s where s: "pm_heap ?p 1 = Some s" by (auto simp: view_def)
  with closed_iff_gone [OF demo_run_ok s] show ?thesis by (simp add: a)
qed

lemma rune_pieces_concat: "concat (map snd (rune_pieces bs)) = bs"
proof (induction bs rule: rune_pieces.induct)
  case (2 b bs)
  obtain r n where "decode_rune (b # bs) = (r, n)" by fastforce
  with 2 show ?case by (simp del: decode_rune.simps drop_Cons' take_Cons')
qed simp

lemma rune_pieces_bound: "(r, ps) \<in> set (rune_pieces bs) \<Longrightarrow> 1 \<le> length ps \<and> length ps \<le> 4"
proof (induction bs rule: rune_pieces.induct)
  case (2 b bs)
  obtain r' n where "decode_rune (b # bs) = (r', n)" by fastforce
  with 2 show ?case
    using decode_rune_size [of "b # bs"] by (auto simp del: decode_rune.simps)
qed simp

lemma length_concat_le: "\<forall>x \<in> set xs. length (f x) \<le> c \<Longrightarrow> length (concat (map f xs)) \<le> length xs * c"
  by (induction xs) auto

lemma session_name_bounds:
  assumes "n + 1 < 10 ^ 19"
  shows "fst (session_name name n) \<noteq> [] \<and> length (fst (session_name name n)) \<le> 128"
proof (cases "TrimSpace name = []")
  case True
  have "length (Itoa (n + 1)) \<le> 19"
    unfolding Itoa_def length_string_of_bytes by (rule length_dec_digits) (use assms in simp_all)
  with True show ?thesis by (simp add: session_name_def)
next
  case False
  let ?bs = "bytes_of_string (TrimSpace name)"
  let ?r = "map fst (rune_pieces ?bs)"
  show ?thesis
  proof (cases "maxSessionNameLen < length ?r")
    case True
    let ?e = "concat (map encode_rune (take maxSessionNameLen ?r))"
    have "length ?e \<le> length (take maxSessionNameLen ?r) * 4"
      by (rule length_concat_le) (simp add: length_encode_rune)
    also have "\<dots> \<le> 128" by (simp add: maxSessionNameLen_def)
    finally have "length ?e \<le> 128" .
    moreover have "take maxSessionNameLen ?r \<noteq> []" using True by (auto simp: maxSessionNameLen_def)
    then obtain x xs where "take maxSessionNameLen ?r = x # xs" by (cases "take maxSessionNameLen ?r") auto
    then have "?e \<noteq> []" using length_encode_rune [of x] by auto
    then have "string_of_bytes ?e \<noteq> []" by (metis length_0_conv length_string_of_bytes)
    moreover have "fst (session_name name n) = string_of_bytes ?e"
      using True False by (simp add: session_name_def Let_def)
    ultimately show ?thesis by simp
  next
    case False
    have "length (concat (map snd (rune_pieces ?bs))) \<le> length (rune_pieces ?bs) * 4"
      by (rule length_concat_le) (use rune_pieces_bound in fastforce)
    then have "length (TrimSpace name) \<le> length ?r * 4" by (simp add: rune_pieces_concat)
    with False \<open>TrimSpace name \<noteq> []\<close> show ?thesis by (simp add: session_name_def Let_def maxSessionNameLen_def)
  qed
qed

text \<open>
  A session's display name is never empty and at most 128 bytes, whatever name the client
  asked for: 32 runes of at most four bytes, or \<^verbatim>\<open>shellN\<close>.
\<close>

theorem session_name_bounded:
  assumes "pm_Create E cfg ex start now sid shell cols rows login name p = (Inr h, p')"
    and "pm_nameCounter p < 10 ^ 18"
  shows "\<exists>s. pm_heap p' h = Some s \<and> se_Name s \<noteq> [] \<and> length (se_Name s) \<le> 128"
proof -
  obtain nm k where n: "session_name name (pm_nameCounter p) = (nm, k)" by fastforce
  have "pm_heap p' h = Some s \<Longrightarrow> se_Name s = nm" "\<exists>s. pm_heap p' h = Some s" for s
    using assms(1) by (auto simp: pm_Create_def n Let_def split: sum.splits)
  moreover have "nm \<noteq> [] \<and> length nm \<le> 128"
    using session_name_bounds [of "pm_nameCounter p" name] assms(2) by (simp add: n)
  ultimately show ?thesis by metis
qed

theorem session_name_bounded_witness:
  "\<exists>s. pm_heap (snd (pm_Create log_emulator demo_config (\<lambda>_. True) (\<lambda>_ _ _ _. Inr 7) 1 ''a'' ''sh'' 0 0 True
      '' '' NewPTYManager)) 0 = Some s \<and> se_Name s \<noteq> [] \<and> length (se_Name s) \<le> 128"
proof -
  let ?c = "pm_Create log_emulator demo_config (\<lambda>_. True) (\<lambda>_ _ _ _. Inr 7) 1 ''a'' ''sh'' 0 0 True '' ''
      NewPTYManager"
  have "?c = (Inr 0, snd ?c)" by (simp add: pm_Create_def NewPTYManager_def Let_def case_prod_unfold)
  from session_name_bounded [OF this] show ?thesis by (simp add: NewPTYManager_def)
qed

text \<open>
  Nothing checks that an id is new. Created twice, it is listed twice with the second session's
  data and the first shell is out of reach; created again after its destruction, the exit of the
  first shell, whose watcher knows only the id, takes the second session off the list while its
  shell keeps running.
\<close>

theorem duplicate_id_listed_twice:
  "map si_PID (ListSessions (pty_run log_emulator demo_config (\<lambda>_. True)
      [OpCreate ''a'' ''sh'' 0 0 True [] (Inr 100) 1, OpCreate ''a'' ''sh'' 0 0 True [] (Inr 101) 2]
      NewPTYManager)) = [101, 101]"
  by (simp add: NewPTYManager_def create_record del: pty_step.simps)
    (simp add: ListSessions_def map_filter_def session_info_def)

theorem old_exit_unlists_new_session:
  "let p = pty_run log_emulator demo_config (\<lambda>_. True)
      [OpCreate ''a'' ''sh'' 0 0 True [] (Inr 100) 1, OpDestroy ''a'',
       OpCreate ''a'' ''sh'' 0 0 True [] (Inr 101) 2, OpExit 0 0] NewPTYManager in
   map si_ID (ListSessions p) = [] \<and> map_option se_closed (pm_heap p 1) = Some False"
  by (simp add: NewPTYManager_def create_record del: pty_step.simps(1))
    (simp add: ListSessions_def map_filter_def pm_Destroy_def pty_exited_def session_Close_def
      update_session_def removeOrder_def create_record del: pty_step.simps(1))

end
