(* ===== verification/Daemon.thy ===== *)
theory Daemon
  imports Secure_Handshake Batcher_Ops History_Chunks File_Transfer Proxy_Manager Pty_Manager
begin

text \<open>
  The daemon that ties the parts together (\<^verbatim>\<open>daemon.go\<close>): the channel selection and the senders,
  the dispatch of the app's messages and binary frames, output delivery, history, push-pause,
  the P2P signalling and the teardown of the channels. Handlers map the state to the state;
  what they make happen outside is appended to \<open>dm_out\<close>. \<open>None\<close> is a panic, which takes the
  process down. A connection object is known by a number and whether it is connected.
  \<open>dm_sending\<close> are the writes that goroutines hold between the tests of \<^verbatim>\<open>sendOutput\<close> and the delivery:
  no lock joins the two, so other events may come in between.
\<close>

section \<open>State\<close>

record raw_signal =
  rs_type :: string
  rs_sdp :: string
  rs_candidate :: string
  rs_sdpMid :: string
  rs_index :: int

datatype raw_out = RawAnswer string | RawChannelFailed string | RawSecStatus bool

datatype effect =
    SentP2P Message | SentRelay Message | FrameP2P "byte list" | FrameRelay "byte list"
  | RawRelay raw_out | DrainRelay | ToPty pty_action | ToProxy proxy_action | FetchHttp Message
  | StartFile u32 nat | StartAnswerer string "raw_signal list" | AddICE nat raw_signal | ExitProcess string

record 't daemon =
  dm_accessKey :: string
  dm_sec :: secure_state
  dm_mode :: string
  dm_rtc :: "(nat \<times> bool) option"
  dm_relay :: "(nat \<times> bool) option"
  dm_pendingICE :: "raw_signal list"
  dm_pendingICEMode :: bool
  dm_kicked :: bool
  dm_sub :: "string set"
  dm_muted :: "string set"
  dm_sending :: "(string \<times> byte list \<times> u64) list"
  dm_batcher :: batcher
  dm_lastInputAt :: int
  dm_pty :: "'t pty_mgr"
  dm_files :: file_mgr
  dm_proxy :: proxy_mgr
  dm_stopped :: bool
  dm_out :: "effect list"

text \<open>The fixed surroundings of the daemon.\<close>

record 't daemon_env =
  ev_emu :: "'t emulator"
  ev_cfg :: Config
  ev_pake :: pake_env
  ev_aead :: aead
  ev_unmarshal :: "byte list \<Rightarrow> Message option"
  ev_isExecutable :: "string \<Rightarrow> bool"
  ev_proxyEnabled :: bool

text \<open>
  What the outside answers while one event is handled: the orders in which maps are ranged over,
  the stored code, the random scalar and ids, the clock, the shell's start, the file system.
\<close>

record answers =
  an_ids :: "string list"
  an_tasks :: "u32 list"
  an_conns :: "u32 list"
  an_names :: "string list"
  an_controllers :: "string list"
  an_newIDs :: "string list"
  an_code :: string
  an_scalar :: int
  an_now :: int
  an_nowMilli :: int
  an_start :: "string \<Rightarrow> int \<Rightarrow> int \<Rightarrow> bool \<Rightarrow> string + int"
  an_stat :: "string \<Rightarrow> string + int"
  an_stage :: stage_env
  an_home :: "string + string"
  an_readDir :: "string \<Rightarrow> string + dir_info list"
  an_writeFails :: bool
  an_systemInfo :: string
  an_shells :: "ShellInfo list"

definition NewDaemon :: "string \<Rightarrow> bool \<Rightarrow> 't daemon" where
  "NewDaemon accessKey codeSet = \<lparr>dm_accessKey = accessKey, dm_sec = secure_state0 codeSet, dm_mode = [],
     dm_rtc = None, dm_relay = None, dm_pendingICE = [], dm_pendingICEMode = False, dm_kicked = False,
     dm_sub = {}, dm_muted = {}, dm_sending = [], dm_batcher = batcher0, dm_lastInputAt = 0, dm_pty = NewPTYManager,
     dm_files = file_mgr0, dm_proxy = proxy_mgr0, dm_stopped = False, dm_out = []\<rparr>"

definition happen :: "effect \<Rightarrow> 't daemon \<Rightarrow> 't daemon" where
  "happen e d = d\<lparr>dm_out := dm_out d @ [e]\<rparr>"

definition set_sec :: "secure_state \<Rightarrow> 't daemon \<Rightarrow> 't daemon" where
  "set_sec s d = d\<lparr>dm_sec := s\<rparr>"

section \<open>Channels and senders\<close>

definition channelIsP2P :: "'t daemon \<Rightarrow> bool" where
  "channelIsP2P d \<longleftrightarrow> dm_mode d = ''p2p''"

definition is_connected :: "(nat \<times> bool) option \<Rightarrow> bool" where
  "is_connected c = (case c of None \<Rightarrow> False | Some (_, up) \<Rightarrow> up)"

definition relayConnected :: "'t daemon \<Rightarrow> bool" where
  "relayConnected d = is_connected (dm_relay d)"

definition hasActiveChannel :: "'t daemon \<Rightarrow> bool" where
  "hasActiveChannel d \<longleftrightarrow> is_connected (dm_rtc d) \<or> is_connected (dm_relay d)"

definition proxyPayloadLimitForChannel :: "'t daemon \<Rightarrow> nat" where
  "proxyPayloadLimitForChannel d =
    (if channelIsP2P d then ProxyP2PChunk else ProxyRelayChunk) - proxyFrameHeaderSize - SecureBinaryOverhead"

text \<open>The switch on the channel mode at the end of every sender.\<close>

definition route_json :: "Message \<Rightarrow> 't daemon \<Rightarrow> 't daemon" where
  "route_json m d =
    (if dm_mode d = ''p2p'' then (if is_connected (dm_rtc d) then happen (SentP2P m) d else d)
     else if is_connected (dm_relay d) then happen (SentRelay m) d else d)"

definition route_frame :: "byte list \<Rightarrow> 't daemon \<Rightarrow> bool \<times> 't daemon" where
  "route_frame f d =
    (if dm_mode d = ''p2p''
     then (if is_connected (dm_rtc d) then (True, happen (FrameP2P f) d) else (False, d))
     else if is_connected (dm_relay d) then (True, happen (FrameRelay f) d) else (False, d))"

definition sendJSONDirect :: "'t daemon_env \<Rightarrow> Message \<Rightarrow> 't daemon \<Rightarrow> 't daemon" where
  "sendJSONDirect E msg d =
    (case wrapOutgoingJSON (ev_aead E) msg (dm_sec d) of
       (None, s) \<Rightarrow> set_sec s d
     | (Some w, s) \<Rightarrow> route_json w (set_sec s d))"

text \<open>The batcher's \<^verbatim>\<open>send\<close> hook is \<^verbatim>\<open>sendJSONDirect\<close>: what it puts on its wire goes out at once.\<close>

definition drain :: "'t daemon_env \<Rightarrow> 't daemon \<Rightarrow> 't daemon" where
  "drain E d = fold (sendJSONDirect E) (wire (dm_batcher d))
     (d\<lparr>dm_batcher := (dm_batcher d)\<lparr>wire := []\<rparr>\<rparr>)"

definition on_batcher :: "'t daemon_env \<Rightarrow> (batcher \<Rightarrow> batcher) \<Rightarrow> 't daemon \<Rightarrow> 't daemon" where
  "on_batcher E f d = drain E (d\<lparr>dm_batcher := f (dm_batcher d)\<rparr>)"

definition flushAll :: "'t daemon_env \<Rightarrow> answers \<Rightarrow> 't daemon \<Rightarrow> 't daemon" where
  "flushAll E a d = on_batcher E (FlushAll (an_ids a)) d"

definition sendJSON :: "'t daemon_env \<Rightarrow> answers \<Rightarrow> Message \<Rightarrow> 't daemon \<Rightarrow> 't daemon" where
  "sendJSON E a msg d = sendJSONDirect E msg (flushAll E a d)"

definition sendJSONWithBackpressure :: "'t daemon_env \<Rightarrow> Message \<Rightarrow> 't daemon \<Rightarrow> 't daemon" where
  "sendJSONWithBackpressure E msg d =
    (case wrapOutgoingJSON (ev_aead E) msg (dm_sec d) of
       (None, s) \<Rightarrow> set_sec s d
     | (Some w, s) \<Rightarrow> route_json w (set_sec s d))"

definition sendBytes :: "'t daemon_env \<Rightarrow> byte list \<Rightarrow> 't daemon \<Rightarrow> 't daemon" where
  "sendBytes E data d =
    (case wrapOutgoingBinary (ev_aead E) data (dm_sec d) of (w, s) \<Rightarrow>
       if w = [] then set_sec s d else snd (route_frame w (set_sec s d)))"

definition sendBytesWithBackpressure :: "'t daemon_env \<Rightarrow> byte list \<Rightarrow> 't daemon \<Rightarrow> 't daemon" where
  "sendBytesWithBackpressure E data d =
    (case wrapOutgoingBinary (ev_aead E) data (dm_sec d) of (w, s) \<Rightarrow>
       snd (route_frame w (set_sec s d)))"

text \<open>The answer is whether the frame was handed over; the transport's own refusal is outside.\<close>

definition sendBytesCancelable :: "'t daemon_env \<Rightarrow> byte list \<Rightarrow> 't daemon \<Rightarrow> bool \<times> 't daemon" where
  "sendBytesCancelable E data d =
    (case wrapOutgoingBinary (ev_aead E) data (dm_sec d) of (w, s) \<Rightarrow>
       if w = [] then (False, set_sec s d) else route_frame w (set_sec s d))"

definition wsSendRaw :: "raw_out \<Rightarrow> 't daemon \<Rightarrow> 't daemon" where
  "wsSendRaw r d = (if is_connected (dm_relay d) then happen (RawRelay r) d else d)"

text \<open>\<^verbatim>\<open>PushSecStatusUpdate\<close> does not ask whether the relay is connected.\<close>

definition PushSecStatusUpdate :: "'t daemon \<Rightarrow> 't daemon" where
  "PushSecStatusUpdate d =
    (case dm_relay d of
       None \<Rightarrow> d
     | Some _ \<Rightarrow> happen (RawRelay (RawSecStatus (secCodeEnabled (dm_sec d)))) d)"

section \<open>Teardown helpers\<close>

text \<open>\<^verbatim>\<open>fileTransfer.CancelAll\<close>, \<^verbatim>\<open>proxyManager.CloseAll\<close> and \<^verbatim>\<open>CloseRTC\<close> on the daemon.\<close>

definition cancel_transfers :: "answers \<Rightarrow> 't daemon \<Rightarrow> 't daemon option" where
  "cancel_transfers a d = map_option (\<lambda>f. d\<lparr>dm_files := f\<rparr>) (CancelAll (an_tasks a) (dm_files d))"

definition close_tunnels :: "answers \<Rightarrow> 't daemon \<Rightarrow> 't daemon" where
  "close_tunnels a d = d\<lparr>dm_proxy := CloseAllConns (an_conns a) (an_names a) (dm_proxy d)\<rparr>"

definition CloseRTC :: "'t daemon \<Rightarrow> 't daemon" where
  "CloseRTC d = d\<lparr>dm_rtc := None\<rparr>"

text \<open>\<^verbatim>\<open>resetSecure\<close>, its reset of the batcher included.\<close>

definition reset_secure :: "'t daemon \<Rightarrow> 't daemon" where
  "reset_secure d = d\<lparr>dm_batcher := batcher_Reset (dm_batcher d), dm_sec := resetSecure (dm_sec d)\<rparr>"

definition handlePeerOffline :: "answers \<Rightarrow> 't daemon \<Rightarrow> 't daemon option" where
  "handlePeerOffline a d =
    (if dm_mode d = ''p2p'' then Some d
     else map_option (\<lambda>d. (close_tunnels a d)\<lparr>dm_sub := {}, dm_mode := []\<rparr>)
            (cancel_transfers a (reset_secure d)))"

section \<open>Sessions\<close>

definition send_each :: "'t daemon_env \<Rightarrow> answers \<Rightarrow> Message list \<Rightarrow> 't daemon \<Rightarrow> 't daemon" where
  "send_each E a ms d = fold (sendJSON E a) ms d"

definition on_pty :: "pty_action list \<times> 't pty_mgr \<Rightarrow> 't daemon \<Rightarrow> 't daemon" where
  "on_pty r d = fold happen (map ToPty (fst r)) (d\<lparr>dm_pty := snd r\<rparr>)"

definition handleCreateSession ::
  "'t daemon_env \<Rightarrow> answers \<Rightarrow> Message \<Rightarrow> 't daemon \<Rightarrow> 't daemon" where
  "handleCreateSession E a msg d =
    (let d1 = d\<lparr>dm_sub := insert (SessionID msg) (dm_sub d)\<rparr>;
         loginShell = (case LoginShell msg of None \<Rightarrow> True | Some b \<Rightarrow> b);
         cfg = ev_cfg E in
     case pm_Create (ev_emu E) cfg (ev_isExecutable E) (an_start a) (an_now a) (SessionID msg) (Shell msg)
         (cf_DefaultCols cfg) (cf_DefaultRows cfg) loginShell (Name msg) (dm_pty d1) of
       (Inl err, p) \<Rightarrow>
         sendJSON E a (Message0\<lparr>Type := TypeError, SessionID := SessionID msg, Error := err\<rparr>)
           (d1\<lparr>dm_pty := p, dm_sub := dm_sub d1 - {SessionID msg}\<rparr>)
     | (Inr h, p) \<Rightarrow>
         (case pm_heap p h of
            None \<Rightarrow> d1\<lparr>dm_pty := p\<rparr>
          | Some s \<Rightarrow>
              sendJSON E a (Message0\<lparr>Type := TypeSessionCreated, SessionID := se_ID s, PID := se_PID s,
                Name := se_Name s\<rparr>) (d1\<lparr>dm_pty := p\<rparr>)))"

definition handleSessionList :: "'t daemon_env \<Rightarrow> answers \<Rightarrow> 't daemon \<Rightarrow> 't daemon" where
  "handleSessionList E a d =
    sendJSON E a (Message0\<lparr>Type := TypeSessionInfo, SessionInfos := ListSessions (dm_pty d),
      SystemInfo := an_systemInfo a, Shells := an_shells a,
      SecCodeRequired := secCodeEnabled (dm_sec d)\<rparr>) d"

text \<open>Messages of \<^verbatim>\<open>sendHistoryChunks\<close>: the chunks go out with backpressure, without a flush.\<close>

definition send_history :: "'t daemon_env \<Rightarrow> answers \<Rightarrow> Message \<Rightarrow> 't daemon \<Rightarrow> 't daemon" where
  "send_history E a m d =
    (if Type m = TypeHistoryChunk then sendJSONWithBackpressure E m d else sendJSON E a m d)"

definition unmutePush :: "string \<Rightarrow> 't daemon \<Rightarrow> 't daemon" where
  "unmutePush sid d = d\<lparr>dm_muted := dm_muted d - {sid}\<rparr>"

definition handleHistory ::
  "'t daemon_env \<Rightarrow> answers \<Rightarrow> Message \<Rightarrow> 't daemon \<Rightarrow> 't daemon" where
  "handleHistory E a msg d =
    (let d1 = unmutePush (SessionID msg) d;
         (data, q) = (if 0 < Cols msg \<and> 0 < Rows msg
            then GetHistoryAt (ev_emu E) (SessionID msg) (Cols msg) (Rows msg) (dm_pty d1)
            else GetHistory (ev_emu E) (SessionID msg) (dm_pty d1));
         d2 = on_batcher E (SealAt q (an_ids a)) d1;
         d3 = fold (send_history E a) (history_messages (SessionID msg) data q) d2 in
     d3\<lparr>dm_sub := insert (SessionID msg) (dm_sub d3)\<rparr>)"

definition handlePushPause ::
  "'t daemon_env \<Rightarrow> answers \<Rightarrow> Message \<Rightarrow> 't daemon \<Rightarrow> 't daemon" where
  "handlePushPause E a msg d =
    (let d1 = flushAll E a d in
     if SessionID msg = [] then d1\<lparr>dm_muted := dm_muted d1 \<union> dm_sub d1\<rparr>
     else d1\<lparr>dm_muted := insert (SessionID msg) (dm_muted d1)\<rparr>)"

definition handleDestroySession :: "Message \<Rightarrow> 't daemon \<Rightarrow> 't daemon" where
  "handleDestroySession msg d =
    (let d1 = on_pty (pm_Destroy (SessionID msg) (dm_pty d)) d in
     d1\<lparr>dm_sub := dm_sub d1 - {SessionID msg}\<rparr>)"

definition markInput :: "answers \<Rightarrow> 't daemon \<Rightarrow> 't daemon" where
  "markInput a d = d\<lparr>dm_lastInputAt := an_nowMilli a\<rparr>"

definition outputInteractiveWindowMilli :: int where
  "outputInteractiveWindowMilli = 1000"

definition interactiveOutput :: "int \<Rightarrow> 't daemon \<Rightarrow> bool" where
  "interactiveOutput nowMilli d \<longleftrightarrow>
     dm_lastInputAt d \<noteq> 0 \<and> nowMilli - dm_lastInputAt d < outputInteractiveWindowMilli"

section \<open>Output\<close>

text \<open>
  \<^verbatim>\<open>sendOutput\<close>: local controllers first, then the app, directly on P2P and through the batcher on
  the relay. Between the tests of the subscription, the mute and the gate and the delivery nothing is
  locked: \<open>output_begin\<close> runs up to the last test that passes, \<open>output_end\<close> is the delivery of the
  \<open>n\<close>-th write held.
\<close>

definition output_broadcast ::
  "answers \<Rightarrow> string \<Rightarrow> byte list \<Rightarrow> 't daemon \<Rightarrow> 't daemon" where
  "output_broadcast a sid data d =
    (let broadcast = (case Option.bind (pm_Get sid (dm_pty d)) (pm_heap (dm_pty d)) of
           None \<Rightarrow> [] | Some s \<Rightarrow> Broadcast (an_controllers a) data s) in
     fold happen (map ToPty broadcast) d)"

definition output_admitted :: "string \<Rightarrow> 't daemon \<Rightarrow> bool" where
  "output_admitted sid d =
    (if sid \<notin> dm_sub d \<or> sid \<in> dm_muted d then False else secCodeVerified (dm_sec d))"

definition output_deliver ::
  "'t daemon_env \<Rightarrow> answers \<Rightarrow> string \<Rightarrow> byte list \<Rightarrow> u64 \<Rightarrow> 't daemon \<Rightarrow> 't daemon" where
  "output_deliver E a sid data q d =
    (if channelIsP2P d
     then sendJSONDirect E (Message0\<lparr>Type := TypeOutput, SessionID := sid,
            Data := string_of_bytes data, Seq := q, Outputs := 1\<rparr>) d
     else if \<not> relayConnected d then d
     else on_batcher E (batcher_Add sid data q (an_nowMilli a * 1000000)) d)"

definition sendOutput ::
  "'t daemon_env \<Rightarrow> answers \<Rightarrow> string \<Rightarrow> byte list \<Rightarrow> u64 \<Rightarrow> 't daemon \<Rightarrow> 't daemon" where
  "sendOutput E a sid data q d =
    (let d1 = output_broadcast a sid data d in
     if output_admitted sid d1 then output_deliver E a sid data q d1 else d1)"

definition output_begin ::
  "answers \<Rightarrow> string \<Rightarrow> byte list \<Rightarrow> u64 \<Rightarrow> 't daemon \<Rightarrow> 't daemon" where
  "output_begin a sid data q d =
    (let d1 = output_broadcast a sid data d in
     if output_admitted sid d1 then d1\<lparr>dm_sending := dm_sending d1 @ [(sid, data, q)]\<rparr> else d1)"

definition output_end :: "'t daemon_env \<Rightarrow> answers \<Rightarrow> nat \<Rightarrow> 't daemon \<Rightarrow> 't daemon" where
  "output_end E a n d =
    (if n < length (dm_sending d)
     then (case dm_sending d ! n of (sid, data, q) \<Rightarrow>
             output_deliver E a sid data q
               (d\<lparr>dm_sending := take n (dm_sending d) @ drop (Suc n) (dm_sending d)\<rparr>))
     else d)"

text \<open>Undisturbed, the two parts are the whole.\<close>

lemma sendOutput_parts:
  assumes "output_admitted sid (output_broadcast a sid data d)" and "dm_sending d = []"
  shows "output_end E a 0 (output_begin a sid data q d) = sendOutput E a sid data q d"
proof -
  have "dm_sending (fold happen es d) = dm_sending d" for es
    by (induction es arbitrary: d) (simp_all add: happen_def)
  then have none: "dm_sending (output_broadcast a sid data d) = []"
    using assms(2) by (simp add: output_broadcast_def Let_def)
  have same: "d\<lparr>dm_sending := []\<rparr> = d" if "dm_sending d = []" for d :: "'a daemon"
    using that by (cases d) simp
  show ?thesis
    using assms(1) none by (simp add: output_end_def output_begin_def sendOutput_def Let_def same)
qed

definition replenishPool :: "'t daemon_env \<Rightarrow> answers \<Rightarrow> 't daemon \<Rightarrow> 't daemon" where
  "replenishPool E a d =
    (let current = length (ListSessions (dm_pty d)); deficit = cf_PoolSize (ev_cfg E) - current in
     d\<lparr>dm_pty := snd (CreatePool (ev_emu E) (ev_cfg E) (ev_isExecutable E) (an_start a) (an_now a)
         (take deficit (an_newIDs a)) (cf_DefaultShell (ev_cfg E)) (dm_pty d))\<rparr>)"

text \<open>The \<^verbatim>\<open>OnExit\<close> callback.\<close>

definition session_exited ::
  "'t daemon_env \<Rightarrow> answers \<Rightarrow> string \<Rightarrow> int \<Rightarrow> 't daemon \<Rightarrow> 't daemon" where
  "session_exited E a sid exitCode d =
    replenishPool E a
      (sendJSON E a (Message0\<lparr>Type := TypeSessionExited, SessionID := sid, ExitCode := exitCode\<rparr>)
        (d\<lparr>dm_sub := dm_sub d - {sid}, dm_muted := dm_muted d - {sid}\<rparr>))"

section \<open>The app's requests\<close>

text \<open>\<^verbatim>\<open>if !d.checkSecCode() { return }\<close> before a handler.\<close>

definition gated ::
  "'t daemon_env \<Rightarrow> answers \<Rightarrow> ('t daemon \<Rightarrow> 't daemon option) \<Rightarrow> 't daemon \<Rightarrow> 't daemon option" where
  "gated E a handler d =
    (if secCodeVerified (dm_sec d) then handler d
     else Some (sendJSON E a (Message0\<lparr>Type := TypeError, Error := ''Security code required''\<rparr>) d))"

definition handleChannelSelect ::
  "'t daemon_env \<Rightarrow> answers \<Rightarrow> Message \<Rightarrow> 't daemon \<Rightarrow> 't daemon" where
  "handleChannelSelect E a msg d =
    (let channel = Data msg in
     if channel \<noteq> ''p2p'' \<and> channel \<noteq> ''ts'' then d
     else
       let d1 = flushAll E a d;
           d2 = (if channel = ''p2p''
                 then reset_secure (set_sec ((dm_sec d1)\<lparr>secCodeVerified := False\<rparr>) d1) else d1);
           d3 = sendJSON E a (Message0\<lparr>Type := TypeChannelSelected, Data := channel\<rparr>)
                  (d2\<lparr>dm_mode := channel\<rparr>) in
       if channel = ''p2p'' \<and> dm_relay d3 \<noteq> None then happen DrainRelay d3 else d3)"

definition handleFileSendCancel :: "Message \<Rightarrow> 't daemon \<Rightarrow> 't daemon option" where
  "handleFileSendCancel msg d =
    (if FileID msg = 0 then Some d
     else map_option (\<lambda>f. d\<lparr>dm_files := f\<rparr>) (Cancel (FileID msg) (dm_files d)))"

definition handleFileRequest ::
  "'t daemon_env \<Rightarrow> answers \<Rightarrow> Message \<Rightarrow> 't daemon \<Rightarrow> 't daemon" where
  "handleFileRequest E a msg d =
    (case HandleRequest (cf_ChunkSize (ev_cfg E)) (channelIsP2P d, secureActive (dm_sec d)) (an_stat a)
        (FileID msg) (dm_files d) of
       (Inl err, f) \<Rightarrow> sendJSON E a (Message0\<lparr>Type := TypeError, Error := err\<rparr>) (d\<lparr>dm_files := f\<rparr>)
     | (Inr (ms, i, chunkSize), f) \<Rightarrow>
         happen (StartFile i chunkSize) (send_each E a ms (d\<lparr>dm_files := f\<rparr>)))"

definition handleFileDelete :: "Message \<Rightarrow> 't daemon \<Rightarrow> 't daemon option" where
  "handleFileDelete msg d =
    map_option (\<lambda>f. d\<lparr>dm_files := f\<rparr>) (HandleDelete (FileID msg) (dm_files d))"

text \<open>
  The messages of a directory request: the chunks of \<^verbatim>\<open>sendDirList\<close> go out with backpressure, errors
  through \<^verbatim>\<open>sendJSON\<close>. A slice out of range (\<open>None\<close>) is a panic after the messages before it, which
  the \<^verbatim>\<open>recover\<close> of \<^verbatim>\<open>HandleDirListRequest\<close> turns into an error to the app.
\<close>

definition dir_panic :: "string \<Rightarrow> Message" where
  "dir_panic reqPath = Message0\<lparr>Type := TypeDirList, Path := reqPath,
     Error := ''dirlist panic: runtime error: slice bounds out of range''\<rparr>"

fun send_dir ::
  "'t daemon_env \<Rightarrow> answers \<Rightarrow> string \<Rightarrow> Message option list \<Rightarrow> 't daemon \<Rightarrow> 't daemon" where
  "send_dir E a reqPath [] d = d"
| "send_dir E a reqPath (None # ms) d = sendJSON E a (dir_panic reqPath) d"
| "send_dir E a reqPath (Some m # ms) d = send_dir E a reqPath ms
     (if Entries m = None then sendJSON E a m d else sendJSONWithBackpressure E m d)"

definition stage_file :: "'t daemon_env \<Rightarrow> answers \<Rightarrow> 't daemon \<Rightarrow> string option \<times> 't daemon" where
  "stage_file E a d =
    (case StageFile (an_stage a) (dm_files d) of
       (Inl err, f) \<Rightarrow> (Some err, d\<lparr>dm_files := f\<rparr>)
     | (Inr ms, f) \<Rightarrow> (None, send_each E a ms (d\<lparr>dm_files := f\<rparr>)))"

definition handleReqPending :: "'t daemon_env \<Rightarrow> answers \<Rightarrow> 't daemon \<Rightarrow> 't daemon" where
  "handleReqPending E a d =
    (case stage_file E a d of
       (Some err, d1) \<Rightarrow> sendJSON E a (Message0\<lparr>Type := TypeError, Error := err\<rparr>) d1
     | (None, d1) \<Rightarrow> d1)"

text \<open>What the proxy manager asks for: its messages and frames go out through the senders.\<close>

fun proxy_act :: "'t daemon_env \<Rightarrow> answers \<Rightarrow> proxy_action \<Rightarrow> 't daemon \<Rightarrow> 't daemon" where
  "proxy_act E a (PJson m) d = sendJSON E a m d"
| "proxy_act E a (PFrame f) d = sendBytes E f d"
| "proxy_act E a x d = happen (ToProxy x) d"

definition on_proxy ::
  "'t daemon_env \<Rightarrow> answers \<Rightarrow> proxy_action list \<times> proxy_mgr \<Rightarrow> 't daemon \<Rightarrow> 't daemon" where
  "on_proxy E a r d = fold (proxy_act E a) (fst r) (d\<lparr>dm_proxy := snd r\<rparr>)"

definition handleKicked :: "answers \<Rightarrow> Message \<Rightarrow> 't daemon \<Rightarrow> 't daemon option" where
  "handleKicked a msg d =
    (if Reason msg = ''daemon_replaced''
     then Some (happen (ExitProcess ''kicked'') d)
     else
       map_option (\<lambda>d. CloseRTC ((close_tunnels a d)\<lparr>dm_batcher := batcher_Reset (dm_batcher d)\<rparr>)
            \<lparr>dm_pendingICE := [], dm_pendingICEMode := False, dm_mode := [], dm_sub := {}, dm_muted := {}\<rparr>)
         (cancel_transfers a (d\<lparr>dm_kicked := True\<rparr>)))"

definition on_sec ::
  "'t daemon_env \<Rightarrow> answers \<Rightarrow> Message list \<times> secure_state \<Rightarrow> 't daemon \<Rightarrow> 't daemon" where
  "on_sec E a r d = send_each E a (fst r) (set_sec (snd r) d)"

section \<open>Dispatch\<close>

definition dispatch ::
  "'t daemon_env \<Rightarrow> answers \<Rightarrow> Message \<Rightarrow> 't daemon \<Rightarrow> 't daemon option" where
  "dispatch E a msg d =
    (let t = Type msg in
     if t = TypePakeStart then
       Some (on_sec E a (handlePakeStart (ev_pake E) (an_code a) (dm_accessKey d) (an_scalar a) msg (dm_sec d)) d)
     else if t = TypeSecConfirm then Some (on_sec E a (handleSecConfirm (ev_pake E) msg (dm_sec d)) d)
     else if t = TypeKicked then handleKicked a msg d
     else if t = TypePeerOffline then handlePeerOffline a d
     else if t = TypeCreateSession then
       gated E a (\<lambda>d. Some (handleCreateSession E a msg (d\<lparr>dm_kicked := False\<rparr>))) d
     else if t = TypeDestroySession then gated E a (\<lambda>d. Some (handleDestroySession msg d)) d
     else if t = TypeInput then
       gated E a (\<lambda>d. let d1 = markInput a d in
         Some (fold happen (map ToPty (pm_Write (SessionID msg) (bytes_of_string (Data msg)) (dm_pty d1))) d1)) d
     else if t = TypeResize then
       gated E a (\<lambda>d. Some (if 0 < Cols msg \<and> 0 < Rows msg
         then on_pty (pm_Resize (ev_emu E) (ev_cfg E) (SessionID msg) (Cols msg) (Rows msg) (dm_pty d)) d
         else d)) d
     else if t = TypeSessionList then
       gated E a (\<lambda>d. Some (handleSessionList E a (d\<lparr>dm_kicked := False\<rparr>))) d
     else if t = TypeRequestHistory then gated E a (\<lambda>d. Some (handleHistory E a msg d)) d
     else if t = TypePushPause then gated E a (\<lambda>d. Some (handlePushPause E a msg d)) d
     else if t = TypePing then Some (sendJSON E a (Message0\<lparr>Type := TypePong\<rparr>) d)
     else if t = TypeChannelSelect then Some (handleChannelSelect E a msg d)
     else if t = TypeFileSendCancel then gated E a (handleFileSendCancel msg) d
     else if t = TypeFileRequest then gated E a (\<lambda>d. Some (handleFileRequest E a msg d)) d
     else if t = TypeFileAck then
       Some (d\<lparr>dm_files := HandleAck (FileID msg) (Received msg) (dm_files d)\<rparr>)
     else if t = TypeFileListRequest then
       gated E a (\<lambda>d. Some (sendJSON E a (file_list_message (dm_files d)) d)) d
     else if t = TypeFileDelete then gated E a (handleFileDelete msg) d
     else if t = TypeDirListRequest then
       gated E a (\<lambda>d. Some (send_dir E a (Data msg)
         (HandleDirListRequest (an_home a) (an_readDir a) (Data msg)) d)) d
     else if t = TypeReqPending then gated E a (\<lambda>d. Some (handleReqPending E a d)) d
     else if t = TypeProxyConnect then
       gated E a (\<lambda>d. Some (on_proxy E a (HandleConnect msg, dm_proxy d) d)) d
     else if t = TypeProxyClose then
       gated E a (\<lambda>d. Some (d\<lparr>dm_proxy := HandleClose msg (dm_proxy d)\<rparr>)) d
     else if t = TypeProxyHttpFetch then gated E a (\<lambda>d. Some (happen (FetchHttp msg) d)) d
     else if t = TypeProxyWsConnect then
       gated E a (\<lambda>d. map_option (\<lambda>xs. on_proxy E a (xs, dm_proxy d) d) (HandleWsConnect msg)) d
     else if t = TypeProxyWsMessage then
       Some (on_proxy E a (HandleWsMessage msg (an_writeFails a) (dm_proxy d)) d)
     else if t = TypeProxyWsClose then Some (d\<lparr>dm_proxy := HandleWsClose msg (dm_proxy d)\<rparr>)
     else Some d)"

definition handleMessage ::
  "'t daemon_env \<Rightarrow> answers \<Rightarrow> Message \<Rightarrow> 't daemon \<Rightarrow> 't daemon option" where
  "handleMessage E a msg d =
    (case unwrapIncomingJSON (ev_aead E) (ev_unmarshal E) msg (dm_sec d) of
       (None, s) \<Rightarrow> Some (set_sec s d)
     | (Some inner, s) \<Rightarrow> dispatch E a inner (set_sec s d))"

definition handleBinary :: "'t daemon_env \<Rightarrow> answers \<Rightarrow> byte list \<Rightarrow> 't daemon \<Rightarrow> 't daemon" where
  "handleBinary E a data d =
    (case unwrapIncomingBinary (ev_aead E) data (dm_sec d) of
       (None, s) \<Rightarrow> set_sec s d
     | (Some frame, s) \<Rightarrow>
         let d1 = set_sec s d in
         if frame = [] then d1
         else if hd frame = OpcodeProxyData then
           (if length frame < 5 then d1
            else on_proxy E a (HandleData (get_u32 (take 4 (drop 1 frame))) (drop 5 frame)
                   (an_writeFails a) (dm_proxy d1)) d1)
         else d1)"

section \<open>Signalling and the life of the channels\<close>

text \<open>\<^verbatim>\<open>handleP2PICE\<close>.\<close>

definition handleP2PICE :: "raw_signal \<Rightarrow> 't daemon \<Rightarrow> 't daemon" where
  "handleP2PICE raw d =
    (if dm_pendingICEMode d then d\<lparr>dm_pendingICE := dm_pendingICE d @ [raw]\<rparr>
     else (case dm_rtc d of
         None \<Rightarrow> d\<lparr>dm_pendingICE := dm_pendingICE d @ [raw]\<rparr>
       | Some (r, _) \<Rightarrow> happen (AddICE r raw) d))"

definition handleP2PSignal ::
  "'t daemon_env \<Rightarrow> answers \<Rightarrow> raw_signal \<Rightarrow> 't daemon \<Rightarrow> 't daemon option" where
  "handleP2PSignal E a raw d =
    (let t = rs_type raw in
     if cf_ForceTS (ev_cfg E) then Some d
     else if ev_proxyEnabled E \<and> (t = ''p2p_offer'' \<or> t = ''p2p_ice'') then Some d
     else if t = ''p2p_offer'' then
       (if rs_sdp raw = [] then Some d
        else Some (happen (StartAnswerer (rs_sdp raw) (dm_pendingICE d))
               (d\<lparr>dm_pendingICE := [], dm_pendingICEMode := True\<rparr>)))
     else if t = ''peer_online'' then
       Some (reset_secure (set_sec ((dm_sec d)\<lparr>secCodeVerified := False\<rparr>) d))
     else if t = ''peer_offline'' then handlePeerOffline a d
     else if t = ''p2p_ice'' then Some (handleP2PICE raw d)
     else Some d)"

text \<open>
  \<^verbatim>\<open>startP2PAsAnswerer\<close>, cut where it waits: its start; the answer, for the connection numbered
  \<open>r\<close> (\<open>None\<close> when \<^verbatim>\<open>Answer\<close> failed); the failure to connect in ten seconds; the disconnect.
\<close>

definition answerer_begin :: "'t daemon \<Rightarrow> 't daemon" where
  "answerer_begin d = CloseRTC (d\<lparr>dm_kicked := False\<rparr>)"

definition answerer_answered ::
  "nat \<Rightarrow> raw_signal list \<Rightarrow> string option \<Rightarrow> 't daemon \<Rightarrow> 't daemon" where
  "answerer_answered r earlyICE answer d =
    (case answer of
       None \<Rightarrow> d
     | Some sdp \<Rightarrow>
         let d1 = wsSendRaw (RawAnswer sdp) d;
             buffered = dm_pendingICE d1;
             d2 = d1\<lparr>dm_rtc := Some (r, False), dm_pendingICE := [], dm_pendingICEMode := False\<rparr> in
         fold happen (map (AddICE r) (filter (\<lambda>x. rs_candidate x \<noteq> []) (earlyICE @ buffered))) d2)"

definition rtc_up :: "nat \<Rightarrow> 't daemon \<Rightarrow> 't daemon" where
  "rtc_up r d = (if map_option fst (dm_rtc d) = Some r then d\<lparr>dm_rtc := Some (r, True)\<rparr> else d)"

definition answerer_failed :: "nat \<Rightarrow> 't daemon \<Rightarrow> 't daemon" where
  "answerer_failed r d = (if map_option fst (dm_rtc d) = Some r then d\<lparr>dm_rtc := None\<rparr> else d)"

definition answerer_disconnected :: "answers \<Rightarrow> nat \<Rightarrow> 't daemon \<Rightarrow> 't daemon option" where
  "answerer_disconnected a r d =
    (if map_option fst (dm_rtc d) \<noteq> Some r then Some d
     else
       let d1 = d\<lparr>dm_rtc := None\<rparr>;
           d2 = (if dm_mode d1 = ''p2p''
                 then wsSendRaw (RawChannelFailed ''p2p'') (d1\<lparr>dm_mode := []\<rparr>) else d1) in
       map_option (\<lambda>d. let d3 = close_tunnels a d in
           if relayConnected d3 then d3 else d3\<lparr>dm_sub := {}\<rparr>)
         (cancel_transfers a d2))"

text \<open>
  \<^verbatim>\<open>tsRelayLoop\<close>: a new relay connection numbered \<open>r\<close>, its loss (the socket is down before the
  loop sees it), and what the loop does when it sees the loss.
\<close>

definition relay_up :: "nat \<Rightarrow> 't daemon \<Rightarrow> 't daemon" where
  "relay_up r d = d\<lparr>dm_relay := Some (r, True)\<rparr>"

definition relay_down :: "'t daemon \<Rightarrow> 't daemon" where
  "relay_down d = d\<lparr>dm_relay := map_option (\<lambda>(r, _). (r, False)) (dm_relay d)\<rparr>"

definition relay_lost :: "answers \<Rightarrow> nat \<Rightarrow> 't daemon \<Rightarrow> 't daemon option" where
  "relay_lost a r d =
    map_option (\<lambda>d. let d1 = close_tunnels a d;
           d2 = (if is_connected (dm_rtc d1) then d1 else d1\<lparr>dm_sub := {}\<rparr>) in
         if map_option fst (dm_relay d2) = Some r then d2\<lparr>dm_relay := None\<rparr> else d2)
      (cancel_transfers a d)"

definition Stop :: "'t daemon_env \<Rightarrow> answers \<Rightarrow> 't daemon \<Rightarrow> 't daemon option" where
  "Stop E a d =
    (if dm_stopped d then Some d
     else map_option (close_tunnels a)
       (cancel_transfers a (CloseRTC (relay_down ((flushAll E a d)\<lparr>dm_stopped := True\<rparr>)))))"

definition Destroy :: "answers \<Rightarrow> 't daemon \<Rightarrow> 't daemon option" where
  "Destroy a d =
    map_option (\<lambda>d. let d1 = close_tunnels a d;
           d2 = relay_down (d1\<lparr>dm_rtc := map_option (\<lambda>(r, _). (r, False)) (dm_rtc d1)\<rparr>) in
         on_pty (DestroyAll (an_names a) (dm_pty d2)) d2)
      (cancel_transfers a d)"

section \<open>Local users\<close>

text \<open>
  The code is set or cleared from the command line (\<^verbatim>\<open>TypeSetSecCode\<close>, \<^verbatim>\<open>TypeUnsetSecCode\<close> of
  \<^verbatim>\<open>local_server.go\<close>), once its file has been written or removed.
\<close>

definition LocalSetCode :: "'t daemon \<Rightarrow> 't daemon" where
  "LocalSetCode d = PushSecStatusUpdate (set_sec (sec_code_set (dm_sec d)) d)"

definition LocalUnsetCode :: "'t daemon \<Rightarrow> 't daemon" where
  "LocalUnsetCode d = PushSecStatusUpdate (set_sec (sec_code_unset (dm_sec d)) d)"

definition AttachLocalSession :: "string \<Rightarrow> string \<Rightarrow> nat \<Rightarrow> 't daemon \<Rightarrow> string option \<times> 't daemon" where
  "AttachLocalSession sid clientID c d =
    (case pm_Get sid (dm_pty d) of
       None \<Rightarrow> (Some (''session not found: '' @ sid), d)
     | Some h \<Rightarrow> (None, d\<lparr>dm_pty := update_session h (AddController clientID c) (dm_pty d)\<rparr>))"

definition DetachLocalSession :: "string \<Rightarrow> string \<Rightarrow> 't daemon \<Rightarrow> 't daemon" where
  "DetachLocalSession sid clientID d =
    (case pm_Get sid (dm_pty d) of
       None \<Rightarrow> d
     | Some h \<Rightarrow> d\<lparr>dm_pty := update_session h (RemoveController clientID) (dm_pty d)\<rparr>)"

definition CreateSession ::
  "'t daemon_env \<Rightarrow> answers \<Rightarrow> string \<Rightarrow> string \<Rightarrow> string \<Rightarrow> 't daemon \<Rightarrow> (string + nat) \<times> 't daemon" where
  "CreateSession E a sid shell name d =
    (let sh = (if shell = [] then cf_DefaultShell (ev_cfg E) else shell) in
     case pm_Create (ev_emu E) (ev_cfg E) (ev_isExecutable E) (an_start a) (an_now a) sid sh
         (cf_DefaultCols (ev_cfg E)) (cf_DefaultRows (ev_cfg E)) True name (dm_pty d) of
       (r, p) \<Rightarrow> (r, d\<lparr>dm_pty := p\<rparr>))"

definition DestroySession :: "string \<Rightarrow> 't daemon \<Rightarrow> 't daemon" where
  "DestroySession sid d =
    (case pm_Get sid (dm_pty d) of
       None \<Rightarrow> d
     | Some h \<Rightarrow> on_pty (pm_Destroy sid (update_session h CloseAllControllers (dm_pty d))) d)"

definition GetMaskedAccessKey :: "'t daemon \<Rightarrow> string" where
  "GetMaskedAccessKey d =
    (if length (dm_accessKey d) \<le> 8 then dm_accessKey d else take 8 (dm_accessKey d) @ ''...'')"

definition LocalTakeover :: "'t daemon_env \<Rightarrow> answers \<Rightarrow> 't daemon \<Rightarrow> 't daemon" where
  "LocalTakeover E a d =
    (let detach = (\<lambda>info p. case pm_Get (si_ID info) p of None \<Rightarrow> p
                     | Some h \<Rightarrow> update_session h CloseAllControllers p);
         d1 = d\<lparr>dm_pty := fold detach (ListSessions (dm_pty d)) (dm_pty d), dm_sub := {}\<rparr> in
     sendJSON E a (Message0\<lparr>Type := TypeKicked, Data := ''taken over locally''\<rparr>) d1)"

end
