(* ===== verification/Daemon_Safety.thy ===== *)
theory Daemon_Safety
  imports Daemon
begin

text \<open>
  What the daemon guarantees over any sequence of events: terminal content leaves it encrypted
  or not at all, an app that has not completed the handshake changes nothing and learns nothing,
  a paused session stays silent, and a channel switch drops the keys. The events are the app's
  messages and frames, the signals of the relay, the shells, the goroutines of transfers and
  tunnels, the clock, and the life of the two channels, in any order.
\<close>

section \<open>Events\<close>

datatype devent =
    DvMessage answers Message
  | DvBinary answers "byte list"
  | DvSignal answers raw_signal
  | DvShellRead nat "byte list"
  | DvOutputBegin answers string "byte list" u64
  | DvOutputEnd answers nat
  | DvShellExit nat int
  | DvExited answers string int
  | DvTick answers bool int
  | DvPakeTimeout
  | DvFileMessage answers u32 "string option"
  | DvFileFrame "byte list"
  | DvFileDone u32
  | DvStage answers
  | DvDial answers u32 string "string option"
  | DvReadHead nat
  | DvRead answers nat "byte list" bool
  | DvWsDial answers string "string option"
  | DvWsReadHead nat
  | DvWsRead answers nat "(bool \<times> byte list) option"
  | DvFetched answers string "string + http_answer"
  | DvAnswerBegin
  | DvAnswered nat "raw_signal list" "string option"
  | DvRtcUp nat
  | DvRtcFailed nat
  | DvRtcLost answers nat
  | DvRelayUp nat
  | DvRelayDown
  | DvRelayLost answers nat
  | DvAttach string string nat
  | DvDetach string string
  | DvLocalCreate answers string string string
  | DvLocalDestroy string
  | DvSetCode
  | DvUnsetCode
  | DvTakeover answers
  | DvStop answers

fun dstep :: "'t daemon_env \<Rightarrow> devent \<Rightarrow> 't daemon \<Rightarrow> 't daemon option" where
  "dstep E (DvMessage a msg) d = handleMessage E a msg d"
| "dstep E (DvBinary a data) d = Some (handleBinary E a data d)"
| "dstep E (DvSignal a raw) d = handleP2PSignal E a raw d"
| "dstep E (DvShellRead h data) d = Some (on_pty (pty_read (ev_emu E) h data (dm_pty d)) d)"
| "dstep E (DvOutputBegin a sid data q) d = Some (output_begin a sid data q d)"
| "dstep E (DvOutputEnd a n) d = Some (output_end E a n d)"
| "dstep E (DvShellExit h code) d = Some (on_pty (pty_exited h code (dm_pty d)) d)"
| "dstep E (DvExited a sid code) d = Some (session_exited E a sid code d)"
| "dstep E (DvTick a interactive now) d = Some (on_batcher E (batcher_tick interactive now (an_ids a)) d)"
| "dstep E DvPakeTimeout d = Some (set_sec (pake_timeout (dm_sec d)) d)"
| "dstep E (DvFileMessage a i err) d =
     Some (sendJSON E a (case err of None \<Rightarrow> cancel_message i | Some e \<Rightarrow> error_message i e) d)"
| "dstep E (DvFileFrame f) d = Some (snd (sendBytesCancelable E f d))"
| "dstep E (DvFileDone i) d = Some (d\<lparr>dm_files := finish_task i (dm_files d)\<rparr>)"
| "dstep E (DvStage a) d = Some (snd (stage_file E a d))"
| "dstep E (DvDial a i s err) d = Some (on_proxy E a (dial_done i s err (dm_proxy d)) d)"
| "dstep E (DvReadHead h) d = Some (d\<lparr>dm_proxy := read_head h (dm_proxy d)\<rparr>)"
| "dstep E (DvRead a h got failed) d = Some (on_proxy E a (read_pass h got failed (dm_proxy d)) d)"
| "dstep E (DvWsDial a s err) d = Some (on_proxy E a (ws_dial_done s err (dm_proxy d)) d)"
| "dstep E (DvWsReadHead h) d = Some (d\<lparr>dm_proxy := ws_read_head h (dm_proxy d)\<rparr>)"
| "dstep E (DvWsRead a h got) d = Some (on_proxy E a (ws_read_pass h got (dm_proxy d)) d)"
| "dstep E (DvFetched a sid answer) d = Some (send_each E a (http_fetched sid answer) d)"
| "dstep E DvAnswerBegin d = Some (answerer_begin d)"
| "dstep E (DvAnswered r early answer) d = Some (answerer_answered r early answer d)"
| "dstep E (DvRtcUp r) d = Some (rtc_up r d)"
| "dstep E (DvRtcFailed r) d = Some (answerer_failed r d)"
| "dstep E (DvRtcLost a r) d = answerer_disconnected a r d"
| "dstep E (DvRelayUp r) d = Some (relay_up r d)"
| "dstep E DvRelayDown d = Some (relay_down d)"
| "dstep E (DvRelayLost a r) d = relay_lost a r d"
| "dstep E (DvAttach sid c w) d = Some (snd (AttachLocalSession sid c w d))"
| "dstep E (DvDetach sid c) d = Some (DetachLocalSession sid c d)"
| "dstep E (DvLocalCreate a sid shell name) d = Some (snd (CreateSession E a sid shell name d))"
| "dstep E (DvLocalDestroy sid) d = Some (DestroySession sid d)"
| "dstep E DvSetCode d = Some (LocalSetCode d)"
| "dstep E DvUnsetCode d = Some (LocalUnsetCode d)"
| "dstep E (DvTakeover a) d = Some (LocalTakeover E a d)"
| "dstep E (DvStop a) d = Stop E a d"

section \<open>What sending changes\<close>

lemma happen_sel [simp]:
  "dm_sec (happen e d) = dm_sec d" "dm_batcher (happen e d) = dm_batcher d"
  "dm_sub (happen e d) = dm_sub d" "dm_muted (happen e d) = dm_muted d"
  "dm_sending (happen e d) = dm_sending d"
  "dm_pty (happen e d) = dm_pty d" "dm_files (happen e d) = dm_files d"
  "dm_proxy (happen e d) = dm_proxy d" "dm_mode (happen e d) = dm_mode d"
  "dm_relay (happen e d) = dm_relay d" "dm_rtc (happen e d) = dm_rtc d"
  "dm_out (happen e d) = dm_out d @ [e]"
  by (simp_all add: happen_def)

lemma set_sec_sel [simp]:
  "dm_sec (set_sec s d) = s" "dm_batcher (set_sec s d) = dm_batcher d"
  "dm_sub (set_sec s d) = dm_sub d" "dm_muted (set_sec s d) = dm_muted d"
  "dm_sending (set_sec s d) = dm_sending d"
  "dm_pty (set_sec s d) = dm_pty d" "dm_files (set_sec s d) = dm_files d"
  "dm_proxy (set_sec s d) = dm_proxy d" "dm_mode (set_sec s d) = dm_mode d"
  "dm_relay (set_sec s d) = dm_relay d" "dm_rtc (set_sec s d) = dm_rtc d"
  "dm_out (set_sec s d) = dm_out d" "dm_accessKey (set_sec s d) = dm_accessKey d"
  "set_sec s (set_sec t d) = set_sec s d"
  by (simp_all add: set_sec_def)

text \<open>Wrapping moves the channel's counters and nothing else of the security state.\<close>

definition same_gate :: "secure_state \<Rightarrow> secure_state \<Rightarrow> bool" where
  "same_gate s s' \<longleftrightarrow> secCodeVerified s' = secCodeVerified s \<and> secureActive s' = secureActive s
     \<and> (secure s' = None \<longleftrightarrow> secure s = None)"

lemma same_gate_refl [simp, intro]: "same_gate s s"
  by (simp add: same_gate_def)

lemma same_gate_trans [trans]: "same_gate r s \<Longrightarrow> same_gate s t \<Longrightarrow> same_gate r t"
  by (simp add: same_gate_def)

lemma wrap_same_gate:
  "same_gate s (snd (wrapOutgoingJSON A m s))"
  "same_gate s (snd (wrapOutgoingBinary A f s))"
  "same_gate s (snd (unwrapIncomingJSON A u m s))"
  "same_gate s (snd (unwrapIncomingBinary A f s))"
  by (auto simp: same_gate_def wrapOutgoingJSON_def wrapOutgoingBinary_def unwrapIncomingJSON_def
      unwrapIncomingBinary_def unfold_ops secureActive_def Let_def
      split: option.splits sum.splits prod.splits if_splits bool.splits)

text \<open>
  The contract of everything that only sends: it appends effects that satisfy \<open>P\<close>, moves the
  counters of the secure channel and the batcher, and leaves the rest of the daemon alone.
\<close>

definition talks :: "(effect \<Rightarrow> bool) \<Rightarrow> 't daemon \<Rightarrow> 't daemon \<Rightarrow> bool" where
  "talks P d d' \<longleftrightarrow>
     d' = d\<lparr>dm_sec := dm_sec d', dm_batcher := dm_batcher d', dm_out := dm_out d'\<rparr>
     \<and> same_gate (dm_sec d) (dm_sec d')
     \<and> (\<exists>es. dm_out d' = dm_out d @ es \<and> (\<forall>e \<in> set es. P e))"

lemma talks_refl [simp, intro]: "talks P d d"
  by (simp add: talks_def)

lemma talks_trans [trans]:
  assumes "talks P a b" and "talks P b c"
  shows "talks P a c"
proof -
  obtain es fs where "dm_out b = dm_out a @ es" "\<forall>e \<in> set es. P e"
    "dm_out c = dm_out b @ fs" "\<forall>e \<in> set fs. P e"
    using assms unfolding talks_def by blast
  then have "\<exists>es. dm_out c = dm_out a @ es \<and> (\<forall>e \<in> set es. P e)"
    by (intro exI [of _ "es @ fs"]) auto
  moreover have "same_gate (dm_sec a) (dm_sec c)"
    using assms same_gate_trans unfolding talks_def by blast
  moreover have "c = a\<lparr>dm_sec := dm_sec c, dm_batcher := dm_batcher c, dm_out := dm_out c\<rparr>"
    using assms unfolding talks_def by (cases a; cases b; cases c) simp
  ultimately show ?thesis by (simp add: talks_def)
qed

lemma talks_mono: "talks P d d' \<Longrightarrow> (\<And>e. P e \<Longrightarrow> Q e) \<Longrightarrow> talks Q d d'"
  unfolding talks_def by blast

lemma talks_fold:
  assumes "\<And>x d. x \<in> set xs \<Longrightarrow> R d \<Longrightarrow> talks P d (f x d) \<and> R (f x d)" and "R d"
  shows "talks P d (fold f xs d) \<and> R (fold f xs d)"
  using assms
proof (induction xs arbitrary: d)
  case (Cons x xs)
  have "talks P d (f x d)" "R (f x d)" using Cons.prems by auto
  moreover have "talks P (f x d) (fold f xs (f x d)) \<and> R (fold f xs (f x d))"
    using Cons.prems by (intro Cons.IH) (auto simp: calculation)
  ultimately show ?case using talks_trans by auto
qed simp

lemma talks_set_sec: "same_gate (dm_sec d) s \<Longrightarrow> talks P d (set_sec s d)"
  by (simp add: talks_def set_sec_def)

lemma talks_happen: "P e \<Longrightarrow> talks P d (happen e d)"
  by (simp add: talks_def happen_def)

lemma talks_batcher: "talks P d (d\<lparr>dm_batcher := b\<rparr>)"
  by (simp add: talks_def)

lemma talks_route_json:
  assumes "P (SentP2P m)" and "P (SentRelay m)"
  shows "talks P d (route_json m d)"
  using assms by (auto simp: route_json_def intro: talks_happen)

lemma talks_route_frame:
  assumes "P (FrameP2P f)" and "P (FrameRelay f)"
  shows "talks P d (snd (route_frame f d))"
  using assms by (auto simp: route_frame_def intro: talks_happen)

text \<open>What can go out for a message: an encrypted envelope, or the message itself.\<close>

definition sendable :: "secure_state \<Rightarrow> Message \<Rightarrow> Message \<Rightarrow> bool" where
  "sendable s m w \<longleftrightarrow>
     isEncryptedType (Type w) \<or> w = m \<and> (\<not> secureActive s \<or> isPlaintextExempt (Type m))"

lemma outerTypeFor_isEncrypted: "isEncryptedType (outerTypeFor t)"
  by (simp add: outerTypeFor_def isEncryptedType_def)

lemma wrap_sendable:
  "wrapOutgoingJSON A m s = (Some w, s') \<Longrightarrow> sendable s m w"
  using outerTypeFor_isEncrypted
  by (auto simp: wrapOutgoingJSON_def sendable_def WrapJSON_def secureActive_def Let_def
      split: option.splits sum.splits prod.splits if_splits bool.splits)

lemma talks_direct:
  assumes "\<And>w. sendable (dm_sec d) m w \<Longrightarrow> P (SentP2P w) \<and> P (SentRelay w)"
  shows "talks P d (sendJSONDirect E m d)"
proof -
  obtain r s where w: "wrapOutgoingJSON (ev_aead E) m (dm_sec d) = (r, s)" by fastforce
  then have "same_gate (dm_sec d) s" using wrap_same_gate(1) by (metis snd_conv)
  then have 1: "talks P d (set_sec s d)" by (rule talks_set_sec)
  show ?thesis
  proof (cases r)
    case None
    with 1 w show ?thesis by (simp add: sendJSONDirect_def)
  next
    case (Some m')
    with w wrap_sendable assms have "talks P (set_sec s d) (route_json m' (set_sec s d))"
      by (intro talks_route_json) blast+
    with 1 w Some show ?thesis by (simp add: sendJSONDirect_def) (rule talks_trans)
  qed
qed

lemma backpressure_direct: "sendJSONWithBackpressure E m d = sendJSONDirect E m d"
  by (simp add: sendJSONWithBackpressure_def sendJSONDirect_def)

lemma direct_batcher [simp]: "dm_batcher (sendJSONDirect E m d) = dm_batcher d"
  by (simp add: sendJSONDirect_def route_json_def split: prod.splits option.splits)

lemma fold_direct_batcher [simp]: "dm_batcher (fold (sendJSONDirect E) ms d) = dm_batcher d"
  by (induction ms arbitrary: d) simp_all

lemma drain_batcher [simp]: "dm_batcher (drain E d) = (dm_batcher d)\<lparr>wire := []\<rparr>"
  by (simp add: drain_def)

text \<open>\<open>K\<close> is what the gate must look like; sending keeps it.\<close>

lemma talks_drain:
  fixes d :: "'t daemon"
  assumes "\<And>m w s. m \<in> set (wire (dm_batcher d)) \<Longrightarrow> same_gate (dm_sec d) s \<Longrightarrow> sendable s m w
      \<Longrightarrow> P (SentP2P w) \<and> P (SentRelay w)"
  shows "talks P d (drain E d)"
proof -
  let ?d = "d\<lparr>dm_batcher := (dm_batcher d)\<lparr>wire := []\<rparr>\<rparr>"
  have "talks P ?d (fold (sendJSONDirect E) (wire (dm_batcher d)) ?d)
      \<and> same_gate (dm_sec d) (dm_sec (fold (sendJSONDirect E) (wire (dm_batcher d)) ?d))"
  proof (rule talks_fold)
    fix m and e :: "'t daemon"
    assume m: "m \<in> set (wire (dm_batcher d))" and e: "same_gate (dm_sec d) (dm_sec e)"
    have t: "talks P e (sendJSONDirect E m e)" by (rule talks_direct) (rule assms [OF m e])
    moreover from t have "same_gate (dm_sec e) (dm_sec (sendJSONDirect E m e))"
      by (simp add: talks_def)
    ultimately show "talks P e (sendJSONDirect E m e) \<and> same_gate (dm_sec d) (dm_sec (sendJSONDirect E m e))"
      using e same_gate_trans by blast
  qed simp
  then show ?thesis unfolding drain_def using talks_batcher talks_trans by blast
qed

lemma talks_on_batcher:
  assumes "\<And>m w s. m \<in> set (wire (f (dm_batcher d))) \<Longrightarrow> same_gate (dm_sec d) s \<Longrightarrow> sendable s m w
      \<Longrightarrow> P (SentP2P w) \<and> P (SentRelay w)"
  shows "talks P d (on_batcher E f d)"
proof -
  have "talks P (d\<lparr>dm_batcher := f (dm_batcher d)\<rparr>) (on_batcher E f d)"
    unfolding on_batcher_def by (rule talks_drain) (use assms in auto)
  then show ?thesis using talks_batcher talks_trans by blast
qed

lemma on_batcher_batcher [simp]: "dm_batcher (on_batcher E f d) = (f (dm_batcher d))\<lparr>wire := []\<rparr>"
  by (simp add: on_batcher_def)

text \<open>What every sender leaves alone, proved once from the contract.\<close>

locale talker =
  fixes act :: "'t daemon \<Rightarrow> 't daemon"
  assumes act_talks: "talks (\<lambda>_. True) d (act d)"
begin

lemma keeps:
  "dm_sub (act d) = dm_sub d" "dm_muted (act d) = dm_muted d" "dm_pty (act d) = dm_pty d"
  "dm_files (act d) = dm_files d" "dm_proxy (act d) = dm_proxy d" "dm_mode (act d) = dm_mode d"
  "dm_relay (act d) = dm_relay d" "dm_rtc (act d) = dm_rtc d" "dm_sending (act d) = dm_sending d"
  using act_talks [of d] unfolding talks_def by (cases d; cases "act d"; simp)+

lemma keeps_gate:
  "secCodeVerified (dm_sec (act d)) = secCodeVerified (dm_sec d)"
  "secureActive (dm_sec (act d)) = secureActive (dm_sec d)"
  "secure (dm_sec (act d)) = None \<longleftrightarrow> secure (dm_sec d) = None"
  using act_talks [of d] by (auto simp: talks_def same_gate_def)

end

lemma talks_sendJSON:
  assumes "\<And>m w s. m \<in> set (wire (FlushAll (an_ids a) (dm_batcher d))) \<Longrightarrow> same_gate (dm_sec d) s
      \<Longrightarrow> sendable s m w \<Longrightarrow> P (SentP2P w) \<and> P (SentRelay w)"
    and "\<And>w s. same_gate (dm_sec d) s \<Longrightarrow> sendable s msg w \<Longrightarrow> P (SentP2P w) \<and> P (SentRelay w)"
  shows "talks P d (sendJSON E a msg d)"
proof -
  have 1: "talks P d (flushAll E a d)"
    unfolding flushAll_def by (rule talks_on_batcher) (rule assms(1))
  then have "same_gate (dm_sec d) (dm_sec (flushAll E a d))" by (simp add: talks_def)
  then have "talks P (flushAll E a d) (sendJSON E a msg d)"
    unfolding sendJSON_def by (intro talks_direct assms(2))
  with 1 show ?thesis by (rule talks_trans)
qed

lemma talks_bytes:
  assumes "\<And>f. P (FrameP2P f) \<and> P (FrameRelay f)"
  shows "talks P d (sendBytes E f d)" "talks P d (snd (sendBytesCancelable E f d))"
proof -
  obtain w s where w: "wrapOutgoingBinary (ev_aead E) f (dm_sec d) = (w, s)" by fastforce
  then have "same_gate (dm_sec d) s" using wrap_same_gate(2) by (metis snd_conv)
  then have 1: "talks P d (set_sec s d)" by (rule talks_set_sec)
  moreover have "talks P (set_sec s d) (snd (route_frame w (set_sec s d)))"
    by (rule talks_route_frame) (use assms in auto)
  ultimately show "talks P d (sendBytes E f d)" "talks P d (snd (sendBytesCancelable E f d))"
    using w by (auto simp: sendBytes_def sendBytesCancelable_def intro: talks_trans)
qed

interpretation direct: talker "sendJSONDirect E m" for E m
  by unfold_locales (rule talks_direct, simp)

interpretation batch: talker "on_batcher E f" for E f
  by unfold_locales (rule talks_on_batcher, simp)

interpretation flush: talker "flushAll E a" for E a
  by unfold_locales (simp add: flushAll_def batch.act_talks)

interpretation json: talker "sendJSON E a m" for E a m
  by unfold_locales (rule talks_sendJSON, simp_all)

interpretation bytes: talker "sendBytes E f" for E f
  by unfold_locales (rule talks_bytes, simp)

interpretation history: talker "send_history E a m" for E a m
  by unfold_locales (simp add: send_history_def backpressure_direct direct.act_talks json.act_talks)

lemmas [simp] = direct.keeps direct.keeps_gate batch.keeps batch.keeps_gate
  flush.keeps flush.keeps_gate json.keeps json.keeps_gate bytes.keeps bytes.keeps_gate
  history.keeps history.keeps_gate

interpretation each: talker "send_each E a ms" for E a ms
proof
  fix d :: "'a daemon"
  show "talks (\<lambda>_. True) d (send_each E a ms d)"
    unfolding send_each_def
    by (rule conjunct1, rule talks_fold [where R = "\<lambda>_. True"]) (simp_all add: json.act_talks)
qed

lemmas [simp] = each.keeps each.keeps_gate

lemma flush_batcher [simp]:
  "dm_batcher (flushAll E a d) = (FlushAll (an_ids a) (dm_batcher d))\<lparr>wire := []\<rparr>"
  by (simp add: flushAll_def)

lemma sendJSON_batcher [simp]:
  "dm_batcher (sendJSON E a m d) = (FlushAll (an_ids a) (dm_batcher d))\<lparr>wire := []\<rparr>"
  by (simp add: sendJSON_def)

lemma sendBytes_batcher [simp]: "dm_batcher (sendBytes E f d) = dm_batcher d"
  by (simp add: sendBytes_def route_frame_def split: prod.splits)

section \<open>An idle batcher\<close>

definition idle :: "batcher \<Rightarrow> bool" where
  "idle b \<longleftrightarrow> bufs b = Map.empty \<and> wire b = []"

lemma walks_empty:
  "all_jobs ids Map.empty = ([], Map.empty)" "due_jobs now dl ids Map.empty = ([], Map.empty)"
  "seal_jobs h ids Map.empty = ([], Map.empty)"
  by (induction ids) simp_all

lemma idle_ops [simp]:
  "idle b \<Longrightarrow> idle (FlushAll ids b)" "idle b \<Longrightarrow> idle (SealAt h ids b)"
  "idle b \<Longrightarrow> idle (batcher_tick i now ids b)" "idle (b\<lparr>wire := []\<rparr>) \<longleftrightarrow> bufs b = Map.empty"
  by (simp_all add: idle_def FlushAll_def SealAt_def batcher_tick_def walks_empty send_jobs_def)

lemma idle_FlushAll_eq: "idle b \<Longrightarrow> FlushAll ids b = b"
  by (cases b) (simp add: idle_def FlushAll_def walks_empty send_jobs_def)

section \<open>Confidentiality\<close>

text \<open>
  Terminal content, created sessions and directory contents. (\<^verbatim>\<open>session_info\<close> is not in the list:
  it is exempt from encryption, see \<open>session_info_in_the_clear\<close>.)
\<close>

definition confidential :: "string list" where
  "confidential = [TypeOutput, TypeHistoryData, TypeHistoryStart, TypeHistoryChunk, TypeHistoryEnd,
     TypeSessionCreated, TypeDirList]"

fun content_ok :: "effect \<Rightarrow> bool" where
  "content_ok (SentP2P m) \<longleftrightarrow> Type m \<notin> set confidential"
| "content_ok (SentRelay m) \<longleftrightarrow> Type m \<notin> set confidential"
| "content_ok _ \<longleftrightarrow> True"

definition guarded :: "'t daemon \<Rightarrow> bool" where
  "guarded d \<longleftrightarrow> (secCodeVerified (dm_sec d) \<longrightarrow> secureActive (dm_sec d))
     \<and> (secureActive (dm_sec d) \<or> bufs (dm_batcher d) = Map.empty) \<and> wire (dm_batcher d) = []
     \<and> list_all content_ok (dm_out d)"

lemma sendable_content:
  assumes "sendable s m w" and "secureActive s \<or> Type m \<notin> set confidential"
  shows "content_ok (SentP2P w) \<and> content_ok (SentRelay w)"
  using assms by (auto simp: sendable_def confidential_def isEncryptedType_def isPlaintextExempt_def
      plaintextExemptTypes_def)

lemma guarded_talks:
  assumes "guarded d" and "talks content_ok d d'"
    and "secureActive (dm_sec d) \<or> bufs (dm_batcher d') = Map.empty" and "wire (dm_batcher d') = []"
  shows "guarded d'"
  using assms by (auto simp: guarded_def talks_def same_gate_def list_all_iff)

lemma guarded_batcher:
  assumes "guarded d" and "secureActive (dm_sec d) \<or> idle (f (dm_batcher d))"
  shows "guarded (on_batcher E f d)"
proof (rule guarded_talks [OF assms(1)])
  show "talks content_ok d (on_batcher E f d)"
  proof (rule talks_on_batcher)
    fix m w s
    assume "m \<in> set (wire (f (dm_batcher d)))" and g: "same_gate (dm_sec d) s" and w: "sendable s m w"
    then have "secureActive (dm_sec d)" using assms(2) by (auto simp: idle_def)
    then have "secureActive s" using g by (auto simp: same_gate_def)
    then show "content_ok (SentP2P w) \<and> content_ok (SentRelay w)" using sendable_content [OF w] by blast
  qed
qed (use assms(2) in \<open>auto simp: idle_def\<close>)

lemma guarded_direct:
  assumes "guarded d"
    and "secCodeVerified (dm_sec d) \<or> secureActive (dm_sec d) \<or> Type m \<notin> set confidential"
  shows "guarded (sendJSONDirect E m d)"
proof (rule guarded_talks [OF assms(1)])
  show "talks content_ok d (sendJSONDirect E m d)"
    by (rule talks_direct, rule sendable_content, assumption)
      (use assms in \<open>auto simp: guarded_def\<close>)
qed (use assms(1) in \<open>auto simp: guarded_def\<close>)

lemma guarded_idle: "guarded d \<Longrightarrow> secureActive (dm_sec d) \<or> idle (dm_batcher d)"
  by (auto simp: guarded_def idle_def)

lemma guarded_flush: "guarded d \<Longrightarrow> guarded (flushAll E a d)"
  unfolding flushAll_def by (rule guarded_batcher) (use guarded_idle [of d] in auto)

lemma guarded_json:
  "guarded d \<Longrightarrow> secCodeVerified (dm_sec d) \<or> Type m \<notin> set confidential \<Longrightarrow> guarded (sendJSON E a m d)"
  unfolding sendJSON_def by (rule guarded_direct [OF guarded_flush]) auto

lemma guarded_active: "guarded d \<Longrightarrow> secCodeVerified (dm_sec d) \<Longrightarrow> secureActive (dm_sec d)"
  by (simp add: guarded_def)

lemma guarded_fields [simp]:
  "guarded (d\<lparr>dm_sub := x1\<rparr>) = guarded d" "guarded (d\<lparr>dm_muted := x1\<rparr>) = guarded d"
  "guarded (d\<lparr>dm_sending := ws\<rparr>) = guarded d"
  "guarded (d\<lparr>dm_pty := x2\<rparr>) = guarded d" "guarded (d\<lparr>dm_files := x3\<rparr>) = guarded d"
  "guarded (d\<lparr>dm_proxy := x4\<rparr>) = guarded d" "guarded (d\<lparr>dm_mode := x5\<rparr>) = guarded d"
  "guarded (d\<lparr>dm_rtc := x6\<rparr>) = guarded d" "guarded (d\<lparr>dm_relay := x6\<rparr>) = guarded d"
  "guarded (d\<lparr>dm_pendingICE := x7\<rparr>) = guarded d" "guarded (d\<lparr>dm_pendingICEMode := b\<rparr>) = guarded d"
  "guarded (d\<lparr>dm_kicked := b\<rparr>) = guarded d" "guarded (d\<lparr>dm_lastInputAt := i\<rparr>) = guarded d"
  "guarded (d\<lparr>dm_stopped := b\<rparr>) = guarded d"
  by (simp_all add: guarded_def)

lemma guarded_happen [simp]: "guarded (happen e d) \<longleftrightarrow> guarded d \<and> content_ok e"
  by (auto simp: guarded_def)

lemma guarded_happen_all:
  "guarded d \<Longrightarrow> list_all content_ok es \<Longrightarrow> guarded (fold happen es d)"
  by (induction es arbitrary: d) simp_all

lemma guarded_set_sec:
  "guarded d \<Longrightarrow> same_gate (dm_sec d) s \<Longrightarrow> guarded (set_sec s d)"
  by (auto simp: guarded_def same_gate_def)

lemma cancelable_batcher [simp]: "dm_batcher (snd (sendBytesCancelable E f d)) = dm_batcher d"
  by (simp add: sendBytesCancelable_def route_frame_def split: prod.splits)

lemma guarded_bytes:
  assumes "guarded d"
  shows "guarded (sendBytes E f d)" "guarded (snd (sendBytesCancelable E f d))"
proof -
  have side: "secureActive (dm_sec d) \<or> bufs (dm_batcher d) = Map.empty" "wire (dm_batcher d) = []"
    using assms by (auto simp: guarded_def)
  show "guarded (sendBytes E f d)"
    by (rule guarded_talks [OF assms talks_bytes(1)]) (use side in simp_all)
  show "guarded (snd (sendBytesCancelable E f d))"
    by (rule guarded_talks [OF assms talks_bytes(2)]) (use side in simp_all)
qed

lemma guarded_reset: "guarded d \<Longrightarrow> guarded (reset_secure (set_sec (s\<lparr>secCodeVerified := False\<rparr>) d))"
  by (auto simp: guarded_def reset_secure_def resetSecure_def batcher_Reset_def)

lemma guarded_each:
  "guarded d \<Longrightarrow> secCodeVerified (dm_sec d) \<or> (\<forall>m \<in> set ms. Type m \<notin> set confidential) \<Longrightarrow>
   guarded (send_each E a ms d)"
  unfolding send_each_def
proof (induction ms arbitrary: d)
  case (Cons m ms)
  have "guarded (sendJSON E a m d)" using Cons.prems by (intro guarded_json) auto
  moreover have "secCodeVerified (dm_sec (sendJSON E a m d)) \<or> (\<forall>m \<in> set ms. Type m \<notin> set confidential)"
    using Cons.prems by auto
  ultimately show ?case using Cons.IH by simp
qed simp

lemma fold_history_gate:
  "secCodeVerified (dm_sec d) \<Longrightarrow> guarded d \<Longrightarrow> guarded (fold (send_history E a) ms d)"
  by (induction ms arbitrary: d)
    (simp_all add: send_history_def backpressure_direct guarded_json guarded_direct)

section \<open>Every event keeps the guard\<close>

lemma cancel_transfers_fields:
  "cancel_transfers a d = Some d' \<Longrightarrow> \<exists>f. d' = d\<lparr>dm_files := f\<rparr> \<and> ft_staged f = ft_staged (dm_files d)"
proof -
  have upd: "update_task g i f = Some f' \<Longrightarrow> ft_staged f' = ft_staged f" for g i f f'
    by (auto simp: update_task_def split: option.splits)
  have "cancel_tasks is f = Some f' \<Longrightarrow> ft_staged f' = ft_staged f" for "is" f f'
    by (induction "is" f rule: cancel_tasks.induct) (auto split: option.splits dest: upd)
  then show "cancel_transfers a d = Some d' \<Longrightarrow> ?thesis"
    by (auto simp: cancel_transfers_def CancelAll_def)
qed

lemma guarded_create: "guarded d \<Longrightarrow> secCodeVerified (dm_sec d) \<Longrightarrow> guarded (handleCreateSession E a msg d)"
  by (auto simp: handleCreateSession_def Let_def guarded_json split: prod.splits sum.splits option.splits)

lemma guarded_select: "guarded d \<Longrightarrow> guarded (handleChannelSelect E a msg d)"
  by (auto simp: handleChannelSelect_def Let_def guarded_json guarded_flush guarded_reset confidential_def)

lemma guarded_history:
  "guarded d \<Longrightarrow> secCodeVerified (dm_sec d) \<Longrightarrow> guarded (handleHistory E a msg d)"
  by (auto simp: handleHistory_def unmutePush_def Let_def guarded_batcher guarded_active intro!: fold_history_gate
      split: prod.splits)

lemma guarded_pause: "guarded d \<Longrightarrow> guarded (handlePushPause E a msg d)"
  by (simp add: handlePushPause_def Let_def guarded_flush)

lemma guarded_on_pty: "guarded d \<Longrightarrow> guarded (on_pty r d)"
  by (simp add: on_pty_def guarded_happen_all list_all_iff)

lemma guarded_broadcast [simp]: "guarded d \<Longrightarrow> guarded (output_broadcast a sid data d)"
  by (simp add: output_broadcast_def Let_def guarded_happen_all list_all_iff)

lemma fold_happen_sel [simp]:
  "dm_sec (fold happen es d) = dm_sec d" "dm_sending (fold happen es d) = dm_sending d"
  "dm_muted (fold happen es d) = dm_muted d" "dm_sub (fold happen es d) = dm_sub d"
  "dm_batcher (fold happen es d) = dm_batcher d"
  by (induction es arbitrary: d) simp_all

lemma broadcast_sel [simp]:
  "dm_sec (output_broadcast a sid data d) = dm_sec d"
  "dm_sending (output_broadcast a sid data d) = dm_sending d"
  "dm_muted (output_broadcast a sid data d) = dm_muted d"
  "dm_sub (output_broadcast a sid data d) = dm_sub d"
  "dm_batcher (output_broadcast a sid data d) = dm_batcher d"
  by (simp_all add: output_broadcast_def Let_def)

lemma guarded_deliver: "guarded d \<Longrightarrow> secureActive (dm_sec d) \<Longrightarrow> guarded (output_deliver E a sid data q d)"
  by (simp add: output_deliver_def guarded_direct guarded_batcher)

lemma guarded_begin: "guarded d \<Longrightarrow> guarded (output_begin a sid data q d)"
  by (simp add: output_begin_def Let_def)

lemma guarded_end:
  "guarded d \<Longrightarrow> secureActive (dm_sec d) \<or> dm_sending d = [] \<Longrightarrow> guarded (output_end E a n d)"
  by (auto simp: output_end_def guarded_deliver split: prod.splits)

lemma guarded_replenish: "guarded d \<Longrightarrow> guarded (replenishPool E a d)"
  by (simp add: replenishPool_def)

lemma guarded_proxy:
  assumes "guarded d" and "\<forall>m. PJson m \<in> set (fst r) \<longrightarrow> Type m \<notin> set confidential"
  shows "guarded (on_proxy E a r d)"
proof -
  have "guarded (fold (proxy_act E a) xs d)"
    if "guarded d" "\<forall>m. PJson m \<in> set xs \<longrightarrow> Type m \<notin> set confidential" for xs d
    using that
  proof (induction xs arbitrary: d)
    case (Cons x xs)
    have "guarded (proxy_act E a x d)"
      using Cons.prems by (cases x) (auto intro: guarded_json guarded_bytes)
    then show ?case using Cons by simp
  qed simp
  then show ?thesis using assms by (simp add: on_proxy_def)
qed

lemma guarded_dir:
  "guarded d \<Longrightarrow> secCodeVerified (dm_sec d) \<Longrightarrow> guarded (send_dir E a p ms d)"
  by (induction E a p ms d rule: send_dir.induct) (auto simp: guarded_json guarded_direct backpressure_direct)

lemma stage_messages: "StageFile e f = (Inr ms, f') \<Longrightarrow> \<forall>m \<in> set ms. Type m = TypeFileList"
  by (auto simp: StageFile_def Let_def file_list_message_def Message0_def split: sum.splits option.splits
      if_splits prod.splits)

lemma guarded_stage: "guarded d \<Longrightarrow> guarded (snd (stage_file E a d))"
  by (auto simp: stage_file_def confidential_def dest: stage_messages
      intro!: guarded_each split: prod.splits sum.splits)

lemma guarded_gated:
  assumes "guarded d" and "\<And>d. guarded d \<Longrightarrow> secCodeVerified (dm_sec d) \<Longrightarrow> h d = Some d' \<Longrightarrow> guarded d'"
    and "gated E a h d = Some d'"
  shows "guarded d'"
  using assms by (auto simp: gated_def confidential_def guarded_json split: if_splits)

lemma guarded_new_sec:
  assumes "guarded d" and "secCodeVerified s \<longrightarrow> secureActive s"
    and "secureActive (dm_sec d) \<longrightarrow> secureActive s"
  shows "guarded (set_sec s d)"
  using assms by (auto simp: guarded_def)

lemma pake_start_gate:
  "handlePakeStart E code ak y msg s = (ms, s') \<Longrightarrow>
   same_gate s s' \<and> (\<forall>m \<in> set ms. Type m = TypePakeReply)"
  by (auto simp: handlePakeStart_def Let_def same_gate_def secureActive_def split: option.splits sum.splits if_splits)

lemma sec_confirm_gate:
  assumes "handleSecConfirm E msg s = (ms, s')"
  shows "(secureActive s \<longrightarrow> secureActive s')
    \<and> ((secCodeVerified s \<longrightarrow> secureActive s) \<longrightarrow> secCodeVerified s' \<longrightarrow> secureActive s')
    \<and> (\<forall>m \<in> set ms. Type m \<in> {TypeSecCodeError, TypeSecOK, TypeSecureReady})"
proof (cases "(pakeServer s, pakeSid s)")
  case (Pair a b)
  show ?thesis
  proof (cases "a = None \<or> b = None")
    case True
    with assms Pair show ?thesis by (auto simp: handleSecConfirm_def split: option.splits)
  next
    case False
    then obtain server sid where ab: "pakeServer s = Some server" "pakeSid s = Some sid" using Pair by auto
    obtain r server' where fin: "Finish (pe_curve E) (pe_hashes E) (pe_MN E) sid (pakeAccessKey s) server
        = (r, server')" by fastforce
    show ?thesis
    proof (cases "confirm_ok E msg r (sp_tt server')")
      case False
      with assms show ?thesis
        by (cases "secCodeEnabled s") (auto simp: handleSecConfirm_def ab fin Let_def secureActive_def)
    next
      case True
      then obtain keys t where kt: "r = Inr keys" "sp_tt server' = Some t"
        by (auto simp: confirm_ok_def split: sum.splits option.splits)
      show ?thesis
      proof (cases "NewSecureChannel (Ks2c keys) (Kc2s keys) dirS2C dirC2S")
        case (Inl e)
        with assms True show ?thesis by (auto simp: handleSecConfirm_def ab fin kt Let_def secureActive_def)
      next
        case (Inr sc)
        then have "active sc"
          by (auto simp: NewSecureChannel_def newGCM_def split: sum.splits if_splits)
        with Inr assms True show ?thesis
          by (auto simp: handleSecConfirm_def ab fin kt Let_def secureActive_def)
      qed
    qed
  qed
qed

lemma guarded_on_sec:
  assumes "guarded d"
  shows "guarded (on_sec E a (handlePakeStart P code ak y msg (dm_sec d)) d)"
    "guarded (on_sec E a (handleSecConfirm P msg (dm_sec d)) d)"
proof -
  obtain ms s where 1: "handlePakeStart P code ak y msg (dm_sec d) = (ms, s)" by fastforce
  note g = pake_start_gate [OF 1]
  show "guarded (on_sec E a (handlePakeStart P code ak y msg (dm_sec d)) d)"
    unfolding 1 on_sec_def fst_conv snd_conv
    by (intro guarded_each guarded_set_sec [OF assms]) (use g in \<open>auto simp: confidential_def\<close>)
  obtain ns t where 2: "handleSecConfirm P msg (dm_sec d) = (ns, t)" by fastforce
  note h = sec_confirm_gate [OF 2]
  have "\<forall>m \<in> set ns. Type m \<notin> set confidential" using h by (auto simp: confidential_def)
  then show "guarded (on_sec E a (handleSecConfirm P msg (dm_sec d)) d)"
    unfolding 2 on_sec_def fst_conv snd_conv
    by (intro guarded_each guarded_new_sec [OF assms]) (use h assms in \<open>auto simp: guarded_def\<close>)
qed

lemma guarded_kicked: "guarded d \<Longrightarrow> handleKicked a msg d = Some d' \<Longrightarrow> guarded d'"
  by (auto simp: handleKicked_def CloseRTC_def close_tunnels_def guarded_def batcher_Reset_def
      dest!: cancel_transfers_fields split: if_splits)

lemma guarded_file_request: "guarded d \<Longrightarrow> guarded (handleFileRequest E a msg d)"
  by (auto simp: handleFileRequest_def HandleRequest_def startSendFromStaged_def Let_def confidential_def
      intro!: guarded_json guarded_each split: prod.splits sum.splits option.splits)

lemma connect_messages:
  "PJson m \<in> set (HandleConnect msg) \<Longrightarrow> Type m = TypeProxyError"
  "HandleWsConnect msg = Some xs \<Longrightarrow> PJson m \<notin> set xs"
  "PJson m \<notin> set (fst (HandleWsMessage msg b p))" "PJson m \<notin> set (fst (HandleData i data b p))"
  "PJson m \<in> set (fst (dial_done i cs err p)) \<Longrightarrow> Type m \<in> {TypeProxyError, TypeProxyConnected}"
  "PJson m \<in> set (fst (ws_dial_done cs err p)) \<Longrightarrow> Type m \<in> {TypeProxyWsError, TypeProxyWsConnected}"
  "PJson m \<in> set (fst (read_pass h got failed p)) \<Longrightarrow> Type m = TypeProxyClose"
  "PJson m \<in> set (fst (ws_read_pass h ws p)) \<Longrightarrow> Type m \<in> {TypeProxyWsClose, TypeProxyWsMessage}"
  by (auto simp: HandleConnect_def HandleWsConnect_def HandleWsMessage_def HandleData_def dial_done_def
      ws_dial_done_def read_pass_def ws_read_pass_def Let_def
      split: option.splits if_splits prod.splits)

lemma ifSomeE:
  "(if c then x else y) = Some d \<Longrightarrow> (c \<Longrightarrow> x = Some d \<Longrightarrow> R) \<Longrightarrow> (y = Some d \<Longrightarrow> R) \<Longrightarrow> R"
  by (cases c) auto

lemma guarded_offline:
  assumes "guarded d" and "dm_mode d = ''p2p'' \<or> \<not> secCodeVerified (dm_sec d)"
    and "handlePeerOffline a d = Some d'"
  shows "guarded d'"
  using assms by (auto simp: handlePeerOffline_def close_tunnels_def guarded_def reset_secure_def
      resetSecure_def batcher_Reset_def dest!: cancel_transfers_fields split: if_splits)

lemma guarded_gatedE:
  assumes "gated E a h d = Some d'" and "guarded d"
    and "\<And>d. guarded d \<Longrightarrow> secCodeVerified (dm_sec d) \<Longrightarrow> h d = Some d' \<Longrightarrow> guarded d'"
  shows "guarded d'"
  using guarded_gated [OF assms(2,3,1)] .

lemma guarded_file_handlers:
  "guarded d \<Longrightarrow> handleFileSendCancel msg d = Some d' \<Longrightarrow> guarded d'"
  "guarded d \<Longrightarrow> handleFileDelete msg d = Some d' \<Longrightarrow> guarded d'"
  by (auto simp: handleFileSendCancel_def handleFileDelete_def split: if_splits)

lemma guarded_small_handlers:
  "guarded d \<Longrightarrow> guarded (handleSessionList E a d)"
  "guarded d \<Longrightarrow> guarded (handleDestroySession msg d)"
  "guarded d \<Longrightarrow> guarded (fold happen (map ToPty ps) (markInput a d))"
  "guarded d \<Longrightarrow> secCodeVerified (dm_sec d) \<Longrightarrow> guarded (handleReqPending E a d)"
  "guarded d \<Longrightarrow> guarded (on_proxy E a (HandleConnect msg, p) d)"
  "guarded d \<Longrightarrow> HandleWsConnect msg = Some xs \<Longrightarrow> guarded (on_proxy E a (xs, p) d)"
  "guarded d \<Longrightarrow> guarded (on_proxy E a (HandleWsMessage msg b p) d)"
  "guarded d \<Longrightarrow> guarded (on_proxy E a (HandleData i data b p) d)"
proof -
  assume g: "guarded d"
  show "guarded (handleSessionList E a d)"
    by (simp add: handleSessionList_def confidential_def guarded_json g)
  show "guarded (handleDestroySession msg d)"
    by (simp add: handleDestroySession_def Let_def guarded_on_pty g)
  show "guarded (fold happen (map ToPty ps) (markInput a d))"
    by (rule guarded_happen_all) (simp_all add: markInput_def list_all_iff g)
  show "guarded (handleReqPending E a d)" if "secCodeVerified (dm_sec d)"
  proof -
    have "guarded (snd (stage_file E a d))" by (rule guarded_stage [OF g])
    then show ?thesis
      by (auto simp: handleReqPending_def confidential_def guarded_json split: prod.splits option.splits)
  qed
  show "guarded (on_proxy E a (HandleConnect msg, p) d)"
    by (rule guarded_proxy [OF g]) (auto simp: confidential_def dest: connect_messages(1))
  show "guarded (on_proxy E a (xs, p) d)" if "HandleWsConnect msg = Some xs"
    by (rule guarded_proxy [OF g]) (use connect_messages(2) [OF that] in auto)
  show "guarded (on_proxy E a (HandleWsMessage msg b p) d)"
    by (rule guarded_proxy [OF g]) (auto simp: connect_messages(3))
  show "guarded (on_proxy E a (HandleData i data b p) d)"
    by (rule guarded_proxy [OF g]) (auto simp: connect_messages(4))
qed

lemmas guarded_handlers = guarded_create guarded_select guarded_history guarded_pause guarded_on_pty
  guarded_json guarded_file_request guarded_on_sec guarded_small_handlers

lemma guarded_dispatch:
  assumes g: "guarded d" and calm: "Type msg \<noteq> TypePeerOffline \<or> dm_mode d = ''p2p'' \<or> \<not> secCodeVerified (dm_sec d)"
    and d: "dispatch E a msg d = Some d'"
  shows "guarded d'"
proof -
  have pong: "Type (Message0\<lparr>Type := TypePong\<rparr>) \<notin> set confidential"
    "Type (file_list_message f) \<notin> set confidential" for f
    by (simp_all add: confidential_def file_list_message_def)
  show ?thesis
    using d unfolding dispatch_def Let_def
  proof (elim ifSomeE, goal_cases)
    case 1 then show ?case using g pong by (auto simp: guarded_handlers)
  next
    case 2 then show ?case using g pong by (auto simp: guarded_handlers)
  next
    case 3 then show ?case by (blast intro: guarded_kicked [OF g])
  next
    case 4 then show ?case using guarded_offline [OF g] calm by blast
  next
    case 5 then show ?case by (elim guarded_gatedE [OF _ g]) (auto simp: guarded_handlers Let_def split: if_splits)
  next
    case 6 then show ?case by (elim guarded_gatedE [OF _ g]) (auto simp: guarded_handlers Let_def split: if_splits)
  next
    case 7 then show ?case by (elim guarded_gatedE [OF _ g]) (auto simp: guarded_handlers Let_def split: if_splits)
  next
    case 8 then show ?case by (elim guarded_gatedE [OF _ g]) (auto simp: guarded_handlers Let_def split: if_splits)
  next
    case 9 then show ?case by (elim guarded_gatedE [OF _ g]) (auto simp: guarded_handlers Let_def split: if_splits)
  next
    case 10 then show ?case by (elim guarded_gatedE [OF _ g]) (auto simp: guarded_handlers Let_def split: if_splits)
  next
    case 11 then show ?case by (elim guarded_gatedE [OF _ g]) (auto simp: guarded_handlers Let_def split: if_splits)
  next
    case 12 then show ?case using g pong by (auto simp: guarded_handlers)
  next
    case 13 then show ?case using g pong by (auto simp: guarded_handlers)
  next
    case 14 then show ?case by (elim guarded_gatedE [OF _ g]) (rule guarded_file_handlers)
  next
    case 15 then show ?case by (elim guarded_gatedE [OF _ g]) (auto simp: guarded_handlers Let_def split: if_splits)
  next
    case 16 then show ?case using g pong by (auto simp: guarded_handlers)
  next
    case 17 then show ?case using pong by (elim guarded_gatedE [OF _ g]) (auto simp: guarded_json)
  next
    case 18 then show ?case by (elim guarded_gatedE [OF _ g]) (rule guarded_file_handlers)
  next
    case 19 then show ?case by (elim guarded_gatedE [OF _ g]) (auto simp: guarded_dir)
  next
    case 20 then show ?case by (elim guarded_gatedE [OF _ g]) (auto simp: guarded_handlers Let_def split: if_splits)
  next
    case 21 then show ?case by (elim guarded_gatedE [OF _ g]) (auto simp: guarded_handlers Let_def split: if_splits)
  next
    case 22 then show ?case by (elim guarded_gatedE [OF _ g]) (auto simp: guarded_handlers Let_def split: if_splits)
  next
    case 23 then show ?case by (elim guarded_gatedE [OF _ g]) (auto simp: guarded_handlers Let_def split: if_splits)
  next
    case 24 then show ?case by (elim guarded_gatedE [OF _ g]) (auto simp: guarded_handlers)
  next
    case 25 then show ?case using g pong by (auto simp: guarded_handlers)
  next
    case 26 then show ?case using g pong by (auto simp: guarded_handlers)
  next
    case 27 then show ?case using g pong by (auto simp: guarded_handlers)
  qed
qed

text \<open>
  The one event that opens the guard is the app going offline on the relay after a handshake: it
  drops the keys and leaves the gate open (see \<open>peer_offline_leaves_gate_open\<close>).
\<close>

fun calm :: "'t daemon_env \<Rightarrow> devent \<Rightarrow> 't daemon \<Rightarrow> bool" where
  "calm E (DvMessage a msg) d \<longleftrightarrow>
     (case fst (unwrapIncomingJSON (ev_aead E) (ev_unmarshal E) msg (dm_sec d)) of
        None \<Rightarrow> True
      | Some m \<Rightarrow> Type m \<noteq> TypePeerOffline \<or> dm_mode d = ''p2p'' \<or> \<not> secCodeVerified (dm_sec d))"
| "calm E (DvSignal a raw) d \<longleftrightarrow>
     rs_type raw \<noteq> ''peer_offline'' \<or> dm_mode d = ''p2p'' \<or> \<not> secCodeVerified (dm_sec d)"
| "calm E _ d \<longleftrightarrow> True"

lemma guarded_message:
  assumes "guarded d" and "calm E (DvMessage a msg) d" and "handleMessage E a msg d = Some d'"
  shows "guarded d'"
proof -
  obtain r s where u: "unwrapIncomingJSON (ev_aead E) (ev_unmarshal E) msg (dm_sec d) = (r, s)" by fastforce
  then have gate: "same_gate (dm_sec d) s" using wrap_same_gate(3) by (metis snd_conv)
  then have g: "guarded (set_sec s d)" by (rule guarded_set_sec [OF assms(1)])
  show ?thesis
  proof (cases r)
    case None
    with u g assms(3) show ?thesis by (simp add: handleMessage_def)
  next
    case (Some m)
    then have "Type m \<noteq> TypePeerOffline \<or> dm_mode (set_sec s d) = ''p2p''
        \<or> \<not> secCodeVerified (dm_sec (set_sec s d))"
      using assms(2) u gate by (simp add: same_gate_def)
    from guarded_dispatch [OF g this] assms(3) u Some show ?thesis by (simp add: handleMessage_def)
  qed
qed

lemma guarded_binary: "guarded d \<Longrightarrow> guarded (handleBinary E a data d)"
proof -
  assume d: "guarded d"
  obtain r s where u: "unwrapIncomingBinary (ev_aead E) data (dm_sec d) = (r, s)" by fastforce
  then have "same_gate (dm_sec d) s" using wrap_same_gate(4) by (metis snd_conv)
  then have "guarded (set_sec s d)" by (rule guarded_set_sec [OF d])
  with u show ?thesis
    by (auto simp: handleBinary_def Let_def guarded_small_handlers split: option.splits)
qed

lemma guarded_wsSendRaw [simp]: "guarded d \<Longrightarrow> guarded (wsSendRaw r d)"
  by (simp add: wsSendRaw_def)

lemma guarded_signal:
  "guarded d \<Longrightarrow> calm E (DvSignal a raw) d \<Longrightarrow> handleP2PSignal E a raw d = Some d' \<Longrightarrow> guarded d'"
  by (auto simp: handleP2PSignal_def handleP2PICE_def Let_def guarded_reset guarded_offline
      split: if_splits option.splits)

lemma guarded_channel_events:
  "guarded d \<Longrightarrow> answerer_disconnected a r d = Some d' \<Longrightarrow> guarded d'"
  "guarded d \<Longrightarrow> relay_lost a r d = Some d' \<Longrightarrow> guarded d'"
  "guarded d \<Longrightarrow> Stop E a d = Some d' \<Longrightarrow> guarded d'"
  "guarded d \<Longrightarrow> guarded (answerer_answered r early answer d)"
  by (auto simp: answerer_disconnected_def relay_lost_def Stop_def answerer_answered_def close_tunnels_def
      CloseRTC_def relay_down_def Let_def guarded_flush list_all_iff
      dest!: cancel_transfers_fields intro!: guarded_happen_all split: if_splits option.splits)

lemma guarded_local_events:
  "guarded d \<Longrightarrow> guarded (snd (AttachLocalSession sid c w d))"
  "guarded d \<Longrightarrow> guarded (DetachLocalSession sid c d)"
  "guarded d \<Longrightarrow> guarded (snd (CreateSession E a sid shell name d))"
  "guarded d \<Longrightarrow> guarded (DestroySession sid d)"
  "guarded d \<Longrightarrow> guarded (LocalTakeover E a d)"
  "guarded d \<Longrightarrow> guarded (session_exited E a sid code d)"
  "guarded d \<Longrightarrow> guarded (send_each E a (http_fetched cid answer) d)"
  by (auto simp: AttachLocalSession_def DetachLocalSession_def CreateSession_def DestroySession_def
      LocalTakeover_def session_exited_def http_fetched_def http_response_def proxy_error_def
      confidential_def Let_def Message0_def
      split: option.splits sum.splits prod.splits
      intro!: guarded_on_pty guarded_json guarded_replenish guarded_each)

lemma secureActive_codes [simp]:
  "secureActive (sec_code_set s) = secureActive s" "secureActive (sec_code_unset s) = secureActive s"
  by (simp_all add: secureActive_def sec_code_set_def sec_code_unset_def)

lemma guarded_codes: "guarded d \<Longrightarrow> guarded (LocalSetCode d)" "guarded d \<Longrightarrow> guarded (LocalUnsetCode d)"
proof -
  have "\<not> secCodeVerified (sec_code_set s)" "secCodeVerified (sec_code_unset s) = secCodeVerified s" for s
    by (simp_all add: sec_code_set_def sec_code_unset_def)
  then show "guarded d \<Longrightarrow> guarded (LocalSetCode d)" "guarded d \<Longrightarrow> guarded (LocalUnsetCode d)"
    by (auto simp: LocalSetCode_def LocalUnsetCode_def PushSecStatusUpdate_def intro!: guarded_new_sec
        split: option.splits) (auto simp: guarded_def)
qed

lemma guarded_tunnel_events:
  assumes "guarded d"
  shows "guarded (on_proxy E a (dial_done i cs err p) d)" "guarded (on_proxy E a (ws_dial_done cs err p) d)"
    "guarded (on_proxy E a (read_pass h got failed p) d)"
    "guarded (on_proxy E a (ws_read_pass h ws p) d)"
  by (rule guarded_proxy [OF assms]; auto simp: confidential_def dest!: connect_messages(5-8))+

lemma guarded_step:
  assumes "guarded d" and "secureActive (dm_sec d) \<or> dm_sending d = []"
    and "calm E st d" and "dstep E st d = Some d'"
  shows "guarded d'"
proof (cases st)
  case (DvTick a i now)
  with assms guarded_idle [OF assms(1)] show ?thesis by (auto intro!: guarded_batcher)
next
  case (DvFileMessage a i err)
  have "Type (case err of None \<Rightarrow> cancel_message i | Some e \<Rightarrow> error_message i e) \<notin> set confidential"
    by (auto simp: confidential_def cancel_message_def error_message_def split: option.splits)
  with DvFileMessage assms show ?thesis by (auto intro!: guarded_json)
next
  case DvPakeTimeout
  with assms show ?thesis
    by (auto simp: pake_timeout_def same_gate_def secureActive_def intro!: guarded_set_sec)
next
  case (DvMessage a msg)
  with assms guarded_message show ?thesis by (metis dstep.simps(1))
next
  case (DvSignal a raw)
  with assms guarded_signal show ?thesis by (metis dstep.simps(3))
qed (use assms in \<open>auto simp: guarded_binary guarded_on_pty guarded_begin guarded_end guarded_local_events guarded_codes
    guarded_bytes guarded_stage guarded_tunnel_events answerer_begin_def CloseRTC_def rtc_up_def answerer_failed_def
    relay_up_def relay_down_def split: if_splits
    intro: guarded_channel_events(4) elim: guarded_channel_events(1-3) [rotated]\<close>)

section \<open>Writes between the tests and the delivery\<close>

text \<open>Only \<^verbatim>\<open>sendOutput\<close> touches the writes its goroutines hold.\<close>

lemma sending_folds [simp]:
  "dm_sending (fold (sendJSON E a) ms d) = dm_sending d" "dm_sending (fold (send_history E a) ms d) = dm_sending d"
  "dm_sending (on_pty r d) = dm_sending d" "dm_sending (on_proxy E a pr d) = dm_sending d"
  "dm_sending (snd (sendBytesCancelable E f d)) = dm_sending d" "dm_sending (reset_secure d) = dm_sending d"
proof -
  show "dm_sending (fold (sendJSON E a) ms d) = dm_sending d" by (induction ms arbitrary: d) simp_all
  show "dm_sending (fold (send_history E a) ms d) = dm_sending d" by (induction ms arbitrary: d) simp_all
  show "dm_sending (on_pty r d) = dm_sending d" by (simp add: on_pty_def)
  have "dm_sending (proxy_act E a x d) = dm_sending d" for x d by (cases x) simp_all
  then have "dm_sending (fold (proxy_act E a) xs d) = dm_sending d" for xs d
    by (induction xs arbitrary: d) simp_all
  then show "dm_sending (on_proxy E a pr d) = dm_sending d" by (simp add: on_proxy_def)
  show "dm_sending (snd (sendBytesCancelable E f d)) = dm_sending d"
    by (simp add: sendBytesCancelable_def route_frame_def split: prod.splits)
  show "dm_sending (reset_secure d) = dm_sending d" by (simp add: reset_secure_def)
qed

lemma sending_handlers:
  "dm_sending (handleCreateSession E a msg d) = dm_sending d" "dm_sending (handleSessionList E a d) = dm_sending d"
  "dm_sending (handleHistory E a msg d) = dm_sending d" "dm_sending (handlePushPause E a msg d) = dm_sending d"
  "dm_sending (handleDestroySession msg d) = dm_sending d" "dm_sending (markInput a d) = dm_sending d"
  "dm_sending (handleChannelSelect E a msg d) = dm_sending d"
  "dm_sending (handleFileRequest E a msg d) = dm_sending d"
  "dm_sending (snd (stage_file E a d)) = dm_sending d" "dm_sending (handleReqPending E a d) = dm_sending d"
  "dm_sending (on_sec E a r d) = dm_sending d" "dm_sending (replenishPool E a d) = dm_sending d"
  "dm_sending (send_dir E a p ms d) = dm_sending d"
proof -
  show "dm_sending (snd (stage_file E a d)) = dm_sending d"
    by (auto simp: stage_file_def split: prod.splits sum.splits)
  then show "dm_sending (handleReqPending E a d) = dm_sending d"
    by (auto simp: handleReqPending_def split: prod.splits option.splits)
  show "dm_sending (send_dir E a p ms d) = dm_sending d"
    by (induction E a p ms d rule: send_dir.induct) (simp_all add: backpressure_direct)
qed (auto simp: handleCreateSession_def handleSessionList_def handleHistory_def unmutePush_def handlePushPause_def
    handleDestroySession_def markInput_def handleChannelSelect_def handleFileRequest_def on_sec_def
    replenishPool_def Let_def split: prod.splits sum.splits option.splits)

lemma sending_offline: "handlePeerOffline a d = Some d' \<Longrightarrow> dm_sending d' = dm_sending d"
  by (auto simp: handlePeerOffline_def close_tunnels_def dest!: cancel_transfers_fields split: if_splits)

lemma sending_kicked: "handleKicked a msg d = Some d' \<Longrightarrow> dm_sending d' = dm_sending d"
  by (auto simp: handleKicked_def close_tunnels_def CloseRTC_def dest!: cancel_transfers_fields split: if_splits)

lemma sending_gatedE:
  assumes "gated E a h d = Some d'" and "h d = Some d' \<Longrightarrow> dm_sending d' = dm_sending d"
  shows "dm_sending d' = dm_sending d"
  using assms by (auto simp: gated_def split: if_splits)

lemma sending_dispatch: "dispatch E a msg d = Some d' \<Longrightarrow> dm_sending d' = dm_sending d"
  unfolding dispatch_def Let_def
  by (elim ifSomeE; (erule sending_gatedE)?;
      auto simp: sending_handlers handleFileSendCancel_def handleFileDelete_def
        dest!: sending_offline sending_kicked split: if_splits)

fun outputs_step :: "devent \<Rightarrow> bool" where
  "outputs_step (DvOutputBegin a sid data q) \<longleftrightarrow> True"
| "outputs_step (DvOutputEnd a n) \<longleftrightarrow> True"
| "outputs_step _ \<longleftrightarrow> False"

lemma sending_step:
  assumes "dstep E st d = Some d'" and "\<not> outputs_step st"
  shows "dm_sending d' = dm_sending d"
proof (cases st)
  case (DvMessage a msg)
  with assms show ?thesis
    by (auto simp: handleMessage_def split: prod.splits option.splits dest!: sending_dispatch)
next
  case (DvBinary a data)
  with assms show ?thesis by (auto simp: handleBinary_def Let_def split: prod.splits option.splits)
next
  case (DvSignal a raw)
  with assms show ?thesis
    by (auto simp: handleP2PSignal_def handleP2PICE_def Let_def dest!: sending_offline split: if_splits option.splits)
qed (use assms in \<open>auto simp: sending_handlers session_exited_def answerer_begin_def CloseRTC_def answerer_answered_def
    rtc_up_def answerer_failed_def answerer_disconnected_def relay_up_def relay_down_def relay_lost_def
    close_tunnels_def wsSendRaw_def AttachLocalSession_def DetachLocalSession_def CreateSession_def
    DestroySession_def LocalTakeover_def LocalSetCode_def LocalUnsetCode_def PushSecStatusUpdate_def Stop_def Let_def
    split: option.splits if_splits prod.splits dest!: cancel_transfers_fields\<close>)

section \<open>Reachable states\<close>

text \<open>
  \<open>undisturbed\<close>: no event takes the keys away while a write is between the tests of
  \<^verbatim>\<open>sendOutput\<close> and its delivery. Nothing in the code prevents it, and a write caught so goes out in
  the clear: see \<open>switch_races_output\<close>.
\<close>

definition undisturbed :: "'t daemon \<Rightarrow> 't daemon \<Rightarrow> bool" where
  "undisturbed d d' \<longleftrightarrow>
     (secureActive (dm_sec d) \<and> \<not> secureActive (dm_sec d') \<longrightarrow> dm_sending d = [])"

inductive reachable :: "'t daemon_env \<Rightarrow> 't daemon \<Rightarrow> bool" for E where
  start: "reachable E (NewDaemon key codeSet)"
| event: "reachable E d \<Longrightarrow> calm E st d \<Longrightarrow> dstep E st d = Some d' \<Longrightarrow> undisturbed d d' \<Longrightarrow> reachable E d'"

definition settled :: "'t daemon \<Rightarrow> bool" where
  "settled d \<longleftrightarrow> secureActive (dm_sec d) \<or> dm_sending d = []"

lemma deliver_keeps [simp]:
  "dm_sending (output_deliver E a sid data q d) = dm_sending d"
  "secureActive (dm_sec (output_deliver E a sid data q d)) = secureActive (dm_sec d)"
  "dm_muted (output_deliver E a sid data q d) = dm_muted d"
  by (simp_all add: output_deliver_def)

lemma settled_step:
  assumes "guarded d" and "settled d" and "dstep E st d = Some d'" and "undisturbed d d'"
  shows "settled d'"
proof (cases "outputs_step st")
  case False
  from sending_step [OF assms(3) this] assms(2,4) show ?thesis by (auto simp: settled_def undisturbed_def)
next
  case True
  then show ?thesis
  proof (cases st)
    case (DvOutputBegin a sid data q)
    with assms show ?thesis
      by (auto simp: output_begin_def output_admitted_def settled_def guarded_def Let_def split: if_splits)
  next
    case (DvOutputEnd a n)
    with assms show ?thesis by (auto simp: output_end_def settled_def split: if_splits prod.splits)
  qed simp_all
qed

lemma guarded_init: "guarded (NewDaemon key codeSet)"
  by (simp add: guarded_def NewDaemon_def secure_state0_def batcher0_def)

lemma reachable_settled: "reachable E d \<Longrightarrow> guarded d \<and> settled d"
proof (induction rule: reachable.induct)
  case (start key codeSet)
  show ?case using guarded_init by (simp add: settled_def NewDaemon_def)
next
  case (event d st d')
  then have "guarded d'" using guarded_step unfolding settled_def by blast
  moreover from event have "settled d'" using settled_step by blast
  ultimately show ?case ..
qed

lemma reachable_guarded: "reachable E d \<Longrightarrow> guarded d"
  using reachable_settled by blast

section \<open>An app without the handshake\<close>

definition open_types :: "string list" where
  "open_types = [TypePakeReply, TypeSecOK, TypeSecureReady, TypeSecCodeError, TypeError, TypePong,
     TypeChannelSelected]"

fun harmless :: "effect \<Rightarrow> bool" where
  "harmless (SentP2P m) \<longleftrightarrow> isEncryptedType (Type m) \<or> Type m \<in> set open_types"
| "harmless (SentRelay m) \<longleftrightarrow> isEncryptedType (Type m) \<or> Type m \<in> set open_types"
| "harmless DrainRelay \<longleftrightarrow> True"
| "harmless (ExitProcess _) \<longleftrightarrow> True"
| "harmless _ \<longleftrightarrow> False"

text \<open>No session, no subscription, no staged file and no tunnel more than before, and harmless effects.\<close>

definition inert :: "'t daemon \<Rightarrow> 't daemon \<Rightarrow> bool" where
  "inert d d' \<longleftrightarrow> dm_pty d' = dm_pty d \<and> dm_sub d' \<subseteq> dm_sub d
     \<and> ft_staged (dm_files d') = ft_staged (dm_files d)
     \<and> px_conns (dm_proxy d') \<subseteq>\<^sub>m px_conns (dm_proxy d) \<and> px_wsConns (dm_proxy d') \<subseteq>\<^sub>m px_wsConns (dm_proxy d)
     \<and> (\<exists>es. dm_out d' = dm_out d @ es \<and> list_all harmless es)"

lemma map_le_del: "m(k := None) \<subseteq>\<^sub>m m"
  by (auto simp: map_le_def)

lemma inert_refl: "inert d d"
  by (simp add: inert_def)

lemma inert_trans: "inert a b \<Longrightarrow> inert b c \<Longrightarrow> inert a c"
  by (auto simp: inert_def intro: map_le_trans)

lemma inert_talks: "talks harmless d d' \<Longrightarrow> inert d d'"
  by (cases d; cases d') (auto simp: talks_def inert_def list_all_iff)

text \<open>What the batcher holds for an app that is not verified leaves encrypted, if anything is there.\<close>

definition quiet :: "'t daemon \<Rightarrow> bool" where
  "quiet d \<longleftrightarrow> (secureActive (dm_sec d) \<or> idle (dm_batcher d)) \<and> wire (dm_batcher d) = []"

lemma flush_wire:
  assumes "quiet d" and "m \<in> set (wire (FlushAll ids (dm_batcher d)))"
  shows "Type m = TypeOutput \<and> secureActive (dm_sec d)"
  using assms batcher_step_wire [of "dm_batcher d" "OpFlushAll ids"]
  by (auto simp: quiet_def idle_FlushAll_eq)

lemma flush_harmless:
  assumes "quiet d" and "m \<in> set (wire (FlushAll ids (dm_batcher d)))" and "same_gate (dm_sec d) s"
    and "sendable s m w"
  shows "harmless (SentP2P w) \<and> harmless (SentRelay w)"
  using flush_wire [OF assms(1,2)] assms(3,4)
  by (auto simp: sendable_def same_gate_def isPlaintextExempt_def plaintextExemptTypes_def)

lemma inert_flush:
  assumes "quiet d"
  shows "inert d (flushAll E a d) \<and> quiet (flushAll E a d)"
proof -
  have "talks harmless d (flushAll E a d)"
    unfolding flushAll_def by (rule talks_on_batcher) (rule flush_harmless [OF assms])
  then have "inert d (flushAll E a d)" by (rule inert_talks)
  moreover have "quiet (flushAll E a d)" using assms by (auto simp: quiet_def idle_def idle_FlushAll_eq)
  ultimately show ?thesis ..
qed

lemma inert_json:
  assumes "quiet d" and "Type m \<in> set open_types"
  shows "inert d (sendJSON E a m d) \<and> quiet (sendJSON E a m d)"
proof -
  have "talks harmless d (sendJSON E a m d)"
    by (rule talks_sendJSON, rule flush_harmless [OF assms(1)]) (use assms(2) in \<open>auto simp: sendable_def\<close>)
  then have "inert d (sendJSON E a m d)" by (rule inert_talks)
  moreover have "quiet (sendJSON E a m d)" using assms(1) by (auto simp: quiet_def idle_def idle_FlushAll_eq)
  ultimately show ?thesis by blast
qed

lemma inert_each:
  "quiet d \<Longrightarrow> \<forall>m \<in> set ms. Type m \<in> set open_types \<Longrightarrow> inert d (send_each E a ms d)"
  unfolding send_each_def
proof (induction ms arbitrary: d)
  case (Cons m ms)
  have "inert d (sendJSON E a m d)" "quiet (sendJSON E a m d)"
    using inert_json [OF Cons.prems(1)] Cons.prems(2) by auto
  moreover have "inert (sendJSON E a m d) (fold (sendJSON E a) ms (sendJSON E a m d))"
    using Cons calculation(2) by simp
  ultimately show ?case using inert_trans by auto
qed (simp add: inert_refl)

lemma inert_gated:
  assumes "gated E a h d = Some d'" and "\<not> secCodeVerified (dm_sec d)" and "quiet d"
  shows "inert d d' \<and> \<not> secCodeVerified (dm_sec d')"
  using assms inert_json [OF assms(3)] by (auto simp: gated_def open_types_def)

lemma inert_set_sec: "inert d (set_sec s d)"
  by (simp add: inert_def)

lemma inert_on_sec:
  assumes "quiet d" and "\<forall>m \<in> set (fst r). Type m \<in> set open_types"
    and "secureActive (dm_sec d) \<longrightarrow> secureActive (snd r)"
  shows "inert d (on_sec E a r d)"
proof -
  have "quiet (set_sec (snd r) d)" using assms(1,3) by (auto simp: quiet_def)
  from inert_trans [OF inert_set_sec inert_each [OF this assms(2)]] show ?thesis by (simp add: on_sec_def)
qed

lemma on_sec_gate [simp]: "secCodeVerified (dm_sec (on_sec E a r d)) = secCodeVerified (snd r)"
  by (simp add: on_sec_def)

lemma CloseAllConns_maps [simp]:
  "px_conns (CloseAllConns ids names p) = Map.empty" "px_wsConns (CloseAllConns ids names p) = Map.empty"
  by (simp_all add: CloseAllConns_def Let_def)

lemma inert_offline:
  "handlePeerOffline a d = Some d' \<Longrightarrow> inert d d' \<and> secCodeVerified (dm_sec d') = secCodeVerified (dm_sec d)"
  by (auto simp: handlePeerOffline_def inert_def close_tunnels_def reset_secure_def resetSecure_def
      dest!: cancel_transfers_fields split: if_splits)

lemma inert_kicked:
  "handleKicked a msg d = Some d' \<Longrightarrow> inert d d' \<and> secCodeVerified (dm_sec d') = secCodeVerified (dm_sec d)"
  by (auto simp: handleKicked_def inert_def close_tunnels_def CloseRTC_def
      dest!: cancel_transfers_fields split: if_splits)

lemma inert_select:
  assumes "quiet d" and "\<not> secCodeVerified (dm_sec d)"
  shows "inert d (handleChannelSelect E a msg d) \<and> \<not> secCodeVerified (dm_sec (handleChannelSelect E a msg d))"
proof (cases "Data msg \<noteq> ''p2p'' \<and> Data msg \<noteq> ''ts''")
  case True
  then show ?thesis using assms(2) by (simp add: handleChannelSelect_def inert_refl)
next
  case False
  define d1 where "d1 = flushAll E a d"
  define d2 where "d2 = (if Data msg = ''p2p''
    then reset_secure (set_sec ((dm_sec d1)\<lparr>secCodeVerified := False\<rparr>) d1) else d1)"
  define d3 where "d3 = d2\<lparr>dm_mode := Data msg\<rparr>"
  define d4 where "d4 = sendJSON E a (Message0\<lparr>Type := TypeChannelSelected, Data := Data msg\<rparr>) d3"
  have eq: "handleChannelSelect E a msg d
      = (if Data msg = ''p2p'' \<and> dm_relay d4 \<noteq> None then happen DrainRelay d4 else d4)"
    using False unfolding handleChannelSelect_def Let_def d1_def d2_def d3_def d4_def by auto
  have 1: "inert d d1" and b: "quiet d1" "\<not> secCodeVerified (dm_sec d1)"
    using inert_flush [OF assms(1)] assms(2) by (simp_all add: d1_def)
  then have 3: "inert d1 d3" "quiet d3" "\<not> secCodeVerified (dm_sec d3)"
    by (auto simp: d2_def d3_def inert_def reset_secure_def resetSecure_def batcher_Reset_def idle_def quiet_def)
  have 4: "inert d3 d4" "\<not> secCodeVerified (dm_sec d4)"
    unfolding d4_def using 3 inert_json [OF 3(2)] by (simp_all add: open_types_def)
  have 5: "inert d4 (happen DrainRelay d4)" by (simp add: inert_def)
  have "inert d d4" using 1 3(1) 4(1) inert_trans by blast
  then have "inert d d4" "inert d (happen DrainRelay d4)" using 5 inert_trans by blast+
  then show ?thesis using 4(2) by (simp add: eq)
qed

text \<open>
  The three messages that no gate guards: a message to a WebSocket tunnel, its closing, and the
  acknowledgement of file chunks. They reach tunnels and transfers that are there, and nothing else.
\<close>

definition ungated :: "string list" where
  "ungated = [TypeProxyWsMessage, TypeProxyWsClose, TypeFileAck]"

definition tunnel_only :: "'t daemon \<Rightarrow> 't daemon \<Rightarrow> bool" where
  "tunnel_only d d' \<longleftrightarrow> dm_pty d' = dm_pty d \<and> dm_sub d' = dm_sub d
     \<and> ft_staged (dm_files d') = ft_staged (dm_files d)
     \<and> px_conns (dm_proxy d') = px_conns (dm_proxy d) \<and> px_wsConns (dm_proxy d') \<subseteq>\<^sub>m px_wsConns (dm_proxy d)
     \<and> secCodeVerified (dm_sec d') = secCodeVerified (dm_sec d)
     \<and> (\<exists>es. dm_out d' = dm_out d @ es
         \<and> (\<forall>e \<in> set es. \<exists>h b data. e = ToProxy (PWsWrite h b data) \<and> h \<in> ran (px_wsConns (dm_proxy d))))"

lemma tunnel_only_dispatch:
  assumes "Type msg \<in> set ungated" and "dispatch E a msg d = Some d'"
  shows "tunnel_only d d'"
proof -
  consider "Type msg = TypeProxyWsMessage" | "Type msg = TypeProxyWsClose" | "Type msg = TypeFileAck"
    using assms(1) by (auto simp: ungated_def)
  then show ?thesis
  proof cases
    case 1
    with assms(2) show ?thesis
      by (auto simp: dispatch_def HandleWsMessage_def on_proxy_def tunnel_only_def removeWsConn_def map_le_del
          intro: ranI split: option.splits if_splits)
  next
    case 2
    with assms(2) show ?thesis
      by (auto simp: dispatch_def HandleWsClose_def tunnel_only_def removeWsConn_def map_le_del split: option.splits)
  next
    case 3
    with assms(2) show ?thesis
      by (auto simp: dispatch_def HandleAck_def tunnel_only_def split: option.splits)
  qed
qed

lemma inert_dispatch:
  assumes v: "\<not> secCodeVerified (dm_sec d)" and b: "quiet d" and d: "dispatch E a msg d = Some d'"
    and g: "Type msg \<notin> set ungated"
  shows "inert d d' \<and> (secCodeVerified (dm_sec d') \<longrightarrow> Type msg = TypeSecConfirm)"
proof -
  have "inert d (on_sec E a (handlePakeStart P code ak y msg (dm_sec d)) d)
      \<and> \<not> secCodeVerified (snd (handlePakeStart P code ak y msg (dm_sec d)))" for P code ak y
    using pake_start_gate [of P code ak y msg "dm_sec d"] v
    by (cases "handlePakeStart P code ak y msg (dm_sec d)")
      (auto simp: same_gate_def open_types_def intro!: inert_on_sec [OF b])
  moreover have "inert d (on_sec E a (handleSecConfirm P msg (dm_sec d)) d)" for P
    using sec_confirm_gate [of P msg "dm_sec d"]
    by (cases "handleSecConfirm P msg (dm_sec d)") (auto simp: open_types_def intro!: inert_on_sec [OF b])
  moreover have "inert d (sendJSON E a (Message0\<lparr>Type := TypePong\<rparr>) d)"
    using inert_json [OF b] by (simp add: open_types_def)
  ultimately show ?thesis
    using d unfolding dispatch_def Let_def
    by (elim ifSomeE)
      (use v g in \<open>auto simp: inert_refl inert_select [OF b v] ungated_def
        dest!: inert_gated [OF _ v b] inert_offline inert_kicked\<close>)
qed

definition app_type :: "'t daemon_env \<Rightarrow> Message \<Rightarrow> 't daemon \<Rightarrow> string option" where
  "app_type E msg d =
     map_option Type (fst (unwrapIncomingJSON (ev_aead E) (ev_unmarshal E) msg (dm_sec d)))"

lemma inert_message:
  assumes v: "\<not> secCodeVerified (dm_sec d)" and q: "quiet d" and d: "handleMessage E a msg d = Some d'"
  shows "(secCodeVerified (dm_sec d') \<longrightarrow> app_type E msg d = Some TypeSecConfirm)
    \<and> (case app_type E msg d of
         Some t \<Rightarrow> if t \<in> set ungated then tunnel_only d d' else inert d d'
       | None \<Rightarrow> inert d d')"
proof -
  obtain r s where u: "unwrapIncomingJSON (ev_aead E) (ev_unmarshal E) msg (dm_sec d) = (r, s)" by fastforce
  then have gate: "same_gate (dm_sec d) s" using wrap_same_gate(3) by (metis snd_conv)
  show ?thesis
  proof (cases r)
    case None
    with u assms gate show ?thesis
      by (auto simp: handleMessage_def inert_set_sec same_gate_def app_type_def)
  next
    case (Some m)
    have dp: "dispatch E a m (set_sec s d) = Some d'" using d u Some by (simp add: handleMessage_def)
    have v': "\<not> secCodeVerified (dm_sec (set_sec s d))" and q': "quiet (set_sec s d)"
      using v q gate by (auto simp: same_gate_def quiet_def)
    show ?thesis
    proof (cases "Type m \<in> set ungated")
      case True
      have "tunnel_only (set_sec s d) d'" by (rule tunnel_only_dispatch [OF True dp])
      with gate have "tunnel_only d d'" by (auto simp: tunnel_only_def same_gate_def)
      with True u Some v show ?thesis by (simp add: app_type_def tunnel_only_def)
    next
      case False
      from inert_dispatch [OF v' q' dp False] inert_trans [OF inert_set_sec] u Some False
      show ?thesis by (auto simp: app_type_def)
    qed
  qed
qed

section \<open>A paused session\<close>

definition paused :: "string \<Rightarrow> 't daemon \<Rightarrow> bool" where
  "paused sid d \<longleftrightarrow> sid \<in> dm_muted d \<and> bufs (dm_batcher d) sid = None"

lemma walks_None:
  "all_jobs ids m = (js, m') \<Longrightarrow> m i = None \<Longrightarrow> m' i = None"
  "due_jobs now dl ids m = (js, m') \<Longrightarrow> m i = None \<Longrightarrow> m' i = None"
  "seal_jobs h ids m = (js, m') \<Longrightarrow> m i = None \<Longrightarrow> m' i = None"
proof -
  show "all_jobs ids m = (js, m') \<Longrightarrow> m i = None \<Longrightarrow> m' i = None"
    by (induction ids m arbitrary: js m' rule: all_jobs.induct) (auto split: option.splits prod.splits if_splits)
  show "due_jobs now dl ids m = (js, m') \<Longrightarrow> m i = None \<Longrightarrow> m' i = None"
    by (induction now dl ids m arbitrary: js m' rule: due_jobs.induct)
      (auto split: option.splits prod.splits if_splits)
  show "seal_jobs h ids m = (js, m') \<Longrightarrow> m i = None \<Longrightarrow> m' i = None"
  proof (induction h ids m arbitrary: js m' rule: seal_jobs.induct)
    case (2 h j ids m)
    show ?case
    proof (cases "m j")
      case None
      with 2 show ?thesis by simp
    next
      case (Some u)
      with 2 have "j \<noteq> i" by auto
      with 2 Some show ?thesis by (simp add: Let_def split: prod.splits if_splits)
    qed
  qed simp
qed

lemma bufs_None [simp]:
  "bufs b i = None \<Longrightarrow> bufs (FlushAll ids b) i = None"
  "bufs b i = None \<Longrightarrow> bufs (SealAt h ids b) i = None"
  "bufs b i = None \<Longrightarrow> bufs (batcher_tick x now ids b) i = None"
  "bufs b i = None \<Longrightarrow> i \<noteq> j \<Longrightarrow> bufs (batcher_Add j data q now b) i = None"
  "bufs (batcher_Reset b) i = None"
  by (auto simp: FlushAll_def SealAt_def batcher_tick_def batcher_Add_def batcher_Reset_def FlushSession_def
      Let_def split: prod.splits option.splits intro: walks_None)

lemma paused_fields [simp]:
  "paused i (d\<lparr>dm_sending := ws\<rparr>) = paused i d"
  "paused i (d\<lparr>dm_sub := x1\<rparr>) = paused i d"
  "paused i (d\<lparr>dm_pty := x2\<rparr>) = paused i d" "paused i (d\<lparr>dm_files := x3\<rparr>) = paused i d"
  "paused i (d\<lparr>dm_proxy := x4\<rparr>) = paused i d" "paused i (d\<lparr>dm_mode := x5\<rparr>) = paused i d"
  "paused i (d\<lparr>dm_rtc := x6\<rparr>) = paused i d" "paused i (d\<lparr>dm_relay := x6\<rparr>) = paused i d"
  "paused i (d\<lparr>dm_pendingICE := x7\<rparr>) = paused i d" "paused i (d\<lparr>dm_pendingICEMode := b\<rparr>) = paused i d"
  "paused i (d\<lparr>dm_kicked := b\<rparr>) = paused i d" "paused i (d\<lparr>dm_lastInputAt := n\<rparr>) = paused i d"
  "paused i (d\<lparr>dm_stopped := b\<rparr>) = paused i d"
  "paused i (happen e d) = paused i d" "paused i (set_sec s d) = paused i d"
  by (simp_all add: paused_def)

lemma paused_talk [simp]:
  "paused i d \<Longrightarrow> paused i (sendJSONDirect E m d)" "paused i d \<Longrightarrow> paused i (flushAll E a d)"
  "paused i d \<Longrightarrow> paused i (sendJSON E a m d)" "paused i d \<Longrightarrow> paused i (sendBytes E f d)"
  "paused i d \<Longrightarrow> paused i (snd (sendBytesCancelable E f d))"
  "paused i d \<Longrightarrow> paused i (send_history E a m d)" "paused i d \<Longrightarrow> paused i (reset_secure d)"
  "paused i d \<Longrightarrow> bufs (g (dm_batcher d)) i = None \<Longrightarrow> paused i (on_batcher E g d)"
proof -
  show "paused i d \<Longrightarrow> paused i (snd (sendBytesCancelable E f d))"
    by (auto simp: paused_def sendBytesCancelable_def route_frame_def split: prod.splits)
qed (auto simp: paused_def send_history_def backpressure_direct reset_secure_def)

lemma paused_folds [simp]:
  "paused i d \<Longrightarrow> paused i (fold happen es d)" "paused i d \<Longrightarrow> paused i (fold (sendJSON E a) ms d)"
  "paused i d \<Longrightarrow> paused i (send_each E a ms d)" "paused i d \<Longrightarrow> paused i (fold (send_history E a) ms d)"
  "paused i d \<Longrightarrow> paused i (on_pty r d)" "paused i d \<Longrightarrow> paused i (on_proxy E a pr d)"
proof -
  have happens: "paused i d \<Longrightarrow> paused i (fold happen es d)" for es d
    by (induction es arbitrary: d) simp_all
  then show "paused i d \<Longrightarrow> paused i (fold happen es d)" .
  show "paused i d \<Longrightarrow> paused i (on_pty r d)" by (simp add: on_pty_def happens)
  show each: "paused i d \<Longrightarrow> paused i (fold (sendJSON E a) ms d)" for d
    by (induction ms arbitrary: d) simp_all
  then show "paused i d \<Longrightarrow> paused i (send_each E a ms d)" by (simp add: send_each_def)
  show "paused i d \<Longrightarrow> paused i (fold (send_history E a) ms d)" for d
    by (induction ms arbitrary: d) simp_all
  have act: "paused i d \<Longrightarrow> paused i (proxy_act E a x d)" for x d by (cases x) simp_all
  then have "paused i d \<Longrightarrow> paused i (fold (proxy_act E a) xs d)" for xs d
    by (induction xs arbitrary: d) simp_all
  then show "paused i d \<Longrightarrow> paused i (on_proxy E a pr d)" by (simp add: on_proxy_def)
qed

fun lifts :: "'t daemon_env \<Rightarrow> string \<Rightarrow> devent \<Rightarrow> 't daemon \<Rightarrow> bool" where
  "lifts E sid (DvMessage a msg) d \<longleftrightarrow>
     (case fst (unwrapIncomingJSON (ev_aead E) (ev_unmarshal E) msg (dm_sec d)) of
        None \<Rightarrow> False
      | Some m \<Rightarrow> Type m = TypeKicked \<or> Type m = TypeRequestHistory \<and> SessionID m = sid)"
| "lifts E sid (DvExited a s code) d \<longleftrightarrow> s = sid"
| "lifts E sid _ d \<longleftrightarrow> False"

lemma paused_handlers:
  assumes "paused i d"
  shows "paused i (handleCreateSession E a msg d)" "paused i (handleSessionList E a d)"
    "SessionID msg \<noteq> i \<Longrightarrow> paused i (handleHistory E a msg d)" "paused i (handlePushPause E a msg d)"
    "paused i (handleDestroySession msg d)" "paused i (markInput a d)"
    "paused i (output_broadcast a sid data d)" "sid \<noteq> i \<Longrightarrow> paused i (output_deliver E a sid data q d)"
    "paused i (send_dir E a p ms d)" "paused i (handleChannelSelect E a msg d)"
    "paused i (handleFileRequest E a msg d)" "paused i (snd (stage_file E a d))"
    "paused i (handleReqPending E a d)" "paused i (on_sec E a r d)"
    "paused i (replenishPool E a d)"
proof -
  have pause: "paused i (d\<lparr>dm_muted := M\<rparr>)" if "paused i d" "i \<in> M" for d :: "'a daemon" and M
    using that by (simp add: paused_def)
  show "paused i (handleCreateSession E a msg d)"
    using assms by (auto simp: handleCreateSession_def Let_def split: prod.splits sum.splits option.splits)
  show "paused i (handleSessionList E a d)" using assms by (simp add: handleSessionList_def)
  have "paused i (unmutePush (SessionID msg) d)" if "SessionID msg \<noteq> i"
    using assms that by (simp add: unmutePush_def paused_def)
  then show "paused i (handleHistory E a msg d)" if "SessionID msg \<noteq> i"
    using that by (auto simp: handleHistory_def Let_def paused_def [of i "unmutePush (SessionID msg) d"]
        split: prod.splits)
  have "i \<in> dm_muted d" using assms by (simp add: paused_def)
  then show "paused i (handlePushPause E a msg d)"
    using assms by (auto simp: handlePushPause_def Let_def intro!: pause)
  show "paused i (handleDestroySession msg d)" using assms by (simp add: handleDestroySession_def Let_def)
  show "paused i (markInput a d)" using assms by (simp add: markInput_def)
  show "paused i (output_broadcast a sid data d)" using assms by (simp add: output_broadcast_def Let_def)
  show "paused i (output_deliver E a sid data q d)" if "sid \<noteq> i"
    using assms that by (auto simp: output_deliver_def paused_def)
  show "paused i (send_dir E a p ms d)"
    using assms by (induction E a p ms d rule: send_dir.induct) (simp_all add: backpressure_direct)
  show "paused i (handleChannelSelect E a msg d)"
    using assms by (simp add: handleChannelSelect_def Let_def)
  show "paused i (handleFileRequest E a msg d)"
    using assms by (auto simp: handleFileRequest_def split: prod.splits sum.splits)
  show "paused i (snd (stage_file E a d))"
    using assms by (auto simp: stage_file_def split: prod.splits sum.splits)
  then show "paused i (handleReqPending E a d)"
    by (auto simp: handleReqPending_def split: prod.splits option.splits)
  show "paused i (on_sec E a r d)" using assms by (simp add: on_sec_def)
  show "paused i (replenishPool E a d)" using assms by (simp add: replenishPool_def)
qed

lemma paused_offline: "paused i d \<Longrightarrow> handlePeerOffline a d = Some d' \<Longrightarrow> paused i d'"
  by (auto simp: handlePeerOffline_def close_tunnels_def dest!: cancel_transfers_fields split: if_splits)

lemma paused_gatedE:
  assumes "gated E a h d = Some d'" and "paused i d" and "h d = Some d' \<Longrightarrow> paused i d'"
  shows "paused i d'"
  using assms by (auto simp: gated_def split: if_splits)

lemma paused_dispatch:
  assumes p: "paused i d" and n: "Type msg \<noteq> TypeKicked" "Type msg = TypeRequestHistory \<Longrightarrow> SessionID msg \<noteq> i"
    and d: "dispatch E a msg d = Some d'"
  shows "paused i d'"
proof -
  note h = paused_handlers
  show ?thesis
    by (insert d [unfolded dispatch_def Let_def], elim ifSomeE; (erule paused_gatedE [OF _ p])?;
        (use p n in \<open>auto simp: h handleFileSendCancel_def handleFileDelete_def split: if_splits
          elim: paused_offline [OF p]\<close>))
qed

lemma paused_message:
  assumes "paused i d" and "\<not> lifts E i (DvMessage a msg) d" and "handleMessage E a msg d = Some d'"
  shows "paused i d'"
proof -
  obtain r s where u: "unwrapIncomingJSON (ev_aead E) (ev_unmarshal E) msg (dm_sec d) = (r, s)" by fastforce
  show ?thesis
  proof (cases r)
    case None
    with u assms show ?thesis by (auto simp: handleMessage_def)
  next
    case (Some m)
    have "dispatch E a m (set_sec s d) = Some d'" using assms(3) u Some by (simp add: handleMessage_def)
    from paused_dispatch [OF _ _ _ this, of i] assms(1,2) u Some show ?thesis by auto
  qed
qed

definition held :: "'t daemon \<Rightarrow> string set" where
  "held d = fst ` set (dm_sending d)"

lemma held_step:
  assumes "i \<in> dm_muted d" and "i \<notin> held d" and "dstep E st d = Some d'"
  shows "i \<notin> held d'"
proof (cases "outputs_step st")
  case False
  from sending_step [OF assms(3) this] assms(2) show ?thesis by (simp add: held_def)
next
  case True
  then show ?thesis
    by (cases st) (use assms in \<open>fastforce simp: output_begin_def output_end_def output_admitted_def held_def Let_def
        dest: in_set_takeD in_set_dropD split: if_splits prod.splits\<close>)+
qed

lemma paused_step:
  assumes p: "paused i d" and h: "i \<notin> held d" and n: "\<not> lifts E i st d" and d: "dstep E st d = Some d'"
  shows "paused i d'"
proof (cases st)
  case (DvMessage a msg)
  with assms paused_message show ?thesis by (metis dstep.simps(1))
next
  case (DvBinary a data)
  with p d show ?thesis
    by (auto simp: handleBinary_def Let_def split: prod.splits option.splits)
next
  case (DvSignal a raw)
  have "paused i (set_sec s d)" for s using p by simp
  with p d DvSignal show ?thesis
    by (auto simp: handleP2PSignal_def handleP2PICE_def Let_def elim: paused_offline
        split: if_splits option.splits)
next
  case (DvTick a x now)
  with p d show ?thesis by (auto simp: paused_def)
next
  case (DvExited a s code)
  have "paused i (d\<lparr>dm_sub := S, dm_muted := dm_muted d - {s}\<rparr>)" for S
    using p n DvExited by (auto simp: paused_def)
  with d DvExited show ?thesis by (auto simp: session_exited_def paused_handlers)
next
  case (DvOutputEnd a n)
  have "paused i (output_deliver E a sid data q (d\<lparr>dm_sending := ws\<rparr>))"
    if "dm_sending d ! n = (sid, data, q)" and "n < length (dm_sending d)" for sid data q ws
  proof -
    have "sid \<noteq> i" using h nth_mem [OF that(2)] that(1) by (force simp: held_def)
    then show ?thesis using p by (intro paused_handlers) simp_all
  qed
  with p d DvOutputEnd show ?thesis by (auto simp: output_end_def split: if_splits prod.splits)
next
  case (DvOutputBegin a sid data q)
  with p d show ?thesis by (auto simp: output_begin_def Let_def paused_handlers)
qed (use p d in \<open>auto simp: paused_handlers answerer_begin_def CloseRTC_def answerer_answered_def
    rtc_up_def answerer_failed_def answerer_disconnected_def relay_up_def relay_down_def relay_lost_def
    close_tunnels_def wsSendRaw_def AttachLocalSession_def DetachLocalSession_def CreateSession_def
    DestroySession_def LocalTakeover_def LocalSetCode_def LocalUnsetCode_def PushSecStatusUpdate_def Stop_def Let_def
    split: option.splits if_splits prod.splits dest!: cancel_transfers_fields\<close>)

fun drun :: "'t daemon_env \<Rightarrow> devent list \<Rightarrow> 't daemon \<Rightarrow> 't daemon option" where
  "drun E [] d = Some d"
| "drun E (st # sts) d = Option.bind (dstep E st d) (drun E sts)"

fun never_lifts :: "'t daemon_env \<Rightarrow> string \<Rightarrow> devent list \<Rightarrow> 't daemon \<Rightarrow> bool" where
  "never_lifts E i [] d \<longleftrightarrow> True"
| "never_lifts E i (st # sts) d \<longleftrightarrow>
     \<not> lifts E i st d \<and> (case dstep E st d of None \<Rightarrow> True | Some d' \<Rightarrow> never_lifts E i sts d')"

lemma paused_run:
  "paused i d \<Longrightarrow> i \<notin> held d \<Longrightarrow> never_lifts E i sts d \<Longrightarrow> drun E sts d = Some d' \<Longrightarrow>
   paused i d' \<and> i \<notin> held d'"
proof (induction sts arbitrary: d)
  case (Cons st sts)
  then obtain d1 where d1: "dstep E st d = Some d1" "drun E sts d1 = Some d'"
    by (auto simp: bind_eq_Some_conv)
  with Cons.prems have "paused i d1" "i \<notin> held d1"
    by (auto intro: paused_step) (auto simp: paused_def dest: held_step [rotated 2])
  with Cons.IH d1 Cons.prems(3) show ?case by simp
qed simp

lemma all_jobs_covers: "all_jobs ids m = (js, m') \<Longrightarrow> i \<in> set ids \<Longrightarrow> m' i = None"
proof (induction ids m arbitrary: js m' rule: all_jobs.induct)
  case (2 j ids m)
  show ?case
  proof (cases "m j")
    case None
    with 2 walks_None(1) show ?thesis by auto
  next
    case (Some u)
    then obtain k where k: "all_jobs ids (m(j := None)) = (k, m')"
      using 2(3) by (auto split: prod.splits if_splits)
    show ?thesis
    proof (cases "i = j")
      case True
      with walks_None(1) [OF k] show ?thesis by simp
    next
      case False
      with 2(2) [OF Some k] 2(4) show ?thesis by simp
    qed
  qed
qed simp

lemma push_pause_pauses:
  assumes "SessionID msg = i \<and> i \<noteq> [] \<or> SessionID msg = [] \<and> i \<in> dm_sub d"
    and "dom (bufs (dm_batcher d)) \<subseteq> set (an_ids a)"
  shows "paused i (handlePushPause E a msg d)"
proof -
  have "bufs (FlushAll (an_ids a) (dm_batcher d)) i = None"
  proof (cases "i \<in> set (an_ids a)")
    case True
    then show ?thesis by (auto simp: FlushAll_def split: prod.splits intro: all_jobs_covers)
  next
    case False
    then show ?thesis using assms(2) by (intro bufs_None) blast
  qed
  then show ?thesis using assms by (auto simp: handlePushPause_def Let_def paused_def)
qed

lemma fold_happen: "fold happen es d = d\<lparr>dm_out := dm_out d @ es\<rparr>"
  by (induction es arbitrary: d) (simp_all add: happen_def)

lemma paused_output:
  "paused i d \<Longrightarrow> \<exists>bs. sendOutput E a i data q d = d\<lparr>dm_out := dm_out d @ map ToPty bs\<rparr>"
  by (auto simp: sendOutput_def output_broadcast_def output_admitted_def Let_def fold_happen paused_def)

section \<open>A concrete daemon\<close>

definition demo_env :: "byte list daemon_env" where
  "demo_env = \<lparr>ev_emu = log_emulator, ev_cfg = demo_config, ev_pake = toy_env, ev_aead = tag_aead,
     ev_unmarshal = (\<lambda>_. None), ev_isExecutable = (\<lambda>_. True), ev_proxyEnabled = False\<rparr>"

definition demo_answers :: answers where
  "demo_answers = \<lparr>an_ids = [], an_tasks = [], an_conns = [], an_names = [], an_controllers = [],
     an_newIDs = [], an_code = [], an_scalar = 1, an_now = 0, an_nowMilli = 0, an_start = (\<lambda>_ _ _ _. Inr 7),
     an_stat = (\<lambda>_. Inl ''none''), an_stage = \<lparr>sg_abs = Inl ''none'', sg_stat = Inl ''none'', sg_time = [],
       sg_open = None, sg_create = None, sg_copy = None, sg_dir = []\<rparr>, an_home = Inl ''none'',
     an_readDir = (\<lambda>_. Inl ''none''), an_writeFails = False, an_systemInfo = [], an_shells = []\<rparr>"

definition demo_daemon :: "byte list daemon" where
  "demo_daemon = relay_up 0 (NewDaemon ''key'' True)"

lemma undisturbed_simps [simp]:
  "\<not> secureActive (dm_sec d) \<Longrightarrow> undisturbed d d'" "secureActive (dm_sec d') \<Longrightarrow> undisturbed d d'"
  by (simp_all add: undisturbed_def)

lemma demo_sec: "dm_sec demo_daemon = secure_state0 True" "\<not> secureActive (secure_state0 True)"
  by (simp_all add: demo_daemon_def relay_up_def NewDaemon_def secure_state0_def secureActive_def)

lemma demo_reachable: "reachable demo_env demo_daemon"
  unfolding demo_daemon_def
  by (rule event [OF start, of _ "DvRelayUp 0"])
    (simp_all add: NewDaemon_def secure_state0_def secureActive_def)

text \<open>An idle, unencrypted daemon sends a message as it is.\<close>

lemma json_idle:
  assumes "idle (dm_batcher d)" and "secure (dm_sec d) = None"
  shows "sendJSON E a m d = route_json m d"
proof -
  have b: "(dm_batcher d)\<lparr>wire := []\<rparr> = dm_batcher d" using assms(1) by (cases "dm_batcher d") (simp add: idle_def)
  have "d\<lparr>dm_batcher := dm_batcher d\<rparr> = d" "d\<lparr>dm_sec := dm_sec d\<rparr> = d" by (cases d; simp)+
  moreover from this have "flushAll E a d = d"
    using assms(1) b by (simp add: flushAll_def on_batcher_def drain_def idle_FlushAll_eq) (simp add: idle_def)
  ultimately show ?thesis
    using assms(2) by (simp add: sendJSON_def sendJSONDirect_def wrapOutgoingJSON_def secureActive_def set_sec_def)
qed

lemma demo_ping:
  "dstep demo_env (DvMessage demo_answers (Message0\<lparr>Type := TypePing\<rparr>)) demo_daemon
     = Some (happen (SentRelay (Message0\<lparr>Type := TypePong\<rparr>)) demo_daemon)"
proof -
  let ?m = "Message0\<lparr>Type := TypePing\<rparr>"
  have u: "unwrapIncomingJSON A g ?m s = (Some ?m, s)" for A g s
    by (simp add: unwrapIncomingJSON_def isEncryptedType_def)
  have i: "idle (dm_batcher demo_daemon)" "secure (dm_sec demo_daemon) = None"
    by (simp_all add: demo_daemon_def relay_up_def NewDaemon_def idle_def batcher0_def secure_state0_def)
  have s: "set_sec (dm_sec demo_daemon) demo_daemon = demo_daemon" by (simp add: set_sec_def)
  have "dispatch demo_env demo_answers ?m demo_daemon
      = Some (sendJSON demo_env demo_answers (Message0\<lparr>Type := TypePong\<rparr>) demo_daemon)"
    by (simp add: dispatch_def)
  also have "\<dots> = Some (happen (SentRelay (Message0\<lparr>Type := TypePong\<rparr>)) demo_daemon)"
    unfolding json_idle [OF i]
    by (simp add: route_json_def demo_daemon_def relay_up_def NewDaemon_def is_connected_def)
  finally show ?thesis by (simp add: handleMessage_def u s)
qed

section \<open>A verified app\<close>

text \<open>A daemon on the relay after a handshake: what it sends of a session goes out encrypted.\<close>

definition live :: "'t daemon \<Rightarrow> bool" where
  "live d \<longleftrightarrow> dm_mode d = [] \<and> dm_relay d = Some (0, True) \<and> secCodeVerified (dm_sec d) \<and> ready (dm_sec d)
     \<and> dm_pty d = NewPTYManager \<and> dm_muted d = {} \<and> dm_sending d = [] \<and> dm_batcher d = batcher0"

lemma ready_active: "ready s \<Longrightarrow> secureActive s"
  by (auto simp: ready_def secureActive_def split: option.splits)

lemma ready_send:
  assumes "ready (dm_sec d)" and "\<not> isPlaintextExempt (Type m)" and "length (marshal_message m) \<le> 24000"
    and "dm_mode d = []" and "dm_relay d = Some (0, True)"
  shows "\<exists>w s. sendJSONDirect E m d = happen (SentRelay w) (set_sec s d) \<and> Type w = outerTypeFor (Type m)
    \<and> ready s \<and> secCodeVerified s = secCodeVerified (dm_sec d)"
proof -
  obtain sc where "secure (dm_sec d) = Some sc" "active sc" "gcmSend sc \<noteq> None"
    using assms(1) by (auto simp: ready_def split: option.splits)
  then show ?thesis
    using assms(2-5)
    by (fastforce simp: sendJSONDirect_def wrapOutgoingJSON_def secureActive_def WrapJSON_def Let_def
        route_json_def is_connected_def ready_def set_sec_def)
qed

lemma plain_relay_send:
  assumes "isPlaintextExempt (Type m) \<or> \<not> secureActive (dm_sec d)" and "idle (dm_batcher d)"
    and "dm_mode d = []" and "dm_relay d = Some (0, True)"
  shows "sendJSON E a m d = happen (SentRelay m) d"
proof -
  have b: "(dm_batcher d)\<lparr>wire := []\<rparr> = dm_batcher d" using assms(2) by (cases "dm_batcher d") (simp add: idle_def)
  have "d\<lparr>dm_batcher := dm_batcher d\<rparr> = d" "d\<lparr>dm_sec := dm_sec d\<rparr> = d" by (cases d; simp)+
  moreover from this have "flushAll E a d = d"
    using assms(2) b by (simp add: flushAll_def on_batcher_def drain_def idle_FlushAll_eq) (simp add: idle_def)
  ultimately show ?thesis
    using assms by (auto simp: sendJSON_def sendJSONDirect_def wrapOutgoingJSON_def set_sec_def route_json_def
        is_connected_def)
qed

lemma unencrypted_passes: "\<not> isEncryptedType (Type m) \<Longrightarrow> unwrapIncomingJSON A u m s = (Some m, s)"
  by (simp add: unwrapIncomingJSON_def)

lemma demo_verified: "\<exists>d. reachable demo_env d \<and> live d"
proof -
  let ?K = "\<lambda>d. dm_mode d = [] \<and> dm_relay d = Some (0, True) \<and> dm_pty d = NewPTYManager \<and> dm_muted d = {}
      \<and> dm_sending d = [] \<and> dm_batcher d = batcher0"
  have K: "?K (happen e d) = ?K d" "?K (set_sec s d) = ?K d" for e s and d :: "byte list daemon" by simp_all
  have K0: "?K demo_daemon" "dm_accessKey demo_daemon = ''key''"
    by (simp_all add: demo_daemon_def relay_up_def NewDaemon_def)
  have idle0: "idle batcher0" by (simp add: idle_def batcher0_def)
  obtain reply s1 keys t s2 where
    1: "handlePakeStart toy_env [] ''key'' 1 toy_start (secure_state0 True) = ([reply], s1)"
    and v1: "secCodeVerified s1 = secCodeVerified (secure_state0 True)" and r: "Type reply = TypePakeReply"
    and 2: "handleSecConfirm toy_env (Message0\<lparr>Type := TypeSecConfirm,
            TagA := EncodeToString (TagA_of toy_hashes keys t)\<rparr>) s1
          = ([Message0\<lparr>Type := TypeSecOK, TagB := EncodeToString (TagB_of toy_hashes keys t)\<rparr>,
              Message0\<lparr>Type := TypeSecureReady\<rparr>], s2)"
    and v2: "secCodeVerified s2" "ready s2"
    using toy_handshake [of "[]" "''key''" "secure_state0 True"] by blast
  let ?c = "Message0\<lparr>Type := TypeSecConfirm, TagA := EncodeToString (TagA_of toy_hashes keys t)\<rparr>"
  let ?ok = "Message0\<lparr>Type := TypeSecOK, TagB := EncodeToString (TagB_of toy_hashes keys t)\<rparr>"
  let ?rd = "Message0\<lparr>Type := TypeSecureReady\<rparr>"
  have a1: "\<not> secureActive s1"
    using pake_start_gate [OF 1] demo_sec(2) by (simp add: same_gate_def)
  define d1 where "d1 = happen (SentRelay reply) (set_sec s1 demo_daemon)"
  have k1: "?K d1" "dm_sec d1 = s1" using K0 K by (simp_all add: d1_def)
  have t: "Type toy_start = TypePakeStart" by (simp add: toy_start_def)
  have env: "an_code demo_answers = []" "an_scalar demo_answers = 1" "ev_pake demo_env = toy_env"
    by (simp_all add: demo_answers_def demo_env_def)
  have same: "set_sec (dm_sec d) d = d" for d :: "byte list daemon" by (cases d) (simp add: set_sec_def)
  have "sendJSON demo_env demo_answers reply (set_sec s1 demo_daemon) = d1"
    unfolding d1_def by (rule plain_relay_send) (use a1 K0 idle0 in simp_all)
  then have "dstep demo_env (DvMessage demo_answers toy_start) demo_daemon = Some d1"
    using 1 K0 by (simp add: handleMessage_def unencrypted_passes t isEncryptedType_def same dispatch_def env
        demo_sec on_sec_def send_each_def)
  then have r1: "reachable demo_env d1"
    by (rule event [OF demo_reachable, rotated])
      (simp_all add: unencrypted_passes t isEncryptedType_def demo_sec)
  define d2 where "d2 = happen (SentRelay ?rd) (happen (SentRelay ?ok) (set_sec s2 d1))"
  have k2: "?K d2" "dm_sec d2 = s2" using k1 K by (simp_all add: d2_def)
  have "sendJSON demo_env demo_answers ?ok (set_sec s2 d1) = happen (SentRelay ?ok) (set_sec s2 d1)"
    by (rule plain_relay_send) (use k1 idle0 in \<open>simp_all add: isPlaintextExempt_def plaintextExemptTypes_def\<close>)
  moreover have "sendJSON demo_env demo_answers ?rd (happen (SentRelay ?ok) (set_sec s2 d1)) = d2"
    unfolding d2_def
    by (rule plain_relay_send) (use k1 idle0 in \<open>simp_all add: isPlaintextExempt_def plaintextExemptTypes_def\<close>)
  ultimately have "dstep demo_env (DvMessage demo_answers ?c) d1 = Some d2"
    using 2 k1 same [of d1] by (simp add: handleMessage_def unencrypted_passes isEncryptedType_def dispatch_def env
        on_sec_def send_each_def)
  then have "reachable demo_env d2"
    by (rule event [OF r1, rotated]) (simp_all add: unencrypted_passes isEncryptedType_def k1 a1)
  with k2 v2 show ?thesis by (auto simp: live_def)
qed

lemma on_batcher_none: "dm_batcher d = batcher0 \<Longrightarrow> f batcher0 = batcher0 \<Longrightarrow> on_batcher E f d = d"
  by (cases d) (simp add: on_batcher_def drain_def batcher0_def)

lemma no_jobs [simp]: "FlushAll ids batcher0 = batcher0" "SealAt h ids batcher0 = batcher0"
  by (simp_all add: FlushAll_def SealAt_def batcher0_def walks_empty send_jobs_def)

lemma live_history:
  assumes "live d"
  shows "\<exists>d'. dstep demo_env (DvMessage demo_answers (Message0\<lparr>Type := TypeRequestHistory,
      SessionID := ''s1''\<rparr>)) d = Some d' \<and> live d' \<and> ''s1'' \<in> dm_sub d'"
proof -
  let ?m = "Message0\<lparr>Type := TypeHistoryData, SessionID := ''s1''\<rparr>"
  have small: "length (marshal_message ?m) \<le> 24000"
    by (simp add: marshal_message_def Message_json_def Message0_def opt_field_defs length_comma_join html_safe_def)
  have same: "set_sec (dm_sec d) d = d" by (cases d) (simp add: set_sec_def)
  have um: "unmutePush ''s1'' d = d" using assms by (cases d) (simp add: unmutePush_def live_def)
  have b: "dm_batcher d = batcher0" using assms by (simp add: live_def)
  obtain w s where w: "sendJSONDirect demo_env ?m d = happen (SentRelay w) (set_sec s d)" "ready s"
      "secCodeVerified s"
    using ready_send [of d ?m demo_env] small assms
    by (auto simp: live_def isPlaintextExempt_def plaintextExemptTypes_def)
  have gh: "GetHistory (ev_emu demo_env) ''s1'' (dm_pty d) = ([], 0)"
    using assms by (simp add: live_def GetHistory_def NewPTYManager_def)
  have hm: "history_messages ''s1'' [] 0 = [?m]"
    by (simp add: history_messages_def string_of_bytes_def Message0_def)
  have cols: "Cols Message0 = 0" by (simp add: Message0_def)
  have "send_history demo_env demo_answers ?m d = happen (SentRelay w) (set_sec s d)"
    using w(1) by (simp add: send_history_def sendJSON_def flushAll_def on_batcher_none b)
  then have "handleHistory demo_env demo_answers (Message0\<lparr>Type := TypeRequestHistory, SessionID := ''s1''\<rparr>) d
      = (happen (SentRelay w) (set_sec s d))\<lparr>dm_sub := insert ''s1'' (dm_sub d)\<rparr>"
    by (simp add: handleHistory_def Let_def um gh on_batcher_none b hm cols)
  then have "dstep demo_env (DvMessage demo_answers (Message0\<lparr>Type := TypeRequestHistory, SessionID := ''s1''\<rparr>)) d
      = Some ((happen (SentRelay w) (set_sec s d))\<lparr>dm_sub := insert ''s1'' (dm_sub d)\<rparr>)"
    using assms by (simp add: handleMessage_def unencrypted_passes isEncryptedType_def same dispatch_def gated_def
        live_def)
  with w assms show ?thesis by (auto simp: live_def)
qed

definition tick_answers :: answers where
  "tick_answers = demo_answers\<lparr>an_ids := [''s1'']\<rparr>"

lemma one_write: "sendBatch ''s1'' [\<lparr>oe_seq = 1, oe_data = [0x68]\<rparr>] = [output_message ''s1'' [0x68] 1 1]"
  by (simp add: sendBatch_def packing0_def pack_write.simps piece_fits_def take_piece_def next_n_def emit_def)

definition one_buffered :: batcher where
  "one_buffered = \<lparr>bufs = [''s1'' \<mapsto> \<lparr>ob_entries = [\<lparr>oe_seq = 1, oe_data = [0x68]\<rparr>], ob_firstAdd = 0,
     ob_lastSeq = 1, ob_rawLen = 1\<rparr>], wire = []\<rparr>"

lemma live_output:
  assumes "live d" and "''s1'' \<in> dm_sub d"
  defines "d1 \<equiv> d\<lparr>dm_sending := [(''s1'', [0x68], 1)]\<rparr>"
  defines "d2 \<equiv> d\<lparr>dm_batcher := one_buffered\<rparr>"
  shows "dstep demo_env (DvOutputBegin demo_answers ''s1'' [0x68] 1) d = Some d1"
    "dstep demo_env (DvOutputEnd demo_answers 0) d1 = Some d2"
    "\<exists>w s. dstep demo_env (DvTick tick_answers False 1000000000) d2
       = Some (happen (SentRelay w) (set_sec s (d\<lparr>dm_batcher := batcher0\<rparr>)))
       \<and> Type w = TypeEncTerm \<and> ready s \<and> secCodeVerified s"
proof -
  show "dstep demo_env (DvOutputBegin demo_answers ''s1'' [0x68] 1) d = Some d1"
    using assms(1,2) by (simp add: d1_def live_def output_begin_def output_broadcast_def pm_Get_def NewPTYManager_def
        output_admitted_def)
  have add: "batcher_Add ''s1'' [0x68] 1 0 batcher0 = one_buffered"
    by (simp add: batcher_Add_def batcher0_def one_buffered_def Let_def)
  have "(d1\<lparr>dm_sending := []\<rparr>)\<lparr>dm_batcher := one_buffered\<rparr> = d2"
    using assms(1) by (cases d) (simp add: d1_def d2_def live_def)
  moreover have "drain E (d\<lparr>dm_batcher := one_buffered\<rparr>) = d\<lparr>dm_batcher := one_buffered\<rparr>" for E and d :: "byte list daemon"
    by (simp add: drain_def one_buffered_def)
  ultimately show "dstep demo_env (DvOutputEnd demo_answers 0) d1 = Some d2"
    using assms(1) add
    by (simp add: d1_def d2_def live_def output_end_def output_deliver_def channelIsP2P_def relayConnected_def
        is_connected_def on_batcher_def demo_answers_def)
  let ?m = "output_message ''s1'' [0x68] 1 1"
  let ?e = "d2\<lparr>dm_batcher := batcher0\<rparr>"
  have tick: "batcher_tick False 1000000000 [''s1''] one_buffered = batcher0\<lparr>wire := [?m]\<rparr>"
    by (simp add: batcher_tick_def one_buffered_def flush_deadline_def send_jobs_def one_write batcher0_def)
  have "length (json_int 1) \<le> 1" by (rule length_json_int) simp_all
  then have small: "length (marshal_message ?m) \<le> 24000"
    using length_marshal_output [of "''s1''" "[0x68]" 1 1] by simp
  have e: "ready (dm_sec ?e)" "dm_mode ?e = []" "dm_relay ?e = Some (0, True)" "secCodeVerified (dm_sec ?e)"
    using assms(1) by (simp_all add: live_def d2_def)
  have ty: "Type ?m = TypeOutput" by simp
  obtain w s where w: "sendJSONDirect demo_env ?m ?e = happen (SentRelay w) (set_sec s ?e)"
      "Type w = TypeEncTerm" "ready s" "secCodeVerified s"
    using ready_send [of ?e ?m demo_env, OF e(1) _ small e(2,3)] e(4)
    by (auto simp: isPlaintextExempt_def plaintextExemptTypes_def outerTypeFor_def HasPrefix_def)
  have "on_batcher demo_env (batcher_tick False 1000000000 [''s1'']) d2 = sendJSONDirect demo_env ?m ?e"
    by (simp add: on_batcher_def drain_def d2_def tick) (simp add: batcher0_def)
  then show "\<exists>w s. dstep demo_env (DvTick tick_answers False 1000000000) d2
       = Some (happen (SentRelay w) (set_sec s (d\<lparr>dm_batcher := batcher0\<rparr>)))
       \<and> Type w = TypeEncTerm \<and> ready s \<and> secCodeVerified s"
    using w by (auto simp: tick_answers_def d2_def)
qed

text \<open>A reachable run in which a verified app is sent a session's output.\<close>

lemma demo_output_run:
  "\<exists>d w. reachable demo_env d \<and> secCodeVerified (dm_sec d) \<and> last (dm_out d) = SentRelay w \<and> Type w = TypeEncTerm"
proof -
  obtain d0 where d0: "reachable demo_env d0" "live d0" using demo_verified by blast
  let ?h = "DvMessage demo_answers (Message0\<lparr>Type := TypeRequestHistory, SessionID := ''s1''\<rparr>)"
  obtain d1 where d1: "dstep demo_env ?h d0 = Some d1" "live d1" "''s1'' \<in> dm_sub d1"
    using live_history [OF d0(2)] by blast
  have act: "secureActive (dm_sec d1)" using d1(2) ready_active by (simp add: live_def)
  have r1: "reachable demo_env d1"
    by (rule event [OF d0(1) _ d1(1)]) (use act in \<open>simp_all add: unencrypted_passes isEncryptedType_def\<close>)
  note o = live_output [OF d1(2,3)]
  have r2: "reachable demo_env (d1\<lparr>dm_sending := [(''s1'', [0x68], 1)]\<rparr>)"
    by (rule event [OF r1 _ o(1)]) (use act in simp_all)
  have r3: "reachable demo_env (d1\<lparr>dm_batcher := one_buffered\<rparr>)"
    by (rule event [OF r2 _ o(2)]) (use act in simp_all)
  obtain w s where w: "dstep demo_env (DvTick tick_answers False 1000000000) (d1\<lparr>dm_batcher := one_buffered\<rparr>)
       = Some (happen (SentRelay w) (set_sec s (d1\<lparr>dm_batcher := batcher0\<rparr>)))"
       "Type w = TypeEncTerm" "ready s" "secCodeVerified s"
    using o(3) by blast
  have "reachable demo_env (happen (SentRelay w) (set_sec s (d1\<lparr>dm_batcher := batcher0\<rparr>)))"
    by (rule event [OF r3 _ w(1)]) (use ready_active [OF w(3)] in simp_all)
  then show ?thesis using w by (intro exI [of _ "happen (SentRelay w) (set_sec s (d1\<lparr>dm_batcher := batcher0\<rparr>))"]) auto
qed

section \<open>Properties\<close>







end
