(* ===== verification/Daemon_Gaps.thy ===== *)
theory Daemon_Gaps
  imports Daemon_Safety
begin

text \<open>
  The channel switch, which drops the keys at the right moment, and the places where the
  daemon's guarantees end: what an unencrypted message may do behind an open gate, and which
  events leave the gate open, the keys in use, or transfers running without them.
\<close>

section \<open>The switch to P2P\<close>

lemma reset_facts:
  "secure (dm_sec (reset_secure d)) = None" "pakeServer (dm_sec (reset_secure d)) = None"
  "secCodeVerified (dm_sec (reset_secure d)) = secCodeVerified (dm_sec d)"
  "bufs (dm_batcher (reset_secure d)) = Map.empty" "wire (dm_batcher (reset_secure d)) = wire (dm_batcher d)"
  "dm_out (reset_secure d) = dm_out d" "dm_files (reset_secure d) = dm_files d"
  "dm_proxy (reset_secure d) = dm_proxy d" "dm_mode (reset_secure d) = dm_mode d"
  by (simp_all add: reset_secure_def resetSecure_def batcher_Reset_def)

lemma route_json_out:
  "dm_out (route_json m d) \<in> {dm_out d, dm_out d @ [SentP2P m], dm_out d @ [SentRelay m]}"
  "dm_sec (route_json m d) = dm_sec d" "dm_batcher (route_json m d) = dm_batcher d"
  "dm_mode (route_json m d) = dm_mode d"
  by (auto simp: route_json_def)

lemma switch_to_p2p:
  assumes "Data msg = ''p2p''"
  shows "(\<exists>es. dm_out (handleChannelSelect E a msg d) = dm_out (flushAll E a d) @ es
        \<and> set es \<subseteq> {SentP2P (Message0\<lparr>Type := TypeChannelSelected, Data := ''p2p''\<rparr>), DrainRelay})
    \<and> dm_mode (handleChannelSelect E a msg d) = ''p2p''
    \<and> \<not> secCodeVerified (dm_sec (handleChannelSelect E a msg d))
    \<and> secure (dm_sec (handleChannelSelect E a msg d)) = None
    \<and> pakeServer (dm_sec (handleChannelSelect E a msg d)) = None
    \<and> idle (dm_batcher (handleChannelSelect E a msg d))"
proof -
  let ?sel = "Message0\<lparr>Type := TypeChannelSelected, Data := ''p2p''\<rparr>"
  define d1 where "d1 = flushAll E a d"
  define d3 where "d3 = (reset_secure (set_sec ((dm_sec d1)\<lparr>secCodeVerified := False\<rparr>) d1))\<lparr>dm_mode := ''p2p''\<rparr>"
  have i: "idle (dm_batcher d3)" "secure (dm_sec d3) = None"
    by (simp_all add: d3_def d1_def idle_def reset_facts)
  define d4 where "d4 = route_json ?sel d3"
  have sel: "sendJSON E a ?sel d3 = d4" by (simp add: d4_def json_idle [OF i])
  have "handleChannelSelect E a msg d = (let e = sendJSON E a ?sel d3
      in if dm_relay e \<noteq> None then happen DrainRelay e else e)"
    by (simp add: handleChannelSelect_def Let_def assms d3_def d1_def)
  then have eq: "handleChannelSelect E a msg d = (if dm_relay d4 \<noteq> None then happen DrainRelay d4 else d4)"
    by (simp only: sel Let_def)
  have "dm_out d4 \<in> {dm_out d1, dm_out d1 @ [SentP2P ?sel]}"
    by (auto simp: d4_def d3_def route_json_def reset_facts)
  then obtain es where "dm_out d4 = dm_out d1 @ es" "set es \<subseteq> {SentP2P ?sel, DrainRelay}" by fastforce
  then have "\<exists>es. dm_out (handleChannelSelect E a msg d) = dm_out d1 @ es \<and> set es \<subseteq> {SentP2P ?sel, DrainRelay}"
    unfolding eq by (auto intro: exI [of _ "es @ [DrainRelay]"])
  moreover have "dm_mode d4 = ''p2p''" "\<not> secCodeVerified (dm_sec d4)" "secure (dm_sec d4) = None"
    "pakeServer (dm_sec d4) = None" "idle (dm_batcher d4)"
    using i by (simp_all add: d4_def route_json_out) (simp_all add: d3_def reset_facts)
  ultimately show ?thesis by (auto simp: eq d1_def)
qed

text \<open>
  C6: The switch to P2P drops the keys at the right moment: what the batcher held goes out first,
  on the old channel under the old keys; after that only the confirmation of the switch leaves,
  and no key, no pending handshake, no buffered output and no verified app remain.
\<close>

theorem switch_drops_keys:
  assumes "Data msg = ''p2p''"
  shows "(\<exists>es. dm_out (handleChannelSelect E a msg d) = dm_out (flushAll E a d) @ es
        \<and> set es \<subseteq> {SentP2P (Message0\<lparr>Type := TypeChannelSelected, Data := ''p2p''\<rparr>), DrainRelay})
    \<and> dm_mode (handleChannelSelect E a msg d) = ''p2p''
    \<and> \<not> secCodeVerified (dm_sec (handleChannelSelect E a msg d))
    \<and> secure (dm_sec (handleChannelSelect E a msg d)) = None
    \<and> pakeServer (dm_sec (handleChannelSelect E a msg d)) = None
    \<and> idle (dm_batcher (handleChannelSelect E a msg d))"
  by (rule switch_to_p2p [OF assms])

theorem switch_drops_keys_witness:
  "dm_mode (handleChannelSelect demo_env demo_answers (Message0\<lparr>Data := ''p2p''\<rparr>) demo_daemon) = ''p2p''"
  using switch_drops_keys [of "Message0\<lparr>Data := ''p2p''\<rparr>" demo_env demo_answers demo_daemon] by simp

section \<open>Where the guarantees end\<close>

text \<open>
  \<^verbatim>\<open>sendOutput\<close> tests the gate and then sends, with no lock over both. When the app switches to P2P
  in between, the keys are gone by the time the write is sent: it goes out in the clear.
\<close>

lemma route_json_rtc [simp]: "dm_rtc (route_json m d) = dm_rtc d"
  by (simp add: route_json_def happen_def)

lemma happen_rtc [simp]: "dm_rtc (fold happen es d) = dm_rtc d"
  by (induction es arbitrary: d) simp_all

theorem switch_races_output:
  assumes "output_admitted sid (output_broadcast a sid data d)" and "dm_sending d = []"
    and "is_connected (dm_rtc d)" and "Data msg = ''p2p''"
  shows "SentP2P (Message0\<lparr>Type := TypeOutput, SessionID := sid, Data := string_of_bytes data, Seq := q,
      Outputs := 1\<rparr>)
    \<in> set (dm_out (output_end E c 0 (handleChannelSelect E b msg (output_begin a sid data q d))))"
proof -
  let ?d1 = "output_begin a sid data q d"
  let ?d2 = "handleChannelSelect E b msg ?d1"
  have s1: "dm_sending ?d1 = [(sid, data, q)]"
    using assms(1,2) by (simp add: output_begin_def Let_def)
  then have s2: "dm_sending ?d2 = [(sid, data, q)]" by (simp add: sending_handlers)
  have "dm_rtc ?d1 = dm_rtc d" by (simp add: output_begin_def output_broadcast_def Let_def)
  then have rtc: "is_connected (dm_rtc ?d2)"
    using assms(3,4) by (simp add: handleChannelSelect_def Let_def reset_secure_def)
  have "dm_mode ?d2 = ''p2p''" "secure (dm_sec ?d2) = None"
    using switch_to_p2p [OF assms(4), of E b ?d1] by blast+
  then show ?thesis
    using s2 rtc by (simp add: output_end_def output_deliver_def channelIsP2P_def sendJSONDirect_def
        wrapOutgoingJSON_def secureActive_def route_json_def)
qed

text \<open>
  Three requests are not behind \<^verbatim>\<open>checkSecCode\<close>. An app that has not verified (say, the next one on
  the relay, after \<^verbatim>\<open>peer_online\<close> left the tunnels of the last running) writes into an open WebSocket
  tunnel with a message, and into an open TCP tunnel with a frame.
\<close>

theorem unverified_app_writes_tunnel:
  assumes "\<not> secCodeVerified (dm_sec d)" and "\<not> secureActive (dm_sec d)"
  shows "px_wsConns (dm_proxy d) s = Some h \<Longrightarrow>
      \<exists>d'. handleMessage E a (Message0\<lparr>Type := TypeProxyWsMessage, SessionID := s,
            Data := EncodeToString data\<rparr>) d = Some d'
         \<and> ToProxy (PWsWrite h False data) \<in> set (dm_out d')"
    and "px_conns (dm_proxy d) i = Some h \<Longrightarrow>
      ToProxy (PWrite h data) \<in> set (dm_out (handleBinary E a (proxy_frame i data) d))"
proof -
  have m0: "IsBinary Message0 = False" by (simp add: Message0_def)
  show "\<exists>d'. handleMessage E a (Message0\<lparr>Type := TypeProxyWsMessage, SessionID := s,
            Data := EncodeToString data\<rparr>) d = Some d' \<and> ToProxy (PWsWrite h False data) \<in> set (dm_out d')"
    if "px_wsConns (dm_proxy d) s = Some h"
    using that by (simp add: handleMessage_def unencrypted_passes isEncryptedType_def dispatch_def
        HandleWsMessage_def on_proxy_def m0)
  show "ToProxy (PWrite h data) \<in> set (dm_out (handleBinary E a (proxy_frame i data) d))"
    if "px_conns (dm_proxy d) i = Some h"
    using that assms(2) by (simp add: handleBinary_def proxy_frame_def unwrapIncomingBinary_def opcode_defs
        HandleData_def on_proxy_def Let_def)
qed

text \<open>
  \<^verbatim>\<open>unwrapIncomingJSON\<close> passes on every message that is not an envelope, also while the encrypted
  channel is active: behind the open gate a message in the clear, which the relay can write
  itself, is obeyed. Here it types into a shell.
\<close>

theorem plaintext_command_accepted:
  assumes "secCodeVerified (dm_sec d)" and "pm_sessions (dm_pty d) s = Some h"
  shows "\<exists>d'. handleMessage E a (Message0\<lparr>Type := TypeInput, SessionID := s, Data := x\<rparr>) d = Some d'
    \<and> ToPty (PtyWrite h (bytes_of_string x)) \<in> set (dm_out d')"
proof -
  have u: "unwrapIncomingJSON A g (Message0\<lparr>Type := TypeInput, SessionID := s, Data := x\<rparr>) k
      = (Some (Message0\<lparr>Type := TypeInput, SessionID := s, Data := x\<rparr>), k)" for A g k
    by (simp add: unwrapIncomingJSON_def isEncryptedType_def)
  show ?thesis
    using assms by (simp add: handleMessage_def u dispatch_def gated_def markInput_def pm_Write_def)
qed

text \<open>
  An app that goes offline on the relay loses its keys and keeps its gate: the next request in
  the clear passes \<^verbatim>\<open>checkSecCode\<close>, and its answer goes out in the clear.
\<close>

theorem peer_offline_leaves_gate_open:
  assumes "secCodeVerified (dm_sec d)" and "dm_mode d \<noteq> ''p2p''" and "wire (dm_batcher d) = []"
    and "handlePeerOffline a d = Some d'"
  shows "secCodeVerified (dm_sec d') \<and> secure (dm_sec d') = None
    \<and> gated E b h d' = h d' \<and> sendJSON E b m d' = route_json m d'"
proof -
  have "secCodeVerified (dm_sec d')" "secure (dm_sec d') = None" "idle (dm_batcher d')"
    using assms by (auto simp: handlePeerOffline_def close_tunnels_def idle_def reset_facts
        dest!: cancel_transfers_fields)
  then show ?thesis by (simp add: gated_def json_idle)
qed

text \<open>
  A new app drops the keys of the old one and leaves its transfers and tunnels running: their
  frames now go out in the clear, to an app that has not identified itself and may acknowledge
  them (\<^verbatim>\<open>file_ack\<close> is not gated).
\<close>

theorem peer_online_keeps_transfers:
  assumes "rs_type raw = ''peer_online''" and "\<not> cf_ForceTS (ev_cfg E)" and "f \<noteq> []"
  shows "\<exists>d'. handleP2PSignal E a raw d = Some d' \<and> dm_files d' = dm_files d \<and> dm_proxy d' = dm_proxy d
    \<and> sendBytesCancelable E f d' = route_frame f d'"
proof -
  let ?d = "reset_secure (set_sec ((dm_sec d)\<lparr>secCodeVerified := False\<rparr>) d)"
  have "?d\<lparr>dm_sec := dm_sec ?d\<rparr> = ?d" by (cases ?d) simp
  then have "sendBytesCancelable E f ?d = route_frame f ?d"
    using assms(3) by (simp add: sendBytesCancelable_def wrapOutgoingBinary_def secureActive_def reset_facts
        set_sec_def)
  with assms(1,2) show ?thesis by (simp add: handleP2PSignal_def reset_facts)
qed

text \<open>With P2P switched off, \<^verbatim>\<open>peer_online\<close> is discarded with the rest: the next app finds the gate open.\<close>

theorem force_ts_keeps_gate: "cf_ForceTS (ev_cfg E) \<Longrightarrow> handleP2PSignal E a raw d = Some d"
  by (simp add: handleP2PSignal_def)

text \<open>The session list is gated and then exempt from encryption: names and system go out in the clear.\<close>

theorem session_info_in_the_clear: "Type m = TypeSessionInfo \<Longrightarrow> wrapOutgoingJSON A m s = (Some m, s)"
  by (simp add: wrapOutgoingJSON_def isPlaintextExempt_def plaintextExemptTypes_def)

text \<open>
  Keys must not cross channels, says the comment at the switch to P2P. When P2P breaks, the daemon
  falls back to the relay with the keys of the P2P channel.
\<close>

theorem p2p_keys_reach_relay:
  assumes "dm_rtc d = Some (r, up)" and "dm_mode d = ''p2p''" and "answerer_disconnected a r d = Some d'"
  shows "dm_mode d' = [] \<and> dm_sec d' = dm_sec d"
  using assms by (auto simp: answerer_disconnected_def wsSendRaw_def close_tunnels_def Let_def
      dest!: cancel_transfers_fields)

text \<open>
  The scrollback counts a write before the batcher sees it. A write between the two when the
  history is taken is sealed by nothing: it is batched with the next write, and the app, which
  skips a batch only as a whole, shows its bytes twice.
\<close>

theorem late_write_straddles_seal:
  "wire (FlushAll [''s''] (batcher_Add ''s'' [0x79] 6 0 (batcher_Add ''s'' [0x78] 5 0
     (SealAt 5 [''s''] batcher0)))) = [output_message ''s'' [0x78, 0x79] 2 6]"
  by (simp add: batcher0_def SealAt_def batcher_Add_def FlushAll_def send_jobs_def sendBatch_def Let_def
      packing0_def pack_write.simps emit_def take_piece_def next_n_def piece_fits_def)

end
