(* ===== verification/Text_Decoder.thy ===== *)
theory Text_Decoder
  imports Go_Json
begin

text \<open>
  The streaming UTF-8 decoder in front of the terminal emulator
  (\<^verbatim>\<open>src/internal/xterm/textdecoder.go\<close>). Its state, the first \<^verbatim>\<open>count\<close> bytes of \<^verbatim>\<open>interim\<close>, is a
  byte list; the code points \<^verbatim>\<open>Decode\<close> writes into its target are the list it returns.
\<close>

declare decode_rune.simps(2) [simp del]

section \<open>The decoder\<close>

definition utf8SeqLen :: "byte \<Rightarrow> nat" where
  "utf8SeqLen b =
    (if b < 0x80 then 1
     else if and b 0xE0 = 0xC0 then 2
     else if and b 0xF0 = 0xE0 then 3
     else if and b 0xF8 = 0xF0 then 4
     else 0)"

definition continuation :: "byte \<Rightarrow> bool" where
  "continuation b \<longleftrightarrow> and b 0xC0 = 0x80"

text \<open>The main loop: the code points, and what is left in \<^verbatim>\<open>interim\<close>.\<close>

function decode_main :: "byte list \<Rightarrow> u32 list \<times> byte list" where
  "decode_main [] = ([], [])"
| "decode_main (b # bs) =
    (if b < 0x80 then (case decode_main bs of (cs, s) \<Rightarrow> (ucast b # cs, s))
     else if utf8SeqLen b = 0 then decode_main bs
     else if length (b # bs) < utf8SeqLen b then ([], b # bs)
     else (case decode_rune (b # bs) of (r, n) \<Rightarrow>
       if r = RuneError \<and> n \<le> 1 then decode_main bs
       else (case decode_main (drop n (b # bs)) of (cs, s) \<Rightarrow>
         if r = 0xFEFF then (cs, s)
         else if 0xD800 \<le> r \<and> r \<le> 0xDFFF then (cs, s)
         else (word_of_nat r # cs, s))))"
  by pat_completeness auto

termination
  by (relation "measure length") (auto dest!: decode_rune_progress )

declare decode_main.simps(2) [simp del]

text \<open>Completing a sequence that an earlier call left behind.\<close>

datatype refill = Complete "byte list" "byte list" | Short "byte list" | Discard "byte list"

fun refill_loop :: "nat \<Rightarrow> byte list \<Rightarrow> byte list \<Rightarrow> refill" where
  "refill_loop 0 buf input = Complete buf input"
| "refill_loop (Suc k) buf [] = Short buf"
| "refill_loop (Suc k) buf (b # bs) =
     (if continuation b then refill_loop k (buf @ [b]) bs else Discard (b # bs))"

definition Decode :: "byte list \<Rightarrow> byte list \<Rightarrow> u32 list \<times> byte list" where
  "Decode interim input =
    (if input = [] then ([], interim)
     else if interim = [] \<or> utf8SeqLen (hd interim) \<le> length interim then decode_main input
     else (case refill_loop (utf8SeqLen (hd interim) - length interim) interim input of
         Short buf \<Rightarrow> ([], buf)
       | Discard rest \<Rightarrow> decode_main rest
       | Complete buf rest \<Rightarrow>
           (let r = fst (decode_rune buf) in
            case decode_main rest of (cs, s) \<Rightarrow>
              (if r \<noteq> RuneError \<and> r \<noteq> 0xFEFF then word_of_nat r # cs else cs, s))))"

lemma refill_loop_pos:
  "0 < k \<Longrightarrow> refill_loop k buf [] = Short buf"
  "0 < k \<Longrightarrow> refill_loop k buf (b # bs) =
     (if continuation b then refill_loop (k - 1) (buf @ [b]) bs else Discard (b # bs))"
  by (cases k; simp)+

text \<open>A stream that arrives in pieces.\<close>

fun Decode_all :: "byte list \<Rightarrow> byte list list \<Rightarrow> u32 list \<times> byte list" where
  "Decode_all s [] = ([], s)"
| "Decode_all s (ch # chs) =
    (case Decode s ch of (cs, s') \<Rightarrow> case Decode_all s' chs of (ds, s'') \<Rightarrow> (cs @ ds, s''))"

section \<open>Bounds\<close>

text \<open>The target is never overrun, and \<^verbatim>\<open>interim\<close> holds at most three bytes.\<close>

lemma utf8SeqLen_le: "utf8SeqLen b \<le> 4"
  by (simp add: utf8SeqLen_def)

lemma decode_main_cases:
  obtains (put) c k where "0 < k" "k \<le> length (b # bs)"
      "decode_main (b # bs) = (c # fst (decode_main (drop k (b # bs))), snd (decode_main (drop k (b # bs))))"
  | (skip) k where "0 < k" "k \<le> length (b # bs)" "decode_main (b # bs) = decode_main (drop k (b # bs))"
  | (keep) "length (b # bs) < utf8SeqLen b" "decode_main (b # bs) = ([], b # bs)"
proof -
  obtain r n where rn: "decode_rune (b # bs) = (r, n)" by fastforce
  then have n: "0 < n" "n \<le> length (b # bs)" using decode_rune_progress [of r n b bs] by simp_all
  have eq: "decode_main (b # bs) =
    (if b < 0x80 then (ucast b # fst (decode_main bs), snd (decode_main bs))
     else if utf8SeqLen b = 0 then decode_main bs
     else if length (b # bs) < utf8SeqLen b then ([], b # bs)
     else if r = RuneError \<and> n \<le> 1 then decode_main bs
     else if r = 0xFEFF \<or> 0xD800 \<le> r \<and> r \<le> 0xDFFF then decode_main (drop n (b # bs))
     else (word_of_nat r # fst (decode_main (drop n (b # bs))), snd (decode_main (drop n (b # bs)))))"
    by (simp add: decode_main.simps(2) [of b bs] rn split_beta)
  consider (ascii) "b < 0x80" | (bad) "\<not> b < 0x80" "utf8SeqLen b = 0 \<or> \<not> length (b # bs) < utf8SeqLen b \<and> r = RuneError \<and> n \<le> 1"
    | (part) "\<not> b < 0x80" "utf8SeqLen b \<noteq> 0" "length (b # bs) < utf8SeqLen b"
    | (rune) "\<not> b < 0x80" "utf8SeqLen b \<noteq> 0" "\<not> length (b # bs) < utf8SeqLen b" "\<not> (r = RuneError \<and> n \<le> 1)"
    by blast
  then show thesis
  proof cases
    case ascii
    with eq show thesis by (intro put [of 1 "ucast b"]) simp_all
  next
    case bad
    with eq show thesis by (intro skip [of 1]) auto
  next
    case part
    with eq show thesis by (intro keep) simp_all
  next
    case rune
    with eq have "decode_main (b # bs) = (if r = 0xFEFF \<or> 0xD800 \<le> r \<and> r \<le> 0xDFFF
      then decode_main (drop n (b # bs))
      else (word_of_nat r # fst (decode_main (drop n (b # bs))), snd (decode_main (drop n (b # bs)))))"
      by (simp only: if_False)
    then show thesis using skip [OF n] put [OF n, of "word_of_nat r"] by (metis (full_types))
  qed
qed

lemma decode_main_bounds:
  "length (fst (decode_main bs)) \<le> length bs \<and> length (snd (decode_main bs)) \<le> 3"
proof (induction "length bs" arbitrary: bs rule: less_induct)
  case less
  show ?case
  proof (cases bs)
    case (Cons b bs')
    have IH: "length (fst (decode_main (drop k bs))) \<le> length bs - k \<and> length (snd (decode_main (drop k bs))) \<le> 3"
      if "0 < k" for k
      using less [of "drop k bs"] that Cons by simp
    show ?thesis
    proof (cases b bs' rule: decode_main_cases)
      case (put c k)
      with IH [OF put(1)] show ?thesis unfolding Cons by auto
    next
      case (skip k)
      with IH [OF skip(1)] show ?thesis unfolding Cons by auto
    next
      case keep
      with utf8SeqLen_le [of b] show ?thesis unfolding Cons by auto
    qed
  qed simp
qed

lemma refill_bounds:
  "refill_loop k buf input = Complete buf' rest \<Longrightarrow> length buf' = length buf + k \<and> length rest + k = length input"
  "refill_loop k buf input = Short buf' \<Longrightarrow> length buf' = length buf + length input \<and> length input < k"
  "refill_loop k buf input = Discard rest \<Longrightarrow> length rest \<le> length input"
  by (induction k buf input rule: refill_loop.induct) (auto split: if_splits)

lemma Decode_bounds:
  assumes "length interim \<le> 3"
  shows "length (fst (Decode interim input)) \<le> length input \<and> length (snd (Decode interim input)) \<le> 3"
proof (cases "interim = [] \<or> utf8SeqLen (hd interim) \<le> length interim")
  case True
  then show ?thesis using decode_main_bounds [of input] assms by (simp add: Decode_def)
next
  case False
  let ?k = "utf8SeqLen (hd interim) - length interim"
  show ?thesis
  proof (cases "refill_loop ?k interim input")
    case (Complete buf rest)
    with False refill_bounds(1) [OF this] decode_main_bounds [of rest] assms show ?thesis
      by (auto simp: Decode_def Let_def split: prod.splits)
  next
    case (Short buf)
    with False refill_bounds(2) [OF this] utf8SeqLen_le [of "hd interim"] assms show ?thesis
      by (auto simp: Decode_def)
  next
    case (Discard rest)
    with False refill_bounds(3) [OF this] decode_main_bounds [of rest] assms show ?thesis
      by (auto simp: Decode_def)
  qed
qed

section \<open>Valid text\<close>

definition valid_rune :: "nat \<Rightarrow> bool" where
  "valid_rune c \<longleftrightarrow> c < 0x110000 \<and> \<not> (0xD800 \<le> c \<and> c \<le> 0xDFFF)"

lemma unat_word_byte: "n < 256 \<Longrightarrow> unat (word_of_nat n :: byte) = n"
  by (simp add: unat_of_nat)

lemma byte_classes:
  "list_all (\<lambda>n. (let b = (word_of_nat n :: byte) in
     utf8SeqLen b = (if n < 0x80 then 1 else if n < 0xC0 then 0 else if n < 0xE0 then 2
       else if n < 0xF0 then 3 else if n < 0xF8 then 4 else 0)
     \<and> (continuation b \<longleftrightarrow> 0x80 \<le> n \<and> n < 0xC0) \<and> (b < 0x80 \<longleftrightarrow> n < 0x80))) [0..<256]"
  by code_simp

lemma byte_class:
  assumes "n < 256"
  shows "utf8SeqLen (word_of_nat n) = (if n < 0x80 then 1 else if n < 0xC0 then 0 else if n < 0xE0 then 2
       else if n < 0xF0 then 3 else if n < 0xF8 then 4 else 0)"
    and "continuation (word_of_nat n) \<longleftrightarrow> 0x80 \<le> n \<and> n < 0xC0"
    and "(word_of_nat n :: byte) < 0x80 \<longleftrightarrow> n < 0x80"
  using byte_classes assms by (auto simp: list_all_iff Let_def)

lemma encode_rune_seqLen: "valid_rune c \<Longrightarrow> utf8SeqLen (hd (encode_rune c)) = length (encode_rune c)"
  by (auto simp: encode_rune_def valid_rune_def byte_class simp del: of_nat_add)

lemma encode_rune_tail: "valid_rune c \<Longrightarrow> b \<in> set (tl (encode_rune c)) \<Longrightarrow> continuation b"
  by (auto simp: encode_rune_def valid_rune_def byte_class simp del: of_nat_add split: if_splits)

lemma decode_two:
  assumes "2 \<le> x" "x < 32" "y < 64"
  shows "decode_rune (word_of_nat (0xC0 + x) # word_of_nat (0x80 + y) # bs) = (x * 64 + y, 2)"
  using assms by (simp add: decode_rune.simps(2) unat_word_byte in_range_def del: of_nat_add)

lemma decode_three:
  assumes "x < 16" "y < 64" "z < 64" "x = 0 \<longrightarrow> 32 \<le> y" "x = 13 \<longrightarrow> y < 32"
  shows "decode_rune (word_of_nat (0xE0 + x) # word_of_nat (0x80 + y) # word_of_nat (0x80 + z) # bs)
    = (x * 4096 + y * 64 + z, 3)"
  using assms by (auto simp: decode_rune.simps(2) unat_word_byte in_range_def simp del: of_nat_add)

lemma decode_four:
  assumes "x < 5" "w < 64" "y < 64" "z < 64" "x = 0 \<longrightarrow> 16 \<le> w" "x = 4 \<longrightarrow> w < 16"
  shows "decode_rune (word_of_nat (0xF0 + x) # word_of_nat (0x80 + w) # word_of_nat (0x80 + y)
      # word_of_nat (0x80 + z) # bs) = (x * 262144 + w * 4096 + y * 64 + z, 4)"
  using assms by (auto simp: decode_rune.simps(2) unat_word_byte in_range_def simp del: of_nat_add)

lemma digits_two: "(c :: nat) = c div 64 * 64 + c mod 64"
  by simp

lemma digits_three: "(c :: nat) = c div 4096 * 4096 + c div 64 mod 64 * 64 + c mod 64"
proof -
  have "c div 64 = c div 64 div 64 * 64 + c div 64 mod 64" by (rule digits_two)
  moreover have "c div 64 div 64 = c div 4096" using div_mult2_eq [of c 64 64] by simp
  ultimately show ?thesis using digits_two [of c] by linarith
qed

lemma digits_four:
  "(c :: nat) = c div 262144 * 262144 + c div 4096 mod 64 * 4096 + c div 64 mod 64 * 64 + c mod 64"
proof -
  have "c div 64 = c div 64 div 4096 * 4096 + c div 64 div 64 mod 64 * 64 + c div 64 mod 64"
    by (rule digits_three)
  moreover have "c div 64 div 64 = c div 4096" "c div 64 div 4096 = c div 262144"
    using div_mult2_eq [of c 64 64] div_mult2_eq [of c 64 4096] by simp_all
  ultimately have "c div 64 = c div 262144 * 4096 + c div 4096 mod 64 * 64 + c div 64 mod 64" by simp
  then show ?thesis using digits_two [of c] by linarith
qed

lemma decode_encode_rune:
  assumes "valid_rune c"
  shows "decode_rune (encode_rune c @ bs) = (c, length (encode_rune c))"
proof -
  consider (1) "c < 0x80" | (2) "0x80 \<le> c" "c < 0x800" | (3) "0x800 \<le> c" "c < 0x10000"
    | (4) "0x10000 \<le> c" "c < 0x110000"
    using assms unfolding valid_rune_def by linarith
  then show ?thesis
  proof cases
    case 1
    then show ?thesis by (simp add: encode_rune_def decode_rune.simps(2) unat_word_byte)
  next
    case 2
    then have "2 \<le> c div 64" "c div 64 < 32" by auto
    from decode_two [OF this, of "c mod 64" bs] 2 show ?thesis
      by (simp add: encode_rune_def del: of_nat_add)
  next
    case 3
    have mods: "c div 64 mod 64 < 64" "c mod 64 < 64" by simp_all
    have "c div 4096 < 16" using 3 by auto
    moreover have "c div 4096 = 0 \<longrightarrow> 32 \<le> c div 64 mod 64" "c div 4096 = 13 \<longrightarrow> c div 64 mod 64 < 32"
      using digits_three [of c] 3 assms mods unfolding valid_rune_def by linarith+
    ultimately have "decode_rune (word_of_nat (0xE0 + c div 4096) # word_of_nat (0x80 + c div 64 mod 64)
        # word_of_nat (0x80 + c mod 64) # bs) = (c, 3)"
      using decode_three [of "c div 4096" "c div 64 mod 64" "c mod 64" bs] digits_three [of c] by simp
    with 3 show ?thesis by (simp add: encode_rune_def del: of_nat_add)
  next
    case 4
    have mods: "c div 4096 mod 64 < 64" "c div 64 mod 64 < 64" "c mod 64 < 64" by simp_all
    have "c div 262144 < 5" using 4 by auto
    moreover have "c div 262144 = 0 \<longrightarrow> 16 \<le> c div 4096 mod 64" "c div 262144 = 4 \<longrightarrow> c div 4096 mod 64 < 16"
      using digits_four [of c] 4 mods by linarith+
    ultimately have "decode_rune (word_of_nat (0xF0 + c div 262144) # word_of_nat (0x80 + c div 4096 mod 64)
        # word_of_nat (0x80 + c div 64 mod 64) # word_of_nat (0x80 + c mod 64) # bs) = (c, 4)"
      using decode_four [of "c div 262144" "c div 4096 mod 64" "c div 64 mod 64" "c mod 64" bs]
        digits_four [of c] by simp
    with 4 show ?thesis by (simp add: encode_rune_def del: of_nat_add)
  qed
qed


section \<open>The stream\<close>

definition utf8 :: "nat list \<Rightarrow> byte list" where
  "utf8 cs = concat (map encode_rune cs)"

text \<open>What the decoder makes of a text: byte order marks are dropped.\<close>

definition code_points :: "nat list \<Rightarrow> u32 list" where
  "code_points cs = map word_of_nat (filter (\<lambda>c. c \<noteq> 0xFEFF) cs)"

definition clean_text :: "nat list \<Rightarrow> bool" where
  "clean_text cs \<longleftrightarrow> (\<forall>c \<in> set cs. valid_rune c \<and> c \<noteq> RuneError)"

text \<open>The bytes kept between calls are the beginning of the next rune.\<close>

definition pending_of :: "byte list \<Rightarrow> nat list \<Rightarrow> bool" where
  "pending_of s cs \<longleftrightarrow> s = [] \<or> (\<exists>c cs'. cs = c # cs' \<and> length s < length (encode_rune c)
     \<and> s = take (length s) (encode_rune c))"

lemma utf8_simps [simp]: "utf8 [] = []" "utf8 (c # cs) = encode_rune c @ utf8 cs"
  by (simp_all add: utf8_def)

lemma code_points_simps [simp]:
  "code_points [] = []"
  "code_points (c # cs) = (if c = 0xFEFF then [] else [word_of_nat c]) @ code_points cs"
  "code_points (xs @ ys) = code_points xs @ code_points ys"
  by (simp_all add: code_points_def)

lemma encode_rune_Cons: "\<exists>b bs. encode_rune c = b # bs"
  by (simp add: encode_rune_def)

lemma decode_main_rune:
  assumes "valid_rune c" and "c \<noteq> RuneError"
  shows "decode_main (encode_rune c @ bs) =
    (code_points [c] @ fst (decode_main bs), snd (decode_main bs))"
proof -
  obtain b es where e: "encode_rune c = b # es" using encode_rune_Cons by blast
  have L: "utf8SeqLen b = Suc (length es)" using encode_rune_seqLen [OF assms(1)] e by simp
  have d: "decode_rune (b # es @ bs) = (c, Suc (length es))"
    using decode_encode_rune [OF assms(1), of bs] e by simp
  show ?thesis
  proof (cases "b < 0x80")
    case True
    then have es: "es = []" using L by (simp add: utf8SeqLen_def)
    have c: "c = unat b" using d True unfolding es by (simp add: decode_rune.simps(2) word_less_nat_alt)
    have "unat b \<noteq> 0xFEFF" using unat_byte_less [of b] by linarith
    then have "decode_main (b # bs) = (code_points [unat b] @ fst (decode_main bs), snd (decode_main bs))"
      using True by (simp add: decode_main.simps(2) code_points_def split: prod.splits)
    then show ?thesis by (simp add: e es) (simp add: c)
  next
    case False
    have "\<not> (0xD800 \<le> c \<and> c \<le> 0xDFFF)" using assms(1) by (simp add: valid_rune_def)
    then show ?thesis
      using False assms(2) L d
      by (auto simp: e decode_main.simps(2) [of b "es @ bs"] code_points_def split: prod.splits)
  qed
qed

lemma decode_main_short:
  assumes "valid_rune c" and "k < length (encode_rune c)"
  shows "decode_main (take k (encode_rune c)) = ([], take k (encode_rune c))"
proof (cases k)
  case (Suc n)
  obtain b es where e: "encode_rune c = b # es" using encode_rune_Cons by blast
  have L: "utf8SeqLen b = Suc (length es)" using encode_rune_seqLen [OF assms(1)] e by simp
  then have "\<not> b < 0x80" using Suc assms(2) e by (auto simp: utf8SeqLen_def split: if_splits)
  with L Suc assms(2) e show ?thesis by (simp add: decode_main.simps(2))
qed simp

lemma decode_main_stream:
  assumes "clean_text cs" and "bs @ rest = utf8 cs"
  shows "\<exists>xs ys. cs = xs @ ys \<and> fst (decode_main bs) = code_points xs
    \<and> snd (decode_main bs) @ rest = utf8 ys \<and> pending_of (snd (decode_main bs)) ys"
  using assms
proof (induction cs arbitrary: bs)
  case Nil
  then show ?case by (simp add: code_points_def pending_of_def)
next
  case (Cons c cs)
  have c: "valid_rune c" "c \<noteq> RuneError" and cs: "clean_text cs" using Cons.prems(1) by (auto simp: clean_text_def)
  show ?case
  proof (cases "length bs < length (encode_rune c)")
    case True
    have "take (length bs) (bs @ rest) = take (length bs) (encode_rune c @ utf8 cs)"
      using Cons.prems(2) by simp
    with True have bs: "bs = take (length bs) (encode_rune c)" by simp
    have "decode_main bs = ([], bs)" using decode_main_short [OF c(1) True] bs by simp
    with True bs Cons.prems(2) show ?thesis
      by (intro exI [of _ "[]"] exI [of _ "c # cs"]) (auto simp: code_points_def pending_of_def)
  next
    case False
    define bs' where "bs' = drop (length (encode_rune c)) bs"
    have "take (length (encode_rune c)) (bs @ rest) = encode_rune c" using Cons.prems(2) by simp
    with False have "take (length (encode_rune c)) bs = encode_rune c" by simp
    then have bs: "bs = encode_rune c @ bs'" unfolding bs'_def by (metis append_take_drop_id)
    then have r: "bs' @ rest = utf8 cs" using Cons.prems(2) by simp
    from Cons.IH [OF cs r] obtain xs ys where xy: "cs = xs @ ys" "fst (decode_main bs') = code_points xs"
      "snd (decode_main bs') @ rest = utf8 ys" "pending_of (snd (decode_main bs')) ys" by blast
    then show ?thesis
      by (intro exI [of _ "c # xs"] exI [of _ ys])
        (simp add: bs decode_main_rune [OF c])
  qed
qed

lemma refill_loop_enough:
  "list_all continuation xs \<Longrightarrow> refill_loop (length xs) buf (xs @ ys) = Complete (buf @ xs) ys"
  by (induction xs arbitrary: buf) auto

lemma refill_loop_short:
  "list_all continuation xs \<Longrightarrow> length xs < k \<Longrightarrow> refill_loop k buf xs = Short (buf @ xs)"
proof (induction xs arbitrary: buf k)
  case Nil
  then show ?case by (cases k) auto
next
  case (Cons x xs)
  then show ?case by (cases k) auto
qed

text \<open>One call, in the middle of a text.\<close>

lemma Decode_stream:
  assumes "clean_text cs" and "pending_of s cs" and "s @ bs @ rest = utf8 cs"
  shows "\<exists>xs ys. cs = xs @ ys \<and> fst (Decode s bs) = code_points xs
    \<and> snd (Decode s bs) @ rest = utf8 ys \<and> pending_of (snd (Decode s bs)) ys"
proof (cases "s = [] \<or> bs = []")
  case True
  then show ?thesis
  proof
    assume "s = []"
    then have "Decode s bs = decode_main bs" by (simp add: Decode_def)
    with decode_main_stream [OF assms(1)] assms(3) \<open>s = []\<close> show ?thesis by simp
  next
    assume "bs = []"
    with assms show ?thesis by (intro exI [of _ "[]"] exI [of _ cs]) (simp add: Decode_def)
  qed
next
  case False
  then obtain c cs' where cs: "cs = c # cs'" and short: "length s < length (encode_rune c)"
    and s: "s = take (length s) (encode_rune c)" and ne: "s \<noteq> []" "bs \<noteq> []"
    using assms(2) by (auto simp: pending_of_def)
  have c: "valid_rune c" "c \<noteq> RuneError" and cs': "clean_text cs'"
    using assms(1) cs by (auto simp: clean_text_def)
  define es where "es = drop (length s) (encode_rune c)"
  have e: "encode_rune c = s @ es" using s unfolding es_def by (metis append_take_drop_id)
  have hd: "hd s = hd (encode_rune c)" using e ne by simp
  have L: "utf8SeqLen (hd s) = length s + length es"
    using encode_rune_seqLen [OF c(1)] hd e by simp
  have "set es \<subseteq> set (tl (encode_rune c))" using e ne by (cases s) auto
  then have cont: "list_all continuation es" using encode_rune_tail [OF c(1)] by (auto simp: list_all_iff)
  have ges: "0 < length es" using short e by simp
  have eq: "bs @ rest = es @ utf8 cs'" using assms(3) cs e by simp
  have D: "Decode s bs = (case refill_loop (length es) s bs of
         Short buf \<Rightarrow> ([], buf) | Discard rest \<Rightarrow> decode_main rest
       | Complete buf rest \<Rightarrow> (let r = fst (decode_rune buf) in
            case decode_main rest of (cs, s) \<Rightarrow>
              (if r \<noteq> RuneError \<and> r \<noteq> 0xFEFF then word_of_nat r # cs else cs, s)))"
    using ne ges by (simp add: Decode_def L)
  show ?thesis
  proof (cases "length bs < length es")
    case True
    have "take (length bs) (bs @ rest) = take (length bs) (es @ utf8 cs')" using eq by simp
    with True have bs: "bs = take (length bs) es" by simp
    have "set bs \<subseteq> set es" using bs by (metis set_take_subset)
    then have "list_all continuation bs" using cont by (auto simp: list_all_iff)
    from refill_loop_short [OF this True, of s] have R: "Decode s bs = ([], s @ bs)" by (simp add: D)
    have "pending_of (s @ bs) cs" unfolding pending_of_def using True bs e cs by auto
    with R assms(3) show ?thesis by (intro exI [of _ "[]"] exI [of _ cs]) simp
  next
    case False
    define bs' where "bs' = drop (length es) bs"
    have "take (length es) (bs @ rest) = es" using eq by simp
    with False have "take (length es) bs = es" by simp
    then have bs: "bs = es @ bs'" unfolding bs'_def by (metis append_take_drop_id)
    then have r: "bs' @ rest = utf8 cs'" using eq by simp
    have "decode_rune (s @ es) = (c, length (encode_rune c))"
      using decode_encode_rune [OF c(1), of "[]"] e by simp
    then have R: "Decode s bs = (code_points [c] @ fst (decode_main bs'), snd (decode_main bs'))"
      unfolding D using refill_loop_enough [OF cont, of s bs'] c(2) by (simp add: bs Let_def split: prod.splits)
    from decode_main_stream [OF cs' r] obtain xs ys where "cs' = xs @ ys"
      "fst (decode_main bs') = code_points xs" "snd (decode_main bs') @ rest = utf8 ys"
      "pending_of (snd (decode_main bs')) ys" by blast
    then show ?thesis by (intro exI [of _ "c # xs"] exI [of _ ys]) (simp add: R cs)
  qed
qed

lemma pending_end: "pending_of s cs \<Longrightarrow> s = utf8 cs \<Longrightarrow> s = [] \<and> cs = []"
  by (cases cs) (auto simp: pending_of_def encode_rune_def split: if_splits)

lemma Decode_all_stream:
  assumes "clean_text cs" and "pending_of s cs" and "s @ concat chunks = utf8 cs"
  shows "Decode_all s chunks = (code_points cs, [])"
  using assms
proof (induction chunks arbitrary: s cs)
  case Nil
  then show ?case using pending_end [of s cs] by simp
next
  case (Cons ch chs)
  from Decode_stream [OF Cons.prems(1,2), of ch "concat chs"] Cons.prems(3)
  obtain xs ys where d: "cs = xs @ ys" "fst (Decode s ch) = code_points xs"
    "snd (Decode s ch) @ concat chs = utf8 ys" "pending_of (snd (Decode s ch)) ys" by auto
  have "clean_text ys" using Cons.prems(1) d(1) by (simp add: clean_text_def)
  from Cons.IH [OF this d(4,3)] d(1,2) show ?case by (cases "Decode s ch") simp
qed



text \<open>
  The replacement character itself, which programs print, is lost when a read ends inside it, and
  kept otherwise.
\<close>

lemma replacement_character_lost:
  "Decode_all [] [[0xEF, 0xBF, 0xBD]] = ([0xFFFD], [])" "Decode_all [] [[0xEF], [0xBF, 0xBD]] = ([], [])"
  by (simp_all add: Decode_def decode_main.simps utf8SeqLen_def continuation_def in_range_def RuneError_def
      decode_rune.simps(2) refill_loop_pos split: prod.splits)

text \<open>After an invalid byte a whole character may be lost the same way.\<close>

lemma stray_byte_takes_next_rune:
  "Decode_all [] [[0xF0, 0xE2, 0x82, 0xAC]] = ([0x20AC], [])"
  "Decode_all [] [[0xF0, 0xE2, 0x82], [0xAC]] = ([], [])"
  by (simp_all add: Decode_def decode_main.simps utf8SeqLen_def continuation_def in_range_def RuneError_def
      decode_rune.simps(2) refill_loop_pos split: prod.splits)

end
