(* ===== verification/Vt_Params.thy ===== *)
theory Vt_Params
  imports Claw_Prelude
begin

text \<open>
  The parameters of a control sequence (\<^verbatim>\<open>src/internal/xterm/parser_params.go\<close>): fixed arrays of
  parameters and sub-parameters with their lengths, and an index word per parameter that holds
  the range of its sub-parameters. An \<^verbatim>\<open>int32\<close> is a 32-bit word read by \<open>sint\<close>. A panic is \<open>None\<close>.
\<close>

type_synonym i32 = "32 word"

definition maxParamValue :: i32 where "maxParamValue = 0x7FFFFFFF"

definition maxSubParams :: nat where "maxSubParams = 256"

record Params =
  pa_Params :: "i32 list"
  pa_Length :: nat
  pa_MaxLength :: nat
  pa_subParams :: "i32 list"
  pa_subParamsLength :: nat
  pa_maxSubParamsLen :: nat
  pa_subParamsIdx :: "u32 list"
  pa_rejectDigits :: bool
  pa_rejectSubDigits :: bool
  pa_digitIsSub :: bool

section \<open>Operations\<close>

definition NewParams :: "nat \<Rightarrow> nat \<Rightarrow> Params option" where
  "NewParams maxLength maxSubParamsLength =
    (if maxSubParams < maxSubParamsLength then None
     else Some \<lparr>pa_Params = replicate maxLength 0, pa_Length = 0, pa_MaxLength = maxLength,
       pa_subParams = replicate maxSubParamsLength 0, pa_subParamsLength = 0,
       pa_maxSubParamsLen = maxSubParamsLength, pa_subParamsIdx = replicate maxLength 0,
       pa_rejectDigits = False, pa_rejectSubDigits = False, pa_digitIsSub = False\<rparr>)"

definition DefaultParams :: Params where
  "DefaultParams = the (NewParams 32 32)"

definition params_Reset :: "Params \<Rightarrow> Params" where
  "params_Reset p = p\<lparr>pa_Length := 0, pa_subParamsLength := 0, pa_rejectDigits := False,
     pa_rejectSubDigits := False, pa_digitIsSub := False\<rparr>"

definition clamp_param :: "i32 \<Rightarrow> i32" where
  "clamp_param v = (if sint maxParamValue < sint v then maxParamValue else v)"

definition AddParam :: "i32 \<Rightarrow> Params \<Rightarrow> Params option" where
  "AddParam value p =
    (let p = p\<lparr>pa_digitIsSub := False\<rparr>; n = pa_Length p; s = word_of_nat (pa_subParamsLength p) in
     if pa_MaxLength p \<le> n then Some (p\<lparr>pa_rejectDigits := True\<rparr>)
     else if sint value < -1 then None
     else Some (p\<lparr>pa_subParamsIdx := (pa_subParamsIdx p)[n := or (push_bit 8 s) s],
                  pa_Params := (pa_Params p)[n := clamp_param value], pa_Length := n + 1\<rparr>))"

definition AddSubParam :: "i32 \<Rightarrow> Params \<Rightarrow> Params option" where
  "AddSubParam value p =
    (let p = p\<lparr>pa_digitIsSub := True\<rparr>; n = pa_Length p; k = pa_subParamsLength p in
     if n = 0 then Some p
     else if pa_rejectDigits p \<or> pa_maxSubParamsLen p \<le> k then Some (p\<lparr>pa_rejectSubDigits := True\<rparr>)
     else if sint value < -1 then None
     else Some (p\<lparr>pa_subParams := (pa_subParams p)[k := clamp_param value], pa_subParamsLength := k + 1,
                  pa_subParamsIdx := (pa_subParamsIdx p)[n - 1 := pa_subParamsIdx p ! (n - 1) + 1]\<rparr>))"

definition sub_start :: "Params \<Rightarrow> nat \<Rightarrow> nat" where
  "sub_start p i = unat (drop_bit 8 (pa_subParamsIdx p ! i))"

definition sub_end :: "Params \<Rightarrow> nat \<Rightarrow> nat" where
  "sub_end p i = unat (and (pa_subParamsIdx p ! i) 0xFF)"

text \<open>The difference is one of unsigned words.\<close>

definition HasSubParams :: "nat \<Rightarrow> Params \<Rightarrow> bool" where
  "HasSubParams i p \<longleftrightarrow> 0 < and (pa_subParamsIdx p ! i) 0xFF - drop_bit 8 (pa_subParamsIdx p ! i)"

definition GetSubParams :: "nat \<Rightarrow> Params \<Rightarrow> i32 list" where
  "GetSubParams i p =
    (if sub_start p i < sub_end p i
     then take (sub_end p i - sub_start p i) (drop (sub_start p i) (pa_subParams p)) else [])"

definition GetSubParamsAll :: "Params \<Rightarrow> (nat \<times> i32 list) list" where
  "GetSubParamsAll p = filter (\<lambda>(i, xs). xs \<noteq> []) (map (\<lambda>i. (i, GetSubParams i p)) [0..<pa_Length p])"

definition next_value :: "i32 \<Rightarrow> i32 \<Rightarrow> i32" where
  "next_value cur value = (if cur = -1 then value else clamp_param (cur * 10 + value))"

definition AddDigit :: "i32 \<Rightarrow> Params \<Rightarrow> Params" where
  "AddDigit value p =
    (if pa_rejectDigits p then p
     else let n = (if pa_digitIsSub p then pa_subParamsLength p else pa_Length p) in
       if n = 0 then p
       else if pa_digitIsSub p \<and> pa_rejectSubDigits p then p
       else if pa_digitIsSub p
       then p\<lparr>pa_subParams := (pa_subParams p)[n - 1 := next_value (pa_subParams p ! (n - 1)) value]\<rparr>
       else p\<lparr>pa_Params := (pa_Params p)[n - 1 := next_value (pa_Params p ! (n - 1)) value]\<rparr>)"

text \<open>\<^verbatim>\<open>ToArray\<close>: an \<open>Inl\<close> per parameter, an \<open>Inr\<close> for its sub-parameters if it has any.\<close>

definition ToArray :: "Params \<Rightarrow> (i32 + i32 list) list" where
  "ToArray p = concat (map (\<lambda>i. Inl (pa_Params p ! i) #
     (if GetSubParams i p = [] then [] else [Inr (GetSubParams i p)])) [0..<pa_Length p])"

fun add_subs :: "i32 list \<Rightarrow> Params \<Rightarrow> Params option" where
  "add_subs [] p = Some p"
| "add_subs (v # vs) p = Option.bind (AddSubParam v p) (add_subs vs)"

fun add_elements :: "(i32 + i32 list) list \<Rightarrow> Params \<Rightarrow> Params option" where
  "add_elements [] p = Some p"
| "add_elements (Inl v # xs) p = Option.bind (AddParam v p) (add_elements xs)"
| "add_elements (Inr vs # xs) p = Option.bind (add_subs vs p) (add_elements xs)"

definition ParamsFromArray :: "(i32 + i32 list) list \<Rightarrow> Params option" where
  "ParamsFromArray values =
    (case values of Inr _ # xs \<Rightarrow> add_elements xs DefaultParams
     | _ \<Rightarrow> add_elements values DefaultParams)"

section \<open>What the arrays hold\<close>

text \<open>The abstract value: the parameters in order, each with its sub-parameters.\<close>

definition params_view :: "Params \<Rightarrow> (i32 \<times> i32 list) list" where
  "params_view p = map (\<lambda>i. (pa_Params p ! i, GetSubParams i p)) [0..<pa_Length p]"

text \<open>
  \<open>repr p xs\<close>: the arrays hold the list \<open>xs\<close>. The arrays have their sizes, the ranges of the
  parameters follow one another, a limit of at most 255 keeps both ends of a range within their
  eight bits, and the flags say what they are meant to.
\<close>

definition offset :: "(i32 \<times> i32 list) list \<Rightarrow> nat \<Rightarrow> nat" where
  "offset xs i = length (concat (map snd (take i xs)))"

definition repr :: "Params \<Rightarrow> (i32 \<times> i32 list) list \<Rightarrow> bool" where
  "repr p xs \<longleftrightarrow> length (pa_Params p) = pa_MaxLength p \<and> length (pa_subParamsIdx p) = pa_MaxLength p
     \<and> length (pa_subParams p) = pa_maxSubParamsLen p \<and> pa_maxSubParamsLen p \<le> 255
     \<and> pa_Length p = length xs \<and> length xs \<le> pa_MaxLength p
     \<and> pa_subParamsLength p = offset xs (length xs) \<and> offset xs (length xs) \<le> pa_maxSubParamsLen p
     \<and> take (length xs) (pa_Params p) = map fst xs
     \<and> take (offset xs (length xs)) (pa_subParams p) = concat (map snd xs)
     \<and> (\<forall>i < length xs. pa_subParamsIdx p ! i = pack8 (offset xs i) (offset xs (Suc i)))
     \<and> (pa_rejectDigits p \<longrightarrow> length xs = pa_MaxLength p)
     \<and> (pa_rejectSubDigits p \<longrightarrow> pa_rejectDigits p \<or> offset xs (length xs) = pa_maxSubParamsLen p)
     \<and> (pa_digitIsSub p \<and> xs \<noteq> [] \<and> \<not> pa_rejectDigits p \<and> \<not> pa_rejectSubDigits p \<longrightarrow> snd (last xs) \<noteq> [])"

lemma offset_simps [simp]:
  "i \<le> length xs \<Longrightarrow> offset (xs @ ys) i = offset xs i"
  "offset xs 0 = 0"
  by (simp_all add: offset_def)

lemma offset_mono: "i \<le> j \<Longrightarrow> offset xs i \<le> offset xs j"
proof -
  assume "i \<le> j"
  then have "take i xs = take i (take j xs)" by (simp add: min_absorb1)
  then have "take j xs = take i xs @ drop i (take j xs)" by (metis append_take_drop_id)
  then show ?thesis unfolding offset_def by (metis concat_append length_append le_add1 map_append)
qed

lemma offset_le: "i \<le> length xs \<Longrightarrow> offset xs i \<le> offset xs (length xs)"
  by (rule offset_mono)

lemma offset_Suc: "i < length xs \<Longrightarrow> offset xs (Suc i) = offset xs i + length (snd (xs ! i))"
  by (simp add: offset_def take_Suc_conv_app_nth)

lemma concat_slice:
  assumes "i < length xs"
  shows "take (length (snd (xs ! i))) (drop (offset xs i) (concat (map snd xs))) = snd (xs ! i)"
proof -
  have "concat (map snd xs) = concat (map snd (take i xs @ xs ! i # drop (Suc i) xs))"
    using assms by (simp only: id_take_nth_drop [symmetric])
  then have "concat (map snd xs)
      = concat (map snd (take i xs)) @ snd (xs ! i) @ concat (map snd (drop (Suc i) xs))"
    by simp
  then show ?thesis by (simp add: offset_def)
qed

lemma repr_subs:
  assumes "repr p xs" and "i < length xs"
  shows "GetSubParams i p = snd (xs ! i)" "HasSubParams i p \<longleftrightarrow> snd (xs ! i) \<noteq> []"
proof -
  have i: "pa_subParamsIdx p ! i = pack8 (offset xs i) (offset xs (Suc i))"
    and t: "take (offset xs (length xs)) (pa_subParams p) = concat (map snd xs)"
    and le: "offset xs (length xs) \<le> 255"
    using assms by (auto simp: repr_def)
  have s: "offset xs (Suc i) \<le> offset xs (length xs)" using assms(2) by (intro offset_le) simp
  have o: "offset xs (Suc i) = offset xs i + length (snd (xs ! i))" by (rule offset_Suc [OF assms(2)])
  have b: "offset xs i < 256" "offset xs (Suc i) < 256" using s o le by linarith+
  note parts = pack8_parts [OF b, where ?'a = 32, simplified]
  have "take (length (snd (xs ! i))) (drop (offset xs i) (pa_subParams p))
      = take (length (snd (xs ! i))) (drop (offset xs i) (take (offset xs (length xs)) (pa_subParams p)))"
    using s o by (simp add: drop_take min_absorb1)
  also have "\<dots> = snd (xs ! i)" unfolding t by (rule concat_slice [OF assms(2)])
  finally show "GetSubParams i p = snd (xs ! i)"
    unfolding GetSubParams_def sub_start_def sub_end_def i parts by (simp add: o)
  have "and (pack8 (offset xs i) (offset xs (Suc i)) :: u32) 0xFF - drop_bit 8 (pack8 (offset xs i) (offset xs (Suc i)))
      = word_of_nat (length (snd (xs ! i)))"
    using arg_cong [OF parts(1), of "word_of_nat :: nat \<Rightarrow> u32"] arg_cong [OF parts(2), of "word_of_nat :: nat \<Rightarrow> u32"]
    by (simp add: o)
  moreover have "length (snd (xs ! i)) < 256" using o b by linarith
  ultimately show "HasSubParams i p \<longleftrightarrow> snd (xs ! i) \<noteq> []"
    unfolding HasSubParams_def i by (auto simp: word_greater_zero_iff word_of_nat_eq_0_iff)
qed

lemma repr_view: "repr p xs \<Longrightarrow> params_view p = xs"
proof -
  assume r: "repr p xs"
  then have l: "pa_Length p = length xs" and t: "take (length xs) (pa_Params p) = map fst xs"
    by (auto simp: repr_def)
  have "pa_Params p ! i = fst (xs ! i)" if "i < length xs" for i
    using arg_cong [OF t, of "\<lambda>l. l ! i"] that by simp
  then show ?thesis
    unfolding params_view_def l by (intro nth_equalityI) (auto simp: repr_subs [OF r])
qed

section \<open>The operations on the list\<close>

text \<open>The clamp is dead code: the bound is the largest \<^verbatim>\<open>int32\<close>.\<close>

lemma clamp_param_id [simp]: "clamp_param v = v"
proof -
  have "sint v \<le> 2147483647" using sint_lt [of v] by simp
  then show ?thesis by (simp add: clamp_param_def maxParamValue_def)
qed

definition list_AddParam :: "nat \<Rightarrow> i32 \<Rightarrow> (i32 \<times> i32 list) list \<Rightarrow> (i32 \<times> i32 list) list" where
  "list_AddParam maxLen v xs = (if length xs < maxLen then xs @ [(v, [])] else xs)"

definition list_AddSub :: "bool \<Rightarrow> nat \<Rightarrow> i32 \<Rightarrow> (i32 \<times> i32 list) list \<Rightarrow> (i32 \<times> i32 list) list" where
  "list_AddSub reject maxSubs v xs =
    (if xs = [] \<or> reject \<or> maxSubs \<le> length (concat (map snd xs)) then xs
     else butlast xs @ [(fst (last xs), snd (last xs) @ [v])])"

definition list_AddDigit :: "bool \<Rightarrow> i32 \<Rightarrow> (i32 \<times> i32 list) list \<Rightarrow> (i32 \<times> i32 list) list" where
  "list_AddDigit sub d xs =
    (if xs = [] then []
     else if sub
     then butlast xs @ [(fst (last xs), butlast (snd (last xs)) @ [next_value (last (snd (last xs))) d])]
     else butlast xs @ [(next_value (fst (last xs)) d, snd (last xs))])"

lemma repr_default: "repr DefaultParams []"
  by (simp add: repr_def DefaultParams_def NewParams_def maxSubParams_def)

lemma repr_Reset: "repr p xs \<Longrightarrow> repr (params_Reset p) []"
  by (simp add: repr_def params_Reset_def)

lemma take_update_last:
  "n < length ys \<Longrightarrow> take n ys = zs \<Longrightarrow> take (Suc n) (ys[n := v]) = zs @ [v]"
  by (simp add: take_Suc_conv_app_nth)

lemma repr_AddParam:
  assumes "repr p xs" and "-1 \<le> sint v"
  shows "\<exists>q. AddParam v p = Some q \<and> repr q (list_AddParam (pa_MaxLength p) v xs)
    \<and> pa_MaxLength q = pa_MaxLength p \<and> pa_maxSubParamsLen q = pa_maxSubParamsLen p \<and> \<not> pa_digitIsSub q
    \<and> pa_rejectDigits q = (pa_rejectDigits p \<or> pa_MaxLength p \<le> length xs)
    \<and> pa_rejectSubDigits q = pa_rejectSubDigits p"
proof (cases "length xs < pa_MaxLength p")
  case True
  let ?k = "offset xs (length xs)"
  have r: "length (pa_Params p) = pa_MaxLength p" "length (pa_subParamsIdx p) = pa_MaxLength p"
    "pa_subParamsLength p = ?k" "?k \<le> 255" "pa_Length p = length xs"
    "take (length xs) (pa_Params p) = map fst xs"
    and idx: "i < length xs \<Longrightarrow> pa_subParamsIdx p ! i = pack8 (offset xs i) (offset xs (Suc i))" for i
    using assms(1) by (auto simp: repr_def)
  define q where "q = p\<lparr>pa_digitIsSub := False, pa_subParamsIdx := (pa_subParamsIdx p)[length xs := pack8 ?k ?k],
    pa_Params := (pa_Params p)[length xs := v], pa_Length := Suc (length xs)\<rparr>"
  have "AddParam v p = Some q"
    using True r assms(2) pack8_or [of ?k ?k, where ?'a = 32] by (simp add: AddParam_def q_def Let_def)
  moreover have "offset (xs @ [(v, [])]) (Suc (length xs)) = ?k" by (simp add: offset_def)
  moreover have "pa_subParamsIdx q ! i = pack8 (offset (xs @ [(v, [])]) i) (offset (xs @ [(v, [])]) (Suc i))"
    if "i < Suc (length xs)" for i
    using that True r idx [of i] calculation(2) by (cases "i = length xs") (auto simp: q_def)
  moreover have "take (Suc (length xs)) (pa_Params q) = map fst (xs @ [(v, [])])"
    using take_update_last [OF _ r(6)] True r(1) by (simp add: q_def)
  moreover have "\<not> pa_rejectDigits p" using assms(1) True by (auto simp: repr_def)
  ultimately show ?thesis
    using assms(1) True by (intro exI [of _ q]) (auto simp: list_AddParam_def repr_def q_def)
next
  case False
  then show ?thesis
    using assms(1) by (auto simp: AddParam_def Let_def list_AddParam_def repr_def)
qed

lemma repr_snoc: "repr p xs \<Longrightarrow> xs \<noteq> [] \<Longrightarrow> \<exists>ys v vs. xs = ys @ [(v, vs)]"
  by (metis rev_exhaust surj_pair)

lemma repr_AddSubParam:
  assumes "repr p xs" and "-1 \<le> sint v"
  shows "\<exists>q. AddSubParam v p = Some q
    \<and> repr q (list_AddSub (pa_rejectDigits p) (pa_maxSubParamsLen p) v xs)
    \<and> pa_MaxLength q = pa_MaxLength p \<and> pa_maxSubParamsLen q = pa_maxSubParamsLen p \<and> pa_digitIsSub q
    \<and> pa_rejectDigits q = pa_rejectDigits p
    \<and> (xs \<noteq> [] \<longrightarrow> pa_rejectSubDigits q = (pa_rejectSubDigits p \<or> pa_rejectDigits p
          \<or> pa_maxSubParamsLen p \<le> length (concat (map snd xs))))"
proof (cases "xs = [] \<or> pa_rejectDigits p \<or> pa_maxSubParamsLen p \<le> offset xs (length xs)")
  case True
  then show ?thesis
    using assms(1) by (auto simp: AddSubParam_def Let_def list_AddSub_def repr_def offset_def)
next
  case False
  then obtain ys w vs where xs: "xs = ys @ [(w, vs)]" using repr_snoc [OF assms(1)] by blast
  let ?k = "offset xs (length xs)" and ?n = "length ys"
  let ?zs = "ys @ [(w, vs @ [v])]"
  have r: "length (pa_subParams p) = pa_maxSubParamsLen p" "length (pa_subParamsIdx p) = pa_MaxLength p"
    "pa_subParamsLength p = ?k" "pa_Length p = Suc ?n" "Suc ?n \<le> pa_MaxLength p"
    "take ?k (pa_subParams p) = concat (map snd xs)"
    and idx: "i < length xs \<Longrightarrow> pa_subParamsIdx p ! i = pack8 (offset xs i) (offset xs (Suc i))" for i
    using assms(1) by (auto simp: repr_def xs)
  have k: "offset ?zs (Suc ?n) = Suc ?k" "offset xs ?n = offset ?zs ?n" "?k < pa_maxSubParamsLen p"
    "length xs = Suc ?n"
    using False by (auto simp: offset_def xs)
  define q where "q = p\<lparr>pa_digitIsSub := True, pa_subParams := (pa_subParams p)[?k := v],
    pa_subParamsLength := Suc ?k,
    pa_subParamsIdx := (pa_subParamsIdx p)[?n := pa_subParamsIdx p ! ?n + 1]\<rparr>"
  have "AddSubParam v p = Some q"
    using False r assms(2) k by (simp add: AddSubParam_def q_def Let_def)
  moreover have qi: "pa_subParamsIdx q ! i = pack8 (offset ?zs i) (offset ?zs (Suc i))" if "i < Suc ?n" for i
    using that r idx [of i] k by (cases "i = ?n") (auto simp: q_def pack8_Suc xs)
  moreover have qs: "take (Suc ?k) (pa_subParams q) = concat (map snd ?zs)"
    using take_update_last [OF _ r(6)] k r(1) by (simp add: q_def) (simp add: xs)
  moreover have "\<not> pa_rejectSubDigits p" "\<not> pa_rejectDigits p" using assms(1) False by (auto simp: repr_def)
  moreover have "pa_rejectDigits q = pa_rejectDigits p" "pa_rejectSubDigits q = pa_rejectSubDigits p"
    by (simp_all add: q_def)
  moreover have "repr q ?zs"
  proof -
    define zs where "zs = ?zs"
    have "map fst zs = map fst xs" "length zs = length xs" "snd (last zs) \<noteq> []" by (simp_all add: xs zs_def)
    moreover have "pa_subParamsLength q = Suc ?k" "pa_Length q = length xs" "pa_MaxLength q = pa_MaxLength p"
      "pa_Params q = pa_Params p" "length (pa_subParams q) = pa_maxSubParamsLen q"
      "length (pa_subParamsIdx q) = pa_MaxLength q" "pa_maxSubParamsLen q = pa_maxSubParamsLen p"
      "\<not> pa_rejectDigits q" "\<not> pa_rejectSubDigits q"
      using r k \<open>\<not> pa_rejectSubDigits p\<close> \<open>\<not> pa_rejectDigits p\<close> by (simp_all add: q_def)
    moreover have "offset zs (length xs) = Suc ?k" "take (Suc ?k) (pa_subParams q) = concat (map snd zs)"
      "i < length xs \<Longrightarrow> pa_subParamsIdx q ! i = pack8 (offset zs i) (offset zs (Suc i))" for i
      using k(1) qs qi by (simp_all add: zs_def k(4))
    moreover have "pa_maxSubParamsLen p \<le> 255" "length (pa_Params p) = pa_MaxLength p"
      "length xs \<le> pa_MaxLength p" "take (length xs) (pa_Params p) = map fst xs"
      using assms(1) by (auto simp: repr_def)
    ultimately have "repr q zs" using k(3) by (simp only: repr_def) simp
    then show ?thesis by (simp add: zs_def)
  qed
  moreover have "list_AddSub (pa_rejectDigits p) (pa_maxSubParamsLen p) v xs = ?zs"
    using False by (simp add: list_AddSub_def xs offset_def)
  ultimately show ?thesis using False by (intro exI [of _ q]) (auto simp: q_def offset_def xs)
qed

lemma repr_AddDigit:
  assumes "repr p xs"
  shows "repr (AddDigit d p) (if pa_rejectDigits p \<or> pa_digitIsSub p \<and> pa_rejectSubDigits p then xs
      else list_AddDigit (pa_digitIsSub p) d xs)"
proof (cases "pa_rejectDigits p \<or> pa_digitIsSub p \<and> pa_rejectSubDigits p \<or> xs = []")
  case True
  have "AddDigit d p = p"
  proof (cases "xs = []")
    case True
    with assms show ?thesis by (simp add: AddDigit_def Let_def repr_def)
  next
    case False
    with True show ?thesis by (auto simp: AddDigit_def Let_def)
  qed
  moreover have "list_AddDigit (pa_digitIsSub p) d [] = []" by (simp add: list_AddDigit_def)
  ultimately show ?thesis using assms True by auto
next
  case False
  then obtain ys w vs where xs: "xs = ys @ [(w, vs)]" using repr_snoc [OF assms] by blast
  let ?k = "offset xs (length xs)" and ?n = "length ys"
  have r: "length (pa_subParams p) = pa_maxSubParamsLen p" "length (pa_Params p) = pa_MaxLength p"
    "pa_subParamsLength p = ?k" "?k \<le> pa_maxSubParamsLen p" "pa_Length p = Suc ?n" "Suc ?n \<le> pa_MaxLength p"
    and subs: "take ?k (pa_subParams p) = concat (map snd xs)" and ps: "take (Suc ?n) (pa_Params p) = map fst xs"
    using assms by (auto simp: repr_def xs)
  show ?thesis
  proof (cases "pa_digitIsSub p")
    case sub: True
    then have "vs \<noteq> []" using assms False by (auto simp: repr_def xs)
    then obtain us u where vs: "vs = us @ [u]" by (metis rev_exhaust)
    let ?zs = "ys @ [(w, us @ [next_value u d])]"
    have k: "?k = Suc (length (concat (map snd ys) @ us))" by (simp add: offset_def xs vs)
    have o: "offset ?zs i = offset xs i" if "i \<le> Suc ?n" for i
      using that by (cases "i = Suc ?n") (auto simp: offset_def xs vs)
    have "pa_subParams p ! (?k - 1) = u"
      using arg_cong [OF subs, of "\<lambda>l. l ! (?k - 1)"] k by (simp add: xs vs nth_append)
    then have eq: "AddDigit d p = p\<lparr>pa_subParams := (pa_subParams p)[?k - 1 := next_value u d]\<rparr>"
      using False sub r k by (simp add: AddDigit_def Let_def)
    have "take ?k ((pa_subParams p)[?k - 1 := next_value u d]) = (take ?k (pa_subParams p))[?k - 1 := next_value u d]"
      by (simp add: take_update_swap)
    also have "\<dots> = concat (map snd ?zs)" unfolding subs using k by (simp add: xs vs list_update_append)
    finally have "take ?k ((pa_subParams p)[?k - 1 := next_value u d]) = concat (map snd ?zs)" .
    then have "repr (AddDigit d p) ?zs"
      unfolding eq using assms o by (auto simp: repr_def xs vs)
    then show ?thesis using False sub by (simp add: list_AddDigit_def xs vs)
  next
    case main: False
    let ?zs = "ys @ [(next_value w d, vs)]"
    have o: "offset ?zs i = offset xs i" for i
      by (cases "i - ?n") (auto simp: offset_def xs)
    have "pa_Params p ! ?n = w"
      using arg_cong [OF ps, of "\<lambda>l. l ! ?n"] by (simp add: xs nth_append)
    then have eq: "AddDigit d p = p\<lparr>pa_Params := (pa_Params p)[?n := next_value w d]\<rparr>"
      using False main r by (simp add: AddDigit_def Let_def)
    have "take (Suc ?n) ((pa_Params p)[?n := next_value w d]) = (take (Suc ?n) (pa_Params p))[?n := next_value w d]"
      by (simp add: take_update_swap)
    also have "\<dots> = map fst ?zs" unfolding ps by (simp add: xs list_update_append)
    finally have "take (Suc ?n) ((pa_Params p)[?n := next_value w d]) = map fst ?zs" .
    then have "repr (AddDigit d p) ?zs"
      unfolding eq using assms o main by (auto simp: repr_def xs)
    then show ?thesis using False main by (simp add: list_AddDigit_def xs)
  qed
qed

section \<open>Property\<close>

text \<open>
  C31: The parameter arrays implement a list of parameters with their sub-parameters: they can be
  read back in order, \<^verbatim>\<open>AddParam\<close> appends a parameter unless all places are taken, \<^verbatim>\<open>AddSubParam\<close>
  extends the last parameter unless its parameter was refused or all places are taken, \<^verbatim>\<open>AddDigit\<close>
  changes the last value added (and none if that was refused), and none of them panics.
\<close>

theorem params_implement_list:
  assumes "repr p xs" and "-1 \<le> sint v"
  shows "params_view p = xs
    \<and> (\<exists>q. AddParam v p = Some q \<and> repr q (list_AddParam (pa_MaxLength p) v xs))
    \<and> (\<exists>q. AddSubParam v p = Some q
        \<and> repr q (list_AddSub (pa_rejectDigits p) (pa_maxSubParamsLen p) v xs))
    \<and> repr (AddDigit d p) (if pa_rejectDigits p \<or> pa_digitIsSub p \<and> pa_rejectSubDigits p then xs
        else list_AddDigit (pa_digitIsSub p) d xs)"
  using repr_view [OF assms(1)] repr_AddParam [OF assms] repr_AddSubParam [OF assms] repr_AddDigit [OF assms(1)]
  by blast

theorem params_implement_list_witness: "\<exists>q. AddParam 7 DefaultParams = Some q \<and> repr q [(7, [])]"
  using params_implement_list [OF repr_default, of 7 0]
  by (auto simp: list_AddParam_def DefaultParams_def NewParams_def maxSubParams_def)

end
