(* ===== verification/Vt_Strings.thy ===== *)
theory Vt_Strings
  imports Vt_Params Go_Json
begin

text \<open>
  The parsers of string sequences: OSC, APC and DCS (\<^verbatim>\<open>parser_osc.go\<close>, \<^verbatim>\<open>parser_apc.go\<close>,
  \<^verbatim>\<open>parser_dcs.go\<close> in \<^verbatim>\<open>src/internal/xterm\<close>) and the handlers that collect a payload.

  A handler is an object; the model names it by a number, and a table of behaviours says what its
  methods do to the state \<open>'e\<close> outside the parser, which includes the handlers' own fields. OSC and
  APC share the record of their fields, which are the same; so do their \<^verbatim>\<open>Reset\<close>, \<^verbatim>\<open>start\<close>, \<^verbatim>\<open>put\<close>
  and \<^verbatim>\<open>Start\<close>. A Go \<^verbatim>\<open>int\<close> that may overflow is a 64-bit word.
\<close>

section \<open>Runes to strings\<close>

text \<open>\<^verbatim>\<open>utf32ToString\<close>; \<^verbatim>\<open>WriteRune\<close> writes U+FFFD for what is not a rune.\<close>

definition write_rune :: "u32 \<Rightarrow> byte list" where
  "write_rune r =
    (if unat r < 0x110000 \<and> \<not> (0xD800 \<le> unat r \<and> unat r \<le> 0xDFFF) then encode_rune (unat r)
     else encode_rune RuneError)"

definition utf32ToString :: "u32 list \<Rightarrow> byte list" where
  "utf32ToString data = concat (map write_rune data)"

lemma utf32ToString_append [simp]: "utf32ToString (xs @ ys) = utf32ToString xs @ utf32ToString ys"
  by (simp add: utf32ToString_def)

section \<open>OSC and APC\<close>

datatype StringState = StateStart | StateID | StatePayload | StateAbort

datatype fb_action = FbStart | FbPut "byte list" | FbEnd bool | FbHook Params | FbUnhook bool

record 'e str_handler =
  sh_Start :: "'e \<Rightarrow> 'e"
  sh_Put :: "u32 list \<Rightarrow> 'e \<Rightarrow> 'e"
  sh_End :: "bool \<Rightarrow> 'e \<Rightarrow> bool \<times> 'e"

record 'e str_behaviour =
  sb_handler :: "nat \<Rightarrow> 'e str_handler"
  sb_fallback :: "u64 \<Rightarrow> fb_action \<Rightarrow> 'e \<Rightarrow> 'e"

record StringParser =
  sp_state :: StringState
  sp_active :: "nat list"
  sp_id :: u64
  sp_handlers :: "u64 \<rightharpoonup> nat list"

definition NewStringParser :: StringParser where
  "NewStringParser = \<lparr>sp_state = StateStart, sp_active = [], sp_id = -1, sp_handlers = Map.empty\<rparr>"

definition sp_RegisterHandler :: "u64 \<Rightarrow> nat \<Rightarrow> StringParser \<Rightarrow> StringParser" where
  "sp_RegisterHandler ident h p =
    p\<lparr>sp_handlers := (sp_handlers p)(ident \<mapsto> case_option [] id (sp_handlers p ident) @ [h])\<rparr>"

text \<open>
  The registration's \<^verbatim>\<open>Disposable\<close>: \<open>snapshot\<close> is the handler list it captured.
\<close>

definition sp_dispose :: "u64 \<Rightarrow> nat list \<Rightarrow> nat \<Rightarrow> StringParser \<Rightarrow> StringParser" where
  "sp_dispose ident snapshot h p =
    (if h \<in> set snapshot then p\<lparr>sp_handlers := (sp_handlers p)(ident \<mapsto> remove1 h snapshot)\<rparr> else p)"

definition sp_ClearHandler :: "u64 \<Rightarrow> StringParser \<Rightarrow> StringParser" where
  "sp_ClearHandler ident p = p\<lparr>sp_handlers := (sp_handlers p)(ident := None)\<rparr>"

text \<open>The active handlers are called from the last to the first.\<close>

definition end_handlers :: "(nat \<Rightarrow> bool \<Rightarrow> 'e \<Rightarrow> bool \<times> 'e) \<Rightarrow> nat list \<Rightarrow> 'e \<Rightarrow> 'e" where
  "end_handlers end_of hs e = fold (\<lambda>h e. snd (end_of h False e)) hs e"

fun bubble_end :: "(nat \<Rightarrow> bool \<Rightarrow> 'e \<Rightarrow> bool \<times> 'e) \<Rightarrow> bool \<Rightarrow> nat list \<Rightarrow> 'e \<Rightarrow> 'e" where
  "bubble_end end_of success [] e = e"
| "bubble_end end_of success (h # hs) e =
     (case end_of h success e of
        (True, e') \<Rightarrow> end_handlers end_of hs e'
      | (False, e') \<Rightarrow> bubble_end end_of success hs e')"

definition end_of :: "'e str_behaviour \<Rightarrow> nat \<Rightarrow> bool \<Rightarrow> 'e \<Rightarrow> bool \<times> 'e" where
  "end_of B h = sh_End (sb_handler B h)"

definition sp_clear :: "StringParser \<Rightarrow> StringParser" where
  "sp_clear p = p\<lparr>sp_active := [], sp_id := -1, sp_state := StateStart\<rparr>"

definition sp_Reset :: "'e str_behaviour \<Rightarrow> StringParser \<Rightarrow> 'e \<Rightarrow> StringParser \<times> 'e" where
  "sp_Reset B p e =
    (sp_clear p, if sp_state p = StatePayload then end_handlers (end_of B) (rev (sp_active p)) e else e)"

definition sp_start :: "'e str_behaviour \<Rightarrow> StringParser \<Rightarrow> 'e \<Rightarrow> StringParser \<times> 'e" where
  "sp_start B p e =
    (case sp_handlers p (sp_id p) of
       Some (h # hs) \<Rightarrow>
         (p\<lparr>sp_active := h # hs\<rparr>, fold (\<lambda>h. sh_Start (sb_handler B h)) (rev (h # hs)) e)
     | _ \<Rightarrow> (p\<lparr>sp_active := []\<rparr>, sb_fallback B (sp_id p) FbStart e))"

definition sp_put :: "'e str_behaviour \<Rightarrow> u32 list \<Rightarrow> StringParser \<Rightarrow> 'e \<Rightarrow> 'e" where
  "sp_put B data p e =
    (if sp_active p = [] then sb_fallback B (sp_id p) (FbPut (utf32ToString data)) e
     else fold (\<lambda>h. sh_Put (sb_handler B h) data) (rev (sp_active p)) e)"

definition sp_Start :: "'e str_behaviour \<Rightarrow> StringParser \<Rightarrow> 'e \<Rightarrow> StringParser \<times> 'e" where
  "sp_Start B p e = (case sp_Reset B p e of (p', e') \<Rightarrow> (p'\<lparr>sp_state := StateID\<rparr>, e'))"

text \<open>\<^verbatim>\<open>OscParser.Put\<close>: the loop over the identifier, and what it leaves of the data.\<close>

fun osc_id_loop :: "'e str_behaviour \<Rightarrow> u32 list \<Rightarrow> StringParser \<Rightarrow> 'e \<Rightarrow> u32 list \<times> StringParser \<times> 'e" where
  "osc_id_loop B [] p e = ([], p, e)"
| "osc_id_loop B (code # data) p e =
     (if code = 0x3b then (data, sp_start B (p\<lparr>sp_state := StatePayload\<rparr>) e)
      else if code < 0x30 \<or> 0x39 < code then ([], p\<lparr>sp_state := StateAbort\<rparr>, e)
      else osc_id_loop B data
        (p\<lparr>sp_id := (if sp_id p = -1 then 0 else sp_id p) * 10 + ucast code - 48\<rparr>) e)"

definition put_payload ::
  "'e str_behaviour \<Rightarrow> u32 list \<times> StringParser \<times> 'e \<Rightarrow> StringParser \<times> 'e" where
  "put_payload B r = (case r of (data, p, e) \<Rightarrow>
     (p, if sp_state p = StatePayload \<and> data \<noteq> [] then sp_put B data p e else e))"

definition osc_Put :: "'e str_behaviour \<Rightarrow> u32 list \<Rightarrow> StringParser \<times> 'e \<Rightarrow> StringParser \<times> 'e" where
  "osc_Put B data pe =
    (case pe of (p, e) \<Rightarrow>
       if sp_state p = StateAbort then (p, e)
       else put_payload B (if sp_state p = StateID then osc_id_loop B data p e else (data, p, e)))"

definition sp_finish :: "'e str_behaviour \<Rightarrow> bool \<Rightarrow> StringParser \<Rightarrow> 'e \<Rightarrow> 'e" where
  "sp_finish B success p e =
    (if sp_active p = [] then sb_fallback B (sp_id p) (FbEnd success) e
     else bubble_end (end_of B) success (rev (sp_active p)) e)"

definition osc_End :: "'e str_behaviour \<Rightarrow> bool \<Rightarrow> StringParser \<Rightarrow> 'e \<Rightarrow> StringParser \<times> 'e" where
  "osc_End B success p e =
    (if sp_state p = StateStart then (p, e)
     else if sp_state p = StateAbort then (sp_clear p, e)
     else case (if sp_state p = StateID then sp_start B p e else (p, e)) of
       (p', e') \<Rightarrow> (sp_clear p', sp_finish B success p' e'))"

definition apc_Put :: "'e str_behaviour \<Rightarrow> u32 list \<Rightarrow> StringParser \<times> 'e \<Rightarrow> StringParser \<times> 'e" where
  "apc_Put B data pe =
    (case pe of (p, e) \<Rightarrow>
       if sp_state p = StateAbort then (p, e)
       else put_payload B
         (case data of
            code # rest \<Rightarrow>
              if sp_state p = StateID
              then (rest, sp_start B (p\<lparr>sp_id := ucast code, sp_state := StatePayload\<rparr>) e)
              else (data, p, e)
          | [] \<Rightarrow> (data, p, e)))"

definition apc_End :: "'e str_behaviour \<Rightarrow> bool \<Rightarrow> StringParser \<Rightarrow> 'e \<Rightarrow> StringParser \<times> 'e" where
  "apc_End B success p e =
    (if sp_state p = StateStart then (p, e)
     else if sp_state p = StateAbort \<or> sp_state p = StateID then (sp_clear p, e)
     else (sp_clear p, sp_finish B success p e))"

section \<open>DCS\<close>

record 'e dcs_handler =
  dh_Hook :: "Params \<Rightarrow> 'e \<Rightarrow> 'e"
  dh_Put :: "u32 list \<Rightarrow> 'e \<Rightarrow> 'e"
  dh_Unhook :: "bool \<Rightarrow> 'e \<Rightarrow> bool \<times> 'e"

record 'e dcs_behaviour =
  db_handler :: "nat \<Rightarrow> 'e dcs_handler"
  db_fallback :: "u64 \<Rightarrow> fb_action \<Rightarrow> 'e \<Rightarrow> 'e"

record DcsParser =
  dp_handlers :: "u64 \<rightharpoonup> nat list"
  dp_active :: "nat list"
  dp_ident :: u64

definition NewDcsParser :: DcsParser where
  "NewDcsParser = \<lparr>dp_handlers = Map.empty, dp_active = [], dp_ident = 0\<rparr>"

definition dcs_RegisterHandler :: "u64 \<Rightarrow> nat \<Rightarrow> DcsParser \<Rightarrow> DcsParser" where
  "dcs_RegisterHandler ident h p =
    p\<lparr>dp_handlers := (dp_handlers p)(ident \<mapsto> case_option [] id (dp_handlers p ident) @ [h])\<rparr>"

definition unhook_of :: "'e dcs_behaviour \<Rightarrow> nat \<Rightarrow> bool \<Rightarrow> 'e \<Rightarrow> bool \<times> 'e" where
  "unhook_of D h = dh_Unhook (db_handler D h)"

definition dcs_clear :: "DcsParser \<Rightarrow> DcsParser" where
  "dcs_clear p = p\<lparr>dp_active := [], dp_ident := 0\<rparr>"

definition dcs_Reset :: "'e dcs_behaviour \<Rightarrow> DcsParser \<Rightarrow> 'e \<Rightarrow> DcsParser \<times> 'e" where
  "dcs_Reset D p e = (dcs_clear p, end_handlers (unhook_of D) (rev (dp_active p)) e)"

definition dcs_Hook :: "'e dcs_behaviour \<Rightarrow> u64 \<Rightarrow> Params \<Rightarrow> DcsParser \<Rightarrow> 'e \<Rightarrow> DcsParser \<times> 'e" where
  "dcs_Hook D ident params p e =
    (case dcs_Reset D p e of (p', e') \<Rightarrow>
       (case dp_handlers p' ident of
          Some (h # hs) \<Rightarrow>
            (p'\<lparr>dp_ident := ident, dp_active := h # hs\<rparr>,
             fold (\<lambda>h. dh_Hook (db_handler D h) params) (rev (h # hs)) e')
        | _ \<Rightarrow> (p'\<lparr>dp_ident := ident, dp_active := []\<rparr>, db_fallback D ident (FbHook params) e')))"

definition dcs_Put :: "'e dcs_behaviour \<Rightarrow> u32 list \<Rightarrow> DcsParser \<times> 'e \<Rightarrow> DcsParser \<times> 'e" where
  "dcs_Put D data pe =
    (case pe of (p, e) \<Rightarrow>
       (p, if dp_active p = [] then db_fallback D (dp_ident p) (FbPut (utf32ToString data)) e
           else fold (\<lambda>h. dh_Put (db_handler D h) data) (rev (dp_active p)) e))"

definition dcs_Unhook :: "'e dcs_behaviour \<Rightarrow> bool \<Rightarrow> DcsParser \<Rightarrow> 'e \<Rightarrow> DcsParser \<times> 'e" where
  "dcs_Unhook D success p e =
    (dcs_clear p,
     if dp_active p = [] then db_fallback D (dp_ident p) (FbUnhook success) e
     else bubble_end (unhook_of D) success (rev (dp_active p)) e)"

section \<open>Collecting handlers\<close>

text \<open>
  \<^verbatim>\<open>OscStringHandler\<close>, \<^verbatim>\<open>ApcStringHandler\<close> and \<^verbatim>\<open>DcsStringHandler\<close>: the fields of handler \<open>h\<close> are
  \<open>st_acc s h\<close>; the callback acts on what lies outside all handlers.
\<close>

definition ParserPayloadLimit :: nat where
  "ParserPayloadLimit = 10000000"

definition emptyDcsParams :: Params where
  "emptyDcsParams = the (AddParam 0 DefaultParams)"

record collector =
  co_data :: "byte list"
  co_hitLimit :: bool
  co_params :: Params

record 'x store =
  st_acc :: "nat \<Rightarrow> collector"
  st_rest :: 'x

definition set_acc :: "nat \<Rightarrow> collector \<Rightarrow> 'x store \<Rightarrow> 'x store" where
  "set_acc h c s = s\<lparr>st_acc := (st_acc s)(h := c)\<rparr>"

definition collect_Start :: "nat \<Rightarrow> 'x store \<Rightarrow> 'x store" where
  "collect_Start h s = set_acc h ((st_acc s h)\<lparr>co_data := [], co_hitLimit := False\<rparr>) s"

definition collect_Put :: "nat \<Rightarrow> u32 list \<Rightarrow> 'x store \<Rightarrow> 'x store" where
  "collect_Put h data s =
    (let c = st_acc s h; d = co_data c @ utf32ToString data in
     if co_hitLimit c then s
     else if ParserPayloadLimit < length d then set_acc h (c\<lparr>co_data := [], co_hitLimit := True\<rparr>) s
     else set_acc h (c\<lparr>co_data := d\<rparr>) s)"

definition collect_End ::
  "(byte list \<Rightarrow> 'x \<Rightarrow> bool \<times> 'x) \<Rightarrow> nat \<Rightarrow> bool \<Rightarrow> 'x store \<Rightarrow> bool \<times> 'x store" where
  "collect_End callback h success s =
    (let c = st_acc s h;
         (ret, x) = (if \<not> co_hitLimit c \<and> success then callback (co_data c) (st_rest s) else (False, st_rest s)) in
     (ret, set_acc h (c\<lparr>co_data := [], co_hitLimit := False\<rparr>) (s\<lparr>st_rest := x\<rparr>)))"

definition collect_Hook :: "nat \<Rightarrow> Params \<Rightarrow> 'x store \<Rightarrow> 'x store" where
  "collect_Hook h params s =
    set_acc h \<lparr>co_data = [], co_hitLimit = False,
      co_params = (if 1 < pa_Length params \<or> pa_Params params ! 0 \<noteq> 0 then params else emptyDcsParams)\<rparr> s"

definition collect_Unhook ::
  "(byte list \<Rightarrow> Params \<Rightarrow> 'x \<Rightarrow> bool \<times> 'x) \<Rightarrow> nat \<Rightarrow> bool \<Rightarrow> 'x store \<Rightarrow> bool \<times> 'x store" where
  "collect_Unhook callback h success s =
    (let c = st_acc s h;
         (ret, x) = (if \<not> co_hitLimit c \<and> success then callback (co_data c) (co_params c) (st_rest s)
                     else (False, st_rest s)) in
     (ret, set_acc h \<lparr>co_data = [], co_hitLimit = False, co_params = emptyDcsParams\<rparr> (s\<lparr>st_rest := x\<rparr>)))"

definition string_collectors :: "(nat \<Rightarrow> byte list \<Rightarrow> 'x \<Rightarrow> bool \<times> 'x) \<Rightarrow> 'x store str_behaviour" where
  "string_collectors callback =
    \<lparr>sb_handler = (\<lambda>h. \<lparr>sh_Start = collect_Start h, sh_Put = collect_Put h, sh_End = collect_End (callback h) h\<rparr>),
     sb_fallback = (\<lambda>_ _ s. s)\<rparr>"

definition dcs_collectors ::
  "(nat \<Rightarrow> byte list \<Rightarrow> Params \<Rightarrow> 'x \<Rightarrow> bool \<times> 'x) \<Rightarrow> 'x store dcs_behaviour" where
  "dcs_collectors callback =
    \<lparr>db_handler = (\<lambda>h. \<lparr>dh_Hook = collect_Hook h, dh_Put = collect_Put h, dh_Unhook = collect_Unhook (callback h) h\<rparr>),
     db_fallback = (\<lambda>_ _ s. s)\<rparr>"

section \<open>Payloads in pieces\<close>

text \<open>
  The contract of everything that is fed a payload: two pieces have the effect of one. It holds
  from the collecting handlers up to the parsers of the sequences.
\<close>

locale stream =
  fixes inv :: "'s \<Rightarrow> bool"
    and put :: "u32 list \<Rightarrow> 's \<Rightarrow> 's"
  assumes put_append: "inv s \<Longrightarrow> xs \<noteq> [] \<Longrightarrow> ys \<noteq> [] \<Longrightarrow> put (xs @ ys) s = put ys (put xs s)"
    and put_inv: "inv s \<Longrightarrow> inv (put xs s)"
begin

lemma put_each: "inv s \<Longrightarrow> xs \<noteq> [] \<Longrightarrow> put xs s = fold (\<lambda>x. put [x]) xs s"
proof (induction xs arbitrary: s)
  case (Cons x xs)
  show ?case
  proof (cases "xs = []")
    case False
    then have "put (x # xs) s = put xs (put [x] s)"
      using put_append [OF Cons.prems(1), of "[x]" xs] by simp
    with Cons.IH [OF put_inv [OF Cons.prems(1)] False] show ?thesis by simp
  qed simp
qed simp

lemma put_pieces:
  "inv s \<Longrightarrow> xss \<noteq> [] \<Longrightarrow> [] \<notin> set xss \<Longrightarrow> fold put xss s = put (concat xss) s"
proof (induction xss arbitrary: s)
  case (Cons xs xss)
  show ?case
  proof (cases "xss = []")
    case False
    then have "concat xss \<noteq> []" using Cons.prems(3) by (cases xss) auto
    moreover have "xs \<noteq> []" using Cons.prems(3) by auto
    ultimately have "put (xs @ concat xss) s = put (concat xss) (put xs s)"
      using put_append [OF Cons.prems(1)] by blast
    with Cons.IH [OF put_inv [OF Cons.prems(1)] False] Cons.prems(3) show ?thesis by simp
  qed simp
qed simp

end

interpretation collector: stream "\<lambda>_. True" "collect_Put h" for h
proof
  show "collect_Put h (xs @ ys) s = collect_Put h ys (collect_Put h xs s)" for xs ys and s :: "'x store"
    by (auto simp: collect_Put_def Let_def set_acc_def)
qed simp

text \<open>At most one handler per identifier, as the emulator registers them.\<close>

definition sp_single :: "StringParser \<Rightarrow> bool" where
  "sp_single p \<longleftrightarrow> length (sp_active p) \<le> 1 \<and> (\<forall>i hs. sp_handlers p i = Some hs \<longrightarrow> length hs \<le> 1)"

lemma sp_start_single: "sp_single p \<Longrightarrow> sp_single (fst (sp_start B p e))"
  by (fastforce simp: sp_single_def sp_start_def split: option.splits list.splits)

locale payload_handlers =
  fixes B :: "'e str_behaviour"
  assumes handler_stream: "stream (\<lambda>_. True) (sh_Put (sb_handler B h))"
    and fallback_stream: "stream (\<lambda>_. True) (\<lambda>data. sb_fallback B i (FbPut (utf32ToString data)))"
begin

lemma sp_put_append:
  assumes "sp_single p" and "xs \<noteq> []" and "ys \<noteq> []"
  shows "sp_put B (xs @ ys) p e = sp_put B ys p (sp_put B xs p e)"
proof (cases "sp_active p")
  case Nil
  with stream.put_append [OF fallback_stream _ assms(2,3)] show ?thesis by (simp add: sp_put_def)
next
  case (Cons h hs)
  then have "hs = []" using assms(1) by (simp add: sp_single_def)
  with Cons stream.put_append [OF handler_stream _ assms(2,3)] show ?thesis by (simp add: sp_put_def)
qed

lemma sp_start_fields [simp]:
  "sp_state (fst (sp_start B p e)) = sp_state p" "sp_handlers (fst (sp_start B p e)) = sp_handlers p"
  by (auto simp: sp_start_def split: option.splits list.splits)

lemma osc_id_loop_append:
  assumes "sp_state p = StateID"
  shows "osc_id_loop B (xs @ ys) p e =
    (case osc_id_loop B xs p e of (rest, p', e') \<Rightarrow>
       if sp_state p' = StateID then osc_id_loop B ys p' e'
       else if sp_state p' = StateAbort then ([], p', e')
       else (rest @ ys, p', e'))"
  using assms
proof (induction xs arbitrary: p)
  case (Cons x xs)
  obtain q f where q: "sp_start B (p\<lparr>sp_state := StatePayload\<rparr>) e = (q, f)" by fastforce
  then have "sp_state q = StatePayload"
    using sp_start_fields(1) [of "p\<lparr>sp_state := StatePayload\<rparr>" e] by simp
  moreover have IH: "osc_id_loop B (xs @ ys) (p\<lparr>sp_id := w\<rparr>) e =
    (case osc_id_loop B xs (p\<lparr>sp_id := w\<rparr>) e of (rest, p', e') \<Rightarrow>
       if sp_state p' = StateID then osc_id_loop B ys p' e'
       else if sp_state p' = StateAbort then ([], p', e')
       else (rest @ ys, p', e'))" for w
    using Cons by simp
  ultimately show ?case by (simp add: q del: split_paired_All)
qed simp

lemma osc_id_loop_single:
  "sp_single p \<Longrightarrow> sp_single (fst (snd (osc_id_loop B xs p e)))"
proof (induction xs arbitrary: p)
  case (Cons x xs)
  have "sp_single (p\<lparr>sp_state := st\<rparr>)" "sp_single (p\<lparr>sp_id := w\<rparr>)" for st w
    using Cons.prems by (simp_all add: sp_single_def)
  with Cons.IH show ?case by (simp add: sp_start_single)
qed simp

lemma osc_Put_single: "sp_single (fst pe) \<Longrightarrow> sp_single (fst (osc_Put B xs pe))"
  by (cases pe) (simp add: osc_Put_def put_payload_def osc_id_loop_single split_beta)

lemma osc_Put_append:
  assumes "sp_single (fst pe)" and "xs \<noteq> []" and "ys \<noteq> []"
  shows "osc_Put B (xs @ ys) pe = osc_Put B ys (osc_Put B xs pe)"
proof -
  obtain p e where pe: "pe = (p, e)" by fastforce
  have p: "sp_single p" using assms(1) pe by simp
  show ?thesis
  proof (cases "sp_state p")
    case StateID
    obtain rest q f where q: "osc_id_loop B xs p e = (rest, q, f)" by (metis surj_pair)
    have single: "sp_single q" using osc_id_loop_single [OF p, of xs e] q by simp
    have app: "osc_id_loop B (xs @ ys) p e =
      (if sp_state q = StateID then osc_id_loop B ys q f
       else if sp_state q = StateAbort then ([], q, f) else (rest @ ys, q, f))"
      using osc_id_loop_append [OF StateID, of xs ys e] q by simp
    show ?thesis
    proof (cases "sp_state q = StatePayload \<and> rest \<noteq> []")
      case True
      with sp_put_append [OF single _ assms(3)] show ?thesis
        by (simp add: pe osc_Put_def put_payload_def StateID app q assms(3))
    next
      case False
      then show ?thesis
        by (cases "sp_state q") (simp_all add: pe osc_Put_def put_payload_def StateID app q assms(3))
    qed
  next
    case StatePayload
    with sp_put_append [OF p assms(2,3)] assms(2,3) show ?thesis
      by (simp add: pe osc_Put_def put_payload_def)
  qed (simp_all add: pe osc_Put_def put_payload_def)
qed

lemma apc_Put_single: "sp_single (fst pe) \<Longrightarrow> sp_single (fst (apc_Put B xs pe))"
proof -
  assume "sp_single (fst pe)"
  moreover have "sp_single (p\<lparr>sp_id := w, sp_state := st\<rparr>) = sp_single p" for w st p
    by (simp add: sp_single_def)
  ultimately show ?thesis
    by (cases pe) (auto simp: apc_Put_def put_payload_def split_beta sp_start_single split: list.splits)
qed

lemma apc_Put_append:
  assumes "sp_single (fst pe)" and "xs \<noteq> []" and "ys \<noteq> []"
  shows "apc_Put B (xs @ ys) pe = apc_Put B ys (apc_Put B xs pe)"
proof -
  obtain p e where pe: "pe = (p, e)" by fastforce
  obtain x xs' where xs: "xs = x # xs'" using assms(2) by (cases xs) auto
  have p: "sp_single p" using assms(1) pe by simp
  show ?thesis
  proof (cases "sp_state p")
    case StateID
    let ?p = "p\<lparr>sp_id := ucast x, sp_state := StatePayload\<rparr>"
    obtain q f where q: "sp_start B ?p e = (q, f)" by fastforce
    have st: "sp_state q = StatePayload" using sp_start_fields(1) [of ?p e] q by simp
    have "sp_single ?p" using p by (simp add: sp_single_def)
    then have single: "sp_single q" using sp_start_single [of ?p B e] q by simp
    show ?thesis
    proof (cases "xs' = []")
      case True
      then show ?thesis
        using assms(3) by (simp add: pe apc_Put_def put_payload_def StateID q st xs split: list.splits)
    next
      case False
      with sp_put_append [OF single False assms(3)] show ?thesis
        using assms(3) by (simp add: pe apc_Put_def put_payload_def StateID q st xs split: list.splits)
    qed
  next
    case StatePayload
    with sp_put_append [OF p assms(2,3)] assms(3) show ?thesis
      by (simp add: pe apc_Put_def put_payload_def xs split: list.splits)
  qed (auto simp: pe apc_Put_def put_payload_def xs split: list.splits)
qed

end

sublocale payload_handlers \<subseteq> osc: stream "\<lambda>pe. sp_single (fst pe)" "osc_Put B"
  by unfold_locales (rule osc_Put_append osc_Put_single; assumption)+

sublocale payload_handlers \<subseteq> apc: stream "\<lambda>pe. sp_single (fst pe)" "apc_Put B"
  by unfold_locales (rule apc_Put_append apc_Put_single; assumption)+

interpretation collectors: payload_handlers "string_collectors callback" for callback
proof (rule payload_handlers.intro)
  show "stream (\<lambda>_. True) (sh_Put (sb_handler (string_collectors callback) h))" for h
    by (simp add: string_collectors_def collector.stream_axioms)
  show "stream (\<lambda>_. True) (\<lambda>data. sb_fallback (string_collectors callback) i (FbPut (utf32ToString data)))" for i
    by unfold_locales (simp_all add: string_collectors_def)
qed

locale dcs_payload_handlers =
  fixes D :: "'e dcs_behaviour"
  assumes handler_stream: "stream (\<lambda>_. True) (dh_Put (db_handler D h))"
    and fallback_stream: "stream (\<lambda>_. True) (\<lambda>data. db_fallback D i (FbPut (utf32ToString data)))"
begin

lemma dcs_Put_append:
  assumes "length (dp_active (fst pe)) \<le> 1" and "xs \<noteq> []" and "ys \<noteq> []"
  shows "dcs_Put D (xs @ ys) pe = dcs_Put D ys (dcs_Put D xs pe)"
proof (cases "dp_active (fst pe)")
  case Nil
  with stream.put_append [OF fallback_stream _ assms(2,3)] show ?thesis
    by (cases pe) (simp add: dcs_Put_def)
next
  case (Cons h hs)
  then have "hs = []" using assms(1) by simp
  with Cons stream.put_append [OF handler_stream _ assms(2,3)] show ?thesis
    by (cases pe) (simp add: dcs_Put_def)
qed

lemma dcs_Put_active: "dp_active (fst (dcs_Put D xs pe)) = dp_active (fst pe)"
  by (cases pe) (simp add: dcs_Put_def)

end

sublocale dcs_payload_handlers \<subseteq> dcs: stream "\<lambda>pe. length (dp_active (fst pe)) \<le> 1" "dcs_Put D"
  by unfold_locales (simp_all add: dcs_Put_append dcs_Put_active)

interpretation dcs_collector: dcs_payload_handlers "dcs_collectors callback" for callback
proof (rule dcs_payload_handlers.intro)
  show "stream (\<lambda>_. True) (dh_Put (db_handler (dcs_collectors callback) h))" for h
    by (simp add: dcs_collectors_def collector.stream_axioms)
  show "stream (\<lambda>_. True) (\<lambda>data. db_fallback (dcs_collectors callback) i (FbPut (utf32ToString data)))" for i
    by unfold_locales (simp_all add: dcs_collectors_def)
qed

section \<open>Disposing a handler\<close>

text \<open>
  A disposal reinstates the handler list as it was at the registration, less the handler: whatever
  was registered later under the same identifier is dropped with it.
\<close>

lemma dispose_drops_later_handlers:
  "sp_handlers (sp_dispose i [0] 0 (sp_RegisterHandler i 1 (sp_RegisterHandler i 0 NewStringParser))) i = Some []"
  by (simp add: sp_dispose_def sp_RegisterHandler_def NewStringParser_def)

end
