(* ===== verification/Vt_Table.thy ===== *)
theory Vt_Table
  imports Claw_Prelude
begin

text \<open>
  The transition table of the escape sequence parser (\<^verbatim>\<open>src/internal/xterm/parser_table.go\<close>, the
  states and actions of \<^verbatim>\<open>constants.go\<close>). The table is the function from its index to its entry;
  the rules are entered in the order of the code, a later one overriding an earlier one.
\<close>

section \<open>States and actions\<close>

abbreviation (input) ParserStateGround :: nat where "ParserStateGround \<equiv> 0"
abbreviation (input) ParserStateEscape :: nat where "ParserStateEscape \<equiv> 1"
abbreviation (input) ParserStateEscapeIntermediate :: nat where "ParserStateEscapeIntermediate \<equiv> 2"
abbreviation (input) ParserStateCSIEntry :: nat where "ParserStateCSIEntry \<equiv> 3"
abbreviation (input) ParserStateCSIParam :: nat where "ParserStateCSIParam \<equiv> 4"
abbreviation (input) ParserStateCSIIntermediate :: nat where "ParserStateCSIIntermediate \<equiv> 5"
abbreviation (input) ParserStateCSIIgnore :: nat where "ParserStateCSIIgnore \<equiv> 6"
abbreviation (input) ParserStateSOSPMString :: nat where "ParserStateSOSPMString \<equiv> 7"
abbreviation (input) ParserStateOSCString :: nat where "ParserStateOSCString \<equiv> 8"
abbreviation (input) ParserStateDCSEntry :: nat where "ParserStateDCSEntry \<equiv> 9"
abbreviation (input) ParserStateDCSParam :: nat where "ParserStateDCSParam \<equiv> 10"
abbreviation (input) ParserStateDCSIgnore :: nat where "ParserStateDCSIgnore \<equiv> 11"
abbreviation (input) ParserStateDCSIntermediate :: nat where "ParserStateDCSIntermediate \<equiv> 12"
abbreviation (input) ParserStateDCSPassthrough :: nat where "ParserStateDCSPassthrough \<equiv> 13"
abbreviation (input) ParserStateAPCString :: nat where "ParserStateAPCString \<equiv> 14"
abbreviation (input) ParserStateLength :: nat where "ParserStateLength \<equiv> 15"

abbreviation (input) ParserActionIgnore :: nat where "ParserActionIgnore \<equiv> 0"
abbreviation (input) ParserActionError :: nat where "ParserActionError \<equiv> 1"
abbreviation (input) ParserActionPrint :: nat where "ParserActionPrint \<equiv> 2"
abbreviation (input) ParserActionExecute :: nat where "ParserActionExecute \<equiv> 3"
abbreviation (input) ParserActionOSCStart :: nat where "ParserActionOSCStart \<equiv> 4"
abbreviation (input) ParserActionOSCPut :: nat where "ParserActionOSCPut \<equiv> 5"
abbreviation (input) ParserActionOSCEnd :: nat where "ParserActionOSCEnd \<equiv> 6"
abbreviation (input) ParserActionCSIDispatch :: nat where "ParserActionCSIDispatch \<equiv> 7"
abbreviation (input) ParserActionParam :: nat where "ParserActionParam \<equiv> 8"
abbreviation (input) ParserActionCollect :: nat where "ParserActionCollect \<equiv> 9"
abbreviation (input) ParserActionESCDispatch :: nat where "ParserActionESCDispatch \<equiv> 10"
abbreviation (input) ParserActionClear :: nat where "ParserActionClear \<equiv> 11"
abbreviation (input) ParserActionDCSHook :: nat where "ParserActionDCSHook \<equiv> 12"
abbreviation (input) ParserActionDCSPut :: nat where "ParserActionDCSPut \<equiv> 13"
abbreviation (input) ParserActionDCSUnhook :: nat where "ParserActionDCSUnhook \<equiv> 14"
abbreviation (input) ParserActionAPCStart :: nat where "ParserActionAPCStart \<equiv> 15"
abbreviation (input) ParserActionAPCPut :: nat where "ParserActionAPCPut \<equiv> 16"
abbreviation (input) ParserActionAPCEnd :: nat where "ParserActionAPCEnd \<equiv> 17"

abbreviation (input) nonASCIIPrintable :: nat where "nonASCIIPrintable \<equiv> 0xA0"

section \<open>The table\<close>

type_synonym TransitionTable = "nat \<Rightarrow> u16"

definition table_entry :: "nat \<Rightarrow> nat \<Rightarrow> u16" where
  "table_entry action next = or (push_bit 8 (word_of_nat action)) (word_of_nat next)"

definition table_index :: "nat \<Rightarrow> nat \<Rightarrow> nat" where
  "table_index state code = or (push_bit 8 state) code"

definition SetDefault :: "nat \<Rightarrow> nat \<Rightarrow> TransitionTable \<Rightarrow> TransitionTable" where
  "SetDefault action next t = (\<lambda>_. table_entry action next)"

definition table_Add :: "nat \<Rightarrow> nat \<Rightarrow> nat \<Rightarrow> nat \<Rightarrow> TransitionTable \<Rightarrow> TransitionTable" where
  "table_Add code state action next t = t(table_index state code := table_entry action next)"

definition AddMany :: "nat list \<Rightarrow> nat \<Rightarrow> nat \<Rightarrow> nat \<Rightarrow> TransitionTable \<Rightarrow> TransitionTable" where
  "AddMany codes state action next t = fold (\<lambda>code. table_Add code state action next) codes t"

definition printables :: "nat list" where
  "printables = [0x20..<0x7f]"

definition executables :: "nat list" where
  "executables = [0x00..<0x18] @ [0x19] @ [0x1c..<0x20]"

type_synonym rule = "nat list \<times> nat \<times> nat \<times> nat"

definition add_rule :: "rule \<Rightarrow> TransitionTable \<Rightarrow> TransitionTable" where
  "add_rule = (\<lambda>(codes, state, action, next). AddMany codes state action next)"

text \<open>The rules of the loop over all states, and those that follow it.\<close>

definition anywhere_rules :: "nat \<Rightarrow> rule list" where
  "anywhere_rules state =
    [([0x18], state, ParserActionExecute, ParserStateGround),
     ([0x1a], state, ParserActionExecute, ParserStateGround),
     ([0x1b], state, ParserActionClear, ParserStateEscape),
     ([0x9c], state, ParserActionIgnore, ParserStateGround),
     ([0x9d], state, ParserActionOSCStart, ParserStateOSCString),
     ([0x98, 0x9e], state, ParserActionIgnore, ParserStateSOSPMString),
     ([0x9f], state, ParserActionAPCStart, ParserStateAPCString),
     ([0x9b], state, ParserActionClear, ParserStateCSIEntry),
     ([0x90], state, ParserActionClear, ParserStateDCSEntry)]"

definition state_rules :: "rule list" where
  "state_rules =
    [(executables, ParserStateGround, ParserActionExecute, ParserStateGround),
     (executables, ParserStateEscape, ParserActionExecute, ParserStateEscape),
     ([0x7f], ParserStateEscape, ParserActionIgnore, ParserStateEscape),
     (executables, ParserStateOSCString, ParserActionIgnore, ParserStateOSCString),
     (executables, ParserStateCSIEntry, ParserActionExecute, ParserStateCSIEntry),
     ([0x7f], ParserStateCSIEntry, ParserActionIgnore, ParserStateCSIEntry),
     (executables, ParserStateCSIParam, ParserActionExecute, ParserStateCSIParam),
     ([0x7f], ParserStateCSIParam, ParserActionIgnore, ParserStateCSIParam),
     (executables, ParserStateCSIIgnore, ParserActionExecute, ParserStateCSIIgnore),
     (executables, ParserStateCSIIntermediate, ParserActionExecute, ParserStateCSIIntermediate),
     ([0x7f], ParserStateCSIIntermediate, ParserActionIgnore, ParserStateCSIIntermediate),
     (executables, ParserStateEscapeIntermediate, ParserActionExecute, ParserStateEscapeIntermediate),
     ([0x7f], ParserStateEscapeIntermediate, ParserActionIgnore, ParserStateEscapeIntermediate),
     (printables, ParserStateGround, ParserActionPrint, ParserStateGround),
     ([0x7f], ParserStateGround, ParserActionIgnore, ParserStateGround),
     ([0x5d], ParserStateEscape, ParserActionOSCStart, ParserStateOSCString),
     (printables, ParserStateOSCString, ParserActionOSCPut, ParserStateOSCString),
     ([0x7f], ParserStateOSCString, ParserActionOSCPut, ParserStateOSCString),
     ([0x9c, 0x1b, 0x18, 0x1a, 0x07], ParserStateOSCString, ParserActionOSCEnd, ParserStateGround),
     ([0x1c..<0x20], ParserStateOSCString, ParserActionIgnore, ParserStateOSCString),
     ([0x58, 0x5e], ParserStateEscape, ParserActionIgnore, ParserStateSOSPMString),
     (printables, ParserStateSOSPMString, ParserActionIgnore, ParserStateSOSPMString),
     (executables, ParserStateSOSPMString, ParserActionIgnore, ParserStateSOSPMString),
     ([0x9c], ParserStateSOSPMString, ParserActionIgnore, ParserStateGround),
     ([0x7f], ParserStateSOSPMString, ParserActionIgnore, ParserStateSOSPMString),
     ([0x5f], ParserStateEscape, ParserActionAPCStart, ParserStateAPCString),
     (printables, ParserStateAPCString, ParserActionAPCPut, ParserStateAPCString),
     (executables, ParserStateAPCString, ParserActionIgnore, ParserStateAPCString),
     ([0x7f], ParserStateAPCString, ParserActionIgnore, ParserStateAPCString),
     ([0x1b, 0x9c, 0x18, 0x1a], ParserStateAPCString, ParserActionAPCEnd, ParserStateGround),
     ([0x5b], ParserStateEscape, ParserActionClear, ParserStateCSIEntry),
     ([0x40..<0x7f], ParserStateCSIEntry, ParserActionCSIDispatch, ParserStateGround),
     ([0x30..<0x3c], ParserStateCSIEntry, ParserActionParam, ParserStateCSIParam),
     ([0x3c, 0x3d, 0x3e, 0x3f], ParserStateCSIEntry, ParserActionCollect, ParserStateCSIParam),
     ([0x30..<0x3c], ParserStateCSIParam, ParserActionParam, ParserStateCSIParam),
     ([0x40..<0x7f], ParserStateCSIParam, ParserActionCSIDispatch, ParserStateGround),
     ([0x3c, 0x3d, 0x3e, 0x3f], ParserStateCSIParam, ParserActionIgnore, ParserStateCSIIgnore),
     ([0x20..<0x40], ParserStateCSIIgnore, ParserActionIgnore, ParserStateCSIIgnore),
     ([0x7f], ParserStateCSIIgnore, ParserActionIgnore, ParserStateCSIIgnore),
     ([0x40..<0x7f], ParserStateCSIIgnore, ParserActionIgnore, ParserStateGround),
     ([0x20..<0x30], ParserStateCSIEntry, ParserActionCollect, ParserStateCSIIntermediate),
     ([0x20..<0x30], ParserStateCSIIntermediate, ParserActionCollect, ParserStateCSIIntermediate),
     ([0x30..<0x40], ParserStateCSIIntermediate, ParserActionIgnore, ParserStateCSIIgnore),
     ([0x40..<0x7f], ParserStateCSIIntermediate, ParserActionCSIDispatch, ParserStateGround),
     ([0x20..<0x30], ParserStateCSIParam, ParserActionCollect, ParserStateCSIIntermediate),
     ([0x20..<0x30], ParserStateEscape, ParserActionCollect, ParserStateEscapeIntermediate),
     ([0x20..<0x30], ParserStateEscapeIntermediate, ParserActionCollect, ParserStateEscapeIntermediate),
     ([0x30..<0x7f], ParserStateEscapeIntermediate, ParserActionESCDispatch, ParserStateGround),
     ([0x30..<0x50], ParserStateEscape, ParserActionESCDispatch, ParserStateGround),
     ([0x51..<0x58], ParserStateEscape, ParserActionESCDispatch, ParserStateGround),
     ([0x59, 0x5a, 0x5c], ParserStateEscape, ParserActionESCDispatch, ParserStateGround),
     ([0x60..<0x7f], ParserStateEscape, ParserActionESCDispatch, ParserStateGround),
     ([0x50], ParserStateEscape, ParserActionClear, ParserStateDCSEntry),
     (executables, ParserStateDCSEntry, ParserActionIgnore, ParserStateDCSEntry),
     ([0x7f], ParserStateDCSEntry, ParserActionIgnore, ParserStateDCSEntry),
     ([0x1c..<0x20], ParserStateDCSEntry, ParserActionIgnore, ParserStateDCSEntry),
     ([0x20..<0x30], ParserStateDCSEntry, ParserActionCollect, ParserStateDCSIntermediate),
     ([0x30..<0x3c], ParserStateDCSEntry, ParserActionParam, ParserStateDCSParam),
     ([0x3c, 0x3d, 0x3e, 0x3f], ParserStateDCSEntry, ParserActionCollect, ParserStateDCSParam),
     (executables, ParserStateDCSIgnore, ParserActionIgnore, ParserStateDCSIgnore),
     ([0x20..<0x80], ParserStateDCSIgnore, ParserActionIgnore, ParserStateDCSIgnore),
     ([0x1c..<0x20], ParserStateDCSIgnore, ParserActionIgnore, ParserStateDCSIgnore),
     (executables, ParserStateDCSParam, ParserActionIgnore, ParserStateDCSParam),
     ([0x7f], ParserStateDCSParam, ParserActionIgnore, ParserStateDCSParam),
     ([0x1c..<0x20], ParserStateDCSParam, ParserActionIgnore, ParserStateDCSParam),
     ([0x30..<0x3c], ParserStateDCSParam, ParserActionParam, ParserStateDCSParam),
     ([0x3c, 0x3d, 0x3e, 0x3f], ParserStateDCSParam, ParserActionIgnore, ParserStateDCSIgnore),
     ([0x20..<0x30], ParserStateDCSParam, ParserActionCollect, ParserStateDCSIntermediate),
     (executables, ParserStateDCSIntermediate, ParserActionIgnore, ParserStateDCSIntermediate),
     ([0x7f], ParserStateDCSIntermediate, ParserActionIgnore, ParserStateDCSIntermediate),
     ([0x1c..<0x20], ParserStateDCSIntermediate, ParserActionIgnore, ParserStateDCSIntermediate),
     ([0x20..<0x30], ParserStateDCSIntermediate, ParserActionCollect, ParserStateDCSIntermediate),
     ([0x30..<0x40], ParserStateDCSIntermediate, ParserActionIgnore, ParserStateDCSIgnore),
     ([0x40..<0x7f], ParserStateDCSIntermediate, ParserActionDCSHook, ParserStateDCSPassthrough),
     ([0x40..<0x7f], ParserStateDCSParam, ParserActionDCSHook, ParserStateDCSPassthrough),
     ([0x40..<0x7f], ParserStateDCSEntry, ParserActionDCSHook, ParserStateDCSPassthrough),
     (printables, ParserStateDCSPassthrough, ParserActionDCSPut, ParserStateDCSPassthrough),
     (executables, ParserStateDCSPassthrough, ParserActionDCSPut, ParserStateDCSPassthrough),
     ([0x7f], ParserStateDCSPassthrough, ParserActionIgnore, ParserStateDCSPassthrough),
     ([0x1b, 0x9c, 0x18, 0x1a], ParserStateDCSPassthrough, ParserActionDCSUnhook, ParserStateGround),
     ([nonASCIIPrintable], ParserStateGround, ParserActionPrint, ParserStateGround),
     ([nonASCIIPrintable], ParserStateOSCString, ParserActionOSCPut, ParserStateOSCString),
     ([nonASCIIPrintable], ParserStateCSIIgnore, ParserActionIgnore, ParserStateCSIIgnore),
     ([nonASCIIPrintable], ParserStateDCSIgnore, ParserActionIgnore, ParserStateDCSIgnore),
     ([nonASCIIPrintable], ParserStateDCSPassthrough, ParserActionDCSPut, ParserStateDCSPassthrough),
     ([nonASCIIPrintable], ParserStateAPCString, ParserActionAPCPut, ParserStateAPCString)]"

definition vt500_rules :: "rule list" where
  "vt500_rules = concat (map anywhere_rules [0..<ParserStateLength]) @ state_rules"

definition VT500TransitionTable :: TransitionTable where
  "VT500TransitionTable = fold add_rule vt500_rules (SetDefault ParserActionError ParserStateGround (\<lambda>_. 0))"

section \<open>Reading the table\<close>

text \<open>The last rule for a state and a code decides.\<close>

definition decides :: "nat \<Rightarrow> nat \<Rightarrow> rule \<Rightarrow> bool" where
  "decides state code = (\<lambda>(codes, s, action, next). s = state \<and> code \<in> set codes)"

fun deciding :: "rule list \<Rightarrow> nat \<Rightarrow> nat \<Rightarrow> nat \<times> nat" where
  "deciding [] state code = (ParserActionError, ParserStateGround)"
| "deciding (r # rs) state code =
     (if decides state code r then snd (snd r) else deciding rs state code)"

definition vt500 :: "nat \<Rightarrow> nat \<Rightarrow> nat \<times> nat" where
  "vt500 state code = deciding (rev vt500_rules) state code"

definition rule_ok :: "rule \<Rightarrow> bool" where
  "rule_ok = (\<lambda>(codes, state, action, next). (\<forall>c \<in> set codes. c < 256) \<and> state < ParserStateLength
     \<and> action < 18 \<and> next < ParserStateLength)"

lemma all_states: "[0..<15] = [0, 1, 2, 3, 4, 5, 6, 7, 8, 9, 10, 11, 12, 13, 14]"
  by (simp add: upt_rec)

lemma rules_ok: "list_all rule_ok vt500_rules"
  by (simp add: vt500_rules_def anywhere_rules_def state_rules_def rule_ok_def printables_def
      executables_def all_states ball_Un del: upt_rec_numeral)

lemma table_index_eq: "code < 256 \<Longrightarrow> table_index state code = 256 * state + code"
proof -
  assume "code < 256"
  then have "take_bit 8 code = code" by (simp add: take_bit_nat_eq_self)
  moreover have "and (push_bit 8 state) (take_bit 8 code) = 0"
    by (rule bit_eqI) (auto simp: bit_simps)
  ultimately have "push_bit 8 state + code = or (push_bit 8 state) code"
    by (simp add: disjunctive_add_eq_or)
  then show ?thesis by (simp add: table_index_def push_bit_eq_mult)
qed

lemma table_index_inject:
  "c < 256 \<Longrightarrow> d < 256 \<Longrightarrow> table_index s c = table_index t d \<longleftrightarrow> s = t \<and> c = d"
proof
  assume c: "c < 256" "d < 256" and eq: "table_index s c = table_index t d"
  then have e: "256 * s + c = 256 * t + d" by (simp add: table_index_eq)
  have "s = t" using arg_cong [OF e, of "\<lambda>n. n div 256"] c by simp
  with e show "s = t \<and> c = d" by simp
qed simp

lemma AddMany_lookup:
  assumes "\<forall>c \<in> set codes. c < 256" and "code < 256"
  shows "AddMany codes s a n t (table_index state code)
    = (if s = state \<and> code \<in> set codes then table_entry a n else t (table_index state code))"
  using assms unfolding AddMany_def
  by (induction codes arbitrary: t) (auto simp: table_Add_def table_index_inject)

lemma rules_lookup:
  assumes "list_all rule_ok rs" and "code < 256"
  shows "fold add_rule rs t (table_index state code) =
    (if list_ex (decides state code) rs
     then (case deciding (rev rs) state code of (a, n) \<Rightarrow> table_entry a n)
     else t (table_index state code))"
  using assms(1)
proof (induction rs rule: rev_induct)
  case (snoc r rs)
  then show ?case
    using AddMany_lookup [OF _ assms(2)]
    by (cases r) (auto simp: add_rule_def decides_def rule_ok_def list_ex_iff)
qed simp

lemma deciding_default:
  "\<not> list_ex (decides state code) rs \<Longrightarrow> deciding (rev rs) state code = (ParserActionError, ParserStateGround)"
proof (induction rs rule: rev_induct)
qed auto

lemma table_lookup:
  assumes "code < 256"
  shows "VT500TransitionTable (table_index state code)
    = table_entry (fst (vt500 state code)) (snd (vt500 state code))"
  using rules_lookup [OF rules_ok assms, of _ state] deciding_default [of state code vt500_rules]
  by (auto simp: VT500TransitionTable_def vt500_def SetDefault_def split_beta)

text \<open>A property of all rules is one of every entry.\<close>

lemma deciding_rule:
  assumes "list_all P rs"
    and "\<And>codes s a n. P (codes, s, a, n) \<Longrightarrow> s = state \<Longrightarrow> code \<in> set codes \<Longrightarrow> Q a n"
    and "Q ParserActionError ParserStateGround"
  shows "Q (fst (deciding rs state code)) (snd (deciding rs state code))"
  using assms(1) by (induction rs) (use assms(2,3) in \<open>auto simp: decides_def split: prod.splits\<close>)

lemma vt500_rule:
  assumes "list_all P vt500_rules"
    and "\<And>codes s a n. P (codes, s, a, n) \<Longrightarrow> s = state \<Longrightarrow> code \<in> set codes \<Longrightarrow> Q a n"
    and "Q ParserActionError ParserStateGround"
  shows "Q (fst (vt500 state code)) (snd (vt500 state code))"
  unfolding vt500_def by (rule deciding_rule [of P]) (use assms in \<open>auto simp: list_all_iff\<close>)

lemma vt500_bounds: "fst (vt500 state code) < 18 \<and> snd (vt500 state code) < ParserStateLength"
  by (rule vt500_rule [OF rules_ok, where Q = "\<lambda>a n. a < 18 \<and> n < ParserStateLength"])
    (auto simp: rule_ok_def)

lemma table_action: "code < 256 \<Longrightarrow> unat (drop_bit 8 (VT500TransitionTable (table_index state code))) = fst (vt500 state code)"
  and table_next: "code < 256 \<Longrightarrow> unat (and (VT500TransitionTable (table_index state code)) 0xFF) = snd (vt500 state code)"
  using vt500_bounds [of state code]
  by (simp_all add: table_lookup table_entry_def pack8_or pack8_parts)

text \<open>
  Where the actions that read ahead occur: each keeps its state, except that the first parameter
  character moves from the entry state to the parameter state.
\<close>

definition keeps_state :: "rule \<Rightarrow> bool" where
  "keeps_state = (\<lambda>(codes, s, a, n).
     (a = ParserActionPrint \<longrightarrow> s = ParserStateGround \<and> n = ParserStateGround)
     \<and> (a = ParserActionOSCPut \<longrightarrow> s = ParserStateOSCString \<and> n = ParserStateOSCString)
     \<and> (a = ParserActionDCSPut \<longrightarrow> s = ParserStateDCSPassthrough \<and> n = ParserStateDCSPassthrough)
     \<and> (a = ParserActionAPCPut \<longrightarrow> s = ParserStateAPCString \<and> n = ParserStateAPCString)
     \<and> (a = ParserActionParam \<longrightarrow> n = ParserStateCSIParam \<or> n = ParserStateDCSParam)
     \<and> (a \<in> {ParserActionOSCEnd, ParserActionDCSUnhook, ParserActionAPCEnd} \<longrightarrow> n = ParserStateGround))"

lemma rules_keep_state: "list_all keeps_state vt500_rules"
  by (simp add: vt500_rules_def anywhere_rules_def state_rules_def keeps_state_def all_states del: upt_rec_numeral)

lemma vt500_keeps: "keeps_state ([], s, fst (vt500 s c), snd (vt500 s c))"
  by (rule vt500_rule [OF rules_keep_state]) (simp_all add: keeps_state_def)

lemma read_ahead_states:
  "fst (vt500 s c) = ParserActionPrint \<Longrightarrow> s = ParserStateGround \<and> snd (vt500 s c) = ParserStateGround"
  "fst (vt500 s c) = ParserActionOSCPut \<Longrightarrow> s = ParserStateOSCString \<and> snd (vt500 s c) = ParserStateOSCString"
  "fst (vt500 s c) = ParserActionDCSPut \<Longrightarrow> s = ParserStateDCSPassthrough \<and> snd (vt500 s c) = ParserStateDCSPassthrough"
  "fst (vt500 s c) = ParserActionAPCPut \<Longrightarrow> s = ParserStateAPCString \<and> snd (vt500 s c) = ParserStateAPCString"
  "fst (vt500 s c) = ParserActionParam \<Longrightarrow> snd (vt500 s c) = ParserStateCSIParam \<or> snd (vt500 s c) = ParserStateDCSParam"
  using vt500_keeps [of s c] by (auto simp: keeps_state_def split_beta)

lemma string_ends:
  "fst (vt500 s c) \<in> {ParserActionOSCEnd, ParserActionDCSUnhook, ParserActionAPCEnd}
    \<Longrightarrow> snd (vt500 s c) = ParserStateGround"
  using vt500_keeps [of s c] by (auto simp: keeps_state_def split_beta)

text \<open>The rows of the table those actions read.\<close>

lemmas row = vt500_def vt500_rules_def all_states anywhere_rules_def state_rules_def decides_def
  printables_def executables_def

lemma row_ground:
  "0x20 \<le> c \<and> c \<le> 0x7e \<or> c = 0xA0 \<Longrightarrow> vt500 ParserStateGround c = (ParserActionPrint, ParserStateGround)"
  by (auto simp: row simp del: upt_rec_numeral One_nat_def)

lemma row_osc:
  "0x20 \<le> c \<and> c \<le> 0x7f \<or> c = 0xA0 \<Longrightarrow> vt500 ParserStateOSCString c = (ParserActionOSCPut, ParserStateOSCString)"
  by (auto simp: row simp del: upt_rec_numeral One_nat_def)

lemma row_dcs:
  "c < 0x7f \<and> c \<notin> {0x18, 0x1a, 0x1b} \<or> c = 0xA0
    \<Longrightarrow> vt500 ParserStateDCSPassthrough c = (ParserActionDCSPut, ParserStateDCSPassthrough)"
  by (auto simp: row simp del: upt_rec_numeral One_nat_def)

lemma row_apc:
  "0x20 \<le> c \<and> c \<le> 0x7e \<or> c = 0xA0 \<Longrightarrow> vt500 ParserStateAPCString c = (ParserActionAPCPut, ParserStateAPCString)"
  by (auto simp: row simp del: upt_rec_numeral One_nat_def)

lemma row_param:
  "0x30 \<le> c \<and> c \<le> 0x3b \<Longrightarrow> vt500 ParserStateCSIParam c = (ParserActionParam, ParserStateCSIParam)"
  "0x30 \<le> c \<and> c \<le> 0x3b \<Longrightarrow> vt500 ParserStateDCSParam c = (ParserActionParam, ParserStateDCSParam)"
  by (auto simp: row simp del: upt_rec_numeral One_nat_def)

end
