(* ===== verification/Vt_Parser.thy ===== *)
theory Vt_Parser
  imports Vt_Strings Vt_Table
begin

text \<open>
  The escape sequence parser (\<^verbatim>\<open>src/internal/xterm/parser.go\<close>): its state, and \<^verbatim>\<open>Parse\<close> with the
  inner loops that read ahead. The registered handlers are functions on the parser's state, which
  contains the state \<open>'e\<close> of everything outside the parser; handlers of strings see the latter
  only. The theory shows that reading ahead changes nothing: \<^verbatim>\<open>Parse\<close> does to its input what it
  does code by code, and so, however the input is cut, the same.
\<close>

section \<open>The parser\<close>

record 'e vt =
  currentState :: nat
  precedingJoinState :: int
  vt_params :: Params
  vt_collect :: u64
  vt_osc :: StringParser
  vt_dcs :: DcsParser
  vt_apc :: StringParser
  vt_env :: 'e

record 'e vt_handlers =
  hd_print :: "u32 list \<Rightarrow> 'e vt \<Rightarrow> 'e vt"
  hd_execute :: "nat \<Rightarrow> ('e vt \<Rightarrow> 'e vt) option"
  hd_execute_fb :: "u32 \<Rightarrow> 'e vt \<Rightarrow> 'e vt"
  hd_csi :: "u64 \<Rightarrow> ('e vt \<Rightarrow> bool \<times> 'e vt) list"
  hd_csi_fb :: "u64 \<Rightarrow> 'e vt \<Rightarrow> 'e vt"
  hd_esc :: "u64 \<Rightarrow> ('e vt \<Rightarrow> bool \<times> 'e vt) list"
  hd_esc_fb :: "u64 \<Rightarrow> 'e vt \<Rightarrow> 'e vt"
  hd_error :: "nat \<Rightarrow> u32 \<Rightarrow> 'e vt \<Rightarrow> bool \<times> 'e vt"
  hd_osc :: "'e str_behaviour"
  hd_dcs :: "'e dcs_behaviour"
  hd_apc :: "'e str_behaviour"

text \<open>\<^verbatim>\<open>params.Reset(); params.AddParam(0)\<close>.\<close>

definition zdm :: "Params \<Rightarrow> Params" where
  "zdm p = the (AddParam 0 (params_Reset p))"

definition NewEscapeSequenceParser :: "'e \<Rightarrow> 'e vt" where
  "NewEscapeSequenceParser e =
    \<lparr>currentState = ParserStateGround, precedingJoinState = 0, vt_params = the (AddParam 0 DefaultParams),
     vt_collect = 0, vt_osc = NewStringParser, vt_dcs = NewDcsParser, vt_apc = NewStringParser, vt_env = e\<rparr>"

text \<open>\<^verbatim>\<open>identifier\<close>: the key under which a handler is registered.\<close>

definition fn_identifier :: "byte \<Rightarrow> byte list \<Rightarrow> byte \<Rightarrow> u64" where
  "fn_identifier prefix intermediates final =
    or (push_bit 8 (fold (\<lambda>b c. or (push_bit 8 c) (ucast b)) intermediates (ucast prefix))) (ucast final)"

definition on_osc :: "(StringParser \<times> 'e \<Rightarrow> StringParser \<times> 'e) \<Rightarrow> 'e vt \<Rightarrow> 'e vt" where
  "on_osc f v = (case f (vt_osc v, vt_env v) of (p, e) \<Rightarrow> v\<lparr>vt_osc := p, vt_env := e\<rparr>)"

definition on_apc :: "(StringParser \<times> 'e \<Rightarrow> StringParser \<times> 'e) \<Rightarrow> 'e vt \<Rightarrow> 'e vt" where
  "on_apc f v = (case f (vt_apc v, vt_env v) of (p, e) \<Rightarrow> v\<lparr>vt_apc := p, vt_env := e\<rparr>)"

definition on_dcs :: "(DcsParser \<times> 'e \<Rightarrow> DcsParser \<times> 'e) \<Rightarrow> 'e vt \<Rightarrow> 'e vt" where
  "on_dcs f v = (case f (vt_dcs v, vt_env v) of (p, e) \<Rightarrow> v\<lparr>vt_dcs := p, vt_env := e\<rparr>)"

definition parser_Reset :: "'e vt_handlers \<Rightarrow> 'e vt \<Rightarrow> 'e vt" where
  "parser_Reset H v =
    (let v1 = on_osc (\<lambda>(p, e). sp_Reset (hd_osc H) p e) (v\<lparr>currentState := ParserStateGround\<rparr>);
         v2 = on_dcs (\<lambda>(p, e). dcs_Reset (hd_dcs H) p e) v1;
         v3 = on_apc (\<lambda>(p, e). sp_Reset (hd_apc H) p e) v2 in
     v3\<lparr>vt_params := zdm (vt_params v3), vt_collect := 0, precedingJoinState := 0\<rparr>)"

text \<open>Handlers are tried from the last registered to the first.\<close>

fun bubble :: "('e vt \<Rightarrow> bool \<times> 'e vt) list \<Rightarrow> ('e vt \<Rightarrow> 'e vt) \<Rightarrow> 'e vt \<Rightarrow> 'e vt" where
  "bubble [] fb v = fb v"
| "bubble (h # hs) fb v = (case h v of (True, v') \<Rightarrow> v' | (False, v') \<Rightarrow> bubble hs fb v')"

definition param_char :: "u32 \<Rightarrow> Params \<Rightarrow> Params" where
  "param_char code p =
    (if code = 0x3b then the (AddParam 0 p)
     else if code = 0x3a then the (AddSubParam (-1) p)
     else AddDigit (code - 48) p)"

text \<open>The actions that read ahead, the codes they read, and what they do with a run of them.\<close>

definition reads_ahead :: "nat \<Rightarrow> bool" where
  "reads_ahead a \<longleftrightarrow> a \<in> {ParserActionPrint, ParserActionParam, ParserActionDCSPut, ParserActionOSCPut,
     ParserActionAPCPut}"

definition continues :: "nat \<Rightarrow> u32 \<Rightarrow> bool" where
  "continues a code \<longleftrightarrow>
    (if a = ParserActionPrint then \<not> (code < 0x20 \<or> 0x7e < code \<and> code < 0xA0)
     else if a = ParserActionParam then \<not> (code < 0x30 \<or> 0x3b < code)
     else if a = ParserActionDCSPut
       then \<not> (code = 0x18 \<or> code = 0x1a \<or> code = 0x1b \<or> 0x7f < code \<and> code < 0xA0)
     else if a = ParserActionOSCPut then \<not> (code < 0x20 \<or> 0x7f < code \<and> code < 0xA0)
     else \<not> (code = 0x18 \<or> code = 0x1a \<or> code = 0x1b \<or> code = 0x9c \<or> 0x7f < code \<and> code < 0xA0))"

definition consume :: "'e vt_handlers \<Rightarrow> nat \<Rightarrow> u32 list \<Rightarrow> 'e vt \<Rightarrow> 'e vt" where
  "consume H a codes v =
    (if a = ParserActionPrint then hd_print H codes v
     else if a = ParserActionParam then v\<lparr>vt_params := fold param_char codes (vt_params v)\<rparr>
     else if a = ParserActionDCSPut then on_dcs (dcs_Put (hd_dcs H) codes) v
     else if a = ParserActionOSCPut then on_osc (osc_Put (hd_osc H) codes) v
     else on_apc (apc_Put (hd_apc H) codes) v)"

text \<open>The reset after a string sequence, and the other actions.\<close>

definition after_string :: "'e vt \<Rightarrow> 'e vt" where
  "after_string v = v\<lparr>vt_params := zdm (vt_params v), vt_collect := 0, precedingJoinState := 0\<rparr>"

definition act :: "'e vt_handlers \<Rightarrow> nat \<Rightarrow> u32 \<Rightarrow> 'e vt \<Rightarrow> 'e vt" where
  "act H a code v =
    (let ident = or (push_bit 8 (vt_collect v)) (ucast code); ok = (code \<noteq> 0x18 \<and> code \<noteq> 0x1a) in
     if a = ParserActionExecute then
       (case if code < 128 then hd_execute H (unat code) else None of
          Some f \<Rightarrow> f v | None \<Rightarrow> hd_execute_fb H code v)\<lparr>precedingJoinState := 0\<rparr>
     else if a = ParserActionCSIDispatch then
       (bubble (rev (hd_csi H ident)) (hd_csi_fb H ident) v)\<lparr>precedingJoinState := 0\<rparr>
     else if a = ParserActionCollect then v\<lparr>vt_collect := ident\<rparr>
     else if a = ParserActionESCDispatch then
       (bubble (rev (hd_esc H ident)) (hd_esc_fb H ident) v)\<lparr>precedingJoinState := 0\<rparr>
     else if a = ParserActionClear then v\<lparr>vt_params := zdm (vt_params v), vt_collect := 0\<rparr>
     else if a = ParserActionDCSHook then on_dcs (\<lambda>(p, e). dcs_Hook (hd_dcs H) ident (vt_params v) p e) v
     else if a = ParserActionDCSUnhook then after_string (on_dcs (\<lambda>(p, e). dcs_Unhook (hd_dcs H) ok p e) v)
     else if a = ParserActionOSCStart then on_osc (\<lambda>(p, e). sp_Start (hd_osc H) p e) v
     else if a = ParserActionOSCEnd then after_string (on_osc (\<lambda>(p, e). osc_End (hd_osc H) ok p e) v)
     else if a = ParserActionAPCStart then on_apc (\<lambda>(p, e). sp_Start (hd_apc H) p e) v
     else if a = ParserActionAPCEnd then after_string (on_apc (\<lambda>(p, e). apc_End (hd_apc H) ok p e) v)
     else v)"

text \<open>A string sequence that ends in ESC continues in the escape state.\<close>

definition leave :: "nat \<Rightarrow> u32 \<Rightarrow> u16 \<Rightarrow> u16" where
  "leave a code t =
    (if a \<in> {ParserActionDCSUnhook, ParserActionOSCEnd, ParserActionAPCEnd} \<and> code = 0x1b
     then or t (word_of_nat ParserStateEscape) else t)"

definition enter :: "u16 \<Rightarrow> 'e vt \<Rightarrow> 'e vt" where
  "enter t v = v\<lparr>currentState := unat (and t 0xFF)\<rparr>"

definition code_slot :: "u32 \<Rightarrow> nat" where
  "code_slot code = (if code < 0xA0 then unat code else nonASCIIPrintable)"

definition transition :: "'e vt \<Rightarrow> u32 \<Rightarrow> u16" where
  "transition v code = VT500TransitionTable (table_index (currentState v) (code_slot code))"

function Parse :: "'e vt_handlers \<Rightarrow> nat \<Rightarrow> u32 list \<Rightarrow> 'e vt \<Rightarrow> 'e vt" where
  "Parse H i [] v = v"
| "Parse H i (code # data) v =
    (let t = transition v code; a = unat (drop_bit 8 t) in
     if a = ParserActionError then
       (case hd_error H i code v of
          (True, v') \<Rightarrow> v'
        | (False, v') \<Rightarrow> Parse H (i + 1) data (enter t v'))
     else if reads_ahead a then
       (let run = takeWhile (continues a) data; n = length run in
        Parse H (i + 1 + n) (drop n data) (enter t (consume H a (code # run) v)))
     else Parse H (i + 1) data (enter (leave a code t) (act H a code v)))"
  by pat_completeness auto

termination
  by (relation "measure (\<lambda>(H, i, data, v). length data)") (simp (no_asm) add: less_Suc_eq_le)+

declare Parse.simps(2) [simp del]

section \<open>The machine, code by code\<close>

definition step :: "'e vt_handlers \<Rightarrow> u32 \<Rightarrow> 'e vt \<Rightarrow> 'e vt" where
  "step H code = Parse H 0 [code]"

lemma code_slot_less: "code_slot code < 256"
  using unat_mono [of code "0xA0"] by (auto simp: code_slot_def)

definition row_of :: "'e vt \<Rightarrow> u32 \<Rightarrow> nat \<times> nat" where
  "row_of v code = vt500 (currentState v) (code_slot code)"

lemma transition_parts:
  "unat (drop_bit 8 (transition v code)) = fst (row_of v code)"
  "unat (and (transition v code) 0xFF) = snd (row_of v code)"
  by (simp_all add: transition_def row_of_def table_action table_next code_slot_less)

text \<open>
  What reading ahead takes for granted: no DEL inside a DCS payload, and no control character
  inside an APC payload. The table ignores them there, the inner loops pass them on.
\<close>

definition calm_char :: "nat \<Rightarrow> u32 \<Rightarrow> bool" where
  "calm_char s code \<longleftrightarrow> (s = ParserStateDCSPassthrough \<longrightarrow> code \<noteq> 0x7f)
     \<and> (s = ParserStateAPCString \<longrightarrow> code \<noteq> 0x7f \<and> (0x20 \<le> code \<or> code \<in> {0x18, 0x1a, 0x1b}))"

fun undisturbed :: "'e vt_handlers \<Rightarrow> u32 list \<Rightarrow> 'e vt \<Rightarrow> bool" where
  "undisturbed H [] v \<longleftrightarrow> True"
| "undisturbed H (code # data) v \<longleftrightarrow> calm_char (currentState v) code \<and> undisturbed H data (step H code v)"

lemma undisturbed_append:
  "undisturbed H (xs @ ys) v \<longleftrightarrow> undisturbed H xs v \<and> undisturbed H ys (fold (step H) xs v)"
  by (induction xs arbitrary: v) auto

text \<open>One handler per identifier of a string sequence.\<close>

definition vt_single :: "'e vt \<Rightarrow> bool" where
  "vt_single v \<longleftrightarrow> sp_single (vt_osc v) \<and> sp_single (vt_apc v) \<and> length (dp_active (vt_dcs v)) \<le> 1
     \<and> (\<forall>i hs. dp_handlers (vt_dcs v) i = Some hs \<longrightarrow> length hs \<le> 1)"

definition keeps :: "('e vt \<Rightarrow> bool) \<Rightarrow> ('e vt \<Rightarrow> 'e vt) \<Rightarrow> bool" where
  "keeps P f \<longleftrightarrow> (\<forall>v. P v \<longrightarrow> P (f v))"

definition handlers_keep :: "('e vt \<Rightarrow> bool) \<Rightarrow> 'e vt_handlers \<Rightarrow> bool" where
  "handlers_keep P H \<longleftrightarrow> (\<forall>xs. keeps P (hd_print H xs))
     \<and> (\<forall>c f. hd_execute H c = Some f \<longrightarrow> keeps P f) \<and> (\<forall>c. keeps P (hd_execute_fb H c))
     \<and> (\<forall>i. \<forall>h \<in> set (hd_csi H i). keeps P (\<lambda>v. snd (h v))) \<and> (\<forall>i. keeps P (hd_csi_fb H i))
     \<and> (\<forall>i. \<forall>h \<in> set (hd_esc H i). keeps P (\<lambda>v. snd (h v))) \<and> (\<forall>i. keeps P (hd_esc_fb H i))
     \<and> (\<forall>i c. keeps P (\<lambda>v. snd (hd_error H i c v)))"

text \<open>
  The conditions on the handlers: payloads and printed text may be split; handlers do not register
  further string handlers; the error handler is the default one.
\<close>

definition streaming :: "'e vt_handlers \<Rightarrow> bool" where
  "streaming H \<longleftrightarrow> payload_handlers (hd_osc H) \<and> payload_handlers (hd_apc H) \<and> dcs_payload_handlers (hd_dcs H)
     \<and> stream vt_single (hd_print H) \<and> (\<forall>xs v. currentState (hd_print H xs v) = currentState v)
     \<and> handlers_keep vt_single H \<and> (\<forall>i c v. hd_error H i c v = (False, v))"

lemma vt_single_fields [simp]:
  "vt_single (v\<lparr>currentState := s\<rparr>) = vt_single v" "vt_single (v\<lparr>precedingJoinState := j\<rparr>) = vt_single v"
  "vt_single (v\<lparr>vt_params := p\<rparr>) = vt_single v" "vt_single (v\<lparr>vt_collect := c\<rparr>) = vt_single v"
  "vt_single (enter t v) = vt_single v" "vt_single (after_string v) = vt_single v"
  by (simp_all add: vt_single_def enter_def after_string_def)

lemma keeps_bubble:
  assumes "\<forall>h \<in> set hs. keeps P (\<lambda>v. snd (h v))" and "keeps P fb" and "P v"
  shows "P (bubble hs fb v)"
  using assms
proof (induction hs arbitrary: v)
  case (Cons h hs)
  obtain b v' where "h v = (b, v')" by fastforce
  moreover from this Cons.prems have "P v'" by (force simp: keeps_def)
  ultimately show ?case using Cons by (cases b) auto
qed (simp add: keeps_def)

lemma keeps_handlers:
  assumes "handlers_keep P H" and "P v"
  shows "P (case if code < 128 then hd_execute H (unat code) else None of
      Some f \<Rightarrow> f v | None \<Rightarrow> hd_execute_fb H code v)"
    and "P (bubble (rev (hd_csi H k)) (hd_csi_fb H k) v)" and "P (bubble (rev (hd_esc H k)) (hd_esc_fb H k) v)"
proof -
  have ex: "P (case g of Some f \<Rightarrow> f v | None \<Rightarrow> hd_execute_fb H code v)"
    if "\<And>f. g = Some f \<Longrightarrow> keeps P f" for g
    using assms that by (cases g) (auto simp: handlers_keep_def keeps_def)
  show "P (case if code < 128 then hd_execute H (unat code) else None of
      Some f \<Rightarrow> f v | None \<Rightarrow> hd_execute_fb H code v)"
    by (rule ex) (use assms(1) in \<open>auto simp: handlers_keep_def split: if_splits\<close>)
  show "P (bubble (rev (hd_csi H k)) (hd_csi_fb H k) v)" "P (bubble (rev (hd_esc H k)) (hd_esc_fb H k) v)"
    by (rule keeps_bubble; use assms in \<open>simp add: handlers_keep_def\<close>)+
qed

lemma sp_clear_single: "sp_single p \<Longrightarrow> sp_single (sp_clear p)"
  by (simp add: sp_single_def sp_clear_def)

lemma string_ops_single:
  assumes "sp_single p"
  shows "sp_single (fst (sp_Start B p e))" "sp_single (fst (osc_End B ok p e))" "sp_single (fst (apc_End B ok p e))"
    "sp_single (fst (sp_Reset B p e))"
proof -
  have c: "sp_single (sp_clear p)" "sp_single (sp_clear (fst (sp_start B p f)))" for f
    using assms by (simp_all add: sp_clear_single sp_start_single)
  have "sp_single (p\<lparr>sp_state := st\<rparr>) = sp_single p" for st and p :: StringParser by (simp add: sp_single_def)
  with c show "sp_single (fst (sp_Start B p e))" "sp_single (fst (sp_Reset B p e))"
    by (simp_all add: sp_Start_def sp_Reset_def)
  show "sp_single (fst (osc_End B ok p e))" "sp_single (fst (apc_End B ok p e))"
    using assms c by (simp_all add: osc_End_def apc_End_def split_beta)
qed

lemma single_on_osc:
  "vt_single v \<Longrightarrow> (\<And>e. sp_single (vt_osc v) \<Longrightarrow> sp_single (fst (f (vt_osc v, e)))) \<Longrightarrow> vt_single (on_osc f v)"
  by (auto simp: on_osc_def vt_single_def split_beta)

lemma single_on_apc:
  "vt_single v \<Longrightarrow> (\<And>e. sp_single (vt_apc v) \<Longrightarrow> sp_single (fst (f (vt_apc v, e)))) \<Longrightarrow> vt_single (on_apc f v)"
  by (auto simp: on_apc_def vt_single_def split_beta)

lemma single_dcs:
  "vt_single v \<Longrightarrow> vt_single (on_dcs (\<lambda>(p, e). dcs_Hook D i ps p e) v)"
  "vt_single v \<Longrightarrow> vt_single (on_dcs (\<lambda>(p, e). dcs_Unhook D ok p e) v)"
  "vt_single v \<Longrightarrow> vt_single (on_dcs (\<lambda>(p, e). dcs_Reset D p e) v)"
  by (fastforce simp: on_dcs_def vt_single_def dcs_Hook_def dcs_Unhook_def dcs_Reset_def dcs_clear_def
      split: option.splits list.splits)+

lemma single_act:
  assumes "streaming H" and "vt_single v"
  shows "vt_single (act H a code v)"
proof -
  have "handlers_keep vt_single H" using assms(1) by (simp add: streaming_def)
  note h = keeps_handlers [OF this assms(2)]
  have s: "vt_single (on_osc (\<lambda>(p, e). sp_Start B p e) v)" "vt_single (on_osc (\<lambda>(p, e). osc_End B ok p e) v)"
    "vt_single (on_apc (\<lambda>(p, e). sp_Start B p e) v)" "vt_single (on_apc (\<lambda>(p, e). apc_End B ok p e) v)" for B ok
    using single_on_osc [OF assms(2)] single_on_apc [OF assms(2)] by (simp_all add: string_ops_single)
  show ?thesis using assms(2) h s single_dcs [OF assms(2)] by (simp add: act_def Let_def)
qed

section \<open>Runs of codes\<close>

lemma stream_lift:
  assumes "stream P f"
  shows "P s \<Longrightarrow> xs \<noteq> [] \<Longrightarrow> ys \<noteq> [] \<Longrightarrow> f (xs @ ys) s = f ys (f xs s)" "P s \<Longrightarrow> P (f xs s)"
  using assms by (auto simp: stream_def)

lemma consume_stream:
  assumes H: "streaming H"
  shows "stream vt_single (consume H a)"
proof -
  have P: "payload_handlers (hd_osc H)" "payload_handlers (hd_apc H)" and D: "dcs_payload_handlers (hd_dcs H)"
    and pr: "stream vt_single (hd_print H)"
    using H by (simp_all add: streaming_def)
  have osc: "vt_single (on_osc (osc_Put (hd_osc H) xs) v)" "xs \<noteq> [] \<Longrightarrow> ys \<noteq> [] \<Longrightarrow>
      on_osc (osc_Put (hd_osc H) (xs @ ys)) v = on_osc (osc_Put (hd_osc H) ys) (on_osc (osc_Put (hd_osc H) xs) v)"
    if "vt_single v" for xs ys v
    using that payload_handlers.osc_Put_append [OF P(1)] payload_handlers.osc_Put_single [OF P(1)]
    by (simp_all add: on_osc_def vt_single_def split_beta)
  have apc: "vt_single (on_apc (apc_Put (hd_apc H) xs) v)" "xs \<noteq> [] \<Longrightarrow> ys \<noteq> [] \<Longrightarrow>
      on_apc (apc_Put (hd_apc H) (xs @ ys)) v = on_apc (apc_Put (hd_apc H) ys) (on_apc (apc_Put (hd_apc H) xs) v)"
    if "vt_single v" for xs ys v
    using that payload_handlers.apc_Put_append [OF P(2)] payload_handlers.apc_Put_single [OF P(2)]
    by (simp_all add: on_apc_def vt_single_def split_beta)
  have dcs: "vt_single (on_dcs (dcs_Put (hd_dcs H) xs) v)" "xs \<noteq> [] \<Longrightarrow> ys \<noteq> [] \<Longrightarrow>
      on_dcs (dcs_Put (hd_dcs H) (xs @ ys)) v = on_dcs (dcs_Put (hd_dcs H) ys) (on_dcs (dcs_Put (hd_dcs H) xs) v)"
    if "vt_single v" for xs ys v
    using that dcs_payload_handlers.dcs_Put_append [OF D] dcs_payload_handlers.dcs_Put_active [OF D]
    by (simp_all add: on_dcs_def vt_single_def split_beta) (simp_all add: dcs_Put_def split_beta)
  show ?thesis
    by (rule stream.intro) (auto simp: consume_def osc apc dcs stream_lift [OF pr])
qed

lemma consume_state:
  assumes "streaming H"
  shows "currentState (consume H a xs v) = currentState v"
  using assms by (simp add: consume_def streaming_def on_osc_def on_apc_def on_dcs_def split_beta)

lemma step_reads:
  assumes "streaming H" and "row_of v code = (a, n)" and "reads_ahead a"
  shows "step H code v = (consume H a [code] v)\<lparr>currentState := n\<rparr>"
  using assms(2,3)
  by (auto simp: step_def Parse.simps(2) Let_def transition_parts reads_ahead_def enter_def)

text \<open>A run in the state that keeps it.\<close>

lemma steps_run:
  assumes H: "streaming H" and a: "reads_ahead a"
    and "currentState v = n" and "\<forall>c \<in> set xs. vt500 n (code_slot c) = (a, n)"
  shows "fold (step H) xs v = fold (\<lambda>x. consume H a [x]) xs v"
  using assms(3,4)
proof (induction xs arbitrary: v)
  case (Cons x xs)
  have "row_of v x = (a, n)" using Cons.prems by (simp add: row_of_def)
  from step_reads [OF H this a] have "step H x v = (consume H a [x] v)\<lparr>currentState := n\<rparr>" .
  moreover have "currentState (consume H a [x] v) = n" using Cons.prems(1) by (simp add: consume_state [OF H])
  ultimately have "step H x v = consume H a [x] v" by (metis vt.surjective vt.update_convs(1) vt.select_convs(1))
  with Cons \<open>currentState (consume H a [x] v) = n\<close> show ?case by simp
qed simp

lemma consume_param_state: "consume H ParserActionParam xs (v\<lparr>currentState := n\<rparr>) = (consume H ParserActionParam xs v)\<lparr>currentState := n\<rparr>"
  by (simp add: consume_def)

lemma steps_read_ahead:
  assumes H: "streaming H" and v: "vt_single v" and a: "reads_ahead a"
    and r: "row_of v code = (a, n)" and run: "\<forall>c \<in> set xs. vt500 n (code_slot c) = (a, n)"
    and sn: "currentState v = n \<or> a = ParserActionParam"
  shows "fold (step H) (code # xs) v = (consume H a (code # xs) v)\<lparr>currentState := n\<rparr>"
proof -
  let ?w = "v\<lparr>currentState := n\<rparr>"
  have swap: "consume H a ys ?w = (consume H a ys v)\<lparr>currentState := n\<rparr>" for ys
  proof (cases "a = ParserActionParam")
    case True
    then show ?thesis by (simp add: consume_param_state)
  next
    case False
    with sn have "currentState v = n" by simp
    then have "?w = v" "(consume H a ys v)\<lparr>currentState := n\<rparr> = consume H a ys v"
      using consume_state [OF H, of a ys v] by (metis vt.surjective vt.update_convs(1) vt.select_convs(1))+
    then show ?thesis by simp
  qed
  have "fold (step H) (code # xs) v = fold (step H) xs (consume H a [code] ?w)"
    using step_reads [OF H r a] swap by simp
  also have "\<dots> = fold (\<lambda>x. consume H a [x]) (code # xs) ?w"
    using steps_run [OF H a _ run, of "consume H a [code] ?w"] by (simp add: consume_state [OF H])
  also have "\<dots> = consume H a (code # xs) ?w"
    by (rule stream.put_each [OF consume_stream [OF H], symmetric]) (use v in simp_all)
  finally show ?thesis by (simp add: swap)
qed

text \<open>What the inner loop of an action reads is in the rows that keep the action and the state.\<close>

lemma slot_simps:
  "code < 0xA0 \<Longrightarrow> code_slot code = unat code" "\<not> code < 0xA0 \<Longrightarrow> code_slot code = 0xA0"
  by (simp_all add: code_slot_def)

lemma run_rows:
  assumes "reads_ahead (fst (vt500 s c))" and "continues (fst (vt500 s c)) code"
    and "calm_char (snd (vt500 s c)) code"
  shows "vt500 (snd (vt500 s c)) (code_slot code) = vt500 s c"
proof -
  obtain a n where an: "vt500 s c = (a, n)" by fastforce
  consider "a = ParserActionPrint" | "a = ParserActionParam" | "a = ParserActionDCSPut"
    | "a = ParserActionOSCPut" | "a = ParserActionAPCPut"
    using assms(1) by (auto simp: an reads_ahead_def)
  then show ?thesis
  proof cases
    case 1
    then have "n = ParserStateGround" using read_ahead_states(1) [of s c] an by simp
    moreover have "0x20 \<le> code_slot code \<and> code_slot code \<le> 0x7e \<or> code_slot code = 0xA0"
      using assms(2) 1 by (auto simp: an continues_def code_slot_def word_le_nat_alt word_less_nat_alt)
    ultimately show ?thesis using row_ground 1 an by simp
  next
    case 2
    then have "n = ParserStateCSIParam \<or> n = ParserStateDCSParam" using read_ahead_states(5) [of s c] an by simp
    moreover have "0x30 \<le> code_slot code \<and> code_slot code \<le> 0x3b"
      using assms(2) 2 by (auto simp: an continues_def code_slot_def word_le_nat_alt word_less_nat_alt)
    ultimately show ?thesis using row_param [of "code_slot code"] 2 an by auto
  next
    case 3
    then have n: "n = ParserStateDCSPassthrough" using read_ahead_states(3) [of s c] an by simp
    have "code_slot code < 0x7f \<and> code_slot code \<notin> {0x18, 0x1a, 0x1b} \<or> code_slot code = 0xA0"
      using assms(2,3) 3 n
      by (auto simp: an continues_def calm_char_def code_slot_def word_le_nat_alt word_less_nat_alt
          word_unat_eq_iff)
    then show ?thesis using row_dcs n 3 an by simp
  next
    case 4
    then have "n = ParserStateOSCString" using read_ahead_states(2) [of s c] an by simp
    moreover have "0x20 \<le> code_slot code \<and> code_slot code \<le> 0x7f \<or> code_slot code = 0xA0"
      using assms(2) 4 by (auto simp: an continues_def code_slot_def word_le_nat_alt word_less_nat_alt)
    ultimately show ?thesis using row_osc 4 an by simp
  next
    case 5
    then have n: "n = ParserStateAPCString" using read_ahead_states(4) [of s c] an by simp
    have "0x20 \<le> code_slot code \<and> code_slot code \<le> 0x7e \<or> code_slot code = 0xA0"
      using assms(2,3) 5 n
      by (auto simp: an continues_def calm_char_def code_slot_def word_le_nat_alt word_less_nat_alt
          word_unat_eq_iff)
    then show ?thesis using row_apc n 5 an by simp
  qed
qed

section \<open>Parse is the machine\<close>

lemma step_other:
  assumes H: "streaming H" and "row_of v code = (a, n)" and "\<not> reads_ahead a"
  shows "step H code v = (if a = ParserActionError then enter (transition v code) v
      else enter (leave a code (transition v code)) (act H a code v))"
  using assms by (auto simp: step_def Parse.simps(2) Let_def transition_parts streaming_def)

lemma step_single: "streaming H \<Longrightarrow> vt_single v \<Longrightarrow> vt_single (step H code v)"
proof -
  assume H: "streaming H" and v: "vt_single v"
  obtain a n where an: "row_of v code = (a, n)" by fastforce
  show ?thesis
  proof (cases "reads_ahead a")
    case True
    have "vt_single (consume H a [code] v)" using stream_lift(2) [OF consume_stream [OF H]] v by blast
    with step_reads [OF H an True] show ?thesis by simp
  next
    case False
    with step_other [OF H an False] single_act [OF H v] v show ?thesis by simp
  qed
qed

lemma steps_single: "streaming H \<Longrightarrow> vt_single v \<Longrightarrow> vt_single (fold (step H) xs v)"
  by (induction xs arbitrary: v) (simp_all add: step_single)

lemma Parse_steps:
  assumes H: "streaming H"
  shows "vt_single v \<Longrightarrow> undisturbed H codes v \<Longrightarrow> Parse H i codes v = fold (step H) codes v"
proof (induction "length codes" arbitrary: codes v i rule: less_induct)
  case less
  show ?case
  proof (cases codes)
    case (Cons code data)
    obtain a n where an: "row_of v code = (a, n)" by fastforce
    have parts: "unat (drop_bit 8 (transition v code)) = a" "unat (and (transition v code) 0xFF) = n"
      by (simp_all add: transition_parts an)
    show ?thesis
    proof (cases "reads_ahead a")
      case True
      then have ne: "a \<noteq> ParserActionError" by (auto simp: reads_ahead_def)
      let ?run = "takeWhile (continues a) data" and ?rest = "dropWhile (continues a) data"
      let ?w = "enter (transition v code) (consume H a (code # ?run) v)"
      have eq: "Parse H i (code # data) v = Parse H (i + 1 + length ?run) ?rest ?w"
        using True ne by (simp add: Parse.simps(2) Let_def parts dropWhile_eq_drop)
      have split: "data = ?run @ ?rest" by simp
      have calm: "undisturbed H ?run (step H code v)"
        using less.prems(2) undisturbed_append [of H ?run ?rest "step H code v"] by (simp add: Cons)
      have sn: "currentState v = n \<or> a = ParserActionParam"
        using read_ahead_states(1-4) [of "currentState v" "code_slot code"] an True
        by (auto simp: row_of_def reads_ahead_def)
      have rows: "\<forall>c \<in> set xs. vt500 n (code_slot c) = (a, n)"
        if "undisturbed H xs w" "currentState w = n" "\<forall>c \<in> set xs. continues a c" "vt_single w" for xs w
        using that
      proof (induction xs arbitrary: w)
        case (Cons x xs)
        have x: "vt500 n (code_slot x) = (a, n)"
          using run_rows [of "currentState v" "code_slot code" x] an True Cons.prems
          by (simp add: row_of_def)
        then have "row_of w x = (a, n)" using Cons.prems(2) by (simp add: row_of_def)
        then have "step H x w = (consume H a [x] w)\<lparr>currentState := n\<rparr>" by (rule step_reads [OF H _ True])
        then have "currentState (step H x w) = n" "vt_single (step H x w)"
          using step_single [OF H Cons.prems(4), of x] by simp_all
        with Cons.IH [of "step H x w"] Cons.prems x show ?case by simp
      qed simp
      have first: "currentState (step H code v) = n" by (simp add: step_reads [OF H an True])
      have run: "\<forall>c \<in> set ?run. vt500 n (code_slot c) = (a, n)"
        by (rule rows [OF calm first]) (auto dest: set_takeWhileD intro: step_single [OF H less.prems(1)])
      have w: "fold (step H) (code # ?run) v = ?w"
        using steps_read_ahead [OF H less.prems(1) True an run sn] by (simp add: enter_def parts)
      have "vt_single ?w" unfolding w [symmetric] by (rule steps_single [OF H less.prems(1)])
      moreover have "undisturbed H ?rest ?w"
        using less.prems(2) undisturbed_append [of H "code # ?run" ?rest v]
        unfolding w [symmetric] by (simp add: Cons)
      moreover have "length ?rest < length codes" by (simp add: Cons dropWhile_eq_drop)
      ultimately have "Parse H (i + 1 + length ?run) ?rest ?w = fold (step H) ?rest ?w"
        by (intro less.hyps)
      also have "\<dots> = fold (step H) ((code # ?run) @ ?rest) v"
        by (simp only: w [symmetric] fold_append comp_apply)
      finally show ?thesis by (simp add: Cons eq)
    next
      case False
      let ?w = "step H code v"
      have w: "?w = (if a = ParserActionError then enter (transition v code) v
          else enter (leave a code (transition v code)) (act H a code v))"
        by (rule step_other [OF H an False])
      have "Parse H i (code # data) v = Parse H (i + 1) data ?w"
        using False H by (simp add: Parse.simps(2) Let_def parts w streaming_def)
      moreover have "Parse H (i + 1) data ?w = fold (step H) data ?w"
        using less.hyps [of data ?w "i + 1"] less.prems step_single [OF H less.prems(1)] by (simp add: Cons)
      ultimately show ?thesis by (simp add: Cons)
    qed
  qed simp
qed

lemma undisturbed_parse:
  assumes "streaming H" and "vt_single v" and "undisturbed H (concat chunks) v"
  shows "fold (Parse H 0) chunks v = fold (step H) (concat chunks) v"
  using assms(2,3)
proof (induction chunks arbitrary: v)
  case (Cons ch chs)
  from Cons.prems(2) have u: "undisturbed H ch v" "undisturbed H (concat chs) (fold (step H) ch v)"
    by (simp_all add: undisturbed_append)
  have p: "Parse H 0 ch v = fold (step H) ch v" by (rule Parse_steps [OF assms(1) Cons.prems(1) u(1)])
  have "fold (Parse H 0) chs (fold (step H) ch v) = fold (step H) (concat chs) (fold (step H) ch v)"
    by (rule Cons.IH [OF steps_single [OF assms(1) Cons.prems(1)] u(2)])
  then show ?case by (simp add: p)
qed simp

end
