(* ===== verification/Vt_Input.thy ===== *)
theory Vt_Input
  imports Vt_Parser Text_Decoder
begin

text \<open>
  The way of the bytes into the emulator (\<^verbatim>\<open>InputHandler.Parse\<close> in
  \<^verbatim>\<open>src/internal/xterm/inputhandler.go\<close>): pieces of at most 131072 bytes go through the decoder
  into the parser. The theory states what the parser guarantees whatever it is fed, and that a text
  has one effect however it is cut into reads. The reporting of cursor moves and dirty rows after a
  call is not part of it.
\<close>

section \<open>Input\<close>

definition maxParseBufferLength :: nat where
  "maxParseBufferLength = 131072"

function pieces :: "nat \<Rightarrow> byte list \<Rightarrow> byte list list" where
  "pieces n data = (if n = 0 \<or> length data \<le> n then [data] else take n data # pieces n (drop n data))"
  by pat_completeness auto

termination
  by (relation "measure (\<lambda>(n, data). length data)") auto

declare pieces.simps [simp del]

definition feed :: "'e vt_handlers \<Rightarrow> byte list \<Rightarrow> byte list \<times> 'e vt \<Rightarrow> byte list \<times> 'e vt" where
  "feed H data dv = (case dv of (d, v) \<Rightarrow> case Decode d data of (codes, d') \<Rightarrow> (d', Parse H 0 codes v))"

definition input_Parse :: "'e vt_handlers \<Rightarrow> byte list \<Rightarrow> byte list \<times> 'e vt \<Rightarrow> byte list \<times> 'e vt" where
  "input_Parse H data dv =
    (if data = [] then dv
     else if maxParseBufferLength < length data then fold (feed H) (pieces maxParseBufferLength data) dv
     else feed H data dv)"

lemma concat_input_pieces [simp]: "concat (pieces n data) = data"
  by (induction n data rule: pieces.induct) (subst pieces.simps, auto)

fun decoded :: "byte list \<Rightarrow> byte list list \<Rightarrow> u32 list list" where
  "decoded s [] = []"
| "decoded s (ch # chs) = (case Decode s ch of (cs, s') \<Rightarrow> cs # decoded s' chs)"

lemma decoded_all: "Decode_all s chunks = (concat (decoded s chunks), snd (Decode_all s chunks))"
  by (induction s chunks rule: decoded.induct) (auto split: prod.splits)

lemma feed_all:
  "fold (feed H) chunks (s, v) = (snd (Decode_all s chunks), fold (Parse H 0) (decoded s chunks) v)"
  by (induction chunks arbitrary: s v) (auto simp: feed_def split: prod.splits)

lemma input_feeds: "\<exists>chs. concat chs = data \<and> input_Parse H data dv = fold (feed H) chs dv"
proof (cases "data = []")
  case True
  then show ?thesis by (intro exI [of _ "[]"]) (simp add: input_Parse_def)
next
  case False
  then show ?thesis
    by (cases "maxParseBufferLength < length data")
      (auto simp: input_Parse_def intro: exI [of _ "pieces maxParseBufferLength data"] exI [of _ "[data]"])
qed

lemma inputs_feed: "\<exists>chs. concat chs = concat reads \<and> fold (input_Parse H) reads dv = fold (feed H) chs dv"
proof (induction reads arbitrary: dv)
  case (Cons r rs)
  obtain xs where xs: "concat xs = r" "input_Parse H r dv = fold (feed H) xs dv" using input_feeds by blast
  obtain ys where ys: "concat ys = concat rs"
    "fold (input_Parse H) rs (input_Parse H r dv) = fold (feed H) ys (input_Parse H r dv)" using Cons by blast
  show ?case by (intro exI [of _ "xs @ ys"]) (use ys(2) in \<open>simp add: xs ys(1)\<close>)
qed (auto intro: exI [of _ "[]"])

lemma input_stream:
  assumes H: "streaming H" and v: "vt_single v" and cs: "clean_text cs"
    and u: "undisturbed H (code_points cs) v" and reads: "concat reads = utf8 cs"
  shows "fold (input_Parse H) reads ([], v) = ([], fold (step H) (code_points cs) v)"
proof -
  obtain chs where chs: "concat chs = utf8 cs" "fold (input_Parse H) reads ([], v) = fold (feed H) chs ([], v)"
    using inputs_feed [of reads H "([], v)"] reads by auto
  have "Decode_all [] chs = (code_points cs, [])"
    by (rule Decode_all_stream [OF cs]) (simp_all add: pending_of_def chs(1))
  then have "concat (decoded [] chs) = code_points cs" "snd (Decode_all [] chs) = []"
    using decoded_all [of "[]" chs] by simp_all
  with undisturbed_parse [OF H v, of "decoded [] chs"] u show ?thesis
    by (simp add: chs(2) feed_all)
qed

section \<open>Well-formedness\<close>

text \<open>
  The state is one of the table's, and the parameters are a well-formed, non-empty list of at most
  32 with at most 32 sub-parameters.
\<close>

definition params_wf :: "Params \<Rightarrow> bool" where
  "params_wf p \<longleftrightarrow> params_view p \<noteq> [] \<and> repr p (params_view p) \<and> pa_MaxLength p = 32 \<and> pa_maxSubParamsLen p = 32"

definition vt_wf :: "'e vt \<Rightarrow> bool" where
  "vt_wf v \<longleftrightarrow> currentState v < ParserStateLength \<and> params_wf (vt_params v)"

lemma params_wfI: "repr p xs \<Longrightarrow> xs \<noteq> [] \<Longrightarrow> pa_MaxLength p = 32 \<Longrightarrow> pa_maxSubParamsLen p = 32 \<Longrightarrow> params_wf p"
  by (simp add: params_wf_def repr_view)

lemma list_AddParam_ne: "xs \<noteq> [] \<Longrightarrow> list_AddParam n v xs \<noteq> []"
  by (simp add: list_AddParam_def)

lemma AddParam_wf:
  assumes "repr p xs" and "pa_MaxLength p = 32" and "pa_maxSubParamsLen p = 32"
  shows "\<exists>q. AddParam 0 p = Some q \<and> params_wf q"
proof -
  from repr_AddParam [OF assms(1), of 0] obtain q where q: "AddParam 0 p = Some q"
    "repr q (list_AddParam (pa_MaxLength p) 0 xs)" "pa_MaxLength q = pa_MaxLength p"
    "pa_maxSubParamsLen q = pa_maxSubParamsLen p" by auto
  moreover have "list_AddParam (pa_MaxLength p) 0 xs \<noteq> []"
    using assms(2) by (auto simp: list_AddParam_def)
  ultimately show ?thesis using assms by (auto intro: params_wfI)
qed

lemma AddSubParam_wf:
  assumes "params_wf p"
  shows "\<exists>q. AddSubParam (-1) p = Some q \<and> params_wf q"
proof -
  have r: "repr p (params_view p)" "params_view p \<noteq> []" "pa_MaxLength p = 32" "pa_maxSubParamsLen p = 32"
    using assms by (simp_all add: params_wf_def)
  from repr_AddSubParam [OF r(1), of "-1"] obtain q where q: "AddSubParam (-1) p = Some q"
    "repr q (list_AddSub (pa_rejectDigits p) (pa_maxSubParamsLen p) (-1) (params_view p))"
    "pa_MaxLength q = pa_MaxLength p" "pa_maxSubParamsLen q = pa_maxSubParamsLen p" by auto
  moreover have "list_AddSub b n (-1) (params_view p) \<noteq> []" for b n
    using r(2) by (simp add: list_AddSub_def)
  ultimately show ?thesis using r by (auto intro: params_wfI)
qed

lemma AddDigit_wf:
  assumes "params_wf p"
  shows "params_wf (AddDigit d p)"
proof -
  have r: "repr p (params_view p)" "params_view p \<noteq> []" "pa_MaxLength p = 32" "pa_maxSubParamsLen p = 32"
    using assms by (simp_all add: params_wf_def)
  have "pa_MaxLength (AddDigit d p) = 32" "pa_maxSubParamsLen (AddDigit d p) = 32"
    using r by (simp_all add: AddDigit_def Let_def)
  moreover have "list_AddDigit b d (params_view p) \<noteq> []" for b using r(2) by (simp add: list_AddDigit_def)
  ultimately show ?thesis using repr_AddDigit [OF r(1), of d] r(2) by (auto intro: params_wfI split: if_splits)
qed

lemma zdm_wf: "params_wf p \<Longrightarrow> params_wf (zdm p)"
  using AddParam_wf [OF repr_Reset, of p "params_view p"] by (auto simp: params_wf_def zdm_def params_Reset_def)

lemma param_char_wf: "params_wf p \<Longrightarrow> params_wf (param_char code p)"
  using AddParam_wf [of p "params_view p"] AddSubParam_wf [of p] AddDigit_wf [of p]
  by (auto simp: param_char_def params_wf_def [of p])

lemma fold_param_wf: "params_wf p \<Longrightarrow> params_wf (fold param_char codes p)"
  by (induction codes arbitrary: p) (simp_all add: param_char_wf)

lemma on_string_wf [simp]:
  "vt_wf (on_osc f v) = vt_wf v" "vt_wf (on_apc f v) = vt_wf v" "vt_wf (on_dcs g v) = vt_wf v"
  by (simp_all add: on_osc_def on_apc_def on_dcs_def vt_wf_def split: prod.splits)

lemma vt_wf_fields [simp]:
  "vt_wf (v\<lparr>precedingJoinState := j\<rparr>) = vt_wf v" "vt_wf (v\<lparr>vt_collect := c\<rparr>) = vt_wf v"
  "vt_wf (after_string v) = (currentState v < ParserStateLength \<and> params_wf (zdm (vt_params v)))"
  by (simp_all add: vt_wf_def after_string_def)

lemma act_wf:
  assumes "handlers_keep vt_wf H" and "vt_wf v"
  shows "vt_wf (act H a code v)"
proof -
  have "currentState (on_osc f v) = currentState v \<and> vt_params (on_osc f v) = vt_params v"
    "currentState (on_apc f v) = currentState v \<and> vt_params (on_apc f v) = vt_params v"
    "currentState (on_dcs g v) = currentState v \<and> vt_params (on_dcs g v) = vt_params v" for f g
    by (simp_all add: on_osc_def on_apc_def on_dcs_def split: prod.splits)
  moreover have "params_wf (zdm (vt_params v))" "currentState v < ParserStateLength"
    using assms(2) zdm_wf by (auto simp: vt_wf_def)
  moreover have "vt_wf (v\<lparr>vt_params := zdm (vt_params v), vt_collect := 0\<rparr>)"
    using assms(2) zdm_wf by (auto simp: vt_wf_def)
  ultimately show ?thesis
    using keeps_handlers [OF assms] assms(2) by (simp add: act_def Let_def)
qed

lemma consume_wf:
  assumes "handlers_keep vt_wf H" and "vt_wf v"
  shows "vt_wf (consume H a codes v)"
proof -
  have "vt_wf (hd_print H codes v)" using assms by (simp add: handlers_keep_def keeps_def)
  moreover have "vt_wf (v\<lparr>vt_params := fold param_char codes (vt_params v)\<rparr>)"
    using assms(2) fold_param_wf by (auto simp: vt_wf_def)
  ultimately show ?thesis using assms(2) by (simp add: consume_def)
qed

text \<open>Every entry of the table leads to a state of the table, also with the escape bit set.\<close>

lemma leave_bound:
  assumes "fst (row_of v code) = a"
  shows "unat (and (leave a code (transition v code)) 0xFF) < ParserStateLength"
proof -
  have n: "unat (and (transition v code) 0xFF) < 15"
    using vt500_bounds [of "currentState v" "code_slot code"] by (simp add: transition_parts row_of_def)
  show ?thesis
  proof (cases "a \<in> {ParserActionDCSUnhook, ParserActionOSCEnd, ParserActionAPCEnd} \<and> code = 0x1b")
    case True
    then have "snd (row_of v code) = ParserStateGround"
      using string_ends [of "currentState v" "code_slot code"] assms by (auto simp: row_of_def)
    then have "and (transition v code) 0xFF = 0" using transition_parts(2) [of v code] by (simp add: unat_eq_0)
    moreover have "and (or t 1) 0xFF = or (and t 0xFF) 1" for t :: u16
      by (rule bit_word_eqI) (auto simp: bit_simps)
    ultimately show ?thesis using True by (simp add: leave_def)
  next
    case False
    with n show ?thesis by (auto simp: leave_def)
  qed
qed

lemma enter_wf: "vt_wf v \<Longrightarrow> unat (and t 0xFF) < ParserStateLength \<Longrightarrow> vt_wf (enter t v)"
  by (simp add: vt_wf_def enter_def)

text \<open>Whatever every part of the machine keeps, the machine keeps.\<close>

lemma Parse_keeps:
  assumes error: "\<And>i c v. P v \<Longrightarrow> P (snd (hd_error H i c v))" and consume: "\<And>a xs v. P v \<Longrightarrow> P (consume H a xs v)"
    and act: "\<And>a c v. P v \<Longrightarrow> P (act H a c v)"
    and enter: "\<And>t v. P v \<Longrightarrow> unat (and t 0xFF) < ParserStateLength \<Longrightarrow> P (enter t v)"
  shows "P v \<Longrightarrow> P (Parse H i codes v)"
proof (induction "length codes" arbitrary: codes v i rule: less_induct)
  case less
  show ?case
  proof (cases codes)
    case (Cons code data)
    let ?t = "transition v code"
    have n: "unat (and ?t 0xFF) < ParserStateLength"
      using vt500_bounds [of "currentState v" "code_slot code"] by (simp add: transition_parts row_of_def)
    have IH: "P w \<Longrightarrow> length xs \<le> length data \<Longrightarrow> P (Parse H j xs w)" for xs w j
      by (rule less.hyps) (simp_all add: Cons)
    let ?a = "fst (row_of v code)" and ?run = "takeWhile (continues (fst (row_of v code))) data"
    have eq: "Parse H i codes v =
      (if ?a = ParserActionError then
         (if fst (hd_error H i code v) then snd (hd_error H i code v)
          else Parse H (i + 1) data (enter ?t (snd (hd_error H i code v))))
       else if reads_ahead ?a
       then Parse H (i + 1 + length ?run) (drop (length ?run) data) (enter ?t (consume H ?a (code # ?run) v))
       else Parse H (i + 1) data (enter (leave ?a code ?t) (act H ?a code v)))"
      by (simp add: Cons Parse.simps(2) Let_def transition_parts split_beta split: bool.splits)
    have "P (Parse H (i + 1) data (enter ?t (snd (hd_error H i code v))))"
      by (intro IH enter error n less.prems) simp
    moreover have "P (Parse H (i + 1 + length ?run) (drop (length ?run) data) (enter ?t (consume H ?a (code # ?run) v)))"
      by (intro IH enter n consume less.prems) simp
    moreover have "P (Parse H (i + 1) data (enter (leave ?a code ?t) (act H ?a code v)))"
      by (intro IH enter leave_bound act less.prems) simp_all
    ultimately show ?thesis unfolding eq by (simp add: error less.prems split: if_split)
  qed (use less.prems in simp)
qed

lemma Parse_wf:
  assumes H: "handlers_keep vt_wf H"
  shows "vt_wf v \<Longrightarrow> vt_wf (Parse H i codes v)"
  by (rule Parse_keeps [where P = vt_wf])
    (use H in \<open>simp_all add: act_wf consume_wf enter_wf handlers_keep_def keeps_def\<close>)

section \<open>A recording consumer\<close>

text \<open>
  Handlers that write down what they are called with: text and control codes one by one, the
  parameters of control sequences, and the payloads of strings. They stand for the emulator in the
  witnesses.
\<close>

datatype event = EvText u32 | EvCode u32 | EvCsi u64 "(i32 \<times> i32 list) list" | EvEsc u64 | EvString "byte list"

definition jot :: "event list \<Rightarrow> event list store vt \<Rightarrow> event list store vt" where
  "jot es v = v\<lparr>vt_env := (vt_env v)\<lparr>st_rest := st_rest (vt_env v) @ es\<rparr>\<rparr>"

definition recorder :: "event list store vt_handlers" where
  "recorder =
    \<lparr>hd_print = (\<lambda>xs. jot (map EvText xs)), hd_execute = (\<lambda>_. None), hd_execute_fb = (\<lambda>c. jot [EvCode c]),
     hd_csi = (\<lambda>_. []), hd_csi_fb = (\<lambda>i v. jot [EvCsi i (params_view (vt_params v))] v),
     hd_esc = (\<lambda>_. []), hd_esc_fb = (\<lambda>i. jot [EvEsc i]), hd_error = (\<lambda>_ _ v. (False, v)),
     hd_osc = string_collectors (\<lambda>h d es. (True, es @ [EvString d])),
     hd_dcs = dcs_collectors (\<lambda>h d ps es. (True, es @ [EvString d])),
     hd_apc = string_collectors (\<lambda>h d es. (True, es @ [EvString d]))\<rparr>"

definition recording :: "event list store vt" where
  "recording = NewEscapeSequenceParser \<lparr>st_acc = (\<lambda>_. \<lparr>co_data = [], co_hitLimit = False, co_params = emptyDcsParams\<rparr>), st_rest = []\<rparr>"

lemma jot_sel [simp]:
  "currentState (jot es v) = currentState v" "vt_params (jot es v) = vt_params v"
  "vt_single (jot es v) = vt_single v" "vt_wf (jot es v) = vt_wf v"
  by (simp_all add: jot_def vt_single_def vt_wf_def)

lemma jot_append: "jot (es @ fs) v = jot fs (jot es v)"
  by (simp add: jot_def)

lemma recorder_keeps:
  assumes "\<And>es v. P (jot es v) = P v"
  shows "handlers_keep P recorder"
  by (simp add: handlers_keep_def keeps_def recorder_def assms)

lemma recorder_streaming: "streaming recorder"
proof -
  have "stream vt_single (\<lambda>xs. jot (map EvText xs))"
    by unfold_locales (simp_all add: jot_append)
  moreover have "hd_print recorder = (\<lambda>xs. jot (map EvText xs))" by (simp add: recorder_def)
  moreover have "payload_handlers (hd_osc recorder)" "payload_handlers (hd_apc recorder)"
    by (simp_all add: recorder_def collectors.payload_handlers_axioms)
  moreover have "dcs_payload_handlers (hd_dcs recorder)"
    by (simp add: recorder_def dcs_collector.dcs_payload_handlers_axioms)
  moreover have "hd_error recorder i c v = (False, v)" for i c v by (simp add: recorder_def)
  ultimately show ?thesis using recorder_keeps [of vt_single] by (simp add: streaming_def)
qed

lemma recording_single: "vt_single recording"
  by (simp add: recording_def NewEscapeSequenceParser_def vt_single_def sp_single_def NewStringParser_def
      NewDcsParser_def)

lemma recording_wf: "vt_wf recording"
proof -
  have "repr DefaultParams []" "pa_MaxLength DefaultParams = 32" "pa_maxSubParamsLen DefaultParams = 32"
    using repr_default by (simp_all add: DefaultParams_def NewParams_def maxSubParams_def)
  from AddParam_wf [OF this] show ?thesis
    by (auto simp: recording_def NewEscapeSequenceParser_def vt_wf_def)
qed

section \<open>Properties\<close>





text \<open>
  C30: The parser stays well-typed on every input: its state is one of the fifteen of the table,
  and its parameters are a well-formed list of at least one and at most 32 parameters with at most
  32 sub-parameters, so that no table lookup and no parameter access is out of range and adding a
  parameter never panics.
\<close>

theorem parser_well_typed:
  assumes "handlers_keep vt_wf H" and "vt_wf v"
  shows "vt_wf (Parse H i codes v) \<and> (\<exists>p. AddParam 0 (vt_params (Parse H i codes v)) = Some p)
    \<and> (\<exists>p. AddSubParam (-1) (vt_params (Parse H i codes v)) = Some p)
    \<and> table_index (currentState (Parse H i codes v)) (code_slot c) < ParserStateLength * 256"
proof -
  have w: "vt_wf (Parse H i codes v)" by (rule Parse_wf [OF assms])
  then have p: "params_wf (vt_params (Parse H i codes v))" and s: "currentState (Parse H i codes v) < 15"
    by (simp_all add: vt_wf_def)
  have "table_index (currentState (Parse H i codes v)) (code_slot c) < 15 * 256"
    using s code_slot_less [of c] table_index_eq [OF code_slot_less, of "currentState (Parse H i codes v)" c] by linarith
  with w p AddParam_wf AddSubParam_wf [OF p] show ?thesis by (auto simp: params_wf_def)
qed

theorem parser_well_typed_witness: "vt_wf (Parse recorder 0 [0x1B, 0x5B, 0x33, 0x6D] recording)"
  using parser_well_typed [OF recorder_keeps recording_wf, of 0 "[0x1B, 0x5B, 0x33, 0x6D]" 0] by simp

section \<open>Where it matters\<close>

text \<open>A DEL in a DCS payload is dropped at the start of a piece and kept in the middle of one.\<close>

definition in_dcs :: "event list store vt" where
  "in_dcs = recording\<lparr>currentState := ParserStateDCSPassthrough, vt_dcs := NewDcsParser\<lparr>dp_active := [0]\<rparr>\<rparr>"

lemma row_dcs_del: "vt500 ParserStateDCSPassthrough 0x7f = (ParserActionIgnore, ParserStateDCSPassthrough)"
  by (simp add: row del: upt_rec_numeral One_nat_def)

lemma in_dcs_rows:
  assumes "currentState v = ParserStateDCSPassthrough"
  shows "row_of v 0x41 = (ParserActionDCSPut, ParserStateDCSPassthrough)"
    and "row_of v 0x7f = (ParserActionIgnore, ParserStateDCSPassthrough)"
  using assms row_dcs [of "0x41"] row_dcs_del by (simp_all add: row_of_def code_slot_def)

lemma del_depends_on_pieces:
  "co_data (st_acc (vt_env (Parse recorder 0 [0x41, 0x7f] in_dcs)) 0) = [0x41, 0x7f]"
  "co_data (st_acc (vt_env (Parse recorder 0 [0x7f] (Parse recorder 0 [0x41] in_dcs))) 0) = [0x41]"
  by (simp_all add: Parse.simps(2) transition_parts in_dcs_rows Let_def reads_ahead_def in_dcs_def continues_def
      enter_def consume_def act_def leave_def on_dcs_def dcs_Put_def recorder_def dcs_collectors_def
      collect_Put_def set_acc_def recording_def NewEscapeSequenceParser_def NewDcsParser_def
      ParserPayloadLimit_def utf32ToString_def write_rune_def encode_rune_def)

text \<open>
  Digits overflow: the clamp of \<^verbatim>\<open>AddDigit\<close> compares after the multiplication in 32 bits, so a large
  parameter arrives negative, below the -1 that \<^verbatim>\<open>AddParam\<close> refuses.
\<close>

lemma digits_overflow:
  "sint (fold (\<lambda>d c. next_value c d) [4, 2, 9, 4, 9, 6, 7, 2, 9, 4] 0) = -2"
  by (simp add: next_value_def)

text \<open>The identifier of an OSC sequence wraps at 64 bits: this one is 2, the window title.\<close>

lemma osc_id_wraps:
  "sp_id (fst (snd (osc_id_loop (string_collectors (\<lambda>_ _ e. (True, e)))
     (map (\<lambda>n. 0x30 + n) [1, 8, 4, 4, 6, 7, 4, 4, 0, 7, 3, 7, 0, 9, 5, 5, 1, 6, 1, 8])
     (NewStringParser\<lparr>sp_state := StateID\<rparr>) s))) = 2"
  by (simp add: NewStringParser_def)

end
