(* ===== verification/Vt_Attr.thy ===== *)
theory Vt_Attr
  imports Vt_Params Go_Json
begin

text \<open>
  The attributes of a cell of the emulated screen (\<^verbatim>\<open>src/internal/xterm/constants.go\<close>,
  \<^verbatim>\<open>attributedata.go\<close>): a foreground and a background word that pack a colour with its mode and
  the style flags, and the extended attributes (underline style and colour, hyperlink). A pointer
  to extended attributes is an option; the code copies them before it changes them, so they are
  values here. The theory shows that the fields of a word do not disturb one another.
\<close>

section \<open>Bit layout\<close>

definition AttrPColorMask :: u32 where "AttrPColorMask = 0xFF"
definition AttrCMMask :: u32 where "AttrCMMask = 0x3000000"
definition AttrCMP16 :: u32 where "AttrCMP16 = 0x1000000"
definition AttrCMP256 :: u32 where "AttrCMP256 = 0x2000000"
definition AttrCMRGB :: u32 where "AttrCMRGB = 0x3000000"
definition AttrRGBMask :: u32 where "AttrRGBMask = 0xFFFFFF"

definition FgFlagInverse :: u32 where "FgFlagInverse = 0x4000000"
definition FgFlagBold :: u32 where "FgFlagBold = 0x8000000"
definition FgFlagUnderline :: u32 where "FgFlagUnderline = 0x10000000"
definition FgFlagBlink :: u32 where "FgFlagBlink = 0x20000000"
definition FgFlagInvisible :: u32 where "FgFlagInvisible = 0x40000000"
definition FgFlagStrikethrough :: u32 where "FgFlagStrikethrough = 0x80000000"

definition BgFlagItalic :: u32 where "BgFlagItalic = 0x4000000"
definition BgFlagDim :: u32 where "BgFlagDim = 0x8000000"
definition BgFlagHasExtended :: u32 where "BgFlagHasExtended = 0x10000000"
definition BgFlagProtected :: u32 where "BgFlagProtected = 0x20000000"
definition BgFlagOverline :: u32 where "BgFlagOverline = 0x40000000"

definition ExtFlagUnderlineStyle :: u32 where "ExtFlagUnderlineStyle = 0x1C000000"
definition ExtFlagVariantOffset :: u32 where "ExtFlagVariantOffset = 0xE0000000"

definition UnderlineStyleNone :: u32 where "UnderlineStyleNone = 0"
definition UnderlineStyleSingle :: u32 where "UnderlineStyleSingle = 1"
definition UnderlineStyleDouble :: u32 where "UnderlineStyleDouble = 2"
definition UnderlineStyleDashed :: u32 where "UnderlineStyleDashed = 5"

lemmas attr_consts = AttrPColorMask_def AttrCMMask_def AttrCMP16_def AttrCMP256_def AttrCMRGB_def
  AttrRGBMask_def FgFlagInverse_def FgFlagBold_def FgFlagUnderline_def FgFlagBlink_def
  FgFlagInvisible_def FgFlagStrikethrough_def BgFlagItalic_def BgFlagDim_def BgFlagHasExtended_def
  BgFlagProtected_def BgFlagOverline_def ExtFlagUnderlineStyle_def ExtFlagVariantOffset_def
  UnderlineStyleNone_def UnderlineStyleSingle_def UnderlineStyleDouble_def UnderlineStyleDashed_def

section \<open>Extended attributes\<close>

record ExtendedAttrs =
  ea_ext :: u32
  ea_urlID :: int

definition emptyExt :: ExtendedAttrs where
  "emptyExt = \<lparr>ea_ext = 0, ea_urlID = 0\<rparr>"

definition ext_Ext :: "ExtendedAttrs \<Rightarrow> u32" where
  "ext_Ext e = (if ea_urlID e \<noteq> 0
     then or (and (ea_ext e) (not ExtFlagUnderlineStyle)) (push_bit 26 UnderlineStyleDashed)
     else ea_ext e)"

definition ext_UnderlineStyle :: "ExtendedAttrs \<Rightarrow> u32" where
  "ext_UnderlineStyle e = (if ea_urlID e \<noteq> 0 then UnderlineStyleDashed
     else drop_bit 26 (and (ea_ext e) ExtFlagUnderlineStyle))"

definition ext_SetUnderlineStyle :: "u32 \<Rightarrow> ExtendedAttrs \<Rightarrow> ExtendedAttrs" where
  "ext_SetUnderlineStyle v e = e\<lparr>ea_ext :=
     or (and (ea_ext e) (not ExtFlagUnderlineStyle)) (and (push_bit 26 v) ExtFlagUnderlineStyle)\<rparr>"

definition ext_UnderlineColor :: "ExtendedAttrs \<Rightarrow> u32" where
  "ext_UnderlineColor e = and (ea_ext e) (or AttrCMMask AttrRGBMask)"

definition ext_SetUnderlineColor :: "u32 \<Rightarrow> ExtendedAttrs \<Rightarrow> ExtendedAttrs" where
  "ext_SetUnderlineColor v e = e\<lparr>ea_ext :=
     or (and (ea_ext e) (not (or AttrCMMask AttrRGBMask))) (and v (or AttrCMMask AttrRGBMask))\<rparr>"

text \<open>\<^verbatim>\<open>int32(x) >> 29\<close> is an arithmetic shift.\<close>

definition ext_UnderlineVariantOffset :: "ExtendedAttrs \<Rightarrow> int" where
  "ext_UnderlineVariantOffset e =
    (let val = signed_drop_bit 29 (and (ea_ext e) ExtFlagVariantOffset) in
     if sint val < 0 then sint (xor val (push_bit 3 (not 0))) else sint val)"

definition ext_SetUnderlineVariantOffset :: "int \<Rightarrow> ExtendedAttrs \<Rightarrow> ExtendedAttrs" where
  "ext_SetUnderlineVariantOffset v e = e\<lparr>ea_ext :=
     or (and (ea_ext e) (not ExtFlagVariantOffset)) (and (push_bit 29 (word_of_int v)) ExtFlagVariantOffset)\<rparr>"

definition ext_IsEmpty :: "ExtendedAttrs \<Rightarrow> bool" where
  "ext_IsEmpty e \<longleftrightarrow> ext_UnderlineStyle e = UnderlineStyleNone \<and> ea_urlID e = 0"

section \<open>Attributes\<close>

record AttributeData =
  ad_Fg :: u32
  ad_Bg :: u32
  ad_Extended :: "ExtendedAttrs option"

definition DefaultAttrData :: AttributeData where
  "DefaultAttrData = \<lparr>ad_Fg = 0, ad_Bg = 0, ad_Extended = Some emptyExt\<rparr>"

definition extended :: "'a AttributeData_scheme \<Rightarrow> ExtendedAttrs" where
  "extended a = (case ad_Extended a of None \<Rightarrow> emptyExt | Some e \<Rightarrow> e)"

definition ToColorRGB :: "u32 \<Rightarrow> byte \<times> byte \<times> byte" where
  "ToColorRGB v = (ucast (and (drop_bit 16 v) 0xFF), ucast (and (drop_bit 8 v) 0xFF), ucast (and v 0xFF))"

definition FromColorRGB :: "byte \<times> byte \<times> byte \<Rightarrow> u32" where
  "FromColorRGB c = (case c of (r, g, b) \<Rightarrow>
     or (or (push_bit 16 (and (ucast r) 0xFF)) (push_bit 8 (and (ucast g) 0xFF))) (and (ucast b) 0xFF))"

definition IsInverse :: "'a AttributeData_scheme \<Rightarrow> u32" where "IsInverse a = and (ad_Fg a) FgFlagInverse"
definition IsBold :: "'a AttributeData_scheme \<Rightarrow> u32" where "IsBold a = and (ad_Fg a) FgFlagBold"
definition IsBlink :: "'a AttributeData_scheme \<Rightarrow> u32" where "IsBlink a = and (ad_Fg a) FgFlagBlink"
definition IsInvisible :: "'a AttributeData_scheme \<Rightarrow> u32" where
  "IsInvisible a = and (ad_Fg a) FgFlagInvisible"
definition IsStrikethrough :: "'a AttributeData_scheme \<Rightarrow> u32" where
  "IsStrikethrough a = and (ad_Fg a) FgFlagStrikethrough"
definition IsItalic :: "'a AttributeData_scheme \<Rightarrow> u32" where "IsItalic a = and (ad_Bg a) BgFlagItalic"
definition IsDim :: "'a AttributeData_scheme \<Rightarrow> u32" where "IsDim a = and (ad_Bg a) BgFlagDim"
definition IsProtected :: "'a AttributeData_scheme \<Rightarrow> u32" where
  "IsProtected a = and (ad_Bg a) BgFlagProtected"
definition IsOverline :: "'a AttributeData_scheme \<Rightarrow> u32" where
  "IsOverline a = and (ad_Bg a) BgFlagOverline"

definition HasExtendedAttrs :: "'a AttributeData_scheme \<Rightarrow> u32" where
  "HasExtendedAttrs a = and (ad_Bg a) BgFlagHasExtended"

definition IsUnderline :: "'a AttributeData_scheme \<Rightarrow> u32" where
  "IsUnderline a = (if HasExtendedAttrs a \<noteq> 0 \<and> ext_UnderlineStyle (extended a) \<noteq> UnderlineStyleNone
     then 1 else and (ad_Fg a) FgFlagUnderline)"

definition GetFgColorMode :: "'a AttributeData_scheme \<Rightarrow> u32" where "GetFgColorMode a = and (ad_Fg a) AttrCMMask"
definition GetBgColorMode :: "'a AttributeData_scheme \<Rightarrow> u32" where "GetBgColorMode a = and (ad_Bg a) AttrCMMask"
definition IsFgRGB :: "'a AttributeData_scheme \<Rightarrow> bool" where "IsFgRGB a \<longleftrightarrow> and (ad_Fg a) AttrCMMask = AttrCMRGB"
definition IsBgRGB :: "'a AttributeData_scheme \<Rightarrow> bool" where "IsBgRGB a \<longleftrightarrow> and (ad_Bg a) AttrCMMask = AttrCMRGB"
definition IsFgDefault :: "'a AttributeData_scheme \<Rightarrow> bool" where "IsFgDefault a \<longleftrightarrow> and (ad_Fg a) AttrCMMask = 0"
definition IsBgDefault :: "'a AttributeData_scheme \<Rightarrow> bool" where "IsBgDefault a \<longleftrightarrow> and (ad_Bg a) AttrCMMask = 0"

definition IsFgPalette :: "'a AttributeData_scheme \<Rightarrow> bool" where
  "IsFgPalette a \<longleftrightarrow> and (ad_Fg a) AttrCMMask = AttrCMP16 \<or> and (ad_Fg a) AttrCMMask = AttrCMP256"

definition IsBgPalette :: "'a AttributeData_scheme \<Rightarrow> bool" where
  "IsBgPalette a \<longleftrightarrow> and (ad_Bg a) AttrCMMask = AttrCMP16 \<or> and (ad_Bg a) AttrCMMask = AttrCMP256"

definition IsAttributeDefault :: "'a AttributeData_scheme \<Rightarrow> bool" where
  "IsAttributeDefault a \<longleftrightarrow> ad_Fg a = 0 \<and> ad_Bg a = 0"

text \<open>The colour value of a word, \<open>-1\<close> for the default colour.\<close>

definition color_value :: "u32 \<Rightarrow> int" where
  "color_value w = (if and w AttrCMMask \<in> {AttrCMP16, AttrCMP256} then uint (and w AttrPColorMask)
     else if and w AttrCMMask = AttrCMRGB then uint (and w AttrRGBMask) else -1)"

definition GetFgColor :: "'a AttributeData_scheme \<Rightarrow> int" where "GetFgColor a = color_value (ad_Fg a)"
definition GetBgColor :: "'a AttributeData_scheme \<Rightarrow> int" where "GetBgColor a = color_value (ad_Bg a)"

definition UpdateExtended :: "'a AttributeData_scheme \<Rightarrow> 'a AttributeData_scheme" where
  "UpdateExtended a = a\<lparr>ad_Extended := Some (extended a),
     ad_Bg := (if ext_IsEmpty (extended a) then and (ad_Bg a) (not BgFlagHasExtended)
               else or (ad_Bg a) BgFlagHasExtended)\<rparr>"

definition has_underline_color :: "'a AttributeData_scheme \<Rightarrow> bool" where
  "has_underline_color a \<longleftrightarrow>
     and (ad_Bg a) BgFlagHasExtended \<noteq> 0 \<and> not (ext_UnderlineColor (extended a)) \<noteq> 0"

definition GetUnderlineColor :: "'a AttributeData_scheme \<Rightarrow> int" where
  "GetUnderlineColor a =
    (if has_underline_color a then
       (let c = ext_UnderlineColor (extended a) in
        if and c AttrCMMask \<in> {AttrCMP16, AttrCMP256} then uint (and c AttrPColorMask)
        else if and c AttrCMMask = AttrCMRGB then uint (and c AttrRGBMask) else GetFgColor a)
     else GetFgColor a)"

definition GetUnderlineColorMode :: "'a AttributeData_scheme \<Rightarrow> u32" where
  "GetUnderlineColorMode a = (if has_underline_color a
     then and (ext_UnderlineColor (extended a)) AttrCMMask else GetFgColorMode a)"

definition IsUnderlineColorRGB :: "'a AttributeData_scheme \<Rightarrow> bool" where
  "IsUnderlineColorRGB a = (if has_underline_color a
     then and (ext_UnderlineColor (extended a)) AttrCMMask = AttrCMRGB else IsFgRGB a)"

definition IsUnderlineColorPalette :: "'a AttributeData_scheme \<Rightarrow> bool" where
  "IsUnderlineColorPalette a = (if has_underline_color a
     then and (ext_UnderlineColor (extended a)) AttrCMMask \<in> {AttrCMP16, AttrCMP256} else IsFgPalette a)"

definition IsUnderlineColorDefault :: "'a AttributeData_scheme \<Rightarrow> bool" where
  "IsUnderlineColorDefault a = (if has_underline_color a
     then and (ext_UnderlineColor (extended a)) AttrCMMask = 0 else IsFgDefault a)"

definition GetUnderlineStyle :: "'a AttributeData_scheme \<Rightarrow> u32" where
  "GetUnderlineStyle a = (if and (ad_Fg a) FgFlagUnderline = 0 then UnderlineStyleNone
     else if and (ad_Bg a) BgFlagHasExtended \<noteq> 0 then ext_UnderlineStyle (extended a)
     else UnderlineStyleSingle)"

definition GetUnderlineVariantOffset :: "'a AttributeData_scheme \<Rightarrow> int" where
  "GetUnderlineVariantOffset a = ext_UnderlineVariantOffset (extended a)"

section \<open>Fields do not disturb one another\<close>

lemmas attr_bits = attr_consts bit.conj_disj_distrib2 bit.conj_disj_distrib and.assoc

lemma style_field: "and (drop_bit 26 (push_bit 26 v)) 7 = and v (7 :: u32)"
proof -
  have m: "(7::u32) = mask 3" by (simp add: mask_eq_exp_minus_1)
  show ?thesis unfolding m by (rule bit_eqI) (auto simp: bit_simps)
qed

lemma ext_set_get [simp]:
  "ea_urlID e = 0 \<Longrightarrow> ext_UnderlineStyle (ext_SetUnderlineStyle v e) = and v 7"
  "ext_UnderlineColor (ext_SetUnderlineStyle v e) = ext_UnderlineColor e"
  "ext_UnderlineVariantOffset (ext_SetUnderlineStyle v e) = ext_UnderlineVariantOffset e"
  "ext_UnderlineStyle (ext_SetUnderlineColor v e) = ext_UnderlineStyle e"
  "ext_UnderlineColor (ext_SetUnderlineColor v e) = and v 0x3FFFFFF"
  "ext_UnderlineVariantOffset (ext_SetUnderlineColor v e) = ext_UnderlineVariantOffset e"
  "ext_UnderlineStyle (ext_SetUnderlineVariantOffset n e) = ext_UnderlineStyle e"
  "ext_UnderlineColor (ext_SetUnderlineVariantOffset n e) = ext_UnderlineColor e"
  by (simp_all add: ext_UnderlineStyle_def ext_UnderlineColor_def ext_UnderlineVariantOffset_def
      ext_SetUnderlineStyle_def ext_SetUnderlineColor_def ext_SetUnderlineVariantOffset_def
      attr_bits style_field)

lemma ext_set_url [simp]:
  "ea_urlID (ext_SetUnderlineStyle v e) = ea_urlID e" "ea_urlID (ext_SetUnderlineColor v e) = ea_urlID e"
  "ea_urlID (ext_SetUnderlineVariantOffset n e) = ea_urlID e"
  by (simp_all add: ext_SetUnderlineStyle_def ext_SetUnderlineColor_def ext_SetUnderlineVariantOffset_def)

lemma variant_offset_mod:
  "ext_UnderlineVariantOffset (ext_SetUnderlineVariantOffset v e) = v mod 8"
proof -
  have "push_bit 29 (word_of_int v :: u32) = push_bit 29 (word_of_int (v mod 8))"
    by (rule bit_eqI) (auto simp: bit_simps bit_take_bit_iff simp flip: take_bit_eq_mod [of 3, simplified])
  moreover have "v mod 8 \<in> {0,1,2,3,4,5,6,7}" by auto
  ultimately show ?thesis
    by (simp add: ext_UnderlineVariantOffset_def ext_SetUnderlineVariantOffset_def attr_bits)
      (elim disjE; simp; code_simp)
qed

lemma color_rgb: "ToColorRGB (FromColorRGB c) = c"
proof (cases c)
  case (fields r g b)
  have m: "(0xFF::u32) = mask 8" by (simp add: mask_eq_exp_minus_1)
  show ?thesis unfolding fields ToColorRGB_def FromColorRGB_def m prod.case prod.inject
    by (intro conjI bit_eqI) (auto simp: bit_simps)
qed

lemma rgb_color: "FromColorRGB (ToColorRGB v) = and v AttrRGBMask"
proof -
  have m: "(0xFF::u32) = mask 8" "AttrRGBMask = mask 24" by (simp_all add: mask_eq_exp_minus_1 attr_consts)
  show ?thesis unfolding ToColorRGB_def FromColorRGB_def m prod.case
    subgoal by (rule bit_eqI, rename_tac n, case_tac "n < 16"; case_tac "n < 8") (auto simp: bit_simps)
    done
qed

lemma rgb_mask: "and (FromColorRGB c) 0xFFFFFF = FromColorRGB c"
  using rgb_color [of "FromColorRGB c"] by (simp add: color_rgb attr_consts)

lemma rgb_other: "and m 0xFFFFFF = 0 \<Longrightarrow> and (FromColorRGB c) m = 0"
proof -
  assume "and m 0xFFFFFF = (0 :: u32)"
  moreover have "and (and (FromColorRGB c) 0xFFFFFF) m = and (FromColorRGB c) (and m 0xFFFFFF)"
    by (simp only: and.assoc and.commute [of "0xFFFFFF"])
  ultimately have "and (and (FromColorRGB c) 0xFFFFFF) m = 0" by simp
  then show ?thesis by (simp add: rgb_mask)
qed

lemma has_underline_color_iff: "has_underline_color a \<longleftrightarrow> HasExtendedAttrs a \<noteq> 0"
proof -
  have "bit (not (ext_UnderlineColor e)) 31" for e
    by (simp add: ext_UnderlineColor_def attr_consts bit_simps)
  then have "not (ext_UnderlineColor e) \<noteq> 0" for e by (metis bit_0_eq bot_apply bot_bool_def)
  then show ?thesis by (simp add: has_underline_color_def HasExtendedAttrs_def)
qed

end
