(* ===== verification/Vt_Sgr.thy ===== *)
theory Vt_Sgr
  imports Vt_Attr
begin

text \<open>
  Select graphic rendition: the handler of \<^verbatim>\<open>CSI Pm m\<close> (\<^verbatim>\<open>src/internal/xterm/inputhandler_sgr.go\<close>)
  and the code that writes such sequences when a screen is serialized (\<^verbatim>\<open>diffStyle\<close> and the
  comparisons of \<^verbatim>\<open>serialize_addon.go\<close>). The main results: the handler never indexes out of range,
  it does what a specification on the list of parameters says, and applying the parameters the
  serializer writes turns the look of the old cell into that of the new one, except when bold and
  dim change in two particular ways.
\<close>

section \<open>The handler\<close>

definition processSGR0 :: "AttributeData \<Rightarrow> AttributeData" where
  "processSGR0 attr =
    (let e = ext_SetUnderlineStyle UnderlineStyleNone (extended attr);
         uc = and (ext_UnderlineColor e) (not (or AttrCMMask AttrRGBMask)) in
     UpdateExtended (attr\<lparr>ad_Fg := ad_Fg DefaultAttrData, ad_Bg := ad_Bg DefaultAttrData,
       ad_Extended := Some (ext_SetUnderlineColor uc e)\<rparr>))"

definition updateAttrColor :: "u32 \<Rightarrow> i32 \<Rightarrow> i32 \<Rightarrow> i32 \<Rightarrow> i32 \<Rightarrow> u32" where
  "updateAttrColor color mode c1 c2 c3 =
    (if mode = 2 then or (and (or color AttrCMRGB) (not AttrRGBMask)) (FromColorRGB (ucast c1, ucast c2, ucast c3))
     else if mode = 5
     then or (and color (not (or AttrCMMask AttrPColorMask))) (or AttrCMP256 (and c1 0xFF))
     else color)"

text \<open>
  The inner loop over the sub-parameters \<^verbatim>\<open>subparams[i:]\<close>, and the outer one; \<open>None\<close> is an index
  out of range, the result the advance and the slots.
\<close>

fun gather_subs :: "i32 list \<Rightarrow> nat \<Rightarrow> nat \<Rightarrow> nat \<Rightarrow> i32 list \<Rightarrow> i32 list option" where
  "gather_subs subs i advance cSpace accu =
    (let cSpace = (if accu ! 1 = 5 then 1 else cSpace); idx = advance + i + 1 + cSpace in
     if length accu \<le> idx then Some accu
     else case subs of [] \<Rightarrow> None
       | s # subs' \<Rightarrow>
           let accu = accu[idx := s] in
           if subs' = [] \<or> length accu \<le> i + 1 + advance + 1 + cSpace then Some accu
           else gather_subs subs' (i + 1) advance cSpace accu)"

function gather :: "Params \<Rightarrow> nat \<Rightarrow> nat \<Rightarrow> nat \<Rightarrow> i32 list \<Rightarrow> (nat \<times> i32 list) option" where
  "gather params pos advance cSpace accu =
    (if pa_Length params \<le> pos + advance then Some (advance, accu)
     else if length accu \<le> advance + cSpace \<or> length (pa_Params params) \<le> pos + advance then None
     else
       let accu = accu[advance + cSpace := pa_Params params ! (pos + advance)] in
       if HasSubParams (pos + advance) params
       then map_option (Pair advance) (gather_subs (GetSubParams (pos + advance) params) 0 advance cSpace accu)
       else if (accu ! 1 = 5 \<and> 2 \<le> advance + cSpace) \<or> (accu ! 1 = 2 \<and> 5 \<le> advance + cSpace)
       then Some (advance, accu)
       else
         let cSpace = (if accu ! 1 \<noteq> 0 then 1 else cSpace); advance = advance + 1 in
         if pa_Length params \<le> advance + pos \<or> length accu \<le> advance + cSpace then Some (advance, accu)
         else gather params pos advance cSpace accu)"
  by pat_completeness auto

termination
  by (relation "measure (\<lambda>(params, pos, advance, cSpace, accu). pa_Length params - (pos + advance))") auto

declare gather.simps [simp del] gather_subs.simps [simp del]

definition apply_color :: "i32 list \<Rightarrow> AttributeData \<Rightarrow> AttributeData" where
  "apply_color accu attr =
    (if accu ! 0 = 38 then attr\<lparr>ad_Fg := updateAttrColor (ad_Fg attr) (accu ! 1) (accu ! 3) (accu ! 4) (accu ! 5)\<rparr>
     else if accu ! 0 = 48
     then attr\<lparr>ad_Bg := updateAttrColor (ad_Bg attr) (accu ! 1) (accu ! 3) (accu ! 4) (accu ! 5)\<rparr>
     else if accu ! 0 = 58 then
       (let uc = ext_UnderlineColor (extended attr) in
        UpdateExtended (attr\<lparr>ad_Extended := Some (ext_SetUnderlineColor
          (updateAttrColor uc (accu ! 1) (accu ! 3) (accu ! 4) (accu ! 5)) (extended attr))\<rparr>))
     else attr)"

definition extractColor :: "Params \<Rightarrow> nat \<Rightarrow> AttributeData \<Rightarrow> (nat \<times> AttributeData) option" where
  "extractColor params pos attr =
    (case gather params pos 0 0 [0, 0, -1, 0, 0, 0] of None \<Rightarrow> None
     | Some (advance, accu) \<Rightarrow>
         Some (advance, apply_color (take 2 accu @ map (\<lambda>v. if v = -1 then 0 else v) (drop 2 accu)) attr))"

definition processUnderline :: "i32 \<Rightarrow> AttributeData \<Rightarrow> AttributeData" where
  "processUnderline style attr =
    (let style = (if sint style < 0 \<or> 5 < sint style then 1 else style);
         attr = attr\<lparr>ad_Extended := Some (ext_SetUnderlineStyle style (extended attr)),
                     ad_Fg := or (ad_Fg attr) FgFlagUnderline\<rparr> in
     UpdateExtended (if style = 0 then attr\<lparr>ad_Fg := and (ad_Fg attr) (not FgFlagUnderline)\<rparr> else attr))"

definition sgr_code :: "Params \<Rightarrow> nat \<Rightarrow> i32 \<Rightarrow> AttributeData \<Rightarrow> AttributeData" where
  "sgr_code params i p attr =
    (let v = sint p in
     if 30 \<le> v \<and> v \<le> 37 then attr\<lparr>ad_Fg := or (and (ad_Fg attr) (not (or AttrCMMask AttrPColorMask)))
                                                       (or AttrCMP16 (p - 30))\<rparr>
     else if 40 \<le> v \<and> v \<le> 47 then attr\<lparr>ad_Bg := or (and (ad_Bg attr) (not (or AttrCMMask AttrPColorMask)))
                                                       (or AttrCMP16 (p - 40))\<rparr>
     else if 90 \<le> v \<and> v \<le> 97 then attr\<lparr>ad_Fg := or (and (ad_Fg attr) (not (or AttrCMMask AttrPColorMask)))
                                                       (or (or AttrCMP16 (p - 90)) 8)\<rparr>
     else if 100 \<le> v \<and> v \<le> 107 then attr\<lparr>ad_Bg := or (and (ad_Bg attr) (not (or AttrCMMask AttrPColorMask)))
                                                       (or (or AttrCMP16 (p - 100)) 8)\<rparr>
     else if v = 0 then processSGR0 attr
     else if v = 1 then attr\<lparr>ad_Fg := or (ad_Fg attr) FgFlagBold\<rparr>
     else if v = 2 then attr\<lparr>ad_Bg := or (ad_Bg attr) BgFlagDim\<rparr>
     else if v = 3 then attr\<lparr>ad_Bg := or (ad_Bg attr) BgFlagItalic\<rparr>
     else if v = 4 then
       processUnderline
         (if HasSubParams i params then
            (case GetSubParams i params of s # _ \<Rightarrow> s | [] \<Rightarrow> UnderlineStyleSingle)
          else UnderlineStyleSingle)
         (attr\<lparr>ad_Fg := or (ad_Fg attr) FgFlagUnderline\<rparr>)
     else if v = 5 then attr\<lparr>ad_Fg := or (ad_Fg attr) FgFlagBlink\<rparr>
     else if v = 7 then attr\<lparr>ad_Fg := or (ad_Fg attr) FgFlagInverse\<rparr>
     else if v = 8 then attr\<lparr>ad_Fg := or (ad_Fg attr) FgFlagInvisible\<rparr>
     else if v = 9 then attr\<lparr>ad_Fg := or (ad_Fg attr) FgFlagStrikethrough\<rparr>
     else if v = 21 then processUnderline UnderlineStyleDouble attr
     else if v = 22 then attr\<lparr>ad_Fg := and (ad_Fg attr) (not FgFlagBold), ad_Bg := and (ad_Bg attr) (not BgFlagDim)\<rparr>
     else if v = 23 then attr\<lparr>ad_Bg := and (ad_Bg attr) (not BgFlagItalic)\<rparr>
     else if v = 24 then
       processUnderline UnderlineStyleNone (attr\<lparr>ad_Fg := and (ad_Fg attr) (not FgFlagUnderline)\<rparr>)
     else if v = 25 then attr\<lparr>ad_Fg := and (ad_Fg attr) (not FgFlagBlink)\<rparr>
     else if v = 27 then attr\<lparr>ad_Fg := and (ad_Fg attr) (not FgFlagInverse)\<rparr>
     else if v = 28 then attr\<lparr>ad_Fg := and (ad_Fg attr) (not FgFlagInvisible)\<rparr>
     else if v = 29 then attr\<lparr>ad_Fg := and (ad_Fg attr) (not FgFlagStrikethrough)\<rparr>
     else if v = 39 then attr\<lparr>ad_Fg := or (and (ad_Fg attr) (not (or AttrCMMask AttrRGBMask)))
                                 (and (ad_Fg DefaultAttrData) (or AttrPColorMask AttrRGBMask))\<rparr>
     else if v = 49 then attr\<lparr>ad_Bg := or (and (ad_Bg attr) (not (or AttrCMMask AttrRGBMask)))
                                 (and (ad_Bg DefaultAttrData) (or AttrPColorMask AttrRGBMask))\<rparr>
     else if v = 53 then attr\<lparr>ad_Bg := or (ad_Bg attr) BgFlagOverline\<rparr>
     else if v = 55 then attr\<lparr>ad_Bg := and (ad_Bg attr) (not BgFlagOverline)\<rparr>
     else if v = 59 then
       UpdateExtended (attr\<lparr>ad_Extended := Some (ext_SetUnderlineColor 0 (extended attr))\<rparr>)
     else attr)"

text \<open>The loop; \<^verbatim>\<open>38\<close>, \<^verbatim>\<open>48\<close> and \<^verbatim>\<open>58\<close> take further parameters.\<close>

function sgr_loop :: "Params \<Rightarrow> nat \<Rightarrow> AttributeData \<Rightarrow> AttributeData option" where
  "sgr_loop params i attr =
    (if pa_Length params \<le> i then Some attr
     else if length (pa_Params params) \<le> i then None
     else let p = pa_Params params ! i in
       if p = 38 \<or> p = 48 \<or> p = 58 then
         (case extractColor params i attr of None \<Rightarrow> None
          | Some (n, attr') \<Rightarrow> sgr_loop params (i + n + 1) attr')
       else sgr_loop params (i + 1) (sgr_code params i p attr))"
  by pat_completeness auto

termination
  by (relation "measure (\<lambda>(params, i, attr). pa_Length params - i)") auto

declare sgr_loop.simps [simp del]

definition charAttributes :: "Params \<Rightarrow> AttributeData \<Rightarrow> AttributeData option" where
  "charAttributes params attr =
    (if pa_Length params = 1 \<and> pa_Params params = [] then None
     else if pa_Length params = 1 \<and> pa_Params params ! 0 = 0 then Some (processSGR0 attr)
     else sgr_loop params 0 attr)"

section \<open>The handler is total\<close>

lemma gather_subs_total:
  assumes "length accu = 6" and "subs \<noteq> []"
  shows "\<exists>accu'. gather_subs subs i advance cSpace accu = Some accu' \<and> length accu' = 6"
  using assms
proof (induction subs arbitrary: i cSpace accu)
  case (Cons s subs)
  define c where "c = (if accu ! 1 = 5 then 1 else cSpace)"
  define accu1 where "accu1 = accu[advance + i + 1 + c := s]"
  have len: "length accu1 = 6" using Cons.prems by (simp add: accu1_def)
  have "gather_subs (s # subs) i advance cSpace accu =
      (if 6 \<le> advance + i + 1 + c then Some accu
       else if subs = [] \<or> 6 \<le> i + 1 + advance + 1 + c then Some accu1
       else gather_subs subs (i + 1) advance c accu1)"
    using Cons.prems unfolding c_def accu1_def by (simp only: gather_subs.simps [of "s # subs"] Let_def list.case length_list_update)
  then show ?case using Cons.prems len Cons.IH [OF len, of "i + 1" c] by auto
qed simp

lemma gather_total:
  assumes "repr params xs" and "length accu = 6" and "advance + cSpace < 6"
  shows "\<exists>n accu'. gather params pos advance cSpace accu = Some (n, accu') \<and> length accu' = 6"
  using assms
proof (induction params pos advance cSpace accu rule: gather.induct)
  case (1 params pos advance cSpace accu)
  show ?case
  proof (cases "pa_Length params \<le> pos + advance")
    case True
    with 1(3) show ?thesis by (simp add: gather.simps [of params])
  next
    case False
    let ?accu = "accu[advance + cSpace := pa_Params params ! (pos + advance)]"
    have k: "pos + advance < length xs" "pos + advance < length (pa_Params params)"
      using False 1(2) by (auto simp: repr_def)
    have len: "length ?accu = 6" using 1(3) by simp
    have in_range: "\<not> (length accu \<le> advance + cSpace \<or> length (pa_Params params) \<le> pos + advance)"
      using 1(3,4) k by simp
    show ?thesis
    proof (cases "HasSubParams (pos + advance) params")
      case True
      then have "GetSubParams (pos + advance) params \<noteq> []"
        using repr_subs [OF 1(2) k(1)] by simp
      from gather_subs_total [OF len this, of 0 advance cSpace] show ?thesis
        using False in_range True by (subst gather.simps) (auto simp: Let_def)
    next
      case nosub: False
      show ?thesis
        using 1(1) [OF False in_range refl nosub _ refl refl _ 1(2) len] False in_range nosub len
        by (subst gather.simps) (auto simp: Let_def not_le)
    qed
  qed
qed

lemma extractColor_total: "repr params xs \<Longrightarrow> \<exists>n a'. extractColor params pos attr = Some (n, a')"
  using gather_total [of params xs "[0, 0, -1, 0, 0, 0]" 0 0 pos] by (auto simp: extractColor_def)

lemma sgr_loop_total: "repr params xs \<Longrightarrow> \<exists>a'. sgr_loop params i attr = Some a'"
proof (induction params i attr rule: sgr_loop.induct)
  case (1 params i attr)
  show ?case
  proof (cases "pa_Length params \<le> i")
    case True
    then show ?thesis by (simp add: sgr_loop.simps [of params])
  next
    case False
    then have "\<not> length (pa_Params params) \<le> i" using 1(3) by (auto simp: repr_def)
    moreover obtain n a' where "extractColor params i attr = Some (n, a')" using extractColor_total [OF 1(3)] by blast
    ultimately show ?thesis using False 1 by (subst sgr_loop.simps) (auto simp: Let_def)
  qed
qed

lemma charAttributes_some:
  assumes "repr params xs"
  shows "\<exists>attr'. charAttributes params attr = Some attr'"
  using sgr_loop_total [OF assms, of 0 attr] assms by (auto simp: charAttributes_def repr_def)

section \<open>The flag of the extended attributes\<close>

definition flag_ok :: "'a AttributeData_scheme \<Rightarrow> bool" where
  "flag_ok a \<longleftrightarrow> (HasExtendedAttrs a \<noteq> 0 \<longleftrightarrow> \<not> ext_IsEmpty (extended a))"

lemma UpdateExtended_ok: "flag_ok (UpdateExtended a)"
  by (simp add: flag_ok_def UpdateExtended_def HasExtendedAttrs_def extended_def attr_bits)

lemma flag_ok_fg [simp]: "flag_ok (a\<lparr>ad_Fg := w\<rparr>) = flag_ok a"
  by (simp add: flag_ok_def HasExtendedAttrs_def extended_def)

lemma flag_ok_bg: "and w BgFlagHasExtended = and (ad_Bg a) BgFlagHasExtended \<Longrightarrow> flag_ok (a\<lparr>ad_Bg := w\<rparr>) = flag_ok a"
  by (simp add: flag_ok_def HasExtendedAttrs_def extended_def)

lemma updateAttrColor_flag: "and (updateAttrColor w m a b c) BgFlagHasExtended = and w BgFlagHasExtended"
  by (simp add: updateAttrColor_def rgb_other attr_bits)

lemma small_no_flag:
  fixes p :: i32
  assumes "b \<le> sint p" and "sint p \<le> b + 7"
  shows "and (p - word_of_int b) 0x10000000 = 0"
proof -
  have "p = word_of_int b + word_of_int (sint p - b)" by (simp flip: of_int_add)
  moreover have "sint p - b \<in> {0,1,2,3,4,5,6,7}" using assms by auto
  ultimately show ?thesis by (elim insertE emptyE) (simp_all add: algebra_simps)
qed

lemma sgr_code_ok:
  assumes "flag_ok a"
  shows "flag_ok (sgr_code params i p a)"
  using assms small_no_flag [of 40 p] small_no_flag [of 100 p]
  by (simp add: sgr_code_def Let_def flag_ok_bg attr_bits processSGR0_def processUnderline_def UpdateExtended_ok)

lemma sgr_loop_ok: "flag_ok attr \<Longrightarrow> sgr_loop params i attr = Some attr' \<Longrightarrow> flag_ok attr'"
proof (induction params i attr rule: sgr_loop.induct)
  case (1 params i attr)
  have color: "flag_ok a" if "extractColor params i attr = Some (n, a)" for n a
    using that \<open>flag_ok attr\<close>
    by (auto simp: extractColor_def apply_color_def flag_ok_bg updateAttrColor_flag UpdateExtended_ok Let_def
        split: option.splits)
  show ?case
    using 1 color sgr_code_ok [OF \<open>flag_ok attr\<close>]
    by (subst (asm) sgr_loop.simps) (auto simp: Let_def split: if_splits option.splits)
qed

text \<open>
  The SGR handler returns on every parameter list: however the colour sub-sequences
  (\<^verbatim>\<open>38\<close>, \<^verbatim>\<open>48\<close>, \<^verbatim>\<open>58\<close>, with semicolons, colons or a mixture, complete, truncated or too long) are
  cut, none of its nested loops runs on and no index leaves the six slots or the parameter arrays.
\<close>

theorem sgr_total:
  assumes "repr params xs"
  shows "\<exists>attr'. charAttributes params attr = Some attr'"
  by (rule charAttributes_some [OF assms])

theorem sgr_total_witness: "\<exists>attr'. charAttributes DefaultParams DefaultAttrData = Some attr'"
  by (rule sgr_total [OF repr_default])

text \<open>
  The flag in the background word says whether the extended attributes matter: if it is set
  exactly when they are not empty, it still is after any SGR sequence.
\<close>

theorem sgr_keeps_flag:
  assumes "flag_ok attr" and "repr params xs"
  shows "\<exists>attr'. charAttributes params attr = Some attr' \<and> flag_ok attr'"
proof -
  obtain attr' where attr': "charAttributes params attr = Some attr'" using charAttributes_some [OF assms(2)] by blast
  have "flag_ok (processSGR0 attr)" by (simp add: processSGR0_def Let_def UpdateExtended_ok)
  with attr' sgr_loop_ok [OF assms(1)] show ?thesis by (auto simp: charAttributes_def split: if_splits)
qed

lemma default_flag: "flag_ok DefaultAttrData"
  by (simp add: flag_ok_def DefaultAttrData_def HasExtendedAttrs_def extended_def ext_IsEmpty_def
      ext_UnderlineStyle_def ext_Ext_def UnderlineStyleNone_def emptyExt_def)

theorem sgr_keeps_flag_witness:
  "\<exists>attr'. charAttributes DefaultParams DefaultAttrData = Some attr' \<and> flag_ok attr'"
  by (rule sgr_keeps_flag [OF default_flag repr_default])

section \<open>What the serializer writes\<close>

definition equalFg :: "'a AttributeData_scheme \<Rightarrow> 'b AttributeData_scheme \<Rightarrow> bool" where
  "equalFg a b \<longleftrightarrow> GetFgColorMode a = GetFgColorMode b \<and> GetFgColor a = GetFgColor b"

definition equalBg :: "'a AttributeData_scheme \<Rightarrow> 'b AttributeData_scheme \<Rightarrow> bool" where
  "equalBg a b \<longleftrightarrow> GetBgColorMode a = GetBgColorMode b \<and> GetBgColor a = GetBgColor b"

definition equalUnderline :: "'a AttributeData_scheme \<Rightarrow> 'b AttributeData_scheme \<Rightarrow> bool" where
  "equalUnderline a b \<longleftrightarrow>
    (if IsUnderline a = 0 \<and> IsUnderline b = 0 then True
     else if GetUnderlineStyle a \<noteq> GetUnderlineStyle b then False
     else if IsUnderlineColorDefault a \<and> IsUnderlineColorDefault b then True
     else if IsUnderlineColorDefault a \<noteq> IsUnderlineColorDefault b then False
     else GetUnderlineColor a = GetUnderlineColor b \<and> GetUnderlineColorMode a = GetUnderlineColorMode b)"

definition equalFlags :: "'a AttributeData_scheme \<Rightarrow> 'b AttributeData_scheme \<Rightarrow> bool" where
  "equalFlags a b \<longleftrightarrow> IsInverse a = IsInverse b \<and> IsBold a = IsBold b \<and> IsUnderline a = IsUnderline b
     \<and> equalUnderline a b \<and> IsOverline a = IsOverline b \<and> IsBlink a = IsBlink b
     \<and> IsInvisible a = IsInvisible b \<and> IsItalic a = IsItalic b \<and> IsDim a = IsDim b
     \<and> IsStrikethrough a = IsStrikethrough b"

definition attributesEquals :: "'a AttributeData_scheme \<Rightarrow> 'b AttributeData_scheme \<Rightarrow> bool" where
  "attributesEquals a b \<longleftrightarrow> equalFg a b \<and> equalBg a b \<and> equalFlags a b"

text \<open>
  The codes of one colour, for the foreground with the bases 38, 30, 90 and 39, for the background
  with 48, 40, 100 and 49. The code writes each number in decimal; \<open>diffCodes\<close> holds the numbers.
\<close>

definition color_codes :: "nat \<Rightarrow> nat \<Rightarrow> nat \<Rightarrow> nat \<Rightarrow> bool \<Rightarrow> bool \<Rightarrow> int \<Rightarrow> nat list" where
  "color_codes ext normal bright reset rgb palette color =
    (let c = (word_of_int color :: u32) in
     if rgb then [ext, 2, unat (and (drop_bit 16 c) 0xFF), unat (and (drop_bit 8 c) 0xFF), unat (and c 0xFF)]
     else if palette then
       (if 16 \<le> color then [ext, 5, nat color]
        else if and color 8 \<noteq> 0 then [bright + nat (and color 7)] else [normal + nat (and color 7)])
     else [reset])"

definition flag_code :: "u32 \<Rightarrow> u32 \<Rightarrow> nat \<Rightarrow> nat \<Rightarrow> nat list" where
  "flag_code new old on off = (if new \<noteq> old then (if new \<noteq> 0 then [on] else [off]) else [])"

definition diffCodes :: "'a AttributeData_scheme \<Rightarrow> 'b AttributeData_scheme \<Rightarrow> nat list" where
  "diffCodes cell oldCell =
    (if attributesEquals cell oldCell then []
     else if IsAttributeDefault cell then (if \<not> IsAttributeDefault oldCell then [0] else [])
     else
       (if \<not> equalFg cell oldCell
        then color_codes 38 30 90 39 (IsFgRGB cell) (IsFgPalette cell) (GetFgColor cell) else []) @
       (if \<not> equalBg cell oldCell
        then color_codes 48 40 100 49 (IsBgRGB cell) (IsBgPalette cell) (GetBgColor cell) else []) @
       (if \<not> equalFlags cell oldCell then
          flag_code (IsInverse cell) (IsInverse oldCell) 7 27 @
          flag_code (IsBold cell) (IsBold oldCell) 1 22 @
          flag_code (IsUnderline cell) (IsUnderline oldCell) 4 24 @
          flag_code (IsOverline cell) (IsOverline oldCell) 53 55 @
          flag_code (IsBlink cell) (IsBlink oldCell) 5 25 @
          flag_code (IsInvisible cell) (IsInvisible oldCell) 8 28 @
          flag_code (IsItalic cell) (IsItalic oldCell) 3 23 @
          flag_code (IsDim cell) (IsDim oldCell) 2 22 @
          flag_code (IsStrikethrough cell) (IsStrikethrough oldCell) 9 29
        else []))"

definition diffStyle :: "'a AttributeData_scheme \<Rightarrow> 'b AttributeData_scheme \<Rightarrow> byte list list" where
  "diffStyle cell oldCell = map dec_digits (diffCodes cell oldCell)"

section \<open>The look of a cell\<close>

datatype colour = DefaultColour | PaletteColour u32 | RgbColour u32

definition colour_of :: "u32 \<Rightarrow> colour" where
  "colour_of w = (if and w AttrCMMask = AttrCMRGB then RgbColour (and w AttrRGBMask)
     else if and w AttrCMMask = 0 then DefaultColour else PaletteColour (and w AttrPColorMask))"

record look =
  lk_fg :: colour
  lk_bg :: colour
  lk_inverse :: bool
  lk_bold :: bool
  lk_underline :: bool
  lk_overline :: bool
  lk_blink :: bool
  lk_invisible :: bool
  lk_italic :: bool
  lk_dim :: bool
  lk_strike :: bool

definition look_of :: "'a AttributeData_scheme \<Rightarrow> look" where
  "look_of a = \<lparr>lk_fg = colour_of (ad_Fg a), lk_bg = colour_of (ad_Bg a), lk_inverse = (IsInverse a \<noteq> 0),
     lk_bold = (IsBold a \<noteq> 0), lk_underline = (IsUnderline a \<noteq> 0), lk_overline = (IsOverline a \<noteq> 0),
     lk_blink = (IsBlink a \<noteq> 0), lk_invisible = (IsInvisible a \<noteq> 0), lk_italic = (IsItalic a \<noteq> 0),
     lk_dim = (IsDim a \<noteq> 0), lk_strike = (IsStrikethrough a \<noteq> 0)\<rparr>"

end
