(* ===== verification/Vt_Csi.thy ===== *)
theory Vt_Csi
  imports Vt_Input
begin

text \<open>
  Control sequences as text: what the parser makes of \<^verbatim>\<open>ESC [ n;...;n F\<close> and of the private form
  \<^verbatim>\<open>ESC [ ? n;...;n F\<close>, the sequences the serializer writes. From the ground state the handlers of
  \<open>F\<close> run exactly once, on parameters that hold exactly the numbers written.
\<close>

section \<open>The text\<close>

fun join_semicolon :: "byte list list \<Rightarrow> byte list" where
  "join_semicolon [] = []"
| "join_semicolon [x] = x"
| "join_semicolon (x # y # xs) = x @ [0x3B] @ join_semicolon (y # xs)"

definition csi_text :: "byte list \<Rightarrow> nat list \<Rightarrow> byte \<Rightarrow> byte list" where
  "csi_text prefix ns final = [0x1B, 0x5B] @ prefix @ join_semicolon (map dec_digits ns) @ [final]"

definition ascii_codes :: "byte list \<Rightarrow> u32 list" where
  "ascii_codes bs = map ucast bs"

lemma ascii_codes_simps [simp]:
  "ascii_codes [] = []" "ascii_codes (b # bs) = ucast b # ascii_codes bs"
  "ascii_codes (bs @ cs) = ascii_codes bs @ ascii_codes cs"
  by (simp_all add: ascii_codes_def)

section \<open>Parameters\<close>

text \<open>Parameters being collected: none has sub-parameters so far, and there is room.\<close>

definition collecting :: "Params \<Rightarrow> i32 list \<Rightarrow> bool" where
  "collecting p ws \<longleftrightarrow> repr p (map (\<lambda>w. (w, [])) ws) \<and> \<not> pa_rejectDigits p \<and> \<not> pa_digitIsSub p
     \<and> pa_MaxLength p = 32"

lemma collecting_digit:
  assumes "collecting p (ws @ [w])" and "w \<noteq> -1" and "d < 10"
  shows "collecting (param_char (ucast (word_of_nat (48 + d) :: byte)) p) (ws @ [w * 10 + word_of_nat d])"
proof -
  have "d \<in> {0,1,2,3,4,5,6,7,8,9}" using assms(3) by auto
  then have c: "param_char (ucast (word_of_nat (48 + d) :: byte)) p = AddDigit (word_of_nat d) p"
    by (elim insertE emptyE; simp add: param_char_def)
  have "repr (AddDigit (word_of_nat d) p) (list_AddDigit False (word_of_nat d) (map (\<lambda>w. (w, [])) (ws @ [w])))"
    using repr_AddDigit [of p "map (\<lambda>w. (w, [])) (ws @ [w])" "word_of_nat d"] assms(1)
    by (simp add: collecting_def)
  moreover have "pa_rejectDigits (AddDigit x p) = pa_rejectDigits p" "pa_digitIsSub (AddDigit x p) = pa_digitIsSub p"
    "pa_MaxLength (AddDigit x p) = pa_MaxLength p" for x
    by (simp_all add: AddDigit_def Let_def)
  ultimately show ?thesis
    unfolding c using assms(1,2) by (simp add: collecting_def list_AddDigit_def next_value_def)
qed

lemma collecting_semicolon:
  assumes "collecting p ws" and "length ws < 32"
  shows "collecting (param_char 0x3B p) (ws @ [0])"
  using repr_AddParam [of p "map (\<lambda>w. (w, [])) ws" 0] assms
  by (auto simp: collecting_def param_char_def list_AddParam_def)

lemma not_minus_one: "n < 2147483648 \<Longrightarrow> (word_of_nat n :: i32) \<noteq> -1"
proof
  assume "n < 2147483648" and "(word_of_nat n :: i32) = -1"
  then have "unat (word_of_nat n :: i32) = unat (-1 :: i32)" by simp
  then show False using \<open>n < 2147483648\<close> by (simp add: unat_of_nat unsigned_minus_1_eq_mask mask_eq_exp_minus_1)
qed

lemma collecting_number:
  assumes "collecting p (ws @ [0])" and "n < 2147483648"
  shows "collecting (fold param_char (ascii_codes (dec_digits n)) p) (ws @ [word_of_nat n])"
  using assms
proof (induction n rule: dec_digits.induct)
  case (1 n)
  show ?case
  proof (cases "n < 10")
    case True
    with collecting_digit [OF 1(2) _ True] show ?thesis by (simp add: dec_digits.simps [of n])
  next
    case False
    have small: "n div 10 < 2147483648" using 1(3) by (rule le_less_trans [OF div_le_dividend])
    have "collecting (param_char (ucast (word_of_nat (48 + n mod 10) :: byte))
        (fold param_char (ascii_codes (dec_digits (n div 10))) p)) (ws @ [word_of_nat (n div 10) * 10 + word_of_nat (n mod 10)])"
      by (rule collecting_digit [OF 1(1) [OF False 1(2) small] not_minus_one [OF small]]) simp
    moreover have "(word_of_nat (n div 10) * 10 + word_of_nat (n mod 10) :: i32) = word_of_nat (n div 10 * 10 + n mod 10)"
      by (simp only: of_nat_add of_nat_mult of_nat_numeral)
    moreover have "n div 10 * 10 + n mod 10 = n" by simp
    ultimately show ?thesis using False by (simp add: dec_digits.simps [of n])
  qed
qed

lemma collecting_numbers:
  assumes "collecting p (ws @ [0])" and "ns \<noteq> []" and "\<forall>n \<in> set ns. n < 2147483648"
    and "length ws + length ns \<le> 32"
  shows "collecting (fold param_char (ascii_codes (join_semicolon (map dec_digits ns))) p) (ws @ map word_of_nat ns)"
  using assms
proof (induction ns arbitrary: p ws)
  case (Cons n ns)
  have n: "collecting (fold param_char (ascii_codes (dec_digits n)) p) (ws @ [word_of_nat n])"
    using collecting_number [OF Cons.prems(1)] Cons.prems(3) by simp
  show ?case
  proof (cases ns)
    case Nil
    with n show ?thesis by simp
  next
    case (Cons m ms)
    have "collecting (param_char 0x3B (fold param_char (ascii_codes (dec_digits n)) p)) ((ws @ [word_of_nat n]) @ [0])"
      using collecting_semicolon [OF n] Cons.prems(4) Cons by simp
    from Cons.IH [OF this] Cons.prems Cons show ?thesis by simp
  qed
qed simp

lemma collecting_zdm:
  assumes "params_wf p"
  shows "collecting (zdm p) ([] @ [0])"
proof -
  have r: "repr (params_Reset p) []" using assms repr_Reset by (auto simp: params_wf_def)
  have "pa_MaxLength (params_Reset p) = 32" "\<not> pa_rejectDigits (params_Reset p)"
    using assms by (simp_all add: params_wf_def params_Reset_def)
  with repr_AddParam [OF r, of 0] show ?thesis
    by (auto simp: collecting_def zdm_def list_AddParam_def)
qed

section \<open>The sequence\<close>

lemma row_escape: "vt500 ParserStateGround 0x1b = (ParserActionClear, ParserStateEscape)"
  by (simp add: row del: upt_rec_numeral One_nat_def)

lemma row_bracket: "vt500 ParserStateEscape 0x5b = (ParserActionClear, ParserStateCSIEntry)"
  by (simp add: row del: upt_rec_numeral One_nat_def)

lemma row_question: "vt500 ParserStateCSIEntry 0x3f = (ParserActionCollect, ParserStateCSIParam)"
  by (simp add: row del: upt_rec_numeral One_nat_def)

lemma row_first_param:
  "0x30 \<le> c \<and> c \<le> 0x3b \<Longrightarrow> vt500 ParserStateCSIEntry c = (ParserActionParam, ParserStateCSIParam)"
  by (auto simp: row simp del: upt_rec_numeral One_nat_def)

lemma row_final:
  "0x40 \<le> c \<and> c \<le> 0x7e \<Longrightarrow> vt500 ParserStateCSIParam c = (ParserActionCSIDispatch, ParserStateGround)"
  by (auto simp: row simp del: upt_rec_numeral One_nat_def)

lemma dec_digits_range: "b \<in> set (dec_digits n) \<Longrightarrow> 0x30 \<le> unat b \<and> unat b \<le> 0x39"
proof (induction n rule: dec_digits.induct)
  case (1 n)
  have "unat (word_of_nat (48 + k) :: byte) = 48 + k" if "k < 10" for k using that by (simp add: unat_of_nat del: of_nat_add)
  with 1 show ?case by (subst (asm) (2) dec_digits.simps) (auto split: if_splits simp del: of_nat_add)
qed

lemma dec_digits_ne [simp]: "dec_digits n \<noteq> []"
  by (subst dec_digits.simps) simp

lemma join_range: "b \<in> set (join_semicolon (map dec_digits ns)) \<Longrightarrow> 0x30 \<le> unat b \<and> unat b \<le> 0x3b"
proof (induction ns rule: induct_list012)
  case (3 n m ns)
  then show ?case using dec_digits_range [of b n] by auto
qed (use dec_digits_range in \<open>force+\<close>)

lemma join_ne: "ns \<noteq> [] \<Longrightarrow> join_semicolon (map dec_digits ns) \<noteq> []"
  by (cases ns rule: remdups_adj.cases) auto

lemma unat_ucast_byte: "unat (ucast (b :: byte) :: u32) = unat b"
proof -
  have "unat b < 2 ^ 32" by (rule less_trans [OF unat_byte_less]) simp
  then show ?thesis by (simp add: unsigned_ucast_eq take_bit_nat_eq_self)
qed

lemma code_slot_byte: "unat b < 0x80 \<Longrightarrow> code_slot (ucast (b :: byte)) = unat b"
proof -
  assume b: "unat b < 0x80"
  have u: "unat (ucast b :: u32) = unat b" by (rule unat_ucast_byte)
  with b have "(ucast b :: u32) < 0xA0" by (simp add: word_less_nat_alt)
  then show ?thesis by (simp add: code_slot_def u)
qed

lemma param_continues:
  "continues ParserActionParam (ucast (b :: byte)) \<longleftrightarrow> 0x30 \<le> unat b \<and> unat b \<le> 0x3b"
proof -
  have "ParserActionParam \<noteq> ParserActionPrint" by simp
  then show ?thesis by (auto simp: continues_def word_less_nat_alt unat_ucast_byte)
qed

lemma row_of_byte: "unat b < 0x80 \<Longrightarrow> row_of v (ucast (b :: byte)) = vt500 (currentState v) (unat b)"
  by (simp add: row_of_def code_slot_byte)

text \<open>The part after the introducer, from the two states in which parameters start.\<close>

lemma Parse_params:
  assumes rows: "currentState v = ParserStateCSIEntry \<or> currentState v = ParserStateCSIParam"
    and coll: "collecting (vt_params v) ([] @ [0])" and ns: "ns \<noteq> []" "\<forall>n \<in> set ns. n < 2147483648" "length ns \<le> 32"
    and F: "0x40 \<le> unat F" "unat F \<le> 0x7e"
    and H: "ident = or (push_bit 8 (vt_collect v)) (ucast (ucast F :: u32))"
  shows "\<exists>p. repr p (map (\<lambda>n. (word_of_nat n, [])) ns)
    \<and> Parse H i (ascii_codes (join_semicolon (map dec_digits ns) @ [F])) v
      = (bubble (rev (hd_csi H ident)) (hd_csi_fb H ident)
          (v\<lparr>vt_params := p, currentState := ParserStateCSIParam\<rparr>))\<lparr>precedingJoinState := 0, currentState := ParserStateGround\<rparr>"
proof -
  let ?js = "join_semicolon (map dec_digits ns)"
  obtain b bs where js: "?js = b # bs" using join_ne [OF ns(1)] by (cases ?js) auto
  have range: "0x30 \<le> unat c \<and> unat c \<le> 0x3b" if "c \<in> set (b # bs)" for c
    using join_range [of c ns] that js by simp
  define p where "p = fold param_char (ascii_codes ?js) (vt_params v)"
  have p: "collecting p (map word_of_nat ns)"
    using collecting_numbers [OF coll ns(1,2)] ns(3) by (simp add: p_def)
  have first: "row_of v (ucast b) = (ParserActionParam, ParserStateCSIParam)"
    using rows range [of b] row_first_param [of "unat b"] row_param(1) [of "unat b"] by (auto simp: row_of_byte)
  have run: "takeWhile (continues ParserActionParam) (ascii_codes (bs @ [F])) = ascii_codes bs"
    using range F by (auto simp: ascii_codes_def takeWhile_append param_continues)
  let ?v = "v\<lparr>vt_params := p, currentState := ParserStateCSIParam\<rparr>"
  have "Parse H i (ascii_codes (?js @ [F])) v = Parse H (i + 1 + length bs) (ascii_codes [F]) ?v"
    using first run
    by (simp add: js Parse.simps(2) Let_def transition_parts enter_def consume_def p_def reads_ahead_def ascii_codes_def)
  moreover have final: "row_of ?v (ucast F) = (ParserActionCSIDispatch, ParserStateGround)"
    using F row_final [of "unat F"] by (simp add: row_of_byte)
  have "Parse H j (ascii_codes [F]) ?v = (bubble (rev (hd_csi H ident)) (hd_csi_fb H ident) ?v)
      \<lparr>precedingJoinState := 0, currentState := ParserStateGround\<rparr>" for j
    using final H
    by (simp add: Parse.simps(2) Let_def transition_parts enter_def act_def reads_ahead_def leave_def)
  ultimately show ?thesis using p by (auto simp: collecting_def o_def)
qed

text \<open>From the ground state.\<close>

lemma Parse_csi:
  assumes v: "currentState v = ParserStateGround" "params_wf (vt_params v)"
    and ns: "ns \<noteq> []" "\<forall>n \<in> set ns. n < 2147483648" "length ns \<le> 32"
    and F: "0x40 \<le> unat F" "unat F \<le> 0x7e"
  shows "\<exists>p. repr p (map (\<lambda>n. (word_of_nat n, [])) ns)
    \<and> Parse H i (ascii_codes (csi_text [] ns F)) v
      = (bubble (rev (hd_csi H (ucast (ucast F :: u32)))) (hd_csi_fb H (ucast (ucast F :: u32)))
          (v\<lparr>vt_collect := 0, vt_params := p, currentState := ParserStateCSIParam\<rparr>))
        \<lparr>precedingJoinState := 0, currentState := ParserStateGround\<rparr>"
proof -
  let ?v = "v\<lparr>vt_params := zdm (zdm (vt_params v)), vt_collect := 0, currentState := ParserStateCSIEntry\<rparr>"
  have esc: "row_of w 0x1b = (ParserActionClear, ParserStateEscape)" if "currentState w = ParserStateGround" for w :: "'a vt"
    using that row_escape row_of_byte [of "0x1b" w] by simp
  have bracket: "row_of w 0x5b = (ParserActionClear, ParserStateCSIEntry)" if "currentState w = ParserStateEscape" for w :: "'a vt"
    using that row_bracket row_of_byte [of "0x5b" w] by simp
  have "Parse H i (ascii_codes (csi_text [] ns F)) v = Parse H (i + 2) (ascii_codes (join_semicolon (map dec_digits ns) @ [F])) ?v"
    using v(1)
    by (simp add: csi_text_def Parse.simps(2) [of H _ "0x1b"] Parse.simps(2) [of H _ "0x5b"] Let_def transition_parts esc bracket
        enter_def act_def reads_ahead_def leave_def)
  moreover have "collecting (vt_params ?v) ([] @ [0])"
    using collecting_zdm [OF zdm_wf [OF v(2)]] by simp
  from Parse_params [OF _ this ns F refl, of H "i + 2"]
  obtain p where "repr p (map (\<lambda>n. (word_of_nat n, [])) ns)"
    "Parse H (i + 2) (ascii_codes (join_semicolon (map dec_digits ns) @ [F])) ?v
      = (bubble (rev (hd_csi H (ucast (ucast F :: u32)))) (hd_csi_fb H (ucast (ucast F :: u32)))
          (?v\<lparr>vt_params := p, currentState := ParserStateCSIParam\<rparr>))\<lparr>precedingJoinState := 0, currentState := ParserStateGround\<rparr>"
    by auto
  ultimately show ?thesis by (intro exI [of _ p]) simp
qed

text \<open>With the private prefix \<^verbatim>\<open>?\<close>, which the identifier of the handlers keeps.\<close>

lemma Parse_private_csi:
  assumes v: "currentState v = ParserStateGround" "params_wf (vt_params v)"
    and ns: "ns \<noteq> []" "\<forall>n \<in> set ns. n < 2147483648" "length ns \<le> 32"
    and F: "0x40 \<le> unat F" "unat F \<le> 0x7e"
    and ident: "ident = or 0x3f00 (ucast (ucast F :: u32))"
  shows "\<exists>p. repr p (map (\<lambda>n. (word_of_nat n, [])) ns)
    \<and> Parse H i (ascii_codes (csi_text [0x3f] ns F)) v
      = (bubble (rev (hd_csi H ident)) (hd_csi_fb H ident)
          (v\<lparr>vt_collect := 0x3f, vt_params := p, currentState := ParserStateCSIParam\<rparr>))
        \<lparr>precedingJoinState := 0, currentState := ParserStateGround\<rparr>"
proof -
  let ?v = "v\<lparr>vt_params := zdm (zdm (vt_params v)), vt_collect := 0x3f, currentState := ParserStateCSIParam\<rparr>"
  have esc: "row_of w 0x1b = (ParserActionClear, ParserStateEscape)" if "currentState w = ParserStateGround" for w :: "'a vt"
    using that row_escape row_of_byte [of "0x1b" w] by simp
  have bracket: "row_of w 0x5b = (ParserActionClear, ParserStateCSIEntry)" if "currentState w = ParserStateEscape" for w :: "'a vt"
    using that row_bracket row_of_byte [of "0x5b" w] by simp
  have question: "row_of w 0x3f = (ParserActionCollect, ParserStateCSIParam)" if "currentState w = ParserStateCSIEntry" for w :: "'a vt"
    using that row_question row_of_byte [of "0x3f" w] by simp
  have "Parse H i (ascii_codes (csi_text [0x3f] ns F)) v = Parse H (Suc (Suc (Suc i))) (ascii_codes (join_semicolon (map dec_digits ns) @ [F])) ?v"
    using v(1)
    by (simp add: csi_text_def Parse.simps(2) [of H _ "0x1b"] Parse.simps(2) [of H _ "0x5b"] Parse.simps(2) [of H _ "0x3f"]
        Let_def transition_parts esc bracket question enter_def act_def reads_ahead_def leave_def)
  moreover have "collecting (vt_params ?v) ([] @ [0])"
    using collecting_zdm [OF zdm_wf [OF v(2)]] by simp
  moreover have "ident = or (push_bit 8 (vt_collect ?v)) (ucast (ucast F :: u32))" by (simp add: ident)
  from Parse_params [OF _ calculation(2) ns F this, of H "Suc (Suc (Suc i))"]
  obtain p where "repr p (map (\<lambda>n. (word_of_nat n, [])) ns)"
    "Parse H (Suc (Suc (Suc i))) (ascii_codes (join_semicolon (map dec_digits ns) @ [F])) ?v
      = (bubble (rev (hd_csi H ident)) (hd_csi_fb H ident)
          (?v\<lparr>vt_params := p, currentState := ParserStateCSIParam\<rparr>))\<lparr>precedingJoinState := 0, currentState := ParserStateGround\<rparr>"
    by auto
  ultimately show ?thesis by (intro exI [of _ p]) simp
qed

end
