(* ===== verification/Vt_Replay.thy ===== *)
theory Vt_Replay
  imports Vt_Sgr Vt_Csi
begin

text \<open>
  Serializing the look of a cell and reading it back: the parameters \<^verbatim>\<open>diffStyle\<close> writes for a
  new cell after an old one, given to the SGR handler of a terminal whose attributes look like the
  old cell's, make them look like the new cell's. An \<open>effect\<close> relates a list of codes to what the
  handler makes of the look; effects of the single codes are composed along the list.
\<close>

section \<open>Effects\<close>

text \<open>No hyperlink is open: an open one shows as an underline that no code removes.\<close>

definition no_link :: "'a AttributeData_scheme \<Rightarrow> bool" where
  "no_link a \<longleftrightarrow> ea_urlID (extended a) = 0"
lemmas look_defs = look_of_def colour_of_def IsInverse_def IsBold_def IsUnderline_def IsOverline_def IsBlink_def
  IsInvisible_def IsItalic_def IsDim_def IsStrikethrough_def HasExtendedAttrs_def extended_def attr_bits

definition codes_at :: "Params \<Rightarrow> nat \<Rightarrow> nat list \<Rightarrow> bool" where
  "codes_at p i ns \<longleftrightarrow> i + length ns \<le> pa_Length p \<and> pa_Length p \<le> length (pa_Params p)
     \<and> (\<forall>k < length ns. pa_Params p ! (i + k) = word_of_nat (ns ! k) \<and> \<not> HasSubParams (i + k) p)"

lemma codes_at_Nil [simp]: "codes_at p i [] \<longleftrightarrow> i \<le> pa_Length p \<and> pa_Length p \<le> length (pa_Params p)"
  by (simp add: codes_at_def)

lemma codes_at_Cons [simp]: "codes_at p i (n # ns) \<longleftrightarrow> pa_Params p ! i = word_of_nat n \<and> \<not> HasSubParams i p
     \<and> codes_at p (Suc i) ns"
  by (auto simp: codes_at_def All_less_Suc2)

lemma codes_at_append: "codes_at p i (ns @ ms) \<longleftrightarrow> codes_at p i ns \<and> codes_at p (i + length ns) ms"
proof (induction ns arbitrary: i)
  case Nil
  show ?case by (auto simp: codes_at_def)
next
  case (Cons n ns)
  then show ?case by simp
qed

lemma codes_at_bound: "codes_at p i (n # ns) \<Longrightarrow> i < pa_Length p \<and> i < length (pa_Params p)"
  by (auto simp: codes_at_def)

lemma small_not_minus_one: "n < 256 \<Longrightarrow> (word_of_nat n :: u32) \<noteq> -1"
proof
  assume "n < 256" and "(word_of_nat n :: u32) = -1"
  then have "unat (word_of_nat n :: u32) = unat (-1 :: u32)" by simp
  then show False using \<open>n < 256\<close> by (simp add: unat_of_nat unsigned_minus_1_eq_mask mask_eq_exp_minus_1)
qed

lemma extract_rgb:
  assumes "codes_at p i [c, 2, r, g, b]" and "r < 256" "g < 256" "b < 256"
  shows "extractColor p i a = Some (4, apply_color [word_of_nat c, 2, 0, word_of_nat r, word_of_nat g, word_of_nat b] a)"
proof -
  from assms have b: "i + 4 < pa_Length p" "i + 4 < length (pa_Params p)" by (auto simp: codes_at_def)
  from assms b show ?thesis
    by (simp add: extractColor_def small_not_minus_one) (subst gather.simps, simp add: small_not_minus_one)+
qed

lemma extract_p256:
  assumes "codes_at p i [c, 5, n]" "n < 256"
  shows "extractColor p i a = Some (2, apply_color [word_of_nat c, 5, 0, word_of_nat n, 0, 0] a)"
proof -
  from assms have b: "i + 2 < pa_Length p" "i + 2 < length (pa_Params p)" by (auto simp: codes_at_def)
  from assms b show ?thesis
    by (simp add: extractColor_def) (subst gather.simps, simp add: small_not_minus_one)+
qed

lemma look_rgb:
  "look_of (apply_color [38, 2, 0, r, g, b] a) = (look_of a)\<lparr>lk_fg := RgbColour (FromColorRGB (ucast r, ucast g, ucast b))\<rparr>"
  "look_of (apply_color [48, 2, 0, r, g, b] a) = (look_of a)\<lparr>lk_bg := RgbColour (FromColorRGB (ucast r, ucast g, ucast b))\<rparr>"
  by (simp_all add: apply_color_def updateAttrColor_def look_defs rgb_mask rgb_other)

lemma look_p256:
  "look_of (apply_color [38, 5, 0, n, 0, 0] a) = (look_of a)\<lparr>lk_fg := PaletteColour (and n 0xFF)\<rparr>"
  "look_of (apply_color [48, 5, 0, n, 0, 0] a) = (look_of a)\<lparr>lk_bg := PaletteColour (and n 0xFF)\<rparr>"
    by (simp_all add: apply_color_def updateAttrColor_def look_defs)

lemma look_fg8: "k < 8 \<Longrightarrow> look_of (sgr_code p i (word_of_nat (30 + k)) a) = (look_of a)\<lparr>lk_fg := PaletteColour (word_of_nat k)\<rparr>"
proof -
  assume "k < 8"
  then have "k \<in> {0,1,2,3,4,5,6,7}" by auto
  then show ?thesis by (elim insertE; simp add: sgr_code_def look_defs)
qed

lemma low_byte: "unat (and c 0xFF :: u32) < 256"
proof -
  have "and c 0xFF = take_bit 8 c" by (simp add: take_bit_eq_mask mask_eq_exp_minus_1)
  moreover have "unat (take_bit 8 c) = take_bit 8 (unat c)" by (simp add: unsigned_take_bit_eq)
  moreover have "take_bit 8 (unat c) < 2 ^ 8" by (rule take_bit_nat_less_exp)
  ultimately show ?thesis by simp
qed

definition effect :: "nat list \<Rightarrow> (look \<Rightarrow> look) \<Rightarrow> bool" where
  "effect ns f \<longleftrightarrow> (\<forall>p i a. codes_at p i ns \<longrightarrow> no_link a \<longrightarrow>
     (\<exists>a'. no_link a' \<and> sgr_loop p i a = sgr_loop p (i + length ns) a' \<and> look_of a' = f (look_of a)))"

lemma effect_Nil: "effect [] (\<lambda>l. l)"
  by (auto simp: effect_def)

lemma effect_append:
  assumes "effect ns f" and "effect ms g"
  shows "effect (ns @ ms) (\<lambda>l. g (f l))"
  unfolding effect_def
proof (intro allI impI)
  fix p i and a :: AttributeData
  assume "codes_at p i (ns @ ms)" and "no_link a"
  with assms(1) obtain a1 where a1: "no_link a1" "sgr_loop p i a = sgr_loop p (i + length ns) a1"
      "look_of a1 = f (look_of a)"
    unfolding effect_def codes_at_append by blast
  with assms(2) \<open>codes_at p i (ns @ ms)\<close> obtain a2 where "no_link a2"
      "sgr_loop p (i + length ns) a1 = sgr_loop p (i + length ns + length ms) a2" "look_of a2 = g (look_of a1)"
    unfolding effect_def codes_at_append by blast
  with a1 show "\<exists>a'. no_link a' \<and> sgr_loop p i a = sgr_loop p (i + length (ns @ ms)) a' \<and>
      look_of a' = g (f (look_of a))"
    by (auto simp: add.assoc)
qed

lemma effect_code:
  assumes "word_of_nat n \<notin> {38, 48, 58 :: i32}"
    and "\<And>p i a. no_link a \<Longrightarrow> \<not> HasSubParams i p \<Longrightarrow>
           no_link (sgr_code p i (word_of_nat n) a) \<and> look_of (sgr_code p i (word_of_nat n) a) = f (look_of a)"
  shows "effect [n] f"
  unfolding effect_def
proof (intro allI impI)
  fix p i and a :: AttributeData
  assume c: "codes_at p i [n]" and "no_link a"
  with assms have "sgr_loop p i a = sgr_loop p (Suc i) (sgr_code p i (word_of_nat n) a)"
    using codes_at_bound [OF c] by (subst sgr_loop.simps) auto
  with c assms(2) \<open>no_link a\<close> show "\<exists>a'. no_link a' \<and> sgr_loop p i a = sgr_loop p (i + length [n]) a' \<and> look_of a' = f (look_of a)"
    by auto
qed

lemma effect_7: "effect [7] (lk_inverse_update (\<lambda>_. True))"
  by (rule effect_code) (simp_all add: sgr_code_def look_defs no_link_def)

section \<open>The effect of each code\<close>

lemmas sgr_simps = sgr_code_def look_defs no_link_def processUnderline_def UpdateExtended_def ext_IsEmpty_def

lemma effect_flags:
  "effect [7] (lk_inverse_update (\<lambda>_. True))" "effect [27] (lk_inverse_update (\<lambda>_. False))"
  "effect [1] (lk_bold_update (\<lambda>_. True))" "effect [22] (\<lambda>l. l\<lparr>lk_bold := False, lk_dim := False\<rparr>)"
  "effect [4] (lk_underline_update (\<lambda>_. True))" "effect [24] (lk_underline_update (\<lambda>_. False))"
  "effect [53] (lk_overline_update (\<lambda>_. True))" "effect [55] (lk_overline_update (\<lambda>_. False))"
  "effect [5] (lk_blink_update (\<lambda>_. True))" "effect [25] (lk_blink_update (\<lambda>_. False))"
  "effect [8] (lk_invisible_update (\<lambda>_. True))" "effect [28] (lk_invisible_update (\<lambda>_. False))"
  "effect [3] (lk_italic_update (\<lambda>_. True))" "effect [23] (lk_italic_update (\<lambda>_. False))"
  "effect [2] (lk_dim_update (\<lambda>_. True))"
  "effect [9] (lk_strike_update (\<lambda>_. True))" "effect [29] (lk_strike_update (\<lambda>_. False))"
  by (rule effect_code; simp add: sgr_simps)+

lemma effect_defaults:
  "effect [39] (lk_fg_update (\<lambda>_. DefaultColour))" "effect [49] (lk_bg_update (\<lambda>_. DefaultColour))"
  "effect [0] (\<lambda>_. look_of DefaultAttrData)"
  by (rule effect_code; simp add: sgr_simps DefaultAttrData_def processSGR0_def emptyExt_def)+

lemma effect_palette_8:
  assumes "k < 8"
  shows "effect [30 + k] (lk_fg_update (\<lambda>_. PaletteColour (word_of_nat k)))"
    and "effect [40 + k] (lk_bg_update (\<lambda>_. PaletteColour (word_of_nat k)))"
    and "effect [90 + k] (lk_fg_update (\<lambda>_. PaletteColour (word_of_nat (8 + k))))"
    and "effect [100 + k] (lk_bg_update (\<lambda>_. PaletteColour (word_of_nat (8 + k))))"
proof -
  from assms have "k \<in> {0,1,2,3,4,5,6,7}" by auto
  note cases = this
  show "effect [30 + k] (lk_fg_update (\<lambda>_. PaletteColour (word_of_nat k)))"
    using cases by (elim insertE emptyE; simp; intro effect_code; simp add: sgr_simps)
  show "effect [40 + k] (lk_bg_update (\<lambda>_. PaletteColour (word_of_nat k)))"
    using cases by (elim insertE emptyE; simp; intro effect_code; simp add: sgr_simps)
  show "effect [90 + k] (lk_fg_update (\<lambda>_. PaletteColour (word_of_nat (8 + k))))"
    using cases by (elim insertE emptyE; simp; intro effect_code; simp add: sgr_simps)
  show "effect [100 + k] (lk_bg_update (\<lambda>_. PaletteColour (word_of_nat (8 + k))))"
    using cases by (elim insertE emptyE; simp; intro effect_code; simp add: sgr_simps)
qed

lemma effect_extended:
  assumes "\<And>p i a. codes_at p i (c # ns) \<Longrightarrow>
      extractColor p i a = Some (k, a' a) \<and> look_of (a' a) = f (look_of a) \<and> (no_link a \<longrightarrow> no_link (a' a))"
    and "(word_of_nat c :: i32) \<in> {38, 48}" and "length ns = k"
  shows "effect (c # ns) f"
  unfolding effect_def
proof (intro allI impI)
  fix p i and a :: AttributeData
  assume c: "codes_at p i (c # ns)" and "no_link a"
  moreover have "sgr_loop p i a = sgr_loop p (i + length ns + 1) (a' a)"
    using codes_at_bound [OF c] c assms by (subst sgr_loop.simps) auto
  ultimately show "\<exists>a'. no_link a' \<and> sgr_loop p i a = sgr_loop p (i + length (c # ns)) a' \<and> look_of a' = f (look_of a)"
    using assms(1) by (intro exI [of _ "a' a"]) auto
qed

lemma no_link_color [simp]: "x \<noteq> 58 \<Longrightarrow> no_link (apply_color (x # xs) a) = no_link a"
  by (simp add: apply_color_def no_link_def extended_def)

lemma ucast_byte: "(ucast (word_of_nat n :: u32) :: byte) = word_of_nat n"
  by (rule bit_eqI) (auto simp: bit_simps)

lemma effect_rgb:
  assumes "r < 256" "g < 256" "b < 256"
  shows "effect [38, 2, r, g, b] (lk_fg_update (\<lambda>_. RgbColour (FromColorRGB (word_of_nat r, word_of_nat g, word_of_nat b))))"
    and "effect [48, 2, r, g, b] (lk_bg_update (\<lambda>_. RgbColour (FromColorRGB (word_of_nat r, word_of_nat g, word_of_nat b))))"
proof -
  show "effect [38, 2, r, g, b] (lk_fg_update (\<lambda>_. RgbColour (FromColorRGB (word_of_nat r, word_of_nat g, word_of_nat b))))"
    by (rule effect_extended [where k = 4 and a' = "apply_color [38, 2, 0, word_of_nat r, word_of_nat g, word_of_nat b]"])
      (simp_all add: extract_rgb [OF _ assms, where c = 38] look_rgb ucast_byte)
  show "effect [48, 2, r, g, b] (lk_bg_update (\<lambda>_. RgbColour (FromColorRGB (word_of_nat r, word_of_nat g, word_of_nat b))))"
    by (rule effect_extended [where k = 4 and a' = "apply_color [48, 2, 0, word_of_nat r, word_of_nat g, word_of_nat b]"])
      (simp_all add: extract_rgb [OF _ assms, where c = 48] look_rgb ucast_byte)
qed

lemma effect_256:
  assumes "n < 256"
  shows "effect [38, 5, n] (lk_fg_update (\<lambda>_. PaletteColour (word_of_nat n)))"
    and "effect [48, 5, n] (lk_bg_update (\<lambda>_. PaletteColour (word_of_nat n)))"
proof -
  have n: "and (word_of_nat n :: u32) 0xFF = word_of_nat n"
  proof -
    have "and (word_of_nat n :: u32) 0xFF = take_bit 8 (word_of_nat n)"
      by (simp add: take_bit_eq_mask mask_eq_exp_minus_1)
    moreover have "unat (take_bit 8 (word_of_nat n :: u32)) = n"
      using assms by (simp add: unsigned_take_bit_eq unat_of_nat take_bit_nat_eq_self_iff)
    moreover have "unat (word_of_nat n :: u32) = n" using assms by (simp add: unat_of_nat)
    ultimately show ?thesis by (simp add: word_unat_eq_iff)
  qed
  show "effect [38, 5, n] (lk_fg_update (\<lambda>_. PaletteColour (word_of_nat n)))"
    by (rule effect_extended [where k = 2 and a' = "apply_color [38, 5, 0, word_of_nat n, 0, 0]"])
      (simp_all add: extract_p256 [OF _ assms, where c = 38] look_p256 n)
  show "effect [48, 5, n] (lk_bg_update (\<lambda>_. PaletteColour (word_of_nat n)))"
    by (rule effect_extended [where k = 2 and a' = "apply_color [48, 5, 0, word_of_nat n, 0, 0]"])
      (simp_all add: extract_p256 [OF _ assms, where c = 48] look_p256 n)
qed

lemma color_modes: "and w AttrCMMask \<in> {0, AttrCMP16, AttrCMP256, AttrCMRGB}"
proof -
  have "and w AttrCMMask = push_bit 24 (take_bit 2 (drop_bit 24 w))"
  proof -
    have m: "AttrCMMask = push_bit 24 (mask 2)" by (simp add: attr_consts mask_eq_exp_minus_1)
    show ?thesis unfolding m by (rule bit_eqI) (auto simp: bit_simps)
  qed
  moreover have "take_bit 2 (drop_bit 24 w) \<in> {0, 1, 2, 3}"
  proof -
    have "unat (take_bit 2 (drop_bit 24 w)) = take_bit 2 (unat (drop_bit 24 w))" by (simp add: unsigned_take_bit_eq)
    also have "\<dots> < 2 ^ 2" by (rule take_bit_nat_less_exp)
    finally have "unat (take_bit 2 (drop_bit 24 w)) \<in> {0, 1, 2, 3}" by auto
    then show ?thesis by (auto simp: word_unat_eq_iff)
  qed
  ultimately show ?thesis by (auto simp: attr_consts)
qed

lemma palette_16:
  assumes "v < 16"
  shows "(if and (int v) 8 \<noteq> 0 then 8 + nat (and (int v) 7) else nat (and (int v) 7)) = v"
    and "nat (and (int v) 7) < 8"
proof -
  have "list_all (\<lambda>v. (if and (int v) 8 \<noteq> 0 then 8 + nat (and (int v) 7) else nat (and (int v) 7)) = v
      \<and> nat (and (int v) 7) < 8) [0..<16]" by code_simp
  with assms show "(if and (int v) 8 \<noteq> 0 then 8 + nat (and (int v) 7) else nat (and (int v) 7)) = v"
    and "nat (and (int v) 7) < 8"
    by (simp_all add: list_all_iff)
qed

lemma rgb_codes:
  "FromColorRGB (word_of_nat (unat (and (drop_bit 16 c) 0xFF)), word_of_nat (unat (and (drop_bit 8 c) 0xFF)),
     word_of_nat (unat (and c 0xFF))) = and c AttrRGBMask"
  using rgb_color [of c] by (simp add: ToColorRGB_def)

lemma effect_color:
  "effect (color_codes 38 30 90 39 (and w AttrCMMask = AttrCMRGB)
     (and w AttrCMMask = AttrCMP16 \<or> and w AttrCMMask = AttrCMP256) (color_value w)) (lk_fg_update (\<lambda>_. colour_of w))"
  "effect (color_codes 48 40 100 49 (and w AttrCMMask = AttrCMRGB)
     (and w AttrCMMask = AttrCMP16 \<or> and w AttrCMMask = AttrCMP256) (color_value w)) (lk_bg_update (\<lambda>_. colour_of w))"
proof -
  consider (rgb) "and w AttrCMMask = AttrCMRGB" | (default) "and w AttrCMMask = 0"
    | (palette) "and w AttrCMMask = AttrCMP16 \<or> and w AttrCMMask = AttrCMP256"
    using color_modes [of w] by auto
  then have "effect (color_codes 38 30 90 39 (and w AttrCMMask = AttrCMRGB)
     (and w AttrCMMask = AttrCMP16 \<or> and w AttrCMMask = AttrCMP256) (color_value w)) (lk_fg_update (\<lambda>_. colour_of w))
   \<and> effect (color_codes 48 40 100 49 (and w AttrCMMask = AttrCMRGB)
     (and w AttrCMMask = AttrCMP16 \<or> and w AttrCMMask = AttrCMP256) (color_value w)) (lk_bg_update (\<lambda>_. colour_of w))"
  proof cases
    case rgb
    let ?c = "and w AttrRGBMask"
    have ne: "AttrCMRGB \<noteq> AttrCMP16" "AttrCMRGB \<noteq> AttrCMP256" by (simp_all add: attr_consts)
    have v: "(word_of_int (color_value w) :: u32) = ?c" using ne by (simp add: color_value_def rgb)
    have "colour_of w = RgbColour (and ?c AttrRGBMask)" by (simp add: colour_of_def rgb)
    then have c: "colour_of w = RgbColour (FromColorRGB (word_of_nat (unat (and (drop_bit 16 ?c) 0xFF)),
        word_of_nat (unat (and (drop_bit 8 ?c) 0xFF)), word_of_nat (unat (and ?c 0xFF))))"
      by (simp only: rgb_codes)
    show ?thesis
      unfolding color_codes_def v Let_def c rgb by (simp only: if_True simp_thms) (intro conjI effect_rgb low_byte)
  next
    case default
    have ne: "0 \<noteq> AttrCMRGB" "0 \<noteq> AttrCMP16" "0 \<noteq> AttrCMP256" by (simp_all add: attr_consts)
    then show ?thesis using effect_defaults by (simp add: color_codes_def default colour_of_def)
  next
    case palette
    define v where "v = unat (and w 0xFF)"
    have v: "v < 256" unfolding v_def by (rule low_byte)
    have ne: "and w AttrCMMask \<noteq> AttrCMRGB" "and w AttrCMMask \<noteq> 0" using palette by (auto simp: attr_consts)
    have cv: "color_value w = int v" using palette by (auto simp: color_value_def v_def AttrPColorMask_def)
    have co: "colour_of w = PaletteColour (word_of_nat v)" using ne by (simp add: colour_of_def v_def AttrPColorMask_def)
    define k where "k = nat (and (int v) 7)"
    have codes: "color_codes e n b d (and w AttrCMMask = AttrCMRGB)
       (and w AttrCMMask = AttrCMP16 \<or> and w AttrCMMask = AttrCMP256) (color_value w)
       = (if 16 \<le> v then [e, 5, v] else if and (int v) 8 \<noteq> 0 then [b + k] else [n + k])"
      for e n b d using palette ne by (simp add: color_codes_def cv k_def)
    consider (big) "16 \<le> v" | (bright) "\<not> 16 \<le> v" "and (int v) 8 \<noteq> 0" "v = 8 + k" "k < 8"
      | (normal) "\<not> 16 \<le> v" "and (int v) 8 = 0" "v = k" "k < 8"
      using palette_16 [of v] unfolding k_def by (cases "16 \<le> v"; cases "and (int v) 8 = 0") auto
    then show ?thesis
    proof cases
      case big
      show ?thesis unfolding codes co if_P [OF big] using effect_256 [OF v] by blast
    next
      case bright
      then have eq: "(if 16 \<le> v then [e, 5, v] else if and (int v) 8 \<noteq> 0 then [b + k] else [n + k]) = [b + k]"
        for e n b by simp
      show ?thesis unfolding codes co eq unfolding bright(3) using effect_palette_8(3,4) [OF bright(4)] by blast
    next
      case normal
      then have eq: "(if 16 \<le> v then [e, 5, v] else if and (int v) 8 \<noteq> 0 then [b + k] else [n + k]) = [n + k]"
        for e n b by simp
      show ?thesis unfolding codes co eq unfolding normal(3) using effect_palette_8(1,2) [OF normal(4)] by blast
    qed
  qed
  then show "effect (color_codes 38 30 90 39 (and w AttrCMMask = AttrCMRGB)
     (and w AttrCMMask = AttrCMP16 \<or> and w AttrCMMask = AttrCMP256) (color_value w)) (lk_fg_update (\<lambda>_. colour_of w))"
    "effect (color_codes 48 40 100 49 (and w AttrCMMask = AttrCMRGB)
     (and w AttrCMMask = AttrCMP16 \<or> and w AttrCMMask = AttrCMP256) (color_value w)) (lk_bg_update (\<lambda>_. colour_of w))"
    by simp_all
qed

section \<open>The effect of a list of codes\<close>

lemma colour_eqI:
  assumes "and v AttrCMMask = and w AttrCMMask" and "color_value v = color_value w"
  shows "colour_of v = colour_of w"
proof -
  have ne: "AttrCMRGB \<noteq> AttrCMP16" "AttrCMRGB \<noteq> AttrCMP256" "AttrCMRGB \<noteq> 0" "AttrCMP16 \<noteq> 0" "AttrCMP256 \<noteq> 0"
    "AttrCMP16 \<noteq> AttrCMRGB" "AttrCMP256 \<noteq> AttrCMRGB"
    by (simp_all add: attr_consts)
  show ?thesis
    using color_modes [of w] assms
    by (elim insertE emptyE) (simp_all add: colour_of_def color_value_def ne flip: word_uint_eq_iff)
qed

lemma equal_look:
  "equalFg a b \<Longrightarrow> lk_fg (look_of a) = lk_fg (look_of b)"
  "equalBg a b \<Longrightarrow> lk_bg (look_of a) = lk_bg (look_of b)"
  unfolding equalFg_def equalBg_def GetFgColorMode_def GetBgColorMode_def GetFgColor_def GetBgColor_def
    look_of_def look.simps
  by (elim conjE, rule colour_eqI, assumption+)+

lemma attributesEquals_look: "attributesEquals a b \<Longrightarrow> look_of a = look_of b"
  using equal_look [of a b] by (simp add: attributesEquals_def equalFlags_def look_of_def)

lemma default_look: "IsAttributeDefault a \<Longrightarrow> look_of a = look_of DefaultAttrData"
  by (simp add: IsAttributeDefault_def look_defs DefaultAttrData_def)

lemma default_equal:
  assumes "IsAttributeDefault a" and "IsAttributeDefault b"
  shows "attributesEquals a b"
  using assms
  by (simp add: IsAttributeDefault_def attributesEquals_def equalFg_def equalBg_def equalFlags_def equalUnderline_def
      GetFgColorMode_def GetBgColorMode_def GetFgColor_def GetBgColor_def IsInverse_def IsBold_def IsUnderline_def
      HasExtendedAttrs_def IsOverline_def IsBlink_def IsInvisible_def IsItalic_def IsDim_def IsStrikethrough_def)

lemma flag_code_Nil: "flag_code n m on off = [] \<longleftrightarrow> n = m"
  by (simp add: flag_code_def)

lemma no_codes_look: "diffCodes new old = [] \<Longrightarrow> look_of new = look_of old"
proof -
  assume empty: "diffCodes new old = []"
  show ?thesis
  proof (cases "attributesEquals new old \<or> IsAttributeDefault new")
    case True
    then show ?thesis using empty attributesEquals_look default_equal
      by (auto simp: diffCodes_def split: if_splits)
  next
    case False
    have ne: "color_codes e n b r x y z \<noteq> []" for e n b r x y z by (simp add: color_codes_def Let_def)
    from False empty ne have eq: "equalFg new old" "equalBg new old" by (auto simp: diffCodes_def split: if_splits)
    show ?thesis
    proof (cases "equalFlags new old")
      case True
      with eq False show ?thesis by (simp add: attributesEquals_def)
    next
      case f: False
      with False empty eq have "flag_code (IsInverse new) (IsInverse old) 7 27 = []"
        "flag_code (IsBold new) (IsBold old) 1 22 = []" "flag_code (IsUnderline new) (IsUnderline old) 4 24 = []"
        "flag_code (IsOverline new) (IsOverline old) 53 55 = []" "flag_code (IsBlink new) (IsBlink old) 5 25 = []"
        "flag_code (IsInvisible new) (IsInvisible old) 8 28 = []" "flag_code (IsItalic new) (IsItalic old) 3 23 = []"
        "flag_code (IsDim new) (IsDim old) 2 22 = []" "flag_code (IsStrikethrough new) (IsStrikethrough old) 9 29 = []"
        by (simp_all add: diffCodes_def)
      then have "IsInverse new = IsInverse old" "IsBold new = IsBold old" "IsUnderline new = IsUnderline old"
        "IsOverline new = IsOverline old" "IsBlink new = IsBlink old" "IsInvisible new = IsInvisible old"
        "IsItalic new = IsItalic old" "IsDim new = IsDim old" "IsStrikethrough new = IsStrikethrough old"
        by (simp_all only: flag_code_Nil)
      with equal_look [of new old] eq show ?thesis by (simp add: look_of_def)
    qed
  qed
qed

lemma effect_flag:
  assumes "effect [on] (U (\<lambda>_. True))" and "effect [off] (U (\<lambda>_. False))" and "\<And>l. U (\<lambda>x. x) l = l"
  shows "effect (flag_code n m on off) (U (\<lambda>x. if n \<noteq> m then n \<noteq> 0 else x))"
proof -
  have "U (\<lambda>x. x) = (\<lambda>l. l)" using assms(3) by auto
  then show ?thesis using assms(1,2) effect_Nil by (simp add: flag_code_def)
qed

lemma effect_each:
  "effect (flag_code n m 7 27) (lk_inverse_update (\<lambda>x. if n \<noteq> m then n \<noteq> 0 else x))"
  "effect (flag_code n m 4 24) (lk_underline_update (\<lambda>x. if n \<noteq> m then n \<noteq> 0 else x))"
  "effect (flag_code n m 53 55) (lk_overline_update (\<lambda>x. if n \<noteq> m then n \<noteq> 0 else x))"
  "effect (flag_code n m 5 25) (lk_blink_update (\<lambda>x. if n \<noteq> m then n \<noteq> 0 else x))"
  "effect (flag_code n m 8 28) (lk_invisible_update (\<lambda>x. if n \<noteq> m then n \<noteq> 0 else x))"
  "effect (flag_code n m 3 23) (lk_italic_update (\<lambda>x. if n \<noteq> m then n \<noteq> 0 else x))"
  "effect (flag_code n m 9 29) (lk_strike_update (\<lambda>x. if n \<noteq> m then n \<noteq> 0 else x))"
  using effect_flag [where U = lk_inverse_update, OF effect_flags(1,2)]
    effect_flag [where U = lk_underline_update, OF effect_flags(5,6)]
    effect_flag [where U = lk_overline_update, OF effect_flags(7,8)]
    effect_flag [where U = lk_blink_update, OF effect_flags(9,10)]
    effect_flag [where U = lk_invisible_update, OF effect_flags(11,12)]
    effect_flag [where U = lk_italic_update, OF effect_flags(13,14)]
    effect_flag [where U = lk_strike_update, OF effect_flags(16,17)]
  by simp_all

lemma effect_bold:
  "effect (flag_code n m 1 22) (\<lambda>l. l\<lparr>lk_bold := (if n \<noteq> m then n \<noteq> 0 else lk_bold l),
     lk_dim := (if n \<noteq> m \<and> n = 0 then False else lk_dim l)\<rparr>)"
  using effect_flags(3,4) effect_Nil by (simp add: flag_code_def)

lemma effect_dim:
  "effect (flag_code n m 2 22) (\<lambda>l. l\<lparr>lk_dim := (if n \<noteq> m then n \<noteq> 0 else lk_dim l),
     lk_bold := (if n \<noteq> m \<and> n = 0 then False else lk_bold l)\<rparr>)"
proof -
  have "(\<lambda>l. l\<lparr>lk_bold := False, lk_dim := False\<rparr>) = (\<lambda>l :: look. l\<lparr>lk_dim := False, lk_bold := False\<rparr>)" by auto
  then show ?thesis using effect_flags(4,15) effect_Nil by (simp add: flag_code_def)
qed

lemma effect_if: "effect ns f \<Longrightarrow> effect (if c then ns else []) (\<lambda>l. if c then f l else l)"
  using effect_Nil by simp

definition weight_lost :: "'a AttributeData_scheme \<Rightarrow> 'b AttributeData_scheme \<Rightarrow> bool" where
  "weight_lost new old \<longleftrightarrow> IsDim old \<noteq> 0 \<and> IsDim new = 0 \<and> IsBold new \<noteq> 0
     \<or> IsBold old \<noteq> 0 \<and> IsBold new = 0 \<and> IsDim old \<noteq> 0 \<and> IsDim new \<noteq> 0"

lemma dim_values: "IsDim a \<in> {0, BgFlagDim}"
proof -
  have m: "BgFlagDim = 2 ^ 27" by (simp add: attr_consts)
  have "IsDim a = (if bit (ad_Bg a) 27 then 2 ^ 27 else 0)"
    unfolding IsDim_def m
    by (rule bit_eqI) (auto simp only: bit_and_iff bit_exp_iff bit_0_eq split: if_split)
  then show ?thesis unfolding m by auto
qed

lemma kept: "(if a \<noteq> b then a \<noteq> 0 else b \<noteq> 0) = (a \<noteq> (0 :: u32))"
  by auto

lemma effect_diff_flags:
  fixes new :: "'a AttributeData_scheme" and old :: "'b AttributeData_scheme"
  defines "ns \<equiv> flag_code (IsInverse new) (IsInverse old) 7 27 @ flag_code (IsBold new) (IsBold old) 1 22 @
     flag_code (IsUnderline new) (IsUnderline old) 4 24 @ flag_code (IsOverline new) (IsOverline old) 53 55 @
     flag_code (IsBlink new) (IsBlink old) 5 25 @ flag_code (IsInvisible new) (IsInvisible old) 8 28 @
     flag_code (IsItalic new) (IsItalic old) 3 23 @ flag_code (IsDim new) (IsDim old) 2 22 @
     flag_code (IsStrikethrough new) (IsStrikethrough old) 9 29"
  obtains f where "effect ns f"
    and "\<And>l. l = (look_of old)\<lparr>lk_fg := c, lk_bg := d\<rparr> \<Longrightarrow>
      f l = (look_of new)\<lparr>lk_fg := c, lk_bg := d, lk_bold := lk_bold (f l), lk_dim := lk_dim (f l)\<rparr> \<and>
      (lk_bold (f l) = (IsBold new \<noteq> 0) \<and> lk_dim (f l) = (IsDim new \<noteq> 0) \<longleftrightarrow> \<not> weight_lost new old)"
proof -
  note effects =
    effect_append [OF effect_each(1) [where n = "IsInverse new" and m = "IsInverse old"]
    effect_append [OF effect_bold [where n = "IsBold new" and m = "IsBold old"]
    effect_append [OF effect_each(2) [where n = "IsUnderline new" and m = "IsUnderline old"]
    effect_append [OF effect_each(3) [where n = "IsOverline new" and m = "IsOverline old"]
    effect_append [OF effect_each(4) [where n = "IsBlink new" and m = "IsBlink old"]
    effect_append [OF effect_each(5) [where n = "IsInvisible new" and m = "IsInvisible old"]
    effect_append [OF effect_each(6) [where n = "IsItalic new" and m = "IsItalic old"]
    effect_append [OF effect_dim [where n = "IsDim new" and m = "IsDim old"]
      effect_each(7) [where n = "IsStrikethrough new" and m = "IsStrikethrough old"]]]]]]]]]
  have e: "effect ns (\<lambda>l. \<lparr>lk_fg = lk_fg l, lk_bg = lk_bg l,
      lk_inverse = (if IsInverse new \<noteq> IsInverse old then IsInverse new \<noteq> 0 else lk_inverse l),
      lk_bold = (if IsDim new \<noteq> IsDim old \<and> IsDim new = 0 then False
                 else if IsBold new \<noteq> IsBold old then IsBold new \<noteq> 0 else lk_bold l),
      lk_underline = (if IsUnderline new \<noteq> IsUnderline old then IsUnderline new \<noteq> 0 else lk_underline l),
      lk_overline = (if IsOverline new \<noteq> IsOverline old then IsOverline new \<noteq> 0 else lk_overline l),
      lk_blink = (if IsBlink new \<noteq> IsBlink old then IsBlink new \<noteq> 0 else lk_blink l),
      lk_invisible = (if IsInvisible new \<noteq> IsInvisible old then IsInvisible new \<noteq> 0 else lk_invisible l),
      lk_italic = (if IsItalic new \<noteq> IsItalic old then IsItalic new \<noteq> 0 else lk_italic l),
      lk_dim = (if IsDim new \<noteq> IsDim old then IsDim new \<noteq> 0
                else if IsBold new \<noteq> IsBold old \<and> IsBold new = 0 then False else lk_dim l),
      lk_strike = (if IsStrikethrough new \<noteq> IsStrikethrough old then IsStrikethrough new \<noteq> 0 else lk_strike l)\<rparr>)"
    (is "effect ns ?f")
    unfolding ns_def
    apply (rule back_subst [where P = "effect _", OF effects])
      apply simp_all
    apply (rule ext, simp)
    done
  have d: "IsDim new \<noteq> 0 \<Longrightarrow> IsDim old \<noteq> 0 \<Longrightarrow> IsDim new = IsDim old"
    using dim_values [of new] dim_values [of old] by auto
  show thesis
  proof (rule that [OF e])
    fix l assume l: "l = (look_of old)\<lparr>lk_fg := c, lk_bg := d\<rparr>"
    have "?f l = (look_of new)\<lparr>lk_fg := c, lk_bg := d, lk_bold := lk_bold (?f l), lk_dim := lk_dim (?f l)\<rparr>"
      by (simp only: l look_of_def look.simps kept)
    moreover have "lk_bold (?f l) = (IsBold new \<noteq> 0) \<and> lk_dim (?f l) = (IsDim new \<noteq> 0) \<longleftrightarrow> \<not> weight_lost new old"
      using d by (auto simp: l look_of_def weight_lost_def)
    ultimately show "?f l = (look_of new)\<lparr>lk_fg := c, lk_bg := d, lk_bold := lk_bold (?f l), lk_dim := lk_dim (?f l)\<rparr>
       \<and> (lk_bold (?f l) = (IsBold new \<noteq> 0) \<and> lk_dim (?f l) = (IsDim new \<noteq> 0) \<longleftrightarrow> \<not> weight_lost new old)"
      by (rule conjI)
  qed
qed

lemma effect_diff:
  assumes l: "l = look_of old"
  obtains f where "effect (diffCodes new old) f"
    and "f l = (look_of new)\<lparr>lk_bold := lk_bold (f l), lk_dim := lk_dim (f l)\<rparr>"
    and "f l = look_of new \<longleftrightarrow> \<not> weight_lost new old"
proof (cases "attributesEquals new old")
  case True
  then have "diffCodes new old = []" by (simp add: diffCodes_def)
  moreover have "look_of new = l" using True l attributesEquals_look by simp
  moreover have "\<not> weight_lost new old"
    using True by (auto simp: weight_lost_def attributesEquals_def equalFlags_def)
  ultimately show thesis using that [of "\<lambda>l. l"] effect_Nil by simp
next
  case ne: False
  show thesis
  proof (cases "IsAttributeDefault new")
    case True
    with ne default_equal have "diffCodes new old = [0]" by (auto simp: diffCodes_def)
    moreover have "\<not> weight_lost new old"
      using True by (simp add: weight_lost_def IsAttributeDefault_def IsBold_def IsDim_def)
    ultimately show thesis
      using that [of "\<lambda>_. look_of DefaultAttrData"] effect_defaults(3) default_look [OF True] by simp
  next
    case False
    obtain g where g: "effect (flag_code (IsInverse new) (IsInverse old) 7 27 @
        flag_code (IsBold new) (IsBold old) 1 22 @ flag_code (IsUnderline new) (IsUnderline old) 4 24 @
        flag_code (IsOverline new) (IsOverline old) 53 55 @ flag_code (IsBlink new) (IsBlink old) 5 25 @
        flag_code (IsInvisible new) (IsInvisible old) 8 28 @ flag_code (IsItalic new) (IsItalic old) 3 23 @
        flag_code (IsDim new) (IsDim old) 2 22 @ flag_code (IsStrikethrough new) (IsStrikethrough old) 9 29) g"
      and look: "\<And>l. l = (look_of old)\<lparr>lk_fg := colour_of (ad_Fg new), lk_bg := colour_of (ad_Bg new)\<rparr> \<Longrightarrow>
        g l = (look_of new)\<lparr>lk_fg := colour_of (ad_Fg new), lk_bg := colour_of (ad_Bg new),
          lk_bold := lk_bold (g l), lk_dim := lk_dim (g l)\<rparr> \<and>
        (lk_bold (g l) = (IsBold new \<noteq> 0) \<and> lk_dim (g l) = (IsDim new \<noteq> 0) \<longleftrightarrow> \<not> weight_lost new old)"
      by (rule effect_diff_flags [where new = new and old = old and c = "colour_of (ad_Fg new)" and d = "colour_of (ad_Bg new)"], rule that)
    let ?f = "\<lambda>l. (\<lambda>l. if \<not> equalFlags new old then g l else l)
      ((\<lambda>l. if \<not> equalBg new old then l\<lparr>lk_bg := colour_of (ad_Bg new)\<rparr> else l)
       ((\<lambda>l. if \<not> equalFg new old then l\<lparr>lk_fg := colour_of (ad_Fg new)\<rparr> else l) l))"
    have "effect (diffCodes new old) ?f"
      unfolding diffCodes_def if_not_P [OF ne] if_not_P [OF False] IsFgRGB_def IsBgRGB_def IsFgPalette_def
        IsBgPalette_def GetFgColor_def GetBgColor_def
      using effect_append [OF effect_append [OF effect_if [OF effect_color(1) [of "ad_Fg new"], of "\<not> equalFg new old"]
        effect_if [OF effect_color(2) [of "ad_Bg new"], of "\<not> equalBg new old"]] effect_if [OF g, of "\<not> equalFlags new old"]]
      by (simp only: append_assoc)
    moreover define k where "k = (look_of old)\<lparr>lk_fg := colour_of (ad_Fg new), lk_bg := colour_of (ad_Bg new)\<rparr>"
    have "?f l = (if \<not> equalFlags new old then g k else k)"
      using equal_look [of new old] by (auto simp: l k_def look_of_def)
    moreover have "equalFlags new old \<Longrightarrow> k = look_of new \<and> \<not> weight_lost new old"
      by (auto simp: k_def equalFlags_def look_of_def weight_lost_def)
    moreover have "g k = (look_of new)\<lparr>lk_bold := lk_bold (g k), lk_dim := lk_dim (g k)\<rparr>"
      using look [OF k_def] by (simp add: look_of_def)
    moreover have "r = (look_of new)\<lparr>lk_bold := lk_bold r, lk_dim := lk_dim r\<rparr> \<Longrightarrow>
        r = look_of new \<longleftrightarrow> lk_bold r = (IsBold new \<noteq> 0) \<and> lk_dim r = (IsDim new \<noteq> 0)" for r
      by (cases r) (auto simp: look_of_def)
    ultimately have "?f l = (look_of new)\<lparr>lk_bold := lk_bold (?f l), lk_dim := lk_dim (?f l)\<rparr>"
      and "?f l = look_of new \<longleftrightarrow> \<not> weight_lost new old"
      using look [OF k_def] by (cases "equalFlags new old"; simp)+
    then show thesis using \<open>effect (diffCodes new old) ?f\<close> by (rule that [rotated])
  qed
qed

lemma codes_at_repr:
  assumes "repr p (map (\<lambda>n. (word_of_nat n, [])) ns)"
  shows "codes_at p 0 ns" and "pa_Length p = length ns"
proof -
  let ?xs = "map (\<lambda>n. (word_of_nat n, [])) ns :: (i32 \<times> i32 list) list"
  from assms have r: "pa_Length p = length ns" "length ns \<le> length (pa_Params p)"
    "take (length ns) (pa_Params p) = map word_of_nat ns"
    by (simp_all add: repr_def o_def)
  then show "pa_Length p = length ns" by simp
  have "pa_Params p ! k = word_of_nat (ns ! k)" if "k < length ns" for k
    using that arg_cong [OF r(3), of "\<lambda>xs. xs ! k"] r(2) by simp
  moreover have "\<not> HasSubParams k p" if "k < length ns" for k
    using repr_subs(2) [OF assms, of k] that by simp
  ultimately show "codes_at p 0 ns" using r by (simp add: codes_at_def)
qed

lemma charAttributes_loop:
  assumes "pa_Length p \<le> length (pa_Params p)"
  shows "charAttributes p a = sgr_loop p 0 a"
proof (cases "pa_Length p = 1 \<and> pa_Params p ! 0 = 0")
  case True
  with assms have "sgr_loop p 0 a = sgr_loop p (Suc 0) (processSGR0 a)"
    by (subst sgr_loop.simps) (auto simp: sgr_code_def)
  with True assms show ?thesis by (auto simp: charAttributes_def sgr_loop.simps [of p "Suc 0"])
qed (use assms in \<open>auto simp: charAttributes_def\<close>)

lemma sgr_reproduces:
  assumes "look_of a = look_of old" and "no_link a"
    and "repr p (map (\<lambda>n. (word_of_nat n, [])) (diffCodes new old))"
  shows "\<exists>a'. charAttributes p a = Some a' \<and> no_link a'
    \<and> look_of a' = (look_of new)\<lparr>lk_bold := lk_bold (look_of a'), lk_dim := lk_dim (look_of a')\<rparr>
    \<and> (look_of a' = look_of new \<longleftrightarrow> \<not> weight_lost new old)"
proof -
  let ?ns = "diffCodes new old"
  note at = codes_at_repr [OF assms(3)]
  obtain f where f: "effect ?ns f" and look: "f (look_of a) = (look_of new)\<lparr>lk_bold := lk_bold (f (look_of a)), lk_dim := lk_dim (f (look_of a))\<rparr>"
      "f (look_of a) = look_of new \<longleftrightarrow> \<not> weight_lost new old"
    by (rule effect_diff [OF assms(1)], rule that)
  from f at(1) assms(2) obtain a' where a': "no_link a'" "sgr_loop p 0 a = sgr_loop p (length ?ns) a'"
      "look_of a' = f (look_of a)"
    unfolding effect_def by fastforce
  have "charAttributes p a = Some a'"
    using a'(2) at by (simp add: charAttributes_loop codes_at_def sgr_loop.simps [of p "length ?ns"])
  with a' look show ?thesis by (intro exI [of _ a']) (simp only: simp_thms)
qed

section \<open>Through the parser\<close>

lemma color_value_range: "- 1 \<le> color_value w" "color_value w < 2 ^ 24"
proof -
  have "uint (and w AttrRGBMask) < 2 ^ 24" "uint (and w AttrPColorMask) < 2 ^ 24"
    using word_and_le1 [of w AttrRGBMask] word_and_le1 [of w AttrPColorMask]
    by (simp_all add: word_le_def attr_consts)
  moreover have "- 1 \<le> uint u" for u :: u32 using uint_ge_0 [of u] by linarith
  ultimately show "- 1 \<le> color_value w" "color_value w < 2 ^ 24" by (simp_all add: color_value_def)
qed

lemma byte_mask_less: "unat (and w 0xFF :: u32) < 2147483648"
  using word_and_le1 [of w "0xFF"] by (simp add: word_le_nat_alt)

lemma color_codes_range:
  assumes "e < 1000" "n < 1000" "b < 1000" "r < 1000" and "- 1 \<le> c" "c < 2 ^ 24"
  shows "\<forall>k \<in> set (color_codes e n b r rgb pal c). k < 2147483648"
    and "length (color_codes e n b r rgb pal c) \<le> 5"
proof -
  have "and c 7 \<le> 7" by (rule AND_upper2) simp
  then have "nat (and c 7) < 8" by (simp add: nat_less_iff)
  then show "\<forall>k \<in> set (color_codes e n b r rgb pal c). k < 2147483648"
    using assms byte_mask_less by (auto simp: color_codes_def Let_def)
qed (simp add: color_codes_def Let_def)

lemma diffCodes_range: "\<forall>k \<in> set (diffCodes new old). k < 2147483648" "length (diffCodes new old) \<le> 32"
proof -
  note fg = color_codes_range [of 38 30 90 39 "GetFgColor new" "IsFgRGB new" "IsFgPalette new"]
  note bg = color_codes_range [of 48 40 100 49 "GetBgColor new" "IsBgRGB new" "IsBgPalette new"]
  have ranges: "- 1 \<le> GetFgColor new" "GetFgColor new < 2 ^ 24" "- 1 \<le> GetBgColor new" "GetBgColor new < 2 ^ 24"
    by (simp_all only: GetFgColor_def GetBgColor_def color_value_range)
  have flag: "list_all (\<lambda>k. k < 2147483648) (flag_code n m a b)" if "a < 1000" "b < 1000" for n m a b
    using that by (simp add: flag_code_def)
  show "\<forall>k \<in> set (diffCodes new old). k < 2147483648"
    using fg(1) bg(1) ranges unfolding list_all_iff [symmetric] by (simp add: diffCodes_def flag)
  have "length (flag_code n m a b) = (if n \<noteq> m then 1 else 0)" for n m a b by (simp add: flag_code_def)
  then show "length (diffCodes new old) \<le> 32"
    using fg(2) bg(2) ranges by (simp add: diffCodes_def)
qed

text \<open>\<^verbatim>\<open>charAttributes\<close> as the parser calls it: a panic is \<open>None\<close> for good.\<close>

definition sgr_handler :: "AttributeData option store vt \<Rightarrow> bool \<times> AttributeData option store vt" where
  "sgr_handler v =
    (True, v\<lparr>vt_env := (vt_env v)\<lparr>st_rest := Option.bind (st_rest (vt_env v)) (charAttributes (vt_params v))\<rparr>\<rparr>)"

text \<open>The text the serializer writes between two cells of different style.\<close>

definition style_text :: "'a AttributeData_scheme \<Rightarrow> 'b AttributeData_scheme \<Rightarrow> byte list" where
  "style_text new old = (if diffCodes new old = [] then [] else csi_text [] (diffCodes new old) 0x6D)"

lemma style_replays:
  assumes "hd_csi H 0x6D = [sgr_handler]" and "currentState v = ParserStateGround" and "params_wf (vt_params v)"
    and "st_rest (vt_env v) = Some a" and "look_of a = look_of old" and "no_link a"
  shows "\<exists>a'. st_rest (vt_env (Parse H i (ascii_codes (style_text new old)) v)) = Some a'
    \<and> look_of a' = (look_of new)\<lparr>lk_bold := lk_bold (look_of a'), lk_dim := lk_dim (look_of a')\<rparr>
    \<and> (look_of a' = look_of new \<longleftrightarrow> \<not> weight_lost new old)"
proof (cases "diffCodes new old = []")
  case True
  then have r: "repr DefaultParams (map (\<lambda>n. (word_of_nat n, [])) (diffCodes new old))" by (simp add: repr_default)
  have "charAttributes DefaultParams a = Some a"
    using repr_default by (simp add: charAttributes_def sgr_loop.simps [of DefaultParams 0] repr_def)
  with sgr_reproduces [OF assms(5,6) r] True show ?thesis by (simp add: style_text_def assms(4))
next
  case False
  from Parse_csi [OF assms(2,3) False diffCodes_range, of "0x6D" H i]
  obtain p where p: "repr p (map (\<lambda>n. (word_of_nat n, [])) (diffCodes new old))"
    and run: "Parse H i (ascii_codes (csi_text [] (diffCodes new old) 0x6D)) v
      = (bubble (rev (hd_csi H 0x6D)) (hd_csi_fb H 0x6D)
          (v\<lparr>vt_collect := 0, vt_params := p, currentState := ParserStateCSIParam\<rparr>))
        \<lparr>precedingJoinState := 0, currentState := ParserStateGround\<rparr>"
    by auto
  from sgr_reproduces [OF assms(5,6) p] run False show ?thesis
    by (auto simp: style_text_def assms(1,4) sgr_handler_def)
qed

definition sgr_only :: "AttributeData option store vt_handlers" where
  "sgr_only =
    \<lparr>hd_print = (\<lambda>_ v. v), hd_execute = (\<lambda>_. None), hd_execute_fb = (\<lambda>_ v. v),
     hd_csi = (\<lambda>i. if i = 0x6D then [sgr_handler] else []), hd_csi_fb = (\<lambda>_ v. v),
     hd_esc = (\<lambda>_. []), hd_esc_fb = (\<lambda>_ v. v), hd_error = (\<lambda>_ _ v. (False, v)),
     hd_osc = string_collectors (\<lambda>_ _ a. (True, a)), hd_dcs = dcs_collectors (\<lambda>_ _ _ a. (True, a)),
     hd_apc = string_collectors (\<lambda>_ _ a. (True, a))\<rparr>"

definition sgr_start :: "AttributeData \<Rightarrow> AttributeData option store vt" where
  "sgr_start a = NewEscapeSequenceParser
     \<lparr>st_acc = (\<lambda>_. \<lparr>co_data = [], co_hitLimit = False, co_params = emptyDcsParams\<rparr>), st_rest = Some a\<rparr>"

lemma sgr_start: "currentState (sgr_start a) = ParserStateGround" "params_wf (vt_params (sgr_start a))"
  "st_rest (vt_env (sgr_start a)) = Some a"
proof -
  have "repr DefaultParams []" "pa_MaxLength DefaultParams = 32" "pa_maxSubParamsLen DefaultParams = 32"
    using repr_default by (simp_all add: DefaultParams_def NewParams_def maxSubParams_def)
  from AddParam_wf [OF this] show "params_wf (vt_params (sgr_start a))"
    by (auto simp: sgr_start_def NewEscapeSequenceParser_def)
qed (simp_all add: sgr_start_def NewEscapeSequenceParser_def)

definition dim_attr :: AttributeData where "dim_attr = DefaultAttrData\<lparr>ad_Bg := BgFlagDim\<rparr>"
definition bold_attr :: AttributeData where "bold_attr = DefaultAttrData\<lparr>ad_Fg := FgFlagBold\<rparr>"

lemma concrete_attrs: "no_link dim_attr" "no_link bold_attr" "weight_lost bold_attr dim_attr" "\<not> weight_lost dim_attr bold_attr"
  by (simp_all add: no_link_def dim_attr_def bold_attr_def extended_def emptyExt_def DefaultAttrData_def weight_lost_def
      IsBold_def IsDim_def attr_consts BgFlagDim_def FgFlagBold_def)

text \<open>
  C33: Styles survive serialization. A terminal whose attributes look like those of an old cell and
  that reads the bytes the serializer writes between it and a new cell, through the whole parser,
  ends with attributes that look like the new cell's in colours, inverse, underline, overline, blink,
  invisible, italic and strikethrough; and in bold and dim too, unless dim is switched off under a
  bold new cell or bold is switched off under a dim one, for which one code serves both.
\<close>

theorem sgr_replay:
  assumes "hd_csi H 0x6D = [sgr_handler]" and "currentState v = ParserStateGround" and "params_wf (vt_params v)"
    and "st_rest (vt_env v) = Some a" and "look_of a = look_of old" and "no_link a"
  shows "\<exists>a'. st_rest (vt_env (Parse H i (ascii_codes (style_text new old)) v)) = Some a'
    \<and> look_of a' = (look_of new)\<lparr>lk_bold := lk_bold (look_of a'), lk_dim := lk_dim (look_of a')\<rparr>
    \<and> (look_of a' = look_of new \<longleftrightarrow> \<not> weight_lost new old)"
  by (rule style_replays [OF assms])

theorem sgr_replay_witness:
  "\<exists>a'. st_rest (vt_env (Parse sgr_only 0 (ascii_codes (style_text dim_attr bold_attr)) (sgr_start bold_attr))) = Some a'
    \<and> look_of a' = look_of dim_attr"
  using sgr_replay [OF _ sgr_start refl concrete_attrs(2), where new = dim_attr and H = sgr_only and i = 0] concrete_attrs(4)
  by (auto simp: sgr_only_def)

text \<open>The other way round bold is lost: the codes are \<^verbatim>\<open>1;22\<close>, and 22 takes bold away again.\<close>

lemma bold_after_dim_lost:
  "diffCodes bold_attr dim_attr = [1, 22]"
  "\<exists>a'. st_rest (vt_env (Parse sgr_only 0 (ascii_codes (style_text bold_attr dim_attr)) (sgr_start dim_attr))) = Some a'
    \<and> look_of a' \<noteq> look_of bold_attr"
proof -
  show "diffCodes bold_attr dim_attr = [1, 22]"
    by (simp add: diffCodes_def attributesEquals_def equalFg_def equalBg_def equalFlags_def equalUnderline_def
        flag_code_def IsAttributeDefault_def IsBold_def IsDim_def IsInverse_def IsUnderline_def IsOverline_def
        IsBlink_def IsInvisible_def IsItalic_def IsStrikethrough_def HasExtendedAttrs_def GetFgColorMode_def
        GetBgColorMode_def GetFgColor_def GetBgColor_def color_value_def bold_attr_def dim_attr_def
        DefaultAttrData_def attr_consts BgFlagDim_def FgFlagBold_def)
  show "\<exists>a'. st_rest (vt_env (Parse sgr_only 0 (ascii_codes (style_text bold_attr dim_attr)) (sgr_start dim_attr))) = Some a'
    \<and> look_of a' \<noteq> look_of bold_attr"
    using style_replays [OF _ sgr_start refl concrete_attrs(1), where new = bold_attr and H = sgr_only and i = 0]
      concrete_attrs(3) by (auto simp: sgr_only_def)
qed

end
