(* ===== verification/Vt_Line.thy ===== *)
theory Vt_Line
  imports Vt_Attr Vt_Strings "HOL-Library.Monad_Syntax"
begin

text \<open>
  A line of the screen (\<^verbatim>\<open>src/internal/xterm/bufferline.go\<close>, \<^verbatim>\<open>celldata.go\<close>): an array of three
  words per cell (content, foreground, background) with maps for the cells whose content is more
  than one code point or whose attributes have an extension. An index out of range is a panic,
  \<open>None\<close>. The capacity of the array is not modelled: \<^verbatim>\<open>Resize\<close> returns only the line, and
  \<^verbatim>\<open>CleanupMemory\<close>, which reallocates without changing a value, is left out.
\<close>

section \<open>Cells\<close>

definition ContentCodepointMask :: u32 where "ContentCodepointMask = 0x1FFFFF"
definition ContentIsCombinedMask :: u32 where "ContentIsCombinedMask = 0x200000"
definition ContentHasContentMask :: u32 where "ContentHasContentMask = 0x3FFFFF"
definition ContentWidthMask :: u32 where "ContentWidthMask = 0xC00000"

lemmas content_consts = ContentCodepointMask_def ContentIsCombinedMask_def ContentHasContentMask_def
  ContentWidthMask_def

text \<open>\<^verbatim>\<open>string(rune(cp))\<close> is \<open>write_rune\<close>; \<^verbatim>\<open>[]rune(s)\<close> decodes.\<close>

function go_runes :: "byte list \<Rightarrow> u32 list" where
  "go_runes [] = []"
| "go_runes (b # bs) =
    (case decode_rune (b # bs) of (c, n) \<Rightarrow> word_of_nat c # go_runes (drop (n - 1) bs))"
  by pat_completeness auto

termination
  by (relation "measure length") (auto dest: decode_rune_progress)

record CellData = AttributeData +
  cd_Content :: u32
  cd_CombinedData :: "byte list"

record CharData =
  ch_attr :: u32
  ch_char :: "byte list"
  ch_width :: nat
  ch_code :: u32

definition NewCellData :: CellData where
  "NewCellData = AttributeData.extend DefaultAttrData \<lparr>cd_Content = 0, cd_CombinedData = []\<rparr>"

definition IsCombined :: "CellData \<Rightarrow> u32" where
  "IsCombined c = and (cd_Content c) ContentIsCombinedMask"

definition content_width :: "u32 \<Rightarrow> nat" where
  "content_width content = unat (drop_bit 22 content)"

definition width_bits :: "nat \<Rightarrow> u32" where
  "width_bits width = push_bit 22 (word_of_nat width)"

definition GetWidth :: "CellData \<Rightarrow> nat" where
  "GetWidth c = content_width (cd_Content c)"

definition GetChars :: "CellData \<Rightarrow> byte list" where
  "GetChars c =
    (if and (cd_Content c) ContentIsCombinedMask \<noteq> 0 then cd_CombinedData c
     else let cp = and (cd_Content c) ContentCodepointMask in
       if cp \<noteq> 0 then write_rune cp else [])"

definition GetCode :: "CellData \<Rightarrow> u32" where
  "GetCode c =
    (if IsCombined c \<noteq> 0 then (if cd_CombinedData c = [] then 0 else last (go_runes (cd_CombinedData c)))
     else and (cd_Content c) ContentCodepointMask)"

definition SetFromCharData :: "CharData \<Rightarrow> CellData \<Rightarrow> CellData" where
  "SetFromCharData cd c =
    (let c = c\<lparr>ad_Fg := ch_attr cd, ad_Bg := 0\<rparr>; ch = ch_char cd; w = width_bits (ch_width cd) in
     case go_runes ch of
       [] \<Rightarrow> c\<lparr>cd_Content := w\<rparr>
     | [r] \<Rightarrow> c\<lparr>cd_Content := or r w\<rparr>
     | _ \<Rightarrow> c\<lparr>cd_CombinedData := ch, cd_Content := or ContentIsCombinedMask w\<rparr>)"

definition CellDataFromCharData :: "CharData \<Rightarrow> CellData" where
  "CellDataFromCharData cd = SetFromCharData cd NewCellData"

definition AttributesEqual :: "CellData \<Rightarrow> CellData \<Rightarrow> bool" where
  "AttributesEqual c other \<longleftrightarrow>
     GetFgColorMode c = GetFgColorMode other \<and> GetFgColor c = GetFgColor other
     \<and> GetBgColorMode c = GetBgColorMode other \<and> GetBgColor c = GetBgColor other
     \<and> IsInverse c = IsInverse other \<and> IsBold c = IsBold other \<and> IsUnderline c = IsUnderline other
     \<and> IsOverline c = IsOverline other \<and> IsBlink c = IsBlink other \<and> IsInvisible c = IsInvisible other
     \<and> IsItalic c = IsItalic other \<and> IsDim c = IsDim other \<and> IsStrikethrough c = IsStrikethrough other
     \<and> GetUnderlineStyle c = GetUnderlineStyle other \<and> GetUnderlineColor c = GetUnderlineColor other"

definition GetAsCharData :: "CellData \<Rightarrow> CharData" where
  "GetAsCharData c = \<lparr>ch_attr = ad_Fg c, ch_char = GetChars c, ch_width = GetWidth c, ch_code = GetCode c\<rparr>"

definition NullCharData :: CharData where
  "NullCharData = \<lparr>ch_attr = 0, ch_char = [], ch_width = 1, ch_code = 0\<rparr>"

definition WhitespaceCharData :: CharData where
  "WhitespaceCharData = \<lparr>ch_attr = 0, ch_char = [0x20], ch_width = 1, ch_code = 32\<rparr>"

section \<open>Lines\<close>

record BufferLine =
  bl_data :: "u32 list"
  bl_combined :: "nat \<Rightarrow> byte list option"
  bl_extendedAttrs :: "nat \<Rightarrow> ExtendedAttrs option"
  bl_Len :: nat
  bl_IsWrapped :: bool

definition slot :: "nat \<Rightarrow> nat \<Rightarrow> BufferLine \<Rightarrow> u32 option" where
  "slot k index bl = (if index * 3 + k < length (bl_data bl) then Some (bl_data bl ! (index * 3 + k)) else None)"

definition combined_at :: "nat \<Rightarrow> BufferLine \<Rightarrow> byte list" where
  "combined_at index bl = (case bl_combined bl index of None \<Rightarrow> [] | Some s \<Rightarrow> s)"

definition line_GetWidth :: "nat \<Rightarrow> BufferLine \<Rightarrow> nat option" where
  "line_GetWidth index bl = map_option content_width (slot 0 index bl)"

definition line_HasWidth :: "nat \<Rightarrow> BufferLine \<Rightarrow> u32 option" where
  "line_HasWidth index bl = map_option (\<lambda>c. and c ContentWidthMask) (slot 0 index bl)"

definition line_GetFg :: "nat \<Rightarrow> BufferLine \<Rightarrow> u32 option" where "line_GetFg index bl = slot 1 index bl"
definition line_GetBg :: "nat \<Rightarrow> BufferLine \<Rightarrow> u32 option" where "line_GetBg index bl = slot 2 index bl"

definition line_HasContent :: "nat \<Rightarrow> BufferLine \<Rightarrow> u32 option" where
  "line_HasContent index bl = map_option (\<lambda>c. and c ContentHasContentMask) (slot 0 index bl)"

definition line_IsProtected :: "nat \<Rightarrow> BufferLine \<Rightarrow> u32 option" where
  "line_IsProtected index bl = map_option (\<lambda>b. and b BgFlagProtected) (slot 2 index bl)"

definition line_GetCodePoint :: "nat \<Rightarrow> BufferLine \<Rightarrow> u32 option" where
  "line_GetCodePoint index bl = map_option (\<lambda>content.
     if and content ContentIsCombinedMask \<noteq> 0
     then (if combined_at index bl = [] then 0 else last (go_runes (combined_at index bl)))
     else and content ContentCodepointMask) (slot 0 index bl)"

definition line_GetString :: "nat \<Rightarrow> BufferLine \<Rightarrow> byte list option" where
  "line_GetString index bl = map_option (\<lambda>content.
     if and content ContentIsCombinedMask \<noteq> 0 then combined_at index bl
     else let cp = and content ContentCodepointMask in if cp \<noteq> 0 then write_rune cp else []) (slot 0 index bl)"

definition LoadCell :: "nat \<Rightarrow> CellData \<Rightarrow> BufferLine \<Rightarrow> CellData option" where
  "LoadCell index cell bl =
    (case (slot 0 index bl, slot 1 index bl, slot 2 index bl) of
       (Some content, Some fg, Some bg) \<Rightarrow>
         Some (cell\<lparr>cd_Content := content, ad_Fg := fg, ad_Bg := bg,
           cd_CombinedData := (if and content ContentIsCombinedMask \<noteq> 0 then combined_at index bl else cd_CombinedData cell),
           ad_Extended := (if and bg BgFlagHasExtended \<noteq> 0 then bl_extendedAttrs bl index else ad_Extended cell)\<rparr>)
     | _ \<Rightarrow> None)"

definition SetCell :: "nat \<Rightarrow> CellData \<Rightarrow> BufferLine \<Rightarrow> BufferLine option" where
  "SetCell index cell bl =
    (if index * 3 + 2 < length (bl_data bl) then
       Some (bl\<lparr>bl_combined := (if and (cd_Content cell) ContentIsCombinedMask \<noteq> 0
                  then (bl_combined bl)(index \<mapsto> cd_CombinedData cell) else bl_combined bl),
                bl_extendedAttrs := (if and (ad_Bg cell) BgFlagHasExtended \<noteq> 0
                  then (bl_extendedAttrs bl)(index := ad_Extended cell) else bl_extendedAttrs bl),
                bl_data := (bl_data bl)[index * 3 := cd_Content cell, index * 3 + 1 := ad_Fg cell,
                  index * 3 + 2 := ad_Bg cell]\<rparr>)
     else None)"

definition SetCellFromCodepoint :: "nat \<Rightarrow> u32 \<Rightarrow> nat \<Rightarrow> 'a AttributeData_scheme \<Rightarrow> BufferLine \<Rightarrow> BufferLine option" where
  "SetCellFromCodepoint index codePoint width attrs bl =
    (if index * 3 + 2 < length (bl_data bl) then
       Some (bl\<lparr>bl_extendedAttrs := (if and (ad_Bg attrs) BgFlagHasExtended \<noteq> 0
                  then (bl_extendedAttrs bl)(index := ad_Extended attrs) else bl_extendedAttrs bl),
                bl_data := (bl_data bl)[index * 3 := or codePoint (width_bits width), index * 3 + 1 := ad_Fg attrs,
                  index * 3 + 2 := ad_Bg attrs]\<rparr>)
     else None)"

definition AddCodepointToCell :: "nat \<Rightarrow> u32 \<Rightarrow> nat \<Rightarrow> BufferLine \<Rightarrow> BufferLine option" where
  "AddCodepointToCell index codePoint width bl =
    (case slot 0 index bl of None \<Rightarrow> None
     | Some content \<Rightarrow>
       let cp = and content ContentCodepointMask;
           (combined, content) =
             (if and content ContentIsCombinedMask \<noteq> 0
              then ((bl_combined bl)(index \<mapsto> combined_at index bl @ write_rune codePoint), content)
              else if cp \<noteq> 0
              then ((bl_combined bl)(index \<mapsto> write_rune cp @ write_rune codePoint),
                    or (and content (not ContentCodepointMask)) ContentIsCombinedMask)
              else (bl_combined bl, or codePoint (width_bits 1)));
           content = (if 0 < width then or (and content (not ContentWidthMask)) (width_bits width) else content) in
       Some (bl\<lparr>bl_combined := combined, bl_data := (bl_data bl)[index * 3 := content]\<rparr>))"

section \<open>Bulk operations\<close>

definition NewBufferLine :: "nat \<Rightarrow> CellData option \<Rightarrow> bool \<Rightarrow> BufferLine option" where
  "NewBufferLine cols fillCell isWrapped =
    (let bl = \<lparr>bl_data = replicate (cols * 3) 0, bl_combined = Map.empty, bl_extendedAttrs = Map.empty,
               bl_Len = cols, bl_IsWrapped = isWrapped\<rparr>;
         fillCell = (case fillCell of None \<Rightarrow> CellDataFromCharData NullCharData | Some c \<Rightarrow> c) in
     fold_opt (\<lambda>i. SetCell i fillCell) [0..<cols] bl)"

text \<open>\<^verbatim>\<open>Get\<close> and \<^verbatim>\<open>Set\<close>, with the legacy tuples.\<close>

definition line_Get :: "nat \<Rightarrow> BufferLine \<Rightarrow> CharData option" where
  "line_Get index bl =
    (case (slot 0 index bl, slot 1 index bl) of
       (Some content, Some fg) \<Rightarrow>
         let cp = and content ContentCodepointMask; comb = and content ContentIsCombinedMask \<noteq> 0;
             rs = go_runes (combined_at index bl) in
         Some \<lparr>ch_attr = fg,
           ch_char = (if comb then combined_at index bl else if cp \<noteq> 0 then write_rune cp else []),
           ch_width = content_width content,
           ch_code = (if comb then (if rs \<noteq> [] then last rs else 0) else cp)\<rparr>
     | _ \<Rightarrow> None)"

definition line_Set :: "nat \<Rightarrow> CharData \<Rightarrow> BufferLine \<Rightarrow> BufferLine option" where
  "line_Set index value bl =
    (if index * 3 + 1 < length (bl_data bl) then
       let bl = bl\<lparr>bl_data := (bl_data bl)[index * 3 + 1 := ch_attr value]\<rparr>; w = width_bits (ch_width value) in
       Some (case go_runes (ch_char value) of
           [] \<Rightarrow> bl\<lparr>bl_data := (bl_data bl)[index * 3 := w]\<rparr>
         | [r] \<Rightarrow> bl\<lparr>bl_data := (bl_data bl)[index * 3 := or r w]\<rparr>
         | _ \<Rightarrow> bl\<lparr>bl_combined := (bl_combined bl)(index \<mapsto> ch_char value),
                   bl_data := (bl_data bl)[index * 3 := or ContentIsCombinedMask w]\<rparr>)
     else None)"

text \<open>
  \<^verbatim>\<open>bl.SetCell(dest, bl.LoadCell(src, &tmp))\<close>. What an earlier iteration left in \<^verbatim>\<open>tmp\<close> is not read:
  \<^verbatim>\<open>LoadCell\<close> sets every field that \<^verbatim>\<open>SetCell\<close> uses.
\<close>

definition zeroCell :: CellData where
  "zeroCell = \<lparr>ad_Fg = 0, ad_Bg = 0, ad_Extended = None, cd_Content = 0, cd_CombinedData = []\<rparr>"

definition copy_cell :: "nat \<Rightarrow> nat \<Rightarrow> BufferLine \<Rightarrow> BufferLine option" where
  "copy_cell dest src bl = do { c \<leftarrow> LoadCell src zeroCell bl; SetCell dest c bl }"

text \<open>Half of a wide character is reset to an empty cell.\<close>

definition reset_if :: "bool \<Rightarrow> nat \<Rightarrow> 'a AttributeData_scheme \<Rightarrow> BufferLine \<Rightarrow> BufferLine option" where
  "reset_if c index attrs bl = (if c then SetCellFromCodepoint index 0 1 attrs bl else Some bl)"

definition InsertCells :: "nat \<Rightarrow> nat \<Rightarrow> CellData \<Rightarrow> BufferLine \<Rightarrow> BufferLine option" where
  "InsertCells pos n fillCell bl =
    (if bl_Len bl = 0 then None
     else let pos = pos mod bl_Len bl; len = bl_Len bl in do {
       w \<leftarrow> (if 0 < pos then line_GetWidth (pos - 1) bl else Some 0);
       bl \<leftarrow> reset_if (w = 2) (pos - 1) fillCell bl;
       bl \<leftarrow> (if n < len - pos then do {
                bl \<leftarrow> fold_opt (\<lambda>i. copy_cell (pos + n + i) (pos + i)) (rev [0..<len - pos - n]) bl;
                fold_opt (\<lambda>i. SetCell (pos + i) fillCell) [0..<n] bl }
              else fold_opt (\<lambda>i. SetCell i fillCell) [pos..<len] bl);
       w \<leftarrow> line_GetWidth (len - 1) bl;
       reset_if (w = 2) (len - 1) fillCell bl })"

definition DeleteCells :: "nat \<Rightarrow> nat \<Rightarrow> CellData \<Rightarrow> BufferLine \<Rightarrow> BufferLine option" where
  "DeleteCells pos n fillCell bl =
    (if bl_Len bl = 0 then None
     else let pos = pos mod bl_Len bl; len = bl_Len bl in do {
       bl \<leftarrow> (if n < len - pos then do {
                bl \<leftarrow> fold_opt (\<lambda>i. copy_cell (pos + i) (pos + n + i)) [0..<len - pos - n] bl;
                fold_opt (\<lambda>i. SetCell i fillCell) [len - n..<len] bl }
              else fold_opt (\<lambda>i. SetCell i fillCell) [pos..<len] bl);
       w \<leftarrow> (if 0 < pos then line_GetWidth (pos - 1) bl else Some 0);
       bl \<leftarrow> reset_if (w = 2) (pos - 1) fillCell bl;
       w \<leftarrow> line_GetWidth pos bl;
       c \<leftarrow> (if w = 0 then line_HasContent pos bl else Some 1);
       reset_if (w = 0 \<and> c = 0) pos fillCell bl })"

text \<open>The loop \<^verbatim>\<open>for start < end && start < bl.Len\<close> runs over \<open>[start..<min end Len]\<close>.\<close>

definition ReplaceCells :: "nat \<Rightarrow> nat \<Rightarrow> CellData \<Rightarrow> bool \<Rightarrow> BufferLine \<Rightarrow> BufferLine option" where
  "ReplaceCells start end fillCell respectProtect bl =
    (if respectProtect then do {
       w \<leftarrow> (if 0 < start then line_GetWidth (start - 1) bl else Some 0);
       p \<leftarrow> (if w = 2 then line_IsProtected (start - 1) bl else Some 1);
       bl \<leftarrow> reset_if (w = 2 \<and> p = 0) (start - 1) fillCell bl;
       w \<leftarrow> (if end < bl_Len bl then (if end = 0 then None else line_GetWidth (end - 1) bl) else Some 0);
       p \<leftarrow> (if w = 2 then line_IsProtected end bl else Some 1);
       bl \<leftarrow> reset_if (w = 2 \<and> p = 0) end fillCell bl;
       fold_opt (\<lambda>i bl. do { p \<leftarrow> line_IsProtected i bl; if p = 0 then SetCell i fillCell bl else Some bl })
         [start..<min end (bl_Len bl)] bl }
     else do {
       w \<leftarrow> (if 0 < start then line_GetWidth (start - 1) bl else Some 0);
       bl \<leftarrow> reset_if (w = 2) (start - 1) fillCell bl;
       w \<leftarrow> (if end < bl_Len bl then (if end = 0 then None else line_GetWidth (end - 1) bl) else Some 0);
       bl \<leftarrow> reset_if (w = 2) end fillCell bl;
       fold_opt (\<lambda>i. SetCell i fillCell) [start..<min end (bl_Len bl)] bl })"

definition line_Resize :: "nat \<Rightarrow> CellData \<Rightarrow> BufferLine \<Rightarrow> BufferLine option" where
  "line_Resize cols fillCell bl =
    (if cols = bl_Len bl then Some bl
     else if bl_Len bl < cols then
       map_option (bl_Len_update (\<lambda>_. cols))
         (fold_opt (\<lambda>i. SetCell i fillCell) [bl_Len bl..<cols]
           (bl\<lparr>bl_data := take (cols * 3) (bl_data bl) @ replicate (cols * 3 - length (bl_data bl)) 0\<rparr>))
     else Some (bl\<lparr>bl_data := take (cols * 3) (bl_data bl),
            bl_combined := (\<lambda>k. if cols \<le> k then None else bl_combined bl k),
            bl_extendedAttrs := (\<lambda>k. if cols \<le> k then None else bl_extendedAttrs bl k), bl_Len := cols\<rparr>))"

definition Fill :: "CellData \<Rightarrow> bool \<Rightarrow> BufferLine \<Rightarrow> BufferLine option" where
  "Fill fillCell respectProtect bl =
    (if respectProtect then
       fold_opt (\<lambda>i bl. do { p \<leftarrow> line_IsProtected i bl; if p = 0 then SetCell i fillCell bl else Some bl })
         [0..<bl_Len bl] bl
     else fold_opt (\<lambda>i. SetCell i fillCell) [0..<bl_Len bl]
       (bl\<lparr>bl_combined := Map.empty, bl_extendedAttrs := Map.empty\<rparr>))"

text \<open>
  \<^verbatim>\<open>copy(bl.data, line.data)\<close> overwrites the common prefix. Copies of lines share nothing with
  the original, so \<^verbatim>\<open>Clone\<close> is the identity on values.
\<close>

definition line_CopyFrom :: "BufferLine \<Rightarrow> BufferLine \<Rightarrow> BufferLine" where
  "line_CopyFrom line bl =
    (let data = (if bl_Len bl \<noteq> bl_Len line then replicate (length (bl_data line)) 0 else bl_data bl);
         n = min (length data) (length (bl_data line)) in
     bl\<lparr>bl_data := take n (bl_data line) @ drop n data, bl_Len := bl_Len line, bl_combined := bl_combined line,
        bl_extendedAttrs := bl_extendedAttrs line, bl_IsWrapped := bl_IsWrapped line\<rparr>)"

definition line_Clone :: "BufferLine \<Rightarrow> BufferLine" where
  "line_Clone bl = bl"

section \<open>Queries\<close>

fun trimmed_from :: "(u32 \<Rightarrow> u32 \<Rightarrow> bool) \<Rightarrow> nat \<Rightarrow> BufferLine \<Rightarrow> nat option" where
  "trimmed_from keep 0 bl = Some 0"
| "trimmed_from keep (Suc i) bl =
    (case (slot 0 i bl, slot 2 i bl) of
       (Some content, Some bg) \<Rightarrow>
         if keep content bg then Some (i + content_width content) else trimmed_from keep i bl
     | _ \<Rightarrow> None)"

definition GetTrimmedLength :: "BufferLine \<Rightarrow> nat option" where
  "GetTrimmedLength bl = trimmed_from (\<lambda>content bg. and content ContentHasContentMask \<noteq> 0) (bl_Len bl) bl"

definition GetNoBgTrimmedLength :: "BufferLine \<Rightarrow> nat option" where
  "GetNoBgTrimmedLength bl =
    trimmed_from (\<lambda>content bg. and content ContentHasContentMask \<noteq> 0 \<or> and bg AttrCMMask \<noteq> 0) (bl_Len bl) bl"

function translate_from :: "nat \<Rightarrow> nat \<Rightarrow> BufferLine \<Rightarrow> byte list option" where
  "translate_from startCol endCol bl =
    (if endCol \<le> startCol then Some []
     else case slot 0 startCol bl of None \<Rightarrow> None
       | Some content \<Rightarrow>
         let cp = and content ContentCodepointMask;
             chars = (if and content ContentIsCombinedMask \<noteq> 0 then combined_at startCol bl
                      else if cp \<noteq> 0 then write_rune cp else [0x20]);
             w = content_width content in
         map_option (\<lambda>rest. chars @ rest) (translate_from (startCol + (if w = 0 then 1 else w)) endCol bl))"
  by pat_completeness auto

termination
  by (relation "measure (\<lambda>(startCol, endCol, bl). endCol - startCol)") (simp, simp only: in_measure prod.case, auto)

declare translate_from.simps [simp del]

text \<open>
  A negative \<^verbatim>\<open>endCol\<close> is \<open>None\<close>: to the end of the line. A range of negative length panics, when
  the result is allocated.
\<close>

definition TranslateToString :: "bool \<Rightarrow> nat \<Rightarrow> nat option \<Rightarrow> BufferLine \<Rightarrow> byte list option" where
  "TranslateToString trimRight startCol endCol bl = do {
     let endCol = (case endCol of None \<Rightarrow> bl_Len bl | Some e \<Rightarrow> e);
     tl \<leftarrow> (if trimRight then GetTrimmedLength bl else Some endCol);
     let endCol = min endCol tl;
     if endCol < startCol then None else translate_from startCol endCol bl }"

end
