(* ===== verification/Vt_Cells.thy ===== *)
theory Vt_Cells
  imports Vt_Line
begin

text \<open>
  The operations on a line of the screen, seen as operations on the list of its cells. \<open>holds bl cs\<close>
  says that the packed array with its side maps is well-formed and reads back as \<open>cs\<close>; \<open>gives m cs w\<close>
  that an operation does not panic and leaves such a line. Each operation of \<open>Vt_Line\<close> is then a
  \<open>take\<close>, \<open>drop\<close> and \<open>replicate\<close> on the list, with a wide character that is cut in two mended.
\<close>

section \<open>Lines as lists of cells\<close>


definition norm :: "CellData \<Rightarrow> CellData" where
  "norm c = c\<lparr>cd_CombinedData := (if and (cd_Content c) ContentIsCombinedMask \<noteq> 0 then cd_CombinedData c else []),
     ad_Extended := (if and (ad_Bg c) BgFlagHasExtended \<noteq> 0 then ad_Extended c else None)\<rparr>"

definition code_cell :: "u32 \<Rightarrow> nat \<Rightarrow> 'a AttributeData_scheme \<Rightarrow> CellData" where
  "code_cell cp width a = norm \<lparr>ad_Fg = ad_Fg a, ad_Bg = ad_Bg a, ad_Extended = ad_Extended a,
     cd_Content = or cp (width_bits width), cd_CombinedData = []\<rparr>"

definition holds :: "BufferLine \<Rightarrow> CellData list \<Rightarrow> bool" where
  "holds bl cs \<longleftrightarrow> length (bl_data bl) = bl_Len bl * 3 \<and> length cs = bl_Len bl
     \<and> (\<forall>i < bl_Len bl. LoadCell i zeroCell bl = Some (cs ! i))"

definition gives :: "BufferLine option \<Rightarrow> CellData list \<Rightarrow> bool \<Rightarrow> bool" where
  "gives m cs wrapped \<longleftrightarrow> (\<exists>bl'. m = Some bl' \<and> holds bl' cs \<and> bl_IsWrapped bl' = wrapped)"

lemma holds_exists: "length (bl_data bl) = bl_Len bl * 3 \<Longrightarrow> \<exists>cs. holds bl cs"
  by (intro exI [of _ "map (\<lambda>i. the (LoadCell i zeroCell bl)) [0..<bl_Len bl]"])
    (auto simp: holds_def LoadCell_def slot_def)

lemma LoadCell_norm: "LoadCell i zeroCell bl = Some c \<Longrightarrow> norm c = c"
  by (auto simp: LoadCell_def norm_def zeroCell_def split: option.splits)

lemma holds_norm: "holds bl cs \<Longrightarrow> i < length cs \<Longrightarrow> norm (cs ! i) = cs ! i"
  using LoadCell_norm [of i bl "cs ! i"] by (simp add: holds_def)

lemma triple_index: "k < 3 \<Longrightarrow> l < 3 \<Longrightarrow> j * 3 + k = i * 3 + l \<longleftrightarrow> j = i \<and> k = (l :: nat)"
proof
  assume k: "k < 3" "l < 3" and eq: "j * 3 + k = i * 3 + l"
  have "(j * 3 + k) div 3 = j" "(i * 3 + l) div 3 = i" using k by simp_all
  with eq show "j = i \<and> k = l" by (metis add_left_cancel)
qed simp

lemma SetCell_slot:
  assumes "SetCell i c bl = Some bl'" and "k < 3"
  shows "slot k j bl' = (if j = i then Some ([cd_Content c, ad_Fg c, ad_Bg c] ! k) else slot k j bl)"
proof -
  from assms have b: "i * 3 + 2 < length (bl_data bl)"
    and d: "bl_data bl' = (bl_data bl)[i * 3 + 0 := cd_Content c, i * 3 + 1 := ad_Fg c, i * 3 + 2 := ad_Bg c]"
    by (auto simp: SetCell_def split: if_splits)
  have "j * 3 + k = i * 3 + 0 \<longleftrightarrow> j = i \<and> k = 0" "j * 3 + k = i * 3 + 1 \<longleftrightarrow> j = i \<and> k = 1"
    "j * 3 + k = i * 3 + 2 \<longleftrightarrow> j = i \<and> k = 2"
    using triple_index [OF assms(2), of 0 j i] triple_index [OF assms(2), of 1 j i]
      triple_index [OF assms(2), of 2 j i] by simp_all
  moreover have "k = 0 \<or> k = 1 \<or> k = 2" using assms(2) by auto
  ultimately show ?thesis
    using b unfolding slot_def d by (cases "j = i") (auto simp: nth_list_update)
qed

lemma SetCell_maps:
  assumes "SetCell i c bl = Some bl'"
  shows "bl_Len bl' = bl_Len bl" "bl_IsWrapped bl' = bl_IsWrapped bl" "length (bl_data bl') = length (bl_data bl)"
    and "combined_at j bl' = (if j = i \<and> and (cd_Content c) ContentIsCombinedMask \<noteq> 0 then cd_CombinedData c else combined_at j bl)"
    and "bl_extendedAttrs bl' j = (if j = i \<and> and (ad_Bg c) BgFlagHasExtended \<noteq> 0 then ad_Extended c else bl_extendedAttrs bl j)"
  using assms by (auto simp: SetCell_def combined_at_def split: if_splits)

lemma SetCell_holds:
  assumes "holds bl cs" and "i < length cs"
  shows "gives (SetCell i c bl) (cs[i := norm c]) (bl_IsWrapped bl)"
proof -
  have i: "i * 3 + 2 < length (bl_data bl)" using assms by (auto simp: holds_def)
  obtain bl' where bl': "SetCell i c bl = Some bl'" using i by (simp add: SetCell_def)
  note s = SetCell_slot [OF bl'] and m = SetCell_maps [OF bl']
  have "LoadCell j zeroCell bl' = (if j = i then Some (norm c) else LoadCell j zeroCell bl)" for j
    by (cases "j = i"; cases "slot 0 j bl"; cases "slot 1 j bl"; cases "slot 2 j bl")
      (simp_all add: LoadCell_def s m norm_def zeroCell_def)
  with assms show ?thesis by (auto simp: gives_def holds_def bl' m nth_list_update)
qed

lemma width_not_combined: "and (width_bits w) ContentIsCombinedMask = 0"
proof -
  have m: "ContentIsCombinedMask = 2 ^ 21" by (simp add: content_consts)
  show ?thesis unfolding m width_bits_def
    by (rule bit_eqI) (auto simp only: bit_and_iff bit_exp_iff bit_0_eq bit_push_bit_iff)
qed

lemma SetCellFromCodepoint_holds:
  assumes "holds bl cs" and "i < length cs" and "and cp ContentIsCombinedMask = 0"
  shows "gives (SetCellFromCodepoint i cp w a bl) (cs[i := code_cell cp w a]) (bl_IsWrapped bl)"
proof -
  let ?c = "\<lparr>ad_Fg = ad_Fg a, ad_Bg = ad_Bg a, ad_Extended = ad_Extended a,
     cd_Content = or cp (width_bits w), cd_CombinedData = []\<rparr>"
  have "and (or cp (width_bits w)) ContentIsCombinedMask = 0"
    using assms(3) width_not_combined [of w] by (simp add: bit.conj_disj_distrib2)
  then have "SetCellFromCodepoint i cp w a bl = SetCell i ?c bl"
    by (simp add: SetCellFromCodepoint_def SetCell_def)
  then show ?thesis using SetCell_holds [OF assms(1,2), of ?c] by (simp add: code_cell_def)
qed

lemma givesD: "gives m cs w \<Longrightarrow> \<exists>bl'. m = Some bl' \<and> holds bl' cs \<and> bl_IsWrapped bl' = w"
  by (simp add: gives_def)

lemma gives_bind:
  assumes "gives m cs w" and "\<And>bl'. holds bl' cs \<Longrightarrow> bl_IsWrapped bl' = w \<Longrightarrow> gives (f bl') ds v"
  shows "gives (Option.bind m f) ds v"
  using assms by (auto simp: gives_def)

lemma gives_fold:
  assumes "gives (Some bl) cs w" and "\<And>x bl cs. x \<in> set xs \<Longrightarrow> holds bl cs \<Longrightarrow> bl_IsWrapped bl = w \<Longrightarrow> length cs = n
      \<Longrightarrow> gives (f x bl) (g x cs) w \<and> length (g x cs) = n" and "length cs = n"
  shows "gives (fold_opt f xs bl) (fold g xs cs) w \<and> length (fold g xs cs) = n"
  using assms
proof (induction xs arbitrary: bl cs)
  case (Cons x xs)
  have "gives (f x bl) (g x cs) w" "length (g x cs) = n" using Cons.prems by (auto simp: gives_def)
  then obtain bl1 where "f x bl = Some bl1" "gives (Some bl1) (g x cs) w" by (auto simp: gives_def)
  with Cons.IH [of bl1 "g x cs"] Cons.prems(2) \<open>length (g x cs) = n\<close> show ?case by auto
qed auto

lemma copy_cell_holds:
  assumes "holds bl cs" and "i < length cs" and "j < length cs"
  shows "gives (copy_cell i j bl) (cs[i := cs ! j]) (bl_IsWrapped bl)"
  using SetCell_holds [OF assms(1,2), of "cs ! j"] assms(1,3) holds_norm [OF assms(1,3)]
  by (simp add: copy_cell_def holds_def)

lemma reset_holds:
  assumes "holds bl cs" and "c \<Longrightarrow> i < length cs"
  shows "gives (reset_if c i a bl) (if c then cs[i := code_cell 0 1 a] else cs) (bl_IsWrapped bl)"
  using SetCellFromCodepoint_holds [OF assms(1), of i 0 1 a] assms by (auto simp: reset_if_def gives_def)

lemma LoadCell_slots:
  "LoadCell i z bl = Some c \<Longrightarrow> slot 0 i bl = Some (cd_Content c) \<and> slot 1 i bl = Some (ad_Fg c) \<and> slot 2 i bl = Some (ad_Bg c)"
  by (auto simp: LoadCell_def split: option.splits)

lemma holds_slots:
  assumes "holds bl cs" and "i < length cs"
  shows "slot 0 i bl = Some (cd_Content (cs ! i))" "slot 1 i bl = Some (ad_Fg (cs ! i))" "slot 2 i bl = Some (ad_Bg (cs ! i))"
  using LoadCell_slots [of i zeroCell bl "cs ! i"] assms by (simp_all add: holds_def)

lemma queries_hold:
  assumes "holds bl cs" and "i < length cs"
  shows "line_GetWidth i bl = Some (GetWidth (cs ! i))"
    and "line_HasContent i bl = Some (and (cd_Content (cs ! i)) ContentHasContentMask)"
    and "line_IsProtected i bl = Some (IsProtected (cs ! i))"
  using holds_slots [OF assms]
  by (simp_all add: line_GetWidth_def GetWidth_def line_HasContent_def line_IsProtected_def IsProtected_def)

section \<open>Loops on the list\<close>

lemma fold_fill: "b \<le> length cs \<Longrightarrow> a \<le> b \<Longrightarrow>
   fold (\<lambda>i cs. cs[i := c]) [a..<b] cs = take a cs @ replicate (b - a) c @ drop b cs"
proof (induction b)
  case (Suc b)
  show ?case
  proof (cases "a = Suc b")
    case False
    with Suc have "fold (\<lambda>i cs. cs[i := c]) [a..<b] cs = take a cs @ replicate (b - a) c @ drop b cs" by simp
    with Suc.prems False show ?thesis
      by (simp add: list_update_append Suc_diff_le replicate_append_same Cons_nth_drop_Suc [symmetric])
  qed auto
qed auto

lemma fold_shift_right:
  assumes "p + n + k \<le> length cs"
  shows "fold (\<lambda>i cs. cs[p + n + i := cs ! (p + i)]) (rev [0..<k]) cs
      = take (p + n) cs @ take k (drop p cs) @ drop (p + n + k) cs"
  using assms
proof (induction k arbitrary: cs)
  case (Suc k)
  let ?cs = "cs[p + n + k := cs ! (p + k)]"
  have "drop (p + n + k) ?cs = cs ! (p + k) # drop (p + n + Suc k) cs"
    using Suc.prems by (simp add: drop_update_swap Cons_nth_drop_Suc [symmetric])
  moreover have "take k (drop p ?cs) = take k (drop p cs)"
    by (simp add: drop_update_swap take_drop)
  moreover have "take k (drop p cs) @ [cs ! (p + k)] = take (Suc k) (drop p cs)"
    using Suc.prems by (simp add: take_Suc_conv_app_nth)
  ultimately show ?case using Suc.IH [of ?cs] Suc.prems by simp
qed simp

lemma fold_shift_left:
  assumes "p + n + k \<le> length cs"
  shows "fold (\<lambda>i cs. cs[p + i := cs ! (p + n + i)]) [0..<k] cs
      = take p cs @ take k (drop (p + n) cs) @ drop (p + k) cs"
  using assms
proof (induction k)
  case (Suc k)
  let ?L = "take p cs @ take k (drop (p + n) cs) @ drop (p + k) cs"
  have len: "length (take p cs) = p" "length (take k (drop (p + n) cs)) = k" using Suc.prems by simp_all
  have "?L ! (p + n + k) = cs ! (p + n + k)" using Suc.prems len by (simp add: nth_append add.commute add.left_commute)
  moreover have "?L[p + k := x] = take p cs @ (take k (drop (p + n) cs) @ [x]) @ drop (p + Suc k) cs" for x
    using Suc.prems len by (simp add: list_update_append Cons_nth_drop_Suc [symmetric])
  moreover have "take k (drop (p + n) cs) @ [cs ! (p + n + k)] = take (Suc k) (drop (p + n) cs)"
    using Suc.prems by (simp add: take_Suc_conv_app_nth add.commute add.left_commute)
  ultimately show ?case using Suc.IH Suc.prems by simp
qed simp

section \<open>What the operations do\<close>

text \<open>The operations on the list of cells; \<open>blank\<close> is what a cut wide character becomes.\<close>

definition blank :: "CellData \<Rightarrow> CellData" where
  "blank fill = code_cell 0 1 fill"

definition mend :: "bool \<Rightarrow> nat \<Rightarrow> CellData \<Rightarrow> CellData list \<Rightarrow> CellData list" where
  "mend c i fill cs = (if c then cs[i := blank fill] else cs)"

definition wide_at :: "CellData list \<Rightarrow> nat \<Rightarrow> bool" where
  "wide_at cs i \<longleftrightarrow> GetWidth (cs ! i) = 2"

definition cells_insert :: "nat \<Rightarrow> nat \<Rightarrow> CellData \<Rightarrow> CellData list \<Rightarrow> CellData list" where
  "cells_insert pos n fill cs =
    (let cs = mend (0 < pos \<and> wide_at cs (pos - 1)) (pos - 1) fill cs;
         cs = take (length cs) (take pos cs @ replicate n (norm fill) @ drop pos cs) in
     mend (wide_at cs (length cs - 1)) (length cs - 1) fill cs)"

definition cells_delete :: "nat \<Rightarrow> nat \<Rightarrow> CellData \<Rightarrow> CellData list \<Rightarrow> CellData list" where
  "cells_delete pos n fill cs =
    (let cs = take pos cs @ drop (pos + n) cs @ replicate (min n (length cs - pos)) (norm fill);
         cs = mend (0 < pos \<and> wide_at cs (pos - 1)) (pos - 1) fill cs in
     mend (GetWidth (cs ! pos) = 0 \<and> and (cd_Content (cs ! pos)) ContentHasContentMask = 0) pos fill cs)"

definition cells_replace :: "nat \<Rightarrow> nat \<Rightarrow> CellData \<Rightarrow> CellData list \<Rightarrow> CellData list" where
  "cells_replace start end fill cs =
    (let cs = mend (0 < start \<and> wide_at cs (start - 1)) (start - 1) fill cs;
         cs = mend (end < length cs \<and> wide_at cs (end - 1)) end fill cs in
     take start cs @ replicate (min end (length cs) - start) (norm fill) @ drop (max start (min end (length cs))) cs)"

lemma width_guard:
  assumes "holds bl cs" and "c \<Longrightarrow> i < length cs"
  shows "(if c then line_GetWidth i bl else Some 0) = Some (if c then GetWidth (cs ! i) else 0)"
  using assms queries_hold(1) [OF assms(1)] by simp

lemma gives_reset:
  assumes "holds bl cs" and "c \<Longrightarrow> i < length cs" and "bl_IsWrapped bl = w"
  shows "gives (reset_if c i fill bl) (mend c i fill cs) w"
  unfolding mend_def blank_def assms(3) [symmetric] by (rule reset_holds [OF assms(1,2)])

lemma gives_fill:
  assumes "holds bl cs" and "b \<le> length cs" and "a \<le> b" and "bl_IsWrapped bl = w"
  shows "gives (fold_opt (\<lambda>i. SetCell i c) [a..<b] bl) (take a cs @ replicate (b - a) (norm c) @ drop b cs) w"
proof -
  have "gives (fold_opt (\<lambda>i. SetCell i c) [a..<b] bl) (fold (\<lambda>i cs. cs[i := norm c]) [a..<b] cs) w
      \<and> length (fold (\<lambda>i cs. cs[i := norm c]) [a..<b] cs) = length cs"
    by (rule gives_fold) (use assms in \<open>auto simp: gives_def [of "Some _"] intro: SetCell_holds\<close>)
  then show ?thesis using fold_fill [OF assms(2,3)] by simp
qed

lemma fold_opt_map: "fold_opt (\<lambda>i. f (g i)) xs s = fold_opt f (map g xs) s"
  by (induction xs arbitrary: s) (auto split: bind_splits)

lemma gives_fill_at:
  assumes "holds bl cs" and "p + n \<le> length cs" and "bl_IsWrapped bl = w"
  shows "gives (fold_opt (\<lambda>i. SetCell (p + i) c) [0..<n] bl) (take p cs @ replicate n (norm c) @ drop (p + n) cs) w"
proof -
  have "map (\<lambda>i. p + i) [0..<n] = [p..<p + n]" using map_add_upt [of p n] by (simp add: add.commute)
  then show ?thesis
    using gives_fill [OF assms(1,2) _ assms(3), of p c] fold_opt_map [of "\<lambda>i. SetCell i c" "\<lambda>i. p + i" "[0..<n]" bl] by simp
qed

lemma gives_shift_right:
  assumes "holds bl cs" and "p + n + k \<le> length cs" and "bl_IsWrapped bl = w"
  shows "gives (fold_opt (\<lambda>i. copy_cell (p + n + i) (p + i)) (rev [0..<k]) bl)
    (take (p + n) cs @ take k (drop p cs) @ drop (p + n + k) cs) w"
proof -
  have "gives (fold_opt (\<lambda>i. copy_cell (p + n + i) (p + i)) (rev [0..<k]) bl)
      (fold (\<lambda>i cs. cs[p + n + i := cs ! (p + i)]) (rev [0..<k]) cs) w
      \<and> length (fold (\<lambda>i cs. cs[p + n + i := cs ! (p + i)]) (rev [0..<k]) cs) = length cs"
    by (rule gives_fold) (use assms in \<open>auto simp: gives_def [of "Some _"] intro!: copy_cell_holds\<close>)
  then show ?thesis using fold_shift_right [OF assms(2)] by simp
qed

lemma gives_shift_left:
  assumes "holds bl cs" and "p + n + k \<le> length cs" and "bl_IsWrapped bl = w"
  shows "gives (fold_opt (\<lambda>i. copy_cell (p + i) (p + n + i)) [0..<k] bl)
    (take p cs @ take k (drop (p + n) cs) @ drop (p + k) cs) w"
proof -
  have "gives (fold_opt (\<lambda>i. copy_cell (p + i) (p + n + i)) [0..<k] bl)
      (fold (\<lambda>i cs. cs[p + i := cs ! (p + n + i)]) [0..<k] cs) w
      \<and> length (fold (\<lambda>i cs. cs[p + i := cs ! (p + n + i)]) [0..<k] cs) = length cs"
    by (rule gives_fold) (use assms in \<open>auto simp: gives_def [of "Some _"] intro!: copy_cell_holds\<close>)
  then show ?thesis using fold_shift_left [OF assms(2)] by simp
qed

lemma length_mend [simp]: "length (mend c i fill cs) = length cs"
  by (simp add: mend_def)

lemma gives_cong: "gives m cs w \<Longrightarrow> cs = ds \<Longrightarrow> gives m ds w"
  by simp

lemma InsertCells_cells:
  assumes bl: "holds bl cs" and "cs \<noteq> []"
  shows "gives (InsertCells pos n fill bl) (cells_insert (pos mod length cs) n fill cs) (bl_IsWrapped bl)"
proof -
  define p where "p = pos mod length cs"
  have len: "bl_Len bl = length cs" "length cs \<noteq> 0" using bl by (simp add: holds_def, simp add: assms(2))
  have p: "p < length cs" using assms(2) by (simp add: p_def)
  define c where "c = ((if 0 < p then GetWidth (cs ! (p - 1)) else 0) = 2)"
  have c: "c \<longleftrightarrow> 0 < p \<and> wide_at cs (p - 1)" by (simp add: c_def wide_at_def)
  define cs1 where "cs1 = mend c (p - 1) fill cs"
  define cs2 where "cs2 = take (length cs) (take p cs1 @ replicate n (norm fill) @ drop p cs1)"
  have l1: "length cs1 = length cs" by (simp add: cs1_def)
  have l2: "length cs2 = length cs" using p by (simp add: cs2_def l1)
  have e: "cells_insert p n fill cs = mend (GetWidth (cs2 ! (length cs - 1)) = 2) (length cs - 1) fill cs2"
    unfolding cells_insert_def c [symmetric] Let_def length_mend cs1_def [symmetric] l1 cs2_def [symmetric] l2
    by (simp add: wide_at_def)
  have step1: "gives (reset_if c (p - 1) fill bl) cs1 (bl_IsWrapped bl)"
    unfolding cs1_def by (rule gives_reset [OF bl]) (use p in simp_all)
  have step2: "gives (if n < length cs - p then do {
                bl \<leftarrow> fold_opt (\<lambda>i. copy_cell (p + n + i) (p + i)) (rev [0..<length cs - p - n]) b;
                fold_opt (\<lambda>i. SetCell (p + i) fill) [0..<n] bl }
              else fold_opt (\<lambda>i. SetCell i fill) [p..<length cs] b) cs2 (bl_IsWrapped bl)"
    if b: "holds b cs1" "bl_IsWrapped b = bl_IsWrapped bl" for b
  proof (cases "n < length cs - p")
    case True
    let ?k = "length cs - p - n"
    have "gives (fold_opt (\<lambda>i. copy_cell (p + n + i) (p + i)) (rev [0..<?k]) b)
        (take (p + n) cs1 @ take ?k (drop p cs1) @ drop (p + n + ?k) cs1) (bl_IsWrapped bl)"
      by (rule gives_shift_right) (use b True l1 in simp_all)
    moreover have "gives (fold_opt (\<lambda>i. SetCell (p + i) fill) [0..<n] b2) cs2 (bl_IsWrapped bl)"
      if "holds b2 (take (p + n) cs1 @ take ?k (drop p cs1) @ drop (p + n + ?k) cs1)" "bl_IsWrapped b2 = bl_IsWrapped bl" for b2
      by (rule gives_cong [OF gives_fill_at [OF that(1) _ that(2)]])
        (use True l1 in \<open>auto simp: cs2_def\<close>)
    ultimately show ?thesis using True by (auto intro: gives_bind)
  next
    case False
    then show ?thesis using gives_fill [OF b(1) _ _ b(2), of "length cs" p fill] p
      by (simp add: l1 cs2_def)
  qed
  have step3: "gives (do { w \<leftarrow> line_GetWidth (length cs - 1) b; reset_if (w = 2) (length cs - 1) fill b })
      (cells_insert p n fill cs) (bl_IsWrapped bl)" if b: "holds b cs2" "bl_IsWrapped b = bl_IsWrapped bl" for b
    unfolding e using gives_reset [OF b(1) _ b(2)] queries_hold(1) [OF b(1), of "length cs - 1"] p by (simp add: l2)
  have w: "(if 0 < p then line_GetWidth (p - 1) bl else Some 0) = Some (if 0 < p then GetWidth (cs ! (p - 1)) else 0)"
    by (rule width_guard [OF bl]) (use p in simp)
  show ?thesis
    unfolding InsertCells_def len(1) if_not_P [OF len(2)] Let_def p_def [symmetric] w bind.bind_lunit c_def [symmetric]
    by (rule gives_bind [OF step1], rule gives_bind [OF step2], assumption+, rule step3)
qed

lemma DeleteCells_cells:
  assumes bl: "holds bl cs" and "cs \<noteq> []"
  shows "gives (DeleteCells pos n fill bl) (cells_delete (pos mod length cs) n fill cs) (bl_IsWrapped bl)"
proof -
  define p where "p = pos mod length cs"
  have len: "bl_Len bl = length cs" "length cs \<noteq> 0" using bl by (simp add: holds_def, simp add: assms(2))
  have p: "p < length cs" using assms(2) by (simp add: p_def)
  define cs1 where "cs1 = take p cs @ drop (p + n) cs @ replicate (min n (length cs - p)) (norm fill)"
  define c where "c = ((if 0 < p then GetWidth (cs1 ! (p - 1)) else 0) = 2)"
  have c: "c \<longleftrightarrow> 0 < p \<and> wide_at cs1 (p - 1)" by (simp add: c_def wide_at_def)
  define cs2 where "cs2 = mend c (p - 1) fill cs1"
  have l1: "length cs1 = length cs" using p by (simp add: cs1_def)
  have l2: "length cs2 = length cs" by (simp add: cs2_def l1)
  have e: "cells_delete p n fill cs
      = mend (GetWidth (cs2 ! p) = 0 \<and> and (cd_Content (cs2 ! p)) ContentHasContentMask = 0) p fill cs2"
    unfolding cells_delete_def cs1_def [symmetric] Let_def c [symmetric] cs2_def [symmetric] ..
  have step1: "gives (if n < length cs - p then do {
                bl \<leftarrow> fold_opt (\<lambda>i. copy_cell (p + i) (p + n + i)) [0..<length cs - p - n] bl;
                fold_opt (\<lambda>i. SetCell i fill) [length cs - n..<length cs] bl }
              else fold_opt (\<lambda>i. SetCell i fill) [p..<length cs] bl) cs1 (bl_IsWrapped bl)"
  proof (cases "n < length cs - p")
    case True
    let ?k = "length cs - p - n"
    have "gives (fold_opt (\<lambda>i. copy_cell (p + i) (p + n + i)) [0..<?k] bl)
        (take p cs @ take ?k (drop (p + n) cs) @ drop (p + ?k) cs) (bl_IsWrapped bl)"
      by (rule gives_shift_left) (use bl True in simp_all)
    moreover have "gives (fold_opt (\<lambda>i. SetCell i fill) [length cs - n..<length cs] b2) cs1 (bl_IsWrapped bl)"
      if "holds b2 (take p cs @ take ?k (drop (p + n) cs) @ drop (p + ?k) cs)" "bl_IsWrapped b2 = bl_IsWrapped bl" for b2
      by (rule gives_cong [OF gives_fill [OF that(1) _ _ that(2)]])
        (use True in \<open>auto simp: cs1_def min_def\<close>)
    ultimately show ?thesis using True by (auto intro: gives_bind)
  next
    case False
    then show ?thesis using gives_fill [OF bl _ _ refl, of "length cs" p fill] p
      by (simp add: cs1_def min_def)
  qed
  have w: "(if 0 < p then line_GetWidth (p - 1) b else Some 0) = Some (if 0 < p then GetWidth (cs1 ! (p - 1)) else 0)"
    if "holds b cs1" for b
    by (rule width_guard [OF that]) (use p l1 in simp)
  have step2: "gives (reset_if c (p - 1) fill b) cs2 (bl_IsWrapped bl)"
    if "holds b cs1" "bl_IsWrapped b = bl_IsWrapped bl" for b
    unfolding cs2_def by (rule gives_reset [OF that(1) _ that(2)]) (use p l1 in simp)
  have step3: "gives (do { w \<leftarrow> line_GetWidth p b; c \<leftarrow> (if w = 0 then line_HasContent p b else Some 1);
      reset_if (w = 0 \<and> c = 0) p fill b }) (cells_delete p n fill cs) (bl_IsWrapped bl)"
    if b: "holds b cs2" "bl_IsWrapped b = bl_IsWrapped bl" for b
    unfolding e using gives_reset [OF b(1) _ b(2), of "GetWidth (cs2 ! p) = 0 \<and> and (cd_Content (cs2 ! p)) ContentHasContentMask = 0" p fill]
      queries_hold(1,2) [OF b(1), of p] p by (cases "GetWidth (cs2 ! p) = 0") (simp_all add: l2)
  show ?thesis
    unfolding DeleteCells_def len(1) if_not_P [OF len(2)] Let_def p_def [symmetric]
    by (rule gives_bind [OF step1], subst w, assumption, unfold bind.bind_lunit c_def [symmetric],
      rule gives_bind [OF step2], assumption+, rule step3)
qed

lemma gives_same: "holds bl cs \<Longrightarrow> bl_IsWrapped bl = w \<Longrightarrow> gives (Some bl) cs w"
  by (simp add: gives_def)

lemma ReplaceCells_cells:
  assumes bl: "holds bl cs" and s: "start \<le> length cs" and e: "0 < end"
  shows "gives (ReplaceCells start end fill False bl) (cells_replace start end fill cs) (bl_IsWrapped bl)"
proof -
  have len: "bl_Len bl = length cs" using bl by (simp add: holds_def)
  define c where "c = ((if 0 < start then GetWidth (cs ! (start - 1)) else 0) = 2)"
  have c: "c \<longleftrightarrow> 0 < start \<and> wide_at cs (start - 1)" by (simp add: c_def wide_at_def)
  define cs1 where "cs1 = mend c (start - 1) fill cs"
  have l1: "length cs1 = length cs" by (simp add: cs1_def)
  define d where "d = ((if end < length cs then GetWidth (cs1 ! (end - 1)) else 0) = 2)"
  have d: "d \<longleftrightarrow> end < length cs1 \<and> wide_at cs1 (end - 1)" by (simp add: d_def wide_at_def l1)
  define cs2 where "cs2 = mend d end fill cs1"
  have l2: "length cs2 = length cs" by (simp add: cs2_def l1)
  define m where "m = max start (min end (length cs))"
  have r: "cells_replace start end fill cs = take start cs2 @ replicate (m - start) (norm fill) @ drop m cs2"
    unfolding cells_replace_def c [symmetric] Let_def cs1_def [symmetric] d [symmetric] cs2_def [symmetric] l2
    by (cases "start \<le> min end (length cs)") (simp_all add: m_def)
  have w1: "(if 0 < start then line_GetWidth (start - 1) bl else Some 0)
      = Some (if 0 < start then GetWidth (cs ! (start - 1)) else 0)"
    by (rule width_guard [OF bl]) (use s in simp)
  have step1: "gives (reset_if c (start - 1) fill bl) cs1 (bl_IsWrapped bl)"
    unfolding cs1_def by (rule gives_reset [OF bl]) (use s c in auto)
  have w2: "(if end < length cs then if end = 0 then None else line_GetWidth (end - 1) b else Some 0)
      = Some (if end < length cs then GetWidth (cs1 ! (end - 1)) else 0)" if "holds b cs1" for b
    using width_guard [OF that, of "end < length cs" "end - 1"] e l1 by (cases "end < length cs") auto
  have step2: "gives (reset_if d end fill b) cs2 (bl_IsWrapped bl)"
    if "holds b cs1" "bl_IsWrapped b = bl_IsWrapped bl" for b
    unfolding cs2_def by (rule gives_reset [OF that(1) _ that(2)]) (use d in simp)
  have step3: "gives (fold_opt (\<lambda>i. SetCell i fill) [start..<min end (length cs)] b)
      (take start cs2 @ replicate (m - start) (norm fill) @ drop m cs2) (bl_IsWrapped bl)"
    if b: "holds b cs2" "bl_IsWrapped b = bl_IsWrapped bl" for b
  proof (cases "start \<le> min end (length cs)")
    case True
    then have "m = min end (length cs)" by (simp add: m_def)
    then show ?thesis using gives_fill [OF b(1) _ True b(2), of fill] l2 by simp
  next
    case False
    then show ?thesis using gives_same [OF b] by (simp add: m_def max_def min_def split: if_splits)
  qed
  have lens: "bl_Len b = length cs" if "holds b ds" "length ds = length cs" for b ds
    using that by (simp add: holds_def)
  show ?thesis
    unfolding ReplaceCells_def if_False w1 bind.bind_lunit c_def [symmetric] r
  proof (rule gives_bind [OF step1])
    fix b assume b: "holds b cs1" "bl_IsWrapped b = bl_IsWrapped bl"
    show "gives (do { w \<leftarrow> (if end < bl_Len b then (if end = 0 then None else line_GetWidth (end - 1) b) else Some 0);
       bl \<leftarrow> reset_if (w = 2) end fill b;
       fold_opt (\<lambda>i. SetCell i fill) [start..<min end (bl_Len bl)] bl })
       (take start cs2 @ replicate (m - start) (norm fill) @ drop m cs2) (bl_IsWrapped bl)"
      unfolding lens [OF b(1) l1] w2 [OF b(1)] bind.bind_lunit d_def [symmetric]
      by (rule gives_bind [OF step2 [OF b]]) (simp add: lens [OF _ l2] step3)
  qed
qed

lemma zero_cell_norm: "norm zeroCell = zeroCell"
  by (simp add: norm_def zeroCell_def)

lemma LoadCell_zero: "slot 0 i bl = Some 0 \<Longrightarrow> slot 1 i bl = Some 0 \<Longrightarrow> slot 2 i bl = Some 0 \<Longrightarrow> LoadCell i zeroCell bl = Some zeroCell"
  by (simp add: LoadCell_def zeroCell_def)

lemma holds_zeros:
  "holds \<lparr>bl_data = replicate (cols * 3) 0, bl_combined = m, bl_extendedAttrs = x, bl_Len = cols, bl_IsWrapped = w\<rparr>
     (replicate cols zeroCell)"
  by (auto simp: holds_def intro!: LoadCell_zero simp: slot_def)

lemma NewBufferLine_cells:
  "gives (NewBufferLine cols fill w)
     (replicate cols (norm (case fill of None \<Rightarrow> CellDataFromCharData NullCharData | Some c \<Rightarrow> c))) w"
  unfolding NewBufferLine_def Let_def
  by (rule gives_cong [OF gives_fill [OF holds_zeros]]) simp_all

lemma Fill_cells:
  assumes "holds bl cs"
  shows "gives (Fill fill False bl) (replicate (length cs) (norm fill)) (bl_IsWrapped bl)"
proof -
  let ?bl = "bl\<lparr>bl_combined := Map.empty, bl_extendedAttrs := Map.empty\<rparr>"
  have len: "bl_Len bl = length cs" using assms by (simp add: holds_def)
  obtain ds where "holds ?bl ds" using holds_exists [of ?bl] assms by (auto simp: holds_def)
  moreover from this have "length ds = length cs" using len by (simp add: holds_def)
  ultimately show ?thesis unfolding Fill_def if_False len
    using gives_fill [of ?bl ds "length cs" 0 _ fill] by simp
qed

lemma SetCell_Len:
  "map_option (bl_Len_update (\<lambda>_. n)) (SetCell i c bl) = SetCell i c (bl_Len_update (\<lambda>_. n) bl)"
  by (simp add: SetCell_def)

lemma fold_SetCell_Len:
  "map_option (bl_Len_update (\<lambda>_. n)) (fold_opt (\<lambda>i. SetCell i c) xs bl)
     = fold_opt (\<lambda>i. SetCell i c) xs (bl_Len_update (\<lambda>_. n) bl)"
proof (induction xs arbitrary: bl)
  case (Cons i xs)
  show ?case
    using Cons.IH SetCell_Len [of n i c bl]
    by (cases "SetCell i c bl") (simp_all add: SetCell_Len [symmetric])
qed simp

lemma Resize_cells:
  assumes "holds bl cs"
  shows "gives (line_Resize cols fill bl) (take cols cs @ replicate (cols - length cs) (norm fill)) (bl_IsWrapped bl)"
proof -
  have len: "bl_Len bl = length cs" "length (bl_data bl) = length cs * 3" using assms by (auto simp: holds_def)
  consider "cols = length cs" | "length cs < cols" | "cols < length cs" by linarith
  then show ?thesis
  proof cases
    case 1
    then show ?thesis using assms by (simp add: line_Resize_def len gives_same)
  next
    case 2
    let ?bl = "bl\<lparr>bl_data := take (cols * 3) (bl_data bl) @ replicate (cols * 3 - length (bl_data bl)) 0, bl_Len := cols\<rparr>"
    have s: "slot k i ?bl = (if i < length cs then slot k i bl else Some 0)" if "i < cols" "k < 3" for i k
      using that 2 by (auto simp: slot_def len nth_append)
    have "LoadCell i zeroCell ?bl = Some ((cs @ replicate (cols - length cs) zeroCell) ! i)" if i: "i < cols" for i
    proof (cases "i < length cs")
      case True
      have "LoadCell i zeroCell ?bl = LoadCell i zeroCell bl"
        using s [OF i, of 0] s [OF i, of 1] s [OF i, of 2] True
        by (cases "slot 0 i bl"; cases "slot 1 i bl"; cases "slot 2 i bl") (simp_all add: LoadCell_def combined_at_def)
      then show ?thesis using assms True by (simp add: holds_def nth_append)
    next
      case False
      then show ?thesis using i by (simp add: nth_append LoadCell_zero s)
    qed
    then have "holds ?bl (cs @ replicate (cols - length cs) zeroCell)"
      using 2 by (simp add: holds_def len)
    from gives_fill [OF this, of cols "length cs" _ fill] 2
    show ?thesis by (simp add: line_Resize_def len fold_SetCell_Len)
  next
    case 3
    let ?bl = "bl\<lparr>bl_data := take (cols * 3) (bl_data bl),
            bl_combined := (\<lambda>k. if cols \<le> k then None else bl_combined bl k),
            bl_extendedAttrs := (\<lambda>k. if cols \<le> k then None else bl_extendedAttrs bl k), bl_Len := cols\<rparr>"
    have "LoadCell i zeroCell ?bl = LoadCell i zeroCell bl" if "i < cols" for i
    proof -
      have "slot k i ?bl = slot k i bl" if "k < 3" for k using that \<open>i < cols\<close> 3 by (simp add: slot_def len)
      from this [of 0] this [of 1] this [of 2] show ?thesis using that
        by (cases "slot 0 i bl"; cases "slot 1 i bl"; cases "slot 2 i bl") (simp_all add: LoadCell_def combined_at_def)
    qed
    then have "holds ?bl (take cols cs)" using assms 3 by (simp add: holds_def len)
    then show ?thesis using 3 by (simp add: line_Resize_def len gives_same)
  qed
qed

section \<open>The refinement\<close>



end
