(* ===== verification/Vt_Charset.thy ===== *)
theory Vt_Charset
  imports Claw_Prelude
begin

text \<open>
  Character sets (\<^verbatim>\<open>src/internal/xterm/charset.go\<close>): the national tables, the designators under which
  an escape sequence selects them, and the service with its four slots and the active one. A nil
  table is \<open>None\<close>, US ASCII.
\<close>

type_synonym Charset = "(byte \<Rightarrow> u32 option) option"

section \<open>Tables\<close>

definition CharsetDECSpecialGraphics :: Charset where
  "CharsetDECSpecialGraphics = Some (map_of
    [(0x60, 0x25c6), (0x61, 0x2592), (0x62, 0x2409), (0x63, 0x240c), (0x64, 0x240d), (0x65, 0x240a), (0x66, 0x00b0),
     (0x67, 0x00b1), (0x68, 0x2424), (0x69, 0x240b), (0x6a, 0x2518), (0x6b, 0x2510), (0x6c, 0x250c), (0x6d, 0x2514),
     (0x6e, 0x253c), (0x6f, 0x23ba), (0x70, 0x23bb), (0x71, 0x2500), (0x72, 0x23bc), (0x73, 0x23bd), (0x74, 0x251c),
     (0x75, 0x2524), (0x76, 0x2534), (0x77, 0x252c), (0x78, 0x2502), (0x79, 0x2264), (0x7a, 0x2265), (0x7b, 0x03c0),
     (0x7c, 0x2260), (0x7d, 0x00a3), (0x7e, 0x00b7)])"

definition CharsetBritish :: Charset where
  "CharsetBritish = Some (map_of
    [(0x23, 0x00a3)])"

definition CharsetDutch :: Charset where
  "CharsetDutch = Some (map_of
    [(0x23, 0x00a3), (0x40, 0x00be), (0x5b, 0x0069), (0x5c, 0x00bd), (0x5d, 0x007c), (0x7b, 0x00a8), (0x7c, 0x0066),
     (0x7d, 0x00bc), (0x7e, 0x00b4)])"

definition CharsetFinnish :: Charset where
  "CharsetFinnish = Some (map_of
    [(0x5b, 0x00c4), (0x5c, 0x00d6), (0x5d, 0x00c5), (0x5e, 0x00dc), (0x60, 0x00e9), (0x7b, 0x00e4), (0x7c, 0x00f6),
     (0x7d, 0x00e5), (0x7e, 0x00fc)])"

definition CharsetFrench :: Charset where
  "CharsetFrench = Some (map_of
    [(0x23, 0x00a3), (0x40, 0x00e0), (0x5b, 0x00b0), (0x5c, 0x00e7), (0x5d, 0x00a7), (0x7b, 0x00e9), (0x7c, 0x00f9),
     (0x7d, 0x00e8), (0x7e, 0x00a8)])"

definition CharsetFrenchCanadian :: Charset where
  "CharsetFrenchCanadian = Some (map_of
    [(0x40, 0x00e0), (0x5b, 0x00e2), (0x5c, 0x00e7), (0x5d, 0x00ea), (0x5e, 0x00ee), (0x60, 0x00f4), (0x7b, 0x00e9),
     (0x7c, 0x00f9), (0x7d, 0x00e8), (0x7e, 0x00fb)])"

definition CharsetGerman :: Charset where
  "CharsetGerman = Some (map_of
    [(0x40, 0x00a7), (0x5b, 0x00c4), (0x5c, 0x00d6), (0x5d, 0x00dc), (0x7b, 0x00e4), (0x7c, 0x00f6), (0x7d, 0x00fc),
     (0x7e, 0x00df)])"

definition CharsetItalian :: Charset where
  "CharsetItalian = Some (map_of
    [(0x23, 0x00a3), (0x40, 0x00a7), (0x5b, 0x00b0), (0x5c, 0x00e7), (0x5d, 0x00e9), (0x60, 0x00f9), (0x7b, 0x00e0),
     (0x7c, 0x00f2), (0x7d, 0x00e8), (0x7e, 0x00ec)])"

definition CharsetNorwegianDanish :: Charset where
  "CharsetNorwegianDanish = Some (map_of
    [(0x40, 0x00c4), (0x5b, 0x00c6), (0x5c, 0x00d8), (0x5d, 0x00c5), (0x5e, 0x00dc), (0x60, 0x00e4), (0x7b, 0x00e6),
     (0x7c, 0x00f8), (0x7d, 0x00e5), (0x7e, 0x00fc)])"

definition CharsetSpanish :: Charset where
  "CharsetSpanish = Some (map_of
    [(0x23, 0x00a3), (0x40, 0x00a7), (0x5b, 0x00a1), (0x5c, 0x00d1), (0x5d, 0x00bf), (0x7b, 0x00b0), (0x7c, 0x00f1),
     (0x7d, 0x00e7)])"

definition CharsetSwedish :: Charset where
  "CharsetSwedish = Some (map_of
    [(0x40, 0x00c9), (0x5b, 0x00c4), (0x5c, 0x00d6), (0x5d, 0x00c5), (0x5e, 0x00dc), (0x60, 0x00e9), (0x7b, 0x00e4),
     (0x7c, 0x00f6), (0x7d, 0x00e5), (0x7e, 0x00fc)])"

definition CharsetSwiss :: Charset where
  "CharsetSwiss = Some (map_of
    [(0x23, 0x00f9), (0x40, 0x00e0), (0x5b, 0x00e9), (0x5c, 0x00e7), (0x5d, 0x00ea), (0x5e, 0x00ee), (0x5f, 0x00e8),
     (0x60, 0x00f4), (0x7b, 0x00e4), (0x7c, 0x00f6), (0x7d, 0x00fc), (0x7e, 0x00fb)])"

text \<open>The literal and the entries its initializer adds.\<close>

definition CHARSETS :: "byte \<Rightarrow> Charset option" where
  "CHARSETS = map_of
    [(0x42, None),
     (0x30, CharsetDECSpecialGraphics), (0x41, CharsetBritish), (0x34, CharsetDutch),
     (0x43, CharsetFinnish), (0x35, CharsetFinnish), (0x52, CharsetFrench),
     (0x51, CharsetFrenchCanadian), (0x4b, CharsetGerman), (0x59, CharsetItalian),
     (0x45, CharsetNorwegianDanish), (0x36, CharsetNorwegianDanish), (0x5a, CharsetSpanish),
     (0x48, CharsetSwedish), (0x37, CharsetSwedish), (0x3d, CharsetSwiss)]"

section \<open>The service\<close>

record CharsetService =
  cs_Charset :: Charset
  cs_GLevel :: int
  cs_charsets :: "Charset list"

definition NewCharsetService :: CharsetService where
  "NewCharsetService = \<lparr>cs_Charset = None, cs_GLevel = 0, cs_charsets = replicate 4 None\<rparr>"

definition cs_SetgLevel :: "int \<Rightarrow> CharsetService \<Rightarrow> CharsetService" where
  "cs_SetgLevel g cs =
    (let cs = cs\<lparr>cs_GLevel := g\<rparr> in
     if 0 \<le> g \<and> g < int (length (cs_charsets cs)) then cs\<lparr>cs_Charset := cs_charsets cs ! nat g\<rparr> else cs)"

definition SetgCharset :: "nat \<Rightarrow> Charset \<Rightarrow> CharsetService \<Rightarrow> CharsetService" where
  "SetgCharset g charset cs =
    (let slots = cs_charsets cs @ replicate (g + 1 - length (cs_charsets cs)) None;
         cs = cs\<lparr>cs_charsets := slots[g := charset]\<rparr> in
     if cs_GLevel cs = int g then cs\<lparr>cs_Charset := charset\<rparr> else cs)"

definition cs_Reset :: "CharsetService \<Rightarrow> CharsetService" where
  "cs_Reset cs = NewCharsetService"

text \<open>How a code is translated when it is printed.\<close>

definition translate :: "Charset \<Rightarrow> u32 \<Rightarrow> u32" where
  "translate charset code =
    (if code < 127 then
       (case charset of None \<Rightarrow> code
        | Some m \<Rightarrow> (case m (ucast code) of None \<Rightarrow> code | Some ch \<Rightarrow> ch))
     else code)"

section \<open>The active set\<close>

text \<open>The service is consistent: four slots, and the active set is the slot of the level.\<close>

definition cs_ok :: "CharsetService \<Rightarrow> bool" where
  "cs_ok cs \<longleftrightarrow> length (cs_charsets cs) = 4 \<and> 0 \<le> cs_GLevel cs \<and> cs_GLevel cs < 4
     \<and> cs_Charset cs = cs_charsets cs ! nat (cs_GLevel cs)"

lemma cs_ok_ops:
  "cs_ok NewCharsetService"
  "cs_ok cs \<Longrightarrow> 0 \<le> g \<Longrightarrow> g < 4 \<Longrightarrow> cs_ok (cs_SetgLevel g cs)"
  "cs_ok cs \<Longrightarrow> n < 4 \<Longrightarrow> cs_ok (SetgCharset n c cs)"
  by (auto simp: cs_ok_def NewCharsetService_def cs_SetgLevel_def SetgCharset_def Let_def nth_list_update)

end
