(* ===== verification/Vt_Buffer.thy ===== *)
theory Vt_Buffer
  imports Vt_Line Vt_Charset Circular_List
begin

text \<open>
  A screen buffer (\<^verbatim>\<open>src/internal/xterm/buffer.go\<close>, \<^verbatim>\<open>marker.go\<close>): the circular list of lines with the
  scroll offset, the cursor, the scroll region, the tab stops, the saved cursor and the markers that
  follow lines as the list moves. A nil line is \<open>None\<close>. A line is a value here: the lines of a list
  are distinct objects as long as no \<^verbatim>\<open>Splice\<close> overflows a full list, and every operation changes a
  line where it stands.

  Positions are unbounded integers and never near the limits of an \<^verbatim>\<open>int\<close>; a row or column handed to
  an operation on lines must not be negative, which would be \<open>None\<close>, a panic. The cell that
  \<^verbatim>\<open>GetNullCell\<close> returns is a shared object whose fields are set on every call; here it is the value.
\<close>

section \<open>State\<close>

record SavedCursorState =
  sv_X :: int
  sv_Y :: int
  sv_CurAttrData :: AttributeData
  sv_Charset :: Charset
  sv_Charsets :: "Charset list"
  sv_GLevel :: int
  sv_OriginMode :: bool
  sv_WraparoundMode :: bool

record Marker =
  mk_id :: nat
  mk_Line :: int

record Buffer =
  b_Lines :: "BufferLine option clist"
  b_YDisp :: int
  b_YBase :: int
  b_Y :: int
  b_X :: int
  b_ScrollTop :: int
  b_ScrollBottom :: int
  b_Tabs :: "int set"
  b_SavedState :: SavedCursorState
  b_Markers :: "Marker list"
  b_cols :: nat
  b_rows :: nat
  b_hasScrollback :: bool
  b_scrollback :: nat
  b_tabStopWidth :: nat
  b_disposed :: "nat list" \<comment> \<open>markers disposed of, whose listeners have still to run\<close>

section \<open>Cells and lines\<close>

definition GetNullCell :: "'a AttributeData_scheme option \<Rightarrow> CellData" where
  "GetNullCell attr =
    (let c = CellDataFromCharData NullCharData in
     case attr of
       Some a \<Rightarrow> c\<lparr>ad_Fg := ad_Fg a, ad_Bg := ad_Bg a, ad_Extended := ad_Extended a\<rparr>
     | None \<Rightarrow> c\<lparr>ad_Fg := 0, ad_Bg := 0, ad_Extended := Some emptyExt\<rparr>)"

definition GetWhitespaceCell :: "'a AttributeData_scheme option \<Rightarrow> CellData" where
  "GetWhitespaceCell attr =
    (let c = CellDataFromCharData WhitespaceCharData in
     case attr of
       Some a \<Rightarrow> c\<lparr>ad_Fg := ad_Fg a, ad_Bg := ad_Bg a, ad_Extended := ad_Extended a\<rparr>
     | None \<Rightarrow> c\<lparr>ad_Fg := 0, ad_Bg := 0, ad_Extended := Some emptyExt\<rparr>)"

definition GetBlankLine :: "'a AttributeData_scheme \<Rightarrow> bool \<Rightarrow> Buffer \<Rightarrow> BufferLine option" where
  "GetBlankLine attr isWrapped b = NewBufferLine (b_cols b) (Some (GetNullCell (Some attr))) isWrapped"

definition HasScrollback :: "Buffer \<Rightarrow> bool" where
  "HasScrollback b \<longleftrightarrow> b_hasScrollback b \<and> b_rows b < cl_maxLen (b_Lines b)"

definition IsCursorInViewport :: "Buffer \<Rightarrow> bool" where
  "IsCursorInViewport b \<longleftrightarrow>
    (let relY = b_YBase b + b_Y b - b_YDisp b in 0 \<le> relY \<and> relY < int (b_rows b))"

definition MaxBufferSize :: nat where
  "MaxBufferSize = 4294967295"

definition getCorrectBufferLength :: "nat \<Rightarrow> Buffer \<Rightarrow> nat" where
  "getCorrectBufferLength rows b =
    (if \<not> b_hasScrollback b then rows
     else if MaxBufferSize < rows + b_scrollback b then MaxBufferSize
     else rows + b_scrollback b)"

section \<open>Tab stops\<close>

text \<open>The loops \<^verbatim>\<open>for x > 0 && !b.Tabs[x] { x-- }\<close> and \<^verbatim>\<open>for x < b.cols && !b.Tabs[x] { x++ }\<close>.\<close>

function prev_tab :: "int set \<Rightarrow> int \<Rightarrow> int" where
  "prev_tab tabs x = (if 0 < x \<and> x \<notin> tabs then prev_tab tabs (x - 1) else x)"
  by pat_completeness auto

termination
  by (relation "measure (\<lambda>(tabs, x). nat x)") auto

function next_tab :: "int set \<Rightarrow> nat \<Rightarrow> int \<Rightarrow> int" where
  "next_tab tabs cols x = (if x < int cols \<and> x \<notin> tabs then next_tab tabs cols (x + 1) else x)"
  by pat_completeness auto

termination
  by (relation "measure (\<lambda>(tabs, cols, x). nat (int cols - x))") auto

declare prev_tab.simps [simp del] next_tab.simps [simp del]

definition clamp_col :: "nat \<Rightarrow> int \<Rightarrow> int" where
  "clamp_col cols x = (if int cols \<le> x then int cols - 1 else if x < 0 then 0 else x)"

definition PrevStop :: "int \<Rightarrow> Buffer \<Rightarrow> int" where
  "PrevStop x b = clamp_col (b_cols b) (prev_tab (b_Tabs b) (x - 1))"

definition NextStop :: "int \<Rightarrow> Buffer \<Rightarrow> int" where
  "NextStop x b = clamp_col (b_cols b) (next_tab (b_Tabs b) (b_cols b) (x + 1))"

text \<open>The stops \<^verbatim>\<open>for i := startCol; i < b.cols; i += b.tabStopWidth\<close>; a width of 0 is refused by \<^verbatim>\<open>NewBuffer\<close>.\<close>

definition tab_range :: "int \<Rightarrow> nat \<Rightarrow> nat \<Rightarrow> int set" where
  "tab_range start cols width = set (filter (\<lambda>i. i < int cols) (map (\<lambda>k. start + int (k * width)) [0..<cols + 1]))"

definition SetupTabStops :: "int \<Rightarrow> Buffer \<Rightarrow> Buffer" where
  "SetupTabStops startCol b =
    (if 0 \<le> startCol then
       let start = (if startCol \<in> b_Tabs b then startCol else PrevStop startCol b) in
       b\<lparr>b_Tabs := b_Tabs b \<union> tab_range start (b_cols b) (b_tabStopWidth b)\<rparr>
     else b\<lparr>b_Tabs := tab_range 0 (b_cols b) (b_tabStopWidth b)\<rparr>)"

section \<open>Markers and the list of lines\<close>

text \<open>What the events of the list do to a marker; \<open>None\<close> when it is disposed of.\<close>

datatype lines_event = TrimEvent int | InsertEvent int int | DeleteEvent int int

fun marker_after :: "lines_event \<Rightarrow> int \<Rightarrow> int option" where
  "marker_after (TrimEvent amount) line = (if line - amount < 0 then None else Some (line - amount))"
| "marker_after (InsertEvent index amount) line = Some (if index \<le> line then line + amount else line)"
| "marker_after (DeleteEvent index amount) line =
    (if index \<le> line \<and> line < index + amount then None
     else Some (if index < line then line - amount else line))"

definition move_marker :: "lines_event \<Rightarrow> Marker \<Rightarrow> Marker list" where
  "move_marker e m = (case marker_after e (mk_Line m) of None \<Rightarrow> [] | Some l \<Rightarrow> [m\<lparr>mk_Line := l\<rparr>])"

definition fire :: "lines_event \<Rightarrow> Buffer \<Rightarrow> Buffer" where
  "fire e b = b\<lparr>b_Markers := concat (map (move_marker e) (b_Markers b)),
     b_disposed := b_disposed b @ map mk_id (filter (\<lambda>m. marker_after e (mk_Line m) = None) (b_Markers b))\<rparr>"

definition fire_trimmed :: "int \<Rightarrow> Buffer \<Rightarrow> Buffer" where
  "fire_trimmed n b = (if n = 0 then b else fire (TrimEvent n) b)"

definition AddMarker :: "nat \<Rightarrow> int \<Rightarrow> Buffer \<Rightarrow> Buffer" where
  "AddMarker i y b = b\<lparr>b_Markers := b_Markers b @ [\<lparr>mk_id = i, mk_Line = y\<rparr>]\<rparr>"

definition ClearMarkers :: "int \<Rightarrow> Buffer \<Rightarrow> Buffer" where
  "ClearMarkers y b = b\<lparr>b_Markers := filter (\<lambda>m. mk_Line m \<noteq> y) (b_Markers b),
     b_disposed := b_disposed b @ map mk_id (filter (\<lambda>m. mk_Line m = y) (b_Markers b))\<rparr>"

definition ClearAllMarkers :: "Buffer \<Rightarrow> Buffer" where
  "ClearAllMarkers b = b\<lparr>b_Markers := [], b_disposed := b_disposed b @ map mk_id (b_Markers b)\<rparr>"

definition lines_Get :: "int \<Rightarrow> Buffer \<Rightarrow> BufferLine option" where
  "lines_Get i b = cl_Get i (b_Lines b)"

definition lines_Set :: "int \<Rightarrow> BufferLine option \<Rightarrow> Buffer \<Rightarrow> Buffer" where
  "lines_Set i v b = b\<lparr>b_Lines := cl_Set i v (b_Lines b)\<rparr>"

text \<open>The list operations with the events they fire.\<close>

definition with_trims :: "BufferLine option clist \<Rightarrow> Buffer \<Rightarrow> Buffer" where
  "with_trims ls b = fire_trimmed (cl_trimmed ls - cl_trimmed (b_Lines b)) (b\<lparr>b_Lines := ls\<rparr>)"

definition lines_Push :: "BufferLine option \<Rightarrow> Buffer \<Rightarrow> Buffer" where
  "lines_Push v b = with_trims (cl_Push v (b_Lines b)) b"

definition lines_Recycle :: "Buffer \<Rightarrow> (BufferLine option \<times> Buffer) option" where
  "lines_Recycle b = (case Recycle (b_Lines b) of None \<Rightarrow> None | Some (l, ls) \<Rightarrow> Some (l, with_trims ls b))"

definition lines_Splice :: "int \<Rightarrow> nat \<Rightarrow> BufferLine option list \<Rightarrow> Buffer \<Rightarrow> Buffer option" where
  "lines_Splice start deleteCount items b =
    (if start < 0 then None
     else let deleted = (if 0 < deleteCount then fire (DeleteEvent start (int deleteCount)) b else b);
              inserted = (if items \<noteq> [] then fire (InsertEvent start (int (length items))) deleted else deleted) in
       Some (with_trims (Splice (nat start) deleteCount items (b_Lines b)) inserted))"

definition lines_TrimStart :: "nat \<Rightarrow> Buffer \<Rightarrow> Buffer" where
  "lines_TrimStart count b = with_trims (TrimStart count (b_Lines b)) b"

definition lines_ShiftElements :: "int \<Rightarrow> int \<Rightarrow> int \<Rightarrow> Buffer \<Rightarrow> Buffer option" where
  "lines_ShiftElements start count off b =
    map_option (\<lambda>ls. with_trims ls b) (ShiftElements start count off (b_Lines b))"

section \<open>The life of a buffer\<close>

definition NewBuffer :: "nat \<Rightarrow> nat \<Rightarrow> nat \<Rightarrow> nat \<Rightarrow> bool \<Rightarrow> Buffer" where
  "NewBuffer cols rows scrollback tabStopWidth hasScrollback =
    (let b = \<lparr>b_Lines = NewCircularList None 0, b_YDisp = 0, b_YBase = 0, b_Y = 0, b_X = 0, b_ScrollTop = 0,
              b_ScrollBottom = int rows - 1, b_Tabs = {},
              b_SavedState = \<lparr>sv_X = 0, sv_Y = 0, sv_CurAttrData = DefaultAttrData, sv_Charset = None,
                sv_Charsets = [], sv_GLevel = 0, sv_OriginMode = False, sv_WraparoundMode = True\<rparr>,
              b_Markers = [], b_cols = cols, b_rows = rows, b_hasScrollback = hasScrollback,
              b_scrollback = scrollback, b_tabStopWidth = (if tabStopWidth = 0 then 8 else tabStopWidth),
              b_disposed = []\<rparr> in
     SetupTabStops (-1) (b\<lparr>b_Lines := NewCircularList None (getCorrectBufferLength rows b)\<rparr>))"

definition FillViewportRows :: "AttributeData option \<Rightarrow> Buffer \<Rightarrow> Buffer option" where
  "FillViewportRows fillAttr b =
    (if cl_length (b_Lines b) \<noteq> 0 then Some b
     else let attr = (case fillAttr of None \<Rightarrow> DefaultAttrData | Some a \<Rightarrow> a) in
       fold_opt (\<lambda>_ b. map_option (\<lambda>l. lines_Push (Some l) b) (GetBlankLine attr False b)) [0..<b_rows b] b)"

definition buffer_Clear :: "Buffer \<Rightarrow> Buffer" where
  "buffer_Clear b = SetupTabStops (-1)
     (b\<lparr>b_YDisp := 0, b_YBase := 0, b_Y := 0, b_X := 0,
        b_Lines := NewCircularList None (getCorrectBufferLength (b_rows b) b),
        b_ScrollTop := 0, b_ScrollBottom := int (b_rows b) - 1\<rparr>)"

definition TranslateBufferLineToString :: "int \<Rightarrow> bool \<Rightarrow> nat \<Rightarrow> nat option \<Rightarrow> Buffer \<Rightarrow> byte list option" where
  "TranslateBufferLineToString lineIndex trimRight startCol endCol b =
    (if lineIndex < 0 \<or> int (cl_length (b_Lines b)) \<le> lineIndex then Some []
     else case lines_Get lineIndex b of None \<Rightarrow> Some []
       | Some line \<Rightarrow> TranslateToString trimRight startCol endCol line)"

text \<open>\<^verbatim>\<open>GetWrappedRangeForLine\<close>; a nil line in the walk is a panic.\<close>

definition wrapped_at :: "int \<Rightarrow> Buffer \<Rightarrow> bool option" where
  "wrapped_at i b = map_option bl_IsWrapped (lines_Get i b)"

fun wrapped_up :: "nat \<Rightarrow> Buffer \<Rightarrow> nat option" where
  "wrapped_up 0 b = Some 0"
| "wrapped_up (Suc y) b =
    (case wrapped_at (int (Suc y)) b of None \<Rightarrow> None | Some w \<Rightarrow> if w then wrapped_up y b else Some (Suc y))"

function wrapped_down :: "nat \<Rightarrow> Buffer \<Rightarrow> nat option" where
  "wrapped_down y b =
    (if y + 1 < cl_length (b_Lines b) then
       (case wrapped_at (int (y + 1)) b of None \<Rightarrow> None | Some w \<Rightarrow> if w then wrapped_down (y + 1) b else Some y)
     else Some y)"
  by pat_completeness auto

termination
  by (relation "measure (\<lambda>(y, b). cl_length (b_Lines b) - y)") auto

declare wrapped_down.simps [simp del]

definition GetWrappedRangeForLine :: "nat \<Rightarrow> Buffer \<Rightarrow> (nat \<times> nat) option" where
  "GetWrappedRangeForLine y b =
    (case (wrapped_up y b, wrapped_down y b) of (Some f, Some l) \<Rightarrow> Some (f, l) | _ \<Rightarrow> None)"

section \<open>What they keep\<close>

text \<open>The stops found are columns of the screen.\<close>

lemma clamp_col_bounds: "0 < cols \<Longrightarrow> 0 \<le> clamp_col cols x \<and> clamp_col cols x < int cols"
  by (simp add: clamp_col_def)

lemma stop_bounds:
  assumes "0 < b_cols b"
  shows "0 \<le> NextStop x b \<and> NextStop x b < int (b_cols b)" "0 \<le> PrevStop x b \<and> PrevStop x b < int (b_cols b)"
  using clamp_col_bounds [OF assms] by (simp_all add: NextStop_def PrevStop_def)

lemma fire_sel [simp]:
  "b_Lines (fire e b) = b_Lines b" "b_YDisp (fire e b) = b_YDisp b" "b_YBase (fire e b) = b_YBase b"
  "b_Y (fire e b) = b_Y b" "b_X (fire e b) = b_X b" "b_ScrollTop (fire e b) = b_ScrollTop b"
  "b_ScrollBottom (fire e b) = b_ScrollBottom b" "b_Tabs (fire e b) = b_Tabs b"
  "b_SavedState (fire e b) = b_SavedState b" "b_cols (fire e b) = b_cols b" "b_rows (fire e b) = b_rows b"
  "b_hasScrollback (fire e b) = b_hasScrollback b" "b_scrollback (fire e b) = b_scrollback b"
  "b_tabStopWidth (fire e b) = b_tabStopWidth b"
  by (simp_all add: fire_def)

lemma with_trims_sel [simp]:
  "b_Lines (with_trims ls b) = ls" "b_YDisp (with_trims ls b) = b_YDisp b" "b_YBase (with_trims ls b) = b_YBase b"
  "b_Y (with_trims ls b) = b_Y b" "b_X (with_trims ls b) = b_X b" "b_ScrollTop (with_trims ls b) = b_ScrollTop b"
  "b_ScrollBottom (with_trims ls b) = b_ScrollBottom b" "b_Tabs (with_trims ls b) = b_Tabs b"
  "b_SavedState (with_trims ls b) = b_SavedState b" "b_cols (with_trims ls b) = b_cols b" "b_rows (with_trims ls b) = b_rows b"
  "b_hasScrollback (with_trims ls b) = b_hasScrollback b" "b_scrollback (with_trims ls b) = b_scrollback b"
  "b_tabStopWidth (with_trims ls b) = b_tabStopWidth b"
  by (simp_all add: with_trims_def fire_trimmed_def)

end
