(* ===== verification/Vt_Screen.thy ===== *)
theory Vt_Screen
  imports Vt_Buffer "HOL-Library.Monad_Syntax"
begin

text \<open>
  The terminal around its two buffers: the buffer set and its service
  (\<^verbatim>\<open>src/internal/xterm/bufferset.go\<close>, \<^verbatim>\<open>bufferservice.go\<close>), the modes (\<^verbatim>\<open>coreservice.go\<close>,
  \<^verbatim>\<open>types.go\<close>), the hyperlinks (\<^verbatim>\<open>osclink.go\<close>) and the parts of the input handler that the handlers share
  (\<^verbatim>\<open>inputhandler.go\<close>), with the handlers of the control characters and of the escape sequences
  (\<^verbatim>\<open>inputhandler_c0.go\<close>, \<^verbatim>\<open>inputhandler_esc.go\<close>).

  Every handler maps a \<open>Term\<close> to a \<open>Term\<close>, \<open>None\<close> being a panic. What it fires on an emitter is
  appended to \<open>t_events\<close>. The size kept by the buffer set and the one kept by its service are one
  field, as they are always set together.
\<close>

section \<open>State\<close>

text \<open>The options the handlers read or write.\<close>

datatype CursorStyle = CursorStyleBlock | CursorStyleUnderline | CursorStyleBar

record Options =
  op_ConvertEol :: bool
  op_ScreenReaderMode :: bool
  op_DisableStdin :: bool
  op_CursorStyle :: CursorStyle
  op_CursorBlink :: bool
  op_Scrollback :: nat
  op_TabStopWidth :: nat

definition DefaultOptions :: Options where
  "DefaultOptions = \<lparr>op_ConvertEol = False, op_ScreenReaderMode = False, op_DisableStdin = False,
     op_CursorStyle = CursorStyleBlock, op_CursorBlink = False, op_Scrollback = 1000, op_TabStopWidth = 8\<rparr>"

record DecPrivateModes =
  dm_ApplicationCursorKeys :: bool
  dm_ApplicationKeypad :: bool
  dm_BracketedPasteMode :: bool
  dm_ColorSchemeUpdates :: bool
  dm_CursorBlink :: "bool option"
  dm_CursorBlinkOverride :: "bool option"
  dm_CursorStyle :: "CursorStyle option"
  dm_MouseEncoding :: string
  dm_MouseTrackingMode :: string
  dm_Origin :: bool
  dm_ReverseWraparound :: bool
  dm_SendFocus :: bool
  dm_SynchronizedOutput :: bool
  dm_Win32InputMode :: bool
  dm_Wraparound :: bool

definition defaultDecPrivateModes :: DecPrivateModes where
  "defaultDecPrivateModes = \<lparr>dm_ApplicationCursorKeys = False, dm_ApplicationKeypad = False, dm_BracketedPasteMode = False,
     dm_ColorSchemeUpdates = False, dm_CursorBlink = None, dm_CursorBlinkOverride = None, dm_CursorStyle = None,
     dm_MouseEncoding = '''', dm_MouseTrackingMode = '''', dm_Origin = False, dm_ReverseWraparound = False,
     dm_SendFocus = False, dm_SynchronizedOutput = False, dm_Win32InputMode = False, dm_Wraparound = True\<rparr>"

record KittyKeyboardState =
  kk_Flags :: int
  kk_MainFlags :: int
  kk_AltFlags :: int
  kk_MainStack :: "int list"
  kk_AltStack :: "int list"

definition defaultKittyKeyboardState :: KittyKeyboardState where
  "defaultKittyKeyboardState = \<lparr>kk_Flags = 0, kk_MainFlags = 0, kk_AltFlags = 0, kk_MainStack = [], kk_AltStack = []\<rparr>"

text \<open>Hyperlinks: an entry knows its markers by their numbers.\<close>

record oscLinkEntry =
  le_key :: "byte list"
  le_URI :: "byte list"
  le_ID :: "byte list"
  le_lines :: "nat list"

record OscLinkService =
  ln_nextID :: nat
  ln_entriesWithID :: "byte list \<Rightarrow> nat option"
  ln_dataByLinkID :: "nat \<Rightarrow> oscLinkEntry option"

definition NewOscLinkService :: OscLinkService where
  "NewOscLinkService = \<lparr>ln_nextID = 1, ln_entriesWithID = Map.empty, ln_dataByLinkID = Map.empty\<rparr>"

type_synonym ColorRGB = "byte \<times> byte \<times> byte"

datatype ColorRequestType = ColorRequestReport | ColorRequestSet | ColorRequestRestore

record ColorEvent =
  ce_Type :: ColorRequestType
  ce_Index :: nat
  ce_Color :: "ColorRGB option"

datatype event_fired = OnData "byte list" | OnBell | OnTitleChange "byte list" | OnLineFeed | OnA11yTab int
  | OnSyncScrollBar | OnRefreshRows int int | OnScroll int | OnColor "ColorEvent list" | OnCursorMove

record Term =
  t_Cols :: nat
  t_Rows :: nat
  t_normal :: Buffer
  t_alt :: Buffer
  t_alt_active :: bool
  t_IsUserScrolling :: bool
  t_cachedBlankLine :: "BufferLine option"
  t_charset :: CharsetService
  t_opts :: Options
  t_IsCursorInitialized :: bool
  t_IsCursorHidden :: bool
  t_InsertMode :: bool
  t_modes :: DecPrivateModes
  t_kitty :: KittyKeyboardState
  t_links :: OscLinkService
  t_nextMarker :: nat
  t_orphans :: "Marker list" \<comment> \<open>markers of buffers that a reset has replaced\<close>
  t_curAttr :: AttributeData
  t_eraseAttr :: AttributeData
  t_dirtyStart :: int
  t_dirtyEnd :: int
  t_windowTitle :: "byte list"
  t_windowTitleStack :: "byte list list"
  t_iconNameStack :: "byte list list"
  t_events :: "event_fired list"

definition happens :: "event_fired \<Rightarrow> Term \<Rightarrow> Term" where
  "happens e t = t\<lparr>t_events := t_events t @ [e]\<rparr>"

text \<open>\<^verbatim>\<open>TriggerDataEvent\<close>; the handlers pass no user input.\<close>

definition TriggerDataEvent :: "byte list \<Rightarrow> Term \<Rightarrow> Term" where
  "TriggerDataEvent data t = (if op_DisableStdin (t_opts t) then t else happens (OnData data) t)"

definition core_Reset :: "Term \<Rightarrow> Term" where
  "core_Reset t = t\<lparr>t_InsertMode := False, t_modes := defaultDecPrivateModes, t_kitty := defaultKittyKeyboardState\<rparr>"

section \<open>Buffers\<close>

definition activeBuffer :: "Term \<Rightarrow> Buffer" where
  "activeBuffer t = (if t_alt_active t then t_alt t else t_normal t)"

definition set_active :: "Buffer \<Rightarrow> Term \<Rightarrow> Term" where
  "set_active b t = (if t_alt_active t then t\<lparr>t_alt := b\<rparr> else t\<lparr>t_normal := b\<rparr>)"

text \<open>\<^verbatim>\<open>removeMarkerFromLink\<close>, the listener of a marker that belongs to a link.\<close>

definition removeMarkerFromLink :: "nat \<Rightarrow> nat \<Rightarrow> OscLinkService \<Rightarrow> OscLinkService" where
  "removeMarkerFromLink link marker s =
    (case ln_dataByLinkID s link of None \<Rightarrow> s
     | Some entry \<Rightarrow>
       if marker \<notin> set (le_lines entry) then s
       else let rest = remove1 marker (le_lines entry) in
         if rest = [] then
           s\<lparr>ln_entriesWithID := (if le_ID entry \<noteq> [] then (ln_entriesWithID s)(le_key entry := None) else ln_entriesWithID s),
             ln_dataByLinkID := (ln_dataByLinkID s)(link := None)\<rparr>
         else s\<lparr>ln_dataByLinkID := (ln_dataByLinkID s)(link \<mapsto> entry\<lparr>le_lines := rest\<rparr>)\<rparr>)"

definition marker_gone :: "nat \<Rightarrow> OscLinkService \<Rightarrow> OscLinkService" where
  "marker_gone marker s = fold (\<lambda>link. removeMarkerFromLink link marker) [0..<ln_nextID s] s"

text \<open>The listeners of the markers that an operation on a buffer has disposed of.\<close>

definition settle :: "Buffer \<Rightarrow> Term \<Rightarrow> Buffer \<times> Term" where
  "settle b t = (b\<lparr>b_disposed := []\<rparr>, t\<lparr>t_links := fold marker_gone (b_disposed b) (t_links t)\<rparr>)"

definition put_buf :: "Buffer \<Rightarrow> Term \<Rightarrow> Term" where
  "put_buf b t = (case settle b t of (b', t') \<Rightarrow> set_active b' t')"

definition on_buf :: "(Buffer \<Rightarrow> Buffer) \<Rightarrow> Term \<Rightarrow> Term" where
  "on_buf f t = put_buf (f (activeBuffer t)) t"

definition try_buf :: "(Buffer \<Rightarrow> Buffer option) \<Rightarrow> Term \<Rightarrow> Term option" where
  "try_buf f t = map_option (\<lambda>b. put_buf b t) (f (activeBuffer t))"

text \<open>A line fetched from the list and changed in place; nothing happens on a nil line.\<close>

definition on_line :: "int \<Rightarrow> (BufferLine \<Rightarrow> BufferLine option) \<Rightarrow> Term \<Rightarrow> Term option" where
  "on_line row f t =
    (case lines_Get row (activeBuffer t) of None \<Rightarrow> Some t
     | Some l \<Rightarrow> map_option (\<lambda>l'. on_buf (lines_Set row (Some l')) t) (f l))"

definition set_wrapped :: "bool \<Rightarrow> BufferLine \<Rightarrow> BufferLine option" where
  "set_wrapped w l = Some (l\<lparr>bl_IsWrapped := w\<rparr>)"

section \<open>The buffer set and its service\<close>

definition set_Reset :: "Term \<Rightarrow> Term option" where
  "set_Reset t = do {
     let fresh = NewBuffer (t_Cols t) (t_Rows t) (op_Scrollback (t_opts t)) (op_TabStopWidth (t_opts t)) True;
     normal \<leftarrow> FillViewportRows None fresh;
     let alt = NewBuffer (t_Cols t) (t_Rows t) 0 (op_TabStopWidth (t_opts t)) False;
     Some (happens (OnScroll (b_YDisp normal))
       (t\<lparr>t_orphans := t_orphans t @ b_Markers (t_normal t) @ b_Markers (t_alt t),
          t_normal := SetupTabStops (-1) normal, t_alt := SetupTabStops (-1) alt, t_alt_active := False\<rparr>)) }"

definition ActivateNormalBuffer :: "Term \<Rightarrow> Term" where
  "ActivateNormalBuffer t =
    (if \<not> t_alt_active t then t
     else let t = t\<lparr>t_normal := (t_normal t)\<lparr>b_X := b_X (t_alt t), b_Y := b_Y (t_alt t)\<rparr>\<rparr>;
              (alt, t) = settle (ClearAllMarkers (t_alt t)) t;
              t = t\<lparr>t_alt := buffer_Clear alt, t_alt_active := False\<rparr> in
       happens (OnScroll (b_YDisp (t_normal t))) t)"

definition ActivateAltBuffer :: "AttributeData \<Rightarrow> Term \<Rightarrow> Term option" where
  "ActivateAltBuffer fillAttr t =
    (if t_alt_active t then Some t
     else do {
       alt \<leftarrow> FillViewportRows (Some fillAttr) (t_alt t);
       let (alt, t) = settle alt t;
       let t = t\<lparr>t_alt := alt\<lparr>b_X := b_X (t_normal t), b_Y := b_Y (t_normal t)\<rparr>, t_alt_active := True\<rparr>;
       Some (happens (OnScroll (b_YDisp (t_alt t))) t) })"

definition service_Reset :: "Term \<Rightarrow> Term option" where
  "service_Reset t = map_option (\<lambda>t. t\<lparr>t_IsUserScrolling := False\<rparr>) (set_Reset t)"

text \<open>The blank line that is kept for reuse while its size and colours fit.\<close>

definition reusable :: "nat \<Rightarrow> AttributeData \<Rightarrow> BufferLine \<Rightarrow> bool option" where
  "reusable cols attr l =
    (if bl_Len l \<noteq> cols then Some False
     else do {
       fg \<leftarrow> line_GetFg 0 l;
       if fg \<noteq> ad_Fg attr then Some False
       else map_option (\<lambda>bg. bg = ad_Bg attr) (line_GetBg 0 l) })"

definition blank_for_scroll :: "AttributeData \<Rightarrow> bool \<Rightarrow> Term \<Rightarrow> BufferLine option" where
  "blank_for_scroll eraseAttr isWrapped t = do {
     reuse \<leftarrow> (case t_cachedBlankLine t of None \<Rightarrow> Some False | Some l \<Rightarrow> reusable (t_Cols t) eraseAttr l);
     l \<leftarrow> (if reuse then t_cachedBlankLine t else GetBlankLine eraseAttr isWrapped (activeBuffer t));
     Some (l\<lparr>bl_IsWrapped := isWrapped\<rparr>) }"

definition scroll_full_width :: "bool \<Rightarrow> BufferLine \<Rightarrow> Buffer \<Rightarrow> Buffer option" where
  "scroll_full_width user newLine b = do {
     let bottomRow = b_YBase b + b_ScrollBottom b;
     let willBufferBeTrimmed = IsFull (b_Lines b);
     b \<leftarrow> (if bottomRow = int (cl_length (b_Lines b)) - 1 then
             (if willBufferBeTrimmed then
                (case lines_Recycle b of
                   Some (Some l, b') \<Rightarrow>
                     Some (lines_Set (int (cl_length (b_Lines b')) - 1) (Some (line_CopyFrom newLine l)) b')
                 | _ \<Rightarrow> None)
              else Some (lines_Push (Some (line_Clone newLine)) b))
           else lines_Splice (bottomRow + 1) 0 [Some (line_Clone newLine)] b);
     Some (if \<not> willBufferBeTrimmed
           then b\<lparr>b_YBase := b_YBase b + 1, b_YDisp := (if user then b_YDisp b else b_YDisp b + 1)\<rparr>
           else if user then b\<lparr>b_YDisp := max (b_YDisp b - 1) 0\<rparr> else b) }"

definition scroll_region :: "BufferLine \<Rightarrow> Buffer \<Rightarrow> Buffer option" where
  "scroll_region newLine b = do {
     let topRow = b_YBase b + b_ScrollTop b;
     let bottomRow = b_YBase b + b_ScrollBottom b;
     b \<leftarrow> lines_ShiftElements (topRow + 1) (bottomRow - topRow + 1 - 1) (-1) b;
     Some (lines_Set bottomRow (Some (line_Clone newLine)) b) }"

definition Scroll :: "AttributeData \<Rightarrow> bool \<Rightarrow> Term \<Rightarrow> Term option" where
  "Scroll eraseAttr isWrapped t = do {
     newLine \<leftarrow> blank_for_scroll eraseAttr isWrapped t;
     let t = t\<lparr>t_cachedBlankLine := Some newLine\<rparr>;
     t \<leftarrow> try_buf (if b_ScrollTop (activeBuffer t) = 0 then scroll_full_width (t_IsUserScrolling t) newLine
                  else scroll_region newLine) t;
     let t = (if t_IsUserScrolling t then t else on_buf (\<lambda>b. b\<lparr>b_YDisp := b_YBase b\<rparr>) t);
     Some (happens (OnScroll (b_YDisp (activeBuffer t))) t) }"

definition ScrollLines :: "int \<Rightarrow> bool \<Rightarrow> Term \<Rightarrow> Term" where
  "ScrollLines disp suppressScrollEvent t =
    (let b = activeBuffer t in
     if disp < 0 \<and> b_YDisp b = 0 then t
     else let t = (if disp < 0 then t\<lparr>t_IsUserScrolling := True\<rparr>
                   else if b_YBase b \<le> disp + b_YDisp b then t\<lparr>t_IsUserScrolling := False\<rparr> else t);
              y = max (min (b_YDisp b + disp) (b_YBase b)) 0;
              t = on_buf (b_YDisp_update (\<lambda>_. y)) t in
       if y = b_YDisp b \<or> suppressScrollEvent then t else happens (OnScroll y) t)"

definition ScrollReset :: "Term \<Rightarrow> Term" where
  "ScrollReset t =
    (let t = on_buf (\<lambda>b. b\<lparr>b_YDisp := b_YBase b\<rparr>) (t\<lparr>t_IsUserScrolling := False\<rparr>) in
     happens (OnScroll (b_YDisp (activeBuffer t))) t)"

section \<open>Hyperlinks\<close>

definition marker_line :: "nat \<Rightarrow> Term \<Rightarrow> int" where
  "marker_line m t =
    (case find (\<lambda>k. mk_id k = m) (b_Markers (t_normal t) @ b_Markers (t_alt t) @ t_orphans t) of
       None \<Rightarrow> -1 | Some k \<Rightarrow> mk_Line k)"

definition new_marker :: "int \<Rightarrow> Term \<Rightarrow> nat \<times> Term" where
  "new_marker y t = (t_nextMarker t, on_buf (AddMarker (t_nextMarker t) y) (t\<lparr>t_nextMarker := t_nextMarker t + 1\<rparr>))"

definition AddLineToLink :: "nat \<Rightarrow> int \<Rightarrow> Term \<Rightarrow> Term" where
  "AddLineToLink linkID y t =
    (case ln_dataByLinkID (t_links t) linkID of None \<Rightarrow> t
     | Some entry \<Rightarrow>
       if \<exists>m \<in> set (le_lines entry). marker_line m t = y then t
       else case new_marker y t of (m, t) \<Rightarrow>
         t\<lparr>t_links := (t_links t)\<lparr>ln_dataByLinkID :=
             (ln_dataByLinkID (t_links t))(linkID \<mapsto> entry\<lparr>le_lines := le_lines entry @ [m]\<rparr>)\<rparr>\<rparr>)"

definition entryIDKey :: "byte list \<Rightarrow> byte list \<Rightarrow> byte list" where
  "entryIDKey ID uri = ID @ [0x3b, 0x3b] @ uri"

definition RegisterLink :: "byte list \<Rightarrow> byte list \<Rightarrow> Term \<Rightarrow> nat \<times> Term" where
  "RegisterLink ID uri t =
    (let y = b_YBase (activeBuffer t) + b_Y (activeBuffer t); key = entryIDKey ID uri in
     case (if ID = [] then None else ln_entriesWithID (t_links t) key) of
       Some i \<Rightarrow> (i, AddLineToLink i y t)
     | None \<Rightarrow>
       (case new_marker y t of (m, t) \<Rightarrow>
          let s = t_links t; i = ln_nextID s;
              entry = \<lparr>le_key = (if ID = [] then [] else key), le_URI = uri, le_ID = ID, le_lines = [m]\<rparr> in
          (i, t\<lparr>t_links := \<lparr>ln_nextID = i + 1,
                 ln_entriesWithID = (if ID = [] then ln_entriesWithID s else (ln_entriesWithID s)(key \<mapsto> i)),
                 ln_dataByLinkID = (ln_dataByLinkID s)(i \<mapsto> entry)\<rparr>\<rparr>)))"

section \<open>What the handlers share\<close>

definition MarkDirty :: "int \<Rightarrow> Term \<Rightarrow> Term" where
  "MarkDirty y t = t\<lparr>t_dirtyStart := min y (t_dirtyStart t), t_dirtyEnd := max y (t_dirtyEnd t)\<rparr>"

definition MarkRangeDirty :: "int \<Rightarrow> int \<Rightarrow> Term \<Rightarrow> Term" where
  "MarkRangeDirty y1 y2 t =
    (let (a, b) = (if y2 < y1 then (y2, y1) else (y1, y2)) in
     t\<lparr>t_dirtyStart := min a (t_dirtyStart t), t_dirtyEnd := max b (t_dirtyEnd t)\<rparr>)"

definition MarkAllDirty :: "Term \<Rightarrow> Term" where
  "MarkAllDirty t = MarkRangeDirty 0 (int (t_Rows t) - 1) t"

definition ClearRange :: "Term \<Rightarrow> Term" where
  "ClearRange t = t\<lparr>t_dirtyStart := 2 ^ 30, t_dirtyEnd := -1\<rparr>"

text \<open>\<^verbatim>\<open>eraseAttrData\<close> updates and returns one object: \<open>erase_ready\<close> updates it.\<close>

definition erase_ready :: "Term \<Rightarrow> Term" where
  "erase_ready t = t\<lparr>t_eraseAttr := (t_eraseAttr t)\<lparr>ad_Bg :=
     or (and (ad_Bg (t_eraseAttr t)) (not (or AttrCMMask 0xFFFFFF))) (and (ad_Bg (t_curAttr t)) (not 0xFC000000))\<rparr>\<rparr>"

definition set_X :: "int \<Rightarrow> Term \<Rightarrow> Term" where
  "set_X x t = on_buf (b_X_update (\<lambda>_. x)) t"

definition set_Y :: "int \<Rightarrow> Term \<Rightarrow> Term" where
  "set_Y y t = on_buf (b_Y_update (\<lambda>_. y)) t"

definition cur_X :: "Term \<Rightarrow> int" where "cur_X t = b_X (activeBuffer t)"
definition cur_Y :: "Term \<Rightarrow> int" where "cur_Y t = b_Y (activeBuffer t)"

definition restrictCursor_to :: "int \<Rightarrow> Term \<Rightarrow> Term" where
  "restrictCursor_to mc t =
    on_buf (\<lambda>b.
      let b = (if b_X b < 0 then b\<lparr>b_X := 0\<rparr> else b);
          b = (if mc < b_X b then b\<lparr>b_X := mc\<rparr> else b) in
      if dm_Origin (t_modes t) then
        let b = (if b_Y b < b_ScrollTop b then b\<lparr>b_Y := b_ScrollTop b\<rparr> else b) in
        if b_ScrollBottom b < b_Y b then b\<lparr>b_Y := b_ScrollBottom b\<rparr> else b
      else
        let b = (if b_Y b < 0 then b\<lparr>b_Y := 0\<rparr> else b) in
        if int (t_Rows t) \<le> b_Y b then b\<lparr>b_Y := int (t_Rows t) - 1\<rparr> else b) t"

definition restrictCursor :: "Term \<Rightarrow> Term" where
  "restrictCursor t = restrictCursor_to (int (t_Cols t) - 1) t"

definition setCursor :: "int \<Rightarrow> int \<Rightarrow> Term \<Rightarrow> Term" where
  "setCursor x y t =
    restrictCursor (on_buf (\<lambda>b. if dm_Origin (t_modes t) then b\<lparr>b_X := x, b_Y := b_ScrollTop b + y\<rparr>
                                else b\<lparr>b_X := x, b_Y := y\<rparr>) t)"

definition getCurrentLinkId :: "Term \<Rightarrow> int" where
  "getCurrentLinkId t = (case ad_Extended (t_curAttr t) of None \<Rightarrow> 0 | Some e \<Rightarrow> ea_urlID e)"

definition input_Reset :: "Term \<Rightarrow> Term" where
  "input_Reset t = t\<lparr>t_curAttr := DefaultAttrData, t_eraseAttr := DefaultAttrData\<rparr>"

text \<open>\<^verbatim>\<open>buf.Y++\<close>, with a scroll at the bottom of the scroll region; what follows on an ordinary row is \<open>f\<close>.\<close>

definition down_or_scroll :: "bool \<Rightarrow> (Term \<Rightarrow> Term option) \<Rightarrow> Term \<Rightarrow> Term option" where
  "down_or_scroll isWrapped f t =
    (let t = set_Y (cur_Y t + 1) t in
     if cur_Y t = b_ScrollBottom (activeBuffer t) + 1 then
       let t = erase_ready (set_Y (cur_Y t - 1) t) in Scroll (t_eraseAttr t) isWrapped t
     else if int (t_Rows t) \<le> cur_Y t then Some (set_Y (int (t_Rows t) - 1) t)
     else f t)"

definition cursor_row :: "Term \<Rightarrow> int" where
  "cursor_row t = b_YBase (activeBuffer t) + b_Y (activeBuffer t)"

section \<open>Control characters\<close>

definition Bell :: "Term \<Rightarrow> Term option" where
  "Bell t = Some (happens OnBell t)"

definition LineFeed :: "Term \<Rightarrow> Term option" where
  "LineFeed t = do {
     let t = MarkDirty (cur_Y t) t;
     let t = (if op_ConvertEol (t_opts t) then set_X 0 t else t);
     t \<leftarrow> down_or_scroll False (\<lambda>t. on_line (cursor_row t) (set_wrapped False) t) t;
     let t = (if int (t_Cols t) \<le> cur_X t then set_X (cur_X t - 1) t else t);
     Some (happens OnLineFeed (MarkDirty (cur_Y t) t)) }"

definition CarriageReturn :: "Term \<Rightarrow> Term option" where
  "CarriageReturn t = Some (set_X 0 t)"

text \<open>The early wrap of a wide character leaves an empty last cell, which is skipped going back.\<close>

definition unwrap_line :: "Term \<Rightarrow> Term option" where
  "unwrap_line t =
    (case lines_Get (cursor_row t) (activeBuffer t) of None \<Rightarrow> Some t
     | Some line \<Rightarrow>
       if \<not> bl_IsWrapped line then Some t
       else do {
         t \<leftarrow> on_line (cursor_row t) (set_wrapped False) t;
         let t = set_X (int (t_Cols t) - 1) (set_Y (cur_Y t - 1) t);
         (case lines_Get (cursor_row t) (activeBuffer t) of None \<Rightarrow> Some t
          | Some prev \<Rightarrow> do {
              w \<leftarrow> line_HasWidth (nat (cur_X t)) prev;
              c \<leftarrow> (if w \<noteq> 0 then line_HasContent (nat (cur_X t)) prev else Some 1);
              Some (if w \<noteq> 0 \<and> c = 0 then set_X (cur_X t - 1) t else t) }) })"

definition Backspace :: "Term \<Rightarrow> Term option" where
  "Backspace t =
    (if \<not> dm_ReverseWraparound (t_modes t) then
       let t = restrictCursor t in Some (if 0 < cur_X t then set_X (cur_X t - 1) t else t)
     else
       let t = restrictCursor_to (int (t_Cols t)) t in
       map_option restrictCursor
         (if 0 < cur_X t then Some (set_X (cur_X t - 1) t)
          else if cur_X t = 0 \<and> b_ScrollTop (activeBuffer t) < cur_Y t \<and> cur_Y t \<le> b_ScrollBottom (activeBuffer t)
          then unwrap_line t else Some t))"

definition Tab :: "Term \<Rightarrow> Term option" where
  "Tab t =
    (if int (t_Cols t) \<le> cur_X t then Some t
     else let originalX = cur_X t; t = set_X (NextStop originalX (activeBuffer t)) t in
       Some (if op_ScreenReaderMode (t_opts t) then happens (OnA11yTab (cur_X t - originalX)) t else t))"

definition SetgLevel :: "int \<Rightarrow> Term \<Rightarrow> Term option" where
  "SetgLevel level t = Some (t\<lparr>t_charset := cs_SetgLevel level (t_charset t)\<rparr>)"

definition ShiftOut :: "Term \<Rightarrow> Term option" where "ShiftOut t = SetgLevel 1 t"
definition ShiftIn :: "Term \<Rightarrow> Term option" where "ShiftIn t = SetgLevel 0 t"

section \<open>Escape sequences\<close>

text \<open>\<^verbatim>\<open>Clone\<close> of attributes creates missing extended attributes in the original, too.\<close>

definition SaveCursor :: "Term \<Rightarrow> Term" where
  "SaveCursor t =
    (let t = t\<lparr>t_curAttr := (t_curAttr t)\<lparr>ad_Extended := Some (extended (t_curAttr t))\<rparr>\<rparr> in
     on_buf (\<lambda>b. b\<lparr>b_SavedState := \<lparr>sv_X = b_X b, sv_Y = b_YBase b + b_Y b, sv_CurAttrData = t_curAttr t,
       sv_Charset = cs_Charset (t_charset t), sv_Charsets = cs_charsets (t_charset t), sv_GLevel = cs_GLevel (t_charset t),
       sv_OriginMode = dm_Origin (t_modes t), sv_WraparoundMode = dm_Wraparound (t_modes t)\<rparr>\<rparr>) t)"

definition RestoreCursor :: "Term \<Rightarrow> Term" where
  "RestoreCursor t =
    (let s = b_SavedState (activeBuffer t);
         t = on_buf (\<lambda>b. b\<lparr>b_X := sv_X s, b_Y := max (sv_Y s - b_YBase b) 0\<rparr>) t;
         charset = fold (\<lambda>(i, c). SetgCharset i c) (enumerate 0 (sv_Charsets s)) (t_charset t) in
     restrictCursor (t\<lparr>t_curAttr := (t_curAttr t)\<lparr>ad_Fg := ad_Fg (sv_CurAttrData s), ad_Bg := ad_Bg (sv_CurAttrData s)\<rparr>,
       t_charset := cs_SetgLevel (sv_GLevel s) charset,
       t_modes := (t_modes t)\<lparr>dm_Origin := sv_OriginMode s, dm_Wraparound := sv_WraparoundMode s\<rparr>\<rparr>))"

definition Index :: "Term \<Rightarrow> Term option" where
  "Index t = map_option restrictCursor (down_or_scroll False Some (restrictCursor t))"

definition ReverseIndex :: "Term \<Rightarrow> Term option" where
  "ReverseIndex t =
    (let t = restrictCursor t; b = activeBuffer t in
     if b_Y b = b_ScrollTop b then do {
       t \<leftarrow> try_buf (lines_ShiftElements (b_YBase b + b_Y b) (b_ScrollBottom b - b_ScrollTop b) 1) t;
       let t = erase_ready t;
       l \<leftarrow> GetBlankLine (t_eraseAttr t) False (activeBuffer t);
       let t = on_buf (lines_Set (cursor_row t) (Some l)) t;
       Some (MarkRangeDirty (b_ScrollTop b) (b_ScrollBottom b) t) }
     else Some (restrictCursor (set_Y (b_Y b - 1) t)))"

definition NextLine :: "Term \<Rightarrow> Term option" where
  "NextLine t = Index (set_X 0 t)"

definition TabSet :: "Term \<Rightarrow> Term option" where
  "TabSet t = Some (on_buf (\<lambda>b. b\<lparr>b_Tabs := insert (b_X b) (b_Tabs b)\<rparr>) t)"

definition keypad :: "bool \<Rightarrow> Term \<Rightarrow> Term" where
  "keypad on t = happens OnSyncScrollBar (t\<lparr>t_modes := (t_modes t)\<lparr>dm_ApplicationKeypad := on\<rparr>\<rparr>)"

definition KeypadApplicationMode :: "Term \<Rightarrow> Term option" where "KeypadApplicationMode t = Some (keypad True t)"
definition KeypadNumericMode :: "Term \<Rightarrow> Term option" where "KeypadNumericMode t = Some (keypad False t)"

text \<open>\<^verbatim>\<open>Terminal.Reset\<close>, which a full reset requests; the parser's own reset is the caller's.\<close>

definition terminal_Reset :: "Term \<Rightarrow> Term option" where
  "terminal_Reset t = do {
     t \<leftarrow> service_Reset (input_Reset t);
     Some (core_Reset (t\<lparr>t_charset := cs_Reset (t_charset t)\<rparr>)) }"

definition glevelMap :: "byte \<Rightarrow> nat option" where
  "glevelMap = [0x28 \<mapsto> 0, 0x29 \<mapsto> 1, 0x2a \<mapsto> 2, 0x2b \<mapsto> 3, 0x2d \<mapsto> 1, 0x2e \<mapsto> 2, 0x2f \<mapsto> 3]"

definition SelectDefaultCharset :: "Term \<Rightarrow> Term" where
  "SelectDefaultCharset t = t\<lparr>t_charset := SetgCharset 0 None (cs_SetgLevel 0 (t_charset t))\<rparr>"

fun SelectCharset :: "byte list \<Rightarrow> Term \<Rightarrow> Term" where
  "SelectCharset [g, flag] t =
    (if g = 0x2f then t
     else case glevelMap g of None \<Rightarrow> t
       | Some n \<Rightarrow> t\<lparr>t_charset := SetgCharset n (case CHARSETS flag of Some c \<Rightarrow> c | None \<Rightarrow> None) (t_charset t)\<rparr>)"
| "SelectCharset _ t = SelectDefaultCharset t"

definition ScreenAlignmentPattern :: "Term \<Rightarrow> Term option" where
  "ScreenAlignmentPattern t = do {
     let cell = \<lparr>ad_Fg = ad_Fg (t_curAttr t), ad_Bg = ad_Bg (t_curAttr t), ad_Extended = None,
                 cd_Content = or (width_bits 1) 0x45, cd_CombinedData = []\<rparr>;
     let t = setCursor 0 0 t;
     let row = cursor_row t;
     t \<leftarrow> fold_opt (\<lambda>y. on_line (row + int y)
            (\<lambda>l. do { l \<leftarrow> Fill cell False l; set_wrapped False l })) [0..<t_Rows t] t;
     Some (setCursor 0 0 (MarkAllDirty t)) }"

end
