(* ===== verification/Vt_Unicode.thy ===== *)
theory Vt_Unicode
  imports Claw_Prelude Go_Json
begin

text \<open>
  Character widths (\<^verbatim>\<open>src/internal/xterm/unicode.go\<close>): the table of the basic plane as its initializer
  fills it, a later store over an earlier one, the binary search in the ranges above it, and the
  properties the print handler packs into one integer. A \<^verbatim>\<open>rune\<close> is an \<open>int\<close>.
\<close>

section \<open>Tables\<close>

definition bmpCombining :: "(int \<times> int) list" where
  "bmpCombining =
   [(0x0300, 0x036F), (0x0483, 0x0486), (0x0488, 0x0489), (0x0591, 0x05BD), (0x05BF, 0x05BF),
    (0x05C1, 0x05C2), (0x05C4, 0x05C5), (0x05C7, 0x05C7), (0x0600, 0x0603), (0x0610, 0x0615),
    (0x064B, 0x065E), (0x0670, 0x0670), (0x06D6, 0x06E4), (0x06E7, 0x06E8), (0x06EA, 0x06ED),
    (0x070F, 0x070F), (0x0711, 0x0711), (0x0730, 0x074A), (0x07A6, 0x07B0), (0x07EB, 0x07F3),
    (0x0901, 0x0902), (0x093C, 0x093C), (0x0941, 0x0948), (0x094D, 0x094D), (0x0951, 0x0954),
    (0x0962, 0x0963), (0x0981, 0x0981), (0x09BC, 0x09BC), (0x09C1, 0x09C4), (0x09CD, 0x09CD),
    (0x09E2, 0x09E3), (0x0A01, 0x0A02), (0x0A3C, 0x0A3C), (0x0A41, 0x0A42), (0x0A47, 0x0A48),
    (0x0A4B, 0x0A4D), (0x0A70, 0x0A71), (0x0A81, 0x0A82), (0x0ABC, 0x0ABC), (0x0AC1, 0x0AC5),
    (0x0AC7, 0x0AC8), (0x0ACD, 0x0ACD), (0x0AE2, 0x0AE3), (0x0B01, 0x0B01), (0x0B3C, 0x0B3C),
    (0x0B3F, 0x0B3F), (0x0B41, 0x0B43), (0x0B4D, 0x0B4D), (0x0B56, 0x0B56), (0x0B82, 0x0B82),
    (0x0BC0, 0x0BC0), (0x0BCD, 0x0BCD), (0x0C3E, 0x0C40), (0x0C46, 0x0C48), (0x0C4A, 0x0C4D),
    (0x0C55, 0x0C56), (0x0CBC, 0x0CBC), (0x0CBF, 0x0CBF), (0x0CC6, 0x0CC6), (0x0CCC, 0x0CCD),
    (0x0CE2, 0x0CE3), (0x0D41, 0x0D43), (0x0D4D, 0x0D4D), (0x0DCA, 0x0DCA), (0x0DD2, 0x0DD4),
    (0x0DD6, 0x0DD6), (0x0E31, 0x0E31), (0x0E34, 0x0E3A), (0x0E47, 0x0E4E), (0x0EB1, 0x0EB1),
    (0x0EB4, 0x0EB9), (0x0EBB, 0x0EBC), (0x0EC8, 0x0ECD), (0x0F18, 0x0F19), (0x0F35, 0x0F35),
    (0x0F37, 0x0F37), (0x0F39, 0x0F39), (0x0F71, 0x0F7E), (0x0F80, 0x0F84), (0x0F86, 0x0F87),
    (0x0F90, 0x0F97), (0x0F99, 0x0FBC), (0x0FC6, 0x0FC6), (0x102D, 0x1030), (0x1032, 0x1032),
    (0x1036, 0x1037), (0x1039, 0x1039), (0x1058, 0x1059), (0x1160, 0x11FF), (0x135F, 0x135F),
    (0x1712, 0x1714), (0x1732, 0x1734), (0x1752, 0x1753), (0x1772, 0x1773), (0x17B4, 0x17B5),
    (0x17B7, 0x17BD), (0x17C6, 0x17C6), (0x17C9, 0x17D3), (0x17DD, 0x17DD), (0x180B, 0x180D),
    (0x18A9, 0x18A9), (0x1920, 0x1922), (0x1927, 0x1928), (0x1932, 0x1932), (0x1939, 0x193B),
    (0x1A17, 0x1A18), (0x1B00, 0x1B03), (0x1B34, 0x1B34), (0x1B36, 0x1B3A), (0x1B3C, 0x1B3C),
    (0x1B42, 0x1B42), (0x1B6B, 0x1B73), (0x1DC0, 0x1DCA), (0x1DFE, 0x1DFF), (0x200B, 0x200F),
    (0x202A, 0x202E), (0x2060, 0x2063), (0x206A, 0x206F), (0x20D0, 0x20EF), (0x302A, 0x302F),
    (0x3099, 0x309A), (0xA806, 0xA806), (0xA80B, 0xA80B), (0xA825, 0xA826), (0xFB1E, 0xFB1E),
    (0xFE00, 0xFE0F), (0xFE20, 0xFE23), (0xFEFF, 0xFEFF), (0xFFF9, 0xFFFB)]"

definition highCombining :: "(int \<times> int) list" where
  "highCombining =
   [(0x10A01, 0x10A03), (0x10A05, 0x10A06), (0x10A0C, 0x10A0F), (0x10A38, 0x10A3A), (0x10A3F, 0x10A3F),
    (0x1D167, 0x1D169), (0x1D173, 0x1D182), (0x1D185, 0x1D18B), (0x1D1AA, 0x1D1AD), (0x1D242, 0x1D244),
    (0xE0001, 0xE0001), (0xE0020, 0xE007F), (0xE0100, 0xE01EF)]"

text \<open>\<^verbatim>\<open>for i := a; i < b; i++ { t[i] = w }\<close>.\<close>

definition store_range :: "int \<times> int \<times> nat \<Rightarrow> (int \<Rightarrow> nat) \<Rightarrow> int \<Rightarrow> nat" where
  "store_range r t = (case r of (a, b, w) \<Rightarrow> (\<lambda>i. if a \<le> i \<and> i < b then w else t i))"

definition bmpRanges :: "(int \<times> int \<times> nat) list" where
  "bmpRanges =
   [(0, 1, 0), (1, 32, 0), (0x7f, 0xa0, 0),
    (0x1100, 0x1160, 2), (0x2329, 0x232a, 2), (0x232a, 0x232b, 2), (0x2e80, 0xa4d0, 2),
    (0x303f, 0x3040, 1),
    (0xac00, 0xd7a4, 2), (0xf900, 0xfb00, 2), (0xfe10, 0xfe1a, 2), (0xfe30, 0xfe70, 2),
    (0xff00, 0xff61, 2), (0xffe0, 0xffe7, 2)]
   @ map (\<lambda>(a, b). (a, b + 1, 0)) bmpCombining"

definition bmpWidthTable :: "int \<Rightarrow> nat" where
  "bmpWidthTable = fold store_range bmpRanges (\<lambda>_. 1)"

section \<open>Widths\<close>

text \<open>The loop of \<^verbatim>\<open>bisearch\<close>; the bounds are valid indices, as \<open>bisearch_bounds\<close> shows.\<close>

function bisearch_loop :: "int \<Rightarrow> (int \<times> int) list \<Rightarrow> int \<Rightarrow> int \<Rightarrow> bool" where
  "bisearch_loop ucs data lo hi =
    (if hi < lo then False
     else let mid = (lo + hi) div 2 in
       if snd (data ! nat mid) < ucs then bisearch_loop ucs data (mid + 1) hi
       else if ucs < fst (data ! nat mid) then bisearch_loop ucs data lo (mid - 1)
       else True)"
  by pat_completeness auto

termination
  by (relation "measure (\<lambda>(ucs, data, lo, hi). nat (hi - lo + 1))") auto

declare bisearch_loop.simps [simp del]

definition bisearch :: "int \<Rightarrow> (int \<times> int) list \<Rightarrow> bool" where
  "bisearch ucs data =
    (if ucs < fst (hd data) \<or> snd (last data) < ucs then False
     else bisearch_loop ucs data 0 (int (length data) - 1))"

definition Wcwidth :: "int \<Rightarrow> nat" where
  "Wcwidth num =
    (if num < 32 then 0
     else if num < 127 then 1
     else if num < 65536 then bmpWidthTable num
     else if bisearch num highCombining then 0
     else if 0x20000 \<le> num \<and> num \<le> 0x2fffd \<or> 0x30000 \<le> num \<and> num \<le> 0x3fffd then 2
     else 1)"

section \<open>Properties of a character\<close>

definition ExtractShouldJoin :: "int \<Rightarrow> bool" where
  "ExtractShouldJoin value \<longleftrightarrow> and value 1 \<noteq> 0"

definition ExtractCharPropsWidth :: "int \<Rightarrow> nat" where
  "ExtractCharPropsWidth value = nat (and (drop_bit 1 value) 3)"

definition CreatePropertyValue :: "int \<Rightarrow> nat \<Rightarrow> bool \<Rightarrow> int" where
  "CreatePropertyValue charKind width shouldJoin =
    or (or (push_bit 3 (and charKind 0xffffff)) (push_bit 1 (and (int width) 3))) (if shouldJoin then 1 else 0)"

definition CharProperties :: "int \<Rightarrow> int \<Rightarrow> int" where
  "CharProperties codepoint preceding =
    (let w = Wcwidth codepoint in
     if w = 0 \<and> preceding \<noteq> 0 \<and> 0 < ExtractCharPropsWidth preceding
     then CreatePropertyValue 0 (ExtractCharPropsWidth preceding) True
     else CreatePropertyValue 0 w False)"

text \<open>An invalid byte counts as one column; U+FFFD itself, three bytes long, has its own width.\<close>

function GetStringCellWidth :: "byte list \<Rightarrow> nat" where
  "GetStringCellWidth [] = 0"
| "GetStringCellWidth (b # bs) =
    (case decode_rune (b # bs) of (r, n) \<Rightarrow>
       if r = 0xFFFD \<and> n \<le> 1 then 1 + GetStringCellWidth bs
       else Wcwidth (int r) + GetStringCellWidth (drop (n - 1) bs))"
  by pat_completeness auto

termination
  by (relation "measure length") (auto dest: decode_rune_progress)

section \<open>What they mean\<close>

text \<open>The ranges are sorted and disjoint, so the search is membership.\<close>

definition ranges_ok :: "(int \<times> int) list \<Rightarrow> bool" where
  "ranges_ok rs \<longleftrightarrow> (\<forall>r \<in> set rs. fst r \<le> snd r) \<and> sorted_wrt (\<lambda>r s. snd r < fst s) rs"

definition in_ranges :: "int \<Rightarrow> (int \<times> int) list \<Rightarrow> bool" where
  "in_ranges ucs rs \<longleftrightarrow> (\<exists>r \<in> set rs. fst r \<le> ucs \<and> ucs \<le> snd r)"

lemma bisearch_loop_in:
  assumes "ranges_ok rs" and "0 \<le> lo" and "hi < int (length rs)"
  shows "bisearch_loop ucs rs lo hi \<longleftrightarrow> (\<exists>i. lo \<le> i \<and> i \<le> hi \<and> fst (rs ! nat i) \<le> ucs \<and> ucs \<le> snd (rs ! nat i))"
  using assms
proof (induction ucs rs lo hi rule: bisearch_loop.induct)
  case (1 ucs rs lo hi)
  show ?case
  proof (cases "hi < lo")
    case True
    then show ?thesis by (auto simp: bisearch_loop.simps [of ucs rs lo hi])
  next
    case False
    define mid where "mid = (lo + hi) div 2"
    define Q where "Q i \<longleftrightarrow> fst (rs ! nat i) \<le> ucs \<and> ucs \<le> snd (rs ! nat i)" for i
    have mid: "lo \<le> mid" "mid \<le> hi" using False by (auto simp: mid_def)
    have below: "snd (rs ! nat i) < fst (rs ! nat j)" if "lo \<le> i" "i < j" "j \<le> hi" for i j
      using 1(3-5) that by (auto simp: ranges_ok_def sorted_wrt_iff_nth_less)
    have pair: "fst (rs ! nat i) \<le> snd (rs ! nat i)" if "lo \<le> i" "i \<le> hi" for i
      using 1(3-5) that by (auto simp: ranges_ok_def)
    have lower: "\<not> Q i" if "lo \<le> i" "i \<le> mid" "snd (rs ! nat mid) < ucs" for i
      using that mid below [of i mid] pair [of mid] by (cases "i = mid") (auto simp: Q_def)
    have upper: "\<not> Q i" if "mid \<le> i" "i \<le> hi" "ucs < fst (rs ! nat mid)" for i
      using that mid below [of mid i] pair [of mid] by (cases "i = mid") (auto simp: Q_def)
    note unfold = bisearch_loop.simps [of ucs rs lo hi, folded mid_def, unfolded Let_def]
    consider (low) "snd (rs ! nat mid) < ucs" | (high) "\<not> snd (rs ! nat mid) < ucs" "ucs < fst (rs ! nat mid)"
      | (found) "Q mid" unfolding Q_def by linarith
    then have "bisearch_loop ucs rs lo hi \<longleftrightarrow> (\<exists>i. lo \<le> i \<and> i \<le> hi \<and> Q i)"
    proof cases
      case low
      have "bisearch_loop ucs rs (mid + 1) hi \<longleftrightarrow> (\<exists>i. mid + 1 \<le> i \<and> i \<le> hi \<and> Q i)"
        unfolding Q_def by (rule "1.IH"(1)) (use False low mid "1.prems" in \<open>auto simp: mid_def\<close>)
      moreover have "mid + 1 \<le> i" if "lo \<le> i" "Q i" for i using lower [OF that(1)] that(2) low by force
      moreover have "lo \<le> i" if "mid + 1 \<le> i" for i using that mid by linarith
      ultimately show ?thesis using False low unfold by (simp only: if_False if_True) blast
    next
      case high
      have "bisearch_loop ucs rs lo (mid - 1) \<longleftrightarrow> (\<exists>i. lo \<le> i \<and> i \<le> mid - 1 \<and> Q i)"
        unfolding Q_def by (rule "1.IH"(2)) (use False high mid "1.prems" in \<open>auto simp: mid_def\<close>)
      moreover have "i \<le> mid - 1" if "i \<le> hi" "Q i" for i using upper [OF _ that(1)] that(2) high by force
      moreover have "i \<le> hi" if "i \<le> mid - 1" for i using that mid by linarith
      ultimately show ?thesis using False high unfold by (simp only: if_False if_True) blast
    next
      case found
      then show ?thesis using False mid unfold by (auto simp: Q_def)
    qed
    then show ?thesis by (simp only: Q_def)
  qed
qed

lemma bisearch_in:
  assumes "ranges_ok rs" and "rs \<noteq> []"
  shows "bisearch ucs rs \<longleftrightarrow> in_ranges ucs rs"
proof -
  have loop: "bisearch_loop ucs rs 0 (int (length rs) - 1) \<longleftrightarrow> in_ranges ucs rs"
  proof -
    have "(\<exists>i. 0 \<le> i \<and> i \<le> int (length rs) - 1 \<and> fst (rs ! nat i) \<le> ucs \<and> ucs \<le> snd (rs ! nat i))
        \<longleftrightarrow> (\<exists>k < length rs. fst (rs ! k) \<le> ucs \<and> ucs \<le> snd (rs ! k))" (is "?L \<longleftrightarrow> ?R")
    proof
      assume ?L
      then obtain i where "0 \<le> i" "i \<le> int (length rs) - 1" "fst (rs ! nat i) \<le> ucs \<and> ucs \<le> snd (rs ! nat i)" by blast
      then show ?R by (intro exI [of _ "nat i"]) auto
    next
      assume ?R
      then obtain k where "k < length rs" "fst (rs ! k) \<le> ucs \<and> ucs \<le> snd (rs ! k)" by blast
      then show ?L by (intro exI [of _ "int k"]) auto
    qed
    moreover have "in_ranges ucs rs \<longleftrightarrow> (\<exists>k < length rs. fst (rs ! k) \<le> ucs \<and> ucs \<le> snd (rs ! k))"
      unfolding in_ranges_def by (metis in_set_conv_nth)
    ultimately show ?thesis using bisearch_loop_in [OF assms(1), of 0 "int (length rs) - 1" ucs] by simp
  qed
  have order: "snd (rs ! i) \<le> snd (last rs)" "fst (hd rs) \<le> fst (rs ! i)" if "i < length rs" for i
  proof -
    have p: "fst (rs ! j) \<le> snd (rs ! j)" if "j < length rs" for j using assms(1) that by (simp add: ranges_ok_def)
    have s: "snd (rs ! j) < fst (rs ! k)" if "j < k" "k < length rs" for j k
      using assms(1) that by (simp add: ranges_ok_def sorted_wrt_iff_nth_less)
    show "snd (rs ! i) \<le> snd (last rs)"
    proof (cases "i < length rs - 1")
      case True
      then show ?thesis using s [of i "length rs - 1"] p [of "length rs - 1"] that assms(2) by (simp add: last_conv_nth)
    next
      case False
      then have "i = length rs - 1" using that by linarith
      then show ?thesis using assms(2) by (simp add: last_conv_nth)
    qed
    show "fst (hd rs) \<le> fst (rs ! i)"
      using s [of 0 i] p [of 0] that assms(2) by (cases "i = 0") (auto simp: hd_conv_nth)
  qed
  have "\<not> in_ranges ucs rs" if "ucs < fst (hd rs) \<or> snd (last rs) < ucs"
    using that order by (fastforce simp: in_ranges_def in_set_conv_nth)
  with loop show ?thesis by (auto simp: bisearch_def)
qed

lemma highCombining_ok: "ranges_ok highCombining" "highCombining \<noteq> []"
  by (simp_all add: ranges_ok_def highCombining_def)

lemma store_combining:
  "fold store_range (map (\<lambda>(a, b). (a, b + 1, 0)) rs) t i = (if in_ranges i rs then 0 else t i)"
  by (induction rs arbitrary: t) (auto simp: store_range_def in_ranges_def)

text \<open>The ranges of double width, of which U+303F is none.\<close>

definition wideRanges :: "(int \<times> int) list" where
  "wideRanges = [(0x1100, 0x115f), (0x2329, 0x232a), (0x2e80, 0x303e), (0x3040, 0xa4cf), (0xac00, 0xd7a3), (0xf900, 0xfaff),
     (0xfe10, 0xfe19), (0xfe30, 0xfe6f), (0xff00, 0xff60), (0xffe0, 0xffe6), (0x20000, 0x2fffd), (0x30000, 0x3fffd)]"

lemma bmp_width:
  "bmpWidthTable i = (if i \<in> {0..<32} \<union> {0x7f..<0xa0} \<or> in_ranges i bmpCombining then 0
     else if in_ranges i (take 10 wideRanges) then 2 else 1)"
  by (auto simp: bmpWidthTable_def bmpRanges_def store_combining store_range_def in_ranges_def wideRanges_def)

lemma combining_planes: "in_ranges i bmpCombining \<Longrightarrow> 0x300 \<le> i \<and> i < 65536" "in_ranges i highCombining \<Longrightarrow> 65536 \<le> i"
  by (auto simp: in_ranges_def bmpCombining_def highCombining_def)

lemma Wcwidth_class:
  "Wcwidth i = (if i < 32 \<or> 0x7f \<le> i \<and> i < 0xa0 \<or> in_ranges i (bmpCombining @ highCombining) then 0
     else if in_ranges i wideRanges then 2 else 1)"
proof -
  have split: "in_ranges i (xs @ ys) \<longleftrightarrow> in_ranges i xs \<or> in_ranges i ys" for xs ys by (auto simp: in_ranges_def)
  have wide: "in_ranges i wideRanges \<longleftrightarrow> in_ranges i (take 10 wideRanges) \<or> in_ranges i (drop 10 wideRanges)"
    using split [of "take 10 wideRanges" "drop 10 wideRanges"] by simp
  have low: "\<not> in_ranges i (take 10 wideRanges)" if "65536 \<le> i \<or> i < 127"
    using that by (auto simp: in_ranges_def wideRanges_def)
  have high: "in_ranges i (drop 10 wideRanges) \<longleftrightarrow> 0x20000 \<le> i \<and> i \<le> 0x2fffd \<or> 0x30000 \<le> i \<and> i \<le> 0x3fffd"
    by (auto simp: in_ranges_def wideRanges_def)
  have high_planes: "in_ranges i (drop 10 wideRanges) \<Longrightarrow> 65536 \<le> i" by (auto simp: high)
  consider "i < 32" | "32 \<le> i" "i < 127" | "127 \<le> i" "i < 65536" | "65536 \<le> i" by linarith
  then show ?thesis
  proof cases
    case 1
    then show ?thesis by (simp add: Wcwidth_def)
  next
    case 2
    then have "\<not> in_ranges i bmpCombining" "\<not> in_ranges i highCombining" "\<not> in_ranges i wideRanges"
      using combining_planes [of i] low high_planes wide by auto
    with 2 show ?thesis by (simp add: Wcwidth_def split)
  next
    case 3
    then have "\<not> in_ranges i highCombining" "in_ranges i wideRanges = in_ranges i (take 10 wideRanges)"
      using combining_planes(2) [of i] high_planes wide by auto
    with 3 show ?thesis by (simp add: Wcwidth_def split bmp_width)
  next
    case 4
    then have "\<not> in_ranges i bmpCombining" "in_ranges i wideRanges = in_ranges i (drop 10 wideRanges)"
      using combining_planes(1) [of i] low wide by auto
    with 4 show ?thesis by (simp add: Wcwidth_def split bisearch_in [OF highCombining_ok] high)
  qed
qed

lemma Wcwidth_le: "Wcwidth i \<le> 2"
  by (simp add: Wcwidth_class)

lemma property_fields:
  assumes "w < 4"
  shows "ExtractCharPropsWidth (CreatePropertyValue 0 w j) = w" "ExtractShouldJoin (CreatePropertyValue 0 w j) = j"
    and "CreatePropertyValue 0 w j = 0 \<longleftrightarrow> w = 0 \<and> \<not> j"
proof -
  have "w = 0 \<or> w = 1 \<or> w = 2 \<or> w = 3" using assms by auto
  then show "ExtractCharPropsWidth (CreatePropertyValue 0 w j) = w" "ExtractShouldJoin (CreatePropertyValue 0 w j) = j"
    "CreatePropertyValue 0 w j = 0 \<longleftrightarrow> w = 0 \<and> \<not> j"
    by (auto simp: ExtractCharPropsWidth_def CreatePropertyValue_def ExtractShouldJoin_def)
qed

text \<open>
  C35: The width of a character is its class: 0 for control characters and the combining ranges, 2 for
  the East Asian ranges, 1 for everything else. The table filled by overlapping stores and the binary
  search in the sorted ranges above the basic plane compute exactly this, for every integer.
\<close>

theorem width_by_class:
  "Wcwidth i = (if i < 32 \<or> 0x7f \<le> i \<and> i < 0xa0 \<or> in_ranges i (bmpCombining @ highCombining) then 0
     else if in_ranges i wideRanges then 2 else 1)"
  by (rule Wcwidth_class)

lemma CharProperties_fields:
  "ExtractShouldJoin (CharProperties c p) \<longleftrightarrow> Wcwidth c = 0 \<and> p \<noteq> 0 \<and> 0 < ExtractCharPropsWidth p"
  "ExtractCharPropsWidth (CharProperties c p)
     = (if ExtractShouldJoin (CharProperties c p) then ExtractCharPropsWidth p else Wcwidth c)"
proof -
  have p: "ExtractCharPropsWidth p < 4"
    using AND_upper2 [of 3 "drop_bit 1 p"] by (simp add: ExtractCharPropsWidth_def nat_less_iff)
  have w: "Wcwidth c < 4" using Wcwidth_le [of c] by simp
  show "ExtractShouldJoin (CharProperties c p) \<longleftrightarrow> Wcwidth c = 0 \<and> p \<noteq> 0 \<and> 0 < ExtractCharPropsWidth p"
    "ExtractCharPropsWidth (CharProperties c p)
     = (if ExtractShouldJoin (CharProperties c p) then ExtractCharPropsWidth p else Wcwidth c)"
    by (auto simp: CharProperties_def Let_def property_fields [OF p] property_fields [OF w])
qed

end
