(* ===== verification/Vt_Handlers.thy ===== *)
theory Vt_Handlers
  imports Vt_Screen Vt_Unicode Vt_Sgr
begin

text \<open>
  Printing and the control sequences (\<^verbatim>\<open>src/internal/xterm/inputhandler.go\<close>, \<^verbatim>\<open>inputhandler_csi.go\<close>): each
  handler of a control sequence takes the parameters and maps the terminal to the terminal, \<open>None\<close>
  being a panic. All of them return \<^verbatim>\<open>true\<close>.
\<close>

section \<open>Parameters\<close>

definition param :: "nat \<Rightarrow> Params \<Rightarrow> int option" where
  "param i p = (if i < length (pa_Params p) then Some (sint (pa_Params p ! i)) else None)"

text \<open>\<^verbatim>\<open>max(int(params.Params[0]), 1)\<close>.\<close>

definition param1 :: "Params \<Rightarrow> int option" where
  "param1 p = map_option (\<lambda>v. max v 1) (param 0 p)"

text \<open>A column for the operations on lines.\<close>

definition at_col :: "int \<Rightarrow> (nat \<Rightarrow> 'a option) \<Rightarrow> 'a option" where
  "at_col x f = (if x < 0 then None else f (nat x))"

section \<open>Printing\<close>

text \<open>The second cell of a wide character that would be overwritten leaves the first one empty.\<close>

definition cut_wide_before :: "Term \<Rightarrow> Term option" where
  "cut_wide_before t =
    on_line (cursor_row t) (\<lambda>l.
      if 0 < cur_X t then do {
        w \<leftarrow> line_GetWidth (nat (cur_X t - 1)) l;
        if w = 2 then SetCellFromCodepoint (nat (cur_X t - 1)) 0 1 (t_curAttr t) l else Some l }
      else Some l) t"

definition cut_wide_after :: "Term \<Rightarrow> Term option" where
  "cut_wide_after t =
    on_line (cursor_row t) (\<lambda>l.
      if cur_X t < int (t_Cols t) then at_col (cur_X t) (\<lambda>x. do {
        w \<leftarrow> line_GetWidth x l;
        c \<leftarrow> (if w = 0 then line_HasContent x l else Some 1);
        if w = 0 \<and> c = 0 then SetCellFromCodepoint x 0 1 (t_curAttr t) l else Some l })
      else Some l) t"

text \<open>Wrapping to the next row when a character does not fit; \<open>None\<close> inside: the character is skipped.\<close>

definition wrap_row :: "Term \<Rightarrow> Term option" where
  "wrap_row t =
    (let t = set_Y (cur_Y t + 1) (set_X 0 t) in
     if cur_Y t = b_ScrollBottom (activeBuffer t) + 1 then
       let t = erase_ready (set_Y (cur_Y t - 1) t) in Scroll (t_eraseAttr t) True t
     else
       let t = (if int (t_Rows t) \<le> cur_Y t then set_Y (int (t_Rows t) - 1) t else t) in
       on_line (cursor_row t) (set_wrapped True) t)"

text \<open>A joining character goes to the last cell written, two back over the empty half of a wide one.\<close>

definition join_char :: "u32 \<Rightarrow> nat \<Rightarrow> Term \<Rightarrow> Term option" where
  "join_char code chWidth t =
    on_line (cursor_row t) (\<lambda>l. do {
      w \<leftarrow> at_col (cur_X t - 1) (\<lambda>x. line_GetWidth x l);
      at_col (cur_X t - (if w = 0 then 2 else 1)) (\<lambda>x. AddCodepointToCell x code chWidth l) }) t"

definition shift_row :: "int \<Rightarrow> Term \<Rightarrow> Term option" where
  "shift_row n t =
    on_line (cursor_row t) (\<lambda>l. do {
      l \<leftarrow> at_col (cur_X t) (\<lambda>x. InsertCells x (nat n) (GetNullCell (Some (t_curAttr t))) l);
      w \<leftarrow> at_col (int (t_Cols t) - 1) (\<lambda>x. line_GetWidth x l);
      if w = 2 then SetCellFromCodepoint (t_Cols t - 1) 0 1 (t_curAttr t) l else Some l }) t"

definition put_cell :: "u32 \<Rightarrow> nat \<Rightarrow> Term \<Rightarrow> Term option" where
  "put_cell code width t = do {
     t \<leftarrow> on_line (cursor_row t) (\<lambda>l. at_col (cur_X t) (\<lambda>x. SetCellFromCodepoint x code width (t_curAttr t) l)) t;
     Some (set_X (cur_X t + 1) t) }"

definition put_char :: "u32 \<Rightarrow> nat \<Rightarrow> Term \<Rightarrow> Term option" where
  "put_char code chWidth t = do {
     t \<leftarrow> put_cell code chWidth t;
     fold_opt (\<lambda>_. put_cell 0 0) [1..<chWidth] t }"

text \<open>
  One character, with the state for joining before and after. The row is fetched again after a wrap;
  a nil row ends the printing at once, which is \<open>False\<close>.
\<close>

definition print_char :: "Charset \<Rightarrow> u32 \<Rightarrow> int \<times> Term \<Rightarrow> (bool \<times> int \<times> Term) option" where
  "print_char charset code s =
    (case s of (joinState, t) \<Rightarrow>
     if code = 0xAD then Some (True, joinState, t)
     else do {
       let code = translate charset code;
       let info = CharProperties (sint code) joinState;
       let chWidth = ExtractCharPropsWidth info;
       let shouldJoin = ExtractShouldJoin info;
       let oldWidth = (if shouldJoin then ExtractCharPropsWidth joinState else 0);
       let t = (if getCurrentLinkId t \<noteq> 0 then AddLineToLink (nat (getCurrentLinkId t)) (cursor_row t) t else t);
       let overflow = int (t_Cols t) < cur_X t + int chWidth - int oldWidth;
       let wrap = dm_Wraparound (t_modes t);
       if overflow \<and> \<not> wrap \<and> chWidth = 2 then Some (True, info, set_X (int (t_Cols t) - 1) t)
       else do {
         t \<leftarrow> (if overflow then if wrap then wrap_row t else Some (set_X (int (t_Cols t) - 1) t) else Some t);
         if overflow \<and> wrap \<and> lines_Get (cursor_row t) (activeBuffer t) = None then Some (False, info, t)
         else if shouldJoin \<and> 0 < cur_X t then map_option (\<lambda>t. (True, info, t)) (join_char code chWidth t)
         else do {
           t \<leftarrow> (if t_InsertMode t then shift_row (int chWidth - int oldWidth) t else Some t);
           map_option (\<lambda>t. (True, info, t)) (put_char code chWidth t) } } })"

text \<open>The loop over the codes, which stops early at a nil row.\<close>

fun print_loop :: "Charset \<Rightarrow> u32 list \<Rightarrow> int \<times> Term \<Rightarrow> (bool \<times> int \<times> Term) option" where
  "print_loop charset [] s = Some (True, s)"
| "print_loop charset (code # codes) s =
    (case print_char charset code s of None \<Rightarrow> None
     | Some (True, s') \<Rightarrow> print_loop charset codes s'
     | Some (False, s') \<Rightarrow> Some (False, s'))"

definition Print :: "u32 list \<Rightarrow> int \<times> Term \<Rightarrow> (int \<times> Term) option" where
  "Print data s =
    (case s of (joinState, t) \<Rightarrow>
     if lines_Get (cursor_row t) (activeBuffer t) = None then Some s
     else do {
       let charset = cs_Charset (t_charset t);
       let t = MarkDirty (cur_Y t) t;
       t \<leftarrow> (if data \<noteq> [] then cut_wide_before t else Some t);
       r \<leftarrow> print_loop charset data (joinState, t);
       (case r of
          (False, s') \<Rightarrow> Some s'
        | (True, joinState, t) \<Rightarrow> do {
            t \<leftarrow> (if data \<noteq> [] then cut_wide_after t else Some t);
            Some (joinState, MarkDirty (cur_Y t) t) }) })"

section \<open>Cursor movement\<close>

definition moveCursor :: "int \<Rightarrow> int \<Rightarrow> Term \<Rightarrow> Term" where
  "moveCursor x y t = (let t = restrictCursor t in setCursor (cur_X t + x) (cur_Y t + y) t)"

definition cursorUp :: "Params \<Rightarrow> Term \<Rightarrow> Term option" where
  "cursorUp p t = do {
     let diffToTop = cur_Y t - b_ScrollTop (activeBuffer t);
     n \<leftarrow> param1 p;
     Some (if 0 \<le> diffToTop then moveCursor 0 (- min diffToTop n) t else moveCursor 0 (- n) t) }"

definition cursorDown :: "Params \<Rightarrow> Term \<Rightarrow> Term option" where
  "cursorDown p t = do {
     let diffToBottom = b_ScrollBottom (activeBuffer t) - cur_Y t;
     n \<leftarrow> param1 p;
     Some (if 0 \<le> diffToBottom then moveCursor 0 (min diffToBottom n) t else moveCursor 0 n t) }"

definition cursorForward :: "Params \<Rightarrow> Term \<Rightarrow> Term option" where
  "cursorForward p t = map_option (\<lambda>n. moveCursor n 0 t) (param1 p)"

definition cursorBackward :: "Params \<Rightarrow> Term \<Rightarrow> Term option" where
  "cursorBackward p t = map_option (\<lambda>n. moveCursor (- n) 0 t) (param1 p)"

definition cursorNextLine :: "Params \<Rightarrow> Term \<Rightarrow> Term option" where
  "cursorNextLine p t = map_option (set_X 0) (cursorDown p t)"

definition cursorPrecedingLine :: "Params \<Rightarrow> Term \<Rightarrow> Term option" where
  "cursorPrecedingLine p t = map_option (set_X 0) (cursorUp p t)"

definition cursorCharAbsolute :: "Params \<Rightarrow> Term \<Rightarrow> Term option" where
  "cursorCharAbsolute p t = map_option (\<lambda>n. setCursor (n - 1) (cur_Y t) t) (param1 p)"

definition cursorPosition :: "Params \<Rightarrow> Term \<Rightarrow> Term option" where
  "cursorPosition p t = do {
     col \<leftarrow> (if 2 \<le> pa_Length p then map_option (\<lambda>v. max v 1 - 1) (param 1 p) else Some 0);
     row \<leftarrow> param1 p;
     Some (setCursor col (row - 1) t) }"

definition charPosAbsolute :: "Params \<Rightarrow> Term \<Rightarrow> Term option" where
  "charPosAbsolute p t = map_option (\<lambda>n. setCursor (n - 1) (cur_Y t) t) (param1 p)"

definition hPositionRelative :: "Params \<Rightarrow> Term \<Rightarrow> Term option" where
  "hPositionRelative p t = map_option (\<lambda>n. moveCursor n 0 t) (param1 p)"

definition linePosAbsolute :: "Params \<Rightarrow> Term \<Rightarrow> Term option" where
  "linePosAbsolute p t = map_option (\<lambda>n. setCursor (cur_X t) (n - 1) t) (param1 p)"

definition vPositionRelative :: "Params \<Rightarrow> Term \<Rightarrow> Term option" where
  "vPositionRelative p t = map_option (\<lambda>n. moveCursor 0 n t) (param1 p)"

definition hVPosition :: "Params \<Rightarrow> Term \<Rightarrow> Term option" where
  "hVPosition p t = cursorPosition p t"

definition tab_steps :: "(int \<Rightarrow> Buffer \<Rightarrow> int) \<Rightarrow> Params \<Rightarrow> Term \<Rightarrow> Term option" where
  "tab_steps stop p t =
    (if int (t_Cols t) \<le> cur_X t then Some t
     else map_option (\<lambda>n. ((\<lambda>t. set_X (stop (cur_X t) (activeBuffer t)) t) ^^ nat n) t) (param1 p))"

definition cursorForwardTab :: "Params \<Rightarrow> Term \<Rightarrow> Term option" where
  "cursorForwardTab p t = tab_steps NextStop p t"

definition cursorBackwardTab :: "Params \<Rightarrow> Term \<Rightarrow> Term option" where
  "cursorBackwardTab p t = tab_steps PrevStop p t"

definition tabClear :: "Params \<Rightarrow> Term \<Rightarrow> Term option" where
  "tabClear p t = map_option (\<lambda>v.
     if v = 0 then on_buf (\<lambda>b. b\<lparr>b_Tabs := b_Tabs b - {b_X b}\<rparr>) t
     else if v = 3 then on_buf (\<lambda>b. b\<lparr>b_Tabs := {}\<rparr>) t
     else t) (param 0 p)"

section \<open>Erasing\<close>

definition eraseInBufferLine :: "int \<Rightarrow> int \<Rightarrow> int \<Rightarrow> bool \<Rightarrow> bool \<Rightarrow> Term \<Rightarrow> Term option" where
  "eraseInBufferLine y start end clearWrap respectProtect t =
    (let row = b_YBase (activeBuffer t) + y in
     if lines_Get row (activeBuffer t) = None then Some t
     else let t = erase_ready t in
       on_line row (\<lambda>l. do {
         l \<leftarrow> at_col start (\<lambda>x. ReplaceCells x (nat end) (GetNullCell (Some (t_eraseAttr t))) respectProtect l);
         if clearWrap then set_wrapped False l else Some l }) t)"

text \<open>The attributes are prepared only when there is a line.\<close>

definition resetBufferLine :: "int \<Rightarrow> bool \<Rightarrow> Term \<Rightarrow> Term option" where
  "resetBufferLine y respectProtect t =
    (let row = b_YBase (activeBuffer t) + y in
     case lines_Get row (activeBuffer t) of None \<Rightarrow> Some t
     | Some l \<Rightarrow>
       let t = erase_ready t in
       map_option (\<lambda>l'. on_buf (\<lambda>b. ClearMarkers row (lines_Set row (Some (l'\<lparr>bl_IsWrapped := False\<rparr>)) b)) t)
         (Fill (GetNullCell (Some (t_eraseAttr t))) respectProtect l))"

definition resetBufferLines :: "int list \<Rightarrow> bool \<Rightarrow> Term \<Rightarrow> Term option" where
  "resetBufferLines ys respectProtect t = fold_opt (\<lambda>y. resetBufferLine y respectProtect) ys t"

definition erase_below :: "bool \<Rightarrow> Term \<Rightarrow> Term option" where
  "erase_below respectProtect t = do {
     let j = cur_Y t;
     let t = MarkDirty j t;
     t \<leftarrow> eraseInBufferLine j (cur_X t) (int (t_Cols t)) (cur_X t = 0) respectProtect t;
     t \<leftarrow> resetBufferLines [j + 1..int (t_Rows t) - 1] respectProtect t;
     Some (MarkDirty (max (j + 1) (int (t_Rows t)) - 1) t) }"

definition erase_above :: "bool \<Rightarrow> Term \<Rightarrow> Term option" where
  "erase_above respectProtect t = do {
     let j = cur_Y t;
     let t = MarkDirty j t;
     t \<leftarrow> eraseInBufferLine j 0 (cur_X t + 1) True respectProtect t;
     t \<leftarrow> (if int (t_Cols t) \<le> cur_X t + 1
           then on_line (b_YBase (activeBuffer t) + j + 1) (set_wrapped False) t else Some t);
     t \<leftarrow> resetBufferLines (rev [0..j - 1]) respectProtect t;
     Some (MarkDirty 0 t) }"

definition erase_all :: "bool \<Rightarrow> Term \<Rightarrow> Term option" where
  "erase_all respectProtect t = do {
     let t = MarkDirty (int (t_Rows t) - 1) t;
     t \<leftarrow> resetBufferLines (rev [0..int (t_Rows t) - 1]) respectProtect t;
     Some (MarkDirty 0 t) }"

definition erase_scrollback :: "Term \<Rightarrow> Term" where
  "erase_scrollback t =
    (let n = int (cl_length (b_Lines (activeBuffer t))) - int (t_Rows t) in
     if 0 < n then
       on_buf (\<lambda>b. let b = lines_TrimStart (nat n) b in
         b\<lparr>b_YBase := max (b_YBase b - n) 0, b_YDisp := max (b_YDisp b - n) 0\<rparr>) t
     else t)"

definition eraseInDisplayInternal :: "Params \<Rightarrow> bool \<Rightarrow> Term \<Rightarrow> Term option" where
  "eraseInDisplayInternal p respectProtect t = do {
     let t = restrictCursor_to (int (t_Cols t)) t;
     v \<leftarrow> param 0 p;
     if v = 0 then erase_below respectProtect t
     else if v = 1 then erase_above respectProtect t
     else if v = 2 then erase_all respectProtect t
     else if v = 3 then Some (erase_scrollback t)
     else Some t }"

definition eraseInDisplay :: "Params \<Rightarrow> Term \<Rightarrow> Term option" where
  "eraseInDisplay p t = eraseInDisplayInternal p False t"

definition eraseInDisplayProtected :: "Params \<Rightarrow> Term \<Rightarrow> Term option" where
  "eraseInDisplayProtected p t = eraseInDisplayInternal p True t"

definition eraseInLineInternal :: "Params \<Rightarrow> bool \<Rightarrow> Term \<Rightarrow> Term option" where
  "eraseInLineInternal p respectProtect t = do {
     let t = restrictCursor_to (int (t_Cols t)) t;
     v \<leftarrow> param 0 p;
     t \<leftarrow> (if v = 0 then eraseInBufferLine (cur_Y t) (cur_X t) (int (t_Cols t)) (cur_X t = 0) respectProtect t
           else if v = 1 then eraseInBufferLine (cur_Y t) 0 (cur_X t + 1) False respectProtect t
           else if v = 2 then eraseInBufferLine (cur_Y t) 0 (int (t_Cols t)) True respectProtect t
           else Some t);
     Some (MarkDirty (cur_Y t) t) }"

definition eraseInLine :: "Params \<Rightarrow> Term \<Rightarrow> Term option" where
  "eraseInLine p t = eraseInLineInternal p False t"

definition eraseInLineProtected :: "Params \<Rightarrow> Term \<Rightarrow> Term option" where
  "eraseInLineProtected p t = eraseInLineInternal p True t"

text \<open>A change of the cursor's row, which is marked dirty, when there is one.\<close>

definition edit_row :: "(AttributeData \<Rightarrow> int \<Rightarrow> int \<Rightarrow> BufferLine \<Rightarrow> BufferLine option) \<Rightarrow> Params \<Rightarrow> Term \<Rightarrow> Term option" where
  "edit_row f p t =
    (let t = restrictCursor t in
     if lines_Get (cursor_row t) (activeBuffer t) = None then Some t
     else do {
       n \<leftarrow> param1 p;
       let t = erase_ready t;
       t \<leftarrow> on_line (cursor_row t) (f (t_eraseAttr t) (cur_X t) n) t;
       Some (MarkDirty (cur_Y t) t) })"

definition eraseChars :: "Params \<Rightarrow> Term \<Rightarrow> Term option" where
  "eraseChars p t = edit_row (\<lambda>a x n l. at_col x (\<lambda>x. ReplaceCells x (x + nat n) (GetNullCell (Some a)) False l)) p t"

definition insertChars :: "Params \<Rightarrow> Term \<Rightarrow> Term option" where
  "insertChars p t = edit_row (\<lambda>a x n l. at_col x (\<lambda>x. InsertCells x (nat n) (GetNullCell (Some a)) l)) p t"

definition deleteChars :: "Params \<Rightarrow> Term \<Rightarrow> Term option" where
  "deleteChars p t = edit_row (\<lambda>a x n l. at_col x (\<lambda>x. DeleteCells x (nat n) (GetNullCell (Some a)) l)) p t"

section \<open>Lines and scrolling\<close>

definition in_scroll_region :: "Term \<Rightarrow> bool" where
  "in_scroll_region t \<longleftrightarrow> b_ScrollTop (activeBuffer t) \<le> cur_Y t \<and> cur_Y t \<le> b_ScrollBottom (activeBuffer t)"

text \<open>\<open>n\<close> times: a line leaves at one row and a blank line enters at another.\<close>

definition move_line :: "int \<Rightarrow> int \<Rightarrow> Term \<Rightarrow> Term option" where
  "move_line leave enter t = do {
     t \<leftarrow> try_buf (lines_Splice leave 1 []) t;
     let t = erase_ready t;
     l \<leftarrow> GetBlankLine (t_eraseAttr t) False (activeBuffer t);
     try_buf (lines_Splice enter 0 [Some l]) t }"

definition insertLines :: "Params \<Rightarrow> Term \<Rightarrow> Term option" where
  "insertLines p t =
    (let t = restrictCursor t in
     if \<not> in_scroll_region t then Some t
     else do {
       n \<leftarrow> param1 p;
       let b = activeBuffer t;
       let row = cursor_row t;
       let scrollBottomRowsOffset = int (t_Rows t) - 1 - b_ScrollBottom b;
       let scrollBottomAbsolute = int (t_Rows t) - 1 + b_YBase b - scrollBottomRowsOffset + 1;
       t \<leftarrow> fold_opt (\<lambda>_. move_line (scrollBottomAbsolute - 1) row) [0..<nat n] t;
       Some (set_X 0 (MarkRangeDirty (cur_Y t) (b_ScrollBottom (activeBuffer t)) t)) })"

definition deleteLines :: "Params \<Rightarrow> Term \<Rightarrow> Term option" where
  "deleteLines p t =
    (let t = restrictCursor t in
     if \<not> in_scroll_region t then Some t
     else do {
       n \<leftarrow> param1 p;
       let b = activeBuffer t;
       let row = cursor_row t;
       let j = int (t_Rows t) - 1 - b_ScrollBottom b;
       let j = int (t_Rows t) - 1 + b_YBase b - j;
       t \<leftarrow> fold_opt (\<lambda>_. move_line row j) [0..<nat n] t;
       Some (set_X 0 (MarkRangeDirty (cur_Y t) (b_ScrollBottom (activeBuffer t)) t)) })"

definition scrollUp :: "Params \<Rightarrow> Term \<Rightarrow> Term option" where
  "scrollUp p t = do {
     n \<leftarrow> param1 p;
     t \<leftarrow> fold_opt (\<lambda>_ t. let b = activeBuffer t in
            move_line (b_YBase b + b_ScrollTop b) (b_YBase b + b_ScrollBottom b) t) [0..<nat n] t;
     Some (MarkRangeDirty (b_ScrollTop (activeBuffer t)) (b_ScrollBottom (activeBuffer t)) t) }"

text \<open>Scrolling down fills with the default attributes.\<close>

definition scroll_down_once :: "Term \<Rightarrow> Term option" where
  "scroll_down_once t = do {
     t \<leftarrow> try_buf (\<lambda>b. lines_Splice (b_YBase b + b_ScrollBottom b) 1 [] b) t;
     l \<leftarrow> GetBlankLine DefaultAttrData False (activeBuffer t);
     try_buf (\<lambda>b. lines_Splice (b_YBase b + b_ScrollTop b) 0 [Some l] b) t }"

definition scrollDown :: "Params \<Rightarrow> Term \<Rightarrow> Term option" where
  "scrollDown p t = do {
     n \<leftarrow> param1 p;
     t \<leftarrow> fold_opt (\<lambda>_. scroll_down_once) [0..<nat n] t;
     Some (MarkRangeDirty (b_ScrollTop (activeBuffer t)) (b_ScrollBottom (activeBuffer t)) t) }"

text \<open>The same change of every row of the scroll region, whose wrapping it ends.\<close>

definition edit_region :: "(CellData \<Rightarrow> nat \<Rightarrow> BufferLine \<Rightarrow> BufferLine option) \<Rightarrow> Params \<Rightarrow> Term \<Rightarrow> Term option" where
  "edit_region f p t =
    (if \<not> in_scroll_region t then Some t
     else do {
       n \<leftarrow> param1 p;
       let b = activeBuffer t;
       t \<leftarrow> fold_opt (\<lambda>y t.
              if lines_Get (b_YBase b + y) (activeBuffer t) = None then Some t
              else let t = erase_ready t in
                on_line (b_YBase b + y)
                  (\<lambda>l. do { l \<leftarrow> f (GetNullCell (Some (t_eraseAttr t))) (nat n) l; set_wrapped False l }) t)
            [b_ScrollTop b..b_ScrollBottom b] t;
       Some (MarkRangeDirty (b_ScrollTop b) (b_ScrollBottom b) t) })"

definition scrollLeft :: "Params \<Rightarrow> Term \<Rightarrow> Term option" where
  "scrollLeft p t = edit_region (\<lambda>c n. DeleteCells 0 n c) p t"

definition scrollRight :: "Params \<Rightarrow> Term \<Rightarrow> Term option" where
  "scrollRight p t = edit_region (\<lambda>c n. InsertCells 0 n c) p t"

definition insertColumns :: "Params \<Rightarrow> Term \<Rightarrow> Term option" where
  "insertColumns p t = (let x = cur_X t in edit_region (\<lambda>c n l. at_col x (\<lambda>x. InsertCells x n c l)) p t)"

definition deleteColumns :: "Params \<Rightarrow> Term \<Rightarrow> Term option" where
  "deleteColumns p t = (let x = cur_X t in edit_region (\<lambda>c n l. at_col x (\<lambda>x. DeleteCells x n c l)) p t)"

text \<open>The text of the cell the last character went to, printed \<open>n\<close> times.\<close>

definition repeatPrecedingCharacter :: "Params \<Rightarrow> int \<times> Term \<Rightarrow> (int \<times> Term) option" where
  "repeatPrecedingCharacter p s =
    (case s of (joinState, t) \<Rightarrow>
     if joinState = 0 then Some s
     else do {
       n \<leftarrow> param1 p;
       let x = max (cur_X t - int (ExtractCharPropsWidth joinState)) 0;
       (case lines_Get (cursor_row t) (activeBuffer t) of None \<Rightarrow> Some s
        | Some l \<Rightarrow> do {
            txt \<leftarrow> line_GetString (nat x) l;
            Print (concat (replicate (nat n) (go_runes txt))) s }) })"

end
