(* ===== verification/Vt_Modes.thy ===== *)
theory Vt_Modes
  imports Vt_Handlers
begin

text \<open>
  The handlers of modes, reports and strings (\<^verbatim>\<open>src/internal/xterm/inputhandler_csi.go\<close>,
  \<^verbatim>\<open>inputhandler_dcs.go\<close>, \<^verbatim>\<open>inputhandler_osc.go\<close>): the modes with their reports, the stack of keyboard
  flags, the window titles, and the colours and hyperlinks of the operating system commands. Text is a
  list of bytes.
\<close>

abbreviation ascii :: "string \<Rightarrow> byte list" where "ascii \<equiv> bytes_of_string"

definition ESC :: "byte list" where "ESC = [0x1b]"

section \<open>Reports\<close>

definition report_if :: "byte list \<Rightarrow> Params \<Rightarrow> Term \<Rightarrow> Term option" where
  "report_if data p t = map_option (\<lambda>v. if 0 < v then t else TriggerDataEvent data t) (param 0 p)"

definition sendDeviceAttributesPrimary :: "Params \<Rightarrow> Term \<Rightarrow> Term option" where
  "sendDeviceAttributesPrimary p t = report_if (ESC @ ascii ''[?1;2c'') p t"

definition sendDeviceAttributesSecondary :: "Params \<Rightarrow> Term \<Rightarrow> Term option" where
  "sendDeviceAttributesSecondary p t = report_if (ESC @ ascii ''[>0;276;0c'') p t"

definition sendXtVersion :: "Params \<Rightarrow> Term \<Rightarrow> Term option" where
  "sendXtVersion p t = report_if (ESC @ ascii ''P>|xterm-go(0.1.0)'' @ ESC @ [0x5c]) p t"

definition cursor_report :: "byte list \<Rightarrow> Term \<Rightarrow> byte list" where
  "cursor_report introducer t = ESC @ introducer @ json_int (cur_Y t + 1) @ ascii '';'' @ json_int (cur_X t + 1) @ ascii ''R''"

definition deviceStatus :: "Params \<Rightarrow> Term \<Rightarrow> Term option" where
  "deviceStatus p t = map_option (\<lambda>v.
     if v = 5 then TriggerDataEvent (ESC @ ascii ''[0n'') t
     else if v = 6 then TriggerDataEvent (cursor_report (ascii ''['') t) t
     else t) (param 0 p)"

definition deviceStatusPrivate :: "Params \<Rightarrow> Term \<Rightarrow> Term option" where
  "deviceStatusPrivate p t = map_option (\<lambda>v.
     if v = 6 then TriggerDataEvent (cursor_report (ascii ''[?'') t) t else t) (param 0 p)"

section \<open>Reset, cursor style, scroll region, protection\<close>

definition softReset :: "Params \<Rightarrow> Term \<Rightarrow> Term option" where
  "softReset p t =
    (let t = happens OnSyncScrollBar (t\<lparr>t_IsCursorHidden := False\<rparr>);
         t = on_buf (\<lambda>b. b\<lparr>b_ScrollTop := 0, b_ScrollBottom := int (t_Rows t) - 1\<rparr>) t;
         t = core_Reset (t\<lparr>t_curAttr := DefaultAttrData\<rparr>);
         t = t\<lparr>t_charset := cs_Reset (t_charset t)\<rparr>;
         t = on_buf (\<lambda>b. b\<lparr>b_SavedState := (b_SavedState b)\<lparr>sv_X := 0, sv_Y := b_YBase b,
               sv_CurAttrData := (sv_CurAttrData (b_SavedState b))\<lparr>ad_Fg := ad_Fg (t_curAttr t), ad_Bg := ad_Bg (t_curAttr t)\<rparr>,
               sv_Charset := cs_Charset (t_charset t)\<rparr>\<rparr>) t in
     Some (t\<lparr>t_modes := (t_modes t)\<lparr>dm_Origin := False\<rparr>\<rparr>))"

text \<open>\<^verbatim>\<open>p % 2 == 1\<close> is false for a negative odd number.\<close>

definition setCursorStyle :: "Params \<Rightarrow> Term \<Rightarrow> Term option" where
  "setCursorStyle p t = do {
     v \<leftarrow> (if 0 < pa_Length p then param 0 p else Some 1);
     Some (if v = 0 then t\<lparr>t_modes := (t_modes t)\<lparr>dm_CursorStyle := None, dm_CursorBlinkOverride := None\<rparr>\<rparr>
       else let style = (if v = 1 \<or> v = 2 then CursorStyleBlock else if v = 3 \<or> v = 4 then CursorStyleUnderline
                         else if v = 5 \<or> v = 6 then CursorStyleBar else CursorStyleBlock) in
         t\<lparr>t_modes := (t_modes t)\<lparr>dm_CursorStyle := Some style, dm_CursorBlinkOverride := Some (0 < v \<and> v mod 2 = 1)\<rparr>\<rparr>) }"

definition setScrollRegion :: "Params \<Rightarrow> Term \<Rightarrow> Term option" where
  "setScrollRegion p t = do {
     top \<leftarrow> param1 p;
     v \<leftarrow> (if 2 \<le> pa_Length p then param 1 p else Some 0);
     let bottom = (if 0 < v \<and> v \<le> int (t_Rows t) then v else int (t_Rows t));
     Some (if top < bottom
       then setCursor 0 0 (on_buf (\<lambda>b. b\<lparr>b_ScrollTop := top - 1, b_ScrollBottom := bottom - 1\<rparr>) t)
       else t) }"

definition csiSaveCursor :: "Params \<Rightarrow> Term \<Rightarrow> Term option" where
  "csiSaveCursor p t = Some (SaveCursor t)"

definition csiRestoreCursor :: "Params \<Rightarrow> Term \<Rightarrow> Term option" where
  "csiRestoreCursor p t = Some (RestoreCursor t)"

definition selectProtected :: "Params \<Rightarrow> Term \<Rightarrow> Term option" where
  "selectProtected p t = map_option (\<lambda>v.
     let t = (if v = 1 then t\<lparr>t_curAttr := (t_curAttr t)\<lparr>ad_Bg := or (ad_Bg (t_curAttr t)) BgFlagProtected\<rparr>\<rparr> else t) in
     if v = 2 \<or> v = 0 then t\<lparr>t_curAttr := (t_curAttr t)\<lparr>ad_Bg := and (ad_Bg (t_curAttr t)) (not BgFlagProtected)\<rparr>\<rparr> else t)
     (param 0 p)"

definition csi_charAttributes :: "Params \<Rightarrow> Term \<Rightarrow> Term option" where
  "csi_charAttributes p t = map_option (\<lambda>a. t\<lparr>t_curAttr := a\<rparr>) (charAttributes p (t_curAttr t))"

section \<open>Modes\<close>

text \<open>One handler per number, run for every parameter in turn.\<close>

definition each_param :: "(int \<Rightarrow> Term \<Rightarrow> Term option) \<Rightarrow> Params \<Rightarrow> Term \<Rightarrow> Term option" where
  "each_param f p t = fold_opt (\<lambda>i t. do { v \<leftarrow> param i p; f v t }) [0..<pa_Length p] t"

definition ansi_mode :: "bool \<Rightarrow> int \<Rightarrow> Term \<Rightarrow> Term option" where
  "ansi_mode on v t = Some
    (if v = 4 then t\<lparr>t_InsertMode := on\<rparr>
     else if v = 20 then t\<lparr>t_opts := (t_opts t)\<lparr>op_ConvertEol := on\<rparr>\<rparr>
     else t)"

definition setMode :: "Params \<Rightarrow> Term \<Rightarrow> Term option" where
  "setMode p t = each_param (ansi_mode True) p t"

definition resetMode :: "Params \<Rightarrow> Term \<Rightarrow> Term option" where
  "resetMode p t = each_param (ansi_mode False) p t"

definition with_modes :: "(DecPrivateModes \<Rightarrow> DecPrivateModes) \<Rightarrow> Term \<Rightarrow> Term" where
  "with_modes f t = t\<lparr>t_modes := f (t_modes t)\<rparr>"

text \<open>The two sides of the alternate screen.\<close>

definition kitty_to_alt :: "KittyKeyboardState \<Rightarrow> KittyKeyboardState" where
  "kitty_to_alt kk = kk\<lparr>kk_MainFlags := kk_Flags kk, kk_Flags := kk_AltFlags kk,
     kk_MainStack := kk_AltStack kk, kk_AltStack := kk_MainStack kk\<rparr>"

definition kitty_to_main :: "KittyKeyboardState \<Rightarrow> KittyKeyboardState" where
  "kitty_to_main kk = kk\<lparr>kk_AltFlags := kk_Flags kk, kk_Flags := kk_MainFlags kk,
     kk_MainStack := kk_AltStack kk, kk_AltStack := kk_MainStack kk\<rparr>"

definition screen_swapped :: "Term \<Rightarrow> Term" where
  "screen_swapped t = happens OnSyncScrollBar (happens (OnRefreshRows 0 0) (t\<lparr>t_IsCursorInitialized := True\<rparr>))"

definition enter_alt :: "Term \<Rightarrow> Term option" where
  "enter_alt t =
    (let t = erase_ready (t\<lparr>t_kitty := kitty_to_alt (t_kitty t)\<rparr>) in
     map_option screen_swapped (ActivateAltBuffer (t_eraseAttr t) t))"

definition leave_alt :: "bool \<Rightarrow> Term \<Rightarrow> Term" where
  "leave_alt restore t =
    (let t = ActivateNormalBuffer (t\<lparr>t_kitty := kitty_to_main (t_kitty t)\<rparr>) in
     screen_swapped (if restore then RestoreCursor t else t))"

definition private_set :: "int \<Rightarrow> Term \<Rightarrow> Term option" where
  "private_set v t =
    (if v = 1 then Some (with_modes (dm_ApplicationCursorKeys_update (\<lambda>_. True)) t)
     else if v = 6 then Some (setCursor 0 0 (with_modes (dm_Origin_update (\<lambda>_. True)) t))
     else if v = 7 then Some (with_modes (dm_Wraparound_update (\<lambda>_. True)) t)
     else if v = 25 then Some (t\<lparr>t_IsCursorHidden := False\<rparr>)
     else if v = 45 then Some (with_modes (dm_ReverseWraparound_update (\<lambda>_. True)) t)
     else if v = 66 then Some (keypad True t)
     else if v = 9 then Some (with_modes (dm_MouseTrackingMode_update (\<lambda>_. ''X10'')) t)
     else if v = 1000 then Some (with_modes (dm_MouseTrackingMode_update (\<lambda>_. ''VT200'')) t)
     else if v = 1002 then Some (with_modes (dm_MouseTrackingMode_update (\<lambda>_. ''DRAG'')) t)
     else if v = 1003 then Some (with_modes (dm_MouseTrackingMode_update (\<lambda>_. ''ANY'')) t)
     else if v = 1004 then Some (with_modes (dm_SendFocus_update (\<lambda>_. True)) t)
     else if v = 1006 then Some (with_modes (dm_MouseEncoding_update (\<lambda>_. ''SGR'')) t)
     else if v = 1016 then Some (with_modes (dm_MouseEncoding_update (\<lambda>_. ''SGR_PIXELS'')) t)
     else if v = 1048 then Some (SaveCursor t)
     else if v = 1049 then enter_alt (SaveCursor t)
     else if v = 47 \<or> v = 1047 then enter_alt t
     else if v = 2004 then Some (with_modes (dm_BracketedPasteMode_update (\<lambda>_. True)) t)
     else if v = 2026 then Some (with_modes (dm_SynchronizedOutput_update (\<lambda>_. True)) t)
     else if v = 2031 then Some (with_modes (dm_ColorSchemeUpdates_update (\<lambda>_. True)) t)
     else if v = 9001 then Some (with_modes (dm_Win32InputMode_update (\<lambda>_. True)) t)
     else Some t)"

definition private_reset :: "int \<Rightarrow> Term \<Rightarrow> Term option" where
  "private_reset v t = Some
    (if v = 1 then with_modes (dm_ApplicationCursorKeys_update (\<lambda>_. False)) t
     else if v = 6 then setCursor 0 0 (with_modes (dm_Origin_update (\<lambda>_. False)) t)
     else if v = 7 then with_modes (dm_Wraparound_update (\<lambda>_. False)) t
     else if v = 25 then t\<lparr>t_IsCursorHidden := True\<rparr>
     else if v = 45 then with_modes (dm_ReverseWraparound_update (\<lambda>_. False)) t
     else if v = 66 then keypad False t
     else if v = 9 \<or> v = 1000 \<or> v = 1002 \<or> v = 1003 then with_modes (dm_MouseTrackingMode_update (\<lambda>_. ''NONE'')) t
     else if v = 1004 then with_modes (dm_SendFocus_update (\<lambda>_. False)) t
     else if v = 1006 then with_modes (dm_MouseEncoding_update (\<lambda>_. ''DEFAULT'')) t
     else if v = 1016 then with_modes (dm_MouseEncoding_update (\<lambda>_. ''DEFAULT'')) t
     else if v = 1048 then RestoreCursor t
     else if v = 1049 then leave_alt True t
     else if v = 47 \<or> v = 1047 then leave_alt False t
     else if v = 2004 then with_modes (dm_BracketedPasteMode_update (\<lambda>_. False)) t
     else if v = 2026 then happens (OnRefreshRows 0 0) (with_modes (dm_SynchronizedOutput_update (\<lambda>_. False)) t)
     else if v = 2031 then with_modes (dm_ColorSchemeUpdates_update (\<lambda>_. False)) t
     else if v = 9001 then with_modes (dm_Win32InputMode_update (\<lambda>_. False)) t
     else t)"

definition setModePrivate :: "Params \<Rightarrow> Term \<Rightarrow> Term option" where
  "setModePrivate p t = each_param private_set p t"

definition resetModePrivate :: "Params \<Rightarrow> Term \<Rightarrow> Term option" where
  "resetModePrivate p t = each_param private_reset p t"

definition boolToPm :: "bool \<Rightarrow> int" where
  "boolToPm on = (if on then 1 else 2)"

definition privateModeSetting :: "int \<Rightarrow> Term \<Rightarrow> int" where
  "privateModeSetting mode t =
    (let dm = t_modes t in
     if mode = 1 then boolToPm (dm_ApplicationCursorKeys dm)
     else if mode = 6 then boolToPm (dm_Origin dm)
     else if mode = 7 then boolToPm (dm_Wraparound dm)
     else if mode = 25 then boolToPm (\<not> t_IsCursorHidden t)
     else if mode = 45 then boolToPm (dm_ReverseWraparound dm)
     else if mode = 66 then boolToPm (dm_ApplicationKeypad dm)
     else if mode = 9 then boolToPm (dm_MouseTrackingMode dm = ''X10'')
     else if mode = 1000 then boolToPm (dm_MouseTrackingMode dm = ''VT200'')
     else if mode = 1002 then boolToPm (dm_MouseTrackingMode dm = ''DRAG'')
     else if mode = 1003 then boolToPm (dm_MouseTrackingMode dm = ''ANY'')
     else if mode = 1004 then boolToPm (dm_SendFocus dm)
     else if mode = 1006 then boolToPm (dm_MouseEncoding dm = ''SGR'')
     else if mode = 1016 then boolToPm (dm_MouseEncoding dm = ''SGR_PIXELS'')
     else if mode = 47 \<or> mode = 1047 \<or> mode = 1049 then boolToPm (t_alt_active t)
     else if mode = 2004 then boolToPm (dm_BracketedPasteMode dm)
     else if mode = 2026 then boolToPm (dm_SynchronizedOutput dm)
     else if mode = 2031 then boolToPm (dm_ColorSchemeUpdates dm)
     else if mode = 9001 then boolToPm (dm_Win32InputMode dm)
     else 0)"

definition ansiModeSetting :: "int \<Rightarrow> Term \<Rightarrow> int" where
  "ansiModeSetting mode t =
    (if mode = 4 then boolToPm (t_InsertMode t)
     else if mode = 20 then boolToPm (op_ConvertEol (t_opts t))
     else 0)"

definition requestMode :: "bool \<Rightarrow> Params \<Rightarrow> Term \<Rightarrow> Term option" where
  "requestMode isPrivate p t = map_option (\<lambda>mode.
     TriggerDataEvent (ESC @ (if isPrivate then ascii ''[?'' else ascii ''['') @ json_int mode @ ascii '';'' @
       json_int (if isPrivate then privateModeSetting mode t else ansiModeSetting mode t) @ ascii ''$y'') t) (param 0 p)"

section \<open>Keyboard flags\<close>

definition kittyKeyboardMaxStackSize :: nat where
  "kittyKeyboardMaxStackSize = 10"

definition kitty_set :: "int \<Rightarrow> int \<Rightarrow> KittyKeyboardState \<Rightarrow> KittyKeyboardState" where
  "kitty_set mode flags kk =
    (if mode = 1 then kk\<lparr>kk_Flags := or (kk_Flags kk) flags\<rparr>
     else if mode = 2 then kk\<lparr>kk_Flags := and (kk_Flags kk) (not flags)\<rparr>
     else if mode = 3 then kk\<lparr>kk_Flags := flags\<rparr> else kk)"

definition kittyKeyboardSet :: "Params \<Rightarrow> Term \<Rightarrow> Term option" where
  "kittyKeyboardSet p t = do {
     v \<leftarrow> param 0 p;
     m \<leftarrow> (if 2 \<le> pa_Length p then param 1 p else Some 0);
     Some (t\<lparr>t_kitty := kitty_set (if 0 < m then m else 1) (max v 0) (t_kitty t)\<rparr>) }"

definition kittyKeyboardQuery :: "Params \<Rightarrow> Term \<Rightarrow> Term option" where
  "kittyKeyboardQuery p t =
    Some (TriggerDataEvent (ESC @ ascii ''[?'' @ json_int (kk_Flags (t_kitty t)) @ ascii ''u'') t)"

definition kitty_push :: "int \<Rightarrow> KittyKeyboardState \<Rightarrow> KittyKeyboardState" where
  "kitty_push flags kk =
    (let kk = (if length (kk_MainStack kk) < kittyKeyboardMaxStackSize
               then kk\<lparr>kk_MainStack := kk_MainStack kk @ [kk_Flags kk]\<rparr> else kk) in
     kk\<lparr>kk_Flags := flags\<rparr>)"

definition kittyKeyboardPush :: "Params \<Rightarrow> Term \<Rightarrow> Term option" where
  "kittyKeyboardPush p t = map_option (\<lambda>v. t\<lparr>t_kitty := kitty_push (max v 0) (t_kitty t)\<rparr>) (param 0 p)"

text \<open>The loop of pops; an empty stack clears the flags and ends it.\<close>

fun kitty_pop :: "nat \<Rightarrow> KittyKeyboardState \<Rightarrow> KittyKeyboardState" where
  "kitty_pop 0 kk = kk"
| "kitty_pop (Suc n) kk =
    (if kk_MainStack kk = [] then kk\<lparr>kk_Flags := 0\<rparr>
     else kitty_pop n (kk\<lparr>kk_Flags := last (kk_MainStack kk), kk_MainStack := butlast (kk_MainStack kk)\<rparr>))"

definition kittyKeyboardPop :: "Params \<Rightarrow> Term \<Rightarrow> Term option" where
  "kittyKeyboardPop p t =
    map_option (\<lambda>v. t\<lparr>t_kitty := kitty_pop (nat (if 0 < v then v else 1)) (t_kitty t)\<rparr>) (param 0 p)"

section \<open>Window titles\<close>

definition window_push :: "int \<Rightarrow> Term \<Rightarrow> Term" where
  "window_push ps2 t =
    (let t = (if ps2 = 0 \<or> ps2 = 2 then t\<lparr>t_windowTitleStack := t_windowTitleStack t @ [t_windowTitle t]\<rparr> else t) in
     if ps2 = 0 \<or> ps2 = 1 then t\<lparr>t_iconNameStack := t_iconNameStack t @ [t_windowTitle t]\<rparr> else t)"

definition window_pop :: "int \<Rightarrow> Term \<Rightarrow> Term" where
  "window_pop ps2 t =
    (let t = (if (ps2 = 0 \<or> ps2 = 2) \<and> t_windowTitleStack t \<noteq> [] then
               let title = last (t_windowTitleStack t) in
               happens (OnTitleChange title) (t\<lparr>t_windowTitleStack := butlast (t_windowTitleStack t), t_windowTitle := title\<rparr>)
             else t) in
     if (ps2 = 0 \<or> ps2 = 1) \<and> t_iconNameStack t \<noteq> [] then t\<lparr>t_iconNameStack := butlast (t_iconNameStack t)\<rparr> else t)"

definition windowOptions :: "Params \<Rightarrow> Term \<Rightarrow> Term option" where
  "windowOptions p t =
    (if pa_Length p = 0 then Some t
     else do {
       v \<leftarrow> param 0 p;
       if v = 18 then
         Some (TriggerDataEvent (ESC @ ascii ''[8;'' @ json_int (int (t_Rows t)) @ ascii '';'' @ json_int (int (t_Cols t)) @ ascii ''t'') t)
       else if v = 22 \<or> v = 23 then do {
         ps2 \<leftarrow> (if 2 \<le> pa_Length p then param 1 p else Some 0);
         Some (if v = 22 then window_push ps2 t else window_pop ps2 t) }
       else Some t })"

section \<open>Status strings\<close>

definition requestStatusString :: "byte list \<Rightarrow> Params \<Rightarrow> Term \<Rightarrow> Term" where
  "requestStatusString data p t =
    (let respond = (\<lambda>s. TriggerDataEvent (ESC @ s @ ESC @ [0x5c]) t); b = activeBuffer t in
     if data = ascii ''\"q'' then
       respond (ascii ''P1$r'' @ json_int (if IsProtected (t_curAttr t) \<noteq> 0 then 1 else 0) @ ascii ''\"q'')
     else if data = ascii ''\"p'' then respond (ascii ''P1$r61;1\"p'')
     else if data = ascii ''r'' then
       respond (ascii ''P1$r'' @ json_int (b_ScrollTop b + 1) @ ascii '';'' @ json_int (b_ScrollBottom b + 1) @ ascii ''r'')
     else if data = ascii ''m'' then respond (ascii ''P1$r0m'')
     else if data = ascii '' q'' then
       let style = (case op_CursorStyle (t_opts t) of CursorStyleBlock \<Rightarrow> 2 | CursorStyleUnderline \<Rightarrow> 4 | CursorStyleBar \<Rightarrow> 6) in
       respond (ascii ''P1$r'' @ json_int (if op_CursorBlink (t_opts t) then style - 1 else style) @ ascii '' q'')
     else respond (ascii ''P0$r''))"

section \<open>Colours\<close>

text \<open>\<^verbatim>\<open>strings.Split\<close> at one byte.\<close>

fun split_at :: "byte \<Rightarrow> byte list \<Rightarrow> byte list list" where
  "split_at sep [] = [[]]"
| "split_at sep (b # bs) =
    (if b = sep then [] # split_at sep bs
     else case split_at sep bs of s # ss \<Rightarrow> (b # s) # ss | [] \<Rightarrow> [[b]])"

definition hex_value :: "byte \<Rightarrow> nat option" where
  "hex_value b =
    (let n = unat b in
     if 0x30 \<le> n \<and> n \<le> 0x39 then Some (n - 0x30)
     else if 0x61 \<le> n \<and> n \<le> 0x66 then Some (n - 0x57)
     else if 0x41 \<le> n \<and> n \<le> 0x46 then Some (n - 0x37)
     else None)"

definition is_hex :: "byte list \<Rightarrow> bool" where
  "is_hex s \<longleftrightarrow> (\<forall>b \<in> set s. hex_value b \<noteq> None)"

definition parseHex :: "byte list \<Rightarrow> nat" where
  "parseHex s = foldl (\<lambda>n b. 16 * n + (case hex_value b of Some d \<Rightarrow> d | None \<Rightarrow> 0)) 0 s"

definition scaleHexChannel :: "byte list \<Rightarrow> byte" where
  "scaleHexChannel s =
    (let v = parseHex s in
     word_of_nat (if length s = 1 then v * 0x11 else if length s = 2 then v
       else if length s = 3 then v div 2 ^ 4 else if length s = 4 then v div 2 ^ 8 else v))"

text \<open>The matches of the two regular expressions.\<close>

definition rgb_match :: "byte list \<Rightarrow> byte list list option" where
  "rgb_match spec =
    (if take 4 spec = ascii ''rgb:'' then
       let parts = split_at 0x2f (drop 4 spec) in
       if length parts = 3 \<and> (\<forall>s \<in> set parts. is_hex s \<and> 1 \<le> length s \<and> length s \<le> 4) then Some parts else None
     else None)"

definition hash_match :: "byte list \<Rightarrow> byte list option" where
  "hash_match spec =
    (case spec of [] \<Rightarrow> None
     | b # hex \<Rightarrow> if b = 0x23 \<and> is_hex hex \<and> 3 \<le> length hex \<and> length hex \<le> 12 then Some hex else None)"

definition hex_slice :: "nat \<Rightarrow> nat \<Rightarrow> byte list \<Rightarrow> nat" where
  "hex_slice a b hex = parseHex (drop a (take b hex))"

definition parseColor :: "byte list \<Rightarrow> ColorRGB option" where
  "parseColor spec =
    (case rgb_match spec of
       Some parts \<Rightarrow> Some (scaleHexChannel (parts ! 0), scaleHexChannel (parts ! 1), scaleHexChannel (parts ! 2))
     | None \<Rightarrow>
       (case hash_match spec of None \<Rightarrow> None
        | Some hex \<Rightarrow>
          if length hex = 3
          then Some (word_of_nat (hex_slice 0 1 hex * 0x10), word_of_nat (hex_slice 1 2 hex * 0x10), word_of_nat (hex_slice 2 3 hex * 0x10))
          else if length hex = 6
          then Some (word_of_nat (hex_slice 0 2 hex), word_of_nat (hex_slice 2 4 hex), word_of_nat (hex_slice 4 6 hex))
          else if length hex = 9
          then Some (word_of_nat (hex_slice 0 2 hex), word_of_nat (hex_slice 3 5 hex), word_of_nat (hex_slice 6 8 hex))
          else if length hex = 12
          then Some (word_of_nat (hex_slice 0 2 hex), word_of_nat (hex_slice 4 6 hex), word_of_nat (hex_slice 8 10 hex))
          else None))"

definition isDigitString :: "byte list \<Rightarrow> bool" where
  "isDigitString s \<longleftrightarrow> s \<noteq> [] \<and> (\<forall>b \<in> set s. 0x30 \<le> unat b \<and> unat b \<le> 0x39)"

text \<open>\<^verbatim>\<open>strconv.Atoi\<close> of digits; a value out of range is far above the palette either way.\<close>

definition digits_value :: "byte list \<Rightarrow> nat" where
  "digits_value s = foldl (\<lambda>n b. 10 * n + (unat b - 0x30)) 0 s"

definition isValidColorIndex :: "nat \<Rightarrow> bool" where
  "isValidColorIndex index \<longleftrightarrow> index < 256"

definition palette_index :: "byte list \<Rightarrow> nat option" where
  "palette_index s = (if isDigitString s \<and> isValidColorIndex (digits_value s) then Some (digits_value s) else None)"

definition color_request :: "nat \<Rightarrow> byte list \<Rightarrow> ColorEvent list" where
  "color_request index spec =
    (if spec = ascii ''?'' then [\<lparr>ce_Type = ColorRequestReport, ce_Index = index, ce_Color = None\<rparr>]
     else case parseColor spec of None \<Rightarrow> []
       | Some c \<Rightarrow> [\<lparr>ce_Type = ColorRequestSet, ce_Index = index, ce_Color = Some c\<rparr>])"

fun indexed_colors :: "byte list list \<Rightarrow> ColorEvent list" where
  "indexed_colors (idx # spec # slots) =
    (case palette_index idx of None \<Rightarrow> [] | Some i \<Rightarrow> color_request i spec) @ indexed_colors slots"
| "indexed_colors _ = []"

definition fire_colors :: "ColorEvent list \<Rightarrow> Term \<Rightarrow> Term" where
  "fire_colors es t = (if es = [] then t else happens (OnColor es) t)"

definition SetTitle :: "byte list \<Rightarrow> Term \<Rightarrow> Term" where
  "SetTitle data t = happens (OnTitleChange data) (t\<lparr>t_windowTitle := data\<rparr>)"

definition SetOrReportIndexedColor :: "byte list \<Rightarrow> Term \<Rightarrow> Term" where
  "SetOrReportIndexedColor data t = fire_colors (indexed_colors (split_at 0x3b data)) t"

definition specialColors :: "nat list" where
  "specialColors = [256, 257, 258]"

definition setOrReportSpecialColor :: "byte list \<Rightarrow> nat \<Rightarrow> Term \<Rightarrow> Term" where
  "setOrReportSpecialColor data first t =
    fold (\<lambda>(index, spec). fire_colors (color_request index spec)) (zip (drop first specialColors) (split_at 0x3b data)) t"

definition restore_color :: "nat \<Rightarrow> ColorEvent" where
  "restore_color index = \<lparr>ce_Type = ColorRequestRestore, ce_Index = index, ce_Color = None\<rparr>"

definition RestoreIndexedColor :: "byte list \<Rightarrow> Term \<Rightarrow> Term" where
  "RestoreIndexedColor data t =
    (if data = [] then happens (OnColor [restore_color 0]) t
     else fire_colors (map restore_color (List.map_filter palette_index (split_at 0x3b data))) t)"

definition RestoreSpecialColor :: "nat \<Rightarrow> Term \<Rightarrow> Term" where
  "RestoreSpecialColor index t = happens (OnColor [restore_color index]) t"

section \<open>Hyperlinks\<close>

text \<open>\<^verbatim>\<open>unicode.IsSpace\<close>, and \<^verbatim>\<open>strings.TrimSpace(s) == ""\<close>.\<close>

definition is_space :: "u32 \<Rightarrow> bool" where
  "is_space r \<longleftrightarrow> r \<in> {0x09, 0x0a, 0x0b, 0x0c, 0x0d, 0x20, 0x85, 0xa0, 0x1680, 0x2028, 0x2029, 0x202f, 0x205f, 0x3000}
     \<or> 0x2000 \<le> r \<and> r \<le> 0x200a"

definition only_space :: "byte list \<Rightarrow> bool" where
  "only_space s \<longleftrightarrow> list_all is_space (go_runes s)"

definition set_link :: "nat \<Rightarrow> Term \<Rightarrow> Term option" where
  "set_link i t =
    map_option (\<lambda>e. t\<lparr>t_curAttr := UpdateExtended ((t_curAttr t)\<lparr>ad_Extended := Some (e\<lparr>ea_urlID := int i\<rparr>)\<rparr>)\<rparr>)
      (ad_Extended (t_curAttr t))"

definition finishHyperlink :: "Term \<Rightarrow> Term option" where
  "finishHyperlink t = set_link 0 t"

definition link_ID :: "byte list \<Rightarrow> byte list" where
  "link_ID params =
    (case find (\<lambda>s. take 3 s = ascii ''id='') (split_at 0x3a params) of None \<Rightarrow> [] | Some s \<Rightarrow> drop 3 s)"

definition createHyperlink :: "byte list \<Rightarrow> byte list \<Rightarrow> Term \<Rightarrow> Term option" where
  "createHyperlink params uri t = do {
     t \<leftarrow> (if getCurrentLinkId t \<noteq> 0 then finishHyperlink t else Some t);
     (if ad_Extended (t_curAttr t) = None then None
      else case RegisterLink (link_ID params) uri t of (i, t) \<Rightarrow> set_link i t) }"

text \<open>The Boolean is what the handler returns.\<close>

definition SetHyperlink :: "byte list \<Rightarrow> Term \<Rightarrow> (bool \<times> Term) option" where
  "SetHyperlink data t =
    (if (0x3b :: byte) \<notin> set data then Some (True, t)
     else let params = takeWhile (\<lambda>b. b \<noteq> 0x3b) data; uri = drop (length params + 1) data in
       if uri \<noteq> [] then map_option (Pair True) (createHyperlink params uri t)
       else if \<not> only_space params then Some (False, t)
       else map_option (Pair True) (finishHyperlink t))"

end
