(* ===== verification/Vt_Terminal.thy ===== *)
theory Vt_Terminal
  imports Vt_Modes Vt_Csi
begin

text \<open>
  The terminal as a whole (\<^verbatim>\<open>NewInputHandler\<close> and \<^verbatim>\<open>Parse\<close> in
  \<^verbatim>\<open>src/internal/xterm/inputhandler.go\<close>, \<^verbatim>\<open>terminal.go\<close>): the handlers of the other theories registered with
  the parser. The environment of the parser is the terminal, \<open>None\<close> once a handler has panicked,
  with what the string handlers have collected. The last part is the text of the serializer that
  restores modes and scroll region (\<^verbatim>\<open>serialize_addon.go\<close>).
\<close>

section \<open>Handlers\<close>

type_synonym terminal = "Term option store vt"

definition on_terminal :: "(Term \<Rightarrow> Term option) \<Rightarrow> terminal \<Rightarrow> terminal" where
  "on_terminal f v = v\<lparr>vt_env := (vt_env v)\<lparr>st_rest := Option.bind (st_rest (vt_env v)) f\<rparr>\<rparr>"

text \<open>\<^verbatim>\<open>Print\<close> reads and writes the join state of the parser.\<close>

definition with_join :: "(int \<times> Term \<Rightarrow> (int \<times> Term) option) \<Rightarrow> terminal \<Rightarrow> terminal" where
  "with_join f v =
    (case Option.bind (st_rest (vt_env v)) (\<lambda>t. f (precedingJoinState v, t)) of
       None \<Rightarrow> v\<lparr>vt_env := (vt_env v)\<lparr>st_rest := None\<rparr>\<rparr>
     | Some (j, t) \<Rightarrow> v\<lparr>precedingJoinState := j, vt_env := (vt_env v)\<lparr>st_rest := Some t\<rparr>\<rparr>)"

definition execute_handler :: "nat \<Rightarrow> (Term \<Rightarrow> Term option) option" where
  "execute_handler code = map_of
    [(0x07, Bell), (0x0a, LineFeed), (0x0b, LineFeed), (0x0c, LineFeed), (0x0d, CarriageReturn), (0x08, Backspace),
     (0x09, Tab), (0x0e, ShiftOut), (0x0f, ShiftIn)] code"

text \<open>The control sequences; the repetition of a character, which reads the join state, is apart.\<close>

definition csi_table :: "(u64 \<times> (Params \<Rightarrow> Term \<Rightarrow> Term option)) list" where
  "csi_table =
    [(fn_identifier 0 [] 0x41, cursorUp), (fn_identifier 0 [] 0x42, cursorDown),
     (fn_identifier 0 [] 0x43, cursorForward), (fn_identifier 0 [] 0x44, cursorBackward),
     (fn_identifier 0 [] 0x45, cursorNextLine), (fn_identifier 0 [] 0x46, cursorPrecedingLine),
     (fn_identifier 0 [] 0x47, cursorCharAbsolute), (fn_identifier 0 [] 0x48, cursorPosition),
     (fn_identifier 0 [] 0x49, cursorForwardTab), (fn_identifier 0 [] 0x5a, cursorBackwardTab),
     (fn_identifier 0 [] 0x60, charPosAbsolute), (fn_identifier 0 [] 0x61, hPositionRelative),
     (fn_identifier 0 [] 0x64, linePosAbsolute), (fn_identifier 0 [] 0x65, vPositionRelative),
     (fn_identifier 0 [] 0x66, hVPosition), (fn_identifier 0 [] 0x4a, eraseInDisplay),
     (fn_identifier 0 [] 0x4b, eraseInLine), (fn_identifier 0 [] 0x58, eraseChars),
     (fn_identifier 0x3f [] 0x4a, eraseInDisplayProtected), (fn_identifier 0x3f [] 0x4b, eraseInLineProtected),
     (fn_identifier 0 [] 0x40, insertChars), (fn_identifier 0 [] 0x4c, insertLines),
     (fn_identifier 0 [] 0x4d, deleteLines), (fn_identifier 0 [] 0x50, deleteChars),
     (fn_identifier 0 [] 0x53, scrollUp), (fn_identifier 0 [] 0x54, scrollDown),
     (fn_identifier 0 [] 0x5e, scrollDown), (fn_identifier 0 [0x20] 0x40, scrollLeft),
     (fn_identifier 0 [0x20] 0x41, scrollRight), (fn_identifier 0 [0x27] 0x7d, insertColumns),
     (fn_identifier 0 [0x27] 0x7e, deleteColumns), (fn_identifier 0 [] 0x63, sendDeviceAttributesPrimary),
     (fn_identifier 0x3e [] 0x63, sendDeviceAttributesSecondary), (fn_identifier 0x3e [] 0x71, sendXtVersion),
     (fn_identifier 0 [] 0x67, tabClear), (fn_identifier 0 [] 0x6d, csi_charAttributes),
     (fn_identifier 0 [] 0x6e, deviceStatus), (fn_identifier 0x3f [] 0x6e, deviceStatusPrivate),
     (fn_identifier 0 [0x21] 0x70, softReset), (fn_identifier 0 [0x24] 0x70, requestMode False),
     (fn_identifier 0x3f [0x24] 0x70, requestMode True), (fn_identifier 0 [0x20] 0x71, setCursorStyle),
     (fn_identifier 0 [] 0x72, setScrollRegion), (fn_identifier 0 [] 0x74, windowOptions),
     (fn_identifier 0 [] 0x73, csiSaveCursor), (fn_identifier 0 [] 0x75, csiRestoreCursor),
     (fn_identifier 0x3d [] 0x75, kittyKeyboardSet), (fn_identifier 0x3f [] 0x75, kittyKeyboardQuery),
     (fn_identifier 0x3e [] 0x75, kittyKeyboardPush), (fn_identifier 0x3c [] 0x75, kittyKeyboardPop),
     (fn_identifier 0 [0x22] 0x71, selectProtected), (fn_identifier 0 [] 0x68, setMode),
     (fn_identifier 0 [] 0x6c, resetMode), (fn_identifier 0x3f [] 0x68, setModePrivate),
     (fn_identifier 0x3f [] 0x6c, resetModePrivate)]"

definition csi_handlers :: "u64 \<Rightarrow> (terminal \<Rightarrow> bool \<times> terminal) list" where
  "csi_handlers ident =
    (if ident = fn_identifier 0 [] 0x62 then [\<lambda>v. (True, with_join (repeatPrecedingCharacter (vt_params v)) v)]
     else case map_of csi_table ident of None \<Rightarrow> []
       | Some f \<Rightarrow> [\<lambda>v. (True, on_terminal (f (vt_params v)) v)])"

definition esc_table :: "(u64 \<times> (Term \<Rightarrow> Term option)) list" where
  "esc_table =
    [(fn_identifier 0 [] 0x37, \<lambda>t. Some (SaveCursor t)), (fn_identifier 0 [] 0x38, \<lambda>t. Some (RestoreCursor t)),
     (fn_identifier 0 [] 0x44, Index), (fn_identifier 0 [] 0x45, NextLine),
     (fn_identifier 0 [] 0x48, TabSet), (fn_identifier 0 [] 0x4d, ReverseIndex),
     (fn_identifier 0 [] 0x3d, KeypadApplicationMode), (fn_identifier 0 [] 0x3e, KeypadNumericMode),
     (fn_identifier 0 [] 0x6e, SetgLevel 2), (fn_identifier 0 [] 0x6f, SetgLevel 3),
     (fn_identifier 0 [] 0x7c, SetgLevel 3), (fn_identifier 0 [] 0x7d, SetgLevel 2),
     (fn_identifier 0 [] 0x7e, SetgLevel 1), (fn_identifier 0 [0x25] 0x40, \<lambda>t. Some (SelectDefaultCharset t)),
     (fn_identifier 0 [0x25] 0x47, \<lambda>t. Some (SelectDefaultCharset t)), (fn_identifier 0 [0x23] 0x38, ScreenAlignmentPattern)]"

text \<open>The charset designations: one for every flag of \<^verbatim>\<open>CHARSETS\<close> after each of seven intermediates.\<close>

definition charset_handler :: "u64 \<Rightarrow> (Term \<Rightarrow> Term option) option" where
  "charset_handler ident =
    (let flag = ucast ident :: byte; inter = ucast (drop_bit 8 ident) :: byte in
     if CHARSETS flag \<noteq> None \<and> inter \<in> {0x28, 0x29, 0x2a, 0x2b, 0x2d, 0x2e, 0x2f} \<and> ident = fn_identifier 0 [inter] flag
     then Some (\<lambda>t. Some (SelectCharset [inter, flag] t)) else None)"

text \<open>Operating system commands, by their number, and the status request.\<close>

definition osc_numbers :: "nat list" where
  "osc_numbers = [0, 2, 4, 8, 10, 11, 12, 104, 110, 111, 112]"

definition osc_callback :: "nat \<Rightarrow> byte list \<Rightarrow> Term \<Rightarrow> (bool \<times> Term) option" where
  "osc_callback n data t =
    (if n = 0 \<or> n = 2 then Some (True, SetTitle data t)
     else if n = 4 then Some (True, SetOrReportIndexedColor data t)
     else if n = 8 then SetHyperlink data t
     else if n = 10 then Some (True, setOrReportSpecialColor data 0 t)
     else if n = 11 then Some (True, setOrReportSpecialColor data 1 t)
     else if n = 12 then Some (True, setOrReportSpecialColor data 2 t)
     else if n = 104 then Some (True, RestoreIndexedColor data t)
     else Some (True, RestoreSpecialColor (specialColors ! (n - 110)) t))"

definition osc_handlers :: "Term option store str_behaviour" where
  "osc_handlers = string_collectors (\<lambda>n data r.
     case Option.bind r (osc_callback n data) of None \<Rightarrow> (True, None) | Some (handled, t) \<Rightarrow> (handled, Some t))"

text \<open>The number of the status request's collector, apart from those of the commands.\<close>

definition status_collector :: nat where
  "status_collector = 1"

definition dcs_handlers :: "Term option store dcs_behaviour" where
  "dcs_handlers = dcs_collectors (\<lambda>_ data p r. (True, map_option (requestStatusString data p) r))"

definition string_handlers :: "Term option store vt_handlers" where
  "string_handlers =
    \<lparr>hd_print = (\<lambda>_ v. v), hd_execute = (\<lambda>_. None), hd_execute_fb = (\<lambda>_ v. v), hd_csi = (\<lambda>_. []), hd_csi_fb = (\<lambda>_ v. v),
     hd_esc = (\<lambda>_. []), hd_esc_fb = (\<lambda>_ v. v), hd_error = (\<lambda>_ _ v. (False, v)),
     hd_osc = osc_handlers, hd_dcs = dcs_handlers, hd_apc = string_collectors (\<lambda>_ _ r. (True, r))\<rparr>"

definition FullReset :: "terminal \<Rightarrow> terminal" where
  "FullReset v = on_terminal terminal_Reset (parser_Reset string_handlers v)"

definition esc_handlers :: "u64 \<Rightarrow> (terminal \<Rightarrow> bool \<times> terminal) list" where
  "esc_handlers ident =
    (if ident = fn_identifier 0 [] 0x63 then [\<lambda>v. (True, FullReset v)]
     else case map_of esc_table ident of Some f \<Rightarrow> [\<lambda>v. (True, on_terminal f v)]
       | None \<Rightarrow> (case charset_handler ident of None \<Rightarrow> [] | Some f \<Rightarrow> [\<lambda>v. (True, on_terminal f v)]))"

definition input_handlers :: "Term option store vt_handlers" where
  "input_handlers = string_handlers
    \<lparr>hd_print := (\<lambda>codes. with_join (Print codes)),
     hd_execute := (\<lambda>code. map_option on_terminal (execute_handler code)),
     hd_csi := csi_handlers, hd_esc := esc_handlers\<rparr>"

section \<open>A terminal\<close>

definition MinimumCols :: nat where "MinimumCols = 2"
definition MinimumRows :: nat where "MinimumRows = 1"

text \<open>The listener of buffer activation is installed after the buffers are made, so nothing is fired.\<close>

definition NewTerm :: "nat \<Rightarrow> nat \<Rightarrow> Options \<Rightarrow> Term option" where
  "NewTerm cols rows opts = do {
     let c = max cols MinimumCols;
     let r = max rows MinimumRows;
     let blank = NewBuffer c r 0 (op_TabStopWidth opts) False;
     let t = \<lparr>t_Cols = c, t_Rows = r, t_normal = blank, t_alt = blank, t_alt_active = False, t_IsUserScrolling = False,
       t_cachedBlankLine = None, t_charset = NewCharsetService, t_opts = opts, t_IsCursorInitialized = False,
       t_IsCursorHidden = False, t_InsertMode = False, t_modes = defaultDecPrivateModes,
       t_kitty = defaultKittyKeyboardState, t_links = NewOscLinkService, t_nextMarker = 0, t_orphans = [],
       t_curAttr = DefaultAttrData, t_eraseAttr = DefaultAttrData, t_dirtyStart = 2 ^ 30, t_dirtyEnd = -1,
       t_windowTitle = [], t_windowTitleStack = [], t_iconNameStack = [], t_events = []\<rparr>;
     t \<leftarrow> set_Reset t;
     Some (t\<lparr>t_events := []\<rparr>) }"

definition fresh_store :: "Term option \<Rightarrow> Term option store" where
  "fresh_store r = \<lparr>st_acc = (\<lambda>_. \<lparr>co_data = [], co_hitLimit = False, co_params = emptyDcsParams\<rparr>), st_rest = r\<rparr>"

definition NewInputHandler :: "Term option \<Rightarrow> terminal" where
  "NewInputHandler r = (let v = NewEscapeSequenceParser (fresh_store r) in
     v\<lparr>vt_osc := fold (\<lambda>n. sp_RegisterHandler (word_of_nat n) n) osc_numbers (vt_osc v),
       vt_dcs := dcs_RegisterHandler (fn_identifier 0 [0x24] 0x71) status_collector (vt_dcs v)\<rparr>)"

definition NewTerminal :: "nat \<Rightarrow> nat \<Rightarrow> Options \<Rightarrow> byte list \<times> terminal" where
  "NewTerminal cols rows opts = ([], NewInputHandler (NewTerm cols rows opts))"

text \<open>What \<^verbatim>\<open>Parse\<close> fires after the parser has returned: the cursor has moved, rows need drawing.\<close>

definition report_write :: "int \<Rightarrow> int \<Rightarrow> Term \<Rightarrow> Term" where
  "report_write startX startY t =
    (let t = (if cur_X t \<noteq> startX \<or> cur_Y t \<noteq> startY then happens OnCursorMove t else t);
         scrolled = b_YBase (activeBuffer t) - b_YDisp (activeBuffer t) in
     if t_dirtyStart t \<le> t_dirtyEnd t \<and> t_dirtyStart t + scrolled < int (t_Rows t)
     then happens (OnRefreshRows (min (t_dirtyStart t + scrolled) (int (t_Rows t) - 1))
                                 (min (t_dirtyEnd t + scrolled) (int (t_Rows t) - 1))) t
     else t)"

definition terminal_Write :: "byte list \<Rightarrow> byte list \<times> terminal \<Rightarrow> byte list \<times> terminal" where
  "terminal_Write data dv =
    (case st_rest (vt_env (snd dv)) of None \<Rightarrow> dv
     | Some t \<Rightarrow>
       if data = [] then dv
       else case input_Parse input_handlers data (fst dv, on_terminal (\<lambda>t. Some (ClearRange t)) (snd dv)) of
         (d, v) \<Rightarrow> (d, on_terminal (\<lambda>t'. Some (report_write (cur_X t) (cur_Y t) t')) v))"

text \<open>Reading the screen; \<open>None\<close> is a panic.\<close>

definition GetLine :: "int \<Rightarrow> Term \<Rightarrow> byte list option" where
  "GetLine y t =
    (if y < 0 \<or> int (t_Rows t) \<le> y then Some []
     else case lines_Get (b_YBase (activeBuffer t) + y) (activeBuffer t) of None \<Rightarrow> Some []
       | Some l \<Rightarrow> TranslateToString True 0 None l)"

definition trim_blank :: "byte list list \<Rightarrow> byte list list" where
  "trim_blank ls = rev (dropWhile (\<lambda>l. l = []) (rev ls))"

fun join_lines :: "byte list list \<Rightarrow> byte list" where
  "join_lines [] = []"
| "join_lines [l] = l"
| "join_lines (l # ls) = l @ [0x0a] @ join_lines ls"

definition terminal_String :: "Term \<Rightarrow> byte list option" where
  "terminal_String t = map_option (\<lambda>ls. join_lines (trim_blank ls))
     (those (map (\<lambda>y. GetLine (int y) t) [0..<t_Rows t]))"

end

