(* ===== verification/Vt_Serialize.thy ===== *)
theory Vt_Serialize
  imports Vt_Terminal
begin

text \<open>
  The serializer (\<^verbatim>\<open>src/internal/xterm/serialize_addon.go\<close>): the walk over the rows of a buffer that
  writes their text with the changes of style between the cells, the cursor at the end, and the modes
  and the scroll region. \<open>None\<close> is a panic, which no row of the buffer's width causes.
\<close>

section \<open>State\<close>

text \<open>
  \<^verbatim>\<open>stringSerializeHandler\<close>. The rows already written are kept with their separators; \<open>sr_cells\<close> is the
  pair of cells the walk flips between, the one to load next first.
\<close>

record serializer =
  sr_cols :: nat
  sr_allRows :: "(byte list \<times> byte list) list"
  sr_currentRow :: "byte list"
  sr_nullCellCount :: int
  sr_cursorStyle :: CellData
  sr_cursorStyleRow :: int
  sr_cursorStyleCol :: nat
  sr_backgroundCell :: CellData
  sr_thisRowLastChar :: CellData
  sr_thisRowLastSecondChar :: CellData
  sr_nextRowFirstChar :: CellData
  sr_firstRow :: int
  sr_lastCursorRow :: int
  sr_lastCursorCol :: int
  sr_lastContentCursorRow :: int
  sr_lastContentCursorCol :: int
  sr_cells :: "CellData \<times> CellData"

definition newStringSerializeHandler :: "int \<Rightarrow> Term \<Rightarrow> serializer" where
  "newStringSerializeHandler start t =
    \<lparr>sr_cols = t_Cols t, sr_allRows = [], sr_currentRow = [], sr_nullCellCount = 0, sr_cursorStyle = NewCellData,
     sr_cursorStyleRow = 0, sr_cursorStyleCol = 0, sr_backgroundCell = NewCellData, sr_thisRowLastChar = NewCellData,
     sr_thisRowLastSecondChar = NewCellData, sr_nextRowFirstChar = NewCellData, sr_firstRow = start,
     sr_lastCursorRow = start, sr_lastCursorCol = 0, sr_lastContentCursorRow = start, sr_lastContentCursorCol = 0,
     sr_cells = (NewCellData, NewCellData)\<rparr>"

definition write_row :: "byte list \<Rightarrow> serializer \<Rightarrow> serializer" where
  "write_row s h = h\<lparr>sr_currentRow := sr_currentRow h @ s\<rparr>"

text \<open>\<^verbatim>\<open>"\x1b[%dX"\<close> and its like.\<close>

definition csi_int :: "int \<Rightarrow> byte \<Rightarrow> byte list" where
  "csi_int n final = [0x1b, 0x5b] @ json_int n @ [final]"

text \<open>The row of the buffer, unless it is past the end of the list or nil.\<close>

definition sr_line :: "int \<Rightarrow> Buffer \<Rightarrow> BufferLine option" where
  "sr_line row b = (if int (cl_length (b_Lines b)) \<le> row then None else lines_Get row b)"

section \<open>Cells\<close>

text \<open>Empty cells are skipped, and coloured when the background asks for it.\<close>

definition fill_empty :: "serializer \<Rightarrow> serializer" where
  "fill_empty h =
    (if 0 < sr_nullCellCount h then
       (write_row ((if equalBg (sr_cursorStyle h) (sr_backgroundCell h) then [] else csi_int (sr_nullCellCount h) 0x58) @
                   csi_int (sr_nullCellCount h) 0x43) h)\<lparr>sr_nullCellCount := 0\<rparr>
     else h)"

definition sgr_text :: "byte list list \<Rightarrow> byte list" where
  "sgr_text codes = [0x1b, 0x5b] @ join_semicolon codes @ [0x6d]"

definition change_style :: "Buffer \<Rightarrow> int \<Rightarrow> nat \<Rightarrow> byte list list \<Rightarrow> serializer \<Rightarrow> serializer option" where
  "change_style b row col codes h =
    (let h = write_row (sgr_text codes)
           ((fill_empty h)\<lparr>sr_lastContentCursorRow := row, sr_lastContentCursorCol := int col,
              sr_lastCursorRow := row, sr_lastCursorCol := int col\<rparr>) in
     case sr_line row b of None \<Rightarrow> Some h
     | Some l \<Rightarrow>
       if col < bl_Len l then map_option (\<lambda>c. h\<lparr>sr_cursorStyle := c, sr_cursorStyleRow := row, sr_cursorStyleCol := col\<rparr>)
         (LoadCell col (sr_cursorStyle h) l)
       else Some h)"

definition nextCell :: "Buffer \<Rightarrow> CellData \<Rightarrow> int \<Rightarrow> nat \<Rightarrow> serializer \<Rightarrow> serializer option" where
  "nextCell b cell row col h =
    (if GetWidth cell = 0 then Some h
     else let isEmptyCell = (GetChars cell = []);
              codes = diffStyle cell (sr_cursorStyle h);
              styleChanged = (if isEmptyCell then \<not> equalBg (sr_cursorStyle h) cell else codes \<noteq> []) in do {
       h \<leftarrow> (if styleChanged then change_style b row col codes h else Some h);
       Some (if isEmptyCell then h\<lparr>sr_nullCellCount := sr_nullCellCount h + int (GetWidth cell)\<rparr>
             else (write_row (GetChars cell) (fill_empty h))
               \<lparr>sr_lastContentCursorRow := row, sr_lastContentCursorCol := int (col + GetWidth cell),
                sr_lastCursorRow := row, sr_lastCursorCol := int (col + GetWidth cell)\<rparr>) })"

section \<open>Rows\<close>

text \<open>\<^verbatim>\<open>LoadCell\<close> at a column that is there only when the line is long enough.\<close>

definition load_back :: "nat \<Rightarrow> BufferLine \<Rightarrow> CellData \<Rightarrow> CellData option" where
  "load_back n l c = (if n \<le> bl_Len l then LoadCell (bl_Len l - n) c l else Some c)"

text \<open>Whether the next row wraps by itself once this one is written.\<close>

definition wrap_valid :: "serializer \<Rightarrow> bool" where
  "wrap_valid h \<longleftrightarrow>
    (let wide = (1 < GetWidth (sr_nextRowFirstChar h)) in
     GetChars (sr_nextRowFirstChar h) \<noteq> [] \<and> sr_nullCellCount h \<le> (if wide then 1 else 0) \<and>
     ((GetChars (sr_thisRowLastChar h) \<noteq> [] \<or> GetWidth (sr_thisRowLastChar h) = 0)
        \<and> equalBg (sr_thisRowLastChar h) (sr_nextRowFirstChar h)
      \<or> wide \<and> (GetChars (sr_thisRowLastSecondChar h) \<noteq> [] \<or> GetWidth (sr_thisRowLastSecondChar h) = 0)
        \<and> equalBg (sr_thisRowLastChar h) (sr_nextRowFirstChar h)
        \<and> equalBg (sr_thisRowLastSecondChar h) (sr_nextRowFirstChar h)))"

definition forced_wrap :: "nat \<Rightarrow> int \<Rightarrow> byte list" where
  "forced_wrap len n =
    replicate (nat (n + 1)) 0x2d @ [0x1b, 0x5b, 0x31, 0x44, 0x1b, 0x5b, 0x31, 0x58] @
    (if 0 < n then [0x1b, 0x5b, 0x41] @ csi_int (int len - n) 0x43 @ csi_int n 0x58 @ csi_int (int len - n) 0x44 @
       [0x1b, 0x5b, 0x42] else [])"

definition separate :: "Buffer \<Rightarrow> nat \<Rightarrow> int \<Rightarrow> serializer \<Rightarrow> (byte list \<times> serializer) option" where
  "separate b screen_rows row h = do {
     h \<leftarrow> (if int screen_rows \<le> row - sr_firstRow h then
             (case sr_line (sr_cursorStyleRow h) b of None \<Rightarrow> Some h
              | Some l \<Rightarrow> if sr_cursorStyleCol h < bl_Len l
                  then map_option (\<lambda>c. h\<lparr>sr_backgroundCell := c\<rparr>) (LoadCell (sr_cursorStyleCol h) (sr_backgroundCell h) l)
                  else Some h)
           else Some h);
     (case (sr_line row b, sr_line (row + 1) b) of
        (Some this, Some nextLine) \<Rightarrow>
          if \<not> bl_IsWrapped nextLine then Some ([0x0d, 0x0a], h\<lparr>sr_lastCursorRow := row + 1, sr_lastCursorCol := 0\<rparr>)
          else do {
            c1 \<leftarrow> load_back 1 this (sr_thisRowLastChar h);
            c2 \<leftarrow> load_back 2 this (sr_thisRowLastSecondChar h);
            c3 \<leftarrow> (if 0 < bl_Len nextLine then LoadCell 0 (sr_nextRowFirstChar h) nextLine else Some (sr_nextRowFirstChar h));
            let h = h\<lparr>sr_thisRowLastChar := c1, sr_thisRowLastSecondChar := c2, sr_nextRowFirstChar := c3\<rparr>;
            Some (if wrap_valid h then ([], h)
              else (forced_wrap (bl_Len this) (sr_nullCellCount h),
                h\<lparr>sr_lastContentCursorRow := row + 1, sr_lastContentCursorCol := 0, sr_lastCursorRow := row + 1,
                  sr_lastCursorCol := 0\<rparr>)) }
      | _ \<Rightarrow> Some ([0x0d, 0x0a], h\<lparr>sr_lastCursorRow := row + 1, sr_lastCursorCol := 0\<rparr>)) }"

definition sr_rowEnd :: "Buffer \<Rightarrow> nat \<Rightarrow> int \<Rightarrow> bool \<Rightarrow> serializer \<Rightarrow> serializer option" where
  "sr_rowEnd b screen_rows row isLastRow h = do {
     let h = (if 0 < sr_nullCellCount h \<and> \<not> equalBg (sr_cursorStyle h) (sr_backgroundCell h)
              then write_row (csi_int (sr_nullCellCount h) 0x58) h else h);
     (separator, h) \<leftarrow> (if isLastRow then Some ([], h) else separate b screen_rows row h);
     Some (h\<lparr>sr_allRows := sr_allRows h @ [(sr_currentRow h, separator)], sr_currentRow := [], sr_nullCellCount := 0\<rparr>) }"

text \<open>One column: the next cell is loaded into the one of the pair that is not the old cell.\<close>

definition sr_column :: "Buffer \<Rightarrow> int \<Rightarrow> BufferLine \<Rightarrow> nat \<Rightarrow> serializer \<Rightarrow> serializer option" where
  "sr_column b row l col h = do {
     c \<leftarrow> LoadCell col (fst (sr_cells h)) l;
     h \<leftarrow> nextCell b c row col h;
     Some (h\<lparr>sr_cells := (snd (sr_cells h), c)\<rparr>) }"

definition sr_row :: "Buffer \<Rightarrow> nat \<Rightarrow> int \<Rightarrow> int \<Rightarrow> serializer \<Rightarrow> serializer option" where
  "sr_row b screen_rows last_row row h = do {
     h \<leftarrow> (case sr_line row b of None \<Rightarrow> Some h
           | Some l \<Rightarrow> fold_opt (sr_column b row l) [0..<min (bl_Len l) (sr_cols h)] h);
     sr_rowEnd b screen_rows row (row = last_row) h }"

section \<open>The whole text\<close>

definition cursor_moves :: "Buffer \<Rightarrow> serializer \<Rightarrow> byte list" where
  "cursor_moves b h =
    (let dy = b_YBase b + b_Y b - sr_lastCursorRow h; dx = b_X b - sr_lastCursorCol h in
     (if 0 < dy then csi_int dy 0x42 else if dy < 0 then csi_int (- dy) 0x41 else []) @
     (if 0 < dx then csi_int dx 0x43 else if dx < 0 then csi_int (- dx) 0x44 else []))"

fun join_rows :: "(byte list \<times> byte list) list \<Rightarrow> byte list" where
  "join_rows [] = []"
| "join_rows [(row, _)] = row"
| "join_rows ((row, sep) # rows) = row @ sep @ join_rows rows"

definition serializeString :: "Buffer \<Rightarrow> Term \<Rightarrow> bool \<Rightarrow> serializer \<Rightarrow> byte list" where
  "serializeString b t excludeFinalCursorPosition h =
    (let fits = (int (cl_length (b_Lines b)) - sr_firstRow h \<le> int (t_Rows t));
         rowEnd = (if fits then min (nat (sr_lastContentCursorRow h + 1 - sr_firstRow h)) (length (sr_allRows h))
                   else length (sr_allRows h));
         h = (if fits then h\<lparr>sr_lastCursorCol := sr_lastContentCursorCol h, sr_lastCursorRow := sr_lastContentCursorRow h\<rparr>
              else h);
         codes = diffStyle (NewCellData\<lparr>ad_Fg := ad_Fg (t_curAttr t), ad_Bg := ad_Bg (t_curAttr t)\<rparr>) (sr_cursorStyle h) in
     join_rows (take rowEnd (sr_allRows h)) @
     (if excludeFinalCursorPosition then [] else cursor_moves b h) @
     (if codes = [] then [] else sgr_text codes))"

definition ser_serialize :: "Buffer \<Rightarrow> Term \<Rightarrow> int \<Rightarrow> int \<Rightarrow> bool \<Rightarrow> byte list option" where
  "ser_serialize b t start last_row excludeFinalCursorPosition =
    (if last_row - start + 1 \<le> 0 then Some []
     else map_option (serializeString b t excludeFinalCursorPosition)
       (fold_opt (sr_row b (t_Rows t) last_row) [start..last_row] (newStringSerializeHandler start t)))"

definition constrain :: "int \<Rightarrow> int \<Rightarrow> int \<Rightarrow> int" where
  "constrain v lo hi = (if v < lo then lo else if hi < v then hi else v)"

definition serializeBufferByScrollback :: "Term \<Rightarrow> Buffer \<Rightarrow> int option \<Rightarrow> byte list option" where
  "serializeBufferByScrollback t b scrollback =
    (let maxRows = int (cl_length (b_Lines b));
         correctRows = (case scrollback of None \<Rightarrow> maxRows | Some n \<Rightarrow> constrain (n + int (t_Rows t)) 0 maxRows) in
     ser_serialize b t (maxRows - correctRows) (maxRows - 1) False)"

definition serializeScrollRegion :: "Term \<Rightarrow> byte list" where
  "serializeScrollRegion t =
    (let b = activeBuffer t in
     if b_ScrollTop b \<noteq> 0 \<or> b_ScrollBottom b \<noteq> int (t_Rows t) - 1
     then [0x1b, 0x5b] @ json_int (b_ScrollTop b + 1) @ [0x3b] @ json_int (b_ScrollBottom b + 1) @ [0x72] else [])"

text \<open>One sequence per mode that differs from its default.\<close>

definition private_mode :: "nat \<Rightarrow> byte \<Rightarrow> byte list" where
  "private_mode n final = [0x1b, 0x5b, 0x3f] @ dec_digits n @ [final]"

definition serializeModes :: "Term \<Rightarrow> byte list" where
  "serializeModes t =
    (let dm = t_modes t in
     (if dm_ApplicationCursorKeys dm then private_mode 1 0x68 else []) @
     (if dm_ApplicationKeypad dm then private_mode 66 0x68 else []) @
     (if dm_BracketedPasteMode dm then private_mode 2004 0x68 else []) @
     (if t_InsertMode t then [0x1b, 0x5b, 0x34, 0x68] else []) @
     (if dm_Origin dm then private_mode 6 0x68 else []) @
     (if dm_ReverseWraparound dm then private_mode 45 0x68 else []) @
     (if dm_SendFocus dm then private_mode 1004 0x68 else []) @
     (if \<not> dm_Wraparound dm then private_mode 7 0x6c else []) @
     (if dm_MouseTrackingMode dm = ''X10'' then private_mode 9 0x68
      else if dm_MouseTrackingMode dm = ''VT200'' then private_mode 1000 0x68
      else if dm_MouseTrackingMode dm = ''DRAG'' then private_mode 1002 0x68
      else if dm_MouseTrackingMode dm = ''ANY'' then private_mode 1003 0x68 else []) @
     (if t_IsCursorHidden t then private_mode 25 0x6c else []))"

record SerializeOptions =
  so_Scrollback :: "int option"
  so_Range :: "(int \<times> int) option"
  so_ExcludeAltBuffer :: bool
  so_ExcludeModes :: bool

definition Serialize :: "SerializeOptions \<Rightarrow> Term \<Rightarrow> byte list option" where
  "Serialize opts t = do {
     normal \<leftarrow> (case so_Range opts of
         Some (start, last_row) \<Rightarrow> ser_serialize (t_normal t) t start last_row True
       | None \<Rightarrow> serializeBufferByScrollback t (t_normal t) (so_Scrollback opts));
     alt \<leftarrow> (if \<not> so_ExcludeAltBuffer opts \<and> t_alt_active t
             then map_option (\<lambda>s. [0x1b, 0x5b, 0x3f, 0x31, 0x30, 0x34, 0x39, 0x68, 0x1b, 0x5b, 0x48] @ s)
               (serializeBufferByScrollback t (t_alt t) None)
             else Some []);
     Some (normal @ alt @ (if so_ExcludeModes opts then [] else serializeModes t @ serializeScrollRegion t)) }"

definition serialize_all :: SerializeOptions where
  "serialize_all = \<lparr>so_Scrollback = None, so_Range = None, so_ExcludeAltBuffer = False, so_ExcludeModes = False\<rparr>"

end
