(* ===== verification/Vt_Invariant.thy ===== *)
theory Vt_Invariant
  imports Vt_Terminal Vt_Cells
begin

text \<open>
  The invariant of the terminal: the cursor and the scroll region lie on the screen, the viewport in
  the buffer, and every row of the buffer is a line of the screen's width. The theory shows that the
  operations on the list of lines and on a buffer keep it, and so return at all.
\<close>

section \<open>Results that must be there\<close>

definition yields :: "('a \<Rightarrow> bool) \<Rightarrow> 'a option \<Rightarrow> bool" where
  "yields P m \<longleftrightarrow> (\<exists>x. m = Some x \<and> P x)"

lemma yields_simps [simp]: "yields P (Some x) = P x" "\<not> yields P None"
  "yields P (map_option f m) = yields (\<lambda>x. P (f x)) m"
  by (auto simp: yields_def)

lemma yields_bind: "yields Q m \<Longrightarrow> (\<And>x. Q x \<Longrightarrow> yields P (f x)) \<Longrightarrow> yields P (Option.bind m f)"
  by (auto simp: yields_def)

lemma yields_mono: "yields Q m \<Longrightarrow> (\<And>x. Q x \<Longrightarrow> P x) \<Longrightarrow> yields P m"
  by (auto simp: yields_def)

lemma yields_fold:
  assumes "P s" and "\<And>x s. x \<in> set xs \<Longrightarrow> P s \<Longrightarrow> yields P (f x s)"
  shows "yields P (fold_opt f xs s)"
  using fold_opt_invariant [of P s xs f] assms by (auto simp: yields_def)

section \<open>Lines\<close>

definition line_ok :: "nat \<Rightarrow> BufferLine \<Rightarrow> bool" where
  "line_ok c l \<longleftrightarrow> bl_Len l = c \<and> length (bl_data l) = c * 3"

lemma line_ok_wrapped [simp]: "line_ok c (l\<lparr>bl_IsWrapped := w\<rparr>) = line_ok c l"
  by (simp add: line_ok_def)

lemma line_slot: "line_ok c l \<Longrightarrow> i < c \<Longrightarrow> k < 3 \<Longrightarrow> \<exists>w. slot k i l = Some w"
  by (auto simp: slot_def line_ok_def)

lemma line_reads:
  assumes "line_ok c l" and "i < c"
  shows "\<exists>w. line_GetWidth i l = Some w" "\<exists>w. line_HasWidth i l = Some w" "\<exists>w. line_HasContent i l = Some w"
    "\<exists>w. line_GetFg i l = Some w" "\<exists>w. line_GetBg i l = Some w" "\<exists>w. line_IsProtected i l = Some w"
    "\<exists>w. line_GetString i l = Some w"
  using line_slot [OF assms, of 0] line_slot [OF assms, of 1] line_slot [OF assms, of 2]
  by (auto simp: line_GetWidth_def line_HasWidth_def line_HasContent_def line_GetFg_def line_GetBg_def
      line_IsProtected_def line_GetString_def)

lemma line_writes:
  assumes "line_ok c l" and "i < c"
  shows "yields (line_ok c) (SetCell i cell l)" "yields (line_ok c) (SetCellFromCodepoint i code w attrs l)"
    "yields (line_ok c) (AddCodepointToCell i code w l)" "yields (\<lambda>_. True) (LoadCell i cell l)"
  using assms line_slot [OF assms, of 0] line_slot [OF assms, of 1] line_slot [OF assms, of 2]
  by (auto simp: SetCell_def SetCellFromCodepoint_def AddCodepointToCell_def LoadCell_def line_ok_def Let_def yields_def)

lemma line_holds: "line_ok c l \<Longrightarrow> \<exists>cs. holds l cs \<and> length cs = c"
  using holds_exists [of l] by (auto simp: line_ok_def holds_def)

lemma gives_ok: "gives m cs w \<Longrightarrow> length cs = c \<Longrightarrow> yields (line_ok c) m"
  by (auto simp: gives_def holds_def yields_def line_ok_def dest!: givesD)

lemma length_cells:
  "p < length cs \<Longrightarrow> length (cells_insert p n fill cs) = length cs"
  "p < length cs \<Longrightarrow> length (cells_delete p n fill cs) = length cs"
  by (auto simp: cells_insert_def cells_delete_def Let_def)

lemma line_bulk:
  assumes "line_ok c l" and "0 < c"
  shows "yields (line_ok c) (InsertCells i n cell l)" "yields (line_ok c) (DeleteCells i n cell l)"
proof -
  obtain cs where cs: "holds l cs" "length cs = c" using line_holds [OF assms(1)] by blast
  with assms(2) have ne: "cs \<noteq> []" by auto
  have p: "i mod length cs < length cs" using ne by simp
  show "yields (line_ok c) (InsertCells i n cell l)"
    using gives_ok [OF InsertCells_cells [OF cs(1) ne, of i n cell]] cs(2) length_cells [OF p] by simp
  show "yields (line_ok c) (DeleteCells i n cell l)"
    using gives_ok [OF DeleteCells_cells [OF cs(1) ne, of i n cell]] cs(2) length_cells [OF p] by simp
qed

lemma yields_reset: "line_ok c l \<Longrightarrow> (b \<Longrightarrow> i < c) \<Longrightarrow> yields (line_ok c) (reset_if b i attrs l)"
  using line_writes(2) by (auto simp: reset_if_def)

lemma yields_protected:
  assumes "line_ok c l" and "\<And>i. i \<in> set is \<Longrightarrow> i < c"
  shows "yields (line_ok c) (fold_opt (\<lambda>i bl. do { p \<leftarrow> line_IsProtected i bl; if p = 0 then SetCell i cell bl else Some bl }) is l)"
proof (rule yields_fold)
  show "line_ok c l" by (rule assms(1))
next
  fix i bl assume "i \<in> set is" "line_ok c bl"
  with assms(2) have "line_ok c bl" "i < c" by auto
  then obtain p where "line_IsProtected i bl = Some p" using line_reads(6) by blast
  then show "yields (line_ok c) (do { p \<leftarrow> line_IsProtected i bl; if p = 0 then SetCell i cell bl else Some bl })"
    using line_writes(1) [OF \<open>line_ok c bl\<close> \<open>i < c\<close>] \<open>line_ok c bl\<close> by simp
qed

lemma yields_set_cells:
  assumes "line_ok c l" and "\<And>i. i \<in> set is \<Longrightarrow> i < c"
  shows "yields (line_ok c) (fold_opt (\<lambda>i. SetCell i cell) is l)"
  by (rule yields_fold) (use assms line_writes(1) in blast)+

lemma ReplaceCells_ok:
  assumes l: "line_ok c l" and s: "start \<le> c" and e: "0 < end"
  shows "yields (line_ok c) (ReplaceCells start end cell respectProtect l)"
proof -
  have w: "yields (\<lambda>_. True) (if b then line_GetWidth i x else Some 0)" if "line_ok c x" "b \<Longrightarrow> i < c" for b i x
    using line_reads(1) [OF that(1)] that(2) by (auto simp: yields_def)
  have p: "yields (\<lambda>_. True) (if b then line_IsProtected i x else Some 1)" if "line_ok c x" "b \<Longrightarrow> i < c" for b i x
    using line_reads(6) [OF that(1)] that(2) by (auto simp: yields_def)
  have we: "yields (\<lambda>w. w = 2 \<longrightarrow> end < c)
      (if end < bl_Len x then if end = 0 then None else line_GetWidth (end - 1) x else Some 0)" if "line_ok c x" for x
    using line_reads(1) [OF that, of "end - 1"] e that by (auto simp: yields_def line_ok_def)
  have ws: "yields (\<lambda>w. w = 2 \<longrightarrow> start - 1 < c) (if 0 < start then line_GetWidth (start - 1) l else Some 0)"
  proof (cases "0 < start")
    case True
    with s have "start - 1 < c" by simp
    with line_reads(1) [OF l this] True show ?thesis by (auto simp: yields_def)
  qed simp
  have fin: "i < c" if "i \<in> set [start..<min end (bl_Len x)]" "line_ok c x" for i x
    using that by (auto simp: line_ok_def)
  show ?thesis
  proof (cases respectProtect)
    case True
    show ?thesis unfolding ReplaceCells_def if_P [OF True]
      apply (rule yields_bind [OF ws])
      apply (rule yields_bind [OF p [OF l]], blast)
      apply (rule yields_bind [OF yields_reset [OF l]], blast)
      apply (rule yields_bind [OF we], assumption)
      apply (rule yields_bind [OF p], assumption, blast)
      apply (rule yields_bind [OF yields_reset], assumption, blast)
      by (rule yields_protected, assumption, rule fin)
  next
    case False
    show ?thesis unfolding ReplaceCells_def if_not_P [OF False]
      apply (rule yields_bind [OF ws])
      apply (rule yields_bind [OF yields_reset [OF l]], blast)
      apply (rule yields_bind [OF we], assumption)
      apply (rule yields_bind [OF yields_reset], assumption, blast)
      by (rule yields_set_cells, assumption, rule fin)
  qed
qed

lemma Fill_ok: "line_ok c l \<Longrightarrow> yields (line_ok c) (Fill cell respectProtect l)"
  unfolding Fill_def
  by (cases respectProtect) (auto intro!: yields_protected yields_set_cells simp: line_ok_def)

lemma NewBufferLine_ok: "yields (line_ok c) (NewBufferLine c cell w)"
  unfolding NewBufferLine_def by (auto simp: Let_def line_ok_def intro!: yields_set_cells)

lemma CopyFrom_ok: "line_ok c new \<Longrightarrow> line_ok c l \<Longrightarrow> line_ok c (line_CopyFrom new l)"
  by (simp add: line_CopyFrom_def line_ok_def)

section \<open>The list of lines\<close>

text \<open>
  Every slot of the array holds nil or a line of the width; the slots in use hold lines. An insertion
  that overflows the list scrambles it, but moves only what is in the array.
\<close>

definition row_ok :: "nat \<Rightarrow> BufferLine option \<Rightarrow> bool" where
  "row_ok c v \<longleftrightarrow> (\<forall>l. v = Some l \<longrightarrow> line_ok c l)"

definition slots :: "('a \<Rightarrow> bool) \<Rightarrow> 'a clist \<Rightarrow> bool" where
  "slots Q ls \<longleftrightarrow> clist_ok ls \<and> (\<forall>v \<in> set (cl_array ls). Q v)"

definition lines_ok :: "nat \<Rightarrow> BufferLine option clist \<Rightarrow> bool" where
  "lines_ok c ls \<longleftrightarrow> slots (row_ok c) ls \<and> None \<notin> set (clist_view ls)"

lemma row_ok_simps [simp]: "row_ok c (Some l) = line_ok c l" "row_ok c None"
  by (simp_all add: row_ok_def)

lemma slots_Get: "slots Q ls \<Longrightarrow> Q (cl_Get i ls)"
  by (simp add: slots_def cl_Get_def getCyclicIndex_bound)

lemma slots_Set: "slots Q ls \<Longrightarrow> Q v \<Longrightarrow> slots Q (cl_Set i v ls)"
  using set_update_subset_insert [of "cl_array ls" "getCyclicIndex ls i" v]
  by (auto simp: slots_def) (auto simp: cl_Set_def)

lemma slots_update [simp]:
  "slots Q (ls\<lparr>cl_startIdx := n\<rparr>) = slots Q ls" "slots Q (ls\<lparr>cl_trimmed := k\<rparr>) = slots Q ls"
  by (simp_all add: slots_def)

lemma slots_length: "slots Q ls \<Longrightarrow> n \<le> cl_maxLen ls \<Longrightarrow> slots Q (ls\<lparr>cl_length := n\<rparr>)"
  by (simp add: slots_def clist_ok_length)

lemma slots_fold: "slots Q ls \<Longrightarrow> (\<And>i c. slots Q c \<Longrightarrow> Q (h i c)) \<Longrightarrow> slots Q (fold (\<lambda>i c. cl_Set (g i) (h i c) c) is ls)"
  by (induction "is" arbitrary: ls) (auto intro: slots_Set)

lemma slots_lengths: "slots Q ls \<Longrightarrow> cl_length ls \<le> cl_maxLen ls \<and> 0 < cl_maxLen ls"
  by (simp add: slots_def clist_ok_def)

lemma slots_Push: "slots Q ls \<Longrightarrow> Q v \<Longrightarrow> slots Q (cl_Push v ls)"
  using slots_Set [of Q ls v "int (cl_length ls)"] slots_lengths [of Q ls]
  by (auto simp: cl_Push_def Let_def cl_fire_trim_def intro: slots_length)

lemma in_set_tl: "x \<in> set (tl xs) \<Longrightarrow> x \<in> set xs"
  by (cases xs) auto

lemma slots_store:
  "slots Q ls \<Longrightarrow> \<forall>v \<in> set items. Q v \<Longrightarrow> slots Q (splice_store start items ls)"
proof -
  have "slots Q c \<Longrightarrow> \<forall>p \<in> set ps. Q (snd p) \<Longrightarrow> slots Q (fold (\<lambda>(i, item). cl_Set (int (start + i)) item) ps c)" for ps c
    by (induction ps arbitrary: c) (simp_all add: slots_Set split_beta)
  note store = this
  assume "slots Q ls" and "\<forall>v \<in> set items. Q v"
  then show "slots Q (splice_store start items ls)"
    unfolding splice_store_def by (intro store) (auto simp: in_set_enumerate_eq)
qed

lemma slots_Splice:
  assumes ls: "slots Q ls" and items: "\<forall>v \<in> set items. Q v"
  shows "slots Q (Splice start n items ls)"
proof -
  let ?k = "length items" and ?c = "splice_delete start n ls"
  have "slots Q (fold (\<lambda>i c. cl_Set (int i) (cl_Get (int (i + n)) c) c) [start..<cl_length ls - n] ls)"
    by (rule slots_fold [OF ls]) (rule slots_Get)
  then have "slots Q ?c"
    using ls slots_lengths [OF ls] by (auto simp: splice_delete_def simp del: of_nat_add intro!: slots_length)
  then have "slots Q (splice_shift start ?k ?c)"
    unfolding splice_shift_def by (rule slots_fold) (rule slots_Get)
  from slots_store [OF this items] have c: "slots Q (splice_store start items (splice_shift start ?k ?c))" .
  show ?thesis
    using c \<open>slots Q ?c\<close> slots_lengths [OF c] slots_lengths [OF \<open>slots Q ?c\<close>]
    by (auto simp: Splice_def Let_def cl_fire_trim_def intro!: slots_length)
qed

lemma slots_TrimStart: "slots Q ls \<Longrightarrow> slots Q (TrimStart n ls)"
  using slots_lengths [of Q ls] by (auto simp: TrimStart_def Let_def cl_fire_trim_def intro!: slots_length)

lemma slots_Recycle: "slots Q ls \<Longrightarrow> Recycle ls = Some (v, ls') \<Longrightarrow> slots Q ls'"
  by (auto simp: Recycle_def Let_def cl_fire_trim_def split: if_splits)

text \<open>A full list has no slot that is not in use.\<close>

lemma full_slots:
  assumes ok: "clist_ok ls" and full: "cl_length ls = cl_maxLen ls" and v: "v \<in> set (cl_array ls)"
  shows "v \<in> set (clist_view ls)"
proof -
  let ?n = "cl_maxLen ls" and ?f = "\<lambda>i. getCyclicIndex ls (int i)"
  have len: "length (cl_array ls) = ?n" using ok by (simp add: clist_ok_def)
  have "inj_on ?f {..<?n}" using getCyclicIndex_inject [OF ok] by (auto simp: inj_on_def)
  moreover have "?f ` {..<?n} \<subseteq> {..<?n}" using getCyclicIndex_bound [OF ok] len by auto
  ultimately have "?f ` {..<?n} = {..<?n}" by (intro endo_inj_surj) auto
  moreover obtain j where "j < ?n" "v = cl_array ls ! j" using v len by (auto simp: in_set_conv_nth)
  ultimately have "j \<in> ?f ` {..<?n}" "v = cl_array ls ! j" by simp_all
  then obtain i where "i < ?n" "v = cl_Get (int i) ls" by (auto simp: cl_Get_def)
  then show ?thesis using full by (auto simp: in_set_conv_nth intro!: exI [of _ i])
qed

text \<open>What the operations of a buffer do to the list.\<close>

lemma lines_okI: "slots (row_ok c) ls \<Longrightarrow> None \<notin> set (clist_view ls) \<Longrightarrow> lines_ok c ls"
  by (simp add: lines_ok_def)

lemma lines_ok_full:
  assumes "lines_ok c ls" and "cl_length ls = cl_maxLen ls"
  shows "slots (\<lambda>v. v \<noteq> None) ls"
  unfolding slots_def
proof (intro conjI ballI)
  show "clist_ok ls" using assms(1) by (simp add: lines_ok_def slots_def)
  fix v assume "v \<in> set (cl_array ls)"
  with full_slots [OF \<open>clist_ok ls\<close> assms(2)] assms(1) show "v \<noteq> None" by (metis lines_ok_def)
qed

lemma slots_view: "slots Q ls \<Longrightarrow> v \<in> set (clist_view ls) \<Longrightarrow> Q v"
  by (auto simp: in_set_conv_nth intro: slots_Get)

lemma Get_ok:
  assumes "lines_ok c ls" and "0 \<le> i" and "i < int (cl_length ls)"
  shows "\<exists>l. cl_Get i ls = Some l \<and> line_ok c l"
proof -
  have "clist_view ls ! nat i \<in> set (clist_view ls)" by (rule nth_mem) (use assms in simp)
  then have "cl_Get i ls \<noteq> None" using assms by (metis lines_ok_def clist_view_nth nat_0_le nat_less_iff)
  moreover have "row_ok c (cl_Get i ls)" using assms(1) slots_Get by (auto simp: lines_ok_def)
  ultimately show ?thesis by (auto simp: row_ok_def)
qed

lemma Set_view: "clist_ok ls \<Longrightarrow> set (clist_view (cl_Set i v ls)) \<subseteq> insert v (set (clist_view ls))"
proof
  fix x
  assume ok: "clist_ok ls" and "x \<in> set (clist_view (cl_Set i v ls))"
  then obtain j where j: "j < cl_length ls" "x = cl_Get (int j) (cl_Set i v ls)" by (auto simp: in_set_conv_nth)
  then have "x = v \<or> x = cl_Get (int j) ls"
    using getCyclicIndex_bound [OF ok, of "int j"]
    by (cases "getCyclicIndex ls i = getCyclicIndex ls (int j)") (auto simp: cl_Get_def cl_Set_def getCyclicIndex_def)
  with j show "x \<in> insert v (set (clist_view ls))" by (auto simp: in_set_conv_nth intro!: exI [of _ j])
qed

lemma Set_ok: "lines_ok c ls \<Longrightarrow> line_ok c l \<Longrightarrow> lines_ok c (cl_Set i (Some l) ls)"
  using Set_view [of ls i "Some l"] slots_Set [of "row_ok c" ls "Some l" i]
  by (auto simp: lines_ok_def) (auto simp: slots_def)

lemma Push_ok: "lines_ok c ls \<Longrightarrow> line_ok c l \<Longrightarrow> lines_ok c (cl_Push (Some l) ls)"
  using cl_Push_view [of ls "Some l"] slots_Push [of "row_ok c" ls "Some l"]
  by (auto simp: lines_ok_def slots_def [of "row_ok c" ls] dest: in_set_tl split: if_splits)

lemma TrimStart_ok: "lines_ok c ls \<Longrightarrow> lines_ok c (TrimStart n ls)"
  using TrimStart_view [of ls n] slots_TrimStart [of "row_ok c" ls n]
  by (auto simp: lines_ok_def slots_def dest: in_set_dropD)

lemma Recycle_ok:
  assumes "lines_ok c ls" and "cl_length ls = cl_maxLen ls"
  shows "\<exists>l ls'. Recycle ls = Some (Some l, ls') \<and> line_ok c l \<and> lines_ok c ls' \<and> cl_length ls' = cl_length ls
    \<and> cl_maxLen ls' = cl_maxLen ls"
proof -
  have ok: "clist_ok ls" "None \<notin> set (clist_view ls)" "slots (row_ok c) ls" using assms(1) by (auto simp: lines_ok_def slots_def)
  obtain ls' where ls': "Recycle ls = Some (hd (clist_view ls), ls')"
    "clist_view ls' = tl (clist_view ls) @ [hd (clist_view ls)]"
    using Recycle_view [OF ok(1) assms(2)] by auto
  have "clist_view ls \<noteq> []" using assms(2) slots_lengths [OF ok(3)] by (auto simp flip: length_0_conv)
  then have hd: "hd (clist_view ls) \<in> set (clist_view ls)" by simp
  then have "hd (clist_view ls) \<noteq> None" using ok(2) by metis
  then obtain l where l: "hd (clist_view ls) = Some l" by auto
  have "line_ok c l" using slots_view [OF ok(3) hd] l by simp
  moreover have "lines_ok c ls'"
    using slots_Recycle [OF ok(3) ls'(1)] ok(2) l ls'(2) by (auto simp: lines_ok_def dest: in_set_tl)
  moreover have "cl_length ls' = cl_length ls" "cl_maxLen ls' = cl_maxLen ls"
    using ls'(1) by (auto simp: Recycle_def Let_def cl_fire_trim_def split: if_splits)
  ultimately show ?thesis using ls'(1) l by auto
qed

lemma Splice_maxLen [simp]: "cl_maxLen (Splice start n items ls) = cl_maxLen ls"
  by (simp add: Splice_def Let_def cl_fire_trim_def splice_delete_def)

lemma Splice_length:
  "cl_length (Splice start n items ls) = min (cl_maxLen ls) (cl_length ls - n + length items) \<or> items = [] \<and> cl_length (Splice start n items ls) = cl_length ls - n"
  by (auto simp: Splice_def Let_def cl_fire_trim_def splice_delete_def)

lemma Splice_delete_ok:
  assumes "lines_ok c ls" and "start + n \<le> cl_length ls"
  shows "lines_ok c (Splice start n [] ls)" "cl_length (Splice start n [] ls) = cl_length ls - n"
proof -
  have ok: "clist_ok ls" using assms(1) by (simp add: lines_ok_def slots_def)
  then have "cl_length ls - n + length [] \<le> cl_maxLen ls" by (auto simp: clist_ok_def)
  with Splice_view [OF ok assms(2), of "[]"]
  have v: "clist_view (Splice start n [] ls) = take start (clist_view ls) @ drop (start + n) (clist_view ls)" by simp
  then show "lines_ok c (Splice start n [] ls)"
    using slots_Splice [of "row_ok c" ls "[]" start n] assms(1)
    by (auto simp: lines_ok_def dest: in_set_dropD in_set_takeD)
  show "cl_length (Splice start n [] ls) = cl_length ls - n"
    using arg_cong [OF v, of length] assms(2) by simp
qed

lemma Splice_insert_ok:
  assumes ls: "lines_ok c ls" and start: "start \<le> cl_length ls" and l: "line_ok c l"
  shows "lines_ok c (Splice start 0 [Some l] ls)"
    "cl_length (Splice start 0 [Some l] ls) = min (cl_maxLen ls) (cl_length ls + 1)"
proof -
  have ok: "clist_ok ls" using ls by (simp add: lines_ok_def slots_def)
  have s: "slots (row_ok c) (Splice start 0 [Some l] ls)"
    by (rule slots_Splice) (use ls l in \<open>simp_all add: lines_ok_def\<close>)
  show "cl_length (Splice start 0 [Some l] ls) = min (cl_maxLen ls) (cl_length ls + 1)"
    using Splice_length [of start 0 "[Some l]" ls] by auto
  show "lines_ok c (Splice start 0 [Some l] ls)"
  proof (cases "cl_length ls = cl_maxLen ls")
    case True
    from lines_ok_full [OF ls this] have "slots (\<lambda>v. v \<noteq> None) (Splice start 0 [Some l] ls)"
      by (rule slots_Splice) simp
    from slots_view [OF this, of None] show ?thesis using s by (auto intro: lines_okI)
  next
    case False
    then have "cl_length ls - 0 + length [Some l] \<le> cl_maxLen ls" using ok by (simp add: clist_ok_def)
    with Splice_view [OF ok _ this, of start] start
    have "clist_view (Splice start 0 [Some l] ls) = take start (clist_view ls) @ [Some l] @ drop start (clist_view ls)" by simp
    then show ?thesis using s ls by (auto simp: lines_ok_def dest: in_set_dropD in_set_takeD)
  qed
qed

text \<open>A shift that stays within the rows in use.\<close>

lemma fold_rows_ok:
  assumes "lines_ok c ls" and "\<And>i. i \<in> set is \<Longrightarrow> 0 \<le> h i \<and> h i < int (cl_length ls)"
  shows "lines_ok c (fold (\<lambda>i c. cl_Set (g i) (cl_Get (h i) c) c) is ls)"
  using assms
proof (induction "is" arbitrary: ls)
  case (Cons i "is")
  obtain l where "cl_Get (h i) ls = Some l" "line_ok c l" using Get_ok [OF Cons.prems(1)] Cons.prems(2) [of i] by auto
  then have "lines_ok c (cl_Set (g i) (cl_Get (h i) ls) ls)" using Set_ok [OF Cons.prems(1)] by simp
  then show ?case using Cons.IH Cons.prems(2) by simp
qed simp

lemma ShiftElements_ok:
  assumes "lines_ok c ls" and "0 \<le> start" and "0 \<le> start + off" and "start < int (cl_length ls)"
    and "start + count \<le> int (cl_length ls)" and "start + count + off \<le> int (cl_length ls)"
  shows "\<exists>ls'. ShiftElements start count off ls = Some ls' \<and> lines_ok c ls' \<and> cl_length ls' = cl_length ls
    \<and> cl_maxLen ls' = cl_maxLen ls"
proof (cases "count \<le> 0")
  case False
  let ?f = "\<lambda>is. fold (\<lambda>i c. cl_Set (start + int i + off) (cl_Get (start + int i) c) c) is ls"
  have ok: "lines_ok c (?f is)" if "set is \<subseteq> {0..<nat count}" for "is"
    by (rule fold_rows_ok [OF assms(1)]) (use that assms False in auto)
  show ?thesis
    using ok [of "[0..<nat count]"] ok [of "rev [0..<nat count]"] assms False
    by (simp add: ShiftElements_def Let_def)
qed (use assms in \<open>simp add: ShiftElements_def\<close>)

section \<open>Buffers\<close>

definition buf_ok :: "nat \<Rightarrow> nat \<Rightarrow> Buffer \<Rightarrow> bool" where
  "buf_ok c r b \<longleftrightarrow> b_cols b = c \<and> b_rows b = r \<and> 0 \<le> b_X b \<and> b_X b \<le> int c \<and> 0 \<le> b_Y b \<and> b_Y b < int r
     \<and> 0 \<le> b_ScrollTop b \<and> b_ScrollTop b \<le> b_ScrollBottom b \<and> b_ScrollBottom b < int r
     \<and> 0 \<le> b_YDisp b \<and> b_YDisp b \<le> b_YBase b \<and> lines_ok c (b_Lines b) \<and> r \<le> cl_maxLen (b_Lines b)"

text \<open>A buffer in use: below the scroll offset there is one screen.\<close>

definition live :: "nat \<Rightarrow> nat \<Rightarrow> Buffer \<Rightarrow> bool" where
  "live c r b \<longleftrightarrow> buf_ok c r b \<and> int (cl_length (b_Lines b)) = b_YBase b + int r"

lemma ok_updates [simp]:
  "buf_ok c r (b\<lparr>b_disposed := d\<rparr>) = buf_ok c r b" "live c r (b\<lparr>b_disposed := d\<rparr>) = live c r b"
  "live c r (b\<lparr>b_Tabs := ts\<rparr>) = live c r b" "live c r (b\<lparr>b_SavedState := s\<rparr>) = live c r b"
  "live c r (b\<lparr>b_Markers := ms\<rparr>) = live c r b"
  by (simp_all add: buf_ok_def live_def)

lemma live_fire [simp]: "live c r (fire e b) = live c r b"
  by (simp add: buf_ok_def live_def)

lemma live_bounds:
  assumes "live c r b"
  shows "0 \<le> b_X b" "b_X b \<le> int c" "0 \<le> b_Y b" "b_Y b < int r" "0 \<le> b_ScrollTop b"
    "b_ScrollTop b \<le> b_ScrollBottom b" "b_ScrollBottom b < int r" "0 \<le> b_YDisp b" "b_YDisp b \<le> b_YBase b"
    "int (cl_length (b_Lines b)) = b_YBase b + int r" "lines_ok c (b_Lines b)" "b_cols b = c" "b_rows b = r"
    "r \<le> cl_maxLen (b_Lines b)" "0 \<le> b_YBase b"
  using assms by (auto simp: buf_ok_def live_def)

lemma live_move: "live c r b \<Longrightarrow> 0 \<le> x \<Longrightarrow> x \<le> int c \<Longrightarrow> 0 \<le> y \<Longrightarrow> y < int r \<Longrightarrow> live c r (b\<lparr>b_X := x, b_Y := y\<rparr>)"
  by (simp add: buf_ok_def live_def)

lemma live_X: "live c r b \<Longrightarrow> 0 \<le> x \<Longrightarrow> x \<le> int c \<Longrightarrow> live c r (b\<lparr>b_X := x\<rparr>)"
  by (simp add: buf_ok_def live_def)

lemma live_Y: "live c r b \<Longrightarrow> 0 \<le> y \<Longrightarrow> y < int r \<Longrightarrow> live c r (b\<lparr>b_Y := y\<rparr>)"
  by (simp add: buf_ok_def live_def)

lemma live_YDisp: "live c r b \<Longrightarrow> 0 \<le> y \<Longrightarrow> y \<le> b_YBase b \<Longrightarrow> live c r (b\<lparr>b_YDisp := y\<rparr>)"
  by (simp add: buf_ok_def live_def)

lemma live_region:
  "live c r b \<Longrightarrow> 0 \<le> y1 \<Longrightarrow> y1 \<le> y2 \<Longrightarrow> y2 < int r \<Longrightarrow> live c r (b\<lparr>b_ScrollTop := y1, b_ScrollBottom := y2\<rparr>)"
  by (simp add: buf_ok_def live_def)

lemma live_lines:
  assumes "live c r b" and "lines_ok c ls" and "cl_length ls = cl_length (b_Lines b)" and "cl_maxLen ls = cl_maxLen (b_Lines b)"
  shows "live c r (b\<lparr>b_Lines := ls\<rparr>)" "live c r (with_trims ls b)"
  using assms by (simp_all add: buf_ok_def live_def)

lemma live_Set: "live c r b \<Longrightarrow> line_ok c l \<Longrightarrow> live c r (lines_Set i (Some l) b)"
  unfolding lines_Set_def by (rule live_lines) (auto intro: Set_ok live_bounds)

lemma live_Get: "live c r b \<Longrightarrow> 0 \<le> i \<Longrightarrow> i < int (cl_length (b_Lines b)) \<Longrightarrow> \<exists>l. lines_Get i b = Some l \<and> line_ok c l"
  unfolding lines_Get_def by (rule Get_ok) (auto intro: live_bounds)

lemma live_row: "live c r b \<Longrightarrow> lines_Get i b = Some l \<Longrightarrow> line_ok c l"
  using slots_Get [of "row_ok c" "b_Lines b" i] by (auto simp: lines_Get_def live_def buf_ok_def lines_ok_def)

lemma blank_ok: "b_cols b = c \<Longrightarrow> yields (line_ok c) (GetBlankLine attr w b)"
  unfolding GetBlankLine_def by (simp add: NewBufferLine_ok)

text \<open>One line out, one line in: between the two the list is one short.\<close>

lemma live_splice:
  assumes b: "live c r b" and lv: "0 \<le> i" "i < int (cl_length (b_Lines b))"
  shows "\<exists>b1. lines_Splice i 1 [] b = Some b1 \<and> b_cols b1 = c \<and> b_YBase b1 = b_YBase b
    \<and> b_ScrollTop b1 = b_ScrollTop b \<and> b_ScrollBottom b1 = b_ScrollBottom b
    \<and> (\<forall>j l d. 0 \<le> j \<longrightarrow> j < int (cl_length (b_Lines b)) \<longrightarrow> line_ok c l \<longrightarrow>
        yields (live c r) (lines_Splice j 0 [Some l] (b1\<lparr>b_disposed := d\<rparr>)))"
proof -
  let ?ls = "Splice (nat i) 1 [] (b_Lines b)"
  let ?b1 = "with_trims ?ls (fire (DeleteEvent i 1) b)"
  have ok: "lines_ok c (b_Lines b)" and fits: "cl_length (b_Lines b) \<le> cl_maxLen (b_Lines b)"
    using b by (auto simp: live_def buf_ok_def lines_ok_def slots_def clist_ok_def)
  have ls: "lines_ok c ?ls" "cl_length ?ls = cl_length (b_Lines b) - 1"
    using Splice_delete_ok [OF ok, of "nat i" 1] lv by auto
  have "yields (live c r) (lines_Splice j 0 [Some l] (?b1\<lparr>b_disposed := d\<rparr>))"
    if "0 \<le> j" "j < int (cl_length (b_Lines b))" "line_ok c l" for j l d
  proof -
    let ?m = "Splice (nat j) 0 [Some l] ?ls"
    have "nat j \<le> cl_length ?ls" using that ls(2) by (simp add: nat_le_iff)
    from Splice_insert_ok [OF ls(1) this that(3)]
    have m: "lines_ok c ?m" "cl_length ?m = cl_length (b_Lines b)" using fits ls(2) lv by auto
    then show ?thesis using that b by (simp add: lines_Splice_def live_def buf_ok_def)
  qed
  then show ?thesis using lv b
    by (intro exI [of _ ?b1]) (simp add: lines_Splice_def live_def buf_ok_def)
qed

lemma live_shift:
  assumes "live c r b" and "0 \<le> start" "0 \<le> start + off" "start < int (cl_length (b_Lines b))"
    and "start + count \<le> int (cl_length (b_Lines b))" "start + count + off \<le> int (cl_length (b_Lines b))"
  shows "yields (\<lambda>b'. live c r b' \<and> b_YBase b' = b_YBase b \<and> b_X b' = b_X b \<and> b_Y b' = b_Y b) (lines_ShiftElements start count off b)"
proof -
  obtain ls where "ShiftElements start count off (b_Lines b) = Some ls" "lines_ok c ls"
    "cl_length ls = cl_length (b_Lines b)" "cl_maxLen ls = cl_maxLen (b_Lines b)"
    using ShiftElements_ok [OF live_bounds(11) [OF assms(1)] assms(2-6)] by blast
  then show ?thesis using live_lines(2) [OF assms(1)] by (simp add: lines_ShiftElements_def)
qed

end
