(* ===== verification/Vt_Safe.thy ===== *)
theory Vt_Safe
  imports Vt_Invariant
begin

text \<open>
  The invariant of the whole terminal, and that every control character, escape sequence and control
  sequence keeps it and returns.
\<close>

section \<open>The terminal\<close>

definition idle :: "nat \<Rightarrow> nat \<Rightarrow> Buffer \<Rightarrow> bool" where
  "idle c r b \<longleftrightarrow> buf_ok c r b \<and> cl_length (b_Lines b) = 0 \<and> b_YBase b = 0"

text \<open>The active buffer satisfies \<open>P\<close>, which is \<open>live\<close> between two operations.\<close>

definition screen_with :: "(Buffer \<Rightarrow> bool) \<Rightarrow> nat \<Rightarrow> nat \<Rightarrow> Term \<Rightarrow> bool" where
  "screen_with P c r t \<longleftrightarrow> t_Cols t = c \<and> t_Rows t = r \<and> 2 \<le> c \<and> 1 \<le> r \<and> r \<le> MaxBufferSize \<and> P (activeBuffer t)
     \<and> (if t_alt_active t then live c r (t_normal t) else idle c r (t_alt t))
     \<and> (\<forall>l. t_cachedBlankLine t = Some l \<longrightarrow> line_ok (bl_Len l) l) \<and> ad_Extended (t_curAttr t) \<noteq> None"

definition screen :: "nat \<Rightarrow> nat \<Rightarrow> Term \<Rightarrow> bool" where
  "screen c r t \<longleftrightarrow> screen_with (live c r) c r t"

text \<open>What an update of another field leaves alone.\<close>

lemma active_simps [simp]:
  "activeBuffer (t\<lparr>t_events := x1\<rparr>) = activeBuffer t" "activeBuffer (t\<lparr>t_modes := x2\<rparr>) = activeBuffer t"
  "activeBuffer (t\<lparr>t_opts := x3\<rparr>) = activeBuffer t" "activeBuffer (t\<lparr>t_charset := x4\<rparr>) = activeBuffer t"
  "activeBuffer (t\<lparr>t_kitty := x5\<rparr>) = activeBuffer t" "activeBuffer (t\<lparr>t_links := x6\<rparr>) = activeBuffer t"
  "activeBuffer (t\<lparr>t_nextMarker := x7\<rparr>) = activeBuffer t" "activeBuffer (t\<lparr>t_orphans := x8\<rparr>) = activeBuffer t"
  "activeBuffer (t\<lparr>t_eraseAttr := x9\<rparr>) = activeBuffer t" "activeBuffer (t\<lparr>t_curAttr := y1\<rparr>) = activeBuffer t"
  "activeBuffer (t\<lparr>t_dirtyStart := y2\<rparr>) = activeBuffer t" "activeBuffer (t\<lparr>t_dirtyEnd := y3\<rparr>) = activeBuffer t"
  "activeBuffer (t\<lparr>t_windowTitle := y4\<rparr>) = activeBuffer t" "activeBuffer (t\<lparr>t_windowTitleStack := y5\<rparr>) = activeBuffer t"
  "activeBuffer (t\<lparr>t_iconNameStack := y5\<rparr>) = activeBuffer t" "activeBuffer (t\<lparr>t_IsCursorHidden := y6\<rparr>) = activeBuffer t"
  "activeBuffer (t\<lparr>t_IsCursorInitialized := y7\<rparr>) = activeBuffer t" "activeBuffer (t\<lparr>t_InsertMode := y8\<rparr>) = activeBuffer t"
  "activeBuffer (t\<lparr>t_IsUserScrolling := y9\<rparr>) = activeBuffer t" "activeBuffer (t\<lparr>t_cachedBlankLine := z1\<rparr>) = activeBuffer t"
  by (simp_all add: activeBuffer_def)

lemma with_simps [simp]:
  "screen_with P c r (t\<lparr>t_events := x1\<rparr>) = screen_with P c r t" "screen_with P c r (t\<lparr>t_modes := x2\<rparr>) = screen_with P c r t"
  "screen_with P c r (t\<lparr>t_opts := x3\<rparr>) = screen_with P c r t" "screen_with P c r (t\<lparr>t_charset := x4\<rparr>) = screen_with P c r t"
  "screen_with P c r (t\<lparr>t_kitty := x5\<rparr>) = screen_with P c r t" "screen_with P c r (t\<lparr>t_links := x6\<rparr>) = screen_with P c r t"
  "screen_with P c r (t\<lparr>t_nextMarker := x7\<rparr>) = screen_with P c r t" "screen_with P c r (t\<lparr>t_orphans := x8\<rparr>) = screen_with P c r t"
  "screen_with P c r (t\<lparr>t_eraseAttr := x9\<rparr>) = screen_with P c r t"
  "screen_with P c r (t\<lparr>t_dirtyStart := y2\<rparr>) = screen_with P c r t" "screen_with P c r (t\<lparr>t_dirtyEnd := y3\<rparr>) = screen_with P c r t"
  "screen_with P c r (t\<lparr>t_windowTitle := y4\<rparr>) = screen_with P c r t"
  "screen_with P c r (t\<lparr>t_windowTitleStack := y5\<rparr>) = screen_with P c r t"
  "screen_with P c r (t\<lparr>t_iconNameStack := y5\<rparr>) = screen_with P c r t"
  "screen_with P c r (t\<lparr>t_IsCursorHidden := y6\<rparr>) = screen_with P c r t"
  "screen_with P c r (t\<lparr>t_IsCursorInitialized := y7\<rparr>) = screen_with P c r t"
  "screen_with P c r (t\<lparr>t_InsertMode := y8\<rparr>) = screen_with P c r t"
  "screen_with P c r (t\<lparr>t_IsUserScrolling := y9\<rparr>) = screen_with P c r t"
  by (simp_all add: screen_with_def)

lemma with_curAttr: "screen_with P c r t \<Longrightarrow> ad_Extended a \<noteq> None \<Longrightarrow> screen_with P c r (t\<lparr>t_curAttr := a\<rparr>)"
  by (simp add: screen_with_def)

lemma active_put [simp]: "activeBuffer (put_buf b t) = b\<lparr>b_disposed := []\<rparr>"
  by (simp add: put_buf_def settle_def set_active_def activeBuffer_def)

lemma put_sel [simp]:
  "t_Cols (put_buf b t) = t_Cols t" "t_Rows (put_buf b t) = t_Rows t" "t_modes (put_buf b t) = t_modes t"
  "t_opts (put_buf b t) = t_opts t" "t_curAttr (put_buf b t) = t_curAttr t" "t_eraseAttr (put_buf b t) = t_eraseAttr t"
  "t_InsertMode (put_buf b t) = t_InsertMode t" "t_IsUserScrolling (put_buf b t) = t_IsUserScrolling t"
  "t_cachedBlankLine (put_buf b t) = t_cachedBlankLine t" "t_alt_active (put_buf b t) = t_alt_active t"
  "t_charset (put_buf b t) = t_charset t" "t_events (put_buf b t) = t_events t" "t_kitty (put_buf b t) = t_kitty t"
  "t_IsCursorHidden (put_buf b t) = t_IsCursorHidden t"
  by (simp_all add: put_buf_def settle_def set_active_def)

lemma with_put: "screen_with P c r t \<Longrightarrow> Q (b\<lparr>b_disposed := []\<rparr>) \<Longrightarrow> screen_with Q c r (put_buf b t)"
  by (auto simp: screen_with_def) (auto simp: put_buf_def settle_def set_active_def split: if_splits)

lemma with_active: "screen_with P c r t \<Longrightarrow> P (activeBuffer t)"
  by (simp add: screen_with_def)

lemma screen_live: "screen c r t \<Longrightarrow> live c r (activeBuffer t)"
  by (simp add: screen_def screen_with_def)

lemma screen_size: "screen c r t \<Longrightarrow> t_Cols t = c \<and> t_Rows t = r \<and> 2 \<le> c \<and> 1 \<le> r"
  by (simp add: screen_def screen_with_def)

lemma screen_put: "screen c r t \<Longrightarrow> live c r b \<Longrightarrow> screen c r (put_buf b t)"
  unfolding screen_def by (erule with_put) simp

lemma screen_on_buf: "screen c r t \<Longrightarrow> live c r (f (activeBuffer t)) \<Longrightarrow> screen c r (on_buf f t)"
  by (simp add: on_buf_def screen_put)

lemma screen_try_buf: "screen c r t \<Longrightarrow> yields (live c r) (f (activeBuffer t)) \<Longrightarrow> yields (screen c r) (try_buf f t)"
  by (auto simp: try_buf_def yields_def screen_put)

lemma happens_screen [simp]: "screen c r (happens e t) = screen c r t"
  by (simp add: happens_def screen_def)

lemma Trigger_screen [simp]: "screen c r (TriggerDataEvent d t) = screen c r t"
  by (simp add: TriggerDataEvent_def)

lemma dirty_screen [simp]: "screen c r (MarkDirty y t) = screen c r t" "screen c r (MarkRangeDirty a b t) = screen c r t"
  "screen c r (MarkAllDirty t) = screen c r t" "screen c r (erase_ready t) = screen c r t" "screen c r (ClearRange t) = screen c r t"
  by (simp_all add: MarkDirty_def MarkRangeDirty_def MarkAllDirty_def erase_ready_def ClearRange_def screen_def Let_def)

lemma other_active [simp]: "activeBuffer (happens e t) = activeBuffer t" "activeBuffer (MarkDirty y t) = activeBuffer t"
  "activeBuffer (MarkRangeDirty a b t) = activeBuffer t" "activeBuffer (MarkAllDirty t) = activeBuffer t"
  "activeBuffer (erase_ready t) = activeBuffer t" "activeBuffer (TriggerDataEvent d t) = activeBuffer t"
  by (simp_all add: happens_def MarkDirty_def MarkRangeDirty_def MarkAllDirty_def erase_ready_def TriggerDataEvent_def Let_def)

section \<open>The cursor\<close>

lemma cur_simps: "cur_X t = b_X (activeBuffer t)" "cur_Y t = b_Y (activeBuffer t)"
  "cursor_row t = b_YBase (activeBuffer t) + b_Y (activeBuffer t)"
  by (simp_all add: cur_X_def cur_Y_def cursor_row_def)

lemma cursor_bounds:
  assumes "screen c r t"
  shows "0 \<le> cur_X t" "cur_X t \<le> int c" "0 \<le> cur_Y t" "cur_Y t < int r" "0 \<le> cursor_row t"
    "cursor_row t < int (cl_length (b_Lines (activeBuffer t)))"
  using live_bounds [OF screen_live [OF assms]] by (simp_all add: cur_simps)

lemma screen_X: "screen c r t \<Longrightarrow> 0 \<le> x \<Longrightarrow> x \<le> int c \<Longrightarrow> screen c r (set_X x t)"
  unfolding set_X_def by (rule screen_on_buf) (simp_all add: screen_live live_X)

lemma screen_Y: "screen c r t \<Longrightarrow> 0 \<le> y \<Longrightarrow> y < int r \<Longrightarrow> screen c r (set_Y y t)"
  unfolding set_Y_def by (rule screen_on_buf) (simp_all add: screen_live live_Y)

text \<open>A cursor anywhere, to be brought back to the screen.\<close>

definition drift :: "nat \<Rightarrow> nat \<Rightarrow> Buffer \<Rightarrow> bool" where
  "drift c r b \<longleftrightarrow> live c r (b\<lparr>b_X := 0, b_Y := 0\<rparr>)"

lemma drift_simps [simp]: "drift c r (b\<lparr>b_X := x\<rparr>) = drift c r b" "drift c r (b\<lparr>b_Y := x\<rparr>) = drift c r b"
  "drift c r (b\<lparr>b_disposed := ds\<rparr>) = drift c r b"
  by (simp_all add: drift_def live_def buf_ok_def)

lemma live_drift: "live c r b \<Longrightarrow> drift c r b"
  by (auto simp: drift_def live_def buf_ok_def)

lemma drift_live: "drift c r b \<Longrightarrow> 0 \<le> b_X b \<Longrightarrow> b_X b \<le> int c \<Longrightarrow> 0 \<le> b_Y b \<Longrightarrow> b_Y b < int r \<Longrightarrow> live c r b"
  by (simp add: drift_def live_def buf_ok_def)

lemma drift_screen:
  "screen_with (drift c r) c r t \<Longrightarrow> 0 \<le> cur_X t \<Longrightarrow> cur_X t \<le> int c \<Longrightarrow> 0 \<le> cur_Y t \<Longrightarrow> cur_Y t < int r \<Longrightarrow> screen c r t"
  by (auto simp: screen_def screen_with_def cur_simps drift_live)

lemma screen_drift: "screen c r t \<Longrightarrow> screen_with (drift c r) c r t"
  by (auto simp: screen_def screen_with_def live_drift)

lemma restrict_drift:
  assumes t: "screen_with (drift c r) c r t" and mc: "0 \<le> mc" "mc \<le> int c"
  shows "screen c r (restrictCursor_to mc t)" "cur_X (restrictCursor_to mc t) \<le> mc"
proof -
  have d: "drift c r (activeBuffer t)" "t_Rows t = r" "1 \<le> r" using t by (auto simp: screen_with_def)
  then have b: "0 \<le> b_ScrollTop (activeBuffer t)" "b_ScrollTop (activeBuffer t) \<le> b_ScrollBottom (activeBuffer t)"
    "b_ScrollBottom (activeBuffer t) < int r" by (auto simp: drift_def live_def buf_ok_def)
  show "screen c r (restrictCursor_to mc t)"
    unfolding restrictCursor_to_def on_buf_def screen_def
    by (rule with_put [OF t], simp only: ok_updates, rule drift_live)
      (use d b mc in \<open>auto simp: Let_def\<close>)
  show "cur_X (restrictCursor_to mc t) \<le> mc"
    using mc by (auto simp: restrictCursor_to_def on_buf_def cur_simps Let_def)
qed

lemma restrictCursor_drift:
  "screen_with (drift c r) c r t \<Longrightarrow> screen c r (restrictCursor t) \<and> cur_X (restrictCursor t) < int c"
  using restrict_drift [of c r t "int c - 1"] by (auto simp: restrictCursor_def screen_with_def)

lemma restrictCursor_ok: "screen c r t \<Longrightarrow> screen c r (restrictCursor t)" "screen c r t \<Longrightarrow> cur_X (restrictCursor t) < int c"
  using restrictCursor_drift screen_drift by blast+

lemma restrict_cols_ok: "screen c r t \<Longrightarrow> screen c r (restrictCursor_to (int (t_Cols t)) t)"
  using restrict_drift(1) [OF screen_drift, of c r t "int c"] screen_size [of c r t] by simp

lemma setCursor_ok: "screen c r t \<Longrightarrow> screen c r (setCursor x y t)" "screen c r t \<Longrightarrow> cur_X (setCursor x y t) < int c"
proof -
  assume t: "screen c r t"
  have "screen_with (drift c r) c r
      (on_buf (\<lambda>b. if dm_Origin (t_modes t) then b\<lparr>b_X := x, b_Y := b_ScrollTop b + y\<rparr> else b\<lparr>b_X := x, b_Y := y\<rparr>) t)"
    unfolding on_buf_def by (rule with_put [OF screen_drift [OF t]]) (use screen_live [OF t] in \<open>simp add: live_drift\<close>)
  from restrictCursor_drift [OF this]
  show "screen c r (setCursor x y t)" "cur_X (setCursor x y t) < int c" by (simp_all add: setCursor_def)
qed

lemma moveCursor_ok: "screen c r t \<Longrightarrow> screen c r (moveCursor x y t)"
  by (simp add: moveCursor_def Let_def restrictCursor_ok setCursor_ok)

section \<open>Rows\<close>

text \<open>What a change of a row leaves alone.\<close>

definition same :: "Term \<Rightarrow> Term \<Rightarrow> bool" where
  "same t t' \<longleftrightarrow> t' = t \<or> (\<exists>i v. t' = on_buf (lines_Set i v) t)"

lemma same_simps:
  assumes "same t t'"
  shows "cur_X t' = cur_X t" "cur_Y t' = cur_Y t" "cursor_row t' = cursor_row t" "t_modes t' = t_modes t"
    "b_ScrollTop (activeBuffer t') = b_ScrollTop (activeBuffer t)" "b_ScrollBottom (activeBuffer t') = b_ScrollBottom (activeBuffer t)"
    "b_YBase (activeBuffer t') = b_YBase (activeBuffer t)" "t_InsertMode t' = t_InsertMode t" "t_opts t' = t_opts t"
    "t_curAttr t' = t_curAttr t"
  using assms by (auto simp: same_def on_buf_def lines_Set_def cur_simps)

lemma on_line_ok:
  assumes t: "screen c r t" and f: "\<And>l. line_ok c l \<Longrightarrow> yields (line_ok c) (f l)"
  shows "yields (\<lambda>t'. screen c r t' \<and> same t t') (on_line row f t)"
proof (cases "lines_Get row (activeBuffer t)")
  case (Some l)
  with live_row [OF screen_live [OF t]] have "line_ok c l" by blast
  from f [OF this] obtain l' where l': "f l = Some l'" "line_ok c l'" by (auto simp: yields_def)
  have "screen c r (on_buf (lines_Set row (Some l')) t)"
    by (rule screen_on_buf [OF t]) (rule live_Set [OF screen_live [OF t] l'(2)])
  then show ?thesis using Some l' by (auto simp: on_line_def same_def)
qed (simp add: on_line_def same_def t)

lemma on_line_screen:
  "screen c r t \<Longrightarrow> (\<And>l. line_ok c l \<Longrightarrow> yields (line_ok c) (f l)) \<Longrightarrow> yields (screen c r) (on_line row f t)"
  by (rule yields_mono [OF on_line_ok]) auto

lemma set_wrapped_ok: "line_ok c l \<Longrightarrow> yields (line_ok c) (set_wrapped w l)"
  by (simp add: set_wrapped_def)

lemma unwrap_ok: "screen c r t \<Longrightarrow> yields (screen c r) (on_line row (set_wrapped w) t)"
  by (rule on_line_screen) (simp_all add: set_wrapped_ok)

section \<open>Scrolling\<close>

lemma reusable_ok:
  assumes "line_ok (bl_Len l) l" and "0 < c"
  shows "yields (\<lambda>b. b \<longrightarrow> line_ok c l) (reusable c attr l)"
proof (cases "bl_Len l = c")
  case True
  with assms have "line_ok c l" by simp
  with line_reads(4,5) [OF this assms(2)] show ?thesis by (auto simp: reusable_def yields_def)
qed (simp add: reusable_def)

lemma blank_for_scroll_ok:
  assumes "screen c r t"
  shows "yields (line_ok c) (blank_for_scroll attr w t)"
proof -
  have c: "t_Cols t = c" "0 < c" "b_cols (activeBuffer t) = c"
    using screen_size [OF assms] live_bounds(12) [OF screen_live [OF assms]] by auto
  have cached: "line_ok (bl_Len l) l" if "t_cachedBlankLine t = Some l" for l
    using assms that by (simp add: screen_def screen_with_def)
  have reuse: "yields (\<lambda>b. b \<longrightarrow> (\<exists>l. t_cachedBlankLine t = Some l \<and> line_ok c l))
      (case t_cachedBlankLine t of None \<Rightarrow> Some False | Some l \<Rightarrow> reusable (t_Cols t) attr l)"
    using reusable_ok [OF cached c(2)] c(1) by (cases "t_cachedBlankLine t") auto
  have pick: "yields (line_ok c) (if b then t_cachedBlankLine t else GetBlankLine attr w (activeBuffer t))"
    if "b \<longrightarrow> (\<exists>l. t_cachedBlankLine t = Some l \<and> line_ok c l)" for b
    using that blank_ok [OF c(3)] by auto
  show ?thesis unfolding blank_for_scroll_def
    by (rule yields_bind [OF reuse], rule yields_bind [OF pick], assumption) simp
qed

text \<open>The new line is in; the scroll offset follows when the list has grown.\<close>

lemma scrolled_live:
  assumes b: "live c r b" and b1: "b1 = b\<lparr>b_Lines := b_Lines b1, b_Markers := b_Markers b1, b_disposed := b_disposed b1\<rparr>"
    and ls: "lines_ok c (b_Lines b1)" "cl_maxLen (b_Lines b1) = cl_maxLen (b_Lines b)"
      "cl_length (b_Lines b1) = (if IsFull (b_Lines b) then cl_length (b_Lines b) else cl_length (b_Lines b) + 1)"
  shows "live c r (if \<not> IsFull (b_Lines b)
           then b1\<lparr>b_YBase := b_YBase b1 + 1, b_YDisp := (if user then b_YDisp b1 else b_YDisp b1 + 1)\<rparr>
           else if user then b1\<lparr>b_YDisp := max (b_YDisp b1 - 1) 0\<rparr> else b1)"
proof -
  have "b_cols b1 = b_cols b" "b_rows b1 = b_rows b" "b_X b1 = b_X b" "b_Y b1 = b_Y b" "b_ScrollTop b1 = b_ScrollTop b"
    "b_ScrollBottom b1 = b_ScrollBottom b" "b_YDisp b1 = b_YDisp b" "b_YBase b1 = b_YBase b"
    by (subst b1, simp)+
  with b ls show ?thesis by (simp add: live_def buf_ok_def)
qed

lemma trims_frame: "with_trims ls b = b\<lparr>b_Lines := ls, b_Markers := b_Markers (with_trims ls b), b_disposed := b_disposed (with_trims ls b)\<rparr>"
  by (simp add: with_trims_def fire_trimmed_def fire_def)

lemma fire_frame: "fire e b = b\<lparr>b_Markers := b_Markers (fire e b), b_disposed := b_disposed (fire e b)\<rparr>"
  by (simp add: fire_def)

lemma scroll_full_width_ok:
  assumes b: "live c r b" and l: "line_ok c l"
  shows "yields (live c r) (scroll_full_width user l b)"
proof -
  note bb = live_bounds [OF b]
  have ok: "clist_ok (b_Lines b)" "cl_length (b_Lines b) \<le> cl_maxLen (b_Lines b)"
    using bb(11) by (auto simp: lines_ok_def slots_def clist_ok_def)
  let ?row = "b_YBase b + b_ScrollBottom b"
  define grown where "grown b1 \<longleftrightarrow> b1 = b\<lparr>b_Lines := b_Lines b1, b_Markers := b_Markers b1, b_disposed := b_disposed b1\<rparr>
    \<and> lines_ok c (b_Lines b1) \<and> cl_maxLen (b_Lines b1) = cl_maxLen (b_Lines b)
    \<and> cl_length (b_Lines b1) = (if IsFull (b_Lines b) then cl_length (b_Lines b) else cl_length (b_Lines b) + 1)" for b1
  have "yields grown (if ?row = int (cl_length (b_Lines b)) - 1 then
             (if IsFull (b_Lines b) then
                (case lines_Recycle b of
                   Some (Some l', b') \<Rightarrow>
                     Some (lines_Set (int (cl_length (b_Lines b')) - 1) (Some (line_CopyFrom l l')) b')
                 | _ \<Rightarrow> None)
              else Some (lines_Push (Some (line_Clone l)) b))
           else lines_Splice (?row + 1) 0 [Some (line_Clone l)] b)"
  proof (cases "?row = int (cl_length (b_Lines b)) - 1")
    case True
    show ?thesis
    proof (cases "IsFull (b_Lines b)")
      case full: True
      then obtain l' ls where ls: "Recycle (b_Lines b) = Some (Some l', ls)" "line_ok c l'" "lines_ok c ls"
        "cl_length ls = cl_length (b_Lines b)" "cl_maxLen ls = cl_maxLen (b_Lines b)"
        using Recycle_ok [OF bb(11)] by (auto simp: IsFull_def)
      then show ?thesis using True full trims_frame [of ls b]
        by (auto simp: lines_Recycle_def lines_Set_def grown_def intro: Set_ok CopyFrom_ok [OF l])
    next
      case False
      then have "cl_length (cl_Push (Some l) (b_Lines b)) = cl_length (b_Lines b) + 1"
        "cl_maxLen (cl_Push (Some l) (b_Lines b)) = cl_maxLen (b_Lines b)"
        using ok by (auto simp: cl_Push_def Let_def IsFull_def cl_fire_trim_def)
      then show ?thesis using True False trims_frame [of "cl_Push (Some l) (b_Lines b)" b] Push_ok [OF bb(11) l]
        by (simp add: lines_Push_def grown_def line_Clone_def)
    qed
  next
    case False
    have "nat (?row + 1) \<le> cl_length (b_Lines b)" "0 \<le> ?row" using bb by auto
    from Splice_insert_ok [OF bb(11) this(1) l] this(2) show ?thesis
      using False ok fire_frame [of "InsertEvent (?row + 1) 1" b]
        trims_frame [of "Splice (nat (?row + 1)) 0 [Some l] (b_Lines b)" "fire (InsertEvent (?row + 1) 1) b"]
      by (auto simp: lines_Splice_def grown_def line_Clone_def IsFull_def)
  qed
  then show ?thesis unfolding scroll_full_width_def Let_def
    by (rule yields_bind) (use scrolled_live [OF b, where user = user] in \<open>simp add: grown_def\<close>)
qed

lemma scroll_region_ok:
  assumes b: "live c r b" and l: "line_ok c l"
  shows "yields (live c r) (scroll_region l b)"
proof -
  note bb = live_bounds [OF b]
  have "yields (live c r) (lines_ShiftElements (b_YBase b + b_ScrollTop b + 1) (b_ScrollBottom b - b_ScrollTop b) (- 1) b)"
  proof (cases "b_ScrollTop b = b_ScrollBottom b")
    case True
    with b show ?thesis by (simp add: lines_ShiftElements_def ShiftElements_def with_trims_def fire_trimmed_def)
  next
    case False
    show ?thesis by (rule yields_mono [OF live_shift [OF b]]) (use bb False in auto)
  qed
  then show ?thesis unfolding scroll_region_def Let_def
    by (simp add: algebra_simps) (rule yields_bind, assumption, simp add: live_Set l line_Clone_def)
qed

lemma Scroll_ok: "screen c r t \<Longrightarrow> yields (screen c r) (Scroll attr w t)"
proof -
  assume t: "screen c r t"
  have step: "yields (screen c r) (do {
     t \<leftarrow> try_buf (if b_ScrollTop (activeBuffer t) = 0 then scroll_full_width (t_IsUserScrolling t) l else scroll_region l) t;
     let t = (if t_IsUserScrolling t then t else on_buf (\<lambda>b. b\<lparr>b_YDisp := b_YBase b\<rparr>) t);
     Some (happens (OnScroll (b_YDisp (activeBuffer t))) t) })" if "screen c r t" "line_ok c l" for t l
  proof (rule yields_bind)
    show "yields (screen c r) (try_buf (if b_ScrollTop (activeBuffer t) = 0
        then scroll_full_width (t_IsUserScrolling t) l else scroll_region l) t)"
      by (rule screen_try_buf [OF that(1)])
        (simp add: scroll_full_width_ok scroll_region_ok screen_live [OF that(1)] that(2))
    fix t assume t: "screen c r t"
    have "screen c r (on_buf (\<lambda>b. b\<lparr>b_YDisp := b_YBase b\<rparr>) t)"
      by (rule screen_on_buf [OF t live_YDisp]) (use live_bounds [OF screen_live [OF t]] screen_live [OF t] in auto)
    with t show "yields (screen c r) (let t = (if t_IsUserScrolling t then t else on_buf (\<lambda>b. b\<lparr>b_YDisp := b_YBase b\<rparr>) t) in
        Some (happens (OnScroll (b_YDisp (activeBuffer t))) t))" by (simp add: Let_def)
  qed
  show ?thesis unfolding Scroll_def
  proof (rule yields_bind [OF blank_for_scroll_ok [OF t]], goal_cases)
    case (1 l)
    then have "screen c r (t\<lparr>t_cachedBlankLine := Some l\<rparr>)"
      using t by (simp add: screen_def screen_with_def) (simp add: line_ok_def)
    from step [OF this 1] show ?case by (simp add: Let_def)
  qed
qed

section \<open>Control characters\<close>

text \<open>The row below: the last of the scroll region, the last of the screen, or another.\<close>

lemma row_below:
  assumes t: "screen c r t" and u_def: "u = set_Y (cur_Y t + 1) t"
  shows "cur_Y u = b_ScrollBottom (activeBuffer u) + 1 \<Longrightarrow> screen c r (set_Y (cur_Y u - 1) u)"
    "screen c r (if int (t_Rows u) \<le> cur_Y u then set_Y (int (t_Rows u) - 1) u else u)"
proof -
  note b = cursor_bounds [OF t] live_bounds(5-7) [OF screen_live [OF t]]
  have u: "screen_with (drift c r) c r u"
    unfolding u_def set_Y_def on_buf_def by (rule with_put [OF screen_drift [OF t]]) (simp add: live_drift [OF screen_live [OF t]])
  have y: "cur_Y u = cur_Y t + 1" "cur_X u = cur_X t" "b_ScrollBottom (activeBuffer u) = b_ScrollBottom (activeBuffer t)"
    "t_Rows u = r" using screen_size [OF t] by (simp_all add: u_def set_Y_def on_buf_def cur_simps)
  have put_Y: "screen c r (set_Y y u)" if "0 \<le> y" "y < int r" for y
    unfolding set_Y_def on_buf_def screen_def
    by (rule with_put [OF u]) (use that b y with_active [OF u] in \<open>simp add: drift_live cur_simps\<close>)
  have stay: "screen c r u" if "cur_Y u < int r"
    by (rule drift_screen [OF u]) (use that b y in auto)
  show "cur_Y u = b_ScrollBottom (activeBuffer u) + 1 \<Longrightarrow> screen c r (set_Y (cur_Y u - 1) u)"
    by (rule put_Y) (use y b in auto)
  show "screen c r (if int (t_Rows u) \<le> cur_Y u then set_Y (int (t_Rows u) - 1) u else u)"
    using put_Y [of "int r - 1"] stay y b by auto
qed

lemma down_or_scroll_ok:
  assumes t: "screen c r t" and f: "\<And>t. screen c r t \<Longrightarrow> yields (screen c r) (f t)"
  shows "yields (screen c r) (down_or_scroll w f t)"
  using row_below [OF t refl] f [of "set_Y (cur_Y t + 1) t"] Scroll_ok
  unfolding down_or_scroll_def Let_def by (auto split: if_splits)

lemma LineFeed_ok: "screen c r t \<Longrightarrow> yields (screen c r) (LineFeed t)"
proof -
  assume t: "screen c r t"
  let ?u = "if op_ConvertEol (t_opts (MarkDirty (cur_Y t) t)) then set_X 0 (MarkDirty (cur_Y t) t) else MarkDirty (cur_Y t) t"
  have "screen c r ?u" using t by (simp add: screen_X)
  from down_or_scroll_ok [OF this unwrap_ok]
  have "yields (screen c r) (down_or_scroll False (\<lambda>t. on_line (cursor_row t) (set_wrapped False) t) ?u)" .
  moreover have "screen c r (if int (t_Cols t) \<le> cur_X t then set_X (cur_X t - 1) t else t)" if "screen c r t" for t
    using that cursor_bounds [OF that] screen_size [OF that] by (auto intro: screen_X)
  ultimately show ?thesis unfolding LineFeed_def Let_def by (auto elim!: yields_bind)
qed

lemma at_end_ok:
  assumes u: "screen c r u" and x: "cur_X u = int c - 1"
  shows "yields (screen c r) (case lines_Get (cursor_row u) (activeBuffer u) of None \<Rightarrow> Some u
     | Some prev \<Rightarrow> do {
         w \<leftarrow> line_HasWidth (nat (cur_X u)) prev;
         h \<leftarrow> if w \<noteq> 0 then line_HasContent (nat (cur_X u)) prev else Some 1;
         Some (if w \<noteq> 0 \<and> h = 0 then set_X (cur_X u - 1) u else u) })"
proof (cases "lines_Get (cursor_row u) (activeBuffer u)")
  case (Some prev)
  have c: "2 \<le> c" using screen_size [OF u] by simp
  from live_row [OF screen_live [OF u] Some] have "line_ok c prev" .
  moreover have "nat (cur_X u) < c" using x c by simp
  ultimately obtain w h
    where "line_HasWidth (nat (cur_X u)) prev = Some w" "line_HasContent (nat (cur_X u)) prev = Some h"
    using line_reads(2,3) by blast
  moreover have "screen c r (set_X (cur_X u - 1) u)" by (rule screen_X [OF u]) (use x c in auto)
  ultimately show ?thesis using Some u by simp
qed (use u in simp)

lemma unwrap_line_ok:
  assumes t: "screen c r t" and y: "0 < cur_Y t"
  shows "yields (screen c r) (unwrap_line t)"
proof (cases "lines_Get (cursor_row t) (activeBuffer t)")
  case (Some line)
  have rest: "yields (screen c r) (let u = set_X (int (t_Cols v) - 1) (set_Y (cur_Y v - 1) v) in
         (case lines_Get (cursor_row u) (activeBuffer u) of None \<Rightarrow> Some u
          | Some prev \<Rightarrow> do {
              w \<leftarrow> line_HasWidth (nat (cur_X u)) prev;
              h \<leftarrow> if w \<noteq> 0 then line_HasContent (nat (cur_X u)) prev else Some 1;
              Some (if w \<noteq> 0 \<and> h = 0 then set_X (cur_X u - 1) u else u) }))"
    if v: "screen c r v \<and> same t v" for v
  proof -
    have c: "t_Cols v = c" "2 \<le> c" using screen_size v by auto
    have "screen c r (set_Y (cur_Y v - 1) v)"
      by (rule screen_Y) (use v y cursor_bounds [of c r v] same_simps(2) [of t v] in auto)
    then have "screen c r (set_X (int (t_Cols v) - 1) (set_Y (cur_Y v - 1) v))" by (rule screen_X) (use c in auto)
    moreover have "cur_X (set_X (int (t_Cols v) - 1) w) = int c - 1" for w
      using c by (simp add: cur_simps set_X_def on_buf_def)
    ultimately show ?thesis unfolding Let_def by (intro at_end_ok) simp_all
  qed
  show ?thesis
  proof (cases "bl_IsWrapped line")
    case True
    with Some show ?thesis unfolding unwrap_line_def
      by (simp, intro yields_bind [OF on_line_ok [OF t set_wrapped_ok]] rest) auto
  qed (use Some t in \<open>simp add: unwrap_line_def\<close>)
qed (use t in \<open>simp add: unwrap_line_def\<close>)

lemma Backspace_ok: "screen c r t \<Longrightarrow> yields (screen c r) (Backspace t)"
proof -
  assume t: "screen c r t"
  have left: "screen c r (set_X (cur_X u - 1) u)" if "screen c r u" "0 < cur_X u" for u
    using that cursor_bounds [OF that(1)] by (intro screen_X) auto
  note t1 = restrictCursor_ok(1) [OF t] and t2 = restrict_cols_ok [OF t]
  show ?thesis
    using left [OF t1] left [OF t2] t1 t2 unwrap_line_ok [OF t2] live_bounds [OF screen_live [OF t2]]
    by (auto simp: Backspace_def Let_def restrictCursor_ok elim!: yields_mono)
qed

lemma Tab_ok: "screen c r t \<Longrightarrow> yields (screen c r) (Tab t)"
proof -
  assume t: "screen c r t"
  have "screen c r (set_X (NextStop x (activeBuffer t)) t)" for x
    using stop_bounds(1) [of "activeBuffer t" x] live_bounds(12) [OF screen_live [OF t]] screen_size [OF t]
    by (intro screen_X [OF t]) auto
  with t show ?thesis by (simp add: Tab_def Let_def)
qed

lemma charset_ok [simp]: "screen c r (t\<lparr>t_charset := x\<rparr>) = screen c r t" "screen c r (t\<lparr>t_modes := m\<rparr>) = screen c r t"
  "screen c r (t\<lparr>t_kitty := k\<rparr>) = screen c r t" "screen c r (t\<lparr>t_opts := w\<rparr>) = screen c r t"
  "screen c r (t\<lparr>t_InsertMode := b\<rparr>) = screen c r t" "screen c r (t\<lparr>t_IsCursorHidden := b\<rparr>) = screen c r t"
  "screen c r (t\<lparr>t_IsUserScrolling := b\<rparr>) = screen c r t" "screen c r (t\<lparr>t_windowTitle := b'\<rparr>) = screen c r t"
  "screen c r (t\<lparr>t_windowTitleStack := bs\<rparr>) = screen c r t" "screen c r (t\<lparr>t_iconNameStack := bs\<rparr>) = screen c r t"
  "screen c r (t\<lparr>t_IsCursorInitialized := b\<rparr>) = screen c r t" "screen c r (t\<lparr>t_events := es\<rparr>) = screen c r t"
  "screen c r (t\<lparr>t_links := ls\<rparr>) = screen c r t" "screen c r (t\<lparr>t_eraseAttr := a\<rparr>) = screen c r t"
  by (simp_all add: screen_def)

lemma execute_ok:
  assumes "screen c r t" and "execute_handler code = Some f"
  shows "yields (screen c r) (f t)"
proof -
  have "f \<in> {Bell, LineFeed, CarriageReturn, Backspace, Tab, ShiftOut, ShiftIn}"
    using assms(2) by (auto simp: execute_handler_def split: if_splits)
  moreover have "screen c r (set_X 0 t)" using assms(1) by (simp add: screen_X)
  ultimately show ?thesis using assms(1) LineFeed_ok [of c r t] Backspace_ok [of c r t] Tab_ok [of c r t]
    by (auto simp: Bell_def CarriageReturn_def ShiftOut_def ShiftIn_def SetgLevel_def)
qed

section \<open>Escape sequences\<close>

lemma SaveCursor_ok: "screen c r t \<Longrightarrow> screen c r (SaveCursor t)"
  unfolding SaveCursor_def Let_def
  by (rule screen_on_buf) (simp_all add: screen_def with_curAttr screen_live [unfolded screen_def])

lemma RestoreCursor_ok: "screen c r t \<Longrightarrow> screen c r (RestoreCursor t)"
proof -
  assume t: "screen c r t"
  have "screen_with (drift c r) c r (on_buf (\<lambda>b. b\<lparr>b_X := x, b_Y := y b\<rparr>) t)" for x y
    unfolding on_buf_def by (rule with_put [OF screen_drift [OF t]]) (simp add: live_drift [OF screen_live [OF t]])
  moreover have "ad_Extended (t_curAttr t) \<noteq> None" using t by (simp add: screen_def screen_with_def)
  ultimately show ?thesis unfolding RestoreCursor_def Let_def
    by (intro conjunct1 [OF restrictCursor_drift]) (auto intro!: with_curAttr simp: on_buf_def)
qed

lemma Index_ok: "screen c r t \<Longrightarrow> yields (screen c r) (Index t)"
  unfolding Index_def yields_simps
  by (rule yields_mono [OF down_or_scroll_ok [where c = c and r = r]]) (simp_all add: restrictCursor_ok)

lemma ReverseIndex_ok: "screen c r t \<Longrightarrow> yields (screen c r) (ReverseIndex t)"
proof -
  assume "screen c r t"
  then have t: "screen c r (restrictCursor t)" by (rule restrictCursor_ok)
  let ?t = "restrictCursor t"
  let ?b = "activeBuffer ?t"
  note b = live_bounds [OF screen_live [OF t]]
  have up: "screen c r (restrictCursor (set_Y (b_Y ?b - 1) ?t))"
    unfolding set_Y_def on_buf_def
    by (rule conjunct1 [OF restrictCursor_drift], rule with_put [OF screen_drift [OF t]])
      (simp add: live_drift [OF screen_live [OF t]])
  have shift: "yields (live c r) (lines_ShiftElements (b_YBase ?b + b_Y ?b) (b_ScrollBottom ?b - b_ScrollTop ?b) 1 ?b)"
    if "b_Y ?b = b_ScrollTop ?b"
    by (rule yields_mono [OF live_shift [OF screen_live [OF t]]]) (use b that in auto)
  have "yields (screen c r) (do {
       l \<leftarrow> GetBlankLine (t_eraseAttr (erase_ready v)) False (activeBuffer (erase_ready v));
       let t = on_buf (lines_Set (cursor_row (erase_ready v)) (Some l)) (erase_ready v);
       Some (MarkRangeDirty (b_ScrollTop ?b) (b_ScrollBottom ?b) t) })" if v: "screen c r v" for v
    by (rule yields_bind [OF blank_ok [where c = c]])
      (use v live_bounds(12) [OF screen_live [OF v]] in \<open>auto simp: Let_def screen_live intro!: screen_on_buf live_Set\<close>)
  with shift up show ?thesis unfolding ReverseIndex_def Let_def
    by (auto intro!: yields_bind [OF screen_try_buf [OF t]])
qed

lemma SelectCharset_ok [simp]: "screen c r (SelectCharset s t) = screen c r t"
  by (induction s t rule: SelectCharset.induct) (simp_all add: SelectDefaultCharset_def split: option.splits)

lemma fold_screen:
  "screen c r t \<Longrightarrow> (\<And>x t. screen c r t \<Longrightarrow> yields (screen c r) (f x t)) \<Longrightarrow> yields (screen c r) (fold_opt f xs t)"
  by (rule yields_fold)

lemma ScreenAlignmentPattern_ok: "screen c r t \<Longrightarrow> yields (screen c r) (ScreenAlignmentPattern t)"
proof -
  assume t: "screen c r t"
  have "yields (line_ok c) (do { l \<leftarrow> Fill cell False l; set_wrapped False l })" if "line_ok c l" for cell l
    by (rule yields_bind [OF Fill_ok [OF that]]) (rule set_wrapped_ok)
  then show ?thesis unfolding ScreenAlignmentPattern_def Let_def
    by (intro yields_bind [OF fold_screen [where c = c and r = r]]) (simp_all add: setCursor_ok t on_line_screen)
qed

text \<open>Fresh buffers.\<close>

lemma NewBuffer_ok: "1 \<le> r \<Longrightarrow> r \<le> MaxBufferSize \<Longrightarrow> idle c r (NewBuffer c r scrollback w h)"
  by (auto simp: NewBuffer_def Let_def idle_def buf_ok_def SetupTabStops_def NewCircularList_def getCorrectBufferLength_def
      lines_ok_def slots_def clist_ok_def clist_view_def)

lemma FillViewportRows_ok:
  assumes "idle c r b"
  shows "yields (live c r) (FillViewportRows attr b)"
proof -
  define P where "P n b \<longleftrightarrow> buf_ok c r b \<and> b_YBase b = 0 \<and> cl_length (b_Lines b) = n" for n b
  have "yields (P n) (fold_opt (\<lambda>_ b. map_option (\<lambda>l. lines_Push (Some l) b) (GetBlankLine a False b)) [0..<n] b)" if "n \<le> r" for n a
    using that
  proof (induction n)
    case 0
    then show ?case using assms by (simp add: P_def idle_def)
  next
    case (Suc n)
    have push: "yields (P (Suc n)) (map_option (\<lambda>l. lines_Push (Some l) b) (GetBlankLine a False b))" if "P n b" for b
    proof -
      have c: "b_cols b = c" using that by (simp add: P_def buf_ok_def)
      have "P (Suc n) (lines_Push (Some l) b)" if "line_ok c l" for l
        using \<open>P n b\<close> that Suc.prems
        by (auto simp: P_def buf_ok_def lines_Push_def Push_ok) (auto simp: cl_Push_def Let_def cl_fire_trim_def)
      then show ?thesis by (simp, intro yields_mono [OF blank_ok [OF c]])
    qed
    have single: "fold_opt f [x] s = f x s" for f :: "nat \<Rightarrow> Buffer \<Rightarrow> Buffer option" and x s
      by (cases "f x s") simp_all
    have "n \<le> r" using Suc.prems by simp
    then have "yields (P (Suc n)) (Option.bind (fold_opt F [0..<n] b) (fold_opt F [n]))"
      if "F = (\<lambda>_ b. map_option (\<lambda>l. lines_Push (Some l) b) (GetBlankLine a False b))" for F
      using push unfolding that by (intro yields_bind [OF Suc.IH]) (simp_all only: single)
    then show ?case by (simp only: upt_Suc_append [OF le0] fold_opt_append)
  qed
  note fill = yields_mono [OF this [of r, OF order_refl], of "live c r"]
  have "cl_length (b_Lines b) = 0" "b_rows b = r" using assms by (auto simp: idle_def buf_ok_def)
  then show ?thesis unfolding FillViewportRows_def Let_def
    by (simp, intro fill) (auto simp: P_def live_def)
qed

lemma tabs_ok [simp]: "buf_ok c r (SetupTabStops n b) = buf_ok c r b" "live c r (SetupTabStops n b) = live c r b"
  "idle c r (SetupTabStops n b) = idle c r b"
  by (simp_all add: SetupTabStops_def buf_ok_def live_def idle_def Let_def)

lemma set_Reset_ok:
  assumes "t_Cols t = c" "t_Rows t = r" "2 \<le> c" "1 \<le> r" "r \<le> MaxBufferSize"
    and "\<forall>l. t_cachedBlankLine t = Some l \<longrightarrow> line_ok (bl_Len l) l" and "ad_Extended (t_curAttr t) \<noteq> None"
  shows "yields (screen c r) (set_Reset t)"
  unfolding set_Reset_def Let_def assms(1,2)
  by (rule yields_bind [OF FillViewportRows_ok [OF NewBuffer_ok [of r c]]])
    (use assms NewBuffer_ok [of r c] in \<open>auto simp: screen_def screen_with_def activeBuffer_def happens_def\<close>)

lemma terminal_Reset_ok: "screen c r t \<Longrightarrow> yields (screen c r) (terminal_Reset t)"
  unfolding terminal_Reset_def service_Reset_def
  by (rule yields_bind [where Q = "screen c r"], simp, rule yields_mono [OF set_Reset_ok])
    (auto simp: input_Reset_def screen_def screen_with_def DefaultAttrData_def core_Reset_def)

lemma TabSet_ok: "screen c r t \<Longrightarrow> yields (screen c r) (TabSet t)"
  by (simp add: TabSet_def screen_on_buf screen_live)

lemma keypad_ok [simp]: "screen c r (keypad b t) = screen c r t"
  by (simp add: keypad_def)

lemma escape_ok:
  assumes "screen c r t" and "map_of esc_table ident = Some f \<or> charset_handler ident = Some f"
  shows "yields (screen c r) (f t)"
proof -
  have "f \<in> {\<lambda>t. Some (SaveCursor t), \<lambda>t. Some (RestoreCursor t), Index, NextLine, TabSet, ReverseIndex, KeypadApplicationMode,
      KeypadNumericMode, SetgLevel 2, SetgLevel 3, SetgLevel 1, \<lambda>t. Some (SelectDefaultCharset t), ScreenAlignmentPattern}
    \<union> {\<lambda>t. Some (SelectCharset s t) | s. True}"
    using assms(2)
  proof
    assume "map_of esc_table ident = Some f"
    from map_of_SomeD [OF this] show ?thesis by (auto simp: esc_table_def)
  next
    assume "charset_handler ident = Some f"
    then show ?thesis by (simp only: charset_handler_def Let_def split: if_splits) blast+
  qed
  moreover have "screen c r (set_X 0 t)" using assms(1) by (simp add: screen_X)
  ultimately show ?thesis
    using assms(1) SaveCursor_ok RestoreCursor_ok Index_ok ReverseIndex_ok TabSet_ok ScreenAlignmentPattern_ok
    by (auto simp: NextLine_def KeypadApplicationMode_def KeypadNumericMode_def SetgLevel_def SelectDefaultCharset_def)
qed

end
