(* ===== verification/Vt_Csi_Safe.thy ===== *)
theory Vt_Csi_Safe
  imports Vt_Safe
begin

text \<open>Every control sequence keeps the invariant of the terminal and returns.\<close>

section \<open>Parameters\<close>

definition params_in :: "Params \<Rightarrow> bool" where
  "params_in p \<longleftrightarrow> 1 \<le> pa_Length p \<and> pa_Length p \<le> length (pa_Params p)"

lemma params_wf_in: "params_wf p \<Longrightarrow> params_in p"
  by (cases "params_view p") (auto simp: params_wf_def params_in_def repr_def)

lemma param_some: "params_in p \<Longrightarrow> i < pa_Length p \<Longrightarrow> \<exists>v. param i p = Some v"
  by (simp add: params_in_def param_def)

lemma param_yields: "params_in p \<Longrightarrow> yields (\<lambda>_. True) (param 0 p)"
  "params_in p \<Longrightarrow> yields (\<lambda>_. True) (if 2 \<le> pa_Length p then param 1 p else Some v)"
  "params_in p \<Longrightarrow> yields (\<lambda>n. 1 \<le> n) (param1 p)"
  "params_in p \<Longrightarrow> yields (\<lambda>_. True) (param1 p)"
  by (auto simp: params_in_def param_def param1_def yields_def)

section \<open>Movement\<close>

lemma param1_screen: "params_in p \<Longrightarrow> (\<And>n. 1 \<le> n \<Longrightarrow> screen c r (f n)) \<Longrightarrow> yields (screen c r) (map_option f (param1 p))"
  by (auto intro: yields_mono [OF param_yields(3)])

lemma move_ok:
  assumes "screen c r t" and "params_in p"
  shows "yields (screen c r) (cursorUp p t)" "yields (screen c r) (cursorDown p t)" "yields (screen c r) (cursorForward p t)"
    "yields (screen c r) (cursorBackward p t)" "yields (screen c r) (cursorCharAbsolute p t)" "yields (screen c r) (charPosAbsolute p t)"
    "yields (screen c r) (hPositionRelative p t)" "yields (screen c r) (linePosAbsolute p t)" "yields (screen c r) (vPositionRelative p t)"
  using assms param1_screen [OF assms(2)]
  by (auto simp: param_yields(4) cursorUp_def cursorDown_def cursorForward_def cursorBackward_def cursorCharAbsolute_def charPosAbsolute_def
      hPositionRelative_def linePosAbsolute_def vPositionRelative_def moveCursor_ok setCursor_ok Let_def
      intro!: yields_bind [OF param_yields(4)])

lemma home_X_ok: "yields (screen c r) m \<Longrightarrow> yields (screen c r) (map_option (set_X 0) m)"
  by (simp, erule yields_mono) (simp add: screen_X)

lemma cursorPosition_ok: "screen c r t \<Longrightarrow> params_in p \<Longrightarrow> yields (screen c r) (cursorPosition p t)"
  unfolding cursorPosition_def
  by (rule yields_bind [where Q = "\<lambda>_. True"], simp add: params_in_def param_def)
    (rule yields_bind [OF param_yields(4)], simp_all add: setCursor_ok)

lemma tab_steps_ok:
  assumes t: "screen c r t" and p: "params_in p" and stop: "\<And>x b. b_cols b = c \<Longrightarrow> 0 \<le> stop x b \<and> stop x b < int c"
  shows "yields (screen c r) (tab_steps stop p t)"
proof -
  let ?f = "\<lambda>t. set_X (stop (cur_X t) (activeBuffer t)) t"
  have "screen c r ((?f ^^ n) t)" for n
  proof (induction n)
    case (Suc n)
    have "b_cols (activeBuffer ((?f ^^ n) t)) = c" using live_bounds(12) [OF screen_live [OF Suc]] .
    from stop [OF this] show ?case using screen_X [OF Suc, of "stop (cur_X ((?f ^^ n) t)) (activeBuffer ((?f ^^ n) t))"]
      by (simp add: less_imp_le)
  qed (simp add: t)
  then show ?thesis using t param1_screen [OF p] param_yields(4) [OF p] by (simp add: tab_steps_def)
qed

lemma tabs_move_ok:
  assumes "screen c r t" and "params_in p"
  shows "yields (screen c r) (cursorForwardTab p t)" "yields (screen c r) (cursorBackwardTab p t)" "yields (screen c r) (tabClear p t)"
proof -
  have c: "0 < c" using screen_size [OF assms(1)] by simp
  show "yields (screen c r) (cursorForwardTab p t)" "yields (screen c r) (cursorBackwardTab p t)"
    unfolding cursorForwardTab_def cursorBackwardTab_def
    using stop_bounds c by (auto intro!: tab_steps_ok [OF assms])
  show "yields (screen c r) (tabClear p t)"
    using assms(1) screen_live [OF assms(1)] yields_mono [OF param_yields(1) [OF assms(2)]]
    by (auto simp: tabClear_def screen_on_buf)
qed

section \<open>Erasing\<close>

lemma eraseInBufferLine_ok:
  assumes t: "screen c r t" and s: "0 \<le> start" "start \<le> int c" and e: "0 < end"
  shows "yields (\<lambda>t'. screen c r t' \<and> same (erase_ready t) t' \<or> t' = t) (eraseInBufferLine y start end clearWrap rp t)"
proof -
  have "yields (line_ok c) (do {
         l \<leftarrow> at_col start (\<lambda>x. ReplaceCells x (nat end) (GetNullCell (Some (t_eraseAttr (erase_ready t)))) rp l);
         if clearWrap then set_wrapped False l else Some l })" if "line_ok c l" for l
    by (rule yields_bind [where Q = "line_ok c"])
      (use s e that in \<open>auto simp: at_col_def set_wrapped_ok intro!: ReplaceCells_ok\<close>)
  then show ?thesis using t
    by (auto simp: eraseInBufferLine_def Let_def intro!: yields_mono [OF on_line_ok])
qed

lemma erase_screen:
  "screen c r t \<Longrightarrow> 0 \<le> start \<Longrightarrow> start \<le> int c \<Longrightarrow> 0 < end \<Longrightarrow> yields (screen c r) (eraseInBufferLine y start end w rp t)"
  by (rule yields_mono [OF eraseInBufferLine_ok]) auto

lemma live_ClearMarkers [simp]: "live c r (ClearMarkers y b) = live c r b"
  by (simp add: ClearMarkers_def)

lemma resetBufferLine_ok: "screen c r t \<Longrightarrow> yields (screen c r) (resetBufferLine y rp t)"
proof (cases "lines_Get (b_YBase (activeBuffer t) + y) (activeBuffer t)")
  case (Some l)
  assume t: "screen c r t"
  have "line_ok c l" using live_row [OF screen_live [OF t] Some] .
  then have fill: "yields (line_ok c) (Fill cell rp l)" for cell by (rule Fill_ok)
  have set: "screen c r (on_buf (\<lambda>b. ClearMarkers i (lines_Set i (Some (l'\<lparr>bl_IsWrapped := False\<rparr>)) b)) (erase_ready t))"
    if "line_ok c l'" for l' i
    by (rule screen_on_buf) (use that t in \<open>simp_all add: live_Set screen_live\<close>)
  show ?thesis using Some by (simp add: resetBufferLine_def Let_def) (intro yields_mono [OF fill] set)
qed (simp add: resetBufferLine_def)

lemma resetBufferLines_ok: "screen c r t \<Longrightarrow> yields (screen c r) (resetBufferLines ys rp t)"
  unfolding resetBufferLines_def by (rule fold_screen) (simp_all add: resetBufferLine_ok)

lemma erase_parts_ok:
  assumes t: "screen c r t"
  shows "yields (screen c r) (erase_below rp t)" "yields (screen c r) (erase_above rp t)" "yields (screen c r) (erase_all rp t)"
    "screen c r (erase_scrollback t)"
proof -
  have b: "0 \<le> cur_X t" "cur_X t \<le> int c" "2 \<le> c" "t_Cols t = c" using cursor_bounds [OF t] screen_size [OF t] by auto
  have x: "cur_X (MarkDirty y t) = cur_X t" "t_Cols (MarkDirty y t) = t_Cols t" for y by (simp_all add: cur_simps MarkDirty_def)
  note reset = yields_bind [OF resetBufferLines_ok [where c = c and r = r]]
  show "yields (screen c r) (erase_below rp t)" unfolding erase_below_def Let_def
    by (rule yields_bind [OF erase_screen [where c = c and r = r]], use t b x in simp_all) (rule reset, simp_all)
  show "yields (screen c r) (erase_above rp t)" unfolding erase_above_def Let_def
    by (rule yields_bind [OF erase_screen [where c = c and r = r]]) (use t b x in \<open>auto intro!: yields_bind [OF unwrap_ok] reset\<close>)
  show "yields (screen c r) (erase_all rp t)" unfolding erase_all_def Let_def
    by (rule reset) (simp_all add: t)
  note lb = live_bounds [OF screen_live [OF t]]
  let ?b = "activeBuffer t" and ?n = "int (cl_length (b_Lines (activeBuffer t))) - int r"
  have n: "?n = b_YBase ?b" using lb(10) by simp
  have "live c r (lines_TrimStart (nat ?n) ?b\<lparr>b_YBase := 0, b_YDisp := 0\<rparr>)"
  proof -
    have ok: "clist_ok (b_Lines ?b)" using lb(11) by (simp add: lines_ok_def slots_def)
    have v: "clist_view (TrimStart (nat ?n) (b_Lines ?b)) = drop (nat ?n) (clist_view (b_Lines ?b))"
      using TrimStart_view [OF ok] by blast
    have "cl_length (TrimStart (nat ?n) (b_Lines ?b)) = r" using arg_cong [OF v, of length] lb(10,15) by simp
    moreover have "cl_maxLen (TrimStart (nat ?n) (b_Lines ?b)) = cl_maxLen (b_Lines ?b)"
      by (simp add: TrimStart_def Let_def cl_fire_trim_def)
    ultimately show ?thesis using lb TrimStart_ok [OF lb(11)] by (simp add: live_def buf_ok_def lines_TrimStart_def)
  qed
  then show "screen c r (erase_scrollback t)"
    using t screen_size [OF t] lb n by (auto simp: erase_scrollback_def Let_def lines_TrimStart_def intro!: screen_on_buf)
qed

lemma eraseInDisplay_ok: "screen c r t \<Longrightarrow> params_in p \<Longrightarrow> yields (screen c r) (eraseInDisplayInternal p rp t)"
  using erase_parts_ok [OF restrict_cols_ok] restrict_cols_ok
  by (auto simp: eraseInDisplayInternal_def Let_def intro!: yields_bind [OF param_yields(1)])

lemma eraseInLine_ok:
  assumes "screen c r t" and p: "params_in p"
  shows "yields (screen c r) (eraseInLineInternal p rp t)"
proof -
  define u where "u = restrictCursor_to (int (t_Cols t)) t"
  have u: "screen c r u" unfolding u_def by (rule restrict_cols_ok [OF assms(1)])
  note b = cursor_bounds [OF u] screen_size [OF u]
  show ?thesis unfolding eraseInLineInternal_def Let_def u_def [symmetric]
    by (rule yields_bind [OF param_yields(1) [OF p]], rule yields_bind [where Q = "screen c r"])
      (use u b in \<open>auto intro!: erase_screen\<close>)
qed

section \<open>Editing a row\<close>

lemma edit_row_ok:
  assumes t: "screen c r t" and p: "params_in p"
    and f: "\<And>a x n l. line_ok c l \<Longrightarrow> 0 \<le> x \<Longrightarrow> x < int c \<Longrightarrow> 1 \<le> n \<Longrightarrow> yields (line_ok c) (f a x n l)"
  shows "yields (screen c r) (edit_row f p t)"
proof -
  define u where "u = restrictCursor t"
  have u: "screen c r u" "cur_X u < int c" unfolding u_def using restrictCursor_ok [OF t] by auto
  have x: "cur_X (erase_ready u) = cur_X u" by (simp add: cur_simps)
  have "yields (screen c r) (do { t \<leftarrow> on_line (cursor_row (erase_ready u)) (f (t_eraseAttr (erase_ready u)) (cur_X (erase_ready u)) n) (erase_ready u);
       Some (MarkDirty (cur_Y t) t) })" if "1 \<le> n" for n
    by (rule yields_bind [OF on_line_screen [where c = c and r = r]])
      (use u x that cursor_bounds(1) [OF u(1)] in \<open>auto intro!: f\<close>)
  then show ?thesis unfolding edit_row_def Let_def u_def [symmetric]
    using u by (auto intro!: yields_bind [OF param_yields(3) [OF p]])
qed

lemma edit_rows_ok:
  assumes "screen c r t" and "params_in p"
  shows "yields (screen c r) (eraseChars p t)" "yields (screen c r) (insertChars p t)" "yields (screen c r) (deleteChars p t)"
  unfolding eraseChars_def insertChars_def deleteChars_def
  by (rule edit_row_ok [OF assms]; auto simp: at_col_def intro!: ReplaceCells_ok line_bulk)+

end
