(* ===== verification/Vt_Modes_Safe.thy ===== *)
theory Vt_Modes_Safe
  imports Vt_Csi_Safe
begin

text \<open>
  The rest of the control sequences keep the invariant of the terminal and return: moving lines
  and columns, reports, modes, the two screens. The last section puts the handlers together.
\<close>

section \<open>Moving lines\<close>

text \<open>Between its two steps the list of lines is one short.\<close>

definition short :: "nat \<Rightarrow> nat \<Rightarrow> int \<Rightarrow> Buffer \<Rightarrow> bool" where
  "short c r y b \<longleftrightarrow> b_cols b = c \<and> b_YBase b = y \<and> 0 \<le> y \<and> 0 \<le> b_ScrollTop b \<and> b_ScrollTop b < int r
     \<and> (\<forall>j l. 0 \<le> j \<longrightarrow> j < y + int r \<longrightarrow> line_ok c l \<longrightarrow>
         yields (\<lambda>b'. live c r b' \<and> b_YBase b' = y) (lines_Splice j 0 [Some l] b))"

lemma take_line:
  assumes b: "live c r b" and i: "0 \<le> i" "i < b_YBase b + int r"
  shows "yields (\<lambda>b1. short c r (b_YBase b) (b1\<lparr>b_disposed := []\<rparr>)) (lines_Splice i 1 [] b)"
proof -
  note bb = live_bounds [OF b]
  obtain b1 where b1: "lines_Splice i 1 [] b = Some b1" "b_cols b1 = c" "b_YBase b1 = b_YBase b"
    "b_ScrollTop b1 = b_ScrollTop b"
    and put: "\<And>j l d. 0 \<le> j \<Longrightarrow> j < int (cl_length (b_Lines b)) \<Longrightarrow> line_ok c l \<Longrightarrow>
        yields (live c r) (lines_Splice j 0 [Some l] (b1\<lparr>b_disposed := d\<rparr>))"
    using live_splice [OF b, of i] i bb(10) by auto
  have "b_YBase b' = b_YBase b" if "lines_Splice j 0 [Some l] (b1\<lparr>b_disposed := []\<rparr>) = Some b'" for j l b'
    using that b1(3) by (auto simp: lines_Splice_def split: if_splits)
  then have "yields (\<lambda>b'. live c r b' \<and> b_YBase b' = b_YBase b) (lines_Splice j 0 [Some l] (b1\<lparr>b_disposed := []\<rparr>))"
    if "0 \<le> j" "j < b_YBase b + int r" "line_ok c l" for j l
    using put [of j l "[]"] that bb(10) unfolding yields_def by (metis (no_types, lifting))
  then show ?thesis using b1 bb by (simp add: short_def)
qed

lemma with_try:
  "screen_with P c r t \<Longrightarrow> yields (\<lambda>b. Q (b\<lparr>b_disposed := []\<rparr>)) (f (activeBuffer t)) \<Longrightarrow> yields (screen_with Q c r) (try_buf f t)"
  by (auto simp: try_buf_def yields_def with_put)

lemma screen_base:
  "screen_with (\<lambda>b. live c r b \<and> b_YBase b = y) c r t \<longleftrightarrow> screen c r t \<and> b_YBase (activeBuffer t) = y"
  by (auto simp: screen_def screen_with_def)

lemma line_out:
  assumes "screen c r t" and "b_YBase (activeBuffer t) = y" and "0 \<le> i" "i < y + int r"
  shows "yields (screen_with (short c r y) c r) (try_buf (lines_Splice i 1 []) t)"
  using assms take_line [OF screen_live [OF assms(1)], of i]
  by (auto simp: screen_def intro!: with_try)

lemma line_in:
  assumes u: "screen_with (short c r y) c r u" and j: "0 \<le> j" "j < y + int r" and l: "line_ok c l"
  shows "yields (\<lambda>t. screen c r t \<and> b_YBase (activeBuffer t) = y) (try_buf (lines_Splice j 0 [Some l]) u)"
proof -
  have "yields (\<lambda>b'. live c r b' \<and> b_YBase b' = y) (lines_Splice j 0 [Some l] (activeBuffer u))"
    using with_active [OF u] j l by (simp add: short_def)
  then have "yields (screen_with (\<lambda>b. live c r b \<and> b_YBase b = y) c r) (try_buf (lines_Splice j 0 [Some l]) u)"
    by (intro with_try [OF u]) simp
  then show ?thesis by (rule yields_mono) (simp add: screen_base)
qed

lemma short_blank: "screen_with (short c r y) c r u \<Longrightarrow> yields (line_ok c) (GetBlankLine attr w (activeBuffer u))"
  using with_active [of "short c r y" c r u] by (intro blank_ok) (simp add: short_def)

lemma move_line_ok:
  assumes "screen c r t" and "b_YBase (activeBuffer t) = y" and "0 \<le> i" "i < y + int r" and j: "0 \<le> j" "j < y + int r"
  shows "yields (\<lambda>t. screen c r t \<and> b_YBase (activeBuffer t) = y) (move_line i j t)"
  unfolding move_line_def Let_def
proof (rule yields_bind [OF line_out [OF assms(1-4)]])
  fix u assume "screen_with (short c r y) c r u"
  then have u: "screen_with (short c r y) c r (erase_ready u)" by (simp add: erase_ready_def)
  show "yields (\<lambda>t. screen c r t \<and> b_YBase (activeBuffer t) = y)
     (do { l \<leftarrow> GetBlankLine (t_eraseAttr (erase_ready u)) False (activeBuffer (erase_ready u));
           try_buf (lines_Splice j 0 [Some l]) (erase_ready u) })"
    by (rule yields_bind [OF short_blank [OF u]]) (rule line_in [OF u j])
qed

lemma scroll_down_once_ok: "screen c r t \<Longrightarrow> yields (screen c r) (scroll_down_once t)"
proof -
  assume t: "screen c r t"
  note b = live_bounds [OF screen_live [OF t]]
  have steps: "scroll_down_once t = do {
     u \<leftarrow> try_buf (lines_Splice (b_YBase (activeBuffer t) + b_ScrollBottom (activeBuffer t)) 1 []) t;
     l \<leftarrow> GetBlankLine DefaultAttrData False (activeBuffer u);
     try_buf (lines_Splice (b_YBase (activeBuffer u) + b_ScrollTop (activeBuffer u)) 0 [Some l]) u }"
    by (simp add: scroll_down_once_def try_buf_def)
  show ?thesis unfolding steps
  proof (rule yields_bind [OF line_out [OF t refl]])
    fix u assume u: "screen_with (short c r (b_YBase (activeBuffer t))) c r u"
    have top: "0 \<le> b_YBase (activeBuffer u) + b_ScrollTop (activeBuffer u)"
      "b_YBase (activeBuffer u) + b_ScrollTop (activeBuffer u) < b_YBase (activeBuffer t) + int r"
      using with_active [OF u] by (auto simp: short_def)
    show "yields (screen c r) (do { l \<leftarrow> GetBlankLine DefaultAttrData False (activeBuffer u);
        try_buf (lines_Splice (b_YBase (activeBuffer u) + b_ScrollTop (activeBuffer u)) 0 [Some l]) u })"
      by (rule yields_bind [OF short_blank [OF u]]) (rule yields_mono [OF line_in [OF u top]], auto)
  qed (use b in auto)
qed

lemma lines_ok_csi:
  assumes t: "screen c r t" and p: "params_in p"
  shows "yields (screen c r) (insertLines p t)" "yields (screen c r) (deleteLines p t)"
    "yields (screen c r) (scrollUp p t)" "yields (screen c r) (scrollDown p t)"
proof -
  let ?u = "restrictCursor t"
  have u: "screen c r ?u" by (rule restrictCursor_ok(1) [OF t])
  note b = live_bounds(5-7,10,15) [OF screen_live [OF u]] cursor_bounds(5,6) [OF u]
  have many: "yields (screen c r) (fold_opt (\<lambda>_. move_line i j) xs ?u)"
    if "0 \<le> i" "i < b_YBase (activeBuffer ?u) + int r" "0 \<le> j" "j < b_YBase (activeBuffer ?u) + int r" for i j and xs :: "nat list"
  proof -
    have "yields (\<lambda>t. screen c r t \<and> b_YBase (activeBuffer t) = b_YBase (activeBuffer ?u)) (fold_opt (\<lambda>_. move_line i j) xs ?u)"
      by (rule yields_fold) (use u move_line_ok [OF _ _ that] in auto)
    then show ?thesis by (rule yields_mono) auto
  qed
  have home: "screen c r (set_X 0 (MarkRangeDirty x y v))" if "screen c r v" for x y v
    using that by (simp add: screen_X)
  show "yields (screen c r) (insertLines p t)" "yields (screen c r) (deleteLines p t)"
    unfolding insertLines_def deleteLines_def Let_def
    using u b by (auto intro!: yields_bind [OF param_yields(4) [OF p]] yields_bind [OF many] home)
  have up: "yields (screen c r) (move_line (b_YBase (activeBuffer v) + b_ScrollTop (activeBuffer v))
      (b_YBase (activeBuffer v) + b_ScrollBottom (activeBuffer v)) v)" if v: "screen c r v" for v
    by (rule yields_mono [OF move_line_ok [OF v refl]]) (use live_bounds [OF screen_live [OF v]] in auto)
  show "yields (screen c r) (scrollUp p t)" unfolding scrollUp_def Let_def
    by (rule yields_bind [OF param_yields(4) [OF p]], rule yields_bind [OF fold_screen [OF t]])
      (simp_all add: up)
  show "yields (screen c r) (scrollDown p t)" unfolding scrollDown_def Let_def
    by (rule yields_bind [OF param_yields(4) [OF p]], rule yields_bind [OF fold_screen [OF t]])
      (simp_all add: scroll_down_once_ok)
qed

section \<open>Moving columns\<close>

lemma edit_region_ok:
  assumes t: "screen c r t" and p: "params_in p" and f: "\<And>cell n l. line_ok c l \<Longrightarrow> yields (line_ok c) (f cell n l)"
  shows "yields (screen c r) (edit_region f p t)"
proof -
  have "yields (line_ok c) (do { l \<leftarrow> f cell n l; set_wrapped False l })" if "line_ok c l" for cell n l
    by (rule yields_bind [OF f [OF that]]) (rule set_wrapped_ok)
  then have "yields (screen c r) (if lines_Get y (activeBuffer v) = None then Some v
      else let v' = erase_ready v in on_line y
        (\<lambda>l. do { l \<leftarrow> f (GetNullCell (Some (t_eraseAttr v'))) n l; set_wrapped False l }) v')" if "screen c r v" for y n v
    using that by (auto simp: Let_def intro!: on_line_screen)
  then show ?thesis unfolding edit_region_def Let_def using t
    by (auto intro!: yields_bind [OF param_yields(4) [OF p]] yields_bind [OF fold_screen [OF t]])
qed

lemma edit_regions_ok:
  assumes "screen c r t" and "params_in p"
  shows "yields (screen c r) (scrollLeft p t)" "yields (screen c r) (scrollRight p t)"
    "yields (screen c r) (insertColumns p t)" "yields (screen c r) (deleteColumns p t)"
  using cursor_bounds(1) [OF assms(1)] screen_size [OF assms(1)]
  by (auto simp: scrollLeft_def scrollRight_def insertColumns_def deleteColumns_def Let_def at_col_def
      intro!: edit_region_ok [OF assms] line_bulk)

section \<open>Reports and settings\<close>

lemma param_screen: "params_in p \<Longrightarrow> (\<And>v. screen c r (f v)) \<Longrightarrow> yields (screen c r) (map_option f (param 0 p))"
  by (simp, rule yields_mono [OF param_yields(1)]) auto

lemma reports_ok:
  assumes "screen c r t" and "params_in p"
  shows "yields (screen c r) (sendDeviceAttributesPrimary p t)" "yields (screen c r) (sendDeviceAttributesSecondary p t)"
    "yields (screen c r) (sendXtVersion p t)" "yields (screen c r) (deviceStatus p t)"
    "yields (screen c r) (deviceStatusPrivate p t)" "yields (screen c r) (requestMode b p t)"
    "yields (screen c r) (kittyKeyboardQuery p t)"
  unfolding sendDeviceAttributesPrimary_def sendDeviceAttributesSecondary_def sendXtVersion_def deviceStatus_def
    deviceStatusPrivate_def requestMode_def report_if_def kittyKeyboardQuery_def
  by (simp_all only: yields_simps if_split_asm)
    (auto simp: assms intro!: yields_mono [OF param_yields(1) [OF assms(2)]])

lemma core_Reset_ok [simp]: "screen c r (core_Reset t) = screen c r t"
  by (simp add: core_Reset_def)

lemma screen_curAttr: "screen c r t \<Longrightarrow> ad_Extended a \<noteq> None \<Longrightarrow> screen c r (t\<lparr>t_curAttr := a\<rparr>)"
  by (simp add: screen_def with_curAttr)

lemma curAttr_ext: "screen c r t \<Longrightarrow> ad_Extended (t_curAttr t) \<noteq> None"
  by (simp add: screen_def screen_with_def)

lemma screen_region:
  "screen c r t \<Longrightarrow> 0 \<le> y1 \<Longrightarrow> y1 \<le> y2 \<Longrightarrow> y2 < int r \<Longrightarrow> screen c r (on_buf (\<lambda>b. b\<lparr>b_ScrollTop := y1, b_ScrollBottom := y2\<rparr>) t)"
  by (rule screen_on_buf) (simp_all add: live_region screen_live)

lemma softReset_ok: "screen c r t \<Longrightarrow> yields (screen c r) (softReset p t)"
proof -
  assume t: "screen c r t"
  let ?t = "happens OnSyncScrollBar (t\<lparr>t_IsCursorHidden := False\<rparr>)"
  have "t_Rows ?t = r" "1 \<le> r" using screen_size [OF t] by (simp_all add: happens_def)
  then have "screen c r (on_buf (\<lambda>b. b\<lparr>b_ScrollTop := 0, b_ScrollBottom := int (t_Rows ?t) - 1\<rparr>) ?t)"
    using t by (intro screen_region) auto
  then have "screen c r (core_Reset (on_buf (\<lambda>b. b\<lparr>b_ScrollTop := 0, b_ScrollBottom := int (t_Rows ?t) - 1\<rparr>) ?t
      \<lparr>t_curAttr := DefaultAttrData\<rparr>))"
    by (simp, intro screen_curAttr) (simp_all add: DefaultAttrData_def)
  note saved = screen_on_buf [where f = "\<lambda>b. b\<lparr>b_SavedState := s b\<rparr>" for s]
  show ?thesis unfolding softReset_def Let_def yields_simps charset_ok
    by (rule saved) (use \<open>screen c r (core_Reset _)\<close> in \<open>simp_all only: charset_ok ok_updates screen_live active_simps\<close>)
qed

lemma settings_ok:
  assumes t: "screen c r t" and p: "params_in p"
  shows "yields (screen c r) (setCursorStyle p t)" "yields (screen c r) (setScrollRegion p t)"
    "yields (screen c r) (selectProtected p t)" "yields (screen c r) (kittyKeyboardSet p t)"
    "yields (screen c r) (kittyKeyboardPush p t)" "yields (screen c r) (kittyKeyboardPop p t)"
    "yields (screen c r) (windowOptions p t)"
proof -
  note p0 = yields_bind [OF param_yields(1) [OF p]] and p1 = yields_bind [OF param_yields(2) [OF p]]
  show "yields (screen c r) (setCursorStyle p t)" unfolding setCursorStyle_def Let_def
    using t p param_yields(1) [OF p] by (auto simp: yields_def)
  have "screen c r (if n < m then setCursor 0 0 (on_buf (\<lambda>b. b\<lparr>b_ScrollTop := n - 1, b_ScrollBottom := m - 1\<rparr>) t) else t)"
    if "1 \<le> n" "m \<le> int (t_Rows t)" for n m
    using that t screen_size [OF t] by (auto intro!: setCursor_ok(1) screen_region)
  then show "yields (screen c r) (setScrollRegion p t)" unfolding setScrollRegion_def Let_def
    by (intro yields_bind [OF param_yields(3) [OF p]], intro p1) simp
  show "yields (screen c r) (selectProtected p t)" unfolding selectProtected_def Let_def
    using t curAttr_ext [OF t] by (intro param_screen [OF p]) (auto intro!: screen_curAttr)
  show "yields (screen c r) (kittyKeyboardSet p t)" unfolding kittyKeyboardSet_def
    by (intro p0, intro p1) (simp add: t)
  show "yields (screen c r) (kittyKeyboardPush p t)" "yields (screen c r) (kittyKeyboardPop p t)"
    unfolding kittyKeyboardPush_def kittyKeyboardPop_def by (intro param_screen [OF p]; simp add: t)+
  have "screen c r (window_push n t)" "screen c r (window_pop n t)" for n
    using t by (auto simp: window_push_def window_pop_def Let_def)
  then have "yields (screen c r) (do { m \<leftarrow> if 2 \<le> pa_Length p then param 1 p else Some 0;
      Some (if v = 22 then window_push m t else window_pop m t) })" for v :: int
    by (intro p1) simp
  then show "yields (screen c r) (windowOptions p t)" unfolding windowOptions_def
    using t by (auto simp del: One_nat_def intro!: p0)
qed

text \<open>The graphic rendition.\<close>

lemma sgr_code_ext: "ad_Extended a \<noteq> None \<Longrightarrow> ad_Extended (sgr_code params i p a) \<noteq> None"
  by (simp add: sgr_code_def Let_def processSGR0_def processUnderline_def UpdateExtended_def)

lemma sgr_loop_ext: "ad_Extended attr \<noteq> None \<Longrightarrow> sgr_loop params i attr = Some attr' \<Longrightarrow> ad_Extended attr' \<noteq> None"
proof (induction params i attr rule: sgr_loop.induct)
  case (1 params i attr)
  have color: "ad_Extended a \<noteq> None" if "extractColor params i attr = Some (n, a)" for n a
    using that \<open>ad_Extended attr \<noteq> None\<close>
    by (auto simp: extractColor_def apply_color_def UpdateExtended_def Let_def split: option.splits if_splits)
  show ?case
    using 1 color sgr_code_ext [OF \<open>ad_Extended attr \<noteq> None\<close>]
    by (subst (asm) sgr_loop.simps) (auto simp: Let_def split: if_splits option.splits)
qed

lemma charAttributes_ok:
  assumes t: "screen c r t" and p: "params_wf p"
  shows "yields (screen c r) (csi_charAttributes p t)"
proof -
  obtain xs where "repr p xs" using p by (cases "params_view p") (auto simp: params_wf_def)
  from charAttributes_some [OF this] obtain a where a: "charAttributes p (t_curAttr t) = Some a" by blast
  have "ad_Extended (processSGR0 (t_curAttr t)) \<noteq> None" by (simp add: processSGR0_def Let_def UpdateExtended_def)
  then have "ad_Extended a \<noteq> None"
    using a sgr_loop_ext [OF curAttr_ext [OF t]] by (auto simp: charAttributes_def split: if_splits)
  then show ?thesis using t a by (simp add: csi_charAttributes_def screen_curAttr)
qed

section \<open>Modes\<close>

lemma each_param_ok:
  assumes "screen c r t" and p: "params_in p" and "\<And>v t. screen c r t \<Longrightarrow> yields (screen c r) (f v t)"
  shows "yields (screen c r) (each_param f p t)"
  unfolding each_param_def
proof (rule yields_fold)
  fix i u assume "i \<in> set [0..<pa_Length p]" "screen c r u"
  with param_some [OF p, of i] assms(3) show "yields (screen c r) (do { v \<leftarrow> param i p; f v u })" by auto
qed (rule assms(1))

lemma ansi_modes_ok: "screen c r t \<Longrightarrow> params_in p \<Longrightarrow> yields (screen c r) (setMode p t)"
  "screen c r t \<Longrightarrow> params_in p \<Longrightarrow> yields (screen c r) (resetMode p t)"
  by (auto simp: setMode_def resetMode_def ansi_mode_def intro!: each_param_ok)

lemma with_modes_ok [simp]: "screen c r (with_modes f t) = screen c r t"
  by (simp add: with_modes_def)

lemma screen_swapped_ok [simp]: "screen c r (screen_swapped t) = screen c r t"
  by (simp add: screen_swapped_def)

lemma buffer_Clear_ok: "buf_ok c r b \<Longrightarrow> 1 \<le> r \<Longrightarrow> r \<le> MaxBufferSize \<Longrightarrow> idle c r (buffer_Clear b)"
  by (auto simp: buffer_Clear_def idle_def buf_ok_def NewCircularList_def getCorrectBufferLength_def
      lines_ok_def slots_def clist_ok_def clist_view_def SetupTabStops_def Let_def)

lemma enter_alt_ok:
  assumes t: "screen c r t"
  shows "yields (screen c r) (enter_alt t)"
proof -
  define u where "u = erase_ready (t\<lparr>t_kitty := kitty_to_alt (t_kitty t)\<rparr>)"
  have u: "screen c r u" using t by (simp add: u_def)
  have "yields (screen c r) (ActivateAltBuffer (t_eraseAttr u) u)"
  proof (cases "t_alt_active u")
    case False
    then have normal: "live c r (t_normal u)" and alt: "idle c r (t_alt u)"
      using u by (auto simp: screen_def screen_with_def activeBuffer_def)
    note b = live_bounds(1-4) [OF normal]
    show ?thesis unfolding ActivateAltBuffer_def if_not_P [OF False]
      by (rule yields_bind [OF FillViewportRows_ok [OF alt]])
        (use u b normal False in \<open>auto simp: settle_def Let_def screen_def screen_with_def activeBuffer_def happens_def intro!: live_move\<close>)
  qed (use u in \<open>simp add: ActivateAltBuffer_def\<close>)
  then show ?thesis by (simp add: enter_alt_def Let_def u_def)
qed

lemma ActivateNormalBuffer_ok: "screen c r t \<Longrightarrow> screen c r (ActivateNormalBuffer t)"
proof (cases "t_alt_active t")
  case True
  assume t: "screen c r t"
  then have normal: "live c r (t_normal t)" and alt: "live c r (t_alt t)" and r: "1 \<le> r" "r \<le> MaxBufferSize"
    using True by (auto simp: screen_def screen_with_def activeBuffer_def)
  have "buf_ok c r ((ClearAllMarkers (t_alt t))\<lparr>b_disposed := []\<rparr>)"
    using alt by (simp add: ClearAllMarkers_def live_def buf_ok_def)
  from buffer_Clear_ok [OF this r] show ?thesis
    using t True live_move [OF normal live_bounds(1-4) [OF alt]]
    by (simp add: ActivateNormalBuffer_def settle_def Let_def screen_def screen_with_def activeBuffer_def happens_def)
qed (simp add: ActivateNormalBuffer_def)

lemma leave_alt_ok: "screen c r t \<Longrightarrow> screen c r (leave_alt b t)"
  by (simp add: leave_alt_def Let_def ActivateNormalBuffer_ok RestoreCursor_ok)

lemma either_ok: "yields P x \<Longrightarrow> yields P y \<Longrightarrow> yields P (if b then x else y)"
  "screen c r t \<Longrightarrow> screen c r u \<Longrightarrow> screen c r (if b then t else u)"
  by simp_all

lemma private_set_ok: "screen c r t \<Longrightarrow> yields (screen c r) (private_set v t)"
  unfolding private_set_def
  by (intro either_ok) (simp_all add: setCursor_ok SaveCursor_ok enter_alt_ok)

lemma private_reset_ok: "screen c r t \<Longrightarrow> yields (screen c r) (private_reset v t)"
  unfolding private_reset_def yields_simps
  by (intro either_ok) (simp_all add: setCursor_ok RestoreCursor_ok leave_alt_ok)

lemma private_modes_ok: "screen c r t \<Longrightarrow> params_in p \<Longrightarrow> yields (screen c r) (setModePrivate p t)"
  "screen c r t \<Longrightarrow> params_in p \<Longrightarrow> yields (screen c r) (resetModePrivate p t)"
  by (auto simp: setModePrivate_def resetModePrivate_def private_set_ok private_reset_ok intro!: each_param_ok)

section \<open>All control sequences\<close>

definition safe_csi :: "nat \<Rightarrow> nat \<Rightarrow> (Params \<Rightarrow> Term \<Rightarrow> Term option) \<Rightarrow> bool" where
  "safe_csi c r f \<longleftrightarrow> (\<forall>p t. params_wf p \<longrightarrow> screen c r t \<longrightarrow> yields (screen c r) (f p t))"

lemma safe_csiI: "(\<And>p t. params_wf p \<Longrightarrow> params_in p \<Longrightarrow> screen c r t \<Longrightarrow> yields (screen c r) (f p t)) \<Longrightarrow> safe_csi c r f"
  by (simp add: safe_csi_def params_wf_in)

lemma csi_safe [simp]:
  "safe_csi c r cursorUp" "safe_csi c r cursorDown" "safe_csi c r cursorForward" "safe_csi c r cursorBackward"
  "safe_csi c r cursorNextLine" "safe_csi c r cursorPrecedingLine" "safe_csi c r cursorCharAbsolute"
  "safe_csi c r cursorPosition" "safe_csi c r cursorForwardTab" "safe_csi c r cursorBackwardTab"
  "safe_csi c r charPosAbsolute" "safe_csi c r hPositionRelative" "safe_csi c r linePosAbsolute"
  "safe_csi c r vPositionRelative" "safe_csi c r hVPosition" "safe_csi c r eraseInDisplay" "safe_csi c r eraseInLine"
  "safe_csi c r eraseChars" "safe_csi c r eraseInDisplayProtected" "safe_csi c r eraseInLineProtected"
  "safe_csi c r insertChars" "safe_csi c r insertLines" "safe_csi c r deleteLines" "safe_csi c r deleteChars"
  "safe_csi c r scrollUp" "safe_csi c r scrollDown" "safe_csi c r scrollLeft" "safe_csi c r scrollRight"
  "safe_csi c r insertColumns" "safe_csi c r deleteColumns" "safe_csi c r sendDeviceAttributesPrimary"
  "safe_csi c r sendDeviceAttributesSecondary" "safe_csi c r sendXtVersion" "safe_csi c r tabClear"
  "safe_csi c r csi_charAttributes" "safe_csi c r deviceStatus" "safe_csi c r deviceStatusPrivate"
  "safe_csi c r softReset" "safe_csi c r (requestMode b)" "safe_csi c r setCursorStyle" "safe_csi c r setScrollRegion"
  "safe_csi c r windowOptions" "safe_csi c r csiSaveCursor" "safe_csi c r csiRestoreCursor"
  "safe_csi c r kittyKeyboardSet" "safe_csi c r kittyKeyboardQuery" "safe_csi c r kittyKeyboardPush"
  "safe_csi c r kittyKeyboardPop" "safe_csi c r selectProtected" "safe_csi c r setMode" "safe_csi c r resetMode"
  "safe_csi c r setModePrivate" "safe_csi c r resetModePrivate"
  by (rule safe_csiI; simp add: move_ok cursorNextLine_def cursorPrecedingLine_def home_X_ok [simplified] cursorPosition_ok
      tabs_move_ok hVPosition_def eraseInDisplay_def eraseInLine_def eraseInDisplay_ok eraseInLine_ok edit_rows_ok
      eraseInDisplayProtected_def eraseInLineProtected_def lines_ok_csi edit_regions_ok reports_ok charAttributes_ok
      softReset_ok settings_ok csiSaveCursor_def csiRestoreCursor_def SaveCursor_ok RestoreCursor_ok
      ansi_modes_ok private_modes_ok)+

lemma csi_table_safe: "list_all (\<lambda>e. safe_csi c r (snd e)) csi_table"
  by (simp add: csi_table_def)

lemma csi_ok:
  assumes "screen c r t" and "params_wf p" and "map_of csi_table ident = Some f"
  shows "yields (screen c r) (f p t)"
  using csi_table_safe [of c r] map_of_SomeD [OF assms(3)] assms(1,2) by (auto simp: list_all_iff safe_csi_def)

end
