(* ===== verification/Vt_Print_Safe.thy ===== *)
theory Vt_Print_Safe
  imports Vt_Modes_Safe
begin

text \<open>
  Printing keeps the invariant of the terminal. It returns when every character takes a column of
  its own; a character of width 0 behind the last column may not.
\<close>

section \<open>Results that may be missing\<close>

text \<open>With \<open>b\<close> there is a result; in any case a result satisfies \<open>P\<close>.\<close>

definition ends :: "bool \<Rightarrow> ('a \<Rightarrow> bool) \<Rightarrow> 'a option \<Rightarrow> bool" where
  "ends b P m \<longleftrightarrow> (b \<longrightarrow> m \<noteq> None) \<and> (\<forall>x. m = Some x \<longrightarrow> P x)"

lemma ends_simps [simp]: "ends b P (Some x) = P x" "ends b P None \<longleftrightarrow> \<not> b"
  "ends b P (map_option f n) = ends b (\<lambda>x. P (f x)) n" "ends True P m = yields P m"
  by (auto simp: ends_def yields_def)

lemma ends_yields: "yields P m \<Longrightarrow> ends b P m"
  by (auto simp: ends_def yields_def)

lemma ends_bind: "ends b Q m \<Longrightarrow> (\<And>x. Q x \<Longrightarrow> ends b P (f x)) \<Longrightarrow> ends b P (Option.bind m f)"
  by (cases m) auto

lemma ends_mono: "ends b Q m \<Longrightarrow> (\<And>x. Q x \<Longrightarrow> P x) \<Longrightarrow> ends b P m"
  by (auto simp: ends_def)

lemma ends_if: "(q \<Longrightarrow> ends b P m) \<Longrightarrow> (\<not> q \<Longrightarrow> ends b P n) \<Longrightarrow> ends b P (if q then m else n)"
  by simp

lemma ends_weaken: "ends b P m \<Longrightarrow> (b' \<Longrightarrow> b) \<Longrightarrow> ends b' P m"
  by (auto simp: ends_def)

section \<open>Cells\<close>

lemma live_cursor_row: "screen c r t \<Longrightarrow> \<exists>l. lines_Get (cursor_row t) (activeBuffer t) = Some l \<and> line_ok c l"
  using live_Get [OF screen_live [of c r t]] cursor_bounds(5,6) [of c r t] by blast

lemma on_line_ends:
  assumes t: "screen c r t" and f: "\<And>l. line_ok c l \<Longrightarrow> ends b (\<lambda>l'. line_ok c l' \<and> Q) (f l)"
  shows "ends b (\<lambda>t'. screen c r t' \<and> same t t' \<and> Q) (on_line (cursor_row t) f t)"
proof -
  obtain l where l: "lines_Get (cursor_row t) (activeBuffer t) = Some l" "line_ok c l" using live_cursor_row [OF t] by blast
  have "screen c r (on_buf (lines_Set (cursor_row t) (Some l')) t)" if "line_ok c l'" for l'
    by (rule screen_on_buf [OF t]) (rule live_Set [OF screen_live [OF t] that])
  then show ?thesis unfolding on_line_def l(1) option.case ends_simps
    by (intro ends_mono [OF f [OF l(2)]]) (auto simp: same_def)
qed

lemma cell_ends: "line_ok c l \<Longrightarrow> (b \<Longrightarrow> i < c) \<Longrightarrow> ends b (\<lambda>l'. line_ok c l' \<and> i < c) (SetCellFromCodepoint i code w attrs l)"
  using line_writes(2) [of c l i code w attrs]
  by (auto simp: ends_def SetCellFromCodepoint_def Let_def line_ok_def yields_def)

lemma put_cell_ends:
  assumes t: "screen c r t" and "b \<Longrightarrow> cur_X t < int c"
  shows "ends b (\<lambda>t'. screen c r t' \<and> cur_X t' = cur_X t + 1) (put_cell code w t)"
proof -
  have x: "0 \<le> cur_X t" using cursor_bounds(1) [OF t] .
  have "ends b (\<lambda>t'. screen c r t' \<and> same t t' \<and> cur_X t < int c)
      (on_line (cursor_row t) (\<lambda>l. at_col (cur_X t) (\<lambda>x. SetCellFromCodepoint x code w (t_curAttr t) l)) t)"
  proof (rule on_line_ends [OF t])
    fix l assume "line_ok c l"
    then have "ends b (\<lambda>l'. line_ok c l' \<and> nat (cur_X t) < c) (SetCellFromCodepoint (nat (cur_X t)) code w (t_curAttr t) l)"
      by (rule cell_ends) (use assms(2) x in linarith)
    then show "ends b (\<lambda>l'. line_ok c l' \<and> cur_X t < int c)
        (at_col (cur_X t) (\<lambda>x. SetCellFromCodepoint x code w (t_curAttr t) l))"
      using x by (auto simp: at_col_def elim!: ends_mono)
  qed
  then show ?thesis unfolding put_cell_def
  proof (rule ends_bind)
    fix u assume u: "screen c r u \<and> same t u \<and> cur_X t < int c"
    then have "cur_X u = cur_X t" using same_simps(1) by blast
    then have "screen c r (set_X (cur_X u + 1) u)" using u x by (intro screen_X) auto
    then show "ends b (\<lambda>t'. screen c r t' \<and> cur_X t' = cur_X t + 1) (Some (set_X (cur_X u + 1) u))"
      using \<open>cur_X u = cur_X t\<close> by (simp add: set_X_def on_buf_def cur_simps)
  qed
qed

lemma put_cells_ends:
  "screen c r t \<Longrightarrow> (b \<Longrightarrow> cur_X t + int (length xs) \<le> int c) \<Longrightarrow> ends b (screen c r) (fold_opt (\<lambda>_. put_cell 0 0) xs t)"
proof (induction xs arbitrary: t)
  case (Cons x xs)
  have "ends b (screen c r) (Option.bind (put_cell 0 0 t) (fold_opt (\<lambda>_. put_cell 0 0) xs))"
    by (rule ends_bind [OF put_cell_ends [OF Cons.prems(1)]]) (use Cons.prems(2) in \<open>auto intro!: Cons.IH\<close>)
  then show ?case by (cases "put_cell 0 0 t") auto
qed simp

lemma put_char_ends:
  assumes "screen c r t" and "b \<Longrightarrow> cur_X t + int (max w 1) \<le> int c"
  shows "ends b (screen c r) (put_char code w t)"
  unfolding put_char_def
  by (rule ends_bind [OF put_cell_ends [OF assms(1)]]) (use assms(2) in \<open>auto intro!: put_cells_ends\<close>)

lemma join_char_ends: "screen c r t \<Longrightarrow> ends False (screen c r) (join_char code w t)"
proof -
  assume t: "screen c r t"
  have join: "ends False (\<lambda>l'. line_ok c l' \<and> True) (do {
      w' \<leftarrow> at_col (cur_X t - 1) (\<lambda>x. line_GetWidth x l);
      at_col (cur_X t - (if w' = 0 then 2 else 1)) (\<lambda>x. AddCodepointToCell x code w l) })" if "line_ok c l" for l
    by (rule ends_bind [where Q = "\<lambda>_. True"])
      (use that in \<open>auto simp: ends_def at_col_def AddCodepointToCell_def Let_def line_ok_def bind_eq_Some_conv split: option.splits if_splits\<close>)
  show ?thesis unfolding join_char_def by (rule ends_mono [OF on_line_ends [OF t join]]) auto
qed

lemma shift_row_ok:
  assumes t: "screen c r t"
  shows "yields (\<lambda>t'. screen c r t' \<and> same t t') (shift_row n t)"
proof -
  have b: "0 \<le> cur_X t" "t_Cols t = c" "0 < c" "c - 1 < c" using cursor_bounds(1) [OF t] screen_size [OF t] by auto
  show ?thesis unfolding shift_row_def
  proof (rule on_line_ok [OF t])
    fix l assume l: "line_ok c l"
    have "yields (line_ok c) (at_col (cur_X t) (\<lambda>x. InsertCells x (nat n) (GetNullCell (Some (t_curAttr t))) l))"
      using line_bulk(1) [OF l b(3)] b by (simp add: at_col_def)
    then show "yields (line_ok c) (do {
        l \<leftarrow> at_col (cur_X t) (\<lambda>x. InsertCells x (nat n) (GetNullCell (Some (t_curAttr t))) l);
        w \<leftarrow> at_col (int (t_Cols t) - 1) (\<lambda>x. line_GetWidth x l);
        if w = 2 then SetCellFromCodepoint (t_Cols t - 1) 0 1 (t_curAttr t) l else Some l })"
    proof (rule yields_bind)
      fix l' assume l': "line_ok c l'"
      then obtain w where "line_GetWidth (c - 1) l' = Some w" using line_reads(1) b(4) by blast
      moreover have "nat (int c - 1) = c - 1" "0 \<le> int c - 1" using b(3) by auto
      ultimately show "yields (line_ok c) (do {
          w \<leftarrow> at_col (int (t_Cols t) - 1) (\<lambda>x. line_GetWidth x l');
          if w = 2 then SetCellFromCodepoint (t_Cols t - 1) 0 1 (t_curAttr t) l' else Some l' })"
        using line_writes(2) [OF l' b(4)] l' b(2) by (auto simp: at_col_def simp del: One_nat_def)
    qed
  qed
qed

lemma cut_wide_ok:
  assumes t: "screen c r t"
  shows "yields (screen c r) (cut_wide_before t)" "yields (screen c r) (cut_wide_after t)"
proof -
  have b: "0 \<le> cur_X t" "cur_X t \<le> int c" "t_Cols t = c" using cursor_bounds(1,2) [OF t] screen_size [OF t] by auto
  show "yields (screen c r) (cut_wide_before t)" unfolding cut_wide_before_def
  proof (rule on_line_screen [OF t])
    fix l assume l: "line_ok c l"
    have i: "nat (cur_X t - 1) < c" if "0 < cur_X t" using b that by linarith
    show "yields (line_ok c) (if 0 < cur_X t then do {
        w \<leftarrow> line_GetWidth (nat (cur_X t - 1)) l;
        if w = 2 then SetCellFromCodepoint (nat (cur_X t - 1)) 0 1 (t_curAttr t) l else Some l }
      else Some l)"
      using line_reads(1) [OF l i] line_writes(2) [OF l i] l by auto
  qed
  show "yields (screen c r) (cut_wide_after t)" unfolding cut_wide_after_def
  proof (rule on_line_screen [OF t])
    fix l assume l: "line_ok c l"
    have i: "nat (cur_X t) < c" if "cur_X t < int c" using b that by linarith
    show "yields (line_ok c) (if cur_X t < int (t_Cols t) then at_col (cur_X t) (\<lambda>x. do {
        w \<leftarrow> line_GetWidth x l;
        c \<leftarrow> (if w = 0 then line_HasContent x l else Some 1);
        if w = 0 \<and> c = 0 then SetCellFromCodepoint x 0 1 (t_curAttr t) l else Some l })
      else Some l)"
      using line_reads(1,3) [OF l i] line_writes(2) [OF l i] l b by (auto simp: at_col_def)
  qed
qed

section \<open>Wrapping\<close>

lemma set_XY [simp]: "cur_X (set_Y y t) = cur_X t" "cur_X (set_X x t) = x" "t_Cols (set_X x t) = t_Cols t"
  "cur_X (erase_ready t) = cur_X t"
  by (simp_all add: set_Y_def set_X_def on_buf_def cur_simps)

lemma Scroll_X: "Scroll a w t = Some t' \<Longrightarrow> cur_X t' = cur_X t"
  by (auto simp: Scroll_def try_buf_def scroll_full_width_def scroll_region_def Let_def bind_eq_Some_conv on_buf_def
      lines_Splice_def lines_Recycle_def lines_Push_def lines_Set_def lines_ShiftElements_def cur_simps
      split: if_splits option.splits)

lemma wrap_row_ok: "screen c r t \<Longrightarrow> yields (\<lambda>t'. screen c r t' \<and> cur_X t' = 0) (wrap_row t)"
proof -
  assume "screen c r t"
  then have t: "screen c r (set_X 0 t)" by (simp add: screen_X)
  have y: "cur_Y (set_X 0 t) = cur_Y t" by (simp add: set_X_def on_buf_def cur_simps)
  have scrolled: "yields (\<lambda>t'. screen c r t' \<and> cur_X t' = 0) (Scroll a True (erase_ready v))" if "screen c r v" "cur_X v = 0" for v a
  proof -
    have "yields (screen c r) (Scroll a True (erase_ready v))" by (rule Scroll_ok) (simp add: that)
    then show ?thesis using Scroll_X that(2) by (fastforce simp: yields_def)
  qed
  have wrapped: "yields (\<lambda>t'. screen c r t' \<and> cur_X t' = 0) (on_line i (set_wrapped True) v)" if "screen c r v" "cur_X v = 0" for v i
    by (rule yields_mono [OF on_line_ok [OF that(1) set_wrapped_ok]]) (use that(2) same_simps(1) in auto)
  show ?thesis
    using row_below [OF t refl, unfolded y] unfolding wrap_row_def Let_def y
    by (auto intro!: scrolled wrapped)
qed

section \<open>Characters\<close>

lemma AddLineToLink_ok:
  assumes "screen c r t"
  shows "screen c r (AddLineToLink i y t)" "cur_X (AddLineToLink i y t) = cur_X t" "t_Cols (AddLineToLink i y t) = t_Cols t"
proof -
  have "screen c r (on_buf (AddMarker m y) (t\<lparr>t_nextMarker := k\<rparr>))" for m k
    by (rule screen_on_buf) (use assms in \<open>simp_all add: screen_def AddMarker_def screen_live [unfolded screen_def]\<close>)
  then show "screen c r (AddLineToLink i y t)" "cur_X (AddLineToLink i y t) = cur_X t" "t_Cols (AddLineToLink i y t) = t_Cols t"
    using assms by (auto simp: AddLineToLink_def new_marker_def on_buf_def cur_simps AddMarker_def split: option.splits)
qed

lemma put_tail_ends:
  assumes "screen c r t" and "b \<Longrightarrow> cur_X t + int (max w 1) \<le> int c"
  shows "ends b (screen c r) (do { t \<leftarrow> (if t_InsertMode t then shift_row n t else Some t); put_char code w t })"
proof (rule ends_bind [where Q = "\<lambda>t'. screen c r t' \<and> cur_X t' = cur_X t"])
  show "ends b (\<lambda>t'. screen c r t' \<and> cur_X t' = cur_X t) (if t_InsertMode t then shift_row n t else Some t)"
    by (cases "t_InsertMode t")
      (use assms(1) same_simps(1) in \<open>auto intro!: ends_mono [OF ends_yields [OF shift_row_ok [OF assms(1)]]]\<close>)
qed (use assms(2) in \<open>auto intro!: put_char_ends\<close>)

text \<open>A character with a column of its own, or a soft hyphen, which is dropped.\<close>

definition own_column :: "Charset \<Rightarrow> u32 \<Rightarrow> bool" where
  "own_column charset code \<longleftrightarrow> code = 0xAD \<or> 0 < Wcwidth (sint (translate charset code))"

lemma print_char_ends:
  assumes t: "screen c r t"
  shows "ends (own_column charset code) (\<lambda>(go, j, t). screen c r t) (print_char charset code (joinState, t))"
proof (cases "code = 0xAD")
  case False
  define info where "info = CharProperties (sint (translate charset code)) joinState"
  define w where "w = ExtractCharPropsWidth info"
  define join where "join = ExtractShouldJoin info"
  define old where "old = (if join then ExtractCharPropsWidth joinState else 0)"
  define u where "u = (if getCurrentLinkId t \<noteq> 0 then AddLineToLink (nat (getCurrentLinkId t)) (cursor_row t) t else t)"
  define b where "b = own_column charset code"
  have u: "screen c r u" "t_Cols u = c" using AddLineToLink_ok [OF t] t screen_size [of c r] by (auto simp: u_def)
  note x = cursor_bounds(1,2) [OF u(1)] screen_size [OF u(1)]
  have join: "\<not> b \<and> old = w" if join
    using that False CharProperties_fields unfolding b_def own_column_def old_def w_def join_def info_def by auto
  have single: "w \<le> 2" "b \<Longrightarrow> 1 \<le> w" if "\<not> join"
    using that False CharProperties_fields Wcwidth_le unfolding b_def own_column_def w_def join_def info_def by auto
  have rest: "ends b (\<lambda>(go, j, t). screen c r t)
     (if overflow \<and> wrap \<and> lines_Get (cursor_row v) (activeBuffer v) = None then Some (False, info, v)
      else if join \<and> 0 < cur_X v then map_option (\<lambda>t. (True, info, t)) (join_char (translate charset code) w v)
      else do {
        t \<leftarrow> (if t_InsertMode v then shift_row (int w - int old) v else Some v);
        map_option (\<lambda>t. (True, info, t)) (put_char (translate charset code) w t) })"
    if v: "screen c r v" "b \<Longrightarrow> cur_X v + int w \<le> int c" for v overflow wrap
  proof -
    have map_bind: "Option.bind m (\<lambda>t. map_option g (h t)) = map_option g (Option.bind m h)" for m and g :: "Term \<Rightarrow> bool \<times> int \<times> Term" and h
      by (cases m) simp_all
    have "b \<Longrightarrow> 1 \<le> w" using single(2) join by blast
    then have "b \<Longrightarrow> cur_X v + int (max w 1) \<le> int c" using v(2) by (simp add: max_absorb1)
    from put_tail_ends [OF v(1) this] show ?thesis
      using join v(1) ends_weaken [OF join_char_ends [OF v(1)]] by (auto simp: map_bind)
  qed
  have wrapped: "ends b (\<lambda>v. screen c r v \<and> (b \<longrightarrow> cur_X v + int w \<le> int c))
      (if overflow then if wrap then wrap_row u else Some (set_X (int (t_Cols u) - 1) u) else Some u)"
    if "overflow \<longleftrightarrow> int (t_Cols u) < cur_X u + int w - int old" "overflow \<and> \<not> wrap \<longrightarrow> w \<noteq> 2" for overflow wrap
  proof -
    have plain: "old = 0 \<and> 1 \<le> w \<and> w \<le> 2" if b using join single that by (auto simp: old_def)
    have last: "screen c r (set_X (int (t_Cols u) - 1) u)" using u x by (auto intro!: screen_X)
    have wrap: "ends b (\<lambda>v. screen c r v \<and> (b \<longrightarrow> cur_X v + int w \<le> int c)) (wrap_row u)"
      by (rule ends_mono [OF ends_yields [OF wrap_row_ok [OF u(1)]]]) (use plain x in auto)
    have "b \<longrightarrow> cur_X u + int w \<le> int c" if "\<not> overflow" using that plain u(2) \<open>overflow \<longleftrightarrow> _\<close> by auto
    moreover have "b \<longrightarrow> int (t_Cols u) - 1 + int w \<le> int c" if "overflow" "\<not> wrap"
      using that plain u(2) \<open>overflow \<and> \<not> wrap \<longrightarrow> w \<noteq> 2\<close> by auto
    ultimately show ?thesis using wrap last u(1) by simp
  qed
  have skip: "screen c r (set_X (int (t_Cols u) - 1) u)" using u x by (auto intro!: screen_X)
  show ?thesis unfolding print_char_def prod.case if_not_P [OF False] Let_def
      b_def [symmetric] info_def [symmetric] w_def [symmetric] join_def [symmetric] old_def [symmetric] u_def [symmetric]
    by (rule ends_if, simp add: skip, rule ends_bind [OF wrapped], rule refl, blast) (rule rest, auto)
qed (simp add: print_char_def t)

lemma print_loop_ends:
  assumes "screen c r (snd s)"
  shows "ends (\<forall>code \<in> set codes. own_column charset code) (\<lambda>(go, j, t). screen c r t) (print_loop charset codes s)"
  using assms
proof (induction codes arbitrary: s)
  case (Cons code codes)
  obtain j t where s: "s = (j, t)" by fastforce
  have head: "ends (own_column charset code) (\<lambda>(go, j, t). screen c r t) (print_char charset code s)"
    using print_char_ends [of c r t] Cons.prems s by simp
  show ?case
  proof (cases "print_char charset code s")
    case None
    with head show ?thesis by simp
  next
    case (Some res)
    obtain go s' where res: "res = (go, s')" by (cases res)
    then have "screen c r (snd s')" using head Some by (auto simp: split_beta)
    then show ?thesis using Some res Cons.IH [of s']
      by (cases go) (auto simp: split_beta elim!: ends_weaken)
  qed
qed (auto simp: split_beta)

text \<open>\<open>Print\<close> uses the charset that is active when it starts.\<close>

lemma Print_ends:
  assumes t: "screen c r t"
  shows "ends (\<forall>code \<in> set codes. own_column (cs_Charset (t_charset t)) code) (\<lambda>(j, t). screen c r t) (Print codes (joinState, t))"
proof -
  have row: "lines_Get (cursor_row t) (activeBuffer t) \<noteq> None" using live_cursor_row [OF t] by auto
  have cut: "yields (screen c r) (if codes \<noteq> [] then cut_wide_before v else Some v)"
    "yields (screen c r) (if codes \<noteq> [] then cut_wide_after v else Some v)" if "screen c r v" for v
    using cut_wide_ok [OF that] that by auto
  have last: "ends b (\<lambda>(j, t). screen c r t) (case res of (False, s') \<Rightarrow> Some s' | (True, j, t) \<Rightarrow> do {
      t \<leftarrow> (if codes \<noteq> [] then cut_wide_after t else Some t); Some (j, MarkDirty (cur_Y t) t) })"
    if "case res of (go, j, t) \<Rightarrow> screen c r t" for res b
  proof -
    obtain go j u where res: "res = (go, j, u)" by (cases res)
    then have u: "screen c r u" using that by simp
    have "ends b (\<lambda>(j, t). screen c r t) (do { t \<leftarrow> (if codes \<noteq> [] then cut_wide_after u else Some u); Some (j, MarkDirty (cur_Y t) t) })"
      by (rule ends_bind [OF ends_yields [OF cut(2) [OF u]]]) simp
    with u show ?thesis unfolding res prod.case by (cases go) (simp_all only: bool.case, simp)
  qed
  show ?thesis unfolding Print_def prod.case if_not_P [OF row] Let_def
    by (rule ends_bind [OF ends_yields [OF cut(1)]], simp add: t,
      rule ends_bind [OF print_loop_ends [where c = c and r = r]], simp) (rule last)
qed

end
