(* ===== verification/Vt_Runs.thy ===== *)
theory Vt_Runs
  imports Vt_Print_Safe
begin

text \<open>
  The invariant of the terminal over everything that is written to it, whatever the bytes and
  however they are cut into writes, and what becomes of single characters and sequences.
\<close>

section \<open>What string handlers keep\<close>

definition str_keeps :: "('e \<Rightarrow> bool) \<Rightarrow> 'e str_behaviour \<Rightarrow> bool" where
  "str_keeps E B \<longleftrightarrow> (\<forall>h e. E e \<longrightarrow> E (sh_Start (sb_handler B h) e)) \<and> (\<forall>h xs e. E e \<longrightarrow> E (sh_Put (sb_handler B h) xs e))
     \<and> (\<forall>h b e. E e \<longrightarrow> E (snd (sh_End (sb_handler B h) b e))) \<and> (\<forall>i a e. E e \<longrightarrow> E (sb_fallback B i a e))"

definition dcs_keeps :: "('e \<Rightarrow> bool) \<Rightarrow> 'e dcs_behaviour \<Rightarrow> bool" where
  "dcs_keeps E D \<longleftrightarrow> (\<forall>h p e. E e \<longrightarrow> E (dh_Hook (db_handler D h) p e)) \<and> (\<forall>h xs e. E e \<longrightarrow> E (dh_Put (db_handler D h) xs e))
     \<and> (\<forall>h b e. E e \<longrightarrow> E (snd (dh_Unhook (db_handler D h) b e))) \<and> (\<forall>i a e. E e \<longrightarrow> E (db_fallback D i a e))"

lemma fold_keeps: "E e \<Longrightarrow> (\<And>h e. E e \<Longrightarrow> E (f h e)) \<Longrightarrow> E (fold f hs e)"
  by (induction hs arbitrary: e) auto

lemma bubble_end_keeps: "E e \<Longrightarrow> (\<And>h b e. E e \<Longrightarrow> E (snd (f h b e))) \<Longrightarrow> E (bubble_end f success hs e)"
proof (induction hs arbitrary: e)
  case (Cons h hs)
  obtain b e' where h: "f h success e = (b, e')" by fastforce
  then have "E e'" using Cons.prems(2) [OF Cons.prems(1), of h success] by simp
  then show ?case using h Cons by (cases b) (auto simp: end_handlers_def intro!: fold_keeps [where E = E])
qed simp

lemma end_handlers_keeps: "E e \<Longrightarrow> (\<And>h b e. E e \<Longrightarrow> E (snd (f h b e))) \<Longrightarrow> E (end_handlers f hs e)"
  unfolding end_handlers_def by (rule fold_keeps [where E = E])

lemma string_ops_keep:
  assumes B: "str_keeps E B" and e: "E e"
  shows "E (snd (sp_Reset B p e))" "E (snd (sp_start B p e))" "E (sp_put B xs p e)" "E (snd (sp_Start B p e))"
    "E (sp_finish B b p e)" "E (snd (osc_End B b p e))" "E (snd (apc_End B b p e))"
proof -
  have ends: "E (snd (end_of B h b e))" if "E e" for h b e using B that by (simp add: str_keeps_def end_of_def)
  show reset: "E (snd (sp_Reset B p e))" using e ends by (auto simp: sp_Reset_def intro!: end_handlers_keeps [where E = E])
  have first: "E (sh_Start (sb_handler B h) e)" if "E e" for h e using B that by (simp add: str_keeps_def)
  have start: "E (snd (sp_start B p e))" for p
    using e B by (auto simp: sp_start_def str_keeps_def intro!: first fold_keeps [where E = E] split: option.splits list.splits)
  then show "E (snd (sp_start B p e))" .
  show "E (sp_put B xs p e)" using e B by (auto simp: sp_put_def str_keeps_def intro!: fold_keeps [where E = E])
  show "E (snd (sp_Start B p e))" using reset by (simp add: sp_Start_def split_beta)
  have finish: "E (sp_finish B b p e)" if "E e" for p e
    using that B ends by (auto simp: sp_finish_def str_keeps_def intro!: bubble_end_keeps [where E = E])
  then show "E (sp_finish B b p e)" using e .
  show "E (snd (osc_End B b p e))" using start finish e by (auto simp: osc_End_def split_beta)
  show "E (snd (apc_End B b p e))" using finish e by (simp add: apc_End_def)
qed

lemma osc_id_loop_keeps: "str_keeps E B \<Longrightarrow> E e \<Longrightarrow> E (snd (snd (osc_id_loop B xs p e)))"
  by (induction B xs p e rule: osc_id_loop.induct) (simp_all add: string_ops_keep(2))

lemma put_payload_keeps: "str_keeps E B \<Longrightarrow> E (snd (snd res)) \<Longrightarrow> E (snd (put_payload B res))"
  by (auto simp: put_payload_def split_beta intro!: string_ops_keep(3))

lemma string_puts_keep:
  assumes B: "str_keeps E B" and e: "E (snd pe)"
  shows "E (snd (osc_Put B xs pe))" "E (snd (apc_Put B xs pe))"
proof -
  obtain p e where pe: "pe = (p, e)" by (cases pe)
  with e have e: "E e" by simp
  have "E (snd (snd (if sp_state p = StateID then osc_id_loop B xs p e else (xs, p, e))))"
    using osc_id_loop_keeps [OF B e] e by simp
  from put_payload_keeps [OF B this] show "E (snd (osc_Put B xs pe))" using e by (simp add: osc_Put_def pe)
  have "E (snd (snd (case xs of code # rest \<Rightarrow>
      if sp_state p = StateID then (rest, sp_start B (p\<lparr>sp_id := ucast code, sp_state := StatePayload\<rparr>) e) else (xs, p, e)
    | [] \<Rightarrow> (xs, p, e))))"
    using string_ops_keep(2) [OF B e] e by (cases xs) simp_all
  from put_payload_keeps [OF B this] show "E (snd (apc_Put B xs pe))" using e by (simp add: apc_Put_def pe)
qed

lemma dcs_ops_keep:
  assumes D: "dcs_keeps E D" and e: "E e"
  shows "E (snd (dcs_Reset D p e))" "E (snd (dcs_Hook D i ps p e))" "E (snd (dcs_Put D xs (p, e)))" "E (snd (dcs_Unhook D b p e))"
proof -
  have ends: "E (snd (unhook_of D h b e))" if "E e" for h b e using D that by (simp add: dcs_keeps_def unhook_of_def)
  show reset: "E (snd (dcs_Reset D p e))" using e ends by (auto simp: dcs_Reset_def intro!: end_handlers_keeps [where E = E])
  have hook: "E (dh_Hook (db_handler D h) ps e)" if "E e" for h e using D that by (simp add: dcs_keeps_def)
  show "E (snd (dcs_Hook D i ps p e))"
    using D reset by (auto simp: dcs_Hook_def dcs_keeps_def split_beta intro!: hook fold_keeps [where E = E] split: option.splits list.splits)
  show "E (snd (dcs_Put D xs (p, e)))" using D e by (auto simp: dcs_Put_def dcs_keeps_def intro!: fold_keeps [where E = E])
  show "E (snd (dcs_Unhook D b p e))" using D e ends by (auto simp: dcs_Unhook_def dcs_keeps_def intro!: bubble_end_keeps [where E = E])
qed

text \<open>A parser whose handlers keep its well-formedness and a property of what lies outside it.\<close>

definition vt_and :: "('e \<Rightarrow> bool) \<Rightarrow> 'e vt \<Rightarrow> bool" where
  "vt_and E v \<longleftrightarrow> vt_wf v \<and> E (vt_env v)"

definition all_keep :: "('e \<Rightarrow> bool) \<Rightarrow> 'e vt_handlers \<Rightarrow> bool" where
  "all_keep E H \<longleftrightarrow> handlers_keep (vt_and E) H \<and> str_keeps E (hd_osc H) \<and> dcs_keeps E (hd_dcs H) \<and> str_keeps E (hd_apc H)"

lemma vt_and_string:
  "E (snd (f (vt_osc v, vt_env v))) \<Longrightarrow> vt_wf v \<Longrightarrow> vt_and E (on_osc f v)"
  "E (snd (f (vt_apc v, vt_env v))) \<Longrightarrow> vt_wf v \<Longrightarrow> vt_and E (on_apc f v)"
  "E (snd (g (vt_dcs v, vt_env v))) \<Longrightarrow> vt_wf v \<Longrightarrow> vt_and E (on_dcs g v)"
  by (auto simp: vt_and_def vt_wf_def on_osc_def on_apc_def on_dcs_def split: prod.splits)

lemma vt_and_fields [simp]:
  "vt_and E (v\<lparr>precedingJoinState := j\<rparr>) = vt_and E v" "vt_and E (v\<lparr>vt_collect := c\<rparr>) = vt_and E v"
  by (simp_all add: vt_and_def)

lemma vt_and_after: "vt_and E v \<Longrightarrow> vt_and E (after_string v)"
  using zdm_wf by (auto simp: vt_and_def vt_wf_def after_string_def)

lemma act_keeps: "all_keep E H \<Longrightarrow> vt_and E v \<Longrightarrow> vt_and E (act H a code v)"
proof -
  assume H: "all_keep E H" and v: "vt_and E v"
  have keep: "str_keeps E (hd_osc H)" "dcs_keeps E (hd_dcs H)" "str_keeps E (hd_apc H)" "handlers_keep (vt_and E) H"
    using H by (simp_all add: all_keep_def)
  have e: "E (vt_env v)" "vt_wf v" using v by (simp_all add: vt_and_def)
  have "vt_and E (v\<lparr>vt_params := zdm (vt_params v), vt_collect := 0\<rparr>)"
    using v zdm_wf by (auto simp: vt_and_def vt_wf_def)
  moreover have "vt_and E (on_osc (\<lambda>(p, e). sp_Start (hd_osc H) p e) v)" "vt_and E (on_osc (\<lambda>(p, e). osc_End (hd_osc H) b p e) v)"
    "vt_and E (on_apc (\<lambda>(p, e). sp_Start (hd_apc H) p e) v)" "vt_and E (on_apc (\<lambda>(p, e). apc_End (hd_apc H) b p e) v)"
    "vt_and E (on_dcs (\<lambda>(p, e). dcs_Hook (hd_dcs H) i ps p e) v)" "vt_and E (on_dcs (\<lambda>(p, e). dcs_Unhook (hd_dcs H) b p e) v)" for b i ps
    using string_ops_keep [OF keep(1) e(1)] string_ops_keep [OF keep(3) e(1)] dcs_ops_keep [OF keep(2) e(1)] e(2)
    by (auto intro!: vt_and_string)
  ultimately show ?thesis
    using keeps_handlers [OF keep(4) v] v by (simp add: act_def Let_def vt_and_after)
qed

lemma consume_keeps: "all_keep E H \<Longrightarrow> vt_and E v \<Longrightarrow> vt_and E (consume H a codes v)"
proof -
  assume H: "all_keep E H" and v: "vt_and E v"
  have keep: "str_keeps E (hd_osc H)" "dcs_keeps E (hd_dcs H)" "str_keeps E (hd_apc H)" "handlers_keep (vt_and E) H"
    using H by (simp_all add: all_keep_def)
  have "vt_and E (hd_print H codes v)" using keep(4) v by (simp add: handlers_keep_def keeps_def)
  moreover have "vt_and E (v\<lparr>vt_params := fold param_char codes (vt_params v)\<rparr>)"
    using v fold_param_wf by (auto simp: vt_and_def vt_wf_def)
  moreover have "vt_and E (on_dcs (dcs_Put (hd_dcs H) codes) v)" "vt_and E (on_osc (osc_Put (hd_osc H) codes) v)"
    "vt_and E (on_apc (apc_Put (hd_apc H) codes) v)"
    using v string_puts_keep(1) [OF keep(1)] string_puts_keep(2) [OF keep(3)] dcs_ops_keep(3) [OF keep(2)]
    by (auto simp: vt_and_def [of E v] intro!: vt_and_string)
  ultimately show ?thesis by (simp add: consume_def)
qed

lemma Parse_all_keep:
  assumes H: "all_keep E H" and v: "vt_and E v"
  shows "vt_and E (Parse H i codes v)"
proof (rule Parse_keeps [where P = "vt_and E"])
  fix i c v assume "vt_and E v"
  then show "vt_and E (snd (hd_error H i c v))" using H by (simp add: all_keep_def handlers_keep_def keeps_def)
next
  fix t :: u16 and v :: "'a vt" assume "vt_and E v" "unat (and t 0xFF) < ParserStateLength"
  then show "vt_and E (enter t v)" by (simp add: vt_and_def enter_wf) (simp add: enter_def)
qed (use H v in \<open>simp_all add: consume_keeps act_keeps\<close>)

lemma input_all_keep:
  assumes H: "all_keep E H" and "vt_and E (snd dv)"
  shows "vt_and E (snd (input_Parse H data dv))"
proof -
  have feed: "vt_and E (snd (feed H ch dv))" if "vt_and E (snd dv)" for ch dv
    using that Parse_all_keep [OF H] by (simp add: feed_def split_beta)
  have "vt_and E (snd (fold (feed H) chs dv))" if "vt_and E (snd dv)" for chs dv
    using that by (induction chs arbitrary: dv) (simp_all add: feed)
  then show ?thesis using assms(2) feed by (simp add: input_Parse_def)
qed

section \<open>The handlers of the terminal\<close>

definition sound :: "nat \<Rightarrow> nat \<Rightarrow> Term option store \<Rightarrow> bool" where
  "sound c r s \<longleftrightarrow> (\<forall>t. st_rest s = Some t \<longrightarrow> screen c r t)"

lemma sound_acc [simp]: "sound c r (set_acc h a s) = sound c r s"
  by (simp add: sound_def set_acc_def)

lemma sound_rest: "sound c r (s\<lparr>st_rest := m\<rparr>) \<longleftrightarrow> (\<forall>t. m = Some t \<longrightarrow> screen c r t)"
  by (simp add: sound_def)

lemma collectors_keep:
  assumes "\<And>h d m. (\<forall>t. m = Some t \<longrightarrow> screen c r t) \<Longrightarrow> \<forall>t. snd (f h d m) = Some t \<longrightarrow> screen c r t"
  shows "str_keeps (sound c r) (string_collectors f)"
proof -
  have "screen c r t" if "f h d m = (b, Some t)" "\<forall>t. m = Some t \<longrightarrow> screen c r t" for h d m b t
    using assms [OF that(2), of h d] that(1) by simp
  then show ?thesis
    by (auto simp: str_keeps_def string_collectors_def collect_Start_def collect_Put_def collect_End_def Let_def
        sound_rest split: prod.splits) (auto simp: sound_def)
qed

lemma dcs_collectors_keep:
  assumes "\<And>h d ps m. (\<forall>t. m = Some t \<longrightarrow> screen c r t) \<Longrightarrow> \<forall>t. snd (f h d ps m) = Some t \<longrightarrow> screen c r t"
  shows "dcs_keeps (sound c r) (dcs_collectors f)"
proof -
  have "screen c r t" if "f h d ps m = (b, Some t)" "\<forall>t. m = Some t \<longrightarrow> screen c r t" for h d ps m b t
    using assms [OF that(2), of h d ps] that(1) by simp
  then show ?thesis
    by (auto simp: dcs_keeps_def dcs_collectors_def collect_Hook_def collect_Put_def collect_Unhook_def Let_def
        sound_rest split: prod.splits) (auto simp: sound_def)
qed

text \<open>Colours, titles, links and status strings.\<close>

lemma fire_colors_ok [simp]: "screen c r (fire_colors es t) = screen c r t"
  by (simp add: fire_colors_def)

lemma special_colors_ok: "screen c r t \<Longrightarrow> screen c r (fold (\<lambda>(i, s). fire_colors (color_request i s)) xs t)"
  by (induction xs arbitrary: t) (auto simp: split_beta)

lemma new_marker_ok: "screen c r t \<Longrightarrow> new_marker y t = (m, t') \<Longrightarrow> screen c r t'"
proof -
  assume t: "screen c r t" "new_marker y t = (m, t')"
  have "screen c r (on_buf (AddMarker (t_nextMarker t) y) (t\<lparr>t_nextMarker := t_nextMarker t + 1\<rparr>))"
    by (rule screen_on_buf) (use t in \<open>simp_all add: screen_def AddMarker_def screen_live [unfolded screen_def]\<close>)
  with t(2) show ?thesis by (auto simp: new_marker_def)
qed

lemma RegisterLink_ok: "screen c r t \<Longrightarrow> RegisterLink ident uri t = (i, t') \<Longrightarrow> screen c r t'"
  by (auto simp: RegisterLink_def Let_def AddLineToLink_ok dest: new_marker_ok split: option.splits prod.splits if_splits)

lemma set_link_ok: "screen c r t \<Longrightarrow> set_link i t = Some t' \<Longrightarrow> screen c r t'"
  by (auto simp: set_link_def UpdateExtended_def intro!: screen_curAttr)

lemma createHyperlink_ok: "screen c r t \<Longrightarrow> createHyperlink ps uri t = Some t' \<Longrightarrow> screen c r t'"
proof -
  assume t: "screen c r t" and link: "createHyperlink ps uri t = Some t'"
  then obtain u where u: "screen c r u" "(case RegisterLink (link_ID ps) uri u of (i, t) \<Rightarrow> set_link i t) = Some t'"
    by (auto simp: createHyperlink_def finishHyperlink_def bind_eq_Some_conv dest: set_link_ok split: if_splits)
  obtain i w where w: "RegisterLink (link_ID ps) uri u = (i, w)" by fastforce
  from set_link_ok [OF RegisterLink_ok [OF u(1) w]] u(2) w show ?thesis by simp
qed

lemma SetHyperlink_ok: "screen c r t \<Longrightarrow> SetHyperlink data t = Some (b, t') \<Longrightarrow> screen c r t'"
  by (auto simp: SetHyperlink_def finishHyperlink_def Let_def dest: set_link_ok createHyperlink_ok split: if_splits)

lemma osc_callback_ok: "screen c r t \<Longrightarrow> osc_callback n data t = Some (b, t') \<Longrightarrow> screen c r t'"
  by (auto simp: osc_callback_def SetTitle_def SetOrReportIndexedColor_def setOrReportSpecialColor_def RestoreIndexedColor_def
      RestoreSpecialColor_def special_colors_ok dest: SetHyperlink_ok split: if_splits)

lemma status_ok [simp]: "screen c r (requestStatusString data p t) = screen c r t"
  by (simp add: requestStatusString_def Let_def)

lemma strings_keep: "str_keeps (sound c r) osc_handlers" "dcs_keeps (sound c r) dcs_handlers"
  "str_keeps (sound c r) (hd_apc string_handlers)"
proof -
  show "str_keeps (sound c r) osc_handlers" unfolding osc_handlers_def
  proof (rule collectors_keep)
    fix h d and m :: "Term option" assume m: "\<forall>t. m = Some t \<longrightarrow> screen c r t"
    show "\<forall>t. snd (case Option.bind m (osc_callback h d) of None \<Rightarrow> (True, None) | Some (b, t) \<Rightarrow> (b, Some t)) = Some t \<longrightarrow> screen c r t"
      using m osc_callback_ok by (cases m) (auto split: option.splits)
  qed
  show "dcs_keeps (sound c r) dcs_handlers" unfolding dcs_handlers_def by (rule dcs_collectors_keep) auto
  show "str_keeps (sound c r) (hd_apc string_handlers)"
    unfolding string_handlers_def vt_handlers.simps by (rule collectors_keep) simp
qed

lemma on_terminal_keeps:
  assumes "vt_and (sound c r) v" and "\<And>t t'. screen c r t \<Longrightarrow> f t = Some t' \<Longrightarrow> screen c r t'"
  shows "vt_and (sound c r) (on_terminal f v)"
  using assms by (auto simp: vt_and_def vt_wf_def on_terminal_def sound_def bind_eq_Some_conv)

lemma with_join_keeps:
  assumes "vt_and (sound c r) v" and "\<And>j t j' t'. screen c r t \<Longrightarrow> f (j, t) = Some (j', t') \<Longrightarrow> screen c r t'"
  shows "vt_and (sound c r) (with_join f v)"
  using assms by (auto simp: vt_and_def vt_wf_def with_join_def sound_def bind_eq_Some_conv split: option.splits)

lemma yieldsD: "yields P m \<Longrightarrow> m = Some x \<Longrightarrow> P x"
  by (simp add: yields_def)

lemma Print_keeps: "screen c r t \<Longrightarrow> Print codes (j, t) = Some (j', t') \<Longrightarrow> screen c r t'"
  using Print_ends [of c r t codes j] by (simp add: ends_def)

lemma repeat_keeps: "screen c r t \<Longrightarrow> repeatPrecedingCharacter p (j, t) = Some (j', t') \<Longrightarrow> screen c r t'"
  by (auto simp: repeatPrecedingCharacter_def Let_def bind_eq_Some_conv dest: Print_keeps split: if_splits option.splits)

lemma FullReset_keeps: "vt_and (sound c r) v \<Longrightarrow> vt_and (sound c r) (FullReset v)"
proof -
  assume v: "vt_and (sound c r) v"
  let ?v0 = "v\<lparr>currentState := ParserStateGround\<rparr>"
  let ?v1 = "on_osc (\<lambda>(p, e). sp_Reset osc_handlers p e) ?v0"
  let ?v2 = "on_dcs (\<lambda>(p, e). dcs_Reset dcs_handlers p e) ?v1"
  let ?v3 = "on_apc (\<lambda>(p, e). sp_Reset (hd_apc string_handlers) p e) ?v2"
  have "vt_and (sound c r) ?v0" using v by (simp add: vt_and_def vt_wf_def)
  then have "vt_and (sound c r) ?v1" using string_ops_keep(1) [OF strings_keep(1)] by (auto simp: vt_and_def [of _ ?v0] intro!: vt_and_string)
  then have "vt_and (sound c r) ?v2" using dcs_ops_keep(1) [OF strings_keep(2)] by (auto simp: vt_and_def [of _ ?v1] intro!: vt_and_string)
  then have "vt_and (sound c r) ?v3" using string_ops_keep(1) [OF strings_keep(3)] by (auto simp: vt_and_def [of _ ?v2] intro!: vt_and_string)
  from vt_and_after [OF this] have "vt_and (sound c r) (parser_Reset string_handlers v)"
    by (simp add: parser_Reset_def Let_def after_string_def string_handlers_def)
  then show ?thesis unfolding FullReset_def
    by (rule on_terminal_keeps) (rule yieldsD [OF terminal_Reset_ok])
qed

lemma input_handlers_keep: "all_keep (sound c r) input_handlers"
proof -
  let ?P = "vt_and (sound c r)"
  have "keeps ?P (hd_print input_handlers xs)" for xs
    by (auto simp: keeps_def input_handlers_def intro!: with_join_keeps dest: Print_keeps)
  moreover have "keeps ?P f" if "hd_execute input_handlers k = Some f" for k f
    using that yieldsD [OF execute_ok] by (auto simp: keeps_def input_handlers_def intro!: on_terminal_keeps)
  moreover have "keeps ?P (\<lambda>v. snd (h v))" if "h \<in> set (hd_csi input_handlers i)" for h i
    unfolding keeps_def
  proof (intro allI impI)
    fix v :: terminal assume v: "?P v"
    then have p: "params_wf (vt_params v)" by (simp add: vt_and_def vt_wf_def)
    have csi: "screen c r t'" if "screen c r t" "map_of csi_table i = Some f" "f (vt_params v) t = Some t'" for f t t'
      using yieldsD [OF csi_ok [OF that(1) p that(2)] that(3)] .
    show "?P (snd (h v))"
    proof (cases "i = fn_identifier 0 [] 0x62")
      case True
      then show ?thesis using that v
        by (auto simp: input_handlers_def csi_handlers_def intro!: with_join_keeps dest: repeat_keeps)
    next
      case False
      with that obtain f where f: "map_of csi_table i = Some f" "h = (\<lambda>v. (True, on_terminal (f (vt_params v)) v))"
        by (cases "map_of csi_table i") (auto simp: input_handlers_def csi_handlers_def)
      show ?thesis unfolding f(2) snd_conv by (rule on_terminal_keeps [OF v]) (rule csi [OF _ f(1)])
    qed
  qed
  moreover have "keeps ?P (\<lambda>v. snd (h v))" if "h \<in> set (hd_esc input_handlers i)" for h i
    unfolding keeps_def
  proof (intro allI impI)
    fix v :: terminal assume v: "?P v"
    have esc: "?P (on_terminal f v)" if "map_of esc_table i = Some f \<or> charset_handler i = Some f" for f
      by (rule on_terminal_keeps [OF v]) (rule yieldsD [OF escape_ok [OF _ that]])
    show "?P (snd (h v))"
    proof (cases "i = fn_identifier 0 [] 0x63")
      case True
      then show ?thesis using that FullReset_keeps [OF v] by (simp add: input_handlers_def esc_handlers_def)
    next
      case False
      then show ?thesis using that esc
        by (cases "map_of esc_table i"; cases "charset_handler i") (simp_all add: input_handlers_def esc_handlers_def)
    qed
  qed
  moreover have "keeps ?P (hd_execute_fb input_handlers k)" "keeps ?P (hd_csi_fb input_handlers i)"
    "keeps ?P (hd_esc_fb input_handlers i)" "keeps ?P (\<lambda>v. snd (hd_error input_handlers j k v))" for i j k
    by (simp_all add: keeps_def input_handlers_def string_handlers_def)
  moreover have "hd_osc input_handlers = osc_handlers" "hd_dcs input_handlers = dcs_handlers"
    "hd_apc input_handlers = hd_apc string_handlers" by (simp_all add: input_handlers_def string_handlers_def)
  ultimately show ?thesis using strings_keep by (simp add: all_keep_def handlers_keep_def)
qed

section \<open>A terminal\<close>

lemma NewTerm_ok: "max rows MinimumRows \<le> MaxBufferSize \<Longrightarrow> yields (screen (max cols MinimumCols) (max rows MinimumRows)) (NewTerm cols rows opts)"
  unfolding NewTerm_def Let_def
  by (rule yields_bind [OF set_Reset_ok]) (simp_all add: MinimumCols_def MinimumRows_def DefaultAttrData_def)

lemma NewTerminal_ok:
  assumes "max rows MinimumRows \<le> MaxBufferSize"
  shows "vt_and (sound (max cols MinimumCols) (max rows MinimumRows)) (snd (NewTerminal cols rows opts))"
proof -
  have "vt_wf (NewInputHandler m)" for m
    using recording_wf by (simp add: NewInputHandler_def Let_def vt_wf_def recording_def NewEscapeSequenceParser_def)
  then show ?thesis using NewTerm_ok [OF assms, of cols opts]
    by (simp add: NewTerminal_def vt_and_def sound_def)
      (auto simp: NewInputHandler_def Let_def NewEscapeSequenceParser_def fresh_store_def dest: yieldsD)
qed

lemma report_write_ok [simp]: "screen c r (report_write x y t) = screen c r t"
  by (simp add: report_write_def Let_def)

lemma terminal_Write_keeps:
  assumes "vt_and (sound c r) (snd dv)"
  shows "vt_and (sound c r) (snd (terminal_Write data dv))"
proof (cases "st_rest (vt_env (snd dv))")
  case (Some t)
  have clear: "vt_and (sound c r) (on_terminal (\<lambda>t. Some (ClearRange t)) (snd dv))"
    by (rule on_terminal_keeps [OF assms]) auto
  have "vt_and (sound c r) (snd (input_Parse input_handlers data (fst dv, on_terminal (\<lambda>t. Some (ClearRange t)) (snd dv))))"
    by (rule input_all_keep [OF input_handlers_keep]) (simp add: clear)
  then show ?thesis using assms Some
    by (auto simp: terminal_Write_def split: prod.splits intro!: on_terminal_keeps)
qed (use assms in \<open>simp add: terminal_Write_def\<close>)

lemma writes_keep:
  "vt_and (sound c r) (snd dv) \<Longrightarrow> vt_and (sound c r) (snd (fold terminal_Write reads dv))"
  by (induction reads arbitrary: dv) (simp_all add: terminal_Write_keeps)

section \<open>Cutting a sequence off\<close>

lemma row_can_state:
  "vt500 0 0x18 = (ParserActionExecute, 0)" "vt500 1 0x18 = (ParserActionExecute, 0)" "vt500 2 0x18 = (ParserActionExecute, 0)"
  "vt500 3 0x18 = (ParserActionExecute, 0)" "vt500 4 0x18 = (ParserActionExecute, 0)" "vt500 5 0x18 = (ParserActionExecute, 0)"
  "vt500 6 0x18 = (ParserActionExecute, 0)" "vt500 7 0x18 = (ParserActionExecute, 0)" "vt500 8 0x18 = (ParserActionOSCEnd, 0)"
  "vt500 9 0x18 = (ParserActionExecute, 0)" "vt500 10 0x18 = (ParserActionExecute, 0)" "vt500 11 0x18 = (ParserActionExecute, 0)"
  "vt500 12 0x18 = (ParserActionExecute, 0)" "vt500 13 0x18 = (ParserActionDCSUnhook, 0)" "vt500 14 0x18 = (ParserActionAPCEnd, 0)"
  by (simp_all add: row del: upt_rec_numeral One_nat_def)

lemma row_can:
  assumes "s < ParserStateLength"
  shows "fst (vt500 s 0x18) \<in> {ParserActionExecute, ParserActionOSCEnd, ParserActionDCSUnhook, ParserActionAPCEnd}
    \<and> snd (vt500 s 0x18) = ParserStateGround"
proof -
  have "{..<15} = {0, 1, 2, 3, 4, 5, 6, 7, 8, 9, 10, 11, 12, 13, 14 :: nat}" by (auto simp: lessThan_nat_numeral lessThan_Suc)
  with assms have "s \<in> {0, 1, 2, 3, 4, 5, 6, 7, 8, 9, 10, 11, 12, 13, 14}" by blast
  then show ?thesis using row_can_state by (elim insertE emptyE) (simp_all del: One_nat_def)
qed

lemma Parse_can:
  assumes "vt_wf v"
  shows "\<exists>w. Parse input_handlers i (0x18 # codes) v = Parse input_handlers (i + 1) codes w
    \<and> currentState w = ParserStateGround \<and> precedingJoinState w = 0"
proof -
  let ?a = "fst (row_of v 0x18)"
  have a: "?a \<in> {ParserActionExecute, ParserActionOSCEnd, ParserActionDCSUnhook, ParserActionAPCEnd}"
    and n: "snd (row_of v 0x18) = ParserStateGround"
    using row_can [of "currentState v"] assms by (simp_all add: row_of_def code_slot_def vt_wf_def)
  let ?w = "enter (leave ?a 0x18 (transition v 0x18)) (act input_handlers ?a 0x18 v)"
  have "?a \<noteq> ParserActionError" "\<not> reads_ahead ?a" using a by (auto simp: reads_ahead_def)
  then have "Parse input_handlers i (0x18 # codes) v = Parse input_handlers (i + 1) codes ?w"
    by (simp only: Parse.simps(2) Let_def transition_parts if_False)
  moreover have "currentState ?w = ParserStateGround" using n by (simp add: enter_def leave_def transition_parts)
  moreover have "precedingJoinState ?w = 0" using a by (auto simp: enter_def act_def Let_def after_string_def)
  ultimately show ?thesis by blast
qed

lemma with_join_state [simp]: "currentState (with_join f v) = currentState v"
  by (simp add: with_join_def split: option.splits prod.splits)

definition printable :: "u32 \<Rightarrow> bool" where
  "printable code \<longleftrightarrow> 0x20 \<le> code \<and> code \<le> 0x7e \<or> 0xA0 \<le> code"

lemma Parse_text:
  assumes w: "currentState w = ParserStateGround" and codes: "codes \<noteq> []" "\<forall>code \<in> set codes. printable code"
  shows "Parse input_handlers i codes w = with_join (Print codes) w"
proof -
  obtain code rest where c: "codes = code # rest" using codes(1) by (cases codes) auto
  have slot: "0x20 \<le> code_slot code \<and> code_slot code \<le> 0x7e \<or> code_slot code = 0xA0"
    using codes(2) c by (auto simp: printable_def code_slot_def word_le_nat_alt word_less_nat_alt)
  then have row: "row_of w code = (ParserActionPrint, ParserStateGround)" using w row_ground by (simp add: row_of_def)
  have "continues ParserActionPrint x" if "x \<in> set rest" for x
    using codes(2) c that by (auto simp: continues_def printable_def word_le_nat_alt word_less_nat_alt)
  then have run: "takeWhile (continues ParserActionPrint) rest = rest" by (simp add: takeWhile_eq_all_conv)
  have "Parse input_handlers i codes w = (with_join (Print codes) w)\<lparr>currentState := ParserStateGround\<rparr>"
    by (simp add: row run c Parse.simps(2) Let_def transition_parts reads_ahead_def enter_def consume_def input_handlers_def)
  moreover have "u\<lparr>currentState := ParserStateGround\<rparr> = u" if "currentState u = ParserStateGround" for u :: terminal
    using that by (cases u) simp
  ultimately show ?thesis using w by simp
qed

section \<open>Behind the last column\<close>

lemma on_line_same: "on_line i f t = Some u \<Longrightarrow> same t u"
  by (auto simp: on_line_def same_def split: option.splits)

lemma put_cell_none:
  assumes t: "screen c r t" and x: "cur_X t = int c"
  shows "put_cell code w t = None"
proof -
  obtain l where "lines_Get (cursor_row t) (activeBuffer t) = Some l" "line_ok c l" using live_cursor_row [OF t] by blast
  then show ?thesis using x by (simp add: put_cell_def on_line_def at_col_def SetCellFromCodepoint_def line_ok_def)
qed

lemma print_char_none:
  assumes t: "screen c r t" and x: "cur_X t = int c" and code: "code \<noteq> 0xAD" "Wcwidth (sint (translate charset code)) = 0"
    and j: "joinState = 0 \<or> ExtractCharPropsWidth joinState = 0"
  shows "print_char charset code (joinState, t) = None"
proof -
  define u where "u = (if getCurrentLinkId t \<noteq> 0 then AddLineToLink (nat (getCurrentLinkId t)) (cursor_row t) t else t)"
  have u: "screen c r u" "t_Cols u = c" "cur_X u = int c"
    using AddLineToLink_ok [OF t] t x screen_size [of c r] by (auto simp: u_def)
  let ?info = "CharProperties (sint (translate charset code)) joinState"
  have info: "\<not> ExtractShouldJoin ?info" "ExtractCharPropsWidth ?info = 0" using CharProperties_fields code(2) j by auto
  obtain v where v: "(if t_InsertMode u then shift_row 0 u else Some u) = Some v" "screen c r v" "cur_X v = int c"
    using shift_row_ok [OF u(1), of 0] u by (cases "t_InsertMode u") (auto simp: yields_def dest: same_simps(1))
  have "put_char code' 0 v = None" for code' by (simp add: put_char_def put_cell_none [OF v(2,3)])
  then show ?thesis unfolding print_char_def prod.case if_not_P [OF code(1)] Let_def u_def [symmetric]
    using info u v(1) by (cases "t_InsertMode u") simp_all
qed

section \<open>Properties\<close>

text \<open>
  C36: Whatever is written to a terminal, in whatever pieces: as long as no handler has panicked, the
  parser is well-formed, the cursor is on the screen or just behind its last column, the scroll
  region and the viewport lie in the buffer, and every row in use is a line of the width of the
  screen.
\<close>

theorem screen_invariant:
  assumes "max rows MinimumRows \<le> MaxBufferSize" and "fold terminal_Write reads (NewTerminal cols rows opts) = (d, v)"
  shows "vt_wf v \<and> (\<forall>t. st_rest (vt_env v) = Some t \<longrightarrow> screen (max cols MinimumCols) (max rows MinimumRows) t)"
  using writes_keep [OF NewTerminal_ok [OF assms(1), of cols opts], of reads] assms(2)
  by (simp add: vt_and_def sound_def)

theorem screen_invariant_witness:
  "\<exists>d v. fold terminal_Write [[0x41], [0x1b, 0x5b, 0x48]] (NewTerminal 80 24 DefaultOptions) = (d, v) \<and> vt_wf v
     \<and> (\<forall>t. st_rest (vt_env v) = Some t \<longrightarrow> screen (max 80 MinimumCols) (max 24 MinimumRows) t)"
proof -
  obtain d v where dv: "fold terminal_Write [[0x41], [0x1b, 0x5b, 0x48]] (NewTerminal 80 24 DefaultOptions) = (d, v)" by fastforce
  have "max 24 MinimumRows \<le> MaxBufferSize" by (simp add: MinimumRows_def MaxBufferSize_def)
  from screen_invariant [OF this dv] dv show ?thesis by blast
qed

text \<open>A live terminal for the witnesses: 2 columns, 1 row.\<close>

lemma tiny_terminal: "\<exists>t. screen 2 1 t"
  using NewTerm_ok [of 1 2 DefaultOptions] by (auto simp: MinimumCols_def MinimumRows_def MaxBufferSize_def yields_def)



text \<open>
  C38: Printing characters that take a column of their own (or soft hyphens, which are dropped)
  returns and keeps the invariant: with or without wrapping, insert mode and hyperlinks, over wide
  characters it cuts in half, on a screen however narrow.
\<close>

theorem print_returns:
  assumes "screen c r t" and "\<forall>code \<in> set codes. own_column (cs_Charset (t_charset t)) code"
  shows "\<exists>joinState' t'. Print codes (joinState, t) = Some (joinState', t') \<and> screen c r t'"
  using Print_ends [OF assms(1), of codes joinState] assms(2) by (auto simp: ends_def)

theorem print_returns_witness: "\<exists>t joinState t'. screen 2 1 t \<and> Print [0x4e2d, 0x6587] (0, t) = Some (joinState, t') \<and> screen 2 1 t'"
proof -
  obtain t where t: "screen 2 1 t" using tiny_terminal by blast
  have "own_column charset 0x4e2d" "own_column charset 0x6587" for charset
    unfolding own_column_def translate_def by (simp_all add: Wcwidth_class in_ranges_def wideRanges_def bmpCombining_def highCombining_def)
  then show ?thesis using print_returns [OF t, of "[0x4e2d, 0x6587]" 0] t by auto
qed

text \<open>
  C39: Behind the last column, where the cursor waits after a full row, a character of width 0 with
  nothing to join (as after any control sequence) is written out of range: printing panics. On 80
  columns, 80 letters, a change of colour and a combining accent are enough.
\<close>

theorem print_margin_panics:
  assumes "screen c r t" and "cur_X t = int c" and "code \<noteq> 0xAD" "Wcwidth (sint (translate (cs_Charset (t_charset t)) code)) = 0"
    and "joinState = 0 \<or> ExtractCharPropsWidth joinState = 0"
  shows "Print (code # codes) (joinState, t) = None"
proof -
  let ?t = "MarkDirty (cur_Y t) t"
  have t: "screen c r ?t" "cur_X ?t = int c" using assms(1,2) by (simp_all add: cur_simps)
  have row: "lines_Get (cursor_row t) (activeBuffer t) \<noteq> None" using live_cursor_row [OF assms(1)] by auto
  obtain u where u: "cut_wide_before ?t = Some u" "screen c r u" using cut_wide_ok(1) [OF t(1)] by (auto simp: yields_def)
  have "same ?t u" by (rule on_line_same [OF u(1) [unfolded cut_wide_before_def]])
  then have "cur_X u = int c" using t(2) same_simps(1) by simp
  then have "print_char (cs_Charset (t_charset t)) code (joinState, u) = None" using assms u(2) by (intro print_char_none)
  then show ?thesis unfolding Print_def prod.case if_not_P [OF row] Let_def using u(1) by simp
qed

theorem print_margin_panics_witness: "\<exists>t. screen 2 1 t \<and> Print [0x301] (0, t) = None"
proof -
  obtain t where t: "screen 2 1 t" using tiny_terminal by blast
  then have "screen 2 1 (set_X 2 t)" by (simp add: screen_X)
  moreover have "cur_X (set_X 2 t) = int 2" by simp
  moreover have "Wcwidth (sint (translate charset 0x301)) = 0" for charset
    unfolding translate_def by (simp add: Wcwidth_class in_ranges_def bmpCombining_def)
  ultimately show ?thesis using print_margin_panics [of 2 1 "set_X 2 t" "0x301" 0 "[]"] by auto
qed

text \<open>
  C40: However deep in an unfinished sequence the parser is, the control character CAN brings it
  back: the text after it is printed as one run, joined to nothing before it.
\<close>

theorem parser_recovers:
  assumes "vt_wf v" and "codes \<noteq> []" and "\<forall>code \<in> set codes. printable code"
  shows "\<exists>w. Parse input_handlers i (0x18 # codes) v = with_join (Print codes) w
    \<and> currentState w = ParserStateGround \<and> precedingJoinState w = 0"
proof -
  obtain w where w: "Parse input_handlers i (0x18 # codes) v = Parse input_handlers (i + 1) codes w"
    "currentState w = ParserStateGround" "precedingJoinState w = 0" using Parse_can [OF assms(1)] by blast
  with Parse_text [OF w(2) assms(2,3)] show ?thesis by auto
qed

theorem parser_recovers_witness:
  "\<exists>w. Parse input_handlers 0 [0x18, 0x41] ((NewInputHandler None)\<lparr>currentState := 8\<rparr>) = with_join (Print [0x41]) w
    \<and> currentState w = ParserStateGround \<and> precedingJoinState w = 0"
proof (rule parser_recovers)
  show "vt_wf ((NewInputHandler None)\<lparr>currentState := 8\<rparr>)"
    using recording_wf by (simp add: NewInputHandler_def Let_def vt_wf_def recording_def NewEscapeSequenceParser_def)
qed (simp_all add: printable_def)

end
