(* ===== verification/Spec2Isabelle.thy ===== *)
theory Spec2Isabelle
  imports Batcher_Ops History_Chunks Dir_List Secure_Handshake Ring_Logger Circular_List
    Daemon_Gaps Text_Decoder Vt_Input Vt_Replay Vt_Cells Vt_Serialize Vt_Runs
begin

text \<open>
  A verification library for the CLIAnywhere daemon, a Go program that gives a phone or browser app
  access to shells on the machine it runs on. File names are relative to \<^verbatim>\<open>src/cmd/claw\<close> unless they
  start with \<^verbatim>\<open>xterm\<close>, which stands for \<^verbatim>\<open>src/internal/xterm\<close>.

  \<^bold>\<open>The program.\<close> The daemon keeps shell sessions (\<^verbatim>\<open>pty.go\<close>), each with an emulated terminal
  (\<^verbatim>\<open>terminal.go\<close>, \<^verbatim>\<open>xterm\<close>) from which the scrollback of a session is serialized when an app asks for its
  history. The output of the shells goes through a batcher (\<^verbatim>\<open>output_batcher.go\<close>) to the app, over a
  relay or a peer-to-peer channel (\<^verbatim>\<open>daemon.go\<close>), encrypted (\<^verbatim>\<open>securechannel.go\<close>) under keys that a
  password-authenticated exchange with a six-digit code established (\<^verbatim>\<open>spake2.go\<close>,
  \<^verbatim>\<open>secure_handshake.go\<close>). The app can also list directories and fetch files (\<^verbatim>\<open>filetransfer.go\<close>) and reach
  local servers through tunnels (\<^verbatim>\<open>proxy_manager.go\<close>). Messages are JSON envelopes and binary frames
  (\<^verbatim>\<open>protocol.go\<close>).

  \<^bold>\<open>How the code is modelled.\<close> A struct is a record, a slice a list, a map a partial function, a
  sized integer a word where its width matters; a call that may panic returns an option, \<open>None\<close> being
  the panic; an error is a value of a sum or option. An operation that the code runs under a mutex is
  one function on the state; objects shared by pointers (sessions, tasks, connections) live in stores
  indexed by handles, so that aliasing and double closing are visible. What an operation makes happen
  outside (messages, frames, writes, closes) is an output list in the order of the code. What comes
  from outside (random scalars, clocks, dials, reads, the file system) is an argument. Concurrency is
  the order of events in a run: the theorems about runs quantify over all event lists.

  \<^bold>\<open>Shared theories.\<close> \<open>Claw_Prelude\<close>: machine types, strings and bytes, big-endian integers, folds over
  panicking steps, list lemmas. \<open>Go_Json\<close>, \<open>Go_Base64\<close>: the parts of Go's standard library that fix what
  is on the wire. \<open>Bounded_Log\<close>: a locale, the contract of a log that drops its oldest element,
  interpreted by the ring of the logger and the circular list of the terminal.

  \<^bold>\<open>Protocol and security.\<close> \<open>Protocol\<close>: messages, their JSON, limits, opcodes. \<open>Secure_Channel\<close>
  (\<^verbatim>\<open>securechannel.go\<close>): wrapping and unwrapping of messages and frames; every subsequence of a channel's
  packets decodes at the paired end to exactly the payloads, nothing is accepted twice, no nonce
  repeats. \<open>Spake2\<close> (\<^verbatim>\<open>spake2.go\<close>): both sides derive the same keys, the transcript is injective.
  \<open>Secure_Handshake\<close> (\<^verbatim>\<open>secure_handshake.go\<close>): verification only by a matching tag, the honest run
  succeeds, the budget of guesses. AES-GCM, the curve and the digests are parameters; \<open>aead_ok\<close>,
  \<open>curve_ok\<close> and \<open>hashes_ok\<close> state the documented behaviour the code relies on, and each is shown to
  hold of concrete functions.

  \<^bold>\<open>Output and content.\<close> \<open>Output_Batcher\<close> and \<open>Batcher_Ops\<close> (\<^verbatim>\<open>output_batcher.go\<close>): every byte added
  is sent once and in order, messages fit the payload budget, a seal is a cut. \<open>History_Chunks\<close>
  (\<^verbatim>\<open>historyPlainChunks\<close> of \<^verbatim>\<open>daemon.go\<close>), \<open>Dir_List\<close> and \<open>File_Transfer\<close> (\<^verbatim>\<open>filetransfer.go\<close>): chunks
  reassemble to the whole, whatever interrupts a transfer leaves a prefix, listings fit their messages.
  \<open>Proxy_Manager\<close> (\<^verbatim>\<open>proxy_manager.go\<close>) and \<open>Pty_Manager\<close> (\<^verbatim>\<open>pty.go\<close>): tunnels and sessions against
  the abstract sets they implement. \<open>Ring_Logger\<close> (\<^verbatim>\<open>ring_logger.go\<close>): the log of the web entry.

  \<^bold>\<open>The daemon.\<close> \<open>Daemon\<close> (\<^verbatim>\<open>daemon.go\<close>) composes these: senders, dispatch, gating, pause, channel
  switch, signalling. \<open>Daemon_Safety\<close> proves the properties of runs: terminal content leaves encrypted
  or not at all, an app that has not verified reaches nothing, a paused session is silent.
  \<open>Daemon_Gaps\<close> shows the channel switch and, as theorems, where these guarantees end.

  \<^bold>\<open>The terminal emulator.\<close> \<open>Terminal_State\<close> (\<^verbatim>\<open>terminal.go\<close>) is the wrapper around the emulator.
  \<open>Circular_List\<close> (\<^verbatim>\<open>xterm/circularlist.go\<close>) refines a bounded list. \<open>Text_Decoder\<close>
  (\<^verbatim>\<open>xterm/textdecoder.go\<close>), \<open>Vt_Params\<close>, \<open>Vt_Table\<close>, \<open>Vt_Strings\<close>, \<open>Vt_Parser\<close> (\<^verbatim>\<open>xterm/parser*.go\<close>)
  and \<open>Vt_Input\<close> (\<^verbatim>\<open>InputHandler.Parse\<close>) are the way of a byte into a handler: reading ahead changes
  nothing, nor does the cutting of the input into reads, and no table or parameter access is out of
  range. \<open>Vt_Csi\<close> runs whole control sequences through the parser. \<open>Vt_Attr\<close> (\<^verbatim>\<open>xterm/attributedata.go\<close>),
  \<open>Vt_Sgr\<close> (\<^verbatim>\<open>xterm/inputhandler_sgr.go\<close> and the styles of \<^verbatim>\<open>xterm/serialize_addon.go\<close>) and
  \<open>Vt_Replay\<close> are the styles of cells: the handler is total, keeps its flag, and reads back what the
  serializer writes. \<open>Vt_Line\<close> (\<^verbatim>\<open>xterm/bufferline.go\<close>, \<^verbatim>\<open>xterm/celldata.go\<close>) packs the cells of a line
  into an array, and \<open>Vt_Cells\<close> shows that its operations are list operations.

  \<^bold>\<open>The screen.\<close> \<open>Vt_Unicode\<close> (\<^verbatim>\<open>xterm/unicode.go\<close>): the width of a code point by search in tables,
  shown to be membership in the sets they list. \<open>Vt_Charset\<close> (\<^verbatim>\<open>xterm/charset.go\<close>): national character
  sets. \<open>Vt_Buffer\<close> (\<^verbatim>\<open>xterm/buffer.go\<close>, \<^verbatim>\<open>marker.go\<close>): the rows as a circular list of lines, with the
  cursor, the saved cursor, the scroll region, the tab stops and the markers that follow lines; a line is
  a value, which is what the code's pointers mean as long as no two rows share one. \<open>Vt_Screen\<close> (\<^verbatim>\<open>xterm/bufferset.go\<close>,
  \<^verbatim>\<open>bufferservice.go\<close>, \<^verbatim>\<open>inputhandler_c0.go\<close>, \<^verbatim>\<open>inputhandler.go\<close>): the terminal's state, printing,
  scrolling, control characters. \<open>Vt_Handlers\<close>, \<open>Vt_Modes\<close> (\<^verbatim>\<open>xterm/inputhandler_csi.go\<close>,
  \<^verbatim>\<open>inputhandler_esc.go\<close>, \<^verbatim>\<open>inputhandler_osc.go\<close>): the handlers of every sequence. \<open>Vt_Terminal\<close>
  (\<^verbatim>\<open>xterm/terminal.go\<close>): the tables that register them with the parser, and a terminal that reads
  bytes. \<open>Vt_Serialize\<close> (\<^verbatim>\<open>xterm/serialize_addon.go\<close>): the text that replays a screen. Executed on the
  repository's golden conformance cases (\<^verbatim>\<open>xterm/conformance/testdata\<close>) that do not resize, these
  definitions give the recorded screens. \<open>Vt_Invariant\<close> states the invariant of a live terminal (every
  row a line of the width of the screen, the cursor and the regions inside it) and which operations
  of lines and buffers return and keep it. \<open>Vt_Safe\<close> (control characters, escape sequences),
  \<open>Vt_Csi_Safe\<close> and \<open>Vt_Modes_Safe\<close> (control sequences) and \<open>Vt_Print_Safe\<close> (text) prove the same of
  the handlers. \<open>Vt_Runs\<close> puts them together: whatever is written to a terminal, the invariant holds
  until a handler panics; every control sequence returns, and so does text whose characters take a
  column of their own; a combining character behind the last column panics; the control character CAN
  ends every unfinished sequence. That a repeated character (\<^verbatim>\<open>CSI b\<close>) returns is not shown.

  \<^bold>\<open>Bounds and termination.\<close> Every loop is a total recursive function with a measure: the bytes,
  parameters or columns left, the size a search halves, the counter of the hash-to-point search, which
  the code itself stops at 256. No definition carries fuel, so every theorem is about a run that ends.

  \<^bold>\<open>Not modelled.\<close> Transports (\<^verbatim>\<open>webrtc.go\<close>, \<^verbatim>\<open>wsrelay.go\<close>), the local server and the attach client,
  entry points and user interfaces, platform integration, proxy dialling and the update check are
  calls into networks, libraries and operating systems; what the daemon relies on from them appears as
  arguments and results. The goroutines' scheduling appears only as the order of events. Sizes that
  exhaust memory are not modelled. Of the emulator: resizing with its reflow of wrapped rows
  (\<^verbatim>\<open>xterm/bufferreflow.go\<close>, \<^verbatim>\<open>Buffer.Resize\<close>), \<^verbatim>\<open>CopyCellsFrom\<close>, the setters of options and the
  events that tell a user interface of changes.
\<close>

end
